(* ===== verification/Prelude.thy ===== *)
theory Prelude
  imports Main "HOL-Library.Word" "HOL-Library.Monad_Syntax"
begin

unbundle bit_operations_syntax

text \<open>
  What every component shares: the byte and word types, the status codes of
  \<^verbatim>\<open>sstp-common.h\<close>, C memory access with the failure written out, big-endian
  fields, and the interface locales that several components share: codecs, machines whose
  every step is safe under an invariant, and machines with a latch.

  A C memory error (a read or write outside an object, a call through a null function
  pointer, a read of an indeterminate pointer) is the value \<open>None\<close>; every definition
  that touches memory therefore returns an \<open>option\<close>, and \<open>Some\<close> says that this run
  of the code is free of such errors.
\<close>

section \<open>Types\<close>

type_synonym u8 = "8 word"
type_synonym u16 = "16 word"
type_synonym u32 = "32 word"
type_synonym bytes = "u8 list"

text \<open>The status codes of \<^verbatim>\<open>sstp-common.h\<close>.\<close>

datatype status_t =
    SSTP_FAIL
  | SSTP_OKAY
  | SSTP_INPROG
  | SSTP_CONNECTED
  | SSTP_OVERFLOW
  | SSTP_NOTIMPL
  | SSTP_TIMEOUT
  | SSTP_AUTHENTICATE

primrec status_code :: "status_t \<Rightarrow> int" where
  "status_code SSTP_FAIL = -1"
| "status_code SSTP_OKAY = 0"
| "status_code SSTP_INPROG = 1"
| "status_code SSTP_CONNECTED = 2"
| "status_code SSTP_OVERFLOW = 3"
| "status_code SSTP_NOTIMPL = 4"
| "status_code SSTP_TIMEOUT = 5"
| "status_code SSTP_AUTHENTICATE = 6"

text \<open>C compares status codes as integers, so they are ordered by their code.\<close>

lemma status_code_inj: "status_code a = status_code b \<Longrightarrow> a = b"
  by (cases a; cases b) simp_all

instantiation status_t :: linorder
begin

definition less_eq_status_t :: "status_t \<Rightarrow> status_t \<Rightarrow> bool" where
  "less_eq_status_t a b = (status_code a \<le> status_code b)"

definition less_status_t :: "status_t \<Rightarrow> status_t \<Rightarrow> bool" where
  "less_status_t a b = (status_code a < status_code b)"

instance
  by standard
    (auto simp: less_eq_status_t_def less_status_t_def intro: status_code_inj)

end

section \<open>Collections\<close>

named_theorems mem_simps \<open>evaluation of memory accesses whose bounds are known\<close>
named_theorems wf_intros \<open>operations that keep a well-formedness predicate\<close>
named_theorems unfold_ops \<open>definitions of the operations of a component\<close>

section \<open>C memory\<close>

text \<open>Conversion of an integer value to \<^verbatim>\<open>short\<close> (two's complement).\<close>

definition c_short :: "int \<Rightarrow> int" where
  "c_short x = signed_take_bit 15 x"

text \<open>Reads and writes of a byte object at an integer offset.\<close>

definition rd :: "bytes \<Rightarrow> int \<Rightarrow> u8 option" where
  "rd m i = (if 0 \<le> i \<and> i < int (length m) then Some (m ! nat i) else None)"

definition rd_n :: "bytes \<Rightarrow> int \<Rightarrow> int \<Rightarrow> bytes option" where
  "rd_n m i n =
     (if 0 \<le> i \<and> 0 \<le> n \<and> i + n \<le> int (length m)
      then Some (take (nat n) (drop (nat i) m)) else None)"

definition wr_n :: "bytes \<Rightarrow> int \<Rightarrow> bytes \<Rightarrow> bytes option" where
  "wr_n m i bs =
     (if 0 \<le> i \<and> i + int (length bs) \<le> int (length m)
      then Some (take (nat i) m @ bs @ drop (nat i + length bs) m) else None)"

lemma rd_nat [mem_simps]: "i < length m \<Longrightarrow> rd m (int i) = Some (m ! i)"
  by (simp add: rd_def)

lemma rd_Some_iff: "rd m i = Some b \<longleftrightarrow> 0 \<le> i \<and> i < int (length m) \<and> b = m ! nat i"
  by (auto simp: rd_def)

lemma rd_None_iff: "rd m i = None \<longleftrightarrow> i < 0 \<or> int (length m) \<le> i"
  by (auto simp: rd_def)

lemma rd_n_length: "rd_n m i n = Some bs \<Longrightarrow> int (length bs) = n"
  by (auto simp: rd_n_def split: if_splits)

lemma wr_n_length: "wr_n m i bs = Some m' \<Longrightarrow> length m' = length m"
  by (auto simp: wr_n_def split: if_splits)

lemma wr_n_defined:
  "0 \<le> i \<Longrightarrow> i + int (length bs) \<le> int (length m) \<Longrightarrow>
   wr_n m i bs = Some (take (nat i) m @ bs @ drop (nat i + length bs) m)"
  by (simp add: wr_n_def)

lemma rd_n_defined:
  "0 \<le> i \<Longrightarrow> 0 \<le> n \<Longrightarrow> i + n \<le> int (length m) \<Longrightarrow>
   rd_n m i n = Some (take (nat n) (drop (nat i) m))"
  by (simp add: rd_n_def)

text \<open>A block that was written reads back.\<close>

lemma rd_n_wr_n: "wr_n m i bs = Some m' \<Longrightarrow> rd_n m' i (int (length bs)) = Some bs"
  by (auto simp: wr_n_def rd_n_def split: if_splits)

lemma rd_wr_n_outside:
  assumes "wr_n m i bs = Some m'" "j < i \<or> i + int (length bs) \<le> j"
  shows "rd m' j = rd m j"
  using assms
  by (auto simp: wr_n_def rd_def nth_append split: if_splits)

lemma rd_append_right: "0 \<le> k \<Longrightarrow> rd (pre @ ys) (int (length pre) + k) = rd ys k"
  by (simp add: rd_def nth_append nat_add_distrib)

lemma c_short_id [simp]: "- 32768 \<le> x \<Longrightarrow> x < 32768 \<Longrightarrow> c_short x = x"
  by (simp add: c_short_def signed_take_bit_int_eq_self)

lemma list_of_8: "8 \<le> length xs \<Longrightarrow> \<exists>a b c d e f g h ys. xs = a # b # c # d # e # f # g # h # ys"
  by (auto simp: numeral_eq_Suc Suc_le_length_iff)

lemma take_drop_split: "xs = take n xs @ take m (drop n xs) @ drop (n + m) xs"
proof -
  have "drop (n + m) xs = drop m (drop n xs)" by (simp add: add.commute)
  then show ?thesis by (simp only: append_take_drop_id)
qed

lemma wr_n_split: "i = int (length a) \<Longrightarrow> length b' = length b \<Longrightarrow>
    wr_n (a @ b @ c) i b' = Some (a @ b' @ c)"
  by (simp add: wr_n_def)

lemma wr_n_at: "i = int (length a) \<Longrightarrow> length b' = length b \<Longrightarrow> m = a @ b @ c \<Longrightarrow> m' = a @ b' @ c \<Longrightarrow>
    wr_n m i b' = Some m'"
  by (simp add: wr_n_split)

section \<open>Big-endian fields\<close>

text \<open>\<^verbatim>\<open>htons\<close>/\<^verbatim>\<open>htonl\<close> followed by a store, and the loads that undo them.\<close>

definition be16 :: "u16 \<Rightarrow> bytes" where
  "be16 v = [ucast (drop_bit 8 v), ucast v]"

definition be32 :: "u32 \<Rightarrow> bytes" where
  "be32 v = [ucast (drop_bit 24 v), ucast (drop_bit 16 v), ucast (drop_bit 8 v), ucast v]"

definition un16 :: "u8 \<Rightarrow> u8 \<Rightarrow> u16" where
  "un16 a b = push_bit 8 (ucast a) OR ucast b"

definition un32 :: "u8 \<Rightarrow> u8 \<Rightarrow> u8 \<Rightarrow> u8 \<Rightarrow> u32" where
  "un32 a b c d =
     push_bit 24 (ucast a) OR push_bit 16 (ucast b) OR push_bit 8 (ucast c) OR ucast d"

definition rd16 :: "bytes \<Rightarrow> int \<Rightarrow> u16 option" where
  "rd16 m i = do { a \<leftarrow> rd m i; b \<leftarrow> rd m (i + 1); Some (un16 a b) }"

definition rd32 :: "bytes \<Rightarrow> int \<Rightarrow> u32 option" where
  "rd32 m i = do {
     a \<leftarrow> rd m i; b \<leftarrow> rd m (i + 1); c \<leftarrow> rd m (i + 2); d \<leftarrow> rd m (i + 3);
     Some (un32 a b c d) }"

lemma length_be16 [simp]: "length (be16 v) = 2"
  by (simp add: be16_def)

lemma length_be32 [simp]: "length (be32 v) = 4"
  by (simp add: be32_def)

lemma un16_be16 [simp]: "un16 (ucast (drop_bit 8 v)) (ucast v) = v"
  by (rule bit_word_eqI)
    (auto simp: un16_def bit_simps)

lemma un32_be32 [simp]:
  "un32 (ucast (drop_bit 24 v)) (ucast (drop_bit 16 v)) (ucast (drop_bit 8 v)) (ucast v) = v"
proof (rule bit_word_eqI)
  fix n assume "n < LENGTH(32)"
  then show "bit (un32 (ucast (drop_bit 24 v)) (ucast (drop_bit 16 v))
      (ucast (drop_bit 8 v)) (ucast v)) n \<longleftrightarrow> bit v n"
    by (cases "n < 8"; cases "n < 16"; cases "n < 24") (auto simp: un32_def bit_simps)
qed

lemma rd16_split: "i = int (length a) \<Longrightarrow> rd16 (a @ be16 v @ c) i = Some v"
  using rd_append_right [of 0 a "be16 v @ c"] rd_append_right [of 1 a "be16 v @ c"]
  by (simp add: rd16_def) (simp add: rd_def be16_def)

lemma word_of_int_nat [simp]: "word_of_int (int n) = (of_nat n :: 'a::len word)"
  by simp

section \<open>Shared interfaces\<close>

text \<open>A partial decoder that undoes an encoder on the values the encoder accepts.\<close>

locale codec =
  fixes enc :: "'a \<Rightarrow> 'b" and dec :: "'b \<Rightarrow> 'a option" and ok :: "'a \<Rightarrow> bool"
  assumes dec_enc: "ok x \<Longrightarrow> dec (enc x) = Some x"
begin

lemma enc_inj: "ok x \<Longrightarrow> ok y \<Longrightarrow> enc x = enc y \<Longrightarrow> x = y"
  by (metis dec_enc option.inject)

lemma inj_on_enc: "inj_on enc (Collect ok)"
  by (rule inj_onI) (metis enc_inj mem_Collect_eq)

lemma enc_eq_iff: "ok x \<Longrightarrow> ok y \<Longrightarrow> enc x = enc y \<longleftrightarrow> x = y"
  by (metis enc_inj)

end

text \<open>
  A sequence of events handled one after the other; \<open>None\<close> is a memory error in one of
  the handlers.
\<close>

primrec run_steps :: "('i \<Rightarrow> 's \<Rightarrow> 's option) \<Rightarrow> 'i list \<Rightarrow> 's \<Rightarrow> 's option" where
  "run_steps step [] s = Some s"
| "run_steps step (i # is) s = do { s \<leftarrow> step i s; run_steps step is s }"

lemma run_steps_append:
  "run_steps step (is @ js) s = do { s \<leftarrow> run_steps step is s; run_steps step js s }"
proof (induction "is" arbitrary: s)
  case (Cons i "is")
  then show ?case by (cases "step i s") simp_all
qed simp

text \<open>
  A machine whose handlers, from a state that satisfies the invariant and for an event that may
  happen in it, run without a memory error and keep the invariant. A run is allowed when each
  event may happen in the state it meets.
\<close>

primrec allowed :: "('i \<Rightarrow> 's \<Rightarrow> 's option) \<Rightarrow> ('i \<Rightarrow> 's \<Rightarrow> bool) \<Rightarrow> 'i list \<Rightarrow> 's \<Rightarrow> bool" where
  "allowed step may [] s = True"
| "allowed step may (i # is) s = (may i s \<and> (case step i s of None \<Rightarrow> True | Some s' \<Rightarrow> allowed step may is s'))"

lemma allowed_always: "list_all m is \<Longrightarrow> allowed step (\<lambda>i _. m i) is s"
  by (induction "is" arbitrary: s) (auto split: option.splits)

locale enabled_machine =
  fixes step :: "'i \<Rightarrow> 's \<Rightarrow> 's option" and inv :: "'s \<Rightarrow> bool" and may :: "'i \<Rightarrow> 's \<Rightarrow> bool"
  assumes step_safe: "inv s \<Longrightarrow> may i s \<Longrightarrow> \<exists>s'. step i s = Some s' \<and> inv s'"
begin

lemma run_safe:
  "inv s \<Longrightarrow> allowed step may is s \<Longrightarrow> \<exists>s'. run_steps step is s = Some s' \<and> inv s'"
proof (induction "is" arbitrary: s)
  case (Cons i "is")
  then obtain s1 where "step i s = Some s1" "inv s1" using step_safe [of s i] by auto
  then show ?case using Cons by simp
qed simp

lemma run_inv: "inv s \<Longrightarrow> allowed step may is s \<Longrightarrow> run_steps step is s = Some s' \<Longrightarrow> inv s'"
  using run_safe by fastforce

lemma run_total: "inv s \<Longrightarrow> allowed step may is s \<Longrightarrow> run_steps step is s \<noteq> None"
  using run_safe by fastforce

end

text \<open>The case in which what may happen does not depend on the state.\<close>

locale guarded_machine =
  fixes step :: "'i \<Rightarrow> 's \<Rightarrow> 's option" and inv :: "'s \<Rightarrow> bool" and may :: "'i \<Rightarrow> bool"
  assumes step_safe: "inv s \<Longrightarrow> may i \<Longrightarrow> \<exists>s'. step i s = Some s' \<and> inv s'"

sublocale guarded_machine \<subseteq> always: enabled_machine step inv "\<lambda>i _. may i"
  by unfold_locales (rule step_safe)

context guarded_machine
begin

lemma run_safe:
  "inv s \<Longrightarrow> list_all may is \<Longrightarrow> \<exists>s'. run_steps step is s = Some s' \<and> inv s'"
  by (rule always.run_safe [OF _ allowed_always])

lemma run_inv: "inv s \<Longrightarrow> list_all may is \<Longrightarrow> run_steps step is s = Some s' \<Longrightarrow> inv s'"
  using run_safe by fastforce

end

text \<open>A machine in which a fact, once true, stays true.\<close>

locale latched_machine = enabled_machine +
  fixes latch :: "'s \<Rightarrow> bool"
  assumes step_latch: "inv s \<Longrightarrow> may i s \<Longrightarrow> latch s \<Longrightarrow> step i s = Some s' \<Longrightarrow> latch s'"
begin

lemma run_latch:
  "inv s \<Longrightarrow> allowed step may is s \<Longrightarrow> latch s \<Longrightarrow> run_steps step is s = Some s' \<Longrightarrow> latch s'"
proof (induction "is" arbitrary: s)
  case (Cons i "is")
  obtain s1 where s1: "step i s = Some s1" "inv s1" using Cons.prems(1,2) step_safe [of s i] by auto
  have "latch s1" by (rule step_latch [OF Cons.prems(1) _ Cons.prems(3) s1(1)]) (use Cons.prems(2) in simp)
  then show ?case using Cons.IH [OF s1(2)] Cons.prems(2,4) s1(1) by simp
qed simp

end

text \<open>Network byte order is a codec.\<close>

definition un16_list :: "bytes \<Rightarrow> u16 option" where
  "un16_list bs = rd16 bs 0"

definition un32_list :: "bytes \<Rightarrow> u32 option" where
  "un32_list bs = rd32 bs 0"

interpretation be16: codec be16 un16_list "\<lambda>_. True"
  by unfold_locales (simp add: un16_list_def rd16_def rd_def be16_def)

interpretation be32: codec be32 un32_list "\<lambda>_. True"
  by unfold_locales (simp add: un32_list_def rd32_def rd_def be32_def)

end
