(* ===== verification/Fcs.thy ===== *)
theory Fcs
  imports Prelude
begin

text \<open>
  HDLC framing of \<^verbatim>\<open>sstp/sstp-fcs.c\<close>: the RFC 1662 frame check sequence by table lookup,
  the frame encoder and the frame decoder. The lemmas show that the table is the CRC of the
  polynomial \<open>0x8408\<close>, that decoding undoes encoding, that an encoded frame is transparent,
  how large the output buffer has to be, and that no single wrong byte escapes the check.
\<close>

section \<open>The checksum\<close>

definition PPPINITFCS16 :: u16 where "PPPINITFCS16 = 0xffff"
definition PPPGOODFCS16 :: u16 where "PPPGOODFCS16 = 0xf0b8"
definition HDLC_FLAG :: u8 where "HDLC_FLAG = 0x7e"
definition HDLC_ESCAPE :: u8 where "HDLC_ESCAPE = 0x7d"
definition HDLC_TRANSPARENCY :: u8 where "HDLC_TRANSPARENCY = 0x20"

lemmas hdlc_consts =
  PPPINITFCS16_def PPPGOODFCS16_def HDLC_FLAG_def HDLC_ESCAPE_def HDLC_TRANSPARENCY_def

text \<open>The lookup table, as the source has it.\<close>

definition fcstab :: "u16 list" where
  "fcstab = [
   0x0000, 0x1189, 0x2312, 0x329b, 0x4624, 0x57ad, 0x6536, 0x74bf,
   0x8c48, 0x9dc1, 0xaf5a, 0xbed3, 0xca6c, 0xdbe5, 0xe97e, 0xf8f7,
   0x1081, 0x0108, 0x3393, 0x221a, 0x56a5, 0x472c, 0x75b7, 0x643e,
   0x9cc9, 0x8d40, 0xbfdb, 0xae52, 0xdaed, 0xcb64, 0xf9ff, 0xe876,
   0x2102, 0x308b, 0x0210, 0x1399, 0x6726, 0x76af, 0x4434, 0x55bd,
   0xad4a, 0xbcc3, 0x8e58, 0x9fd1, 0xeb6e, 0xfae7, 0xc87c, 0xd9f5,
   0x3183, 0x200a, 0x1291, 0x0318, 0x77a7, 0x662e, 0x54b5, 0x453c,
   0xbdcb, 0xac42, 0x9ed9, 0x8f50, 0xfbef, 0xea66, 0xd8fd, 0xc974,
   0x4204, 0x538d, 0x6116, 0x709f, 0x0420, 0x15a9, 0x2732, 0x36bb,
   0xce4c, 0xdfc5, 0xed5e, 0xfcd7, 0x8868, 0x99e1, 0xab7a, 0xbaf3,
   0x5285, 0x430c, 0x7197, 0x601e, 0x14a1, 0x0528, 0x37b3, 0x263a,
   0xdecd, 0xcf44, 0xfddf, 0xec56, 0x98e9, 0x8960, 0xbbfb, 0xaa72,
   0x6306, 0x728f, 0x4014, 0x519d, 0x2522, 0x34ab, 0x0630, 0x17b9,
   0xef4e, 0xfec7, 0xcc5c, 0xddd5, 0xa96a, 0xb8e3, 0x8a78, 0x9bf1,
   0x7387, 0x620e, 0x5095, 0x411c, 0x35a3, 0x242a, 0x16b1, 0x0738,
   0xffcf, 0xee46, 0xdcdd, 0xcd54, 0xb9eb, 0xa862, 0x9af9, 0x8b70,
   0x8408, 0x9581, 0xa71a, 0xb693, 0xc22c, 0xd3a5, 0xe13e, 0xf0b7,
   0x0840, 0x19c9, 0x2b52, 0x3adb, 0x4e64, 0x5fed, 0x6d76, 0x7cff,
   0x9489, 0x8500, 0xb79b, 0xa612, 0xd2ad, 0xc324, 0xf1bf, 0xe036,
   0x18c1, 0x0948, 0x3bd3, 0x2a5a, 0x5ee5, 0x4f6c, 0x7df7, 0x6c7e,
   0xa50a, 0xb483, 0x8618, 0x9791, 0xe32e, 0xf2a7, 0xc03c, 0xd1b5,
   0x2942, 0x38cb, 0x0a50, 0x1bd9, 0x6f66, 0x7eef, 0x4c74, 0x5dfd,
   0xb58b, 0xa402, 0x9699, 0x8710, 0xf3af, 0xe226, 0xd0bd, 0xc134,
   0x39c3, 0x284a, 0x1ad1, 0x0b58, 0x7fe7, 0x6e6e, 0x5cf5, 0x4d7c,
   0xc60c, 0xd785, 0xe51e, 0xf497, 0x8028, 0x91a1, 0xa33a, 0xb2b3,
   0x4a44, 0x5bcd, 0x6956, 0x78df, 0x0c60, 0x1de9, 0x2f72, 0x3efb,
   0xd68d, 0xc704, 0xf59f, 0xe416, 0x90a9, 0x8120, 0xb3bb, 0xa232,
   0x5ac5, 0x4b4c, 0x79d7, 0x685e, 0x1ce1, 0x0d68, 0x3ff3, 0x2e7a,
   0xe70e, 0xf687, 0xc41c, 0xd595, 0xa12a, 0xb0a3, 0x8238, 0x93b1,
   0x6b46, 0x7acf, 0x4854, 0x59dd, 0x2d62, 0x3ceb, 0x0e70, 0x1ff9,
   0xf78f, 0xe606, 0xd49d, 0xc514, 0xb1ab, 0xa022, 0x92b9, 0x8330,
   0x7bc7, 0x6a4e, 0x58d5, 0x495c, 0x3de3, 0x2c6a, 0x1ef1, 0x0f78]"

text \<open>One iteration of the loop of \<open>sstp_frame_check\<close>, and the loop over the bytes at \<open>cp\<close>.\<close>

definition fcs_step :: "u16 \<Rightarrow> u8 \<Rightarrow> u16" where
  "fcs_step fcs c = drop_bit 8 fcs XOR fcstab ! unat ((fcs XOR ucast c) AND 0xff)"

fun sstp_frame_check :: "u16 \<Rightarrow> bytes \<Rightarrow> u16" where
  "sstp_frame_check fcs [] = fcs"
| "sstp_frame_check fcs (c # cp) = sstp_frame_check (fcs_step fcs c) cp"

section \<open>Decoding\<close>

text \<open>
  The do-while loop of \<open>sstp_frame_decode\<close>: \<open>m\<close> is the memory at \<open>buf\<close>,
  \<open>len\<close> the value of \<open>*length\<close>, \<open>sz\<close> of \<open>*size\<close>, \<open>out\<close> the bytes stored in
  \<open>frame\<close> so far (\<open>pos\<close> is their number). \<open>Inl\<close> is the early return with
  \<open>SSTP_OVERFLOW\<close>, \<open>Inr\<close> the index of the closing flag.
\<close>

function decode_loop ::
    "bytes \<Rightarrow> nat \<Rightarrow> nat \<Rightarrow> nat \<Rightarrow> bytes \<Rightarrow> (bytes + nat \<times> bytes) option" where
  "decode_loop m len sz index out = do {
     b \<leftarrow> rd m (int index);
     let (escape, index) = (if b = HDLC_ESCAPE then (HDLC_TRANSPARENCY, index + 1) else (0, index));
     out \<leftarrow> (if length out < sz
            then do { c \<leftarrow> rd m (int index); Some (out @ [c XOR escape]) } else Some out);
     if len \<le> index then Some (Inl out)
     else do {
       b \<leftarrow> rd m (int (index + 1));
       if b \<noteq> HDLC_FLAG then decode_loop m len sz (index + 1) out
       else Some (Inr (index + 1, out)) } }"
  by pat_completeness auto
termination
  by (relation "measure (\<lambda>(m, len, sz, index, out). length m - index)")
    (auto simp: rd_Some_iff split: if_splits)

declare decode_loop.simps [simp del]

text \<open>Skipping the start of the frame.\<close>

function skip_flags :: "bytes \<Rightarrow> nat \<Rightarrow> nat option" where
  "skip_flags m index = do {
     b \<leftarrow> rd m (int index);
     if b = HDLC_FLAG then skip_flags m (index + 1) else Some index }"
  by pat_completeness auto
termination
  by (relation "measure (\<lambda>(m, index). length m - index)") (auto simp: rd_Some_iff)

declare skip_flags.simps [simp del]

text \<open>
  The result is the status with the new \<open>*length\<close>, the new \<open>*size\<close> and the bytes
  written to \<open>frame\<close>.
\<close>

definition sstp_frame_decode ::
    "bytes \<Rightarrow> nat \<Rightarrow> nat \<Rightarrow> (status_t \<times> int \<times> int \<times> bytes) option" where
  "sstp_frame_decode m len sz = do {
     index \<leftarrow> skip_flags m 0;
     r \<leftarrow> decode_loop m len sz index [];
     case r of
       Inl out \<Rightarrow> Some (SSTP_OVERFLOW, int len, int sz, out)
     | Inr (index, out) \<Rightarrow>
         (let pos = length out; size' = int pos - 2; length' = int index in
          if pos < 4 then Some (SSTP_FAIL, length', size', out)
          else if PPPGOODFCS16 \<noteq> sstp_frame_check PPPINITFCS16 out
          then Some (SSTP_FAIL, length', size', out)
          else Some (SSTP_OKAY, length', size', out)) }"

section \<open>Encoding\<close>

definition needs_escape :: "u8 \<Rightarrow> bool" where
  "needs_escape c \<longleftrightarrow> c < HDLC_TRANSPARENCY \<or> c = HDLC_FLAG \<or> c = HDLC_ESCAPE"

definition escape_char :: "u8 \<Rightarrow> bytes" where
  "escape_char c = (if needs_escape c then [HDLC_ESCAPE, c XOR HDLC_TRANSPARENCY] else [c])"

text \<open>
  The loop over the payload and the two checksum bytes. \<open>flen\<close> is the value of
  \<open>*flen\<close>, \<open>out\<close> what has been stored in \<open>frame\<close>.
\<close>

fun encode_loop :: "int \<Rightarrow> bytes \<Rightarrow> bytes \<Rightarrow> status_t \<times> bytes" where
  "encode_loop flen out [] = (SSTP_OKAY, out)"
| "encode_loop flen out (c # cs) =
     (if flen < int (length out) + 3 then (SSTP_OVERFLOW, out)
      else encode_loop flen (out @ escape_char c) cs)"

definition sstp_frame_encode :: "bytes \<Rightarrow> int \<Rightarrow> (status_t \<times> bytes \<times> int) option" where
  "sstp_frame_encode source flen =
     (if flen \<le> 0 then None \<comment> \<open>the opening flag is stored without a check\<close>
      else
        let fcs = sstp_frame_check PPPINITFCS16 source XOR PPPINITFCS16;
            (st, out) = encode_loop flen [HDLC_FLAG] (source @ [ucast fcs, ucast (drop_bit 8 fcs)])
        in if st \<noteq> SSTP_OKAY then Some (st, out, flen)
           else Some (SSTP_OKAY, out @ [HDLC_FLAG], int (length out) + 1))"

section \<open>Reference definitions\<close>

text \<open>
  One bit of the shift register of the polynomial \<open>0x8408\<close>, and a whole byte.
\<close>

definition crc_bit :: "u16 \<Rightarrow> u16" where
  "crc_bit v = (if odd v then drop_bit 1 v XOR 0x8408 else drop_bit 1 v)"

definition crc8 :: "u16 \<Rightarrow> u16" where
  "crc8 v = crc_bit (crc_bit (crc_bit (crc_bit (crc_bit (crc_bit (crc_bit (crc_bit v)))))))"

text \<open>The octet-stuffed form of a byte string.\<close>

definition stuff :: "bytes \<Rightarrow> bytes" where
  "stuff cs = concat (map escape_char cs)"

text \<open>The two checksum bytes the encoder appends.\<close>

definition fcs_trailer :: "bytes \<Rightarrow> bytes" where
  "fcs_trailer source =
     (let fcs = sstp_frame_check PPPINITFCS16 source XOR PPPINITFCS16
      in [ucast fcs, ucast (drop_bit 8 fcs)])"

section \<open>The table is a cyclic redundancy check\<close>

lemma length_fcstab: "length fcstab = 256"
  by (simp add: fcstab_def)

lemma crc_bit_xor: "crc_bit (a XOR b) = crc_bit a XOR crc_bit b"
  by (simp add: crc_bit_def even_xor_iff xor.assoc xor.commute xor.left_commute del: drop_bit_Suc drop_bit_of_1)

lemma crc_bit_inj: "crc_bit a = crc_bit b \<Longrightarrow> a = b"
proof -
  assume eq: "crc_bit a = crc_bit b"
  have top: "bit (crc_bit v) 15 = odd v" for v
    using bit_imp_le_length [of v 16] by (auto simp: crc_bit_def bit_simps)
  have o: "odd a = odd b" using top [of a] top [of b] eq by simp
  have d: "drop_bit 1 a = drop_bit 1 b"
  proof (cases "odd a")
    case True
    with eq o have "(drop_bit 1 a XOR 0x8408) XOR 0x8408 = (drop_bit 1 b XOR 0x8408) XOR 0x8408"
      by (simp add: crc_bit_def del: xor.assoc)
    then show ?thesis by (simp only: xor.assoc xor_self_eq xor.right_neutral)
  next
    case False
    with eq o show ?thesis by (simp add: crc_bit_def)
  qed
  show ?thesis
  proof (rule bit_word_eqI)
    fix n assume "n < LENGTH(16)"
    show "bit a n \<longleftrightarrow> bit b n"
    proof (cases n)
      case 0
      then show ?thesis using o by (simp add: bit_0)
    next
      case (Suc m)
      have "bit (drop_bit 1 a) m = bit (drop_bit 1 b) m" by (simp only: d)
      then show ?thesis using Suc by (simp add: bit_drop_bit_eq)
    qed
  qed
qed

lemma crc8_xor: "crc8 (a XOR b) = crc8 a XOR crc8 b"
  by (simp only: crc8_def crc_bit_xor)

lemma crc8_inj: "crc8 a = crc8 b \<Longrightarrow> a = b"
  by (simp add: crc8_def crc_bit_inj)

lemma nibbles:
  "map of_nat [0..<256] =
   concat (map (\<lambda>h. map (\<lambda>l. h XOR l) [0, 1, 2, 3, 4, 5, 6, 7, 8, 9, 10, 11, 12, 13, 14, 15])
     [0, 16, 32, 48, 64, 80, 96, 112, 128, 144, 160, 176, 192, 208, 224, 240 :: u16])"
  by (simp add: upt_rec)

lemma fcstab_crc: "map crc8 (map of_nat [0..<256]) = fcstab"
proof -
  let ?L = "[0, 1, 2, 3, 4, 5, 6, 7, 8, 9, 10, 11, 12, 13, 14, 15 :: u16]"
  let ?H = "[0, 16, 32, 48, 64, 80, 96, 112, 128, 144, 160, 176, 192, 208, 224, 240 :: u16]"
  have L: "map crc8 ?L = [0x0000, 0x1189, 0x2312, 0x329b, 0x4624, 0x57ad, 0x6536, 0x74bf,
     0x8c48, 0x9dc1, 0xaf5a, 0xbed3, 0xca6c, 0xdbe5, 0xe97e, 0xf8f7]"
    by (simp add: crc8_def crc_bit_def)
  have H: "map crc8 ?H = [0x0000, 0x1081, 0x2102, 0x3183, 0x4204, 0x5285, 0x6306, 0x7387,
     0x8408, 0x9489, 0xa50a, 0xb58b, 0xc60c, 0xd68d, 0xe70e, 0xf78f]"
    by (simp add: crc8_def crc_bit_def)
  have "map crc8 (map of_nat [0..<256]) =
      concat (map (\<lambda>h. map (\<lambda>l. crc8 h XOR crc8 l) ?L) ?H)"
    unfolding nibbles by (simp only: map_concat map_map o_def crc8_xor)
  also have "\<dots> = concat (map (\<lambda>h. map (\<lambda>l. h XOR l) (map crc8 ?L)) (map crc8 ?H))"
    by (simp only: map_map o_def)
  also have "\<dots> = fcstab"
    unfolding L H by (simp add: fcstab_def)
  finally show ?thesis .
qed

lemma fcstab_nth: "i < 256 \<Longrightarrow> fcstab ! i = crc8 (of_nat i)"
  by (simp add: fcstab_crc [symmetric])

lemma and_ff: "v AND 0xff = take_bit 8 (v :: u16)"
  by (simp add: take_bit_eq_mask mask_eq_exp_minus_1)

lemma crc8_high:
  assumes "take_bit 8 v = 0"
  shows "crc8 v = drop_bit 8 v"
proof -
  have "\<not> bit v k" if "k < 8" for k
    using assms that by (metis bit_0_eq bit_take_bit_iff bot_apply bot_bool_def)
  then have e: "even (drop_bit k v)" if "k < 8" for k
    using that by (simp add: even_drop_bit_iff_not_bit)
  have c: "crc_bit (drop_bit k v) = drop_bit (Suc k) v" if "k < 8" for k
    using e [OF that] by (simp add: crc_bit_def drop_bit_drop_bit)
  have "crc_bit v = drop_bit 1 v" using c [of 0] by simp
  moreover have "crc_bit (drop_bit 1 v) = drop_bit 2 v" using c [of 1] by (simp add: numeral_2_eq_2)
  moreover have "crc_bit (drop_bit 2 v) = drop_bit 3 v" using c [of 2] by simp
  moreover have "crc_bit (drop_bit 3 v) = drop_bit 4 v" using c [of 3] by simp
  moreover have "crc_bit (drop_bit 4 v) = drop_bit 5 v" using c [of 4] by simp
  moreover have "crc_bit (drop_bit 5 v) = drop_bit 6 v" using c [of 5] by simp
  moreover have "crc_bit (drop_bit 6 v) = drop_bit 7 v" using c [of 6] by simp
  moreover have "crc_bit (drop_bit 7 v) = drop_bit 8 v" using c [of 7] by simp
  ultimately show ?thesis by (simp only: crc8_def)
qed

lemma fcs_step_crc: "fcs_step fcs c = crc8 (fcs XOR ucast c)"
proof -
  let ?x = "fcs XOR ucast c :: u16"
  let ?h = "push_bit 8 (drop_bit 8 ?x)"
  have split: "?x = take_bit 8 ?x XOR ?h"
  proof (rule bit_word_eqI)
    fix n assume n: "n < LENGTH(16)"
    show "bit ?x n = bit (take_bit 8 ?x XOR ?h) n"
    proof (cases "n < 8")
      case False
      then have "8 + (n - 8) = n" by simp
      then show ?thesis using False n by (simp add: bit_simps)
    qed (simp add: bit_simps)
  qed
  have small: "unat (take_bit 8 ?x) < 256"
    using take_bit_nat_less_exp [of 8 "unat ?x"] by (simp only: unsigned_take_bit_eq) simp
  have tab: "fcstab ! unat (take_bit 8 ?x) = crc8 (take_bit 8 ?x)"
    using fcstab_nth [OF small] by (simp only: of_nat_unat ucast_id)
  have hi: "crc8 ?h = drop_bit 8 ?h"
    by (rule crc8_high) (rule bit_word_eqI, auto simp: bit_simps)
  have d: "drop_bit 8 ?h = drop_bit 8 fcs"
    by (rule bit_word_eqI) (auto simp: bit_simps dest: bit_imp_le_length)
  have "crc8 ?x = crc8 (take_bit 8 ?x XOR ?h)" by (simp only: split [symmetric])
  then show ?thesis
    by (simp only: fcs_step_def and_ff tab crc8_xor hi d xor.commute)
qed

text \<open>Every checksum step is injective in the old value and in the byte.\<close>

lemma xor_cancel: "a XOR c = b XOR c \<longleftrightarrow> a = (b :: u16)"
  by (metis xor.assoc xor.right_neutral xor_self_eq)

lemma ucast_u8_inj: "(ucast a :: u16) = ucast b \<Longrightarrow> a = (b :: u8)"
proof (rule bit_word_eqI)
  fix n assume eq: "(ucast a :: u16) = ucast b" and n: "n < LENGTH(8)"
  have "bit (ucast a :: u16) n = bit (ucast b :: u16) n" by (simp only: eq)
  then show "bit a n = bit b n" using n by (simp add: bit_simps)
qed

lemma fcs_step_inj_fcs: "fcs_step f c = fcs_step g c \<Longrightarrow> f = g"
  by (auto simp: fcs_step_crc xor_cancel dest: crc8_inj)

lemma sstp_frame_check_append:
  "sstp_frame_check f (as @ bs) = sstp_frame_check (sstp_frame_check f as) bs"
  by (induction as arbitrary: f) simp_all

lemma sstp_frame_check_inj: "sstp_frame_check f cp = sstp_frame_check g cp \<Longrightarrow> f = g"
  by (induction cp arbitrary: f g) (auto dest: fcs_step_inj_fcs)

text \<open>The remainder after a frame's own checksum is the good value.\<close>

lemma high_byte_split: "(v :: u16) = take_bit 8 v XOR push_bit 8 (drop_bit 8 v)"
proof (rule bit_word_eqI)
  fix n assume n: "n < LENGTH(16)"
  show "bit v n = bit (take_bit 8 v XOR push_bit 8 (drop_bit 8 v)) n"
  proof (cases "n < 8")
    case False
    then have "8 + (n - 8) = n" by simp
    then show ?thesis using False n by (simp add: bit_simps)
  qed (simp add: bit_simps)
qed

lemma crc8_push: "crc8 (push_bit 8 (drop_bit 8 v)) = drop_bit 8 v"
proof -
  have "crc8 (push_bit 8 (drop_bit 8 v)) = drop_bit 8 (push_bit 8 (drop_bit 8 v))"
    by (rule crc8_high) (rule bit_word_eqI, auto simp: bit_simps)
  also have "\<dots> = drop_bit 8 v"
    by (rule bit_word_eqI) (auto simp: bit_simps dest: bit_imp_le_length)
  finally show ?thesis .
qed

lemma sstp_frame_check_residue:
  "sstp_frame_check f
     [ucast (f XOR PPPINITFCS16), ucast (drop_bit 8 (f XOR PPPINITFCS16))] = PPPGOODFCS16"
proof -
  let ?lo = "ucast (f XOR 0xffff) :: u8" and ?hi = "ucast (drop_bit 8 (f XOR 0xffff)) :: u8"
  have ones: "(0xffff :: u16) = mask 16" "(0xff :: u16) = mask 8" by (simp_all add: mask_eq_exp_minus_1)
  have "take_bit 8 (f XOR ucast ?lo) = 0xff" unfolding ones
    by (rule bit_word_eqI) (auto simp: bit_simps)
  moreover have "drop_bit 8 (f XOR ucast ?lo) = drop_bit 8 f" unfolding ones
    using bit_imp_le_length [of f] by (intro bit_word_eqI) (auto simp: bit_simps)
  ultimately have "f XOR ucast ?lo = 0xff XOR push_bit 8 (drop_bit 8 f)"
    using high_byte_split [of "f XOR ucast ?lo"] by simp
  then have one: "fcs_step f ?lo = crc8 0xff XOR drop_bit 8 f"
    by (simp only: fcs_step_crc crc8_xor crc8_push)
  have "drop_bit 8 f XOR ucast ?hi = 0xff" unfolding ones
    by (rule bit_word_eqI) (auto simp: bit_simps dest: bit_imp_le_length)
  then have "fcs_step (fcs_step f ?lo) ?hi = crc8 (crc8 0xff XOR 0xff)"
    by (simp only: one fcs_step_crc [of "crc8 0xff XOR drop_bit 8 f"] xor.assoc)
  also have "\<dots> = 0xf0b8" by (simp add: crc8_def crc_bit_def)
  finally show ?thesis by (simp add: PPPINITFCS16_def PPPGOODFCS16_def)
qed

text \<open>Two different bytes, and a burst over two neighbouring bytes, change the value.\<close>

lemma fcs_step_inj_byte: "fcs_step f c = fcs_step f d \<Longrightarrow> c = d"
  using xor_cancel [of "ucast c" f "ucast d"]
  by (auto simp: fcs_step_crc xor.commute dest!: crc8_inj ucast_u8_inj)

lemma fcstab_wide: "list_all (\<lambda>v. 256 \<le> v) (tl fcstab)"
  by (simp add: fcstab_def)

lemma frame_check_one_byte:
  assumes "x \<noteq> y"
  shows "sstp_frame_check f (as @ x # bs) \<noteq> sstp_frame_check f (as @ y # bs)"
  using assms by (auto simp: sstp_frame_check_append dest!: sstp_frame_check_inj fcs_step_inj_byte)

lemma crc8_small: "d \<noteq> 0 \<Longrightarrow> 256 \<le> crc8 (ucast (d :: u8))"
proof -
  assume d: "d \<noteq> 0"
  then have "0 < unat d" by (simp add: unat_gt_0)
  moreover have "unat d < 256" using unsigned_less [of d] by simp
  ultimately have "fcstab ! unat d \<in> set (tl fcstab)"
    using length_fcstab nth_tl [of "unat d - 1" fcstab] nth_mem [of "unat d - 1" "tl fcstab"] by simp
  then have "256 \<le> fcstab ! unat d" using fcstab_wide by (simp add: list_all_iff)
  then show ?thesis using fcstab_nth [of "unat d"] \<open>unat d < 256\<close> by (simp add: of_nat_unat)
qed

lemma xor_swap:
  assumes "(a :: u16) XOR p = b XOR q"
  shows "a XOR b = p XOR q"
proof (rule bit_word_eqI)
  fix n
  have "bit (a XOR p) n = bit (b XOR q) n" by (simp only: assms)
  then show "bit (a XOR b) n = bit (p XOR q) n" by (auto simp: bit_xor_iff)
qed

lemma xor_zero: "x XOR y = 0 \<Longrightarrow> x = (y :: u8)"
  by (metis xor.assoc xor.left_neutral xor.right_neutral xor_self_eq)

lemma frame_check_two_bytes:
  assumes "x \<noteq> x'"
  shows "sstp_frame_check f (as @ x # y # bs) \<noteq> sstp_frame_check f (as @ x' # y' # bs)"
proof
  assume "sstp_frame_check f (as @ x # y # bs) = sstp_frame_check f (as @ x' # y' # bs)"
  then obtain g where "fcs_step (fcs_step g x) y = fcs_step (fcs_step g x') y'"
    by (auto simp: sstp_frame_check_append dest!: sstp_frame_check_inj)
  then have "fcs_step g x XOR ucast y = fcs_step g x' XOR ucast y'"
    by (simp add: fcs_step_crc crc8_inj)
  then have "fcs_step g x XOR fcs_step g x' = ucast y XOR ucast y'"
    by (rule xor_swap)
  then have eq: "crc8 (ucast (x XOR x')) = ucast (y XOR y')"
    by (simp add: fcs_step_crc unsigned_xor_eq crc8_xor xor.assoc xor.left_commute)
  have lt: "unat (y XOR y') < 256"
    by (rule order_less_le_trans [OF unsigned_less]) simp
  then have "(ucast (y XOR y') :: u16) < 256"
    using lt
    by (simp add: word_less_nat_alt unsigned_ucast_eq take_bit_nat_eq_self)
  moreover have "256 \<le> crc8 (ucast (x XOR x'))"
    using assms xor_zero by (intro crc8_small) blast
  ultimately show False using eq by simp
qed

section \<open>Octet stuffing\<close>

lemma stuff_simps [simp]:
  "stuff [] = []" "stuff (c # cs) = escape_char c @ stuff cs" "stuff (as @ bs) = stuff as @ stuff bs"
  by (simp_all add: stuff_def)

lemma escape_char_ne [simp]: "escape_char c \<noteq> []"
  by (simp add: escape_char_def)

lemma length_escape_char: "0 < length (escape_char c)" "length (escape_char c) \<le> 2"
  by (simp_all add: escape_char_def)

lemma xor_escape: "(c XOR HDLC_TRANSPARENCY) XOR HDLC_TRANSPARENCY = c"
  by (simp add: xor.assoc)

lemma escaped_no_flag: "needs_escape c \<Longrightarrow> c XOR HDLC_TRANSPARENCY \<noteq> HDLC_FLAG"
proof
  assume n: "needs_escape c" and "c XOR HDLC_TRANSPARENCY = HDLC_FLAG"
  then have "(c XOR HDLC_TRANSPARENCY) XOR HDLC_TRANSPARENCY = HDLC_FLAG XOR HDLC_TRANSPARENCY"
    by simp
  then have "c = 0x5e" by (simp only: xor_escape) (simp add: hdlc_consts)
  with n show False by (simp add: needs_escape_def hdlc_consts)
qed

lemma flag_notin_escape_char: "HDLC_FLAG \<notin> set (escape_char c)"
  using escaped_no_flag [of c]
  by (auto simp: escape_char_def needs_escape_def hdlc_consts)

lemma flag_notin_stuff: "HDLC_FLAG \<notin> set (stuff cs)"
  using flag_notin_escape_char by (auto simp: stuff_def)

lemma stuff_head:
  assumes "cs \<noteq> []"
  obtains x y where "stuff cs = x # y" "x \<noteq> HDLC_FLAG"
proof (cases "stuff cs")
  case Nil
  then show ?thesis using assms by (cases cs) simp_all
next
  case (Cons x y)
  then show ?thesis using flag_notin_stuff [of cs] by (intro that [of x y]) auto
qed

lemma length_stuff: "length cs \<le> length (stuff cs)" "length (stuff cs) \<le> 2 * length cs"
proof (induction cs)
  case (Cons c cs)
  then show "length (c # cs) \<le> length (stuff (c # cs))"
    "length (stuff (c # cs)) \<le> 2 * length (c # cs)"
    by (auto simp: escape_char_def)
qed simp_all

text \<open>The encoder loop: what it stores, when it overflows, and that it stays inside \<open>flen\<close>.\<close>

lemma encode_loop_ok:
  "cs = [] \<or> int (length out) + int (length (stuff (butlast cs))) + 3 \<le> flen \<Longrightarrow>
   encode_loop flen out cs = (SSTP_OKAY, out @ stuff cs)"
proof (induction cs arbitrary: out)
  case (Cons c cs)
  then show ?case
    by (cases "cs = []") (auto simp: Cons.IH)
qed simp

lemma encode_loop_overflow:
  "cs \<noteq> [] \<Longrightarrow> flen < int (length out) + int (length (stuff (butlast cs))) + 3 \<Longrightarrow>
   fst (encode_loop flen out cs) = SSTP_OVERFLOW"
proof (induction cs arbitrary: out)
  case (Cons c cs)
  then show ?case
    by (cases "cs = []") (auto simp: Cons.IH)
qed simp

lemma encode_loop_bound:
  "int (length out) < flen \<Longrightarrow> int (length (snd (encode_loop flen out cs))) < flen"
proof (induction cs arbitrary: out)
  case (Cons c cs)
  show ?case
    using Cons.prems length_escape_char(2) [of c]
    by (auto intro!: Cons.IH)
qed simp

text \<open>The decoder loop on a stuffed byte string that is closed by a flag.\<close>

lemma skip_flags_done: "i < length m \<Longrightarrow> m ! i \<noteq> HDLC_FLAG \<Longrightarrow> skip_flags m i = Some i"
  by (simp add: skip_flags.simps [of m i] rd_nat)

lemma skip_flags_next: "i < length m \<Longrightarrow> m ! i = HDLC_FLAG \<Longrightarrow> skip_flags m i = skip_flags m (Suc i)"
  by (simp add: skip_flags.simps [of m i] rd_nat)

lemma decode_loop_char:
  assumes m: "m = pre @ escape_char c @ x # rest"
    and len: "length pre + length (escape_char c) \<le> len"
  shows "decode_loop m len sz (length pre) out =
    (let out' = (if length out < sz then out @ [c] else out);
         j = length pre + length (escape_char c) in
     if x \<noteq> HDLC_FLAG then decode_loop m len sz j out' else Some (Inr (j, out')))"
proof (cases "needs_escape c")
  case True
  then have e: "escape_char c = [HDLC_ESCAPE, c XOR HDLC_TRANSPARENCY]" by (simp add: escape_char_def)
  have "rd m (int (length pre)) = Some HDLC_ESCAPE"
    "rd m (1 + int (length pre)) = Some (c XOR HDLC_TRANSPARENCY)"
    "rd m (2 + int (length pre)) = Some x"
    using rd_append_right [of 0 pre] rd_append_right [of 1 pre] rd_append_right [of 2 pre]
    by (simp_all add: m e add.commute) (simp_all add: rd_def)
  then show ?thesis
    using len by (simp add: decode_loop.simps [of m len sz "length pre"] e Let_def xor_escape)
next
  case False
  then have e: "escape_char c = [c]" "c \<noteq> HDLC_ESCAPE"
    by (auto simp: escape_char_def needs_escape_def)
  have "rd m (int (length pre)) = Some c" "rd m (1 + int (length pre)) = Some x"
    using rd_append_right [of 0 pre] rd_append_right [of 1 pre]
    by (simp_all add: m e add.commute) (simp_all add: rd_def)
  then show ?thesis
    using len e(2) by (simp add: decode_loop.simps [of m len sz "length pre"] e(1) Let_def)
qed

lemma decode_loop_stuff:
  assumes "m = pre @ stuff cs @ HDLC_FLAG # rest" "cs \<noteq> []"
    and "length pre + length (stuff cs) \<le> len"
  shows "decode_loop m len sz (length pre) out =
    Some (Inr (length pre + length (stuff cs), out @ take (sz - length out) cs))"
  using assms
proof (induction cs arbitrary: pre out)
  case (Cons c cs)
  let ?out = "if length out < sz then out @ [c] else out"
  show ?case
  proof (cases cs)
    case Nil
    then show ?thesis
      using Cons.prems decode_loop_char [of m pre c HDLC_FLAG rest len sz out]
      by (auto simp: Let_def take_Cons')
  next
    case (Cons d ds)
    obtain x y where xy: "stuff cs = x # y" "x \<noteq> HDLC_FLAG"
      using stuff_head [of cs] Cons by blast
    have "decode_loop m len sz (length pre) out =
        decode_loop m len sz (length (pre @ escape_char c)) ?out"
      using Cons.prems xy decode_loop_char [of m pre c x "y @ HDLC_FLAG # rest" len sz out]
      by (auto simp: Let_def)
    also have "\<dots> = Some (Inr (length (pre @ escape_char c) + length (stuff cs),
        ?out @ take (sz - length ?out) cs))"
      by (rule Cons.IH) (use Cons.prems Cons in auto)
    also have "\<dots> = Some (Inr (length pre + length (stuff (c # cs)), out @ take (sz - length out) (c # cs)))"
      by (auto simp: take_Cons' Suc_diff_Suc)
    finally show ?thesis .
  qed
qed simp

lemma skip_flags_stuff:
  assumes "cs \<noteq> []"
  shows "skip_flags (HDLC_FLAG # stuff cs @ rest) 0 = Some 1"
proof -
  obtain x y where xy: "stuff cs = x # y" "x \<noteq> HDLC_FLAG"
    using stuff_head [OF assms] .
  then show ?thesis
    by (simp add: skip_flags.simps [of _ 0] skip_flags.simps [of _ "Suc 0"] rd_def)
qed

text \<open>So the decoder returns the stuffed bytes and the verdict of the checksum on them.\<close>

lemma sstp_frame_decode_stuff:
  assumes "4 \<le> length w" "length w \<le> sz" "length (stuff w) < len"
  shows "sstp_frame_decode (HDLC_FLAG # stuff w @ HDLC_FLAG # rest) len sz =
    Some (if sstp_frame_check PPPINITFCS16 w = PPPGOODFCS16 then SSTP_OKAY else SSTP_FAIL,
          int (length (stuff w)) + 1, int (length w) - 2, w)"
proof -
  have ne: "w \<noteq> []" using assms(1) by auto
  show ?thesis
    using assms decode_loop_stuff [of _ "[HDLC_FLAG]" w rest len sz "[]"]
      skip_flags_stuff [OF ne, of "HDLC_FLAG # rest"] ne
    by (simp add: sstp_frame_decode_def Let_def)
qed

section \<open>Properties\<close>

text \<open>C39. The table lookup of \<open>sstp_frame_check\<close> computes the bit-serial CRC of RFC 1662:
  shifting each byte through the register of the polynomial \<open>0x8408\<close> gives the same value,
  for every start value and every byte string.\<close>

theorem sstp_frame_check_is_crc:
  "sstp_frame_check fcs cp = foldl (\<lambda>v c. crc8 (v XOR ucast c)) fcs cp"
  by (induction cp arbitrary: fcs) (simp_all add: fcs_step_crc)

text \<open>The frame the encoder produces, and exactly when it has room for it.\<close>

lemma length_fcs_trailer [simp]: "length (fcs_trailer source) = 2"
  by (simp add: fcs_trailer_def Let_def)

lemma trailer_ne [simp]: "fcs_trailer source \<noteq> []"
  by (simp add: fcs_trailer_def Let_def)

lemma sstp_frame_check_trailer:
  "sstp_frame_check PPPINITFCS16 (source @ fcs_trailer source) = PPPGOODFCS16"
  by (simp add: sstp_frame_check_append fcs_trailer_def Let_def
      sstp_frame_check_residue [simplified])

lemma sstp_frame_encode_ok:
  assumes "int (length (stuff (butlast (source @ fcs_trailer source)))) + 4 \<le> flen"
  shows "sstp_frame_encode source flen =
    Some (SSTP_OKAY, HDLC_FLAG # stuff (source @ fcs_trailer source) @ [HDLC_FLAG],
          int (length (stuff (source @ fcs_trailer source))) + 2)"
  using assms encode_loop_ok [of "source @ fcs_trailer source" "[HDLC_FLAG]" flen]
  by (simp add: sstp_frame_encode_def fcs_trailer_def Let_def)

lemma sstp_frame_encode_overflow:
  assumes "0 < flen" "flen < int (length (stuff (butlast (source @ fcs_trailer source)))) + 4"
  shows "\<exists>out. sstp_frame_encode source flen = Some (SSTP_OVERFLOW, out, flen)"
  using assms encode_loop_overflow [of "source @ fcs_trailer source" flen "[HDLC_FLAG]"]
  by (auto simp: sstp_frame_encode_def fcs_trailer_def Let_def split: prod.splits)

lemma stuff_butlast_le: "cs \<noteq> [] \<Longrightarrow> length (stuff (butlast cs)) \<le> 2 * (length cs - 1)"
  using length_stuff(2) [of "butlast cs"] by simp

lemma int_le: "a \<le> b \<Longrightarrow> int a \<le> int b"
  by simp

lemma stuff_content_le:
  "length (stuff (butlast (source @ fcs_trailer source))) \<le> 2 * (length source + 1)"
  using stuff_butlast_le [of "source @ fcs_trailer source"] by simp

text \<open>
  The framing as a codec: what the peer's decoder, run on a frame that fills its buffers,
  takes the payload to be.
\<close>

definition frame_of :: "bytes \<Rightarrow> bytes" where
  "frame_of source = HDLC_FLAG # stuff (source @ fcs_trailer source) @ [HDLC_FLAG]"

definition payload_of :: "bytes \<Rightarrow> bytes option" where
  "payload_of frame = do {
     (st, n, sz, out) \<leftarrow> sstp_frame_decode frame (length frame) (length frame);
     if st = SSTP_OKAY then Some (take (nat sz) out) else None }"

interpretation hdlc: codec frame_of payload_of "\<lambda>source. 2 \<le> length source"
proof
  fix source :: bytes assume l: "2 \<le> length source"
  have "length (source @ fcs_trailer source) \<le> length (stuff (source @ fcs_trailer source))"
    by (rule length_stuff(1))
  then show "payload_of (frame_of source) = Some source"
    using l sstp_frame_decode_stuff [of "source @ fcs_trailer source"
        "length (frame_of source)" "length (frame_of source)" "[]"]
    by (simp add: payload_of_def frame_of_def sstp_frame_check_trailer del: stuff_simps(3))
qed

lemma frame_of_distinct:
  "2 \<le> length a \<Longrightarrow> 2 \<le> length b \<Longrightarrow> frame_of a = frame_of b \<longleftrightarrow> a = b"
  by (rule hdlc.enc_eq_iff)

text \<open>C23. Decoding undoes encoding: with room for twice the payload and six bytes the encoder
  succeeds, and the decoder, given that frame (whatever follows it in memory) and room for
  the payload and its checksum, returns \<open>SSTP_OKAY\<close>, the length of the payload, the payload
  followed by its checksum, and the offset of the closing flag as the length consumed.\<close>

theorem sstp_frame_roundtrip:
  assumes "2 \<le> length source" "2 * int (length source) + 6 \<le> flen" "length source + 2 \<le> sz"
    and "length frame - 1 \<le> len"
    and "frame = HDLC_FLAG # stuff (source @ fcs_trailer source) @ [HDLC_FLAG]"
  shows "sstp_frame_encode source flen = Some (SSTP_OKAY, frame, int (length frame))
    \<and> sstp_frame_decode (frame @ rest) len sz =
        Some (SSTP_OKAY, int (length frame) - 1, int (length source), source @ fcs_trailer source)"
proof
  have "int (length (stuff (butlast (source @ fcs_trailer source)))) + 4 \<le> flen"
    using stuff_content_le [of source, THEN int_le] assms(2) by simp
  then show "sstp_frame_encode source flen = Some (SSTP_OKAY, frame, int (length frame))"
    using assms(5) by (simp add: sstp_frame_encode_ok)
  show "sstp_frame_decode (frame @ rest) len sz =
        Some (SSTP_OKAY, int (length frame) - 1, int (length source), source @ fcs_trailer source)"
    using sstp_frame_decode_stuff [of "source @ fcs_trailer source" sz len rest] assms
    by (simp add: sstp_frame_check_trailer del: stuff_simps(3))
qed

lemma sstp_frame_roundtrip_witness:
  "sstp_frame_encode [0x7e, 1] 10 =
     Some (SSTP_OKAY, [0x7e, 0x7d, 0x5e, 0x7d, 0x21, 0x7d, 0x3a, 0x74, 0x7e], 9)"
  using sstp_frame_roundtrip [of "[0x7e, 1]" 10 4
      "HDLC_FLAG # stuff ([0x7e, 1] @ fcs_trailer [0x7e, 1]) @ [HDLC_FLAG]" 12 "[]"]
  by (simp add: fcs_trailer_def Let_def fcs_step_crc crc8_def crc_bit_def escape_char_def
      needs_escape_def hdlc_consts)

text \<open>The check sequence detects corruption: a frame whose content differs from a
  correctly checksummed content in one byte, or in two neighbouring bytes, is rejected with
  \<open>SSTP_FAIL\<close> by the decoder.\<close>

theorem sstp_frame_detects:
  assumes good: "sstp_frame_check PPPINITFCS16 (as @ x # y # bs) = PPPGOODFCS16"
    and bad: "x \<noteq> x' \<or> y \<noteq> y'"
    and bounds: "w = as @ x' # y' # bs" "4 \<le> length w" "length w \<le> sz" "length (stuff w) < len"
  shows "sstp_frame_decode (HDLC_FLAG # stuff w @ HDLC_FLAG # rest) len sz =
    Some (SSTP_FAIL, int (length (stuff w)) + 1, int (length w) - 2, w)"
proof -
  have "sstp_frame_check PPPINITFCS16 w \<noteq> PPPGOODFCS16"
  proof (cases "x = x'")
    case True
    then show ?thesis
      using frame_check_one_byte [of y y' PPPINITFCS16 "as @ [x]" bs] good bad bounds(1) by auto
  next
    case False
    then show ?thesis
      using frame_check_two_bytes [of x x' PPPINITFCS16 as y bs y'] good bounds(1) by auto
  qed
  then show ?thesis using sstp_frame_decode_stuff [OF bounds(2-4)] by simp
qed

lemma sstp_frame_detects_witness:
  "sstp_frame_decode [0x7e, 0x7d, 0x5e, 0x7d, 0x22, 0x7d, 0x3a, 0x74, 0x7e] 9 4 =
     Some (SSTP_FAIL, 8, 2, [0x7e, 2, 0x1a, 0x74])"
  using sstp_frame_detects [of "[]" "0x7e" 1 "[0x1a, 0x74]" "0x7e" 2
      "[0x7e, 2, 0x1a, 0x74]" 4 9 "[]"]
  by (simp add: fcs_step_crc crc8_def crc_bit_def escape_char_def needs_escape_def hdlc_consts)

text \<open>The encoder stays inside its buffer: with a buffer of \<open>flen > 0\<close> bytes it stores at
  most \<open>flen\<close> bytes; it succeeds exactly when the stuffed payload and checksum without
  their last byte leave four bytes free, and reports \<open>SSTP_OVERFLOW\<close> otherwise.\<close>

theorem sstp_frame_encode_bounds:
  assumes "0 < flen"
  shows "\<exists>st out n. sstp_frame_encode source flen = Some (st, out, n)
    \<and> int (length out) \<le> flen
    \<and> st = (if int (length (stuff (butlast (source @ fcs_trailer source)))) + 4 \<le> flen
            then SSTP_OKAY else SSTP_OVERFLOW)
    \<and> (st = SSTP_OKAY \<longrightarrow> n = int (length out))"
proof -
  let ?c = "source @ fcs_trailer source"
  obtain st out where l: "encode_loop flen [HDLC_FLAG] ?c = (st, out)" by fastforce
  then have "int (length out) < flen \<or> flen = 1"
    using encode_loop_bound [of "[HDLC_FLAG]" flen ?c] assms by auto
  moreover have "flen = 1 \<Longrightarrow> (st, out) = (SSTP_OVERFLOW, [HDLC_FLAG])"
    using l trailer_ne [of source] by (cases ?c) (auto simp del: trailer_ne)
  moreover have "fst (encode_loop flen [HDLC_FLAG] ?c) =
      (if int (length (stuff (butlast ?c))) + 4 \<le> flen then SSTP_OKAY else SSTP_OVERFLOW)"
    using encode_loop_ok [of ?c "[HDLC_FLAG]" flen] encode_loop_overflow [of ?c flen "[HDLC_FLAG]"]
    by simp
  ultimately show ?thesis
    using assms l by (auto simp: sstp_frame_encode_def fcs_trailer_def Let_def split: if_splits)
qed

lemma sstp_frame_encode_bounds_witness:
  "\<exists>st out n. sstp_frame_encode [0x7e, 0x7e] 8 = Some (st, out, n) \<and> int (length out) \<le> 8"
  using sstp_frame_encode_bounds [of 8 "[0x7e, 0x7e]"] by auto

text \<open>The frame buffer that \<^verbatim>\<open>sstp_pppd_send\<close> of the unused PTY bridge allots
  (\<open>2 n + 4\<close> bytes) is too small for a payload that has to be escaped throughout.\<close>

lemma sstp_frame_encode_pty_buffer:
  assumes "\<forall>c\<in>set source. needs_escape c"
  shows "\<exists>out. sstp_frame_encode source (2 * int (length source) + 4) =
    Some (SSTP_OVERFLOW, out, 2 * int (length source) + 4)"
proof (rule sstp_frame_encode_overflow)
  have "length (stuff source) = 2 * length source"
    using assms by (induction source) (auto simp: escape_char_def)
  moreover obtain a b where "fcs_trailer source = [a, b]"
    by (metis fcs_trailer_def)
  ultimately show "2 * int (length source) + 4
      < int (length (stuff (butlast (source @ fcs_trailer source)))) + 4"
    using length_escape_char(1) [of a] by (simp add: butlast_append)
qed simp

lemma below_space_bit: "(w :: u8) < 0x20 \<Longrightarrow> \<not> bit w 5"
  by (simp add: bit_iff_odd div_word_less)

lemma stuffed_printable: "c \<in> set (escape_char d) \<Longrightarrow> HDLC_TRANSPARENCY \<le> c"
proof (cases "d < 0x20")
  case True
  assume c: "c \<in> set (escape_char d)"
  have "bit (d XOR 0x20) 5" using below_space_bit [OF True] by (simp add: bit_xor_iff)
  then have "0x20 \<le> d XOR 0x20" using below_space_bit [of "d XOR 0x20"] by (meson not_less)
  then show ?thesis using c True
    by (auto simp: escape_char_def needs_escape_def hdlc_consts)
next
  case False
  assume "c \<in> set (escape_char d)"
  then show ?thesis using False
    by (auto simp: escape_char_def needs_escape_def hdlc_consts not_less split: if_splits)
qed

text \<open>A frame is transparent: between its two flags no byte is a flag and none is an
  unescaped control character below \<open>0x20\<close>.\<close>

theorem sstp_frame_encode_transparent:
  assumes "sstp_frame_encode source flen = Some (SSTP_OKAY, frame, n)"
  shows "\<exists>body. frame = HDLC_FLAG # body @ [HDLC_FLAG] \<and> HDLC_FLAG \<notin> set body
    \<and> (\<forall>c\<in>set body. HDLC_TRANSPARENCY \<le> c)"
proof -
  have "int (length (stuff (butlast (source @ fcs_trailer source)))) + 4 \<le> flen"
  proof (rule ccontr)
    assume "\<not> ?thesis"
    then show False using sstp_frame_encode_overflow [of flen source] assms
      by (cases "0 < flen") (auto simp: sstp_frame_encode_def)
  qed
  then have "frame = HDLC_FLAG # stuff (source @ fcs_trailer source) @ [HDLC_FLAG]"
    using assms by (simp add: sstp_frame_encode_ok)
  moreover have "\<forall>c\<in>set (stuff cs). HDLC_TRANSPARENCY \<le> c" for cs
    by (auto simp: stuff_def dest: stuffed_printable)
  ultimately show ?thesis using flag_notin_stuff by blast
qed

lemma sstp_frame_encode_transparent_witness:
  "\<exists>body. [0x7e, 0x7d, 0x5e, 0x7d, 0x21, 0x7d, 0x3a, 0x74, 0x7e] = HDLC_FLAG # body @ [HDLC_FLAG]
    \<and> HDLC_FLAG \<notin> set body \<and> (\<forall>c\<in>set body. HDLC_TRANSPARENCY \<le> c)"
  by (rule sstp_frame_encode_transparent [of "[0x7e, 1]" 10 _ 9])
    (simp add: sstp_frame_encode_def Let_def fcs_step_crc crc8_def crc_bit_def escape_char_def
      needs_escape_def hdlc_consts)

end
