(* ===== verification/Buff.thy ===== *)
theory Buff
  imports Prelude
begin

text \<open>
  The buffer of \<^verbatim>\<open>sstp/sstp-buff.c\<close> (\<^verbatim>\<open>sstp_buff_st\<close>): the allocated bytes with the
  current length, the capacity and the read/write offset. The HTTP helpers of the same
  file are modelled in theory \<open>Http\<close>.
\<close>

section \<open>Data\<close>

record sstp_buff =
  b_len :: int
  b_max :: int
  b_off :: int
  b_data :: bytes

text \<open>A buffer as \<open>sstp_buff_create\<close> makes it and every operation keeps it.\<close>

definition wf_buff :: "sstp_buff \<Rightarrow> bool" where
  "wf_buff b \<longleftrightarrow> int (length (b_data b)) = b_max b \<and> 0 \<le> b_len b \<and> b_len b \<le> b_max b"

text \<open>The bytes the buffer holds.\<close>

definition content :: "sstp_buff \<Rightarrow> bytes" where
  "content b = take (nat (b_len b)) (b_data b)"

section \<open>Operations\<close>

text \<open>\<open>ok\<close> says whether \<^verbatim>\<open>calloc\<close> found the memory.\<close>

definition sstp_buff_create :: "bool \<Rightarrow> int \<Rightarrow> status_t \<times> sstp_buff option" where
  "sstp_buff_create ok sz =
     (if \<not> ok then (SSTP_FAIL, None)
      else (SSTP_OKAY,
            Some \<lparr>b_len = 0, b_max = sz, b_off = 0, b_data = replicate (nat sz) 0\<rparr>))"

definition sstp_buff_space :: "sstp_buff \<Rightarrow> int \<Rightarrow> status_t" where
  "sstp_buff_space buf n =
     (if b_max buf < b_len buf + n then SSTP_FAIL else SSTP_OKAY)"

definition sstp_buff_reset :: "sstp_buff \<Rightarrow> sstp_buff" where
  "sstp_buff_reset buf = buf\<lparr>b_len := 0, b_off := 0\<rparr>"

text \<open>
  \<open>sstp_buff_print\<close> after the format has been expanded to the text \<open>str\<close>:
  \<^verbatim>\<open>vsnprintf\<close> stores at most \<open>max - len - 1\<close> characters and a terminating zero,
  and returns the length of the whole text.
\<close>

definition vsnprintf :: "bytes \<Rightarrow> int \<Rightarrow> int \<Rightarrow> bytes \<Rightarrow> bytes option" where
  "vsnprintf d off sz str =
     (if sz \<le> 0 then Some d else wr_n d off (take (nat sz - 1) str @ [0]))"

definition sstp_buff_print :: "sstp_buff \<Rightarrow> bytes \<Rightarrow> (status_t \<times> sstp_buff) option" where
  "sstp_buff_print buf str = do {
     d \<leftarrow> vsnprintf (b_data buf) (b_len buf) (b_max buf - b_len buf) str;
     let ret = int (length str);
     let buf = buf\<lparr>b_data := d\<rparr>;
     Some (if ret \<le> 0 \<or> ret > b_max buf - b_len buf then (SSTP_OVERFLOW, buf)
           else (SSTP_OKAY, buf\<lparr>b_len := b_len buf + ret\<rparr>)) }"

text \<open>The buffer that \<open>sstp_buff_create\<close> returns.\<close>

definition wbuf :: "nat \<Rightarrow> sstp_buff" where
  "wbuf n = \<lparr>b_len = 0, b_max = int n, b_off = 0, b_data = replicate n 0\<rparr>"

lemmas buff_ops [unfold_ops] =
  sstp_buff_space_def sstp_buff_reset_def

section \<open>Invariant and behaviour\<close>

lemma wf_buff_create [wf_intros]:
  "sstp_buff_create ok n = (st, Some b) \<Longrightarrow> 0 \<le> n \<Longrightarrow> wf_buff b"
  by (auto simp: sstp_buff_create_def wf_buff_def split: if_splits)

lemma wf_wbuf [simp]: "wf_buff (wbuf n)"
  by (simp add: wbuf_def wf_buff_def)

lemma wf_buff_reset [wf_intros]: "wf_buff b \<Longrightarrow> wf_buff (sstp_buff_reset b)"
  by (auto simp: wf_buff_def sstp_buff_reset_def)

lemma space_iff [simp]:
  "sstp_buff_space b n = SSTP_OKAY \<longleftrightarrow> b_len b + n \<le> b_max b"
  by (auto simp: sstp_buff_space_def)

lemma length_content: "wf_buff b \<Longrightarrow> length (content b) = nat (b_len b)"
  by (auto simp: content_def wf_buff_def)

lemma vsnprintf_defined:
  assumes "wf_buff b"
  shows "\<exists>d. vsnprintf (b_data b) (b_len b) (b_max b - b_len b) str = Some d
    \<and> length d = length (b_data b)
    \<and> (b_len b < b_max b \<longrightarrow>
         d = take (nat (b_len b)) (b_data b) @ take (nat (b_max b - b_len b) - 1) str @ [0]
             @ drop (nat (b_len b) + Suc (min (length str) (nat (b_max b - b_len b) - 1))) (b_data b))"
proof (cases "b_max b - b_len b \<le> 0")
  case True
  then show ?thesis by (simp add: vsnprintf_def)
next
  case False
  let ?t = "take (nat (b_max b - b_len b) - 1) str @ [0 :: u8]"
  have fits: "0 \<le> b_len b" "b_len b + int (length ?t) \<le> int (length (b_data b))"
    using assms False by (auto simp: wf_buff_def)
  have d: "vsnprintf (b_data b) (b_len b) (b_max b - b_len b) str = wr_n (b_data b) (b_len b) ?t"
    using False by (simp add: vsnprintf_def)
  show ?thesis
    unfolding d using fits wr_n_defined [OF fits] wr_n_length [OF wr_n_defined [OF fits]]
    by simp
qed

text \<open>Printing never writes outside the buffer, and keeps it well formed.\<close>

lemma sstp_buff_print_wf:
  assumes "wf_buff b"
  shows "\<exists>st b'. sstp_buff_print b str = Some (st, b') \<and> wf_buff b'
           \<and> b_max b' = b_max b \<and> b_off b' = b_off b"
proof -
  obtain d where "vsnprintf (b_data b) (b_len b) (b_max b - b_len b) str = Some d"
    and "length d = length (b_data b)"
    using vsnprintf_defined [OF assms] by blast
  then show ?thesis
    using assms by (auto simp: sstp_buff_print_def wf_buff_def Let_def)
qed

text \<open>A text shorter than the space left is appended to the content.\<close>

lemma sstp_buff_print_appends:
  assumes wf: "wf_buff b" and ne: "str \<noteq> []"
    and fits: "b_len b + int (length str) < b_max b"
  shows "\<exists>b'. sstp_buff_print b str = Some (SSTP_OKAY, b') \<and> content b' = content b @ str
           \<and> wf_buff b' \<and> b_max b' = b_max b \<and> b_off b' = b_off b"
proof -
  have lt: "b_len b < b_max b" using fits by simp
  obtain d where d: "vsnprintf (b_data b) (b_len b) (b_max b - b_len b) str = Some d"
    and len: "length d = length (b_data b)"
    and eq: "d = take (nat (b_len b)) (b_data b) @ take (nat (b_max b - b_len b) - 1) str @ [0]
             @ drop (nat (b_len b) + Suc (min (length str) (nat (b_max b - b_len b) - 1))) (b_data b)"
    using lt vsnprintf_defined [OF wf] by blast
  have "take (nat (b_max b - b_len b) - 1) str = str" using fits by simp
  then have dt: "d = take (nat (b_len b)) (b_data b) @ str @ [0]
      @ drop (nat (b_len b) + Suc (length str)) (b_data b)"
    using eq fits by (simp add: min_def)
  have l: "length (take (nat (b_len b)) (b_data b)) = nat (b_len b)"
    using wf by (auto simp: wf_buff_def)
  have n: "nat (b_len b + int (length str)) = nat (b_len b) + length str"
    using wf by (auto simp: wf_buff_def nat_add_distrib)
  have "take (nat (b_len b) + length str) d = take (nat (b_len b)) (b_data b) @ str"
    using l by (simp add: dt)
  then show ?thesis
    using wf ne fits d len n
    by (auto simp: sstp_buff_print_def wf_buff_def content_def Let_def)
qed

text \<open>
  A text that fills the space exactly is accepted although \<^verbatim>\<open>vsnprintf\<close> had to drop
  its last character for the terminating zero: the length then counts a zero byte in the
  place of that character.
\<close>

lemma sstp_buff_print_exact_fit:
  assumes wf: "wf_buff b" and ne: "str \<noteq> []"
    and fits: "b_len b + int (length str) = b_max b"
  shows "\<exists>b'. sstp_buff_print b str = Some (SSTP_OKAY, b')
           \<and> content b' = content b @ butlast str @ [0]"
proof -
  have lt: "b_len b < b_max b" using fits ne by (cases str) auto
  obtain d where d: "vsnprintf (b_data b) (b_len b) (b_max b - b_len b) str = Some d"
    and len: "length d = length (b_data b)"
    and eq: "d = take (nat (b_len b)) (b_data b) @ take (nat (b_max b - b_len b) - 1) str @ [0]
             @ drop (nat (b_len b) + Suc (min (length str) (nat (b_max b - b_len b) - 1))) (b_data b)"
    using lt vsnprintf_defined [OF wf] by blast
  have m: "nat (b_max b - b_len b) - 1 = length str - 1" using fits by simp
  have ld: "length (b_data b) = nat (b_len b) + length str"
    using wf fits by (auto simp: wf_buff_def)
  have "d = take (nat (b_len b)) (b_data b) @ butlast str @ [0]"
    using eq ne unfolding m by (cases str) (auto simp: butlast_conv_take ld)
  moreover have "nat (b_len b + int (length str)) = length d"
    using len ld wf fits by (auto simp: wf_buff_def)
  then have "take (nat (b_len b + int (length str))) d = d"
    by simp
  ultimately show ?thesis
    using ne fits d
    by (simp add: sstp_buff_print_def content_def)
qed

end
