(* ===== verification/Packet.thy ===== *)
theory Packet
  imports Buff
begin

text \<open>
  SSTP packets, \<^verbatim>\<open>sstp/sstp-packet.c\<close> and \<^verbatim>\<open>sstp-packet.h\<close>: building a message in a
  buffer (\<open>sstp_pkt_init\<close>, \<open>sstp_pkt_attr\<close>, \<open>sstp_pkt_update\<close>), classifying it and
  locating its attributes (\<open>sstp_pkt_type\<close>, \<open>sstp_pkt_parse\<close>). The abstract
  specification is the wire format \<open>enc_ctrl\<close>; the lemmas show that the builders refine it,
  what the parser finds in a message of one attribute, that it is memory safe on such a
  message, and where it looks for a second one.
\<close>

section \<open>Data\<close>

datatype sstp_msg_t =
    SSTP_MSG_DATA
  | SSTP_MSG_CONNECT_REQ
  | SSTP_MSG_CONNECT_ACK
  | SSTP_MSG_CONNECT_NAK
  | SSTP_MSG_CONNECTED
  | SSTP_MSG_ABORT
  | SSTP_MSG_DISCONNECT
  | SSTP_MSG_DISCONNECT_ACK
  | SSTP_ECHO_REQUEST
  | SSTP_ECHO_REPLY

primrec msg_code :: "sstp_msg_t \<Rightarrow> u16" where
  "msg_code SSTP_MSG_DATA = 0"
| "msg_code SSTP_MSG_CONNECT_REQ = 1"
| "msg_code SSTP_MSG_CONNECT_ACK = 2"
| "msg_code SSTP_MSG_CONNECT_NAK = 3"
| "msg_code SSTP_MSG_CONNECTED = 4"
| "msg_code SSTP_MSG_ABORT = 5"
| "msg_code SSTP_MSG_DISCONNECT = 6"
| "msg_code SSTP_MSG_DISCONNECT_ACK = 7"
| "msg_code SSTP_ECHO_REQUEST = 8"
| "msg_code SSTP_ECHO_REPLY = 9"

datatype sstp_pkt_t = SSTP_PKT_UNKNOWN | SSTP_PKT_DATA | SSTP_PKT_CTRL

datatype sstp_attr_t =
    SSTP_ATTR_NO_ERROR
  | SSTP_ATTR_ENCAP_PROTO
  | SSTP_ATTR_STATUS_INFO
  | SSTP_ATTR_CRYPTO_BIND
  | SSTP_ATTR_CRYPTO_BIND_REQ

primrec attr_code :: "sstp_attr_t \<Rightarrow> nat" where
  "attr_code SSTP_ATTR_NO_ERROR = 0"
| "attr_code SSTP_ATTR_ENCAP_PROTO = 1"
| "attr_code SSTP_ATTR_STATUS_INFO = 2"
| "attr_code SSTP_ATTR_CRYPTO_BIND = 3"
| "attr_code SSTP_ATTR_CRYPTO_BIND_REQ = 4"

text \<open>The largest attribute number (\<open>_SSTP_ATTR_MAX - 1\<close>).\<close>

definition SSTP_ATTR_MAX :: nat where "SSTP_ATTR_MAX = 4"
definition SSTP_PROTO_VER :: u8 where "SSTP_PROTO_VER = 0x10"
definition SSTP_MSG_FLAG_CTRL :: u8 where "SSTP_MSG_FLAG_CTRL = 0x01"
definition SSTP_ENCAP_PROTO_PPP :: u16 where "SSTP_ENCAP_PROTO_PPP = 1"
definition SSTP_PROTO_HASH_SHA1 :: u8 where "SSTP_PROTO_HASH_SHA1 = 0x01"
definition SSTP_PROTO_HASH_SHA256 :: u8 where "SSTP_PROTO_HASH_SHA256 = 0x02"

lemmas pkt_consts =
  SSTP_ATTR_MAX_def SSTP_PROTO_VER_def SSTP_MSG_FLAG_CTRL_def SSTP_ENCAP_PROTO_PPP_def
  SSTP_PROTO_HASH_SHA1_def SSTP_PROTO_HASH_SHA256_def

text \<open>The sizes of \<open>sstp_pkt_st\<close>, \<open>sstp_ctrl_st\<close> and \<open>sstp_attr_st\<close>.\<close>

abbreviation sizeof_pkt :: int where "sizeof_pkt \<equiv> 4"
abbreviation sizeof_ctrl :: int where "sizeof_ctrl \<equiv> 4"
abbreviation sizeof_attr :: int where "sizeof_attr \<equiv> 4"

text \<open>
  An element of the caller's pointer array: never assigned, the null pointer, or a pointer to
  the attribute at an offset of the buffer.
\<close>

datatype attr_ptr = Uninit | Null | At int

section \<open>Building a packet\<close>

definition sstp_pkt_init :: "sstp_buff \<Rightarrow> sstp_msg_t \<Rightarrow> (status_t \<times> sstp_buff) option" where
  "sstp_pkt_init buf ty =
     (let buf = sstp_buff_reset buf; n = c_short sizeof_pkt in
      if sstp_buff_space buf n \<noteq> SSTP_OKAY then Some (SSTP_FAIL, buf)
      else do {
        d \<leftarrow> wr_n (b_data buf) 0
               [SSTP_PROTO_VER, if ty \<noteq> SSTP_MSG_DATA then SSTP_MSG_FLAG_CTRL else 0];
        let buf = buf\<lparr>b_data := d\<rparr>;
        if ty \<noteq> SSTP_MSG_DATA then
          (let n = c_short (n + sizeof_ctrl) in
           if sstp_buff_space buf n \<noteq> SSTP_OKAY then Some (SSTP_FAIL, buf)
           else do {
             d \<leftarrow> wr_n (b_data buf) 4 (be16 (msg_code ty) @ be16 0);
             d \<leftarrow> wr_n d 2 (be16 (word_of_int n));
             Some (SSTP_OKAY, buf\<lparr>b_data := d, b_len := n\<rparr>) })
        else do {
          d \<leftarrow> wr_n (b_data buf) 2 (be16 (word_of_int n));
          Some (SSTP_OKAY, buf\<lparr>b_data := d, b_len := n\<rparr>) } })"

text \<open>The memory at \<open>data\<close> is a byte list; \<^verbatim>\<open>memcpy\<close> reads its first \<open>len\<close> bytes.\<close>

definition sstp_pkt_attr ::
    "sstp_buff \<Rightarrow> sstp_attr_t \<Rightarrow> u16 \<Rightarrow> bytes \<Rightarrow> (status_t \<times> sstp_buff) option" where
  "sstp_pkt_attr buf ty len data =
     (let n = c_short (uint len + sizeof_attr) in
      if sstp_buff_space buf n \<noteq> SSTP_OKAY then Some (SSTP_FAIL, buf)
      else do {
        flags \<leftarrow> rd (b_data buf) 1;
        if SSTP_MSG_FLAG_CTRL AND flags = 0 then Some (SSTP_FAIL, buf)
        else do {
          nattr \<leftarrow> rd16 (b_data buf) 6;
          d \<leftarrow> wr_n (b_data buf) 6 (be16 (nattr + 1));
          d \<leftarrow> wr_n d (b_len buf) ([0, of_nat (attr_code ty)] @ be16 (word_of_int n));
          src \<leftarrow> rd_n data 0 (uint len);
          d \<leftarrow> wr_n d (b_len buf + sizeof_attr) src;
          let l = b_len buf + n;
          d \<leftarrow> wr_n d 2 (be16 (word_of_int l));
          Some (SSTP_OKAY, buf\<lparr>b_data := d, b_len := l\<rparr>) } })"

definition sstp_pkt_update :: "sstp_buff \<Rightarrow> sstp_buff option" where
  "sstp_pkt_update buf = do {
     d \<leftarrow> wr_n (b_data buf) 2 (be16 (word_of_int (b_len buf)));
     Some (buf\<lparr>b_data := d\<rparr>) }"

section \<open>Reading a packet\<close>

text \<open>The offset of the payload, \<open>None\<close> inside for the null pointer.\<close>

definition sstp_pkt_data :: "sstp_buff \<Rightarrow> int option option" where
  "sstp_pkt_data buf = do {
     flags \<leftarrow> rd (b_data buf) 1;
     Some (if SSTP_MSG_FLAG_CTRL AND flags = 0 then Some sizeof_pkt else None) }"

definition sstp_pkt_data_len :: "sstp_buff \<Rightarrow> int option" where
  "sstp_pkt_data_len buf = do {
     flags \<leftarrow> rd (b_data buf) 1;
     Some (if SSTP_MSG_FLAG_CTRL AND flags = 0 then b_len buf - sizeof_pkt else 0) }"

definition sstp_pkt_len :: "sstp_buff \<Rightarrow> int option" where
  "sstp_pkt_len buf = do { l \<leftarrow> rd16 (b_data buf) 2; Some (uint l) }"

text \<open>
  \<^verbatim>\<open>buf->len < sizeof(sstp_pkt_st)\<close> compares as \<^verbatim>\<open>size_t\<close>, so a negative length is not
  short. The message type is assigned for a control packet only.
\<close>

definition sstp_pkt_type :: "sstp_buff \<Rightarrow> (sstp_pkt_t \<times> u16 option) option" where
  "sstp_pkt_type buf =
     (if b_len buf mod 2 ^ 64 < sizeof_pkt then Some (SSTP_PKT_UNKNOWN, None)
      else do {
        flags \<leftarrow> rd (b_data buf) 1;
        if SSTP_MSG_FLAG_CTRL AND flags \<noteq> 0 then do {
          ty \<leftarrow> rd16 (b_data buf) 4;
          Some (SSTP_PKT_CTRL, Some ty) }
        else Some (SSTP_PKT_DATA, None) })"

text \<open>
  The loop over the attributes: \<open>k\<close> counts \<open>alen\<close> down, \<open>index\<close> is the offset of the
  next entry; it becomes the length field of the entry just read, as a \<^verbatim>\<open>short\<close>.
\<close>

fun parse_attrs ::
    "bytes \<Rightarrow> nat \<Rightarrow> int \<Rightarrow> attr_ptr list \<Rightarrow> (status_t \<times> int \<times> attr_ptr list) option" where
  "parse_attrs d 0 index attrs = Some (SSTP_OKAY, index, attrs)"
| "parse_attrs d (Suc k) index attrs = do {
     ty \<leftarrow> rd d (index + 1);
     if SSTP_ATTR_MAX < unat ty then Some (SSTP_FAIL, index, attrs)
     else do {
       len \<leftarrow> rd16 d (index + 2);
       parse_attrs d k (c_short (uint len)) (attrs[unat ty := At index]) } }"

definition sstp_pkt_parse ::
    "sstp_buff \<Rightarrow> attr_ptr list \<Rightarrow> (status_t \<times> sstp_buff \<times> attr_ptr list) option" where
  "sstp_pkt_parse buf attrs =
     (if b_len buf < sizeof_pkt + sizeof_ctrl + sizeof_attr + 2 then Some (SSTP_FAIL, buf, attrs)
      else do {
        flags \<leftarrow> rd (b_data buf) 1;
        if SSTP_MSG_FLAG_CTRL AND flags = 0 then Some (SSTP_FAIL, buf, attrs)
        else do {
          alen \<leftarrow> rd16 (b_data buf) 6;
          let attrs = replicate SSTP_ATTR_MAX Null @ drop SSTP_ATTR_MAX attrs;
          (st, index, attrs) \<leftarrow> parse_attrs (b_data buf) (unat alen) 8 attrs;
          Some (if st = SSTP_OKAY then (SSTP_OKAY, buf\<lparr>b_off := index\<rparr>, attrs)
                else (SSTP_FAIL, buf, attrs)) } })"

text \<open>What follows the header of the attribute at an offset.\<close>

definition sstp_attr_data :: "int \<Rightarrow> int" where
  "sstp_attr_data entry = entry + sizeof_attr"

definition sstp_attr_len :: "bytes \<Rightarrow> int \<Rightarrow> int option" where
  "sstp_attr_len d entry = do { l \<leftarrow> rd16 d (entry + 2); Some (uint l - sizeof_attr) }"

definition sstp_attr_status_str :: "int \<Rightarrow> string" where
  "sstp_attr_status_str status =
     (if status = 0x01 then ''Received Duplicate Attribute''
      else if status = 0x02 then ''Unrecognized Attribute''
      else if status = 0x03 then ''Invalid Attribute Length''
      else if status = 0x04 then ''Value of attribute is incorrect''
      else if status = 0x09 then ''Attribute is invalid or not supported''
      else if status = 0x0a then ''Attribute is missing''
      else if status = 0x0b then ''Invalid info attribute''
      else ''Unknown Status Attribute'')"

section \<open>The wire format\<close>

definition enc_attr :: "sstp_attr_t \<times> bytes \<Rightarrow> bytes" where
  "enc_attr a = [0, of_nat (attr_code (fst a))] @ be16 (of_nat (length (snd a) + 4)) @ snd a"

definition enc_attrs :: "(sstp_attr_t \<times> bytes) list \<Rightarrow> bytes" where
  "enc_attrs as = concat (map enc_attr as)"

definition enc_ctrl :: "sstp_msg_t \<Rightarrow> (sstp_attr_t \<times> bytes) list \<Rightarrow> bytes" where
  "enc_ctrl ty as =
     [SSTP_PROTO_VER, SSTP_MSG_FLAG_CTRL] @ be16 (of_nat (8 + length (enc_attrs as)))
     @ be16 (msg_code ty) @ be16 (of_nat (length as)) @ enc_attrs as"

text \<open>The buffer holds exactly this message.\<close>

definition holds :: "sstp_buff \<Rightarrow> bytes \<Rightarrow> bool" where
  "holds buf msg \<longleftrightarrow> wf_buff buf \<and> content buf = msg"

text \<open>Building a whole message, one attribute after the other.\<close>

fun add_attrs ::
    "(sstp_attr_t \<times> bytes) list \<Rightarrow> sstp_buff \<Rightarrow> (status_t \<times> sstp_buff) option" where
  "add_attrs [] buf = Some (SSTP_OKAY, buf)"
| "add_attrs ((t, d) # as) buf = do {
     (st, buf) \<leftarrow> sstp_pkt_attr buf t (of_nat (length d)) d;
     if st = SSTP_OKAY then add_attrs as buf else Some (st, buf) }"

definition build_ctrl ::
    "sstp_msg_t \<Rightarrow> (sstp_attr_t \<times> bytes) list \<Rightarrow> sstp_buff \<Rightarrow> (status_t \<times> sstp_buff) option" where
  "build_ctrl ty as buf = do {
     (st, buf) \<leftarrow> sstp_pkt_init buf ty;
     if st = SSTP_OKAY then add_attrs as buf else Some (st, buf) }"

section \<open>Building refines the wire format\<close>

lemma holds_iff:
  "holds buf msg \<longleftrightarrow> wf_buff buf \<and> b_len buf = int (length msg) \<and> (\<exists>free. b_data buf = msg @ free)"
proof
  assume h: "holds buf msg"
  then have "b_data buf = msg @ drop (nat (b_len buf)) (b_data buf)"
    by (auto simp: holds_def content_def)
  moreover have "b_len buf = int (length msg)"
    using h length_content [of buf] by (auto simp: holds_def wf_buff_def)
  ultimately show "wf_buff buf \<and> b_len buf = int (length msg) \<and> (\<exists>free. b_data buf = msg @ free)"
    using h by (auto simp: holds_def)
qed (auto simp: holds_def content_def)

lemma enc_attrs_append [simp]: "enc_attrs (as @ [a]) = enc_attrs as @ enc_attr a"
  by (simp add: enc_attrs_def)

lemma length_enc_attr: "length (enc_attr a) = length (snd a) + 4"
  by (simp add: enc_attr_def)

lemma length_enc_ctrl: "length (enc_ctrl ty as) = 8 + length (enc_attrs as)"
  by (simp add: enc_ctrl_def)

lemma sstp_pkt_init_ctrl:
  assumes "wf_buff buf" "ty \<noteq> SSTP_MSG_DATA"
  shows "\<exists>buf'. sstp_pkt_init buf ty = Some (if 8 \<le> b_max buf then SSTP_OKAY else SSTP_FAIL, buf')
    \<and> wf_buff buf' \<and> b_max buf' = b_max buf \<and> b_off buf' = 0
    \<and> (8 \<le> b_max buf \<longrightarrow> holds buf' (enc_ctrl ty []))"
proof (cases "8 \<le> b_max buf")
  case True
  then have "8 \<le> length (b_data buf)" using assms(1) by (simp add: wf_buff_def)
  then obtain a b c d e f g h free where "b_data buf = a # b # c # d # e # f # g # h # free"
    by (blast dest: list_of_8)
  then show ?thesis
    using assms True
    by (auto simp: sstp_pkt_init_def sstp_buff_reset_def wr_n_def holds_iff enc_ctrl_def
        wf_buff_def be16_def enc_attrs_def Let_def)
next
  case False
  show ?thesis
    using assms False by (auto simp: sstp_pkt_init_def wf_buff_def sstp_buff_reset_def Let_def wr_n_def)
qed

lemma rd_1_enc_ctrl: "rd (enc_ctrl ty as @ free) 1 = Some SSTP_MSG_FLAG_CTRL"
  by (simp add: enc_ctrl_def rd_def)

lemma rd16_nattr: "rd16 (enc_ctrl ty as @ free) 6 = Some (of_nat (length as))"
  using rd16_split [of 6 "[SSTP_PROTO_VER, SSTP_MSG_FLAG_CTRL] @ be16 (of_nat (8 + length (enc_attrs as)))
      @ be16 (msg_code ty)" "of_nat (length as)" "enc_attrs as @ free"]
  by (simp add: enc_ctrl_def)

lemma sstp_pkt_attr_appends:
  assumes h: "holds buf (enc_ctrl ty as)" and short: "length d < 32764"
    and fits: "8 + int (length (enc_attrs (as @ [(t, d)]))) \<le> b_max buf"
  shows "\<exists>buf'. sstp_pkt_attr buf t (of_nat (length d)) d = Some (SSTP_OKAY, buf')
    \<and> holds buf' (enc_ctrl ty (as @ [(t, d)])) \<and> b_max buf' = b_max buf \<and> b_off buf' = b_off buf"
proof -
  obtain free where wf: "wf_buff buf" and len: "b_len buf = 8 + int (length (enc_attrs as))"
    and dat: "b_data buf = enc_ctrl ty as @ free"
    using h by (auto simp: holds_iff length_enc_ctrl)
  have room: "length d + 4 \<le> length free"
    using wf fits by (auto simp: wf_buff_def dat len length_enc_ctrl length_enc_attr)
  obtain f1 f2 rest where free: "free = f1 @ f2 @ rest" "length f1 = 4" "length f2 = length d"
  proof (rule that)
    show "free = take 4 free @ take (length d) (drop 4 free) @ drop (4 + length d) free"
      by (rule take_drop_split)
  qed (use room in simp_all)
  let ?h = "[SSTP_PROTO_VER, SSTP_MSG_FLAG_CTRL]"
  let ?l = "be16 (of_nat (8 + length (enc_attrs as))) :: bytes"
  let ?l' = "be16 (of_nat (8 + length (enc_attrs (as @ [(t, d)])))) :: bytes"
  let ?t = "be16 (msg_code ty)"
  let ?n = "be16 (of_nat (length as)) :: bytes" and ?n' = "be16 (of_nat (length as) + 1) :: bytes"
  let ?a = "[0, of_nat (attr_code t)] @ be16 (of_nat (length d + 4)) :: bytes"
  have u: "uint (of_nat (length d) :: u16) = int (length d)"
    using short by (simp add: unsigned_of_nat take_bit_nat_eq_self)
  have d1: "wr_n (b_data buf) 6 ?n' = Some (?h @ ?l @ ?t @ ?n' @ enc_attrs as @ free)"
    by (rule wr_n_at [of _ "?h @ ?l @ ?t" _ ?n]) (simp_all add: dat enc_ctrl_def)
  have d2: "wr_n (?h @ ?l @ ?t @ ?n' @ enc_attrs as @ free) (b_len buf) ?a
      = Some (?h @ ?l @ ?t @ ?n' @ enc_attrs as @ ?a @ f2 @ rest)"
    by (rule wr_n_at [of _ "?h @ ?l @ ?t @ ?n' @ enc_attrs as" _ f1]) (simp_all add: free len)
  have d3: "wr_n (?h @ ?l @ ?t @ ?n' @ enc_attrs as @ ?a @ f2 @ rest) (b_len buf + 4) d
      = Some (?h @ ?l @ ?t @ ?n' @ enc_attrs as @ ?a @ d @ rest)"
    by (rule wr_n_at [of _ "?h @ ?l @ ?t @ ?n' @ enc_attrs as @ ?a" _ f2]) (simp_all add: free(3) len)
  have d4: "wr_n (?h @ ?l @ ?t @ ?n' @ enc_attrs as @ ?a @ d @ rest) 2 ?l'
      = Some (?h @ ?l' @ ?t @ ?n' @ enc_attrs as @ ?a @ d @ rest)"
    by (rule wr_n_at [of _ ?h _ ?l]) simp_all
  have enc: "?h @ ?l' @ ?t @ ?n' @ enc_attrs as @ ?a @ d = enc_ctrl ty (as @ [(t, d)])"
    by (simp add: enc_ctrl_def enc_attr_def add.commute)
  have n: "c_short (int (length d) + 4) = int (length d) + 4" using short by simp
  have w: "word_of_int (int (length d) + 4) = (of_nat (length d + 4) :: u16)"
    "word_of_int (b_len buf + (int (length d) + 4)) = (of_nat (8 + length (enc_attrs (as @ [(t, d)]))) :: u16)"
    by (simp_all add: len length_enc_attr)
  have sp: "b_len buf + (int (length d) + 4) \<le> b_max buf"
    using fits by (simp add: len length_enc_attr)
  have rn: "rd_n d 0 (int (length d)) = Some d" by (simp add: rd_n_def)
  have c: "SSTP_MSG_FLAG_CTRL AND SSTP_MSG_FLAG_CTRL \<noteq> 0" by (simp add: SSTP_MSG_FLAG_CTRL_def)
  have "sstp_pkt_attr buf t (of_nat (length d)) d = Some (SSTP_OKAY,
      buf\<lparr>b_data := enc_ctrl ty (as @ [(t, d)]) @ rest, b_len := b_len buf + (int (length d) + 4)\<rparr>)"
    using sp c d1 d2 d3 d4
    by (simp only: sstp_pkt_attr_def u n Let_def space_iff bind.bind_lunit dat rd_1_enc_ctrl rd16_nattr w rn
        enc [symmetric] append_assoc if_False not_True_eq_False)
  moreover have "wf_buff (buf\<lparr>b_data := enc_ctrl ty (as @ [(t, d)]) @ rest,
      b_len := b_len buf + (int (length d) + 4)\<rparr>)"
    using wf sp by (auto simp: wf_buff_def dat free length_enc_ctrl length_enc_attr)
  ultimately show ?thesis
    by (simp add: holds_iff len length_enc_ctrl length_enc_attr)
qed

lemma sstp_pkt_attr_full:
  assumes "length d < 32764" "b_max buf < b_len buf + int (length d) + 4"
  shows "sstp_pkt_attr buf t (of_nat (length d)) d = Some (SSTP_FAIL, buf)"
proof -
  have u: "uint (of_nat (length d) :: u16) = int (length d)"
    using assms(1) by (simp add: unsigned_of_nat take_bit_nat_eq_self)
  show ?thesis using assms by (simp add: sstp_pkt_attr_def u)
qed

lemma add_attrs_refines:
  assumes "holds buf (enc_ctrl ty as0)" "\<forall>a\<in>set as. length (snd a) < 32764"
  shows "\<exists>buf'. add_attrs as buf =
      Some (if 8 + int (length (enc_attrs (as0 @ as))) \<le> b_max buf then SSTP_OKAY else SSTP_FAIL, buf')
    \<and> wf_buff buf' \<and> b_max buf' = b_max buf \<and> b_off buf' = b_off buf
    \<and> (8 + int (length (enc_attrs (as0 @ as))) \<le> b_max buf \<longrightarrow> holds buf' (enc_ctrl ty (as0 @ as)))"
  using assms
proof (induction as arbitrary: as0 buf)
  case Nil
  then show ?case by (auto simp: holds_iff wf_buff_def length_enc_ctrl)
next
  case (Cons a as)
  obtain t d where a: "a = (t, d)" by (cases a)
  have short: "length d < 32764" using Cons.prems a by auto
  have grow: "length (enc_attrs (as0 @ a # as)) = length (enc_attrs (as0 @ [a])) + length (enc_attrs as)"
    by (simp add: enc_attrs_def)
  show ?case
  proof (cases "8 + int (length (enc_attrs (as0 @ [(t, d)]))) \<le> b_max buf")
    case True
    obtain b where b: "sstp_pkt_attr buf t (of_nat (length d)) d = Some (SSTP_OKAY, b)"
      "holds b (enc_ctrl ty (as0 @ [(t, d)]))" "b_max b = b_max buf" "b_off b = b_off buf"
      using sstp_pkt_attr_appends [OF Cons.prems(1) short True] by blast
    then show ?thesis
      using Cons.IH [OF b(2)] Cons.prems(2) by (auto simp: a)
  next
    case False
    have "b_max buf < b_len buf + int (length d) + 4"
      using False Cons.prems(1) by (auto simp: holds_iff length_enc_ctrl length_enc_attr)
    then have "add_attrs (a # as) buf = Some (SSTP_FAIL, buf)"
      using sstp_pkt_attr_full [OF short] by (simp add: a)
    moreover have "\<not> 8 + int (length (enc_attrs (as0 @ a # as))) \<le> b_max buf"
      using False grow by (auto simp: a)
    ultimately show ?thesis
      using Cons.prems(1) by (auto simp: holds_iff)
  qed
qed

text \<open>The parser on a message of the wire format.\<close>

lemma content_prefix: "holds buf msg \<Longrightarrow> \<exists>free. b_data buf = msg @ free \<and> b_len buf = int (length msg)"
  by (auto simp: holds_iff)

lemma attr_code_max: "attr_code t \<le> SSTP_ATTR_MAX"
  by (cases t) (simp_all add: SSTP_ATTR_MAX_def)

lemma unat_attr_code: "unat (of_nat (attr_code t) :: u8) = attr_code t"
  by (cases t) simp_all

lemma enc_ctrl_type: "rd16 (enc_ctrl ty as @ free) 4 = Some (msg_code ty)"
  using rd16_split [of 4 "[SSTP_PROTO_VER, SSTP_MSG_FLAG_CTRL] @ be16 (of_nat (8 + length (enc_attrs as)))"
      "msg_code ty" "be16 (of_nat (length as)) @ enc_attrs as @ free"]
  by (simp add: enc_ctrl_def)

lemma first_attr_type:
  "rd (enc_ctrl ty ((t, d) # as) @ free) 9 = Some (of_nat (attr_code t))"
  by (simp add: enc_ctrl_def enc_attrs_def enc_attr_def rd_def be16_def)

lemma first_attr_length:
  "rd16 (enc_ctrl ty ((t, d) # as) @ free) 10 = Some (of_nat (length d + 4))"
  by (simp add: enc_ctrl_def enc_attrs_def enc_attr_def rd16_def rd_def be16_def
      flip: un16_be16 [of "of_nat (length d + 4)"])

lemma first_attr_data:
  "rd_n (enc_ctrl ty ((t, d) # as) @ free) 12 (int (length d)) = Some d"
  by (simp add: enc_ctrl_def enc_attrs_def enc_attr_def rd_n_def be16_def)

lemma uint_attr_len: "length d < 32764 \<Longrightarrow> uint (of_nat (length d + 4) :: u16) = int (length d) + 4"
  by (simp add: unsigned_of_nat take_bit_nat_eq_self del: of_nat_add)

lemma sstp_pkt_parse_first:
  assumes h: "holds buf (enc_ctrl ty ((t, d) # as))"
    and n: "length as < 65535" and d: "2 \<le> length d" "length d < 32764"
  shows "sstp_pkt_parse buf attrs = do {
     (st, index, attrs') \<leftarrow> parse_attrs (b_data buf) (length as) (int (length d) + 4)
       ((replicate SSTP_ATTR_MAX Null @ drop SSTP_ATTR_MAX attrs)[attr_code t := At 8]);
     Some (if st = SSTP_OKAY then (SSTP_OKAY, buf\<lparr>b_off := index\<rparr>, attrs') else (SSTP_FAIL, buf, attrs')) }"
proof -
  obtain free where f: "b_data buf = enc_ctrl ty ((t, d) # as) @ free"
    and l: "b_len buf = int (length (enc_ctrl ty ((t, d) # as)))"
    using content_prefix [OF h] by blast
  have ge: "\<not> b_len buf < 14"
    using d by (simp add: l length_enc_ctrl enc_attrs_def length_enc_attr)
  have u: "unat (of_nat (length ((t, d) # as)) :: u16) = Suc (length as)"
    using n by (simp add: unsigned_of_nat take_bit_nat_eq_self del: of_nat_Suc)
  have c: "SSTP_MSG_FLAG_CTRL AND SSTP_MSG_FLAG_CTRL \<noteq> 0" by (simp add: SSTP_MSG_FLAG_CTRL_def)
  have m: "\<not> SSTP_ATTR_MAX < unat (of_nat (attr_code t) :: u8)"
    using attr_code_max [of t] by (simp add: unat_attr_code)
  have s: "c_short (int (length d) + 4) = int (length d) + 4" using d by simp
  have i: "(8 + 1 :: int) = 9" "(8 + 2 :: int) = 10" by simp_all
  show ?thesis
    using ge c m
    by (simp add: sstp_pkt_parse_def f rd_1_enc_ctrl rd16_nattr u first_attr_type first_attr_length
        uint_attr_len [OF d(2)] s unat_attr_code Let_def del: of_nat_add of_nat_Suc list.size)
qed

text \<open>The outcomes of the parser on a message that announces at most one attribute.\<close>

lemma sstp_pkt_parse_le1:
  assumes wf: "wf_buff buf" and n: "rd16 (b_data buf) 6 = Some n" "unat n \<le> 1"
  shows "(\<exists>a. sstp_pkt_parse buf attrs = Some (SSTP_FAIL, buf, a))
    \<or> (unat n = 0 \<and> 14 \<le> b_len buf \<and> sstp_pkt_parse buf attrs
        = Some (SSTP_OKAY, buf\<lparr>b_off := 8\<rparr>, replicate SSTP_ATTR_MAX Null @ drop SSTP_ATTR_MAX attrs))
    \<or> (\<exists>ty j. unat n = 1 \<and> 14 \<le> b_len buf \<and> rd (b_data buf) 9 = Some ty \<and> unat ty \<le> SSTP_ATTR_MAX
        \<and> sstp_pkt_parse buf attrs = Some (SSTP_OKAY, buf\<lparr>b_off := j\<rparr>,
            (replicate SSTP_ATTR_MAX Null @ drop SSTP_ATTR_MAX attrs)[unat ty := At 8]))"
proof (cases "b_len buf < 14")
  case True
  then show ?thesis by (simp add: sstp_pkt_parse_def)
next
  case False
  have ld: "14 \<le> int (length (b_data buf))" using False wf by (simp add: wf_buff_def)
  then obtain f ty a b where r: "rd (b_data buf) 1 = Some f" "rd (b_data buf) 9 = Some ty"
      "rd (b_data buf) 10 = Some a" "rd (b_data buf) 11 = Some b"
    by (simp add: rd_def)
  then have l: "rd16 (b_data buf) 10 = Some (un16 a b)" by (simp add: rd16_def)
  consider "unat n = 0" | "unat n = Suc 0" using n(2) by linarith
  then show ?thesis
  proof cases
    case 1
    then show ?thesis using False n r by (auto simp: sstp_pkt_parse_def Let_def)
  next
    case 2
    then show ?thesis using False n r l by (auto simp: sstp_pkt_parse_def Let_def)
  qed
qed

section \<open>Properties\<close>

text \<open>C10. Building a control message refines the wire format: on a well-formed buffer the
  builders never fault, succeed exactly when the whole message fits in the buffer, and then
  leave exactly the bytes of the message, with the length and the attribute count of the
  header set; otherwise they return \<open>SSTP_FAIL\<close> and keep the buffer well formed.\<close>

theorem build_ctrl_refines:
  assumes "wf_buff buf" "ty \<noteq> SSTP_MSG_DATA" "\<forall>a\<in>set as. length (snd a) < 32764"
  shows "\<exists>buf'. build_ctrl ty as buf =
      Some (if int (length (enc_ctrl ty as)) \<le> b_max buf then SSTP_OKAY else SSTP_FAIL, buf')
    \<and> wf_buff buf' \<and> b_max buf' = b_max buf
    \<and> (int (length (enc_ctrl ty as)) \<le> b_max buf \<longrightarrow> content buf' = enc_ctrl ty as)"
proof -
  obtain b where b: "sstp_pkt_init buf ty = Some (if 8 \<le> b_max buf then SSTP_OKAY else SSTP_FAIL, b)"
    "wf_buff b" "b_max b = b_max buf" "8 \<le> b_max buf \<longrightarrow> holds b (enc_ctrl ty [])"
    using sstp_pkt_init_ctrl [OF assms(1,2)] by blast
  show ?thesis
  proof (cases "8 \<le> b_max buf")
    case True
    then have "holds b (enc_ctrl ty [])" using b(4) by blast
    then show ?thesis
      using add_attrs_refines [OF _ assms(3), of b ty "[]"] b True
      by (auto simp: build_ctrl_def length_enc_ctrl holds_def)
  next
    case False
    then show ?thesis using b by (auto simp: build_ctrl_def length_enc_ctrl)
  qed
qed

lemma build_ctrl_refines_witness:
  "\<exists>buf'. build_ctrl SSTP_MSG_CONNECT_REQ [(SSTP_ATTR_ENCAP_PROTO, [0, 1])] (wbuf 64) = Some (SSTP_OKAY, buf')
    \<and> content buf' = [0x10, 1, 0, 14, 0, 1, 0, 1, 0, 1, 0, 6, 0, 1]"
  using build_ctrl_refines [of "wbuf 64" SSTP_MSG_CONNECT_REQ "[(SSTP_ATTR_ENCAP_PROTO, [0, 1])]"]
  by (auto simp: wbuf_def wf_buff_def enc_ctrl_def enc_attrs_def enc_attr_def be16_def pkt_consts)

text \<open>C11. A message with one attribute round-trips: the receiver classifies it as a control
  packet of its type, the parser succeeds, sets that attribute's pointer to the attribute and
  clears the other three pointers it knows of, and the attribute's length and data are those
  that were sent. The fifth pointer keeps what the caller had in it.\<close>

theorem sstp_pkt_parse_roundtrip:
  assumes h: "content buf = enc_ctrl ty [(t, d)]" "wf_buff buf"
    and d: "2 \<le> length d" "length d < 32764"
  shows "sstp_pkt_type buf = Some (SSTP_PKT_CTRL, Some (msg_code ty))
    \<and> sstp_pkt_parse buf attrs = Some (SSTP_OKAY, buf\<lparr>b_off := int (length d) + 4\<rparr>,
        ([Null, Null, Null, Null] @ drop 4 attrs)[attr_code t := At 8])
    \<and> sstp_attr_len (b_data buf) 8 = Some (int (length d))
    \<and> rd_n (b_data buf) (sstp_attr_data 8) (int (length d)) = Some d"
proof -
  have hd: "holds buf (enc_ctrl ty [(t, d)])" using h by (simp add: holds_def)
  obtain free where f: "b_data buf = enc_ctrl ty [(t, d)] @ free"
    and l: "b_len buf = int (length (enc_ctrl ty [(t, d)]))"
    using content_prefix [OF hd] by blast
  have r: "replicate SSTP_ATTR_MAX Null = [Null, Null, Null, Null]"
    by (simp add: SSTP_ATTR_MAX_def numeral_eq_Suc)
  have r2: "drop SSTP_ATTR_MAX attrs = drop 4 attrs" by (simp add: SSTP_ATTR_MAX_def)
  have "sstp_pkt_type buf = Some (SSTP_PKT_CTRL, Some (msg_code ty))"
    using d by (simp add: sstp_pkt_type_def l f length_enc_ctrl enc_attrs_def length_enc_attr
        rd_1_enc_ctrl enc_ctrl_type SSTP_MSG_FLAG_CTRL_def)
  moreover have "sstp_pkt_parse buf attrs = Some (SSTP_OKAY, buf\<lparr>b_off := int (length d) + 4\<rparr>,
        ([Null, Null, Null, Null] @ drop 4 attrs)[attr_code t := At 8])"
    using sstp_pkt_parse_first [OF hd, of attrs] d by (simp add: r r2)
  ultimately show ?thesis
    using uint_attr_len [OF d(2)]
    by (simp add: sstp_attr_len_def f first_attr_length first_attr_data sstp_attr_data_def)
qed

lemma sstp_pkt_parse_roundtrip_witness:
  "sstp_pkt_type (wbuf 20\<lparr>b_len := 14,
      b_data := [0x10, 1, 0, 14, 0, 1, 0, 1, 0, 1, 0, 6, 0, 1, 0, 0, 0, 0, 0, 0]\<rparr>)
    = Some (SSTP_PKT_CTRL, Some 1)"
  using sstp_pkt_parse_roundtrip [of "wbuf 20\<lparr>b_len := 14,
      b_data := [0x10, 1, 0, 14, 0, 1, 0, 1, 0, 1, 0, 6, 0, 1, 0, 0, 0, 0, 0, 0]\<rparr>"
      SSTP_MSG_CONNECT_REQ SSTP_ATTR_ENCAP_PROTO "[0, 1]" "replicate 5 Uninit"]
  by (simp add: content_def wf_buff_def wbuf_def enc_ctrl_def enc_attrs_def enc_attr_def be16_def pkt_consts)

text \<open>C12. On a message that announces at most one attribute the parser is memory safe, whatever
  the bytes are: it never reads outside the buffer, and every pointer it sets is to the
  attribute header at offset 8, inside the received bytes.\<close>

theorem sstp_pkt_parse_safe:
  assumes wf: "wf_buff buf" and n: "rd16 (b_data buf) 6 = Some n" "unat n \<le> 1"
  shows "\<exists>st buf' attrs'. sstp_pkt_parse buf attrs = Some (st, buf', attrs')
    \<and> wf_buff buf' \<and> content buf' = content buf
    \<and> (\<forall>p. At p \<in> set attrs' \<longrightarrow> At p \<in> set attrs \<or> p = 8 \<and> p + 4 < b_len buf)"
proof (cases "b_len buf < 14")
  case True
  then show ?thesis using wf by (auto simp: sstp_pkt_parse_def)
next
  case False
  let ?d = "b_data buf" and ?a = "replicate SSTP_ATTR_MAX Null @ drop SSTP_ATTR_MAX attrs"
  have ld: "14 \<le> int (length ?d)" using False wf by (simp add: wf_buff_def)
  then obtain f ty a b where r: "rd ?d 1 = Some f" "rd ?d 9 = Some ty" "rd ?d 10 = Some a" "rd ?d 11 = Some b"
    by (simp add: rd_def)
  then have l: "rd16 ?d 10 = Some (un16 a b)" by (simp add: rd16_def)
  have sub: "At p \<in> set ?a \<Longrightarrow> At p \<in> set attrs" for p
    using in_set_dropD by fastforce
  have upd: "At p \<in> set (?a[k := At 8]) \<Longrightarrow> At p \<in> set attrs \<or> p = 8 \<and> p + 4 < b_len buf" for p k
    using set_update_subset_insert [of ?a k "At 8"] sub False by fastforce
  consider "unat n = 0" | "unat n = Suc 0" using n(2) by linarith
  then show ?thesis
  proof cases
    case 1
    then show ?thesis
      using False wf n r sub by (auto simp: sstp_pkt_parse_def Let_def wf_buff_def content_def)
  next
    case 2
    then show ?thesis
      using False wf n r l upd sub by (auto simp: sstp_pkt_parse_def Let_def wf_buff_def content_def)
  qed
qed

lemma sstp_pkt_parse_safe_witness:
  "\<exists>st buf' attrs'. sstp_pkt_parse (wbuf 20\<lparr>b_len := 14,
      b_data := [0x10, 1, 0, 14, 0, 2, 0, 1, 0, 4, 0xff, 0xff, 0, 1, 0, 0, 0, 0, 0, 0]\<rparr>)
      (replicate 5 Uninit) = Some (st, buf', attrs')"
  using sstp_pkt_parse_safe [of "wbuf 20\<lparr>b_len := 14,
      b_data := [0x10, 1, 0, 14, 0, 2, 0, 1, 0, 4, 0xff, 0xff, 0, 1, 0, 0, 0, 0, 0, 0]\<rparr>" 1
      "replicate 5 Uninit"]
  by (auto simp: wbuf_def wf_buff_def rd16_def rd_def un16_def)

text \<open>In a message of two attributes the parser looks for the second one at the offset
  given by the length field of the first, not after the first: with a first attribute of
  \<open>n\<close> data bytes the second header is read at offset \<open>n + 4\<close> of the message, that is
  \<open>8\<close> bytes before the place where the sender has put it.\<close>

theorem sstp_pkt_parse_second:
  assumes h: "content buf = enc_ctrl ty [(t, d), (t', d')]" "wf_buff buf"
    and d: "2 \<le> length d" "length d < 32764"
    and x: "content buf ! (length d + 5) = x" "unat x \<le> SSTP_ATTR_MAX" "unat x < length attrs"
    and l: "SSTP_ATTR_MAX \<le> length attrs"
  shows "\<exists>buf' attrs'. sstp_pkt_parse buf attrs = Some (SSTP_OKAY, buf', attrs')
    \<and> attrs' ! unat x = At (int (length d) + 4)
    \<and> take (length d' + 4) (drop (length d + 12) (content buf)) = enc_attr (t', d')"
proof -
  have hd: "holds buf (enc_ctrl ty [(t, d), (t', d')])" using h by (simp add: holds_def)
  let ?m = "enc_ctrl ty [(t, d), (t', d')]"
  obtain free where f: "b_data buf = ?m @ free" and bl: "b_len buf = int (length ?m)"
    using content_prefix [OF hd] by blast
  obtain pre where m: "?m = pre @ enc_attr (t', d')" "length pre = length d + 12"
    by (rule that [of "[SSTP_PROTO_VER, SSTP_MSG_FLAG_CTRL]
        @ be16 (of_nat (8 + length (enc_attrs [(t, d), (t', d')]))) @ be16 (msg_code ty)
        @ be16 (of_nat (Suc (Suc 0))) @ enc_attr (t, d)"])
      (simp_all add: enc_ctrl_def enc_attrs_def length_enc_attr)
  have lm: "length ?m = 16 + length d + length d'"
    by (simp add: length_enc_ctrl enc_attrs_def length_enc_attr)
  have "rd (b_data buf) (int (length d) + 4 + 1) = Some x"
    using x(1) lm by (simp add: rd_def f h(1) nth_append nat_add_distrib add.commute)
  moreover obtain y where "rd16 (b_data buf) (int (length d) + 4 + 2) = Some y"
    using lm by (simp add: rd16_def rd_def f)
  moreover have "length (replicate SSTP_ATTR_MAX Null @ drop SSTP_ATTR_MAX attrs) = length attrs"
    using l by simp
  moreover have "take (length d' + 4) (drop (length d + 12) ?m) = enc_attr (t', d')"
    by (simp add: m length_enc_attr)
  ultimately show ?thesis
    using sstp_pkt_parse_first [OF hd _ d, of attrs] x h(1) by (simp add: not_le)
qed

lemma sstp_pkt_parse_second_witness:
  "\<exists>buf' attrs'. sstp_pkt_parse (wbuf 24\<lparr>b_len := 20, b_data := [0x10, 1, 0, 20, 0, 3, 0, 2,
        0, 1, 0, 6, 0, 1, 0, 2, 0, 6, 0, 9, 0, 0, 0, 0]\<rparr>) (replicate 5 Null)
      = Some (SSTP_OKAY, buf', attrs')
    \<and> attrs' ! 2 = At 6"
  using sstp_pkt_parse_second [of "wbuf 24\<lparr>b_len := 20, b_data := [0x10, 1, 0, 20, 0, 3, 0, 2,
        0, 1, 0, 6, 0, 1, 0, 2, 0, 6, 0, 9, 0, 0, 0, 0]\<rparr>" SSTP_MSG_CONNECT_NAK
      SSTP_ATTR_ENCAP_PROTO "[0, 1]" SSTP_ATTR_STATUS_INFO "[0, 9]" 2 "replicate 5 Null"]
  by (auto simp: wbuf_def content_def wf_buff_def enc_ctrl_def enc_attrs_def enc_attr_def be16_def pkt_consts)

text \<open>A second attribute makes the parser read outside its buffer when the first announces
  a length beyond it: a message of two attributes whose first length field is at least the
  capacity of the buffer is a memory error.\<close>

theorem sstp_pkt_parse_overrun:
  assumes wf: "wf_buff buf" "14 \<le> b_len buf"
    and ctrl: "rd (b_data buf) 1 = Some f" "f AND SSTP_MSG_FLAG_CTRL \<noteq> 0"
    and two: "rd16 (b_data buf) 6 = Some n" "2 \<le> unat n"
    and first: "rd (b_data buf) 9 = Some ty" "unat ty \<le> SSTP_ATTR_MAX"
      "rd16 (b_data buf) 10 = Some l" "b_max buf \<le> uint l" "uint l < 32768"
  shows "sstp_pkt_parse buf attrs = None"
proof -
  obtain k where k: "unat n = Suc (Suc k)" using two(2) by (auto dest!: le_Suc_ex simp: numeral_2_eq_2)
  have s: "c_short (uint l) = uint l"
    using first(5) by (intro c_short_id) (simp_all add: order_trans [of _ 0])
  have "rd (b_data buf) (uint l + 1) = None"
    using first(4) wf by (auto simp: rd_def wf_buff_def)
  then have "parse_attrs (b_data buf) (unat n) 8 a = None" for a
    using first by (simp add: k s not_less)
  then show ?thesis
    using wf(2) ctrl two(1) by (simp add: sstp_pkt_parse_def Let_def and.commute)
qed

lemma sstp_pkt_parse_overrun_witness:
  "sstp_pkt_parse (wbuf 20\<lparr>b_len := 14,
      b_data := [0x10, 1, 0, 14, 0, 3, 0, 2, 0, 1, 0x7f, 0xff, 0, 1, 0, 0, 0, 0, 0, 0]\<rparr>)
      (replicate 5 Uninit) = None"
  by (rule sstp_pkt_parse_overrun [of _ 1 2 1 "0x7fff"])
    (auto simp: wbuf_def wf_buff_def rd16_def rd_def un16_def pkt_consts)

end
