(* ===== verification/Openssl.thy ===== *)
theory Openssl
  imports Prelude
begin

text \<open>
  The cryptographic primitives the sources call but do not contain (OpenSSL 1.1): a record of
  functions that every definition using them takes as an argument, and the documented
  behaviour the properties rely on, as predicates that those properties name among their
  hypotheses. The last section gives a stand-in instance, used by witnesses only.
\<close>

record 'k openssl =
  MD4 :: "bytes \<Rightarrow> bytes"
  SHA1 :: "bytes \<Rightarrow> bytes"
  have_md4 :: bool                 \<comment> \<open>the digest can be fetched\<close>
  have_sha1 :: bool
  DES_set_odd_parity :: "bytes \<Rightarrow> bytes"
  DES_ecb_encrypt :: "bytes \<Rightarrow> bytes \<Rightarrow> bytes"   \<comment> \<open>key, block\<close>
  HMAC :: "bool \<Rightarrow> bytes \<Rightarrow> bytes \<Rightarrow> bytes"     \<comment> \<open>SHA-256 rather than SHA-1, key, message\<close>
  RC4_set_key :: "bytes \<Rightarrow> 'k"
  RC4 :: "'k \<Rightarrow> bytes \<Rightarrow> bytes \<times> 'k"

text \<open>The lengths of what the primitives return.\<close>

definition digest_lengths :: "('k, 'z) openssl_scheme \<Rightarrow> bool" where
  "digest_lengths ssl \<longleftrightarrow>
     (\<forall>m. length (MD4 ssl m) = 16) \<and> (\<forall>m. length (SHA1 ssl m) = 20)
     \<and> (\<forall>k m. length (DES_ecb_encrypt ssl k m) = 8)
     \<and> (\<forall>b k m. length (HMAC ssl b k m) = (if b then 32 else 20))"

text \<open>RC4 combines the data with a key stream: the same key state undoes it.\<close>

definition rc4_stream :: "('k, 'z) openssl_scheme \<Rightarrow> bool" where
  "rc4_stream ssl \<longleftrightarrow>
     (\<forall>k m. length (fst (RC4 ssl k m)) = length m \<and> fst (RC4 ssl k (fst (RC4 ssl k m))) = m)"

lemma digest_lengthsD:
  assumes "digest_lengths ssl"
  shows "length (MD4 ssl m) = 16" "length (SHA1 ssl m) = 20" "length (DES_ecb_encrypt ssl k m) = 8"
    "length (HMAC ssl b k m) = (if b then 32 else 20)"
  using assms by (simp_all add: digest_lengths_def)

lemma rc4_streamD:
  assumes "rc4_stream ssl"
  shows "length (fst (RC4 ssl k m)) = length m" "fst (RC4 ssl k (fst (RC4 ssl k m))) = m"
  using assms by (simp_all add: rc4_stream_def)

section \<open>An instance for the witnesses\<close>

definition demo_digest :: "nat \<Rightarrow> bytes \<Rightarrow> bytes" where
  "demo_digest n m = take n (m @ replicate n 0x55)"

definition demo_ssl :: "u8 openssl" where
  "demo_ssl = \<lparr>MD4 = demo_digest 16, SHA1 = demo_digest 20, have_md4 = True, have_sha1 = True,
     DES_set_odd_parity = (\<lambda>k. k), DES_ecb_encrypt = (\<lambda>k m. demo_digest 8 (k @ m)),
     HMAC = (\<lambda>b k m. demo_digest (if b then 32 else 20) (k @ m)),
     RC4_set_key = (\<lambda>k. if k = [] then 0 else hd k),
     RC4 = (\<lambda>k m. (map (\<lambda>c. c XOR k) m, k))\<rparr>"

lemma length_demo_digest: "length (demo_digest n m) = n"
  by (simp add: demo_digest_def min_def)

lemma demo_digest_lengths: "digest_lengths demo_ssl"
  by (simp add: digest_lengths_def demo_ssl_def length_demo_digest)

lemma demo_rc4_stream: "rc4_stream demo_ssl"
  by (simp add: rc4_stream_def demo_ssl_def o_def xor.assoc)

end
