(* ===== verification/Chap.thy ===== *)
theory Chap
  imports Openssl
begin

text \<open>
  MPPE keys from the MS-CHAPv2 exchange, \<^verbatim>\<open>sstp/sstp-chap.c\<close>: the double password hash, the
  master key and the two session keys. Strings are the bytes before the terminating zero.
\<close>

section \<open>Data\<close>

record sstp_chap =
  challenge :: bytes
  response :: bytes
  nt_response :: bytes
  chap_flags :: u8

definition SSTP_CHAP_SENDING :: u8 where "SSTP_CHAP_SENDING = 0x01"
definition SSTP_CHAP_SERVER :: u8 where "SSTP_CHAP_SERVER = 0x02"

definition magic1 :: bytes where
  "magic1 = [
     0x54, 0x68, 0x69, 0x73, 0x20, 0x69, 0x73, 0x20, 0x74,
     0x68, 0x65, 0x20, 0x4d, 0x50, 0x50, 0x45, 0x20, 0x4d,
     0x61, 0x73, 0x74, 0x65, 0x72, 0x20, 0x4b, 0x65, 0x79]"

definition magic2 :: bytes where
  "magic2 = [
     0x4f, 0x6e, 0x20, 0x74, 0x68, 0x65, 0x20, 0x63, 0x6c, 0x69,
     0x65, 0x6e, 0x74, 0x20, 0x73, 0x69, 0x64, 0x65, 0x2c, 0x20,
     0x74, 0x68, 0x69, 0x73, 0x20, 0x69, 0x73, 0x20, 0x74, 0x68,
     0x65, 0x20, 0x73, 0x65, 0x6e, 0x64, 0x20, 0x6b, 0x65, 0x79,
     0x3b, 0x20, 0x6f, 0x6e, 0x20, 0x74, 0x68, 0x65, 0x20, 0x73,
     0x65, 0x72, 0x76, 0x65, 0x72, 0x20, 0x73, 0x69, 0x64, 0x65,
     0x2c, 0x20, 0x69, 0x74, 0x20, 0x69, 0x73, 0x20, 0x74, 0x68,
     0x65, 0x20, 0x72, 0x65, 0x63, 0x65, 0x69, 0x76, 0x65, 0x20,
     0x6b, 0x65, 0x79, 0x2e]"

definition magic3 :: bytes where
  "magic3 = [
     0x4f, 0x6e, 0x20, 0x74, 0x68, 0x65, 0x20, 0x63, 0x6c, 0x69,
     0x65, 0x6e, 0x74, 0x20, 0x73, 0x69, 0x64, 0x65, 0x2c, 0x20,
     0x74, 0x68, 0x69, 0x73, 0x20, 0x69, 0x73, 0x20, 0x74, 0x68,
     0x65, 0x20, 0x72, 0x65, 0x63, 0x65, 0x69, 0x76, 0x65, 0x20,
     0x6b, 0x65, 0x79, 0x3b, 0x20, 0x6f, 0x6e, 0x20, 0x74, 0x68,
     0x65, 0x20, 0x73, 0x65, 0x72, 0x76, 0x65, 0x72, 0x20, 0x73,
     0x69, 0x64, 0x65, 0x2c, 0x20, 0x69, 0x74, 0x20, 0x69, 0x73,
     0x20, 0x74, 0x68, 0x65, 0x20, 0x73, 0x65, 0x6e, 0x64, 0x20,
     0x6b, 0x65, 0x79, 0x2e]"

section \<open>Operations\<close>

text \<open>
  An output buffer that was not written is \<open>None\<close> inside the pair: the \<^verbatim>\<open>retval\<close> is then
  \<open>SSTP_FAIL\<close>. The password becomes UCS-2 by a zero after each character.
\<close>

definition sstp_chap_hash_pass :: "('k, 'z) openssl_scheme \<Rightarrow> bytes \<Rightarrow> int \<times> bytes option" where
  "sstp_chap_hash_pass ssl pass =
     (if length pass > 255 then (-1, None)
      else
        let buf = concat (map (\<lambda>c. [c, 0]) pass) in
        if have_md4 ssl then (0, Some (take 16 (MD4 ssl (MD4 ssl buf)))) else (-1, None))"

definition sstp_chap_hash_master ::
    "('k, 'z) openssl_scheme \<Rightarrow> bytes \<Rightarrow> bytes \<Rightarrow> nat \<Rightarrow> int \<times> bytes option" where
  "sstp_chap_hash_master ssl phash nt_resp mlen =
     (if have_sha1 ssl
      then (0, Some (take mlen (SHA1 ssl (take 16 phash @ take 24 nt_resp @ magic1))))
      else (-1, None))"

definition session_magic :: "u8 \<Rightarrow> bytes" where
  "session_magic flag =
     (if SSTP_CHAP_SENDING AND flag \<noteq> 0
      then (if SSTP_CHAP_SERVER AND flag \<noteq> 0 then magic3 else magic2)
      else (if SSTP_CHAP_SERVER AND flag \<noteq> 0 then magic2 else magic3))"

definition sstp_chap_hash_session ::
    "('k, 'z) openssl_scheme \<Rightarrow> bytes \<Rightarrow> u8 \<Rightarrow> int \<times> bytes option" where
  "sstp_chap_hash_session ssl master flag =
     (if have_sha1 ssl
      then (0, Some (take 16 (SHA1 ssl
              (take 16 master @ replicate 40 0 @ session_magic flag @ replicate 40 0xf2))))
      else (-1, None))"

text \<open>The return value, the send key and the receive key.\<close>

definition sstp_chap_mppe_get ::
    "('k, 'z) openssl_scheme \<Rightarrow> 'c sstp_chap_scheme \<Rightarrow> bytes \<Rightarrow> bool \<Rightarrow>
     int \<times> bytes option \<times> bytes option" where
  "sstp_chap_mppe_get ssl ctx password server =
     (let flag = (if server then 0 OR SSTP_CHAP_SENDING else 0) in
      case sstp_chap_hash_pass ssl password of
        (ret, None) \<Rightarrow> (ret, None, None)
      | (ret, Some phash) \<Rightarrow>
        (case sstp_chap_hash_master ssl phash (nt_response ctx) 16 of
           (ret, None) \<Rightarrow> (ret, None, None)
         | (ret, Some master) \<Rightarrow>
           (case sstp_chap_hash_session ssl master flag of
              (ret, None) \<Rightarrow> (ret, None, None)
            | (ret, Some rkey) \<Rightarrow>
              (case sstp_chap_hash_session ssl master (flag OR SSTP_CHAP_SENDING) of
                 (ret, None) \<Rightarrow> (ret, None, Some rkey)
               | (ret, Some skey) \<Rightarrow> (0, Some skey, Some rkey)))))"

lemmas chap_defs [unfold_ops] =
  sstp_chap_hash_pass_def sstp_chap_hash_master_def sstp_chap_hash_session_def
  sstp_chap_mppe_get_def session_magic_def SSTP_CHAP_SENDING_def SSTP_CHAP_SERVER_def

section \<open>Specification\<close>

text \<open>The key derivation of RFC 3079, over the texts of section 3.4.\<close>

definition ascii :: "string \<Rightarrow> bytes" where
  "ascii s = map (\<lambda>c. of_nat (of_char c)) s"

definition client_send_text :: string where
  "client_send_text =
     ''On the client side, this is the send key; on the server side, it is the receive key.''"

definition client_recv_text :: string where
  "client_recv_text =
     ''On the client side, this is the receive key; on the server side, it is the send key.''"

definition GetMasterKey :: "('k, 'z) openssl_scheme \<Rightarrow> bytes \<Rightarrow> bytes \<Rightarrow> bytes" where
  "GetMasterKey ssl phh ntr = take 16 (SHA1 ssl (phh @ ntr @ ascii ''This is the MPPE Master Key''))"

text \<open>\<open>GetAsymmetricStartKey\<close> of the RFC, for a 128-bit session key.\<close>

definition GetAsymmetricStartKey ::
    "('k, 'z) openssl_scheme \<Rightarrow> bytes \<Rightarrow> bool \<Rightarrow> bool \<Rightarrow> bytes" where
  "GetAsymmetricStartKey ssl master is_send is_server =
     take 16 (SHA1 ssl (master @ replicate 40 0
       @ ascii (if is_send = is_server then client_recv_text else client_send_text)
       @ replicate 40 0xf2))"

lemma magic1_text: "magic1 = ascii ''This is the MPPE Master Key''"
  by (simp add: magic1_def ascii_def)

lemma magic2_text: "magic2 = ascii client_send_text"
  by (simp add: magic2_def ascii_def client_send_text_def)

lemma magic3_text: "magic3 = ascii client_recv_text"
  by (simp add: magic3_def ascii_def client_recv_text_def)

lemma magic_differ: "magic2 \<noteq> magic3"
  by (simp add: magic2_def magic3_def)

text \<open>The keys of a password that is not too long.\<close>

lemma mppe_get_keys:
  assumes "digest_lengths ssl" "have_md4 ssl" "have_sha1 ssl" "length (nt_response c) = 24" "length pw \<le> 255"
  shows "sstp_chap_mppe_get ssl c pw False =
    (let m = GetMasterKey ssl (MD4 ssl (MD4 ssl (concat (map (\<lambda>c. [c, 0]) pw)))) (nt_response c)
     in (0, Some (GetAsymmetricStartKey ssl m True False), Some (GetAsymmetricStartKey ssl m False False)))"
  using assms
  by (simp add: chap_defs GetMasterKey_def GetAsymmetricStartKey_def Let_def
      magic1_text [symmetric] magic2_text [symmetric] magic3_text [symmetric] digest_lengthsD [OF assms(1)])

section \<open>Properties\<close>

text \<open>Client key derivation follows RFC 3079: with the digests available, a password of at
  most 255 bytes and a 24-byte NT response, the send and receive keys are the client's
  asymmetric start keys of the master key of the double MD4 hash of the password in UCS-2;
  a longer password is refused and leaves both keys unset.\<close>

theorem sstp_chap_mppe_get_client:
  assumes "digest_lengths ssl" "have_md4 ssl" "have_sha1 ssl" "length (nt_response ctx) = 24"
  shows "sstp_chap_mppe_get ssl ctx password False =
    (if length password \<le> 255
     then let master = GetMasterKey ssl (MD4 ssl (MD4 ssl (concat (map (\<lambda>c. [c, 0]) password))))
                (nt_response ctx)
          in (0, Some (GetAsymmetricStartKey ssl master True False),
                 Some (GetAsymmetricStartKey ssl master False False))
     else (-1, None, None))"
  using assms
  by (simp add: chap_defs GetMasterKey_def GetAsymmetricStartKey_def Let_def
      magic1_text [symmetric] magic2_text [symmetric] magic3_text [symmetric]
      digest_lengthsD [OF assms(1)])

lemma sstp_chap_mppe_get_client_witness:
  "fst (sstp_chap_mppe_get demo_ssl \<lparr>challenge = [], response = [], nt_response = replicate 24 7,
      chap_flags = 0\<rparr> [0x70, 0x77] False) = 0"
  using sstp_chap_mppe_get_client [OF demo_digest_lengths, of
      "\<lparr>challenge = [], response = [], nt_response = replicate 24 7, chap_flags = 0\<rparr>" "[0x70, 0x77]"]
  by (simp add: demo_ssl_def Let_def)

text \<open>In server mode the derivation is not the mirror image of the client's: both of the
  server's keys are the client's send key, so what the server would send is encrypted with a
  key that the client does not use for receiving (unless the two client keys coincide).\<close>

theorem sstp_chap_mppe_get_server:
  assumes "sstp_chap_mppe_get ssl ctx password False = (0, Some skey, Some rkey)"
  shows "sstp_chap_mppe_get ssl ctx password True = (0, Some skey, Some skey)"
  using assms
  by (auto simp: chap_defs Let_def split: if_splits)

lemma sstp_chap_mppe_get_server_witness:
  "\<exists>k. sstp_chap_mppe_get demo_ssl \<lparr>challenge = [], response = [], nt_response = replicate 24 7,
      chap_flags = 0\<rparr> [0x70, 0x77] True = (0, Some k, Some k)"
  using sstp_chap_mppe_get_server [of demo_ssl
      "\<lparr>challenge = [], response = [], nt_response = replicate 24 7, chap_flags = 0\<rparr>" "[0x70, 0x77]"]
  by (simp add: chap_defs demo_ssl_def Let_def)

end
