(* ===== verification/Mschapv2.thy ===== *)
theory Mschapv2
  imports Openssl
begin

text \<open>
  MS-CHAPv2 responses and MPPE key changes, \<^verbatim>\<open>sstp/sstp-mschapv2.c\<close> (RFC 2759 and RFC 3079).
  Strings are the bytes before the terminating zero; the fixed-size array parameters are read
  with \<open>take\<close>.
\<close>

section \<open>Operations\<close>

definition unicode_password :: "bytes \<Rightarrow> bytes" where
  "unicode_password pass = concat (map (\<lambda>c. [c, 0]) (take 256 pass))"

definition sstp_mschapv2_nt_password_hash :: "('k, 'z) openssl_scheme \<Rightarrow> bytes \<Rightarrow> bytes" where
  "sstp_mschapv2_nt_password_hash ssl password = MD4 ssl (unicode_password password)"

text \<open>The seven bytes of key material spread over eight, before the parity bits are set.\<close>

definition spread_key :: "bytes \<Rightarrow> bytes" where
  "spread_key k = [
     k ! 0,
     push_bit 7 (k ! 0) OR drop_bit 1 (k ! 1),
     push_bit 6 (k ! 1) OR drop_bit 2 (k ! 2),
     push_bit 5 (k ! 2) OR drop_bit 3 (k ! 3),
     push_bit 4 (k ! 3) OR drop_bit 4 (k ! 4),
     push_bit 3 (k ! 4) OR drop_bit 5 (k ! 5),
     push_bit 2 (k ! 5) OR drop_bit 6 (k ! 6),
     push_bit 1 (k ! 6)]"

definition setup_des_key :: "('k, 'z) openssl_scheme \<Rightarrow> bytes \<Rightarrow> bytes" where
  "setup_des_key ssl key7 = DES_set_odd_parity ssl (spread_key key7)"

definition challenge_response :: "('k, 'z) openssl_scheme \<Rightarrow> bytes \<Rightarrow> bytes \<Rightarrow> bytes" where
  "challenge_response ssl challenge password_hash =
     (let zhash = take 16 password_hash @ replicate 5 0 in
      DES_ecb_encrypt ssl (setup_des_key ssl (take 7 zhash)) challenge
      @ DES_ecb_encrypt ssl (setup_des_key ssl (take 7 (drop 7 zhash))) challenge
      @ DES_ecb_encrypt ssl (setup_des_key ssl (take 7 (drop 14 zhash))) challenge)"

text \<open>\<^verbatim>\<open>strrchr (username, '\\')\<close>, and the rest of the string after it.\<close>

definition BACKSLASH :: u8 where "BACKSLASH = 0x5c"

definition strip_domain :: "bytes \<Rightarrow> bytes" where
  "strip_domain username = rev (takeWhile (\<lambda>c. c \<noteq> BACKSLASH) (rev username))"

definition sstp_mschapv2_challenge_hash ::
    "('k, 'z) openssl_scheme \<Rightarrow> bytes \<Rightarrow> bytes \<Rightarrow> bytes \<Rightarrow> bytes" where
  "sstp_mschapv2_challenge_hash ssl peer_challenge auth_challenge username =
     take 8 (SHA1 ssl (take 16 peer_challenge @ take 16 auth_challenge @ strip_domain username))"

definition sstp_mschapv2_generate_nt_response ::
    "('k, 'z) openssl_scheme \<Rightarrow> bytes \<Rightarrow> bytes \<Rightarrow> bytes \<Rightarrow> bytes \<Rightarrow> bytes" where
  "sstp_mschapv2_generate_nt_response ssl auth_challenge peer_challenge username password =
     (let challenge = sstp_mschapv2_challenge_hash ssl peer_challenge auth_challenge username;
          phash = sstp_mschapv2_nt_password_hash ssl password
      in challenge_response ssl challenge phash)"

definition sstp_mppe_get_new_key_from_sha ::
    "('k, 'z) openssl_scheme \<Rightarrow> bytes \<Rightarrow> bytes \<Rightarrow> bytes" where
  "sstp_mppe_get_new_key_from_sha ssl master session =
     take 16 (SHA1 ssl (take 16 master @ replicate 40 0 @ take 16 session @ replicate 40 0xf2))"

section \<open>Specification\<close>

text \<open>The bits of a byte, most significant first, and the seven that carry a DES key.\<close>

definition bits_of :: "u8 \<Rightarrow> bool list" where
  "bits_of b = map (bit b) [7, 6, 5, 4, 3, 2, 1, 0]"

definition key_bits :: "u8 \<Rightarrow> bool list" where
  "key_bits b = map (bit b) [7, 6, 5, 4, 3, 2, 1]"

lemma no_high_bit: "8 \<le> n \<Longrightarrow> \<not> bit (x :: u8) n"
  using bit_imp_le_length [of x n] by auto

lemma bit_double: "bit (x * 2 :: u8) n \<longleftrightarrow> 0 < n \<and> n < 8 \<and> bit x (n - 1)"
  using bit_double_iff [of x n] by (auto simp: mult.commute)

lemma spread_key_bits:
  assumes "length k = 7"
  shows "concat (map key_bits (spread_key k)) = concat (map bits_of k)"
proof -
  obtain a b c d e f g where k: "k = [a, b, c, d, e, f, g]"
    using assms by (auto simp: numeral_eq_Suc length_Suc_conv)
  show ?thesis
    by (simp add: k spread_key_def key_bits_def bits_of_def bit_simps no_high_bit
        bit_double) (simp add: numeral_2_eq_2 numeral_3_eq_3)
qed

lemma three_keys_bits:
  assumes "length z = 21"
  shows "concat (map key_bits (spread_key (take 7 z) @ spread_key (take 7 (drop 7 z))
      @ spread_key (take 7 (drop 14 z)))) = concat (map bits_of z)"
proof -
  have "z = take 7 z @ take 7 (drop 7 z) @ take 7 (drop 14 z)"
    using take_drop_split [of z 7 7] assms by simp
  then have "concat (map bits_of z) = concat (map bits_of (take 7 z))
      @ concat (map bits_of (take 7 (drop 7 z))) @ concat (map bits_of (take 7 (drop 14 z)))"
    by (metis concat_append map_append)
  then show ?thesis using assms by (simp add: spread_key_bits)
qed

lemma length_challenge_response:
  "digest_lengths ssl \<Longrightarrow> length (challenge_response ssl c h) = 24"
  by (simp add: challenge_response_def Let_def digest_lengthsD)

lemma length_nt_response:
  "digest_lengths ssl \<Longrightarrow> length (sstp_mschapv2_generate_nt_response ssl ac pc u p) = 24"
  by (simp add: sstp_mschapv2_generate_nt_response_def Let_def length_challenge_response)

lemma strip_domain_plain: "BACKSLASH \<notin> set user \<Longrightarrow> strip_domain user = user"
proof -
  assume "BACKSLASH \<notin> set user"
  then have "takeWhile (\<lambda>c. c \<noteq> BACKSLASH) (rev user) = rev user"
    by (auto simp: takeWhile_eq_all_conv)
  then show ?thesis by (simp only: strip_domain_def rev_rev_ident rev_append rev.simps append_assoc append.simps)
qed

lemma strip_domain_domain: "BACKSLASH \<notin> set user \<Longrightarrow> strip_domain (dmn @ BACKSLASH # user) = user"
proof -
  assume "BACKSLASH \<notin> set user"
  then have "takeWhile (\<lambda>c. c \<noteq> BACKSLASH) (rev user @ BACKSLASH # rev dmn) = rev user"
    by (subst takeWhile_append2) auto
  then show ?thesis by (simp only: strip_domain_def rev_rev_ident rev_append rev.simps append_assoc append.simps)
qed

section \<open>Properties\<close>

text \<open>C37. The NT response is that of RFC 2759: three DES encryptions of the 8-byte challenge
  hash under keys whose 56 effective bits are, in order, the bits of the password hash padded
  with zeros to 21 bytes; a domain prefix of the user name does not change it.\<close>

theorem nt_response_keys:
  assumes "digest_lengths ssl" "BACKSLASH \<notin> set user"
  shows "\<exists>k1 k2 k3.
    sstp_mschapv2_generate_nt_response ssl ac pc (dmn @ BACKSLASH # user) password =
      concat (map (\<lambda>k. DES_ecb_encrypt ssl (DES_set_odd_parity ssl k)
        (take 8 (SHA1 ssl (take 16 pc @ take 16 ac @ user)))) [k1, k2, k3])
    \<and> concat (map key_bits (k1 @ k2 @ k3))
      = concat (map bits_of (MD4 ssl (unicode_password password) @ replicate 5 0))
    \<and> sstp_mschapv2_generate_nt_response ssl ac pc user password
      = sstp_mschapv2_generate_nt_response ssl ac pc (dmn @ BACKSLASH # user) password"
proof -
  define z where "z = MD4 ssl (unicode_password password) @ replicate 5 (0 :: u8)"
  have l: "length z = 21" using digest_lengthsD(1) [OF assms(1)] by (simp add: z_def)
  have l7: "take 7 (drop 14 z) = drop 14 z" using l by simp
  have "take 16 (MD4 ssl m) = MD4 ssl m" for m
    using digest_lengthsD(1) [OF assms(1)] by simp
  then have "sstp_mschapv2_generate_nt_response ssl ac pc u password =
      (let c = take 8 (SHA1 ssl (take 16 pc @ take 16 ac @ strip_domain u)) in
       concat (map (\<lambda>k. DES_ecb_encrypt ssl (DES_set_odd_parity ssl k) c)
         [spread_key (take 7 z), spread_key (take 7 (drop 7 z)), spread_key (take 7 (drop 14 z))]))" for u
    by (simp add: sstp_mschapv2_generate_nt_response_def sstp_mschapv2_challenge_hash_def
        sstp_mschapv2_nt_password_hash_def challenge_response_def setup_des_key_def Let_def
        z_def [symmetric] l7 del: take_append drop_append)
  then show ?thesis
    using three_keys_bits [OF l] strip_domain_plain [OF assms(2)] strip_domain_domain [OF assms(2)]
    unfolding z_def [symmetric] Let_def by metis
qed

lemma nt_response_keys_witness:
  "sstp_mschapv2_generate_nt_response demo_ssl (replicate 16 1) (replicate 16 2) [0x75] [0x70]
    = sstp_mschapv2_generate_nt_response demo_ssl (replicate 16 1) (replicate 16 2)
        [0x44, 0x5c, 0x75] [0x70]"
  using nt_response_keys [OF demo_digest_lengths, of "[0x75]" "replicate 16 1" "replicate 16 2" "[0x44]" "[0x70]"]
  by (auto simp: BACKSLASH_def)

end
