(* ===== verification/Ppp.thy ===== *)
theory Ppp
  imports Packet Chap Mschapv2
begin

text \<open>
  The in-process PPP engine of the iOS client, \<^verbatim>\<open>sstp/ios-pppd.c\<close>: LCP, MS-CHAPv2, CCP and
  IPCP negotiation, stateless 128-bit MPPE, and the send queue in front of the SSTP stream.

  A context is a record; the outputs of an operation (packets handed to
  \<open>sstp_stream_send\<close>, calls of the notify callback, IP packets given to the IP handler) are
  appended to its field \<open>trace\<close> in the order in which the code makes them. What the
  environment decides (the result of the next \<open>sstp_stream_send\<close>, whether memory is found,
  random bytes) is a function of a counter that the context carries. The client's notify
  callback changes the context on \<open>SSTP_PPP_AUTH\<close> only, by \<open>sstp_pppd_set_mppe_keys\<close>, and
  that notification is the last action of its handler, so the callback is an event of its own
  that follows.
\<close>

section \<open>Constants\<close>

abbreviation (input) PPP_PROTO_LCP :: u16 where "PPP_PROTO_LCP \<equiv> 0xc021"
abbreviation (input) PPP_PROTO_CHAP :: u16 where "PPP_PROTO_CHAP \<equiv> 0xc223"
abbreviation (input) PPP_PROTO_IPCP :: u16 where "PPP_PROTO_IPCP \<equiv> 0x8021"
abbreviation (input) PPP_PROTO_CCP :: u16 where "PPP_PROTO_CCP \<equiv> 0x80fd"
abbreviation (input) PPP_PROTO_MPPE :: u16 where "PPP_PROTO_MPPE \<equiv> 0x003d"
abbreviation (input) PPP_PROTO_IP :: u16 where "PPP_PROTO_IP \<equiv> 0x0021"
abbreviation (input) PPP_MRU :: int where "PPP_MRU \<equiv> 1400"

abbreviation (input) FSM_CONFREQ :: u8 where "FSM_CONFREQ \<equiv> 1"
abbreviation (input) FSM_CONFACK :: u8 where "FSM_CONFACK \<equiv> 2"
abbreviation (input) FSM_CONFNAK :: u8 where "FSM_CONFNAK \<equiv> 3"
abbreviation (input) FSM_CONFREJ :: u8 where "FSM_CONFREJ \<equiv> 4"
abbreviation (input) FSM_TERMREQ :: u8 where "FSM_TERMREQ \<equiv> 5"
abbreviation (input) FSM_TERMACK :: u8 where "FSM_TERMACK \<equiv> 6"
abbreviation (input) FSM_ECHOREQ :: u8 where "FSM_ECHOREQ \<equiv> 9"
abbreviation (input) FSM_ECHOREP :: u8 where "FSM_ECHOREP \<equiv> 10"
abbreviation (input) CI_MRU :: u8 where "CI_MRU \<equiv> 1"
abbreviation (input) CI_MAGIC :: u8 where "CI_MAGIC \<equiv> 5"
abbreviation (input) CI_ADDR :: u8 where "CI_ADDR \<equiv> 3"
abbreviation (input) CI_MS_DNS1 :: u8 where "CI_MS_DNS1 \<equiv> 129"
abbreviation (input) CI_MS_DNS2 :: u8 where "CI_MS_DNS2 \<equiv> 131"
abbreviation (input) CI_MPPC :: u8 where "CI_MPPC \<equiv> 18"
abbreviation (input) CHAP_CHALLENGE :: u8 where "CHAP_CHALLENGE \<equiv> 1"
abbreviation (input) CHAP_RESPONSE :: u8 where "CHAP_RESPONSE \<equiv> 2"
abbreviation (input) CHAP_SUCCESS :: u8 where "CHAP_SUCCESS \<equiv> 3"
abbreviation (input) CHAP_FAILURE :: u8 where "CHAP_FAILURE \<equiv> 4"
abbreviation (input) MSCHAP_VALUE_LEN :: u8 where "MSCHAP_VALUE_LEN \<equiv> 49"

section \<open>Data\<close>

datatype ppp_event =
    SSTP_PPP_DOWN
  | SSTP_PPP_UP
  | SSTP_PPP_AUTH
  | SSTP_PPP_START
  | SSTP_PPP_AUTH_FAIL

primrec ppp_event_code :: "ppp_event \<Rightarrow> int" where
  "ppp_event_code SSTP_PPP_DOWN = 1"
| "ppp_event_code SSTP_PPP_UP = 2"
| "ppp_event_code SSTP_PPP_AUTH = 3"
| "ppp_event_code SSTP_PPP_START = 4"
| "ppp_event_code SSTP_PPP_AUTH_FAIL = 5"

datatype ppp_action =
    StreamSend bytes
  | Notify ppp_event
  | DeliverIp bytes

text \<open>The environment: results of calls, by the number of the call.\<close>

record 'k ppp_env =
  crypto :: "'k openssl"
  stream_ret :: "nat \<Rightarrow> status_t"
  item_ok :: "nat \<Rightarrow> bool"
  buff_ok :: "nat \<Rightarrow> bool"
  rand16 :: "nat \<Rightarrow> bytes"

text \<open>\<open>tx_queue\<close> is the linked list from \<open>tx_head\<close> to \<open>tx_tail\<close>.\<close>

record 'k sstp_pppd =
  stream_set :: bool
  notify_set :: bool
  ip_handler_set :: bool
  chap :: sstp_chap
  username :: bytes
  password :: bytes
  lcp_id :: u8
  chap_id :: u8
  ipcp_id :: u8
  ccp_id :: u8
  magic :: u32
  lcp_opened :: bool
  auth_done :: bool
  ip_configured :: bool
  ccp_done :: bool
  mppe_enabled :: bool
  mppe_keys_set :: bool
  started :: bool
  up_notified :: bool
  tx_busy :: bool
  local_ip :: u32
  peer_ip :: u32
  dns1 :: u32
  dns2 :: u32
  mppe_master_send :: bytes
  mppe_master_recv :: bytes
  mppe_session_send :: bytes
  mppe_session_recv :: bytes
  rc4_send :: 'k
  rc4_recv :: 'k
  mppe_send_ccount :: u16
  mppe_recv_ccount :: u16
  tx_queue :: "bytes list"
  tx_inflight :: "bytes option"
  sent_bytes :: "64 word"
  recv_bytes :: "64 word"
  t_start :: nat
  t_end :: nat
  trace :: "ppp_action list"
  n_sends :: nat
  n_items :: nat
  n_rand :: nat

definition act :: "ppp_action \<Rightarrow> ('k, 'z) sstp_pppd_scheme \<Rightarrow> ('k, 'z) sstp_pppd_scheme" where
  "act a ctx = ctx\<lparr>trace := trace ctx @ [a]\<rparr>"

definition notify :: "ppp_event \<Rightarrow> ('k, 'z) sstp_pppd_scheme \<Rightarrow> ('k, 'z) sstp_pppd_scheme" where
  "notify ev ctx = (if notify_set ctx then act (Notify ev) ctx else ctx)"

section \<open>MPPE\<close>

text \<open>The new session key and the new RC4 key state.\<close>

definition mppe_rekey :: "('k, 'z) openssl_scheme \<Rightarrow> bytes \<Rightarrow> bytes \<Rightarrow> bool \<Rightarrow> bytes \<times> 'k" where
  "mppe_rekey ssl master session initial =
     (let digest = sstp_mppe_get_new_key_from_sha ssl master session;
          session = (if \<not> initial then fst (RC4 ssl (RC4_set_key ssl digest) digest) else digest)
      in (session, RC4_set_key ssl session))"

definition mppe_init_keys ::
    "('k, 'e) ppp_env_scheme \<Rightarrow> ('k, 'z) sstp_pppd_scheme \<Rightarrow> ('k, 'z) sstp_pppd_scheme" where
  "mppe_init_keys env ctx =
     (if \<not> mppe_keys_set ctx then ctx
      else
        let (ss, ks) = mppe_rekey (crypto env) (mppe_master_send ctx) (mppe_master_send ctx) True;
            (sr, kr) = mppe_rekey (crypto env) (mppe_master_recv ctx) (mppe_master_recv ctx) True
        in ctx\<lparr>mppe_session_send := ss, rc4_send := ks, mppe_session_recv := sr, rc4_recv := kr,
               mppe_send_ccount := 0x0fff, mppe_recv_ccount := 0x0fff, mppe_enabled := True\<rparr>)"

section \<open>Options\<close>

definition put_opt :: "u8 \<Rightarrow> bytes \<Rightarrow> bytes" where
  "put_opt ty val = [ty, of_nat (2 + length val)] @ val"

section \<open>The send queue\<close>

text \<open>\<open>sstp_stream_send\<close> as the context sees it.\<close>

definition stream_send ::
    "('k, 'e) ppp_env_scheme \<Rightarrow> bytes \<Rightarrow> ('k, 'z) sstp_pppd_scheme \<Rightarrow>
     status_t \<times> ('k, 'z) sstp_pppd_scheme" where
  "stream_send env pkt ctx =
     (stream_ret env (n_sends ctx), act (StreamSend pkt) (ctx\<lparr>n_sends := n_sends ctx + 1\<rparr>))"

function ppp_flush_start ::
    "('k, 'e) ppp_env_scheme \<Rightarrow> ('k, 'z) sstp_pppd_scheme \<Rightarrow> ('k, 'z) sstp_pppd_scheme" where
  "ppp_flush_start env ctx =
     (if tx_busy ctx \<or> tx_queue ctx = [] \<or> \<not> stream_set ctx then ctx
      else
        let item = hd (tx_queue ctx);
            (ret, ctx) = stream_send env item
              (ctx\<lparr>tx_queue := tl (tx_queue ctx), tx_inflight := Some item, tx_busy := True\<rparr>)
        in if ret = SSTP_OKAY then
             ppp_flush_start env (ctx\<lparr>tx_inflight := None, tx_busy := False\<rparr>)
           else if ret \<noteq> SSTP_INPROG then ctx\<lparr>tx_inflight := None, tx_busy := False\<rparr>
           else ctx)"
  by pat_completeness auto
termination
  by (relation "measure (\<lambda>(env, ctx). length (tx_queue ctx))")
    (auto simp: stream_send_def act_def)

declare ppp_flush_start.simps [simp del]

definition ppp_send_complete ::
    "('k, 'e) ppp_env_scheme \<Rightarrow> ('k, 'z) sstp_pppd_scheme \<Rightarrow> ('k, 'z) sstp_pppd_scheme" where
  "ppp_send_complete env ctx = ppp_flush_start env (ctx\<lparr>tx_inflight := None, tx_busy := False\<rparr>)"

text \<open>
  The item's buffer is built by the operations of \<open>Packet\<close>; the queue keeps the bytes it holds.
\<close>

definition data_packet :: "bool \<Rightarrow> bytes \<Rightarrow> (status_t \<times> bytes) option" where
  "data_packet ok frame =
     (case sstp_buff_create ok (int (length frame) + 64) of
        (_, None) \<Rightarrow> Some (SSTP_FAIL, [])
      | (_, Some buf) \<Rightarrow> do {
          (ret, buf) \<leftarrow> sstp_pkt_init buf SSTP_MSG_DATA;
          if ret \<noteq> SSTP_OKAY then Some (SSTP_FAIL, [])
          else do {
            d \<leftarrow> wr_n (b_data buf) (b_len buf) frame;
            let buf = buf\<lparr>b_data := d, b_len := b_len buf + int (length frame)\<rparr>;
            buf \<leftarrow> sstp_pkt_update buf;
            Some (SSTP_OKAY, content buf) } })"

definition ppp_enqueue_raw ::
    "('k, 'e) ppp_env_scheme \<Rightarrow> bytes \<Rightarrow> ('k, 'z) sstp_pppd_scheme \<Rightarrow>
     (status_t \<times> ('k, 'z) sstp_pppd_scheme) option" where
  "ppp_enqueue_raw env frame ctx =
     (if length frame = 0 then Some (SSTP_FAIL, ctx)
      else
        let n = n_items ctx; ctx = ctx\<lparr>n_items := n + 1\<rparr> in
        if \<not> item_ok env n then Some (SSTP_FAIL, ctx)
        else do {
          (ret, pkt) \<leftarrow> data_packet (buff_ok env n) frame;
          if ret \<noteq> SSTP_OKAY then Some (SSTP_FAIL, ctx)
          else
            let ctx = ctx\<lparr>tx_queue := tx_queue ctx @ [pkt],
                          sent_bytes := sent_bytes ctx + of_nat (length frame)\<rparr>
            in Some (SSTP_OKAY, ppp_flush_start env ctx) })"

definition ppp_send_frame ::
    "('k, 'e) ppp_env_scheme \<Rightarrow> u16 \<Rightarrow> bytes \<Rightarrow> ('k, 'z) sstp_pppd_scheme \<Rightarrow>
     (status_t \<times> ('k, 'z) sstp_pppd_scheme) option" where
  "ppp_send_frame env proto payload ctx =
     (if PPP_MRU < int (length payload) then Some (SSTP_FAIL, ctx)
      else ppp_enqueue_raw env ([0xFF, 0x03] @ be16 proto @ payload) ctx)"

text \<open>The calls that ignore the status.\<close>

definition send_frame ::
    "('k, 'e) ppp_env_scheme \<Rightarrow> u16 \<Rightarrow> bytes \<Rightarrow> ('k, 'z) sstp_pppd_scheme \<Rightarrow>
     ('k, 'z) sstp_pppd_scheme option" where
  "send_frame env proto payload ctx = map_option snd (ppp_send_frame env proto payload ctx)"

definition ppp_send_ip_plain_or_mppe ::
    "('k, 'e) ppp_env_scheme \<Rightarrow> bytes \<Rightarrow> ('k, 'z) sstp_pppd_scheme \<Rightarrow>
     (status_t \<times> ('k, 'z) sstp_pppd_scheme) option" where
  "ppp_send_ip_plain_or_mppe env ip ctx =
     (if length ip = 0 \<or> PPP_MRU - 4 < int (length ip) then Some (SSTP_FAIL, ctx)
      else if \<not> mppe_enabled ctx then ppp_send_frame env PPP_PROTO_IP ip ctx
      else
        let plain = be16 PPP_PROTO_IP @ ip;
            cc = (mppe_send_ccount ctx + 1) AND 0x0fff;
            (session, key) = mppe_rekey (crypto env) (mppe_master_send ctx) (mppe_session_send ctx) False;
            (cipher, key) = RC4 (crypto env) key plain;
            ctx = ctx\<lparr>mppe_send_ccount := cc, mppe_session_send := session, rc4_send := key\<rparr>
        in ppp_send_frame env PPP_PROTO_MPPE
             ([0x90 OR ucast (drop_bit 8 cc AND 0x0f), ucast (cc AND 0xff)] @ cipher) ctx)"

section \<open>Negotiation\<close>

definition maybe_notify_up :: "('k, 'z) sstp_pppd_scheme \<Rightarrow> ('k, 'z) sstp_pppd_scheme" where
  "maybe_notify_up ctx =
     (if up_notified ctx then ctx
      else if \<not> ip_configured ctx \<or> local_ip ctx = 0 then ctx
      else if \<not> ccp_done ctx then ctx
      else notify SSTP_PPP_UP (ctx\<lparr>up_notified := True\<rparr>))"

definition confreq :: "u8 \<Rightarrow> bytes \<Rightarrow> bytes" where
  "confreq ident opts = [FSM_CONFREQ, ident] @ be16 (of_nat (4 + length opts)) @ opts"

definition send_lcp_confreq ::
    "('k, 'e) ppp_env_scheme \<Rightarrow> ('k, 'z) sstp_pppd_scheme \<Rightarrow> ('k, 'z) sstp_pppd_scheme option" where
  "send_lcp_confreq env ctx =
     (let ctx = ctx\<lparr>lcp_id := lcp_id ctx + 1\<rparr> in
      send_frame env PPP_PROTO_LCP
        (confreq (lcp_id ctx)
           (put_opt CI_MRU (be16 (word_of_int PPP_MRU)) @ put_opt CI_MAGIC (be32 (magic ctx)))) ctx)"

definition send_ipcp_confreq ::
    "('k, 'e) ppp_env_scheme \<Rightarrow> ('k, 'z) sstp_pppd_scheme \<Rightarrow> ('k, 'z) sstp_pppd_scheme option" where
  "send_ipcp_confreq env ctx =
     (let ctx = ctx\<lparr>ipcp_id := ipcp_id ctx + 1\<rparr> in
      send_frame env PPP_PROTO_IPCP
        (confreq (ipcp_id ctx)
           (put_opt CI_ADDR (be32 (local_ip ctx)) @ put_opt CI_MS_DNS1 (be32 (dns1 ctx))
            @ put_opt CI_MS_DNS2 (be32 (dns2 ctx)))) ctx)"

definition send_ccp_confreq ::
    "('k, 'e) ppp_env_scheme \<Rightarrow> ('k, 'z) sstp_pppd_scheme \<Rightarrow> ('k, 'z) sstp_pppd_scheme option" where
  "send_ccp_confreq env ctx =
     (let ctx = ctx\<lparr>ccp_id := ccp_id ctx + 1\<rparr> in
      send_frame env PPP_PROTO_CCP
        (confreq (ccp_id ctx) (put_opt CI_MPPC [0x01, 0x00, 0x00, 0x40])) ctx)"

definition ccp_finished ::
    "('k, 'e) ppp_env_scheme \<Rightarrow> ('k, 'z) sstp_pppd_scheme \<Rightarrow> ('k, 'z) sstp_pppd_scheme option" where
  "ccp_finished env ctx =
     (if ccp_done ctx then Some (maybe_notify_up ctx)
      else
        let ctx = ctx\<lparr>ccp_done := True\<rparr> in
        do {
          ctx \<leftarrow> (if auth_done ctx then send_ipcp_confreq env ctx else Some ctx);
          Some (maybe_notify_up ctx) })"

section \<open>Received frames\<close>

text \<open>\<^verbatim>\<open>plen = get_be16 (buf + 2); if (plen > len) plen = len\<close>.\<close>

definition header_plen :: "bytes \<Rightarrow> int option" where
  "header_plen buf = do {
     l \<leftarrow> rd16 buf 2;
     Some (if uint l > int (length buf) then uint (of_nat (length buf) :: u16) else uint l) }"

text \<open>The copy of a request of \<open>plen\<close> bytes with another code.\<close>

definition with_code :: "bytes \<Rightarrow> int \<Rightarrow> u8 \<Rightarrow> bytes option" where
  "with_code buf plen code = do { c \<leftarrow> rd_n buf 0 plen; Some (c[0 := code]) }"

definition handle_lcp ::
    "('k, 'e) ppp_env_scheme \<Rightarrow> bytes \<Rightarrow> ('k, 'z) sstp_pppd_scheme \<Rightarrow> ('k, 'z) sstp_pppd_scheme option" where
  "handle_lcp env buf ctx =
     (if length buf < 4 then Some ctx
      else do {
        code \<leftarrow> rd buf 0;
        ident \<leftarrow> rd buf 1;
        plen \<leftarrow> header_plen buf;
        if code = FSM_CONFREQ then
          (if plen > 256 then Some ctx
           else do {
             ack \<leftarrow> with_code buf plen FSM_CONFACK;
             ctx \<leftarrow> send_frame env PPP_PROTO_LCP ack ctx;
             if \<not> lcp_opened ctx then send_lcp_confreq env ctx else Some ctx })
        else if code = FSM_CONFACK then Some (ctx\<lparr>lcp_opened := True\<rparr>)
        else if code = FSM_CONFNAK \<or> code = FSM_CONFREJ then send_lcp_confreq env ctx
        else if code = FSM_TERMREQ then do {
          ctx \<leftarrow> send_frame env PPP_PROTO_LCP [FSM_TERMACK, ident, 0, 4] ctx;
          Some (notify SSTP_PPP_DOWN ctx) }
        else if code = FSM_ECHOREQ then
          (if plen > 64 then Some ctx
           else do {
             echo \<leftarrow> with_code buf plen FSM_ECHOREP;
             echo \<leftarrow> (if plen \<ge> 8 then wr_n echo 4 (be32 (magic ctx)) else Some echo);
             send_frame env PPP_PROTO_LCP echo ctx })
        else Some ctx })"

definition chap_response :: "u8 \<Rightarrow> bytes \<Rightarrow> bytes \<Rightarrow> bytes \<Rightarrow> bytes" where
  "chap_response ident peer_challenge ntr user =
     (let value = peer_challenge @ replicate 8 0 @ ntr @ [0];
          ulen = (if length user > 200 then 200 else length user);
          body = [MSCHAP_VALUE_LEN] @ value @ take ulen user
      in [CHAP_RESPONSE, ident] @ be16 (of_nat (4 + length body)) @ body)"

definition handle_chap ::
    "('k, 'e) ppp_env_scheme \<Rightarrow> bytes \<Rightarrow> ('k, 'z) sstp_pppd_scheme \<Rightarrow> ('k, 'z) sstp_pppd_scheme option" where
  "handle_chap env buf ctx =
     (if length buf < 5 then Some ctx
      else do {
        code \<leftarrow> rd buf 0;
        ident \<leftarrow> rd buf 1;
        vsize \<leftarrow> rd buf 4;
        if code \<noteq> CHAP_CHALLENGE then
          (if code = CHAP_SUCCESS then send_ccp_confreq env (ctx\<lparr>auth_done := True\<rparr>)
           else if code = CHAP_FAILURE then Some (notify SSTP_PPP_AUTH_FAIL ctx)
           else Some ctx)
        else if vsize < 16 \<or> length buf < 5 + unat vsize then Some ctx
        else do {
          auth_challenge \<leftarrow> rd_n buf 5 16;
          let peer_challenge = rand16 env (n_rand ctx);
          let ntr = sstp_mschapv2_generate_nt_response (crypto env) auth_challenge peer_challenge
                      (username ctx) (password ctx);
          let ctx = ctx\<lparr>chap_id := ident, n_rand := n_rand ctx + 1,
                chap := \<lparr>challenge = peer_challenge, response = replicate 8 0,
                         nt_response = ntr, chap_flags = 0\<rparr>\<rparr>;
          ctx \<leftarrow> send_frame env PPP_PROTO_CHAP
                   (chap_response ident peer_challenge ntr (username ctx)) ctx;
          Some (notify SSTP_PPP_AUTH ctx) } })"

text \<open>
  The loop over the options of a Configure packet: \<open>upd\<close> is what its body does with the option
  of type \<open>ty\<close> and length \<open>olen\<close> at \<open>pos\<close>.
\<close>

function opt_loop ::
    "(u8 \<Rightarrow> u8 \<Rightarrow> int \<Rightarrow> 'c \<Rightarrow> 'c option) \<Rightarrow> bytes \<Rightarrow> int \<Rightarrow> int \<Rightarrow> 'c \<Rightarrow> 'c option" where
  "opt_loop upd buf plen pos ctx =
     (if pos + 2 \<le> plen then do {
        ty \<leftarrow> rd buf pos;
        olen \<leftarrow> rd buf (pos + 1);
        if olen < 2 \<or> pos + uint olen > plen then Some ctx
        else do {
          ctx \<leftarrow> upd ty olen pos ctx;
          opt_loop upd buf plen (pos + uint olen) ctx } }
      else Some ctx)"
  by pat_completeness auto
termination
  by (relation "measure (\<lambda>(upd, buf, plen, pos, ctx). nat (plen - pos))")
    (auto simp: word_less_def)

declare opt_loop.simps [simp del]

definition peer_opt ::
    "bytes \<Rightarrow> u8 \<Rightarrow> u8 \<Rightarrow> int \<Rightarrow> ('k, 'z) sstp_pppd_scheme \<Rightarrow> ('k, 'z) sstp_pppd_scheme option" where
  "peer_opt buf ty olen pos ctx =
     (if ty = CI_ADDR \<and> olen = 6 then do {
        v \<leftarrow> rd32 buf (pos + 2); Some (ctx\<lparr>peer_ip := v\<rparr>) }
      else Some ctx)"

definition local_opt ::
    "bytes \<Rightarrow> u8 \<Rightarrow> u8 \<Rightarrow> int \<Rightarrow> ('k, 'z) sstp_pppd_scheme \<Rightarrow> ('k, 'z) sstp_pppd_scheme option" where
  "local_opt buf ty olen pos ctx =
     (if ty = CI_ADDR \<and> olen = 6 then do {
        v \<leftarrow> rd32 buf (pos + 2); Some (ctx\<lparr>local_ip := v\<rparr>) }
      else if ty = CI_MS_DNS1 \<and> olen = 6 then do {
        v \<leftarrow> rd32 buf (pos + 2); Some (ctx\<lparr>dns1 := v\<rparr>) }
      else if ty = CI_MS_DNS2 \<and> olen = 6 then do {
        v \<leftarrow> rd32 buf (pos + 2); Some (ctx\<lparr>dns2 := v\<rparr>) }
      else Some ctx)"

definition handle_ipcp ::
    "('k, 'e) ppp_env_scheme \<Rightarrow> bytes \<Rightarrow> ('k, 'z) sstp_pppd_scheme \<Rightarrow> ('k, 'z) sstp_pppd_scheme option" where
  "handle_ipcp env buf ctx =
     (if length buf < 4 then Some ctx
      else do {
        code \<leftarrow> rd buf 0;
        plen \<leftarrow> header_plen buf;
        ctx \<leftarrow> (if \<not> ccp_done ctx \<and> auth_done ctx
                then ccp_finished env (ctx\<lparr>mppe_enabled := False\<rparr>) else Some ctx);
        if code = FSM_CONFREQ then do {
          ctx \<leftarrow> opt_loop (peer_opt buf) buf plen 4 ctx;
          if plen > 128 then Some ctx
          else do {
            ack \<leftarrow> with_code buf plen FSM_CONFACK;
            send_frame env PPP_PROTO_IPCP ack ctx } }
        else if code = FSM_CONFACK then do {
          ctx \<leftarrow> opt_loop (local_opt buf) buf plen 4 ctx;
          Some (if local_ip ctx \<noteq> 0 then maybe_notify_up (ctx\<lparr>ip_configured := True\<rparr>) else ctx) }
        else if code = FSM_CONFNAK then do {
          ctx \<leftarrow> opt_loop (local_opt buf) buf plen 4 ctx;
          send_ipcp_confreq env ctx }
        else Some ctx })"

definition handle_ccp ::
    "('k, 'e) ppp_env_scheme \<Rightarrow> bytes \<Rightarrow> ('k, 'z) sstp_pppd_scheme \<Rightarrow> ('k, 'z) sstp_pppd_scheme option" where
  "handle_ccp env buf ctx =
     (if length buf < 4 then Some ctx
      else do {
        code \<leftarrow> rd buf 0;
        plen \<leftarrow> header_plen buf;
        if code = FSM_CONFREQ then
          (if plen > 64 then Some ctx
           else do {
             ack \<leftarrow> with_code buf plen FSM_CONFACK;
             ctx \<leftarrow> send_frame env PPP_PROTO_CCP ack ctx;
             ccp_finished env (mppe_init_keys env ctx) })
        else if code = FSM_CONFACK then ccp_finished env (mppe_init_keys env ctx)
        else if code = FSM_CONFREJ \<or> code = FSM_CONFNAK then
          ccp_finished env (ctx\<lparr>mppe_enabled := False\<rparr>)
        else Some ctx })"

text \<open>
  The catch-up loop: the counter is masked to 12 bits, so it reaches \<open>ccount\<close> (which is below
  4096) after \<open>(ccount - mppe_recv_ccount) mod 4096\<close> rounds; a counter outside its 12 bits
  is first brought back by the mask.
\<close>

definition recv_rekey ::
    "('k, 'e) ppp_env_scheme \<Rightarrow> ('k, 'z) sstp_pppd_scheme \<Rightarrow> ('k, 'z) sstp_pppd_scheme" where
  "recv_rekey env ctx =
     (let (s, k) = mppe_rekey (crypto env) (mppe_master_recv ctx) (mppe_session_recv ctx) False in
      ctx\<lparr>mppe_session_recv := s, rc4_recv := k,
          mppe_recv_ccount := (mppe_recv_ccount ctx + 1) AND 0x0fff\<rparr>)"

partial_function (option) mppe_catch_up ::
    "('k, 'e) ppp_env_scheme \<Rightarrow> u16 \<Rightarrow> ('k, 'z) sstp_pppd_scheme \<Rightarrow> ('k, 'z) sstp_pppd_scheme option" where
  "mppe_catch_up env ccount ctx =
     (if mppe_recv_ccount ctx = ccount then Some ctx
      else mppe_catch_up env ccount (recv_rekey env ctx))"

text \<open>A protocol field of one or two bytes, and what follows it.\<close>

definition split_proto :: "bytes \<Rightarrow> (u16 \<times> bytes) option" where
  "split_proto p = do {
     b \<leftarrow> rd p 0;
     if b AND 0x01 \<noteq> 0 then Some (ucast b, drop 1 p)
     else do { v \<leftarrow> rd16 p 0; Some (v, drop 2 p) } }"

text \<open>The decrypted data goes to an array of \<open>PPP_MRU + 16\<close> bytes.\<close>

definition handle_mppe ::
    "('k, 'e) ppp_env_scheme \<Rightarrow> bytes \<Rightarrow> ('k, 'z) sstp_pppd_scheme \<Rightarrow> ('k, 'z) sstp_pppd_scheme option" where
  "handle_mppe env buf ctx =
     (if length buf < 3 \<or> \<not> mppe_enabled ctx then Some ctx
      else do {
        b0 \<leftarrow> rd buf 0;
        b1 \<leftarrow> rd buf 1;
        let ccount = push_bit 8 (ucast (b0 AND 0x0f)) OR ucast b1;
        ctx \<leftarrow> mppe_catch_up env ccount ctx;
        if PPP_MRU + 16 < int (length buf) - 2 then None
        else do {
          let (p, key) = RC4 (crypto env) (rc4_recv ctx) (drop 2 buf);
          let ctx = ctx\<lparr>rc4_recv := key\<rparr>;
          b \<leftarrow> rd p 0;
          if b AND 0x01 = 0 \<and> length p < 2 then Some ctx
          else do {
            (proto, p) \<leftarrow> split_proto p;
            Some (if proto = PPP_PROTO_IP \<and> ip_handler_set ctx \<and> p \<noteq> []
                  then (act (DeliverIp p) ctx)\<lparr>recv_bytes := recv_bytes ctx + of_nat (length p)\<rparr>
                  else ctx) } } })"

definition ppp_dispatch ::
    "('k, 'e) ppp_env_scheme \<Rightarrow> bytes \<Rightarrow> ('k, 'z) sstp_pppd_scheme \<Rightarrow> ('k, 'z) sstp_pppd_scheme option" where
  "ppp_dispatch env frame ctx =
     (if length frame < 3 then Some ctx
      else do {
        a \<leftarrow> rd frame 0;
        c \<leftarrow> rd frame 1;
        let p = (if a = 0xFF \<and> c = 0x03 then drop 2 frame else frame);
        if length p < 2 then Some ctx
        else do {
          (proto, p) \<leftarrow> split_proto p;
          if proto = PPP_PROTO_LCP then handle_lcp env p ctx
          else if proto = PPP_PROTO_CHAP then handle_chap env p ctx
          else if proto = PPP_PROTO_IPCP then handle_ipcp env p ctx
          else if proto = PPP_PROTO_CCP then handle_ccp env p ctx
          else if proto = PPP_PROTO_MPPE then handle_mppe env p ctx
          else if proto = PPP_PROTO_IP then
            (let ctx = (if ip_handler_set ctx then act (DeliverIp p) ctx else ctx) in
             Some (ctx\<lparr>recv_bytes := recv_bytes ctx + of_nat (length p)\<rparr>))
          else Some ctx } })"

section \<open>The public operations\<close>

text \<open>
  The null checks of the pointer arguments are the callers'; \<open>now\<close> is the value of
  \<^verbatim>\<open>time (NULL)\<close>.
\<close>

definition sstp_pppd_create ::
    "bool \<Rightarrow> bool \<Rightarrow> bool \<Rightarrow> u32 \<Rightarrow> 'k \<Rightarrow> 'k \<Rightarrow> status_t \<times> 'k sstp_pppd option" where
  "sstp_pppd_create ok stream nfy random k1 k2 =
     (if \<not> ok then (SSTP_FAIL, None)
      else (SSTP_OKAY, Some \<lparr>stream_set = stream, notify_set = nfy, ip_handler_set = False,
        chap = \<lparr>challenge = replicate 16 0, response = replicate 8 0, nt_response = replicate 24 0,
                chap_flags = 0\<rparr>,
        username = [], password = [], lcp_id = 0, chap_id = 0, ipcp_id = 0, ccp_id = 0,
        magic = random, lcp_opened = False, auth_done = False, ip_configured = False,
        ccp_done = False, mppe_enabled = False, mppe_keys_set = False, started = False,
        up_notified = False, tx_busy = False, local_ip = 0, peer_ip = 0, dns1 = 0, dns2 = 0,
        mppe_master_send = replicate 16 0, mppe_master_recv = replicate 16 0,
        mppe_session_send = replicate 16 0, mppe_session_recv = replicate 16 0,
        rc4_send = k1, rc4_recv = k2, mppe_send_ccount = 0, mppe_recv_ccount = 0,
        tx_queue = [], tx_inflight = None, sent_bytes = 0, recv_bytes = 0, t_start = 0, t_end = 0,
        trace = [], n_sends = 0, n_items = 0, n_rand = 0\<rparr>))"

definition sstp_pppd_start ::
    "('k, 'e) ppp_env_scheme \<Rightarrow> nat \<Rightarrow> bytes option \<Rightarrow> bytes option \<Rightarrow> ('k, 'z) sstp_pppd_scheme \<Rightarrow>
     (status_t \<times> ('k, 'z) sstp_pppd_scheme) option" where
  "sstp_pppd_start env now user pass ctx =
     (let ctx = (case user of None \<Rightarrow> ctx | Some u \<Rightarrow> ctx\<lparr>username := take 255 u\<rparr>);
          ctx = (case pass of None \<Rightarrow> ctx | Some w \<Rightarrow> ctx\<lparr>password := take 255 w\<rparr>);
          ctx = ctx\<lparr>t_start := now, started := True\<rparr>
      in do {
        ctx \<leftarrow> send_lcp_confreq env (notify SSTP_PPP_START ctx);
        Some (SSTP_OKAY, ctx) })"

definition sstp_pppd_stop :: "nat \<Rightarrow> ('k, 'z) sstp_pppd_scheme \<Rightarrow> status_t \<times> ('k, 'z) sstp_pppd_scheme" where
  "sstp_pppd_stop now ctx = (SSTP_OKAY, ctx\<lparr>t_end := now\<rparr>)"

definition sstp_pppd_send ::
    "('k, 'e) ppp_env_scheme \<Rightarrow> bytes \<Rightarrow> ('k, 'z) sstp_pppd_scheme \<Rightarrow>
     (status_t \<times> ('k, 'z) sstp_pppd_scheme) option" where
  "sstp_pppd_send env buf ctx =
     (if length buf = 0 then Some (SSTP_FAIL, ctx)
      else do { ctx \<leftarrow> ppp_dispatch env buf ctx; Some (SSTP_OKAY, ctx) })"

text \<open>The packets whose buffers are released, in the order of release.\<close>

definition sstp_pppd_free :: "('k, 'z) sstp_pppd_scheme \<Rightarrow> bytes list" where
  "sstp_pppd_free ctx = (case tx_inflight ctx of None \<Rightarrow> [] | Some p \<Rightarrow> [p]) @ tx_queue ctx"

definition sstp_pppd_set_ip_handler ::
    "bool \<Rightarrow> ('k, 'z) sstp_pppd_scheme \<Rightarrow> ('k, 'z) sstp_pppd_scheme" where
  "sstp_pppd_set_ip_handler h ctx = ctx\<lparr>ip_handler_set := h\<rparr>"

definition sstp_pppd_set_mppe_keys ::
    "bytes \<Rightarrow> bytes \<Rightarrow> ('k, 'z) sstp_pppd_scheme \<Rightarrow> ('k, 'z) sstp_pppd_scheme" where
  "sstp_pppd_set_mppe_keys skey rkey ctx =
     ctx\<lparr>mppe_master_send := take 16 skey, mppe_master_recv := take 16 rkey, mppe_keys_set := True\<rparr>"

definition sstp_pppd_send_ip ::
    "('k, 'e) ppp_env_scheme \<Rightarrow> bytes \<Rightarrow> ('k, 'z) sstp_pppd_scheme \<Rightarrow>
     (status_t \<times> ('k, 'z) sstp_pppd_scheme) option" where
  "sstp_pppd_send_ip env ip ctx =
     (if length ip = 0 then Some (SSTP_FAIL, ctx) else ppp_send_ip_plain_or_mppe env ip ctx)"

text \<open>The four addresses as numbers; \<^verbatim>\<open>inet_ntop\<close> turns them to text.\<close>

definition sstp_pppd_get_ipv4 :: "('k, 'z) sstp_pppd_scheme \<Rightarrow> u32 \<times> u32 \<times> u32 \<times> u32" where
  "sstp_pppd_get_ipv4 ctx =
     (local_ip ctx, if peer_ip ctx \<noteq> 0 then peer_ip ctx else local_ip ctx,
      if dns1 ctx \<noteq> 0 then dns1 ctx else 0x08080808,
      if dns2 ctx \<noteq> 0 then dns2 ctx else 0x08080404)"

definition sstp_pppd_session_details :: "nat \<Rightarrow> ('k, 'z) sstp_pppd_scheme \<Rightarrow> int \<times> 64 word \<times> 64 word" where
  "sstp_pppd_session_details now ctx =
     (if t_end ctx \<noteq> 0 then int (t_end ctx) - int (t_start ctx) else int now - int (t_start ctx),
      recv_bytes ctx, sent_bytes ctx)"

text \<open>Everything that happens to a context after its creation.\<close>

datatype ppp_input =
    PppStart nat "bytes option" "bytes option"
  | PppFrame bytes
  | PppSendIp bytes
  | PppSendComplete
  | PppSetKeys bytes bytes
  | PppSetHandler bool
  | PppStop nat

primrec ppp_step ::
    "('k, 'e) ppp_env_scheme \<Rightarrow> ppp_input \<Rightarrow> ('k, 'z) sstp_pppd_scheme \<Rightarrow> ('k, 'z) sstp_pppd_scheme option" where
  "ppp_step env (PppStart now u w) ctx = map_option snd (sstp_pppd_start env now u w ctx)"
| "ppp_step env (PppFrame f) ctx = map_option snd (sstp_pppd_send env f ctx)"
| "ppp_step env (PppSendIp ip) ctx = map_option snd (sstp_pppd_send_ip env ip ctx)"
| "ppp_step env PppSendComplete ctx = Some (ppp_send_complete env ctx)"
| "ppp_step env (PppSetKeys s r) ctx = Some (sstp_pppd_set_mppe_keys s r ctx)"
| "ppp_step env (PppSetHandler h) ctx = Some (sstp_pppd_set_ip_handler h ctx)"
| "ppp_step env (PppStop now) ctx = Some (snd (sstp_pppd_stop now ctx))"

section \<open>Reading the trace\<close>

text \<open>What was handed to the stream, signalled to the client and delivered, in order.\<close>

definition sends :: "ppp_action list \<Rightarrow> bytes list" where
  "sends tr = concat (map (\<lambda>a. case a of StreamSend p \<Rightarrow> [p] | _ \<Rightarrow> []) tr)"

definition signals :: "ppp_action list \<Rightarrow> ppp_event list" where
  "signals tr = concat (map (\<lambda>a. case a of Notify e \<Rightarrow> [e] | _ \<Rightarrow> []) tr)"

definition delivered :: "ppp_action list \<Rightarrow> bytes list" where
  "delivered tr = concat (map (\<lambda>a. case a of DeliverIp p \<Rightarrow> [p] | _ \<Rightarrow> []) tr)"

text \<open>All packets ever queued, in order: those handed to the stream, then those waiting.\<close>

definition queued :: "('k, 'z) sstp_pppd_scheme \<Rightarrow> bytes list" where
  "queued ctx = sends (trace ctx) @ tx_queue ctx"

text \<open>Everything but the send side.\<close>

definition core :: "('k, 'z) sstp_pppd_scheme \<Rightarrow> ('k, 'z) sstp_pppd_scheme" where
  "core ctx = ctx\<lparr>tx_queue := [], tx_inflight := None, tx_busy := False, sent_bytes := 0,
                  trace := [], n_sends := 0, n_items := 0\<rparr>"

text \<open>A packet of the wire, as the queue holds it.\<close>

definition data_pkt :: "bytes \<Rightarrow> bytes" where
  "data_pkt frame = [SSTP_PROTO_VER, 0] @ be16 (of_nat (length frame + 4)) @ frame"

text \<open>The queue is consistent: busy exactly while the last packet handed over is in flight.\<close>

definition tx_ok :: "('k, 'z) sstp_pppd_scheme \<Rightarrow> bool" where
  "tx_ok ctx \<longleftrightarrow>
     tx_busy ctx = (tx_inflight ctx \<noteq> None)
     \<and> (\<forall>p. tx_inflight ctx = Some p \<longrightarrow> sends (trace ctx) \<noteq> [] \<and> last (sends (trace ctx)) = p)"

text \<open>The context invariant.\<close>

definition wf_pppd :: "('k, 'z) sstp_pppd_scheme \<Rightarrow> bool" where
  "wf_pppd ctx \<longleftrightarrow>
     tx_ok ctx
     \<and> length (mppe_master_send ctx) = 16 \<and> length (mppe_master_recv ctx) = 16
     \<and> length (mppe_session_send ctx) = 16 \<and> length (mppe_session_recv ctx) = 16
     \<and> mppe_send_ccount ctx < 4096 \<and> mppe_recv_ccount ctx < 4096
     \<and> (mppe_enabled ctx \<longrightarrow> mppe_keys_set ctx)
     \<and> (up_notified ctx \<longrightarrow> ip_configured ctx \<and> ccp_done ctx)
     \<and> count_list (signals (trace ctx)) SSTP_PPP_UP = (if up_notified ctx \<and> notify_set ctx then 1 else 0)"

section \<open>Notions of the proofs\<close>

text \<open>A frame that is sent changes the send side only, and enters the queue at its end.\<close>

definition quiet :: "('k, 'z) sstp_pppd_scheme \<Rightarrow> ('k, 'z) sstp_pppd_scheme \<Rightarrow> bool" where
  "quiet a b \<longleftrightarrow> core b = core a \<and> signals (trace b) = signals (trace a)
     \<and> delivered (trace b) = delivered (trace a) \<and> (tx_ok a \<longrightarrow> tx_ok b)
     \<and> (\<exists>new. queued b = queued a @ new)
     \<and> (\<exists>new. trace b = trace a @ new)"

text \<open>The number of key changes from counter \<open>r\<close> to counter \<open>c\<close>.\<close>

definition rekeys :: "u16 \<Rightarrow> u16 \<Rightarrow> nat" where
  "rekeys r c = nat ((uint c - uint r) mod 4096)"

text \<open>The session key after \<open>n\<close> changes.\<close>

definition next_key :: "('k, 'z) openssl_scheme \<Rightarrow> bytes \<Rightarrow> bytes \<Rightarrow> bytes" where
  "next_key ss master session = fst (mppe_rekey ss master session False)"

definition env_ok :: "('k, 'e) ppp_env_scheme \<Rightarrow> bool" where
  "env_ok env \<longleftrightarrow> digest_lengths (crypto env) \<and> rc4_stream (crypto env) \<and> (\<forall>n. length (rand16 env n) = 16)"

text \<open>
  A context that has evolved from \<open>c0\<close>: the invariant holds, the actions of \<open>c0\<close> are a
  prefix of its actions, what was queued before is sent or queued before what was queued
  since, and a client that has been told that the link is up stays told.
\<close>

definition ok_from :: "('k, 'z) sstp_pppd_scheme \<Rightarrow> ('k, 'z) sstp_pppd_scheme \<Rightarrow> bool" where
  "ok_from c0 c \<longleftrightarrow> wf_pppd c
     \<and> (\<exists>new. trace c = trace c0 @ new)
     \<and> (\<exists>new. queued c = queued c0 @ new)
     \<and> (up_notified c0 \<longrightarrow> up_notified c)"

text \<open>An outcome without memory error in which the invariant holds.\<close>

definition safe :: "('k, 'z) sstp_pppd_scheme \<Rightarrow> ('k, 'z) sstp_pppd_scheme option \<Rightarrow> bool" where
  "safe c0 m \<longleftrightarrow> (\<exists>c. m = Some c \<and> ok_from c0 c)"

text \<open>The frame that carries one IP packet under MPPE, and the sender's state after it.\<close>

definition mppe_frame :: "('k, 'e) ppp_env_scheme \<Rightarrow> bytes \<Rightarrow> ('k, 'z) sstp_pppd_scheme \<Rightarrow> bytes" where
  "mppe_frame env ip ctx =
     (let cc = (mppe_send_ccount ctx + 1) AND 0x0fff;
          session = next_key (crypto env) (mppe_master_send ctx) (mppe_session_send ctx)
      in [0xFF, 0x03] @ be16 PPP_PROTO_MPPE
         @ [0x90 OR ucast (drop_bit 8 cc AND 0x0f), ucast (cc AND 0xff)]
         @ fst (RC4 (crypto env) (RC4_set_key (crypto env) session) (be16 PPP_PROTO_IP @ ip)))"

text \<open>Sender \<open>a\<close> and receiver \<open>b\<close> are in step: \<open>b\<close> reaches the session key of \<open>a\<close> by as many
  key changes as its counter is behind.\<close>

definition in_sync ::
    "('k, 'e) ppp_env_scheme \<Rightarrow> ('k, 'y) sstp_pppd_scheme \<Rightarrow> ('k, 'z) sstp_pppd_scheme \<Rightarrow> bool" where
  "in_sync env a b \<longleftrightarrow>
     mppe_master_send a = mppe_master_recv b
     \<and> mppe_send_ccount a < 4096 \<and> mppe_recv_ccount b < 4096
     \<and> mppe_session_send a =
         (next_key (crypto env) (mppe_master_recv b)
            ^^ rekeys (mppe_recv_ccount b) (mppe_send_ccount a)) (mppe_session_recv b)"

text \<open>What the environment may do to a context: frames of a size the buffers take, and keys of
  the size \<open>sstp_pppd_set_mppe_keys\<close> copies.\<close>

definition ppp_may :: "ppp_input \<Rightarrow> bool" where
  "ppp_may i = (case i of PppFrame f \<Rightarrow> length f \<le> 1419
     | PppSetKeys s r \<Rightarrow> 16 \<le> length s \<and> 16 \<le> length r | _ \<Rightarrow> True)"

end
