(* ===== verification/PppProofs.thy ===== *)
theory PppProofs
  imports Ppp
begin

text \<open>
  The proofs about theory \<open>Ppp\<close>. First what sending does to a context (it changes the send side
  only), then MPPE key changes, then the safety of every handler: from a context that satisfies
  the invariant each returns one that does, which makes the context an instance of the locale
  of guarded machines. The properties of the PPP engine follow.
\<close>

section \<open>Sending\<close>

lemma trace_simps [simp]:
  "sends [] = []" "signals [] = []" "delivered [] = []"
  "sends (a @ b) = sends a @ sends b" "signals (a @ b) = signals a @ signals b"
  "delivered (a @ b) = delivered a @ delivered b"
  "sends (StreamSend p # tr) = p # sends tr" "sends (Notify e # tr) = sends tr"
  "sends (DeliverIp q # tr) = sends tr"
  "signals (StreamSend p # tr) = signals tr" "signals (Notify e # tr) = e # signals tr"
  "signals (DeliverIp q # tr) = signals tr"
  "delivered (StreamSend p # tr) = delivered tr" "delivered (Notify e # tr) = delivered tr"
  "delivered (DeliverIp q # tr) = q # delivered tr"
  by (simp_all add: sends_def signals_def delivered_def)

lemma trace_act [simp]: "trace (act a ctx) = trace ctx @ [a]"
  by (simp add: act_def)

lemma core_act [simp]: "core (act a ctx) = core ctx"
  by (simp add: core_def act_def)

lemma core_notify [simp]: "core (notify e ctx) = core ctx"
  by (simp add: notify_def)

lemma core_eqD:
  assumes "core a = core b"
  shows "stream_set a = stream_set b" "notify_set a = notify_set b"
    "ip_handler_set a = ip_handler_set b" "chap a = chap b" "username a = username b"
    "password a = password b" "lcp_id a = lcp_id b" "chap_id a = chap_id b"
    "ipcp_id a = ipcp_id b" "ccp_id a = ccp_id b" "magic a = magic b"
    "lcp_opened a = lcp_opened b" "auth_done a = auth_done b" "ip_configured a = ip_configured b"
    "ccp_done a = ccp_done b" "mppe_enabled a = mppe_enabled b" "mppe_keys_set a = mppe_keys_set b"
    "started a = started b" "up_notified a = up_notified b" "local_ip a = local_ip b"
    "peer_ip a = peer_ip b" "dns1 a = dns1 b" "dns2 a = dns2 b"
    "mppe_master_send a = mppe_master_send b" "mppe_master_recv a = mppe_master_recv b"
    "mppe_session_send a = mppe_session_send b" "mppe_session_recv a = mppe_session_recv b"
    "rc4_send a = rc4_send b" "rc4_recv a = rc4_recv b"
    "mppe_send_ccount a = mppe_send_ccount b" "mppe_recv_ccount a = mppe_recv_ccount b"
    "recv_bytes a = recv_bytes b" "n_rand a = n_rand b"
  using arg_cong [OF assms, of stream_set] arg_cong [OF assms, of notify_set]
    arg_cong [OF assms, of ip_handler_set] arg_cong [OF assms, of chap]
    arg_cong [OF assms, of username] arg_cong [OF assms, of password]
    arg_cong [OF assms, of lcp_id] arg_cong [OF assms, of chap_id]
    arg_cong [OF assms, of ipcp_id] arg_cong [OF assms, of ccp_id] arg_cong [OF assms, of magic]
    arg_cong [OF assms, of lcp_opened] arg_cong [OF assms, of auth_done]
    arg_cong [OF assms, of ip_configured] arg_cong [OF assms, of ccp_done]
    arg_cong [OF assms, of mppe_enabled] arg_cong [OF assms, of mppe_keys_set]
    arg_cong [OF assms, of started] arg_cong [OF assms, of up_notified]
    arg_cong [OF assms, of local_ip] arg_cong [OF assms, of peer_ip]
    arg_cong [OF assms, of dns1] arg_cong [OF assms, of dns2]
    arg_cong [OF assms, of mppe_master_send] arg_cong [OF assms, of mppe_master_recv]
    arg_cong [OF assms, of mppe_session_send] arg_cong [OF assms, of mppe_session_recv]
    arg_cong [OF assms, of rc4_send] arg_cong [OF assms, of rc4_recv]
    arg_cong [OF assms, of mppe_send_ccount] arg_cong [OF assms, of mppe_recv_ccount]
    arg_cong [OF assms, of recv_bytes] arg_cong [OF assms, of n_rand]
  by (simp_all add: core_def)

text \<open>Flushing the queue.\<close>

lemma tx_ok_idle [simp]: "tx_ok (ctx\<lparr>tx_inflight := None, tx_busy := False\<rparr>)"
  by (simp add: tx_ok_def)

lemma flush_start_keeps:
  "core (ppp_flush_start env ctx) = core ctx
   \<and> queued (ppp_flush_start env ctx) = queued ctx
   \<and> signals (trace (ppp_flush_start env ctx)) = signals (trace ctx)
   \<and> delivered (trace (ppp_flush_start env ctx)) = delivered (trace ctx)
   \<and> (tx_ok ctx \<longrightarrow> tx_ok (ppp_flush_start env ctx))
   \<and> (\<exists>new. trace (ppp_flush_start env ctx) = trace ctx @ new)"
proof (induction "length (tx_queue ctx)" arbitrary: ctx rule: less_induct)
  case less
  show ?case
  proof (cases "tx_busy ctx \<or> tx_queue ctx = [] \<or> \<not> stream_set ctx")
    case True
    then show ?thesis by (simp add: ppp_flush_start.simps)
  next
    case False
    then obtain item rest where q: "tx_queue ctx = item # rest" by (cases "tx_queue ctx") auto
    let ?c = "act (StreamSend item) (ctx\<lparr>tx_queue := rest, tx_inflight := Some item, tx_busy := True,
        n_sends := n_sends ctx + 1\<rparr>)"
    consider "stream_ret env (n_sends ctx) = SSTP_OKAY" | "stream_ret env (n_sends ctx) = SSTP_INPROG"
      | "stream_ret env (n_sends ctx) \<noteq> SSTP_OKAY" "stream_ret env (n_sends ctx) \<noteq> SSTP_INPROG" by blast
    then show ?thesis
    proof cases
      case 1
      have e: "ppp_flush_start env ctx = ppp_flush_start env (?c\<lparr>tx_inflight := None, tx_busy := False\<rparr>)"
        using False 1 q by (simp add: ppp_flush_start.simps [of env ctx] stream_send_def)
      show ?thesis
        unfolding e
        using less.hyps [of "?c\<lparr>tx_inflight := None, tx_busy := False\<rparr>"] q
        by (auto simp: act_def core_def queued_def)
    next
      case 2
      then show ?thesis using False q
        by (simp add: ppp_flush_start.simps [of env ctx] stream_send_def core_def act_def tx_ok_def queued_def)
    next
      case 3
      then show ?thesis using False q
        by (simp add: ppp_flush_start.simps [of env ctx] stream_send_def core_def act_def tx_ok_def queued_def)
    qed
  qed
qed

lemma data_packet_eq:
  assumes "length frame \<le> 32000"
  shows "data_packet ok frame = Some (if ok then (SSTP_OKAY, data_pkt frame) else (SSTP_FAIL, []))"
proof (cases ok)
  case True
  let ?n = "length frame + 64"
  have n: "nat (int (length frame) + 64) = ?n" by simp
  have r: "replicate ?n (0::u8) = replicate 2 0 @ replicate 2 0 @ replicate (length frame) 0 @ replicate 60 0"
    by (simp add: replicate_add [symmetric])
  have w: "wr_n (replicate ?n 0) 0 [SSTP_PROTO_VER, 0] =
      Some ([SSTP_PROTO_VER, 0, 0, 0] @ replicate (length frame) 0 @ replicate 60 0)"
    by (rule wr_n_at [of _ "[]" _ "replicate 2 0"]) (simp_all only: r, simp_all add: numeral_2_eq_2)
  have w2: "wr_n ([SSTP_PROTO_VER, 0, 0, 0] @ x) 2 (be16 (4::u16)) =
      Some ([SSTP_PROTO_VER, 0] @ be16 4 @ x)" for x
    by (rule wr_n_at [of _ "[SSTP_PROTO_VER, 0]" _ "[0, 0]"]) simp_all
  have w3: "wr_n ([SSTP_PROTO_VER, 0] @ be16 4 @ replicate (length frame) 0 @ replicate 60 0) 4 frame =
      Some ([SSTP_PROTO_VER, 0] @ be16 4 @ frame @ replicate 60 0)"
    by (rule wr_n_at [of _ "[SSTP_PROTO_VER, 0] @ be16 4" _ "replicate (length frame) 0"]) simp_all
  have w4: "wr_n ([SSTP_PROTO_VER, 0] @ be16 4 @ frame @ replicate 60 0) 2
        (be16 (of_nat (length frame + 4))) =
      Some ([SSTP_PROTO_VER, 0] @ be16 (of_nat (length frame + 4)) @ frame @ replicate 60 0)"
    by (rule wr_n_at [of _ "[SSTP_PROTO_VER, 0]" _ "be16 4"]) simp_all
  have t: "take (length frame + 4) (SSTP_PROTO_VER # 0 # be16 v @ frame @ x) = SSTP_PROTO_VER # 0 # be16 v @ frame" for v x
    by (simp add: be16_def numeral_eq_Suc)
  show ?thesis
    using True w w2 w3 w4 t
    by (simp add: data_packet_def sstp_buff_create_def sstp_pkt_init_def sstp_buff_reset_def n
        sstp_pkt_update_def data_pkt_def content_def nat_add_distrib add.commute)
next
  case False
  then show ?thesis by (simp add: data_packet_def sstp_buff_create_def)
qed

lemma quiet_trans: "quiet a b \<Longrightarrow> quiet b c \<Longrightarrow> quiet a c"
  by (auto simp: quiet_def)

lemma quiet_refl [simp]: "quiet a a"
  by (simp add: quiet_def)

lemma ppp_send_frame_spec:
  "\<exists>st ctx'. ppp_send_frame env proto payload ctx = Some (st, ctx') \<and> quiet ctx ctx'
    \<and> st = (if length payload \<le> 1400 \<and> item_ok env (n_items ctx) \<and> buff_ok env (n_items ctx)
            then SSTP_OKAY else SSTP_FAIL)
    \<and> queued ctx' = queued ctx @ (if st = SSTP_OKAY then [data_pkt ([0xFF, 0x03] @ be16 proto @ payload)] else [])"
proof (cases "length payload \<le> 1400")
  case True
  define f where "f = [0xFF, 0x03] @ be16 proto @ payload"
  define c where "c = ctx\<lparr>n_items := n_items ctx + 1, tx_queue := tx_queue ctx @ [data_pkt f],
      sent_bytes := sent_bytes ctx + of_nat (length f)\<rparr>"
  have l: "length f \<le> 32000" "f \<noteq> []" using True by (simp_all add: f_def)
  have e: "ppp_send_frame env proto payload ctx =
      Some (if item_ok env (n_items ctx) \<and> buff_ok env (n_items ctx)
            then (SSTP_OKAY, ppp_flush_start env c) else (SSTP_FAIL, ctx\<lparr>n_items := n_items ctx + 1\<rparr>))"
    using True l by (simp add: ppp_send_frame_def f_def [symmetric] ppp_enqueue_raw_def data_packet_eq
        Let_def c_def del: append.simps)
  have q: "core c = core ctx" "tx_ok c = tx_ok ctx" "trace c = trace ctx" by (simp_all add: core_def tx_ok_def c_def)
  have i: "core (ctx\<lparr>n_items := n_items ctx + 1\<rparr>) = core ctx"
    "tx_ok (ctx\<lparr>n_items := n_items ctx + 1\<rparr>) = tx_ok ctx" by (simp_all add: core_def tx_ok_def)
  have cq: "queued c = queued ctx @ [data_pkt f]" by (simp add: c_def queued_def)
  show ?thesis
  proof (cases "item_ok env (n_items ctx) \<and> buff_ok env (n_items ctx)")
    case ok: True
    have q1: "quiet ctx (ppp_flush_start env c)"
      using flush_start_keeps [of env c] q cq by (auto simp: quiet_def)
    have q2: "queued (ppp_flush_start env c) = queued ctx @ [data_pkt f]"
      using flush_start_keeps [of env c] cq by simp
    show ?thesis
      by (rule exI [of _ SSTP_OKAY], rule exI [of _ "ppp_flush_start env c"])
        (simp only: e ok True q1 q2 f_def [symmetric] if_True simp_thms)
  next
    case False
    have q2: "queued (ctx\<lparr>n_items := n_items ctx + 1\<rparr>) = queued ctx" by (simp add: queued_def)
    then have q1: "quiet ctx (ctx\<lparr>n_items := n_items ctx + 1\<rparr>)" using i by (simp add: quiet_def)
    show ?thesis
      by (rule exI [of _ SSTP_FAIL], rule exI [of _ "ctx\<lparr>n_items := n_items ctx + 1\<rparr>"])
        (simp only: e False q1 q2 if_False simp_thms status_t.distinct append_Nil2)
  qed
next
  case False
  then show ?thesis by (auto simp: ppp_send_frame_def)
qed

lemma send_frame_spec:
  "\<exists>ctx'. send_frame env proto payload ctx = Some ctx' \<and> quiet ctx ctx'"
  using ppp_send_frame_spec [of env proto payload ctx] by (auto simp: send_frame_def)

lemma send_frame_some: "send_frame env proto payload ctx = Some ctx' \<Longrightarrow> quiet ctx ctx'"
  using send_frame_spec [of env proto payload ctx] by auto

lemma wf_quiet:
  assumes "quiet a b" "wf_pppd a"
  shows "wf_pppd b"
proof -
  have c: "core b = core a" using assms(1) by (simp add: quiet_def)
  show ?thesis using assms unfolding wf_pppd_def quiet_def core_eqD [OF c] by simp
qed

lemma uint_and_fff: "uint (w AND 0x0fff :: u16) = uint w mod 4096"
proof -
  have "w AND 0x0fff = take_bit 12 w" by (simp add: take_bit_eq_mask mask_eq_exp_minus_1)
  then show ?thesis by (simp only: unsigned_take_bit_eq) (simp add: take_bit_eq_mod)
qed

lemma masked_less: "(w AND 0x0fff :: u16) < 4096"
  by (simp add: word_less_def uint_and_fff)

lemma uint_next: "r < 4096 \<Longrightarrow> uint ((r + 1) AND 0x0fff :: u16) = (uint r + 1) mod 4096"
proof -
  assume r: "r < 4096"
  have "uint (r + 1) = (uint r + 1) mod 65536" by (simp add: uint_word_ariths)
  then show ?thesis by (simp add: uint_and_fff mod_mod_cancel)
qed

lemma rekeys_less: "rekeys r c < 4096"
  by (simp add: rekeys_def nat_less_iff)

lemma rekeys_0: "r < 4096 \<Longrightarrow> c < 4096 \<Longrightarrow> rekeys r c = 0 \<longleftrightarrow> r = c"
proof -
  assume r: "r < 4096" and c: "c < 4096"
  have "0 \<le> uint r" "uint r < 4096" "0 \<le> uint c" "uint c < 4096"
    using r c by (simp_all add: word_less_def)
  then have "\<bar>uint c - uint r\<bar> < 4096" by linarith
  then have "((uint c - uint r) mod 4096 = 0) = (uint c = uint r)"
    using dvd_imp_le_int [of "uint c - uint r" 4096] by (auto simp: mod_eq_0_iff_dvd)
  moreover have "rekeys r c = 0 \<longleftrightarrow> (uint c - uint r) mod 4096 = 0"
    by (auto simp: rekeys_def nat_eq_iff)
  ultimately show ?thesis by (auto simp: word_uint_eq_iff)
qed

lemma mod_dec: "(x :: int) mod 4096 = int k + 1 \<Longrightarrow> (x - 1) mod 4096 = int k"
proof -
  assume x: "x mod 4096 = int k + 1"
  have "(x - 1) mod 4096 = (x mod 4096 - 1) mod 4096" by (simp add: mod_diff_left_eq)
  also have "\<dots> = int k mod 4096" by (simp add: x)
  also have "\<dots> = int k" using pos_mod_bound [of 4096 x] x by simp
  finally show ?thesis .
qed

lemma rekeys_next:
  assumes "r < 4096" "rekeys r c = Suc k"
  shows "rekeys ((r + 1) AND 0x0fff) c = k"
proof -
  have "(uint c - (uint r + 1) mod 4096) mod 4096 = (uint c - uint r - 1) mod 4096"
    by (simp add: mod_simps diff_diff_eq)
  moreover have "(uint c - uint r) mod 4096 = int k + 1"
    using assms(2) by (simp add: rekeys_def)
  then have "(uint c - uint r - 1) mod 4096 = int k" by (rule mod_dec)
  ultimately show ?thesis by (simp add: rekeys_def uint_next [OF assms(1)])
qed

lemma mppe_rekey_length:
  assumes "digest_lengths ss" "rc4_stream ss"
  shows "length (fst (mppe_rekey ss m s i)) = 16"
proof -
  have "length (sstp_mppe_get_new_key_from_sha ss m s) = 16"
    using digest_lengthsD(2) [OF assms(1)] by (simp add: sstp_mppe_get_new_key_from_sha_def)
  then show ?thesis
    using rc4_streamD(1) [OF assms(2)] by (simp add: mppe_rekey_def Let_def)
qed

lemma mppe_rekey_eq: "mppe_rekey ss m s i = (fst (mppe_rekey ss m s i), RC4_set_key ss (fst (mppe_rekey ss m s i)))"
  by (simp add: mppe_rekey_def Let_def)

lemma recv_rekey_eq:
  "recv_rekey env ctx = ctx\<lparr>mppe_session_recv := next_key (crypto env) (mppe_master_recv ctx) (mppe_session_recv ctx),
     rc4_recv := RC4_set_key (crypto env) (next_key (crypto env) (mppe_master_recv ctx) (mppe_session_recv ctx)),
     mppe_recv_ccount := (mppe_recv_ccount ctx + 1) AND 0x0fff\<rparr>"
  by (simp add: recv_rekey_def next_key_def mppe_rekey_def Let_def)

lemma recv_rekey_pow:
  "\<exists>k cc. (recv_rekey env ^^ n) ctx = ctx\<lparr>mppe_session_recv :=
      (next_key (crypto env) (mppe_master_recv ctx) ^^ n) (mppe_session_recv ctx), rc4_recv := k, mppe_recv_ccount := cc\<rparr>
    \<and> (0 < n \<longrightarrow> k = RC4_set_key (crypto env)
         ((next_key (crypto env) (mppe_master_recv ctx) ^^ n) (mppe_session_recv ctx)))"
proof (induction n)
  case 0
  show ?case by (rule exI [of _ "rc4_recv ctx"], rule exI [of _ "mppe_recv_ccount ctx"]) simp
next
  case (Suc n)
  then show ?case by (auto simp: recv_rekey_eq)
qed

lemma mppe_catch_up_pow:
  assumes "mppe_recv_ccount ctx < 4096" "c < 4096" "rekeys (mppe_recv_ccount ctx) c = n"
  shows "mppe_catch_up env c ctx = Some ((recv_rekey env ^^ n) ctx)
    \<and> mppe_recv_ccount ((recv_rekey env ^^ n) ctx) = c"
  using assms
proof (induction n arbitrary: ctx)
  case 0
  then have "mppe_recv_ccount ctx = c" using rekeys_0 by simp
  then show ?case by (simp add: mppe_catch_up.simps)
next
  case (Suc n)
  have ne: "mppe_recv_ccount ctx \<noteq> c" using Suc.prems rekeys_0 [of "mppe_recv_ccount ctx" c] by simp
  have r: "mppe_recv_ccount (recv_rekey env ctx) = (mppe_recv_ccount ctx + 1) AND 0x0fff"
    by (simp add: recv_rekey_eq)
  have "mppe_catch_up env c (recv_rekey env ctx) = Some ((recv_rekey env ^^ n) (recv_rekey env ctx))
    \<and> mppe_recv_ccount ((recv_rekey env ^^ n) (recv_rekey env ctx)) = c"
    using Suc.prems by (intro Suc.IH) (simp_all add: r masked_less rekeys_next)
  then show ?case
    using ne by (simp add: mppe_catch_up.simps [of env c ctx] funpow_swap1)
qed

lemma wf_updates [simp]:
  "ok_from c0 (ctx\<lparr>lcp_opened := b\<rparr>) = ok_from c0 ctx" "ok_from c0 (ctx\<lparr>lcp_id := i\<rparr>) = ok_from c0 ctx"
  "ok_from c0 (ctx\<lparr>ipcp_id := i\<rparr>) = ok_from c0 ctx" "ok_from c0 (ctx\<lparr>ccp_id := i\<rparr>) = ok_from c0 ctx"
  "ok_from c0 (ctx\<lparr>chap_id := i\<rparr>) = ok_from c0 ctx" "ok_from c0 (ctx\<lparr>auth_done := b\<rparr>) = ok_from c0 ctx"
  "ok_from c0 (ctx\<lparr>chap := c\<rparr>) = ok_from c0 ctx" "ok_from c0 (ctx\<lparr>n_rand := n\<rparr>) = ok_from c0 ctx"
  "ok_from c0 (ctx\<lparr>local_ip := a\<rparr>) = ok_from c0 ctx" "ok_from c0 (ctx\<lparr>peer_ip := a\<rparr>) = ok_from c0 ctx"
  "ok_from c0 (ctx\<lparr>dns1 := a\<rparr>) = ok_from c0 ctx" "ok_from c0 (ctx\<lparr>dns2 := a\<rparr>) = ok_from c0 ctx"
  "ok_from c0 (ctx\<lparr>username := s\<rparr>) = ok_from c0 ctx" "ok_from c0 (ctx\<lparr>password := s\<rparr>) = ok_from c0 ctx"
  "ok_from c0 (ctx\<lparr>t_start := n\<rparr>) = ok_from c0 ctx" "ok_from c0 (ctx\<lparr>t_end := n\<rparr>) = ok_from c0 ctx"
  "ok_from c0 (ctx\<lparr>started := b\<rparr>) = ok_from c0 ctx" "ok_from c0 (ctx\<lparr>ip_handler_set := b\<rparr>) = ok_from c0 ctx"
  "ok_from c0 (ctx\<lparr>recv_bytes := r\<rparr>) = ok_from c0 ctx" "ok_from c0 (ctx\<lparr>rc4_recv := k\<rparr>) = ok_from c0 ctx"
  by (simp_all add: ok_from_def queued_def wf_pppd_def tx_ok_def)

lemma wf_monotone [wf_intros]:
  "ok_from c0 ctx \<Longrightarrow> ok_from c0 (ctx\<lparr>mppe_enabled := False\<rparr>)"
  "ok_from c0 ctx \<Longrightarrow> ok_from c0 (ctx\<lparr>ccp_done := True\<rparr>)"
  "ok_from c0 ctx \<Longrightarrow> ok_from c0 (ctx\<lparr>ip_configured := True\<rparr>)"
  "ok_from c0 ctx \<Longrightarrow> ok_from c0 (act (DeliverIp p) ctx)"
  "ok_from c0 ctx \<Longrightarrow> e \<noteq> SSTP_PPP_UP \<Longrightarrow> ok_from c0 (notify e ctx)"
  by (auto simp: ok_from_def queued_def wf_pppd_def tx_ok_def act_def notify_def)

lemma wf_maybe_notify_up [wf_intros]: "ok_from c0 ctx \<Longrightarrow> ok_from c0 (maybe_notify_up ctx)"
  by (auto simp: ok_from_def queued_def wf_pppd_def maybe_notify_up_def notify_def act_def tx_ok_def)

lemma wf_mppe_init_keys [wf_intros]:
  assumes "ok_from c0 ctx" "env_ok env"
  shows "ok_from c0 (mppe_init_keys env ctx)"
proof -
  have "length (fst (mppe_rekey (crypto env) m s i)) = 16" for m s i
    using assms(2) by (simp add: env_ok_def mppe_rekey_length)
  then show ?thesis
    using assms(1) by (auto simp: ok_from_def queued_def wf_pppd_def tx_ok_def mppe_init_keys_def split_beta)
qed

lemma safe_Some [wf_intros]: "ok_from c0 c \<Longrightarrow> safe c0 (Some c)"
  by (simp add: safe_def)

lemma ok_from_quiet: "quiet a b \<Longrightarrow> ok_from c0 a \<Longrightarrow> ok_from c0 b"
proof -
  assume q: "quiet a b" and o: "ok_from c0 a"
  have c: "core b = core a" using q by (simp add: quiet_def)
  have "wf_pppd b" using q o wf_quiet by (auto simp: ok_from_def)
  then show ?thesis using q o core_eqD(19) [OF c] by (auto simp: ok_from_def quiet_def)
qed

lemma safe_send_frame [wf_intros]: "ok_from c0 c \<Longrightarrow> safe c0 (send_frame env proto payload c)"
  using send_frame_spec [of env proto payload c] ok_from_quiet by (auto simp: safe_def)

lemma safe_bind [wf_intros]: "safe c0 m \<Longrightarrow> (\<And>c. ok_from c0 c \<Longrightarrow> safe c0 (f c)) \<Longrightarrow> safe c0 (m \<bind> f)"
  by (auto simp: safe_def)

lemma safe_if [wf_intros]: "(b \<Longrightarrow> safe c0 x) \<Longrightarrow> (\<not> b \<Longrightarrow> safe c0 y) \<Longrightarrow> safe c0 (if b then x else y)"
  by simp

lemma safe_rd: "0 \<le> i \<Longrightarrow> i < int (length buf) \<Longrightarrow> (\<And>b. safe c0 (f b)) \<Longrightarrow> safe c0 (rd buf i \<bind> f)"
  by (simp add: rd_def)

lemma header_plen_bound:
  assumes "4 \<le> length buf"
  shows "\<exists>p. header_plen buf = Some p \<and> 0 \<le> p \<and> p \<le> int (length buf)"
proof -
  have "uint (of_nat (length buf) :: u16) \<le> int (length buf)"
    by (simp add: unsigned_of_nat of_nat_take_bit take_bit_int_less_eq_self_iff)
  then show ?thesis
    using assms by (auto simp: header_plen_def rd16_def rd_def)
qed

lemma safe_plen:
  assumes "4 \<le> length buf" "\<And>p. 0 \<le> p \<Longrightarrow> p \<le> int (length buf) \<Longrightarrow> safe c0 (f p)"
  shows "safe c0 (header_plen buf \<bind> f)"
  using header_plen_bound [OF assms(1)] assms(2) by auto

lemma safe_with_code:
  assumes "0 \<le> p" "p \<le> int (length buf)" "\<And>c. length c = nat p \<Longrightarrow> safe c0 (f c)"
  shows "safe c0 (with_code buf p code \<bind> f)"
  using assms by (auto simp: with_code_def rd_n_def)

lemma safe_confreq [wf_intros]:
  "ok_from c0 c \<Longrightarrow> safe c0 (send_lcp_confreq env c)"
  "ok_from c0 c \<Longrightarrow> safe c0 (send_ipcp_confreq env c)"
  "ok_from c0 c \<Longrightarrow> safe c0 (send_ccp_confreq env c)"
  by (simp_all add: send_lcp_confreq_def send_ipcp_confreq_def send_ccp_confreq_def Let_def safe_send_frame)

lemma safe_ccp_finished [wf_intros]: "ok_from c0 c \<Longrightarrow> safe c0 (ccp_finished env c)"
  by (auto simp: ccp_finished_def Let_def intro!: wf_intros)

lemma safe_handle_lcp [wf_intros]: "ok_from c0 c \<Longrightarrow> safe c0 (handle_lcp env buf c)"
  unfolding handle_lcp_def
  by (intro wf_intros safe_rd safe_plen safe_with_code)
    (auto intro!: wf_intros simp: wr_n_def)

lemma safe_handle_chap [wf_intros]: "ok_from c0 c \<Longrightarrow> safe c0 (handle_chap env buf c)"
proof -
  assume wf: "ok_from c0 c"
  have ch: "safe c0 (rd_n buf 5 16 \<bind> f)" if "21 \<le> length buf" "\<And>b. safe c0 (f b)" for f :: "bytes \<Rightarrow> _"
    using that by (simp add: rd_n_def)
  show ?thesis
    unfolding handle_chap_def Let_def
    by (intro wf_intros safe_rd ch) (use wf in \<open>auto intro!: wf_intros simp: word_less_nat_alt\<close>)
qed

lemma opt_loop_safe:
  assumes upd: "\<And>ty olen pos c. ok_from c0 c \<Longrightarrow> 4 \<le> pos \<Longrightarrow> pos + uint olen \<le> plen \<Longrightarrow> safe c0 (upd ty olen pos c)"
    and plen: "plen \<le> int (length buf)"
  shows "4 \<le> pos \<Longrightarrow> ok_from c0 c \<Longrightarrow> safe c0 (opt_loop upd buf plen pos c)"
proof (induction "nat (plen - pos)" arbitrary: pos c rule: less_induct)
  case less
  show ?case
  proof (cases "pos + 2 \<le> plen")
    case False
    then show ?thesis using less.prems by (simp add: opt_loop.simps [of upd buf plen pos] safe_Some)
  next
    case True
    then obtain ty olen where r: "rd buf pos = Some ty" "rd buf (pos + 1) = Some olen"
      using plen less.prems(1) by (auto simp: rd_def)
    show ?thesis
    proof (cases "olen < 2 \<or> plen < pos + uint olen")
      case stop: True
      then show ?thesis using True r less.prems(2)
        by (simp add: opt_loop.simps [of upd buf plen pos] safe_Some)
    next
      case False
      then have ge: "2 \<le> uint olen" by (simp add: word_less_def)
      have "safe c0 (upd ty olen pos c \<bind> (\<lambda>c. opt_loop upd buf plen (pos + uint olen) c))"
      proof (rule safe_bind)
        show "safe c0 (upd ty olen pos c)" using upd less.prems False by simp
        show "safe c0 (opt_loop upd buf plen (pos + uint olen) c')" if "ok_from c0 c'" for c'
          using that ge True less.prems(1) by (intro less.hyps) auto
      qed
      then show ?thesis using True r False by (simp add: opt_loop.simps [of upd buf plen pos])
    qed
  qed
qed

lemma rd32_defined: "0 \<le> i \<Longrightarrow> i + 4 \<le> int (length buf) \<Longrightarrow> \<exists>v. rd32 buf i = Some v"
  by (simp add: rd32_def rd_def)

lemma safe_rd32: "0 \<le> i \<Longrightarrow> i + 4 \<le> int (length buf) \<Longrightarrow> (\<And>v. safe c0 (f v)) \<Longrightarrow> safe c0 (rd32 buf i \<bind> f)"
  using rd32_defined [of i buf] by auto

lemma safe_opts:
  assumes "ok_from c0 c" "plen \<le> int (length buf)"
  shows "safe c0 (opt_loop (peer_opt buf) buf plen 4 c)" "safe c0 (opt_loop (local_opt buf) buf plen 4 c)"
  using assms
  by (auto intro!: opt_loop_safe safe_rd32 wf_intros simp: peer_opt_def local_opt_def)

lemma safe_handle_ipcp [wf_intros]: "ok_from c0 c \<Longrightarrow> safe c0 (handle_ipcp env buf c)"
  unfolding handle_ipcp_def
  by (intro wf_intros safe_rd safe_plen safe_with_code safe_opts) (auto intro!: wf_intros)

lemma safe_handle_ccp [wf_intros]: "ok_from c0 c \<Longrightarrow> env_ok env \<Longrightarrow> safe c0 (handle_ccp env buf c)"
  unfolding handle_ccp_def
  by (intro wf_intros safe_rd safe_plen safe_with_code) (auto intro!: wf_intros)

lemma hdr_bits: "un16 (b0 AND 0x0f) b1 AND 0x0fff = un16 (b0 AND 0x0f) b1"
proof (rule bit_word_eqI)
  fix n assume n: "n < LENGTH(16)"
  have m: "(0x0fff :: u16) = mask 12" "(0x0f :: u8) = mask 4" by (simp_all add: mask_eq_exp_minus_1)
  show "bit (un16 (b0 AND 0x0f) b1 AND 0x0fff) n = bit (un16 (b0 AND 0x0f) b1) n"
    using bit_imp_le_length [of b1 n] unfolding m un16_def by (auto simp: bit_simps)
qed

lemma hdr_ccount_less: "un16 (b0 AND 0x0f) b1 < 4096"
  using masked_less [of "un16 (b0 AND 0x0f) b1"] by (simp only: hdr_bits)

lemma hdr_ccount_roundtrip:
  assumes "cc < 4096"
  shows "un16 ((0x90 OR ucast (drop_bit 8 cc AND 0x0f)) AND 0x0f) (ucast (cc AND 0xff)) = cc"
proof (rule bit_word_eqI)
  fix n assume n: "n < LENGTH(16)"
  have m: "(0xff :: u16) = mask 8" "(0x0f :: u16) = mask 4" "(0x0f :: u8) = mask 4"
    by (simp_all add: mask_eq_exp_minus_1)
  have "uint (take_bit 12 cc) = uint cc"
    using assms by (simp only: unsigned_take_bit_eq) (simp add: take_bit_eq_mod word_less_def)
  then have "take_bit 12 cc = cc" by (simp only: word_uint_eq_iff)
  then have top: "bit cc k \<Longrightarrow> k < 12" for k by (metis bit_take_bit_iff)
  have z: "\<not> bit (0x90 :: u8) k" if "k < 4" for k
    using that by (auto simp: numeral_eq_Suc less_Suc_eq bit_Suc)
  have "n < 8 \<or> 8 \<le> n" by linarith
  then show "bit (un16 ((0x90 OR ucast (drop_bit 8 cc AND 0x0f)) AND 0x0f) (ucast (cc AND 0xff))) n = bit cc n"
    using top [of n] z [of "n - 8"] n unfolding m un16_def by (auto simp: bit_simps)
qed

lemma rekeys_send:
  assumes "r < 4096" "c < 4096" "rekeys r c < 4095"
  shows "rekeys r ((c + 1) AND 0x0fff) = Suc (rekeys r c)"
proof -
  have "((uint c + 1) mod 4096 - uint r) mod 4096 = ((uint c - uint r) + 1) mod 4096"
    by (simp add: mod_simps diff_add_eq)
  also have "\<dots> = ((uint c - uint r) mod 4096 + 1) mod 4096" by (simp add: mod_add_left_eq)
  also have "\<dots> = (uint c - uint r) mod 4096 + 1"
    using assms(3) by (simp add: rekeys_def nat_less_iff)
  finally show ?thesis
    by (simp add: rekeys_def uint_next [OF assms(2)] nat_add_distrib)
qed

lemma send_ip_mppe:
  assumes "mppe_enabled a" "0 < length ip" "length ip \<le> 1396" "env_ok env"
  shows "\<exists>st a'. sstp_pppd_send_ip env ip a = Some (st, a')
    \<and> st = (if item_ok env (n_items a) \<and> buff_ok env (n_items a) then SSTP_OKAY else SSTP_FAIL)
    \<and> queued a' = queued a @ (if st = SSTP_OKAY then [data_pkt (mppe_frame env ip a)] else [])
    \<and> mppe_send_ccount a' = (mppe_send_ccount a + 1) AND 0x0fff
    \<and> mppe_session_send a' = next_key (crypto env) (mppe_master_send a) (mppe_session_send a)
    \<and> mppe_master_send a' = mppe_master_send a \<and> mppe_enabled a' = mppe_enabled a"
proof -
  define session where "session = next_key (crypto env) (mppe_master_send a) (mppe_session_send a)"
  define cipher where "cipher = RC4 (crypto env) (RC4_set_key (crypto env) session) (be16 PPP_PROTO_IP @ ip)"
  define cc where "cc = (mppe_send_ccount a + 1) AND 0x0fff"
  define c where "c = a\<lparr>mppe_send_ccount := cc, mppe_session_send := session, rc4_send := snd cipher\<rparr>"
  define body where "body = [0x90 OR ucast (drop_bit 8 cc AND 0x0f), ucast (cc AND 0xff)] @ fst cipher"
  have lb: "length body \<le> 1400"
    using assms(3,4) by (simp add: body_def cipher_def env_ok_def rc4_streamD)
  have r: "mppe_rekey (crypto env) (mppe_master_send a) (mppe_session_send a) False
      = (session, RC4_set_key (crypto env) session)"
    by (simp add: session_def next_key_def mppe_rekey_def Let_def)
  have e: "sstp_pppd_send_ip env ip a = ppp_send_frame env PPP_PROTO_MPPE body c"
    using assms(1-3)
    by (simp add: sstp_pppd_send_ip_def ppp_send_ip_plain_or_mppe_def Let_def r cipher_def [symmetric]
        cc_def [symmetric] split_beta body_def c_def)
  have f: "[0xFF, 0x03] @ be16 PPP_PROTO_MPPE @ body = mppe_frame env ip a"
    by (simp add: mppe_frame_def Let_def body_def cipher_def session_def cc_def)
  have q: "queued c = queued a" "n_items c = n_items a" by (simp_all add: c_def queued_def)
  obtain st a' where r: "ppp_send_frame env PPP_PROTO_MPPE body c = Some (st, a')" "quiet c a'"
    "st = (if length body \<le> 1400 \<and> item_ok env (n_items c) \<and> buff_ok env (n_items c) then SSTP_OKAY else SSTP_FAIL)"
    "queued a' = queued c @ (if st = SSTP_OKAY then [data_pkt ([0xFF, 0x03] @ be16 PPP_PROTO_MPPE @ body)] else [])"
    using ppp_send_frame_spec [of env PPP_PROTO_MPPE body c] by blast
  have k: "core a' = core c" using r(2) by (simp add: quiet_def)
  show ?thesis
    by (rule exI [of _ st], rule exI [of _ a'])
      (simp only: e r(1,4) f q core_eqD [OF k] lb simp_thms r(3), simp add: c_def cc_def session_def)
qed

lemma recv_mppe:
  assumes en: "mppe_enabled b" "ip_handler_set b" and wf: "mppe_recv_ccount b < 4096"
    and cc: "cc < 4096" "0 < rekeys (mppe_recv_ccount b) cc" and ok: "env_ok env"
    and ip: "0 < length ip" "length ip \<le> 1396"
    and key: "session = (next_key (crypto env) (mppe_master_recv b)
        ^^ rekeys (mppe_recv_ccount b) cc) (mppe_session_recv b)"
    and buf: "buf = [0x90 OR ucast (drop_bit 8 cc AND 0x0f), ucast (cc AND 0xff)]
        @ fst (RC4 (crypto env) (RC4_set_key (crypto env) session) (be16 PPP_PROTO_IP @ ip))"
  shows "\<exists>b'. handle_mppe env buf b = Some b' \<and> delivered (trace b') = delivered (trace b) @ [ip]
    \<and> mppe_recv_ccount b' = cc \<and> mppe_session_recv b' = session \<and> mppe_master_recv b' = mppe_master_recv b
    \<and> mppe_enabled b' = mppe_enabled b \<and> ip_handler_set b' = ip_handler_set b"
proof -
  let ?n = "rekeys (mppe_recv_ccount b) cc"
  define b1 where "b1 = (recv_rekey env ^^ ?n) b"
  have cu: "mppe_catch_up env cc b = Some b1" "mppe_recv_ccount b1 = cc"
    using mppe_catch_up_pow [OF wf cc(1) refl, of env] by (simp_all add: b1_def)
  obtain k c where b1: "b1 = b\<lparr>mppe_session_recv := session, rc4_recv := k, mppe_recv_ccount := c\<rparr>"
    and k: "k = RC4_set_key (crypto env) session"
    using recv_rekey_pow [where env = env and n = ?n and ctx = b] cc(2) key by (auto simp: b1_def)
  have c: "c = cc" using cu(2) by (simp add: b1)
  let ?k = "RC4_set_key (crypto env) session" and ?plain = "be16 (0x21 :: u16) @ ip"
  define cipher where "cipher = fst (RC4 (crypto env) ?k ?plain)"
  have len: "length cipher = length ip + 2"
    and dec: "fst (RC4 (crypto env) ?k cipher) = ?plain"
    using ok rc4_streamD [of "crypto env" ?k ?plain] by (simp_all add: env_ok_def cipher_def)
  have be: "be16 (0x21 :: u16) = [0, 0x21]" by (simp add: be16_def)
  have b: "buf = (0x90 OR ucast (drop_bit 8 cc AND 0x0f)) # ucast (cc AND 0xff) # cipher"
    by (simp add: buf cipher_def)
  have h: "push_bit 8 (ucast ((0x90 OR ucast (drop_bit 8 cc AND 0x0f)) AND 0x0f :: u8)) OR ucast (ucast (cc AND 0xff) :: u8) = cc"
    using hdr_ccount_roundtrip [OF cc(1)] by (simp only: un16_def)
  show ?thesis
    using en cu ip len dec
    by (simp add: handle_mppe_def b rd_def h Let_def b1 k c split_beta be split_proto_def rd16_def
        un16_def act_def)
qed

lemma dispatch_mppe_frame:
  "ppp_dispatch env (mppe_frame env' ip a) b = handle_mppe env (drop 4 (mppe_frame env' ip a)) b"
  by (simp add: ppp_dispatch_def mppe_frame_def Let_def be16_def rd_def split_proto_def rd16_def un16_def)

lemma drop_mppe_frame:
  "drop 4 (mppe_frame env ip a) =
     [0x90 OR ucast (drop_bit 8 ((mppe_send_ccount a + 1) AND 0x0fff) AND 0x0f),
      ucast (((mppe_send_ccount a + 1) AND 0x0fff) AND 0xff)]
     @ fst (RC4 (crypto env) (RC4_set_key (crypto env)
         (next_key (crypto env) (mppe_master_send a) (mppe_session_send a))) (be16 PPP_PROTO_IP @ ip))"
  by (simp add: mppe_frame_def Let_def be16_def)

text \<open>Both ends are in step when CCP has completed on both.\<close>

lemma mppe_init_in_sync:
  assumes "mppe_keys_set a" "mppe_keys_set b" "mppe_master_send a = mppe_master_recv b"
  shows "in_sync env (mppe_init_keys env a) (mppe_init_keys env b)"
  using assms rekeys_0 [of "0xfff" "0xfff"]
  by (simp add: in_sync_def mppe_init_keys_def split_beta)

text \<open>Safety of the remaining operations.\<close>

lemma wf_recv_rekey:
  assumes "ok_from c0 ctx" "env_ok env"
  shows "ok_from c0 (recv_rekey env ctx)"
proof -
  have "length (next_key (crypto env) m s) = 16" for m s
    using assms(2) by (simp add: env_ok_def next_key_def mppe_rekey_length)
  then show ?thesis using assms(1) masked_less
    by (simp add: ok_from_def queued_def wf_pppd_def tx_ok_def recv_rekey_eq)
qed

lemma safe_catch_up:
  assumes "ok_from c0 ctx" "env_ok env" "c < 4096"
  shows "safe c0 (mppe_catch_up env c ctx)"
proof -
  have "ok_from c0 ((recv_rekey env ^^ n) ctx)" for n
    by (induction n) (simp_all add: assms wf_recv_rekey)
  moreover have lt: "mppe_recv_ccount ctx < 4096" using assms(1) by (simp add: ok_from_def queued_def wf_pppd_def)
  ultimately show ?thesis
    using mppe_catch_up_pow [OF lt assms(3) refl, of env] by (simp add: safe_def)
qed

lemma safe_split_proto:
  assumes "length p \<noteq> 0" "p ! 0 AND 0x01 = 0 \<Longrightarrow> 2 \<le> length p" "\<And>x. safe c0 (f x)"
  shows "safe c0 (split_proto p \<bind> f)"
  using assms by (auto simp: split_proto_def rd_def rd16_def)

lemma safe_handle_mppe [wf_intros]:
  assumes "ok_from c0 c" "env_ok env" "length buf \<le> 1418"
  shows "safe c0 (handle_mppe env buf c)"
proof (cases "length buf < 3 \<or> \<not> mppe_enabled c")
  case True
  then show ?thesis using assms(1) by (simp add: handle_mppe_def safe_Some)
next
  case False
  then obtain b0 b1 rest where b: "buf = b0 # b1 # rest" "rest \<noteq> []"
    by (cases buf; cases "tl buf"; cases "tl (tl buf)") auto
  have "push_bit 8 (ucast (b0 AND 0x0f)) OR ucast b1 < (4096 :: u16)"
    using hdr_ccount_less [of b0 b1] by (simp only: un16_def)
  then have cu: "safe c0 (mppe_catch_up env (push_bit 8 (ucast (b0 AND 0x0f)) OR ucast b1) c)"
    by (rule safe_catch_up [OF assms(1,2)])
  have body: "safe c0 (let (p, key) = RC4 (crypto env) (rc4_recv c1) rest; ctx = c1\<lparr>rc4_recv := key\<rparr> in do {
      b \<leftarrow> rd p 0;
      if b AND 0x01 = 0 \<and> length p < 2 then Some ctx
      else do {
        (proto, p) \<leftarrow> split_proto p;
        Some (if proto = PPP_PROTO_IP \<and> ip_handler_set ctx \<and> p \<noteq> []
              then (act (DeliverIp p) ctx)\<lparr>recv_bytes := recv_bytes ctx + of_nat (length p)\<rparr>
              else ctx) } })" if "ok_from c0 c1" for c1
  proof -
    define p where "p = fst (RC4 (crypto env) (rc4_recv c1) rest)"
    have "length p = length rest" using assms(2) by (simp add: env_ok_def rc4_streamD p_def)
    then have p: "p \<noteq> []" "rd p 0 = Some (p ! 0)" using b(2) by (auto simp: rd_def)
    show ?thesis
      using that p
      by (auto simp: split_beta Let_def p_def [symmetric] not_less
          intro!: safe_if safe_Some safe_split_proto wf_monotone)
  qed
  show ?thesis
    using False assms(3) safe_bind [OF cu body] by (simp add: handle_mppe_def b(1) rd_def)
qed

lemma split_proto_eq:
  assumes "2 \<le> length p"
  shows "\<exists>proto. split_proto p = Some (proto, drop (if p ! 0 AND 0x01 \<noteq> 0 then 1 else 2) p)"
  using assms by (auto simp: split_proto_def rd_def rd16_def)

lemma safe_dispatch [wf_intros]:
  assumes "ok_from c0 c" "env_ok env" "length f \<le> 1419"
  shows "safe c0 (ppp_dispatch env f c)"
proof (cases "length f < 3")
  case True
  then show ?thesis using assms(1) by (simp add: ppp_dispatch_def safe_Some)
next
  case False
  define p where "p = (if f ! 0 = 0xFF \<and> f ! Suc 0 = 0x03 then drop 2 f else f)"
  have f: "f \<noteq> []" using False by auto
  have lp: "length p \<le> 1419" using assms(3) by (auto simp: p_def)
  show ?thesis
  proof (cases "length p < 2")
    case True
    then show ?thesis using False assms(1) f
      by (simp add: ppp_dispatch_def rd_def safe_Some Let_def p_def [symmetric])
  next
    case long: False
    then obtain proto n where sp: "split_proto p = Some (proto, drop n p)" "0 < n"
      using split_proto_eq [of p] by (auto split: if_splits)
    have "safe c0 (if proto = PPP_PROTO_LCP then handle_lcp env (drop n p) c
          else if proto = PPP_PROTO_CHAP then handle_chap env (drop n p) c
          else if proto = PPP_PROTO_IPCP then handle_ipcp env (drop n p) c
          else if proto = PPP_PROTO_CCP then handle_ccp env (drop n p) c
          else if proto = PPP_PROTO_MPPE then handle_mppe env (drop n p) c
          else if proto = PPP_PROTO_IP then
            (let ctx = (if ip_handler_set c then act (DeliverIp (drop n p)) c else c) in
             Some (ctx\<lparr>recv_bytes := recv_bytes ctx + of_nat (length (drop n p))\<rparr>))
          else Some c)"
      using assms(1,2) lp sp(2)
      by (intro safe_if safe_handle_lcp safe_handle_chap safe_handle_ipcp safe_handle_ccp safe_handle_mppe safe_Some)
        (auto simp: Let_def intro!: safe_Some wf_monotone)
    then show ?thesis
      using False long sp f by (simp add: ppp_dispatch_def rd_def Let_def p_def [symmetric])
  qed
qed

lemma safe_ppp_send_frame: "ok_from c0 d \<Longrightarrow> safe c0 (map_option snd (ppp_send_frame env proto payload d))"
  using safe_send_frame [of c0 d env proto payload] by (simp add: send_frame_def)

lemma quiet_flush: "quiet c (ppp_flush_start env c)"
  using flush_start_keeps [of env c] by (auto simp: quiet_def)

lemma safe_send_ip:
  assumes "ok_from c0 c" "env_ok env"
  shows "safe c0 (map_option snd (sstp_pppd_send_ip env ip c))"
proof -
  define r where "r = mppe_rekey (crypto env) (mppe_master_send c) (mppe_session_send c) False"
  define cc where "cc = (mppe_send_ccount c + 1) AND 0x0fff"
  define q where "q = RC4 (crypto env) (snd r) (be16 PPP_PROTO_IP @ ip)"
  define c' where "c' = c\<lparr>mppe_send_ccount := cc, mppe_session_send := fst r, rc4_send := snd q\<rparr>"
  have "length (fst r) = 16" using assms(2) by (simp add: env_ok_def mppe_rekey_length r_def)
  then have wf: "ok_from c0 c'" using assms(1) masked_less by (simp add: c'_def cc_def ok_from_def queued_def wf_pppd_def tx_ok_def)
  show ?thesis
  proof (cases "mppe_enabled c \<and> 0 < length ip \<and> length ip \<le> 1396")
    case True
    then have "sstp_pppd_send_ip env ip c = ppp_send_frame env PPP_PROTO_MPPE
        ([0x90 OR ucast (drop_bit 8 cc AND 0x0f), ucast (cc AND 0xff)] @ fst q) c'"
      by (simp add: sstp_pppd_send_ip_def ppp_send_ip_plain_or_mppe_def Let_def r_def [symmetric]
          cc_def [symmetric] q_def [symmetric] c'_def split_beta)
    then show ?thesis using safe_ppp_send_frame [OF wf] by simp
  next
    case False
    then show ?thesis
      using assms(1) safe_ppp_send_frame [OF assms(1), of env PPP_PROTO_IP ip]
      by (auto simp: sstp_pppd_send_ip_def ppp_send_ip_plain_or_mppe_def safe_Some)
  qed
qed

lemma ppp_step_safe:
  assumes wf: "ok_from c0 ctx" and env: "env_ok env" and may: "ppp_may i"
  shows "safe c0 (ppp_step env i ctx)"
proof (cases i)
  case (PppStart now u w)
  define c where "c = (ctx\<lparr>username := (case u of None \<Rightarrow> username ctx | Some x \<Rightarrow> take 255 x),
      password := (case w of None \<Rightarrow> password ctx | Some x \<Rightarrow> take 255 x), t_start := now, started := True\<rparr>)"
  have "ok_from c0 c" using wf by (simp add: c_def)
  then have "safe c0 (send_lcp_confreq env (notify SSTP_PPP_START c))" by (intro wf_intros) simp_all
  moreover have "sstp_pppd_start env now u w ctx = send_lcp_confreq env (notify SSTP_PPP_START c) \<bind> (\<lambda>c. Some (SSTP_OKAY, c))"
    by (simp add: sstp_pppd_start_def Let_def c_def split: option.splits)
  ultimately show ?thesis by (auto simp: PppStart safe_def)
next
  case (PppFrame f)
  then show ?thesis using safe_dispatch [OF wf env, of f] may wf
    by (auto simp: ppp_may_def sstp_pppd_send_def safe_def)
next
  case (PppSendIp ip)
  then show ?thesis using safe_send_ip [OF wf env] by simp
next
  case PppSendComplete
  have "tx_ok (ctx\<lparr>tx_inflight := None, tx_busy := False\<rparr>)" by simp
  then have "ok_from c0 (ctx\<lparr>tx_inflight := None, tx_busy := False\<rparr>)"
    using wf by (simp add: ok_from_def queued_def wf_pppd_def)
  then have "ok_from c0 (ppp_send_complete env ctx)"
    unfolding ppp_send_complete_def by (rule ok_from_quiet [OF quiet_flush])
  then show ?thesis by (simp add: PppSendComplete safe_Some)
next
  case (PppSetKeys s r)
  then show ?thesis using wf may
    by (auto simp: safe_def ppp_may_def sstp_pppd_set_mppe_keys_def ok_from_def queued_def wf_pppd_def tx_ok_def)
next
  case (PppSetHandler h)
  then show ?thesis using wf by (simp add: safe_def sstp_pppd_set_ip_handler_def)
next
  case (PppStop now)
  then show ?thesis using wf by (simp add: safe_def sstp_pppd_stop_def)
qed

lemma ok_from_refl: "wf_pppd c \<Longrightarrow> ok_from c c"
  by (simp add: ok_from_def)

interpretation ppp: guarded_machine "ppp_step env" "\<lambda>ctx. env_ok env \<and> ok_from c0 ctx" ppp_may
  for env :: "('k, 'e) ppp_env_scheme" and c0 :: "('k, 'z) sstp_pppd_scheme"
proof
  fix s :: "('k, 'z) sstp_pppd_scheme" and i
  assume "env_ok env \<and> ok_from c0 s" "ppp_may i"
  then show "\<exists>s'. ppp_step env i s = Some s' \<and> env_ok env \<and> ok_from c0 s'"
    using ppp_step_safe [of c0 s env i] by (auto simp: safe_def)
qed

lemma wf_create: "sstp_pppd_create True s n m k1 k2 = (SSTP_OKAY, Some c0) \<Longrightarrow> wf_pppd c0 \<and> trace c0 = []"
  by (auto simp: sstp_pppd_create_def wf_pppd_def tx_ok_def)

lemma signals_up:
  "wf_pppd ctx \<Longrightarrow> count_list (signals (trace ctx)) SSTP_PPP_UP \<le> 1
    \<and> (SSTP_PPP_UP \<in> set (signals (trace ctx)) \<longrightarrow> ip_configured ctx \<and> ccp_done ctx)"
  using count_list_0_iff [of "signals (trace ctx)" SSTP_PPP_UP]
  by (auto simp: wf_pppd_def split: if_splits)

section \<open>An environment for the witnesses\<close>

definition demo_env :: "u8 ppp_env" where
  "demo_env = \<lparr>crypto = demo_ssl, stream_ret = (\<lambda>_. SSTP_OKAY), item_ok = (\<lambda>_. True),
     buff_ok = (\<lambda>_. True), rand16 = (\<lambda>_. replicate 16 9)\<rparr>"

definition demo_ctx :: "u8 sstp_pppd" where
  "demo_ctx = the (snd (sstp_pppd_create True True True 7 0 0))"

lemma demo_env_ok: "env_ok demo_env"
  by (simp add: env_ok_def demo_env_def demo_digest_lengths demo_rc4_stream)

lemma demo_ctx_create: "sstp_pppd_create True True True 7 0 0 = (SSTP_OKAY, Some demo_ctx)"
  by (simp add: demo_ctx_def sstp_pppd_create_def)

lemma wf_demo: "wf_pppd demo_ctx"
  using wf_create [OF demo_ctx_create] by blast

lemma flush_drains:
  assumes "\<forall>n. stream_ret env n = SSTP_OKAY" "stream_set ctx" "\<not> tx_busy ctx"
  shows "tx_queue (ppp_flush_start env ctx) = [] \<and> \<not> tx_busy (ppp_flush_start env ctx)"
  using assms(2,3)
proof (induction "length (tx_queue ctx)" arbitrary: ctx rule: less_induct)
  case less
  show ?case
  proof (cases "tx_queue ctx")
    case Nil
    then show ?thesis using less.prems by (simp add: ppp_flush_start.simps)
  next
    case (Cons item rest)
    let ?c = "(act (StreamSend item) (ctx\<lparr>tx_queue := rest, tx_inflight := Some item, tx_busy := True,
        n_sends := n_sends ctx + 1\<rparr>))\<lparr>tx_inflight := None, tx_busy := False\<rparr>"
    have e: "ppp_flush_start env ctx = ppp_flush_start env ?c"
      using less.prems Cons assms(1) by (simp add: ppp_flush_start.simps [of env ctx] stream_send_def)
    show ?thesis unfolding e
      by (rule less.hyps) (use Cons less.prems in \<open>simp_all add: act_def\<close>)
  qed
qed

section \<open>Properties\<close>

text \<open>C9. MPPE delivers through packet loss: when the two ends are in step and fewer than 4095
  packets were lost, sending an IP packet of 1 to 1396 bytes queues one data packet; whether it
  arrives or is lost the ends stay in step, and if it arrives the receiver's IP handler gets
  exactly that IP packet.\<close>

theorem mppe_roundtrip:
  assumes env: "env_ok env" "item_ok env (n_items a)" "buff_ok env (n_items a)"
    and a: "mppe_enabled a" and b: "mppe_enabled b" "ip_handler_set b"
    and sync: "in_sync env a b" "rekeys (mppe_recv_ccount b) (mppe_send_ccount a) < 4095"
    and ip: "0 < length ip" "length ip \<le> 1396"
  shows "\<exists>frame a' b'. sstp_pppd_send_ip env ip a = Some (SSTP_OKAY, a')
    \<and> queued a' = queued a @ [data_pkt frame]
    \<and> in_sync env a' b
    \<and> sstp_pppd_send env frame b = Some (SSTP_OKAY, b')
    \<and> delivered (trace b') = delivered (trace b) @ [ip]
    \<and> in_sync env a' b' \<and> rekeys (mppe_recv_ccount b') (mppe_send_ccount a') = 0"
proof -
  let ?cc = "(mppe_send_ccount a + 1) AND 0x0fff"
  let ?s = "next_key (crypto env) (mppe_master_send a) (mppe_session_send a)"
  obtain a' where a': "sstp_pppd_send_ip env ip a = Some (SSTP_OKAY, a')"
    "queued a' = queued a @ [data_pkt (mppe_frame env ip a)]"
    "mppe_send_ccount a' = ?cc" "mppe_session_send a' = ?s" "mppe_master_send a' = mppe_master_send a"
    using send_ip_mppe [OF a ip env(1)] env(2,3) by auto
  have r: "rekeys (mppe_recv_ccount b) ?cc = Suc (rekeys (mppe_recv_ccount b) (mppe_send_ccount a))"
    using sync by (intro rekeys_send) (simp_all add: in_sync_def)
  have key: "?s = (next_key (crypto env) (mppe_master_recv b) ^^ rekeys (mppe_recv_ccount b) ?cc) (mppe_session_recv b)"
    using sync(1) by (simp add: r in_sync_def)
  have lost: "in_sync env a' b"
    using sync(1) key by (simp add: in_sync_def a' masked_less)
  have "mppe_recv_ccount b < 4096" using sync(1) by (simp add: in_sync_def)
  then obtain b' where b': "handle_mppe env (drop 4 (mppe_frame env ip a)) b = Some b'"
    "delivered (trace b') = delivered (trace b) @ [ip]" "mppe_recv_ccount b' = ?cc"
    "mppe_session_recv b' = ?s" "mppe_master_recv b' = mppe_master_recv b"
    using recv_mppe [OF b _ masked_less [of "mppe_send_ccount a + 1"] _ env(1) ip key drop_mppe_frame] r by auto
  have z: "rekeys ?cc ?cc = 0" using rekeys_0 masked_less by blast
  have "mppe_frame env ip a \<noteq> []" by (simp add: mppe_frame_def Let_def)
  then have d: "sstp_pppd_send env (mppe_frame env ip a) b = Some (SSTP_OKAY, b')"
    using b'(1) by (simp add: sstp_pppd_send_def dispatch_mppe_frame)
  have s: "in_sync env a' b'"
    using sync(1) by (simp add: in_sync_def a' b' z masked_less)
  have zz: "rekeys (mppe_recv_ccount b') (mppe_send_ccount a') = 0" by (simp only: a' b' z)
  show ?thesis
    by (rule exI [of _ "mppe_frame env ip a"], rule exI [of _ a'], rule exI [of _ b'])
      (intro conjI a'(1,2) lost d b'(2) s zz)
qed

lemma mppe_roundtrip_witness:
  "\<exists>frame a' b'. sstp_pppd_send_ip demo_env [0x45, 1] (mppe_init_keys demo_env (demo_ctx\<lparr>mppe_keys_set := True\<rparr>))
      = Some (SSTP_OKAY, a')
    \<and> sstp_pppd_send demo_env frame (mppe_init_keys demo_env (demo_ctx\<lparr>mppe_keys_set := True, ip_handler_set := True\<rparr>))
      = Some (SSTP_OKAY, b')
    \<and> delivered (trace b') = [[0x45, 1]]"
proof -
  let ?a = "demo_ctx\<lparr>mppe_keys_set := True\<rparr>" and ?b = "demo_ctx\<lparr>mppe_keys_set := True, ip_handler_set := True\<rparr>"
  have s: "in_sync demo_env (mppe_init_keys demo_env ?a) (mppe_init_keys demo_env ?b)"
    by (rule mppe_init_in_sync) (simp_all add: demo_ctx_def sstp_pppd_create_def)
  have r: "rekeys 0xfff 0xfff = 0" using rekeys_0 by simp
  have e: "item_ok demo_env n" "buff_ok demo_env n" for n by (simp_all add: demo_env_def)
  show ?thesis
    using mppe_roundtrip [OF demo_env_ok e(1) e(2) _ _ _ s, of "[0x45, 1]"] r
    by (auto simp: mppe_init_keys_def split_beta demo_ctx_def sstp_pppd_create_def)
qed

text \<open>C1. A PPP context never commits a memory error and signals the link up at most once: from
  its creation, whatever frames of at most 1419 bytes, IP packets, completions, keys and other
  calls follow, every operation returns, the invariant holds, \<open>SSTP_PPP_UP\<close> is signalled at
  most once, and only when IPCP has configured an address and CCP is finished.\<close>

theorem ppp_run_safe:
  assumes "sstp_pppd_create True s n m k1 k2 = (SSTP_OKAY, Some c0)" "env_ok env" "list_all ppp_may is"
  shows "\<exists>ctx. run_steps (ppp_step env) is c0 = Some ctx \<and> wf_pppd ctx
    \<and> count_list (signals (trace ctx)) SSTP_PPP_UP \<le> 1
    \<and> (SSTP_PPP_UP \<in> set (signals (trace ctx)) \<longrightarrow> ip_configured ctx \<and> ccp_done ctx)"
proof -
  have "env_ok env \<and> ok_from c0 c0" using wf_create [OF assms(1)] assms(2) ok_from_refl by blast
  then obtain ctx where r: "run_steps (ppp_step env) is c0 = Some ctx" "ok_from c0 ctx"
    using ppp.run_safe [OF _ assms(3)] by blast
  then have "wf_pppd ctx" by (simp add: ok_from_def)
  then show ?thesis using r(1) signals_up by blast
qed

lemma ppp_run_safe_witness:
  "\<exists>ctx. run_steps (ppp_step demo_env)
     [PppStart 5 (Some [0x75]) (Some [0x70]), PppFrame [0xff, 3, 0xc0, 0x21, 2, 1, 0, 4], PppSendComplete]
     demo_ctx = Some ctx \<and> wf_pppd ctx"
  using ppp_run_safe [OF demo_ctx_create demo_env_ok, of
      "[PppStart 5 (Some [0x75]) (Some [0x70]), PppFrame [0xff, 3, 0xc0, 0x21, 2, 1, 0, 4], PppSendComplete]"]
  by (auto simp: ppp_may_def)

text \<open>C14. The send queue is first in, first out: whatever happens, the packets handed to the
  stream followed by those waiting only ever grow at the end, so no queued packet is lost from
  this sequence, duplicated or overtaken, and while the context is busy the packet in flight is
  the last one handed over.\<close>

theorem ppp_tx_fifo:
  assumes "wf_pppd c0" "env_ok env" "list_all ppp_may is" "run_steps (ppp_step env) is c0 = Some ctx"
  shows "\<exists>new. sends (trace ctx) @ tx_queue ctx = sends (trace c0) @ tx_queue c0 @ new
    \<and> (tx_busy ctx \<longrightarrow> tx_inflight ctx = Some (last (sends (trace ctx))))"
proof -
  have "env_ok env \<and> ok_from c0 c0" using assms(1,2) ok_from_refl by blast
  then have "ok_from c0 ctx" using ppp.run_inv [OF _ assms(3,4)] by blast
  then show ?thesis by (auto simp: ok_from_def queued_def wf_pppd_def tx_ok_def)
qed

lemma ppp_tx_fifo_witness:
  "\<exists>ctx new. run_steps (ppp_step demo_env) [PppStart 5 None None] demo_ctx = Some ctx
     \<and> sends (trace ctx) @ tx_queue ctx = sends (trace demo_ctx) @ tx_queue demo_ctx @ new"
proof -
  obtain ctx where r: "run_steps (ppp_step demo_env) [PppStart 5 None None] demo_ctx = Some ctx"
    using ppp_step_safe [OF ok_from_refl [OF wf_demo] demo_env_ok, of "PppStart 5 None None"]
    by (auto simp: safe_def ppp_may_def)
  show ?thesis
    using ppp_tx_fifo [OF wf_demo demo_env_ok _ r] r by (auto simp: ppp_may_def)
qed

text \<open>C15. One packet in flight at a time, and a completed write drains the queue: while the
  context is busy, sending a frame only appends to the queue and hands nothing to the stream;
  when the write completes and the stream then accepts everything, all queued packets have been
  handed over in order and the context is idle.\<close>

theorem ppp_tx_one_in_flight:
  assumes "wf_pppd ctx" "tx_busy ctx" "ppp_send_frame env proto payload ctx = Some (st, busy)"
    and "\<forall>n. stream_ret env n = SSTP_OKAY" "stream_set ctx"
  shows "trace busy = trace ctx
    \<and> tx_queue busy = tx_queue ctx
        @ (if st = SSTP_OKAY then [data_pkt ([0xFF, 0x03] @ be16 proto @ payload)] else [])
    \<and> sends (trace (ppp_send_complete env busy)) = sends (trace busy) @ tx_queue busy
    \<and> tx_queue (ppp_send_complete env busy) = [] \<and> \<not> tx_busy (ppp_send_complete env busy)"
proof -
  obtain c where c: "busy = c" "trace c = trace ctx" "quiet ctx c" "queued c = queued ctx
      @ (if st = SSTP_OKAY then [data_pkt ([0xFF, 0x03] @ be16 proto @ payload)] else [])"
  proof
    show "trace busy = trace ctx"
    proof (cases "length payload \<le> 1400")
      case True
      have "length ([0xFF, 0x03] @ be16 proto @ payload) \<le> 32000" using True by simp
      from data_packet_eq [OF this] show ?thesis
        using assms(2,3) True
        by (auto simp: ppp_send_frame_def ppp_enqueue_raw_def Let_def ppp_flush_start.simps split: if_splits)
    next
      case False
      then show ?thesis using assms(3) by (auto simp: ppp_send_frame_def)
    qed
    show "quiet ctx busy" "queued busy = queued ctx
      @ (if st = SSTP_OKAY then [data_pkt ([0xFF, 0x03] @ be16 proto @ payload)] else [])"
      using ppp_send_frame_spec [of env proto payload ctx] assms(3) by auto
  qed simp
  let ?i = "busy\<lparr>tx_inflight := None, tx_busy := False\<rparr>"
  have core: "core busy = core ctx" using c(1,3) by (simp add: quiet_def)
  have "stream_set ?i" "\<not> tx_busy ?i" using assms(5) core_eqD(1) [OF core] by simp_all
  then have d: "tx_queue (ppp_send_complete env busy) = []" "\<not> tx_busy (ppp_send_complete env busy)"
    using flush_drains [OF assms(4), of ?i] by (simp_all add: ppp_send_complete_def)
  have "queued (ppp_send_complete env busy) = queued busy"
    using flush_start_keeps [of env ?i] by (simp add: ppp_send_complete_def queued_def)
  then show ?thesis
    using c d by (simp add: queued_def)
qed

lemma ppp_tx_one_in_flight_witness:
  "sends (trace (ppp_send_complete demo_env (demo_ctx\<lparr>tx_busy := True, tx_inflight := Some [1],
     trace := [StreamSend [1]], tx_queue := [[2], [3]]\<rparr>))) = [[1], [2], [3]]"
proof -
  let ?c = "demo_ctx\<lparr>tx_busy := True, tx_inflight := Some [1], trace := [StreamSend [1]], tx_queue := [[2], [3]]\<rparr>"
  have "wf_pppd ?c" using wf_demo by (simp add: wf_pppd_def tx_ok_def demo_ctx_def sstp_pppd_create_def)
  moreover have "ppp_send_frame demo_env 1 (replicate 1401 0) ?c = Some (SSTP_FAIL, ?c)"
    by (simp add: ppp_send_frame_def)
  ultimately show ?thesis
    using ppp_tx_one_in_flight [of ?c demo_env 1 "replicate 1401 0" SSTP_FAIL ?c]
    by (simp add: demo_env_def demo_ctx_def sstp_pppd_create_def)
qed

text \<open>C38. The catch-up loop of \<open>handle_mppe\<close> terminates: from a counter and to a counter of 12
  bits it makes \<open>(ccount - mppe_recv_ccount) mod 4096\<close> key changes, fewer than 4096, and leaves
  the counter at \<open>ccount\<close>.\<close>

theorem mppe_catch_up_terminates:
  assumes "mppe_recv_ccount ctx < 4096" "c < 4096"
  shows "\<exists>n < 4096. int n = (uint c - uint (mppe_recv_ccount ctx)) mod 4096
    \<and> mppe_catch_up env c ctx = Some ((recv_rekey env ^^ n) ctx)
    \<and> mppe_recv_ccount ((recv_rekey env ^^ n) ctx) = c"
  using mppe_catch_up_pow [OF assms refl, of env] rekeys_less
  by (intro exI [of _ "rekeys (mppe_recv_ccount ctx) c"]) (simp add: rekeys_def)

lemma mppe_catch_up_terminates_witness:
  "\<exists>n < 4096. int n = 1 \<and> mppe_catch_up demo_env 0 (demo_ctx\<lparr>mppe_recv_ccount := 0xfff\<rparr>)
     = Some ((recv_rekey demo_env ^^ n) (demo_ctx\<lparr>mppe_recv_ccount := 0xfff\<rparr>))"
  using mppe_catch_up_terminates [of "demo_ctx\<lparr>mppe_recv_ccount := 0xfff\<rparr>" 0 demo_env] by auto

text \<open>The decrypted payload is not checked against the size of the stack array: with MPPE
  enabled, an MPPE frame with more than 1418 bytes after its protocol field (1416 after the
  coherency count) is a memory error, whatever its counter is.\<close>

theorem handle_mppe_overflow:
  assumes "mppe_enabled ctx" "mppe_recv_ccount ctx < 4096" "1418 < length body"
  shows "sstp_pppd_send env ([0xFF, 0x03, 0x00, 0x3d] @ body) ctx = None"
proof -
  obtain b0 b1 rest where b: "body = b0 # b1 # rest" "1416 < length rest"
    using assms(3) by (cases body; cases "tl body") auto
  let ?c = "push_bit 8 (ucast (b0 AND 0x0f)) OR ucast b1 :: u16"
  have "?c < 4096" using hdr_ccount_less [of b0 b1] by (simp only: un16_def)
  then obtain ctx' where "mppe_catch_up env ?c ctx = Some ctx'"
    using mppe_catch_up_pow [OF assms(2) _ refl] by blast
  then have "handle_mppe env body ctx = None"
    using assms(1) b by (auto simp: handle_mppe_def rd_def Let_def)
  then show ?thesis
    by (simp add: sstp_pppd_send_def ppp_dispatch_def rd_def split_proto_def rd16_def un16_def)
qed

lemma handle_mppe_overflow_witness:
  "sstp_pppd_send demo_env ([0xFF, 0x03, 0x00, 0x3d] @ replicate 1419 0)
     (demo_ctx\<lparr>mppe_enabled := True\<rparr>) = None"
  by (rule handle_mppe_overflow) (simp_all add: demo_ctx_def sstp_pppd_create_def)

text \<open>The MS-CHAPv2 response: to a challenge with a value of at least 16 bytes the context
  queues one CHAP frame with the identifier of the challenge, a length field equal to its
  length (which fits the 256-byte array), the value size 49, the random peer challenge, eight
  zeros, the NT response to the first 16 bytes of the challenge, a zero, and the user name cut
  to 200 bytes; it records peer challenge and NT response and then signals \<open>SSTP_PPP_AUTH\<close>.\<close>

theorem handle_chap_response:
  assumes env: "env_ok env" "item_ok env (n_items ctx)" "buff_ok env (n_items ctx)"
    and buf: "buf = [1, ident, l1, l2, vsize] @ ch @ rest"
      "length ch = 16" "16 \<le> unat vsize" "unat vsize \<le> length ch + length rest"
    and n: "notify_set ctx"
  defines "pc \<equiv> rand16 env (n_rand ctx)"
  defines "ntr \<equiv> sstp_mschapv2_generate_nt_response (crypto env) ch pc (username ctx) (password ctx)"
  defines "resp \<equiv> [2, ident] @ be16 (of_nat (54 + min 200 (length (username ctx))))
      @ [49] @ pc @ replicate 8 0 @ ntr @ [0] @ take 200 (username ctx)"
  shows "\<exists>ctx'. handle_chap env buf ctx = Some ctx'
    \<and> queued ctx' = queued ctx @ [data_pkt ([0xFF, 0x03, 0xc2, 0x23] @ resp)]
    \<and> length resp = 54 + min 200 (length (username ctx)) \<and> length resp \<le> 256
    \<and> nt_response (chap ctx') = ntr \<and> challenge (chap ctx') = pc
    \<and> signals (trace ctx') = signals (trace ctx) @ [SSTP_PPP_AUTH]"
proof -
  have len: "length pc = 16" "length ntr = 24"
    using env(1) by (simp_all add: pc_def ntr_def env_ok_def length_nt_response)
  have lr: "length resp = 54 + min 200 (length (username ctx))"
    by (simp add: resp_def len min.commute)
  have cr: "chap_response ident pc ntr (username ctx) = resp"
    by (simp add: chap_response_def resp_def Let_def len min_def)
  define c where "c = ctx\<lparr>chap_id := ident, n_rand := Suc (n_rand ctx),
      chap := \<lparr>challenge = pc, response = replicate 8 0, nt_response = ntr, chap_flags = 0\<rparr>\<rparr>"
  have c: "n_items c = n_items ctx" "queued c = queued ctx" "trace c = trace ctx"
    "nt_response (chap c) = ntr" "challenge (chap c) = pc" "notify_set c"
    using n by (simp_all add: c_def queued_def)
  have "length resp \<le> 1400" using lr by simp
  then obtain d where d: "send_frame env PPP_PROTO_CHAP resp c = Some d" "quiet c d"
    "queued d = queued c @ [data_pkt ([0xFF, 0x03] @ be16 PPP_PROTO_CHAP @ resp)]"
    using ppp_send_frame_spec [of env PPP_PROTO_CHAP resp c] env(2,3) c(1)
    by (auto simp: send_frame_def)
  have k: "core d = core c" using d(2) by (simp add: quiet_def)
  have be: "be16 (0xc223 :: u16) = [0xc2, 0x23]" by (simp add: be16_def)
  have "rd_n buf 5 16 = Some ch" using buf(1,2) by (simp add: rd_n_def)
  moreover have "\<not> (vsize < 16 \<or> length buf < 5 + unat vsize)"
    using buf by (auto simp: word_less_nat_alt)
  ultimately have "handle_chap env buf ctx = Some (notify SSTP_PPP_AUTH d)"
    using d(1) buf(1) by (simp add: handle_chap_def rd_def pc_def [symmetric] ntr_def [symmetric]
        cr c_def [symmetric] Let_def)
  moreover have "notify_set d" "chap d = chap c" using core_eqD(2,4) [OF k] c(6) by simp_all
  moreover have "queued (notify SSTP_PPP_AUTH d) = queued d" by (simp add: queued_def notify_def act_def)
  ultimately show ?thesis
    using d(2,3) c lr be
    by (auto simp: notify_def act_def quiet_def)
qed

lemma handle_chap_response_witness:
  "\<exists>ctx'. handle_chap demo_env ([1, 7, 0, 0, 16] @ replicate 16 3) demo_ctx = Some ctx'
     \<and> signals (trace ctx') = [SSTP_PPP_AUTH]"
  using handle_chap_response [of demo_env demo_ctx "[1, 7, 0, 0, 16] @ replicate 16 3" 7 0 0 16 "replicate 16 3" "[]"]
    demo_env_ok
  by (simp add: demo_env_def demo_ctx_def sstp_pppd_create_def) blast

text \<open>Authentication is taken from the peer's word: a CHAP Success of any identifier and
  content, in any state, even before a challenge was answered, marks the context authenticated
  and starts CCP; the authenticator response it should carry is not looked at.\<close>

theorem handle_chap_success:
  assumes "length body \<ge> 3" "env_ok env" "item_ok env (n_items ctx)" "buff_ok env (n_items ctx)"
  shows "\<exists>ctx'. handle_chap env ([3, ident] @ body) ctx = Some ctx' \<and> auth_done ctx'
    \<and> queued ctx' = queued ctx @ [data_pkt ([0xFF, 0x03, 0x80, 0xfd, 1, ccp_id ctx + 1, 0, 10]
         @ [18, 6, 1, 0, 0, 0x40])]"
proof -
  define c where "c = ctx\<lparr>auth_done := True, ccp_id := ccp_id ctx + 1\<rparr>"
  define f where "f = confreq (ccp_id c) (put_opt CI_MPPC [1, 0, 0, 0x40])"
  have f: "[0xFF, 0x03] @ be16 PPP_PROTO_CCP @ f =
      [0xFF, 0x03, 0x80, 0xfd, 1, ccp_id ctx + 1, 0, 10] @ [18, 6, 1, 0, 0, 0x40]"
    by (simp add: f_def c_def confreq_def put_opt_def be16_def)
  have c: "n_items c = n_items ctx" "queued c = queued ctx" "auth_done c"
    by (simp_all add: c_def queued_def)
  have "length f \<le> 1400" by (simp add: f_def confreq_def put_opt_def)
  then obtain d where d: "send_frame env PPP_PROTO_CCP f c = Some d" "quiet c d"
    "queued d = queued c @ [data_pkt ([0xFF, 0x03] @ be16 PPP_PROTO_CCP @ f)]"
    using ppp_send_frame_spec [of env PPP_PROTO_CCP f c] assms(3,4) c(1) by (auto simp: send_frame_def)
  have k: "core d = core c" using d(2) by (simp add: quiet_def)
  have "handle_chap env ([3, ident] @ body) ctx = Some d"
    using assms(1) d(1)
    by (simp add: handle_chap_def rd_def send_ccp_confreq_def Let_def c_def f_def)
  then show ?thesis
    using d(3) c(2) core_eqD(13) [OF k] c(3) unfolding f by auto
qed

lemma handle_chap_success_witness:
  "\<exists>ctx'. handle_chap demo_env [3, 1, 0, 5, 0] demo_ctx = Some ctx' \<and> auth_done ctx'"
  using handle_chap_success [of "[0, 5, 0]" demo_env demo_ctx 1] demo_env_ok
  by (auto simp: demo_env_def)

text \<open>Cleartext is accepted under MPPE: an IP frame that is not encrypted is delivered to the
  IP handler whether or not MPPE has been negotiated.\<close>

theorem dispatch_plain_ip:
  assumes "ip_handler_set ctx"
  shows "\<exists>ctx'. sstp_pppd_send env ([0xFF, 0x03, 0x00, 0x21] @ ip) ctx = Some (SSTP_OKAY, ctx')
    \<and> delivered (trace ctx') = delivered (trace ctx) @ [ip] \<and> mppe_enabled ctx' = mppe_enabled ctx"
  using assms
  by (simp add: sstp_pppd_send_def ppp_dispatch_def rd_def split_proto_def rd16_def un16_def Let_def act_def)

lemma dispatch_plain_ip_witness:
  "\<exists>ctx'. sstp_pppd_send demo_env ([0xFF, 0x03, 0x00, 0x21] @ [0x45])
      (demo_ctx\<lparr>ip_handler_set := True, mppe_enabled := True\<rparr>) = Some (SSTP_OKAY, ctx')
    \<and> delivered (trace ctx') = [[0x45]]"
  using dispatch_plain_ip [of "demo_ctx\<lparr>ip_handler_set := True, mppe_enabled := True\<rparr>" demo_env "[0x45]"]
  by (auto simp: demo_ctx_def sstp_pppd_create_def)

text \<open>LCP Echo: an Echo-Request of at least eight and at most 64 bytes is answered by an
  Echo-Reply with the same identifier, length and data, the magic number replaced by the
  context's; a longer one is dropped without an answer.\<close>

theorem handle_lcp_echo:
  assumes env: "item_ok env (n_items ctx)" "buff_ok env (n_items ctx)"
    and buf: "buf = [9, ident] @ be16 (of_nat (8 + length data)) @ [m1, m2, m3, m4] @ data"
    and short: "length data < 60000"
  shows "\<exists>ctx'. handle_lcp env buf ctx = Some ctx'
    \<and> queued ctx' = queued ctx @ (if length data \<le> 56
        then [data_pkt ([0xFF, 0x03, 0xc0, 0x21, 10, ident] @ be16 (of_nat (8 + length data))
                @ be32 (magic ctx) @ data)] else [])"
proof -
  let ?h = "be16 (of_nat (8 + length data)) :: bytes"
  have plen: "header_plen buf = Some (8 + int (length data))"
  proof -
    have "rd16 buf 2 = Some (of_nat (8 + length data))"
      unfolding buf by (rule rd16_split) simp
    moreover have "uint (of_nat (8 + length data) :: u16) = 8 + int (length data)"
      using short by (simp add: unsigned_of_nat take_bit_nat_eq_self del: of_nat_add)
    ultimately show ?thesis by (simp add: header_plen_def buf)
  qed
  have r: "rd buf 0 = Some 9" "rd buf 1 = Some ident" by (simp_all add: buf rd_def)
  show ?thesis
  proof (cases "length data \<le> 56")
    case True
    let ?e = "[10, ident] @ ?h @ be32 (magic ctx) @ data"
    have "with_code buf (8 + int (length data)) FSM_ECHOREP = Some ([10, ident] @ ?h @ [m1, m2, m3, m4] @ data)"
      by (simp add: with_code_def rd_n_def buf be16_def nat_add_distrib)
    moreover have "wr_n ([10, ident] @ ?h @ [m1, m2, m3, m4] @ data) 4 (be32 (magic ctx)) = Some ?e"
      by (rule wr_n_at [of _ "[10, ident] @ ?h" _ "[m1, m2, m3, m4]"]) simp_all
    moreover obtain d where "send_frame env PPP_PROTO_LCP ?e ctx = Some d"
      "queued d = queued ctx @ [data_pkt ([0xFF, 0x03] @ be16 PPP_PROTO_LCP @ ?e)]"
      using ppp_send_frame_spec [of env PPP_PROTO_LCP ?e ctx] env True by (auto simp: send_frame_def)
    moreover have "be16 (0xc021 :: u16) = [0xc0, 0x21]" by (simp add: be16_def)
    ultimately show ?thesis
      using True r plen by (simp add: handle_lcp_def buf)
  next
    case False
    then show ?thesis using r plen by (simp add: handle_lcp_def buf)
  qed
qed

lemma handle_lcp_echo_witness:
  "\<exists>ctx'. handle_lcp demo_env [9, 5, 0, 8, 1, 1, 1, 1] demo_ctx = Some ctx'
    \<and> queued ctx' = [data_pkt [0xFF, 0x03, 0xc0, 0x21, 10, 5, 0, 8, 0, 0, 0, 7]]"
  using handle_lcp_echo [of demo_env demo_ctx "[9, 5, 0, 8, 1, 1, 1, 1]" 5 "[]" 1 1 1 1]
  by (simp add: demo_env_def demo_ctx_def sstp_pppd_create_def be16_def be32_def queued_def)

text \<open>The size of an IP packet decides its fate: \<open>sstp_pppd_send_ip\<close> refuses, without any
  effect, an empty packet and one of more than 1396 bytes, although the tunnel is configured
  for an MTU of 1400; every other packet is accepted when memory is found.\<close>

theorem send_ip_bounds:
  assumes "env_ok env"
  shows "(length ip = 0 \<or> 1396 < length ip \<longrightarrow> sstp_pppd_send_ip env ip ctx = Some (SSTP_FAIL, ctx))
    \<and> (0 < length ip \<and> length ip \<le> 1396 \<and> item_ok env (n_items ctx) \<and> buff_ok env (n_items ctx)
        \<longrightarrow> (\<exists>ctx' pkt. sstp_pppd_send_ip env ip ctx = Some (SSTP_OKAY, ctx')
              \<and> queued ctx' = queued ctx @ [pkt]
              \<and> length pkt = length ip + (if mppe_enabled ctx then 12 else 8)))"
proof (intro conjI impI)
  assume "length ip = 0 \<or> 1396 < length ip"
  then show "sstp_pppd_send_ip env ip ctx = Some (SSTP_FAIL, ctx)"
    by (auto simp: sstp_pppd_send_ip_def ppp_send_ip_plain_or_mppe_def)
next
  assume a: "0 < length ip \<and> length ip \<le> 1396 \<and> item_ok env (n_items ctx) \<and> buff_ok env (n_items ctx)"
  show "\<exists>ctx' pkt. sstp_pppd_send_ip env ip ctx = Some (SSTP_OKAY, ctx')
              \<and> queued ctx' = queued ctx @ [pkt]
              \<and> length pkt = length ip + (if mppe_enabled ctx then 12 else 8)"
  proof (cases "mppe_enabled ctx")
    case True
    have "length (data_pkt (mppe_frame env ip ctx)) = length ip + 12"
      using assms by (simp add: data_pkt_def mppe_frame_def Let_def env_ok_def rc4_streamD)
    then show ?thesis
      using send_ip_mppe [OF True, of ip env] a assms True by auto
  next
    case False
    then show ?thesis
      using ppp_send_frame_spec [of env PPP_PROTO_IP ip ctx] a
      by (auto simp: sstp_pppd_send_ip_def ppp_send_ip_plain_or_mppe_def data_pkt_def)
  qed
qed

lemma send_ip_bounds_witness:
  "sstp_pppd_send_ip demo_env (replicate 1400 0x45) demo_ctx = Some (SSTP_FAIL, demo_ctx)"
  using send_ip_bounds [OF demo_env_ok, of "replicate 1400 0x45" demo_ctx] by simp

end
