(* ===== verification/Cmac.thy ===== *)
theory Cmac
  imports Openssl
begin

text \<open>
  The compound MAC of the crypto binding, \<^verbatim>\<open>sstp/sstp-cmac.c\<close> (the branch for
  OpenSSL 1.1, the version the repository bundles): the context with its keys, the
  higher-layer authentication key, the derived CMK and the MAC of a message. The lemmas give
  the formula of MS-SSTP and show that client and server mode compute the same MAC.
\<close>

section \<open>Data\<close>

text \<open>Arrays of the context are byte lists of their size; \<open>key_len\<close> is a \<^verbatim>\<open>size_t\<close>.\<close>

record cmac_ctx =
  send_key :: bytes
  recv_key :: bytes
  key_len :: nat
  seed :: bytes
  slen :: nat
  cmac_flag :: int

definition SSTP_CMAC_SHA1 :: int where "SSTP_CMAC_SHA1 = 0x01"
definition SSTP_CMAC_SHA256 :: int where "SSTP_CMAC_SHA256 = 0x02"
definition SSTP_CMAC_SERVER :: int where "SSTP_CMAC_SERVER = 0x04"
definition SSTP_HLAK_KEYLEN :: nat where "SSTP_HLAK_KEYLEN = 32"
definition SSTP_MPPE_MAX_KEYLEN :: nat where "SSTP_MPPE_MAX_KEYLEN = 32"

lemmas cmac_consts = SSTP_CMAC_SHA1_def SSTP_CMAC_SHA256_def SSTP_CMAC_SERVER_def
  SSTP_HLAK_KEYLEN_def SSTP_MPPE_MAX_KEYLEN_def

definition cmac_seed :: bytes where
  "cmac_seed = [
     0x53, 0x53, 0x54, 0x50, 0x20, 0x69, 0x6E, 0x6E,
     0x65, 0x72, 0x20, 0x6d, 0x65, 0x74, 0x68, 0x6F,
     0x64, 0x20, 0x64, 0x65, 0x72, 0x69, 0x76, 0x65,
     0x64, 0x20, 0x43, 0x4D, 0x4B]"

section \<open>Operations\<close>

definition sstp_cmac_init :: "bool \<Rightarrow> int \<Rightarrow> status_t \<times> cmac_ctx option" where
  "sstp_cmac_init ok flag =
     (if \<not> ok then (SSTP_FAIL, None)
      else (SSTP_OKAY, Some \<lparr>send_key = replicate 32 0, recv_key = replicate 32 0, key_len = 0,
              seed = cmac_seed @ replicate 3 0, slen = length cmac_seed, cmac_flag = flag\<rparr>))"

definition set_key :: "bytes \<Rightarrow> bytes \<Rightarrow> nat \<Rightarrow> bytes option" where
  "set_key k key len = do { src \<leftarrow> rd_n key 0 (int len); wr_n k 0 src }"

definition sstp_cmac_send_key :: "cmac_ctx \<Rightarrow> bytes \<Rightarrow> nat \<Rightarrow> cmac_ctx option" where
  "sstp_cmac_send_key ctx key len =
     (let len = (if len > length (send_key ctx) then length (send_key ctx) else len) in
      if len > 0 then do {
        k \<leftarrow> set_key (send_key ctx) key len;
        Some (ctx\<lparr>send_key := k, key_len := len\<rparr>) }
      else Some ctx)"

definition sstp_cmac_recv_key :: "cmac_ctx \<Rightarrow> bytes \<Rightarrow> nat \<Rightarrow> cmac_ctx option" where
  "sstp_cmac_recv_key ctx key len =
     (let len = (if len > length (recv_key ctx) then length (recv_key ctx) else len) in
      if len > 0 then do {
        k \<leftarrow> set_key (recv_key ctx) key len;
        Some (ctx\<lparr>recv_key := k, key_len := len\<rparr>) }
      else Some ctx)"

text \<open>The key written to \<open>key\<close> and the length returned; \<open>klen\<close> is the size of the buffer.\<close>

definition sstp_cmac_makekey :: "cmac_ctx \<Rightarrow> bytes \<Rightarrow> nat \<Rightarrow> (bytes \<times> nat) option" where
  "sstp_cmac_makekey ctx key klen =
     (let klen = (if klen \<ge> SSTP_HLAK_KEYLEN then SSTP_HLAK_KEYLEN else klen);
          server = (SSTP_CMAC_SERVER AND cmac_flag ctx \<noteq> 0) in
      if key_len ctx < SSTP_HLAK_KEYLEN then do {
        s \<leftarrow> rd_n (send_key ctx) 0 16;
        key \<leftarrow> wr_n key (if server then 16 else 0) s;
        r \<leftarrow> rd_n (recv_key ctx) 0 16;
        key \<leftarrow> wr_n key (if server then 0 else 16) r;
        Some (key, klen) }
      else do {
        k \<leftarrow> rd_n (if server then recv_key ctx else send_key ctx) 0 (int (key_len ctx));
        key \<leftarrow> wr_n key 0 k;
        Some (key, key_len ctx) })"

text \<open>
  The bytes \<open>HMAC_Final\<close> stores at \<open>result\<close>: the whole digest, whatever \<open>length\<close> says. The
  key buffer starts indeterminate; it is read up to the length that \<open>sstp_cmac_makekey\<close>
  returned, which it has written.
\<close>

definition sstp_cmac_result ::
    "('k, 'z) openssl_scheme \<Rightarrow> cmac_ctx \<Rightarrow> bytes \<Rightarrow> (int \<times> bytes) option" where
  "sstp_cmac_result ssl ctx msg = do {
     let sha256 = (SSTP_CMAC_SHA256 AND cmac_flag ctx \<noteq> 0);
     let len0 = (if sha256 then 32 else 20 :: u8);
     (key, klen) \<leftarrow> sstp_cmac_makekey ctx (replicate 64 0) 64;
     s \<leftarrow> rd_n (seed ctx) 0 (int (slen ctx));
     let cmk = HMAC ssl sha256 (take klen key) (s @ [len0, 0, 1]);
     Some (0, HMAC ssl sha256 cmk msg) }"

section \<open>Specification\<close>

text \<open>
  MS-SSTP 3.2.5.2.4: \<open>HLAK\<close> is the client's send key followed by its receive key when these
  are 16 bytes, and \<open>CMK = HMAC (HLAK, seed | LEN | 0x01)\<close> with the length in little endian.
\<close>

definition spec_cmac :: "('k, 'z) openssl_scheme \<Rightarrow> bool \<Rightarrow> bytes \<Rightarrow> bytes \<Rightarrow> bytes" where
  "spec_cmac ssl sha256 hlak msg =
     HMAC ssl sha256 (HMAC ssl sha256 hlak (cmac_seed @ [if sha256 then 32 else 20, 0, 1])) msg"

text \<open>The two MPPE keys of one side loaded into a fresh context.\<close>

definition cmac_with :: "int \<Rightarrow> bytes \<Rightarrow> bytes \<Rightarrow> nat \<Rightarrow> cmac_ctx option" where
  "cmac_with flag sk rk len = do {
     ctx \<leftarrow> snd (sstp_cmac_init True flag);
     ctx \<leftarrow> sstp_cmac_send_key ctx sk len;
     sstp_cmac_recv_key ctx rk len }"

lemma length_cmac_seed [simp]: "length cmac_seed = 29"
  by (simp add: cmac_seed_def)

lemma set_key_full:
  "length k = 32 \<Longrightarrow> len \<le> 32 \<Longrightarrow> len \<le> length key \<Longrightarrow>
   set_key k key len = Some (take len key @ drop len k)"
  by (simp add: set_key_def rd_n_def wr_n_def)

lemma cmac_with_16:
  assumes "length sk = 16" "length rk = 16"
  shows "cmac_with flag sk rk 16 = Some \<lparr>send_key = sk @ replicate 16 0, recv_key = rk @ replicate 16 0,
    key_len = 16, seed = cmac_seed @ replicate 3 0, slen = 29, cmac_flag = flag\<rparr>"
  using assms
  by (simp add: cmac_with_def sstp_cmac_init_def sstp_cmac_send_key_def sstp_cmac_recv_key_def
      set_key_full Let_def)

lemma cmac_with_32:
  assumes "length sk = 32" "length rk = 32" "32 \<le> n"
  shows "cmac_with flag sk rk n = Some \<lparr>send_key = sk, recv_key = rk,
    key_len = 32, seed = cmac_seed @ replicate 3 0, slen = 29, cmac_flag = flag\<rparr>"
  using assms
  by (auto simp: cmac_with_def sstp_cmac_init_def sstp_cmac_send_key_def sstp_cmac_recv_key_def
      set_key_full Let_def)

lemma sstp_cmac_result_16:
  assumes "length sk = 16" "length rk = 16" "cmac_with flag sk rk 16 = Some ctx"
  shows "sstp_cmac_result ssl ctx msg = Some (0,
    spec_cmac ssl (SSTP_CMAC_SHA256 AND flag \<noteq> 0)
      (if SSTP_CMAC_SERVER AND flag \<noteq> 0 then rk @ sk else sk @ rk) msg)"
  using assms
  by (auto simp: cmac_with_16 sstp_cmac_result_def sstp_cmac_makekey_def SSTP_HLAK_KEYLEN_def
      rd_n_def wr_n_def spec_cmac_def Let_def)

lemma sstp_cmac_result_32:
  assumes "length sk = 32" "length rk = 32" "32 \<le> n" "cmac_with flag sk rk n = Some ctx"
  shows "sstp_cmac_result ssl ctx msg = Some (0,
    spec_cmac ssl (SSTP_CMAC_SHA256 AND flag \<noteq> 0)
      (if SSTP_CMAC_SERVER AND flag \<noteq> 0 then rk else sk) msg)"
  using assms
  by (auto simp: cmac_with_32 sstp_cmac_result_def sstp_cmac_makekey_def SSTP_HLAK_KEYLEN_def
      rd_n_def wr_n_def spec_cmac_def Let_def)

section \<open>Properties\<close>

text \<open>C20. Client and server agree on the compound MAC: for 16-byte and for 32-byte MPPE keys, a
  server context that holds the keys with send and receive exchanged computes, without a
  memory error, the same MAC of the same message as the client context, and it is the MAC of
  MS-SSTP under the key made of the client's send and receive keys (16 bytes) or of its send
  key alone (32 bytes).\<close>

theorem sstp_cmac_agreement:
  assumes len: "length sk = n" "length rk = n" "n = 16 \<or> n = 32"
    and flag: "flag AND SSTP_CMAC_SERVER = 0"
  shows "\<exists>client server.
    cmac_with flag sk rk n = Some client
    \<and> cmac_with (flag OR SSTP_CMAC_SERVER) rk sk n = Some server
    \<and> sstp_cmac_result ssl client msg = Some (0,
        spec_cmac ssl (SSTP_CMAC_SHA256 AND flag \<noteq> 0) (if n = 16 then sk @ rk else sk) msg)
    \<and> sstp_cmac_result ssl server msg = sstp_cmac_result ssl client msg"
proof -
  have f: "SSTP_CMAC_SERVER AND flag = 0" "SSTP_CMAC_SERVER AND (flag OR SSTP_CMAC_SERVER) \<noteq> 0"
    "SSTP_CMAC_SHA256 AND (flag OR SSTP_CMAC_SERVER) = SSTP_CMAC_SHA256 AND flag"
    using flag by (simp_all add: and.commute bit.conj_disj_distrib)
      (simp_all add: cmac_consts)
  from len(3) show ?thesis
  proof
    assume n: "n = 16"
    then have l: "length sk = 16" "length rk = 16" using len by simp_all
    show ?thesis
      using cmac_with_16 [OF l] cmac_with_16 [OF l(2,1)] sstp_cmac_result_16 [OF l cmac_with_16 [OF l], where ssl = ssl]
        sstp_cmac_result_16 [OF l(2,1) cmac_with_16 [OF l(2,1)], where ssl = ssl] f n
      by simp
  next
    assume n: "n = 32"
    then have l: "length sk = 32" "length rk = 32" using len by simp_all
    have le: "(32::nat) \<le> 32" by simp
    show ?thesis
      using cmac_with_32 [OF l le] cmac_with_32 [OF l(2,1) le]
        sstp_cmac_result_32 [OF l le cmac_with_32 [OF l le], where ssl = ssl]
        sstp_cmac_result_32 [OF l(2,1) le cmac_with_32 [OF l(2,1) le], where ssl = ssl] f n
      by simp
  qed
qed

lemma sstp_cmac_agreement_witness:
  "\<exists>client server. cmac_with 1 (replicate 16 3) (replicate 16 4) 16 = Some client
    \<and> cmac_with 5 (replicate 16 4) (replicate 16 3) 16 = Some server
    \<and> sstp_cmac_result demo_ssl server [1, 2] = sstp_cmac_result demo_ssl client [1, 2]"
  using sstp_cmac_agreement [of "replicate 16 3" 16 "replicate 16 4" 1 demo_ssl "[1, 2]"]
  by (auto simp: cmac_consts)

end
