(* ===== verification/State.thy ===== *)
theory State
  imports Packet Cmac
begin

text \<open>
  The SSTP state machine, \<^verbatim>\<open>sstp/sstp-state.c\<close>: the control messages the client sends and
  handles, the keepalive and the crypto binding.

  The machine calls its client (\<open>state_cb\<close>, \<open>forward_cb\<close>) and the stream while it is in the
  middle of an operation, and these may call back into it. They are therefore functions on the
  whole state, gathered in the record \<open>world\<close>: the state is a record that the client extends
  with what it keeps itself (the last component of the record scheme). What they promise is the
  locale \<open>state_world\<close> (theory \<open>StateProofs\<close>), in which the safety of every handler is proved.
\<close>

section \<open>Data\<close>

datatype sstp_state_t =
    SSTP_CALL_ABORT
  | SSTP_CALL_CONNECT
  | SSTP_CALL_ESTABLISHED
  | SSTP_CALL_DISCONNECT
  | SSTP_CALL_STATUS status_t   \<comment> \<open>a status passed where a state is expected\<close>

primrec state_code :: "sstp_state_t \<Rightarrow> int" where
  "state_code SSTP_CALL_ABORT = 1"
| "state_code SSTP_CALL_CONNECT = 2"
| "state_code SSTP_CALL_ESTABLISHED = 3"
| "state_code SSTP_CALL_DISCONNECT = 4"
| "state_code (SSTP_CALL_STATUS st) = status_code st"

datatype sstp_mode = SSTP_MODE_CLIENT | SSTP_MODE_SERVER

definition SSTP_ST_ESTABLISHED :: u32 where "SSTP_ST_ESTABLISHED = 0x1000"

record sstp_state =
  st_state :: u32
  mode :: sstp_mode
  tx_buf :: sstp_buff
  rx_buf :: sstp_buff
  forward_set :: bool
  proto :: int
  st_status :: u32
  echo :: int
  nounce :: bytes
  mppe_send_key :: bytes
  mppe_recv_key :: bytes
  mppe_key_len :: nat

text \<open>
  The calls out of the state machine. \<open>call_state\<close> is \<open>state_cb\<close>, \<open>call_forward\<close> is
  \<open>forward_cb\<close> (offset and length of the data in the receive buffer), \<open>send_buf\<close> is
  \<open>sstp_stream_send\<close> of the transmit buffer with the completion \<open>sstp_state_send_complete\<close>,
  \<open>req_recv\<close> is \<open>sstp_stream_req_recv\<close> and \<open>cert_hash\<close> is \<open>sstp_get_cert_hash\<close> for a
  32-byte buffer. \<open>None\<close> is a memory error inside the call.
\<close>

record 's world =
  call_state :: "sstp_state_t \<Rightarrow> 's \<Rightarrow> (status_t \<times> 's) option"
  call_forward :: "int option \<Rightarrow> int \<Rightarrow> 's \<Rightarrow> (status_t \<times> 's) option"
  send_buf :: "'s \<Rightarrow> (status_t \<times> 's) option"
  req_recv :: "'s \<Rightarrow> 's option"
  cert_hash :: "int \<Rightarrow> 's \<Rightarrow> status_t \<times> bytes"
  cmac_mem :: "'s \<Rightarrow> bool"

section \<open>Sending\<close>

definition sstp_state_set_forward :: "bool \<Rightarrow> 'z sstp_state_scheme \<Rightarrow> 'z sstp_state_scheme" where
  "sstp_state_set_forward on ctx = ctx\<lparr>forward_set := on\<rparr>"

definition sstp_state_send_complete ::
    "('z sstp_state_scheme, 'e) world_scheme \<Rightarrow> status_t \<Rightarrow> 'z sstp_state_scheme \<Rightarrow>
     'z sstp_state_scheme option" where
  "sstp_state_send_complete w status ctx =
     (if SSTP_OKAY \<noteq> status then map_option snd (call_state w SSTP_CALL_ABORT ctx) else Some ctx)"

text \<open>A message without attributes.\<close>

definition send_plain ::
    "('z sstp_state_scheme, 'e) world_scheme \<Rightarrow> sstp_msg_t \<Rightarrow> 'z sstp_state_scheme \<Rightarrow>
     (bool \<times> status_t \<times> 'z sstp_state_scheme) option" where
  "send_plain w ty ctx = do {
     (status, b) \<leftarrow> sstp_pkt_init (tx_buf ctx) ty;
     let ctx = ctx\<lparr>tx_buf := b\<rparr>;
     if SSTP_OKAY \<noteq> status then Some (False, status, ctx)
     else do { (status, ctx) \<leftarrow> send_buf w ctx; Some (True, status, ctx) } }"

definition sstp_state_echo_request ::
    "('z sstp_state_scheme, 'e) world_scheme \<Rightarrow> 'z sstp_state_scheme \<Rightarrow>
     (status_t \<times> 'z sstp_state_scheme) option" where
  "sstp_state_echo_request w ctx = do {
     (sent, status, ctx) \<leftarrow> send_plain w SSTP_ECHO_REQUEST ctx;
     Some (status, if sent then ctx\<lparr>echo := echo ctx + 1\<rparr> else ctx) }"

definition sstp_state_echo_reply ::
    "('z sstp_state_scheme, 'e) world_scheme \<Rightarrow> 'z sstp_state_scheme \<Rightarrow>
     (status_t \<times> 'z sstp_state_scheme) option" where
  "sstp_state_echo_reply w ctx = map_option snd (send_plain w SSTP_ECHO_REPLY ctx)"

definition sstp_state_disconnect ::
    "('z sstp_state_scheme, 'e) world_scheme \<Rightarrow> 'z sstp_state_scheme \<Rightarrow>
     (status_t \<times> 'z sstp_state_scheme) option" where
  "sstp_state_disconnect w ctx = map_option snd (send_plain w SSTP_MSG_DISCONNECT ctx)"

definition sstp_state_disconnect_ack ::
    "('z sstp_state_scheme, 'e) world_scheme \<Rightarrow> 'z sstp_state_scheme \<Rightarrow>
     (status_t \<times> 'z sstp_state_scheme) option" where
  "sstp_state_disconnect_ack w ctx = map_option snd (send_plain w SSTP_MSG_DISCONNECT_ACK ctx)"

definition sstp_state_send_request ::
    "('z sstp_state_scheme, 'e) world_scheme \<Rightarrow> 'z sstp_state_scheme \<Rightarrow>
     (status_t \<times> 'z sstp_state_scheme) option" where
  "sstp_state_send_request w ctx = do {
     (ret, b) \<leftarrow> sstp_pkt_init (tx_buf ctx) SSTP_MSG_CONNECT_REQ;
     let ctx = ctx\<lparr>tx_buf := b\<rparr>;
     (status, ctx) \<leftarrow>
       (if SSTP_OKAY \<noteq> ret then Some (SSTP_FAIL, ctx)
        else do {
          (ret, b) \<leftarrow> sstp_pkt_attr (tx_buf ctx) SSTP_ATTR_ENCAP_PROTO 2 (be16 SSTP_ENCAP_PROTO_PPP);
          let ctx = ctx\<lparr>tx_buf := b\<rparr>;
          if SSTP_OKAY \<noteq> ret then Some (SSTP_FAIL, ctx) else send_buf w ctx });
     ctx \<leftarrow> (if SSTP_OKAY \<noteq> status then map_option snd (call_state w SSTP_CALL_ABORT ctx) else Some ctx);
     Some (status, ctx) }"

section \<open>The crypto binding\<close>

definition binding_data :: "u8 \<Rightarrow> bytes \<Rightarrow> bytes \<Rightarrow> bytes" where
  "binding_data ty nonce h = [0, 0, 0, ty] @ nonce @ h @ replicate 32 0"

definition hash_type :: "int \<Rightarrow> u8" where
  "hash_type p = (if p AND uint SSTP_PROTO_HASH_SHA256 \<noteq> 0 then SSTP_PROTO_HASH_SHA256
                  else SSTP_PROTO_HASH_SHA1)"

text \<open>The CMAC over the transmit buffer, stored at offset 80 of it.\<close>

definition store_cmac ::
    "('k, 'y) openssl_scheme \<Rightarrow> bool \<Rightarrow> u8 \<Rightarrow> 'z sstp_state_scheme \<Rightarrow> 'z sstp_state_scheme option" where
  "store_cmac ssl ok ty ctx = do {
     cmac \<leftarrow> snd (sstp_cmac_init ok (uint ty));
     cmac \<leftarrow> sstp_cmac_send_key cmac (mppe_send_key ctx) (mppe_key_len ctx);
     cmac \<leftarrow> sstp_cmac_recv_key cmac (mppe_recv_key ctx) (mppe_key_len ctx);
     let b = tx_buf ctx;
     msg \<leftarrow> rd_n (b_data b) 0 (b_len b);
     (r, mac) \<leftarrow> sstp_cmac_result ssl cmac msg;
     d \<leftarrow> wr_n (b_data b) 80 mac;
     Some (ctx\<lparr>tx_buf := b\<lparr>b_data := d\<rparr>\<rparr>) }"

definition sstp_state_send_connect ::
    "('k, 'y) openssl_scheme \<Rightarrow> ('z sstp_state_scheme, 'e) world_scheme \<Rightarrow> 'z sstp_state_scheme \<Rightarrow>
     (status_t \<times> 'z sstp_state_scheme) option" where
  "sstp_state_send_connect ssl w ctx = do {
     let ty = hash_type (proto ctx);
     let (ret, h) = cert_hash w (proto ctx) ctx;
     (status, ctx) \<leftarrow>
       (if SSTP_OKAY \<noteq> ret then Some (SSTP_FAIL, ctx)
        else do {
          (ret, b) \<leftarrow> sstp_pkt_init (tx_buf ctx) SSTP_MSG_CONNECTED;
          let ctx = ctx\<lparr>tx_buf := b\<rparr>;
          if SSTP_OKAY \<noteq> ret then Some (SSTP_FAIL, ctx)
          else do {
            (ret, b) \<leftarrow> sstp_pkt_attr (tx_buf ctx) SSTP_ATTR_CRYPTO_BIND 100
                          (binding_data ty (nounce ctx) h);
            let ctx = ctx\<lparr>tx_buf := b\<rparr>;
            if SSTP_OKAY \<noteq> ret then Some (SSTP_FAIL, ctx)
            else do {
              ctx \<leftarrow> store_cmac ssl (cmac_mem w ctx) ty ctx;
              (status, ctx) \<leftarrow> send_buf w ctx;
              ctx \<leftarrow> (if SSTP_OKAY = status
                      then map_option snd (call_state w SSTP_CALL_ESTABLISHED ctx) else Some ctx);
              Some (status, ctx\<lparr>st_state := st_state ctx OR SSTP_ST_ESTABLISHED\<rparr>) } } });
     ctx \<leftarrow> (if SSTP_OKAY \<noteq> status then map_option snd (call_state w SSTP_CALL_ABORT ctx) else Some ctx);
     Some (status, ctx) }"

section \<open>Control messages\<close>

text \<open>The callers' array of attribute pointers, and reading one element of it.\<close>

definition fresh_attrs :: "attr_ptr list" where
  "fresh_attrs = replicate (SSTP_ATTR_MAX + 1) Uninit"

definition attr_at :: "attr_ptr list \<Rightarrow> sstp_attr_t \<Rightarrow> int option option" where
  "attr_at attrs ty =
     (case attrs ! attr_code ty of Uninit \<Rightarrow> None | Null \<Rightarrow> Some None | At i \<Rightarrow> Some (Some i))"

text \<open>The attribute handling of \<open>sstp_state_connect_ack\<close>: certificate protocol and nonce.\<close>

definition bind_request :: "sstp_buff \<Rightarrow> (sstp_buff \<times> (int \<times> bytes) option) option" where
  "bind_request buf = do {
     (ret, buf, attrs) \<leftarrow> sstp_pkt_parse buf fresh_attrs;
     if SSTP_OKAY \<noteq> ret then Some (buf, None)
     else do {
       attr \<leftarrow> attr_at attrs SSTP_ATTR_CRYPTO_BIND_REQ;
       case attr of
         None \<Rightarrow> Some (buf, None)
       | Some entry \<Rightarrow> do {
           len \<leftarrow> sstp_attr_len (b_data buf) entry;
           if len \<noteq> 36 then Some (buf, None)
           else do {
             p \<leftarrow> rd (b_data buf) (sstp_attr_data entry + 3);
             n \<leftarrow> rd_n (b_data buf) (sstp_attr_data entry + 4) (len - 4);
             Some (buf, Some (uint p, n)) } } } }"

definition sstp_state_connect_ack ::
    "('z sstp_state_scheme, 'e) world_scheme \<Rightarrow> 'z sstp_state_scheme \<Rightarrow>
     (status_t \<times> 'z sstp_state_scheme) option" where
  "sstp_state_connect_ack w ctx = do {
     (b, r) \<leftarrow> bind_request (rx_buf ctx);
     let ctx = ctx\<lparr>rx_buf := b\<rparr>;
     case r of
       Some (p, n) \<Rightarrow> call_state w SSTP_CALL_CONNECT (ctx\<lparr>proto := p, nounce := n\<rparr>)
     | None \<Rightarrow> do {
         (r, ctx) \<leftarrow> call_state w SSTP_CALL_ABORT ctx;
         Some (SSTP_FAIL, ctx) } }"

text \<open>The status of a CONNECT_NAK, ABORT or DISCONNECT message.\<close>

definition sstp_state_connect_nak ::
    "'z sstp_state_scheme \<Rightarrow> (status_t \<times> 'z sstp_state_scheme) option" where
  "sstp_state_connect_nak ctx = do {
     (ret, b, attrs) \<leftarrow> sstp_pkt_parse (rx_buf ctx) fresh_attrs;
     let ctx = ctx\<lparr>rx_buf := b\<rparr>;
     if SSTP_OKAY \<noteq> ret then Some (SSTP_FAIL, ctx)
     else do {
       attr \<leftarrow> attr_at attrs SSTP_ATTR_STATUS_INFO;
       case attr of
         None \<Rightarrow> Some (SSTP_FAIL, ctx)
       | Some entry \<Rightarrow> do {
           len \<leftarrow> sstp_attr_len (b_data b) entry;
           if len < 4 then Some (SSTP_FAIL, ctx)
           else do {
             status \<leftarrow> rd32 (b_data b) (sstp_attr_data entry + 4);
             Some (SSTP_OKAY, ctx\<lparr>st_status := status\<rparr>) } } } }"

definition sstp_state_handle_ctrl ::
    "('z sstp_state_scheme, 'e) world_scheme \<Rightarrow> u16 \<Rightarrow> 'z sstp_state_scheme \<Rightarrow>
     (status_t \<times> 'z sstp_state_scheme) option" where
  "sstp_state_handle_ctrl w ty ctx =
     (if ty = msg_code SSTP_MSG_CONNECT_ACK then sstp_state_connect_ack w ctx
      else if ty = msg_code SSTP_MSG_CONNECT_NAK then do {
        (ret, ctx) \<leftarrow> sstp_state_connect_nak ctx;
        ctx \<leftarrow> (if SSTP_OKAY = ret then map_option snd (sstp_state_disconnect w ctx) else Some ctx);
        Some (SSTP_OKAY, ctx) }
      else if ty = msg_code SSTP_MSG_ABORT then do {
        (ret, ctx) \<leftarrow> sstp_state_connect_nak ctx;
        ctx \<leftarrow> (if SSTP_OKAY = ret then map_option snd (call_state w SSTP_CALL_ABORT ctx) else Some ctx);
        Some (SSTP_OKAY, ctx) }
      else if ty = msg_code SSTP_MSG_DISCONNECT then do {
        (ret, ctx) \<leftarrow> sstp_state_connect_nak ctx;
        ctx \<leftarrow> (if SSTP_OKAY = ret then map_option snd (sstp_state_disconnect_ack w ctx) else Some ctx);
        (r, ctx) \<leftarrow> call_state w SSTP_CALL_DISCONNECT ctx;
        Some (SSTP_OKAY, ctx) }
      else if ty = msg_code SSTP_MSG_DISCONNECT_ACK then do {
        (r, ctx) \<leftarrow> call_state w SSTP_CALL_DISCONNECT ctx;
        Some (SSTP_OKAY, ctx) }
      else if ty = msg_code SSTP_ECHO_REQUEST then do {
        (r, ctx) \<leftarrow> sstp_state_echo_reply w ctx;
        Some (SSTP_OKAY, ctx) }
      else if ty = msg_code SSTP_ECHO_REPLY then Some (SSTP_OKAY, ctx\<lparr>echo := 0\<rparr>)
      else Some (SSTP_OKAY, ctx))"

definition sstp_state_handle_data ::
    "('z sstp_state_scheme, 'e) world_scheme \<Rightarrow> 'z sstp_state_scheme \<Rightarrow>
     (status_t \<times> 'z sstp_state_scheme) option" where
  "sstp_state_handle_data w ctx = do {
     data \<leftarrow> sstp_pkt_data (rx_buf ctx);
     len \<leftarrow> sstp_pkt_data_len (rx_buf ctx);
     if \<not> forward_set ctx then None else call_forward w data len ctx }"

definition sstp_state_handle_packet ::
    "('z sstp_state_scheme, 'e) world_scheme \<Rightarrow> 'z sstp_state_scheme \<Rightarrow>
     (status_t \<times> 'z sstp_state_scheme) option" where
  "sstp_state_handle_packet w ctx = do {
     (kind, ty) \<leftarrow> sstp_pkt_type (rx_buf ctx);
     case kind of
       SSTP_PKT_DATA \<Rightarrow> do { (r, ctx) \<leftarrow> sstp_state_handle_data w ctx; Some (SSTP_OKAY, ctx) }
     | SSTP_PKT_CTRL \<Rightarrow> (case ty of Some t \<Rightarrow> sstp_state_handle_ctrl w t ctx | None \<Rightarrow> None)
     | SSTP_PKT_UNKNOWN \<Rightarrow> Some (SSTP_OKAY, ctx) }"

definition reset_and_read ::
    "('z sstp_state_scheme, 'e) world_scheme \<Rightarrow> status_t \<Rightarrow> 'z sstp_state_scheme \<Rightarrow>
     'z sstp_state_scheme option" where
  "reset_and_read w ret ctx =
     (let ctx = ctx\<lparr>rx_buf := sstp_buff_reset (rx_buf ctx)\<rparr> in
      if ret \<noteq> SSTP_INPROG then req_recv w ctx else Some ctx)"

definition sstp_state_recv ::
    "('z sstp_state_scheme, 'e) world_scheme \<Rightarrow> status_t \<Rightarrow> 'z sstp_state_scheme \<Rightarrow>
     'z sstp_state_scheme option" where
  "sstp_state_recv w status ctx =
     (if status = SSTP_TIMEOUT then
        (if echo ctx > 4 then map_option snd (call_state w SSTP_CALL_ABORT ctx)
         else do {
           (r, ctx) \<leftarrow> sstp_state_echo_request w ctx;
           reset_and_read w SSTP_OKAY ctx })
      else if status = SSTP_OKAY then do {
        (ret, ctx) \<leftarrow> sstp_state_handle_packet w ctx;
        reset_and_read w ret ctx }
      else if status = SSTP_INPROG then Some ctx
      else if status = SSTP_FAIL then map_option snd (call_state w (SSTP_CALL_STATUS status) ctx)
      else reset_and_read w SSTP_OKAY ctx)"

section \<open>The public operations\<close>

definition sstp_state_resume_recv ::
    "('z sstp_state_scheme, 'e) world_scheme \<Rightarrow> 'z sstp_state_scheme \<Rightarrow> 'z sstp_state_scheme option" where
  "sstp_state_resume_recv w ctx = req_recv w ctx"

definition sstp_state_start ::
    "('z sstp_state_scheme, 'e) world_scheme \<Rightarrow> 'z sstp_state_scheme \<Rightarrow>
     (status_t \<times> 'z sstp_state_scheme) option" where
  "sstp_state_start w ctx =
     (case mode ctx of SSTP_MODE_CLIENT \<Rightarrow> sstp_state_send_request w ctx
      | SSTP_MODE_SERVER \<Rightarrow> Some (SSTP_NOTIMPL, ctx))"

definition sstp_state_accept ::
    "('k, 'y) openssl_scheme \<Rightarrow> ('z sstp_state_scheme, 'e) world_scheme \<Rightarrow> 'z sstp_state_scheme \<Rightarrow>
     (status_t \<times> 'z sstp_state_scheme) option" where
  "sstp_state_accept ssl w ctx =
     (case mode ctx of SSTP_MODE_CLIENT \<Rightarrow> sstp_state_send_connect ssl w ctx
      | SSTP_MODE_SERVER \<Rightarrow> Some (SSTP_NOTIMPL, ctx))"

definition sstp_state_mppe_keys ::
    "bytes \<Rightarrow> bytes \<Rightarrow> nat \<Rightarrow> 'z sstp_state_scheme \<Rightarrow> (status_t \<times> 'z sstp_state_scheme) option" where
  "sstp_state_mppe_keys send recv n ctx =
     (let n = (if n > length (mppe_send_key ctx) then length (mppe_send_key ctx) else n) in do {
        s \<leftarrow> (if n > 0 then set_key (mppe_send_key ctx) send n else Some (mppe_send_key ctx));
        r \<leftarrow> (if n > 0 then set_key (mppe_recv_key ctx) recv n else Some (mppe_recv_key ctx));
        Some (SSTP_OKAY, ctx\<lparr>mppe_send_key := s, mppe_recv_key := r, mppe_key_len := n\<rparr>) })"

definition sstp_state_reason :: "'z sstp_state_scheme \<Rightarrow> string" where
  "sstp_state_reason ctx =
     (if st_state ctx \<noteq> 0 then sstp_attr_status_str (sint (st_status ctx))
      else ''Reason was not known'')"

text \<open>
  The status is the \<open>0\<close> it was initialised with, also when an allocation fails: the test before
  the return never holds, and what was made stays: nothing, or an object that lacks both buffers
  or the receive buffer (\<open>Partial\<close>, with its transmit buffer) and has not set the reader.
\<close>

datatype created = No_state | Partial "sstp_buff option" | Whole sstp_state

definition sstp_state_create ::
    "bool \<Rightarrow> bool \<Rightarrow> bool \<Rightarrow> sstp_mode \<Rightarrow> status_t \<times> created" where
  "sstp_state_create mem mem_tx mem_rx md =
     (if \<not> mem then (SSTP_OKAY, No_state)
      else case sstp_buff_create mem_tx 16384 of
        (_, None) \<Rightarrow> (SSTP_OKAY, Partial None)
      | (_, Some tx) \<Rightarrow>
        (case sstp_buff_create mem_rx 16384 of
          (_, None) \<Rightarrow> (SSTP_OKAY, Partial (Some tx))
        | (_, Some rx) \<Rightarrow>
          (SSTP_OKAY, Whole \<lparr>st_state = 0, mode = md, tx_buf = tx, rx_buf = rx,
             forward_set = False, proto = 0, st_status = 0, echo = 0, nounce = replicate 32 0,
             mppe_send_key = replicate 32 0, mppe_recv_key = replicate 32 0, mppe_key_len = 0\<rparr>)))"

end
