(* ===== verification/StateProofs.thy ===== *)
theory StateProofs
  imports State
begin

text \<open>
  Correctness of the SSTP state machine (theory \<open>State\<close>). The locales \<open>state_calls\<close> and \<open>state_world\<close>
  state what the machine relies on in its client and its stream; inside them every operation is shown
  to return and to keep the client's invariant (\<open>recv_safe\<close>, \<open>good_accept\<close>, \<open>good_start\<close>). It is
  interpreted on the session of the iOS client in theory \<open>IosProofs\<close>. Outside it are the exact
  messages: the connect request, the crypto binding and its MAC, the answers of the server.
\<close>

section \<open>Notions\<close>

text \<open>What \<open>sstp_state_create\<close> establishes and every operation keeps.\<close>

definition wf_state :: "'z sstp_state_scheme \<Rightarrow> bool" where
  "wf_state ctx \<longleftrightarrow>
     wf_buff (tx_buf ctx) \<and> b_max (tx_buf ctx) = 16384
     \<and> wf_buff (rx_buf ctx) \<and> b_max (rx_buf ctx) = 16384
     \<and> length (nounce ctx) = 32 \<and> length (mppe_send_key ctx) = 32 \<and> length (mppe_recv_key ctx) = 32
     \<and> mppe_key_len ctx \<le> 32"

text \<open>
  A message the parser handles within its bounds (theory \<open>Packet\<close>), with at most \<open>limit\<close> bytes
  of data for the client.
\<close>

definition sound_packet :: "int \<Rightarrow> 'z sstp_state_scheme \<Rightarrow> bool" where
  "sound_packet limit ctx \<longleftrightarrow>
     (case sstp_pkt_type (rx_buf ctx) of
        Some (SSTP_PKT_DATA, _) \<Rightarrow> forward_set ctx \<and> b_len (rx_buf ctx) - 4 \<le> limit
      | Some (SSTP_PKT_CTRL, Some ty) \<Rightarrow>
          (\<exists>n. rd16 (b_data (rx_buf ctx)) 6 = Some n \<and> unat n \<le> 1)
          \<and> (ty = msg_code SSTP_MSG_CONNECT_ACK \<and> 14 \<le> b_len (rx_buf ctx) \<longrightarrow>
               rd16 (b_data (rx_buf ctx)) 6 = Some 1 \<and> 4 \<le> unat (b_data (rx_buf ctx) ! 9))
      | _ \<Rightarrow> True)"

text \<open>The Connected message before the compound MAC is filled in.\<close>

definition connected_msg :: "u8 \<Rightarrow> bytes \<Rightarrow> bytes \<Rightarrow> bytes" where
  "connected_msg ty nonce h =
     enc_ctrl SSTP_MSG_CONNECTED [(SSTP_ATTR_CRYPTO_BIND, binding_data ty nonce h)]"

definition with_mac :: "bytes \<Rightarrow> bytes \<Rightarrow> bytes" where
  "with_mac msg mac = take 80 msg @ mac @ drop (80 + length mac) msg"

text \<open>What follows the send of the Connected message.\<close>

definition after_connect ::
    "('z sstp_state_scheme, 'e) world_scheme \<Rightarrow> status_t \<Rightarrow> 'z sstp_state_scheme \<Rightarrow>
     (status_t \<times> 'z sstp_state_scheme) option" where
  "after_connect w status ctx = do {
     ctx \<leftarrow> (if SSTP_OKAY = status
             then map_option snd (call_state w SSTP_CALL_ESTABLISHED ctx) else Some ctx);
     let ctx = ctx\<lparr>st_state := st_state ctx OR SSTP_ST_ESTABLISHED\<rparr>;
     ctx \<leftarrow> (if SSTP_OKAY \<noteq> status then map_option snd (call_state w SSTP_CALL_ABORT ctx) else Some ctx);
     Some (status, ctx) }"

section \<open>A recording client\<close>

text \<open>A client that accepts every call and records it, for the concrete instances.\<close>

record recorder = sstp_state +
  calls :: "sstp_state_t list"
  sent :: "bytes list"

definition recorder_world :: "recorder world" where
  "recorder_world =
     \<lparr>call_state = (\<lambda>ev s. Some (SSTP_OKAY, s\<lparr>calls := calls s @ [ev]\<rparr>)),
      call_forward = (\<lambda>_ _ s. Some (SSTP_OKAY, s)),
      send_buf = (\<lambda>s. Some (SSTP_OKAY, s\<lparr>sent := sent s @ [content (tx_buf s)]\<rparr>)),
      req_recv = (\<lambda>s. Some s),
      cert_hash = (\<lambda>_ _. (SSTP_OKAY, replicate 32 7)),
      cmac_mem = (\<lambda>_. True)\<rparr>"

definition recorder_start :: "recorder" where
  "recorder_start =
     \<lparr>st_state = 0, mode = SSTP_MODE_CLIENT, tx_buf = wbuf 16384, rx_buf = wbuf 16384,
      forward_set = False, proto = 2, st_status = 0, echo = 0, nounce = replicate 32 5,
      mppe_send_key = replicate 32 1, mppe_recv_key = replicate 32 2, mppe_key_len = 16,
      calls = [], sent = []\<rparr>"

text \<open>A message in a receive buffer.\<close>

definition rx_with :: "bytes \<Rightarrow> sstp_buff" where
  "rx_with m = (wbuf 16384)\<lparr>b_len := int (length m), b_data := m @ replicate (16384 - length m) 0\<rparr>"

text \<open>The request for a call, and the server's answer with the data of its crypto binding.\<close>

definition conn_request :: bytes where
  "conn_request = [0x10, 0x01, 0x00, 0x0e, 0x00, 0x01, 0x00, 0x01, 0x00, 0x01, 0x00, 0x06, 0x00, 0x01]"

definition connect_ack :: "bytes \<Rightarrow> bytes" where
  "connect_ack d = enc_ctrl SSTP_MSG_CONNECT_ACK [(SSTP_ATTR_CRYPTO_BIND_REQ, d)]"

lemma create_wf:
  "sstp_state_create True True True md = (SSTP_OKAY, Whole st) \<Longrightarrow> wf_state st \<and> mode st = md \<and> \<not> forward_set st"
  by (auto simp: sstp_state_create_def sstp_buff_create_def wf_state_def wf_buff_def)

section \<open>The state machine and its world\<close>

lemma pkt_type_total:
  assumes "6 \<le> length (b_data buf)"
  shows "\<exists>k t. sstp_pkt_type buf = Some (k, t) \<and> (k = SSTP_PKT_CTRL \<longrightarrow> t \<noteq> None)"
proof -
  obtain f v where "rd (b_data buf) 1 = Some f" "rd16 (b_data buf) 4 = Some v"
    using assms by (auto simp: rd_def rd16_def)
  then show ?thesis by (auto simp: sstp_pkt_type_def)
qed

section \<open>Reading attributes\<close>

lemma fresh_parsed:
  "replicate SSTP_ATTR_MAX Null @ drop SSTP_ATTR_MAX fresh_attrs = [Null, Null, Null, Null, Uninit]"
  by (simp add: fresh_attrs_def SSTP_ATTR_MAX_def numeral_eq_Suc)

lemma attr_at_parsed:
  assumes "unat ty \<le> SSTP_ATTR_MAX" "attr_code a \<noteq> 4 \<or> unat ty = 4"
  shows "attr_at ([Null, Null, Null, Null, Uninit][unat (ty :: u8) := At 8]) a
    = Some (if unat ty = attr_code a then Some 8 else None)"
proof -
  have "unat ty \<in> {0, 1, 2, 3, 4}" using assms(1) by (auto simp: SSTP_ATTR_MAX_def)
  then show ?thesis using assms(2) by (cases a) (auto simp: attr_at_def numeral_eq_Suc)
qed

lemma attr_at_cleared: "attr_code a \<noteq> 4 \<Longrightarrow> attr_at [Null, Null, Null, Null, Uninit] a = Some None"
  by (cases a) (auto simp: attr_at_def numeral_eq_Suc)

lemma rx_reads:
  assumes "wf_state s"
  shows "\<exists>v. rd16 (b_data (rx_buf s)) 10 = Some v" "\<exists>v. rd32 (b_data (rx_buf s)) 16 = Some v"
    "\<exists>v. rd (b_data (rx_buf s)) 15 = Some v" "\<exists>v. rd_n (b_data (rx_buf s)) 16 32 = Some v \<and> length v = 32"
proof -
  have l: "int (length (b_data (rx_buf s))) = 16384" using assms by (simp add: wf_state_def wf_buff_def)
  show "\<exists>v. rd16 (b_data (rx_buf s)) 10 = Some v" "\<exists>v. rd32 (b_data (rx_buf s)) 16 = Some v"
    "\<exists>v. rd (b_data (rx_buf s)) 15 = Some v" "\<exists>v. rd_n (b_data (rx_buf s)) 16 32 = Some v \<and> length v = 32"
    using l by (simp_all add: rd16_def rd32_def rd_def rd_n_def)
qed

text \<open>A sound packet with the type CONNECT_ACK yields a binding or a refusal.\<close>

lemma bind_request_total:
  assumes wf: "wf_state s" and n: "rd16 (b_data (rx_buf s)) 6 = Some n" "unat n \<le> 1"
    and ack: "14 \<le> b_len (rx_buf s) \<Longrightarrow> unat n = 1 \<and> 4 \<le> unat (b_data (rx_buf s) ! 9)"
  shows "\<exists>j r. bind_request (rx_buf s) = Some ((rx_buf s)\<lparr>b_off := j\<rparr>, r)
    \<and> (\<forall>p m. r = Some (p, m) \<longrightarrow> length m = 32)"
proof -
  have wfb: "wf_buff (rx_buf s)" using wf by (simp add: wf_state_def)
  have same: "(rx_buf s)\<lparr>b_off := b_off (rx_buf s)\<rparr> = rx_buf s" by simp
  from sstp_pkt_parse_le1 [OF wfb n, of fresh_attrs]
  show ?thesis unfolding fresh_parsed
  proof (elim disjE exE conjE)
    fix a assume "sstp_pkt_parse (rx_buf s) fresh_attrs = Some (SSTP_FAIL, rx_buf s, a)"
    then show ?thesis
      by (intro exI [of _ "b_off (rx_buf s)"] exI [of _ None]) (simp add: bind_request_def)
  next
    assume "unat n = 0" "14 \<le> b_len (rx_buf s)"
    then show ?thesis using ack by simp
  next
    fix ty j
    assume l: "14 \<le> b_len (rx_buf s)" and t: "rd (b_data (rx_buf s)) 9 = Some ty" "unat ty \<le> SSTP_ATTR_MAX"
      and p: "sstp_pkt_parse (rx_buf s) fresh_attrs
        = Some (SSTP_OKAY, (rx_buf s)\<lparr>b_off := j\<rparr>, [Null, Null, Null, Null, Uninit][unat ty := At 8])"
    have "unat ty = 4" using t ack [OF l] by (auto simp: rd_Some_iff SSTP_ATTR_MAX_def)
    then have at: "attr_at ([Null, Null, Null, Null, Uninit][unat ty := At 8]) SSTP_ATTR_CRYPTO_BIND_REQ = Some (Some 8)"
      using attr_at_parsed [OF t(2), of SSTP_ATTR_CRYPTO_BIND_REQ] by simp
    obtain u v m where uv: "rd16 (b_data (rx_buf s)) 10 = Some u" "rd (b_data (rx_buf s)) 15 = Some v"
      "rd_n (b_data (rx_buf s)) 16 32 = Some m" "length m = 32"
      using rx_reads [OF wf] by blast
    show ?thesis
      by (rule exI [of _ j])
        (use p at uv in \<open>auto simp: bind_request_def sstp_attr_len_def sstp_attr_data_def Let_def\<close>)
  qed
qed

text \<open>
  What the state machine relies on in its client and in the stream: from a state that satisfies
  the invariant every call returns and leaves one that does; the invariant implies
  \<open>wf_state\<close> and does not depend on the machine's own fields otherwise.
\<close>

locale state_calls =
  fixes w :: "('z sstp_state_scheme, 'e) world_scheme" and inv :: "'z sstp_state_scheme \<Rightarrow> bool"
  assumes inv_wf: "inv s \<Longrightarrow> wf_state s"
    and inv_frame: "inv s \<Longrightarrow> wf_state s' \<Longrightarrow> sstp_state.more s' = sstp_state.more s
      \<Longrightarrow> forward_set s' = forward_set s \<Longrightarrow> mode s' = mode s \<Longrightarrow> inv s'"
    and call_state_ok: "inv s \<Longrightarrow> \<exists>st s'. call_state w ev s = Some (st, s') \<and> inv s'"
    and send_buf_ok: "inv s \<Longrightarrow> \<exists>st s'. send_buf w s = Some (st, s') \<and> inv s'"
    and req_recv_ok: "inv s \<Longrightarrow> \<exists>s'. req_recv w s = Some s' \<and> inv s'"
    and cert_hash_ok: "inv s \<Longrightarrow> length (snd (cert_hash w p s)) = 32"
    and cmac_mem_ok: "inv s \<Longrightarrow> cmac_mem w s"
begin

definition good :: "(status_t \<times> 'z sstp_state_scheme) option \<Rightarrow> bool" where
  "good m \<longleftrightarrow> (\<exists>st s. m = Some (st, s) \<and> inv s)"

definition good1 :: "'z sstp_state_scheme option \<Rightarrow> bool" where
  "good1 m \<longleftrightarrow> (\<exists>s. m = Some s \<and> inv s)"

lemma good_Some: "inv s \<Longrightarrow> good (Some (st, s))"
  by (simp add: good_def)

lemma good_bind: "good m \<Longrightarrow> (\<And>st s. inv s \<Longrightarrow> good (f st s)) \<Longrightarrow> good (m \<bind> (\<lambda>(st, s). f st s))"
  by (auto simp: good_def)

lemma good1_bind: "good1 m \<Longrightarrow> (\<And>s. inv s \<Longrightarrow> good (f s)) \<Longrightarrow> good (m \<bind> f)"
  by (auto simp: good_def good1_def)

lemma good1_snd: "good m \<Longrightarrow> good1 (map_option snd m)"
  by (auto simp: good_def good1_def)

lemma good1_Some: "inv s \<Longrightarrow> good1 (Some s)"
  by (simp add: good1_def)

lemma good_call_state: "inv s \<Longrightarrow> good (call_state w ev s)"
  using call_state_ok by (auto simp: good_def)

lemma good_send_buf: "inv s \<Longrightarrow> good (send_buf w s)"
  using send_buf_ok by (auto simp: good_def)

lemma inv_echo: "inv s \<Longrightarrow> inv (s\<lparr>echo := e\<rparr>)"
  by (rule inv_frame [of s]) (use inv_wf in \<open>auto simp: wf_state_def\<close>)

lemma inv_status: "inv s \<Longrightarrow> inv (s\<lparr>st_status := e\<rparr>)"
  by (rule inv_frame [of s]) (use inv_wf in \<open>auto simp: wf_state_def\<close>)

lemma inv_st_state: "inv s \<Longrightarrow> inv (s\<lparr>st_state := e\<rparr>)"
  by (rule inv_frame [of s]) (use inv_wf in \<open>auto simp: wf_state_def\<close>)

lemma inv_tx: "inv s \<Longrightarrow> wf_buff b \<Longrightarrow> b_max b = 16384 \<Longrightarrow> inv (s\<lparr>tx_buf := b\<rparr>)"
  by (rule inv_frame [of s]) (use inv_wf in \<open>auto simp: wf_state_def\<close>)

lemma inv_rx: "inv s \<Longrightarrow> wf_buff b \<Longrightarrow> b_max b = 16384 \<Longrightarrow> inv (s\<lparr>rx_buf := b\<rparr>)"
  by (rule inv_frame [of s]) (use inv_wf in \<open>auto simp: wf_state_def\<close>)

lemma inv_bind: "inv s \<Longrightarrow> length n = 32 \<Longrightarrow> inv (s\<lparr>proto := p, nounce := n\<rparr>)"
  by (rule inv_frame [of s]) (use inv_wf in \<open>auto simp: wf_state_def\<close>)

lemma good_send_plain:
  assumes "inv s" "ty \<noteq> SSTP_MSG_DATA"
  shows "\<exists>sent st s'. send_plain w ty s = Some (sent, st, s') \<and> inv s'"
proof -
  obtain b where b: "sstp_pkt_init (tx_buf s) ty = Some (SSTP_OKAY, b)" "wf_buff b" "b_max b = 16384"
    using sstp_pkt_init_ctrl [OF _ assms(2), of "tx_buf s"] inv_wf [OF assms(1)]
    by (auto simp: wf_state_def)
  have "good (send_buf w (s\<lparr>tx_buf := b\<rparr>))"
    using good_send_buf inv_tx [OF assms(1) b(2,3)] by blast
  then show ?thesis using b by (auto simp: send_plain_def good_def)
qed

lemma good_echo_request: "inv s \<Longrightarrow> good (sstp_state_echo_request w s)"
  using good_send_plain [of s SSTP_ECHO_REQUEST] inv_echo
  by (auto simp: sstp_state_echo_request_def good_def)

lemma good_echo_reply: "inv s \<Longrightarrow> good (sstp_state_echo_reply w s)"
  using good_send_plain [of s SSTP_ECHO_REPLY] by (auto simp: sstp_state_echo_reply_def good_def)

lemma good_disconnect: "inv s \<Longrightarrow> good (sstp_state_disconnect w s)"
  using good_send_plain [of s SSTP_MSG_DISCONNECT] by (auto simp: sstp_state_disconnect_def good_def)

lemma good_disconnect_ack: "inv s \<Longrightarrow> good (sstp_state_disconnect_ack w s)"
  using good_send_plain [of s SSTP_MSG_DISCONNECT_ACK] by (auto simp: sstp_state_disconnect_ack_def good_def)

lemma good_send_request: "inv s \<Longrightarrow> good (sstp_state_send_request w s)"
proof -
  assume i: "inv s"
  obtain b where b: "sstp_pkt_init (tx_buf s) SSTP_MSG_CONNECT_REQ = Some (SSTP_OKAY, b)"
    "wf_buff b" "b_max b = 16384" "holds b (enc_ctrl SSTP_MSG_CONNECT_REQ [])"
    using sstp_pkt_init_ctrl [of "tx_buf s" SSTP_MSG_CONNECT_REQ] inv_wf [OF i]
    by (auto simp: wf_state_def)
  obtain b' where b': "sstp_pkt_attr b SSTP_ATTR_ENCAP_PROTO 2 (be16 SSTP_ENCAP_PROTO_PPP) = Some (SSTP_OKAY, b')"
    "wf_buff b'" "b_max b' = 16384"
    using sstp_pkt_attr_appends [OF b(4), of "be16 SSTP_ENCAP_PROTO_PPP" SSTP_ATTR_ENCAP_PROTO] b(3)
    by (auto simp: enc_attrs_def length_enc_attr holds_def)
  obtain st s' where s': "send_buf w (s\<lparr>tx_buf := b'\<rparr>) = Some (st, s')" "inv s'"
    using send_buf_ok [OF inv_tx [OF i b'(2,3)]] by blast
  obtain st2 s2 where "call_state w SSTP_CALL_ABORT s' = Some (st2, s2)" "inv s2"
    using call_state_ok [OF s'(2)] by blast
  then show ?thesis
    using b(1) b'(1) s' by (auto simp: sstp_state_send_request_def good_def)
qed

lemma good_connect_nak:
  assumes i: "inv s" and n: "rd16 (b_data (rx_buf s)) 6 = Some n" "unat n \<le> 1"
  shows "good (sstp_state_connect_nak s)"
proof -
  have wf: "wf_buff (rx_buf s)" "b_max (rx_buf s) = 16384" using inv_wf [OF i] by (simp_all add: wf_state_def)
  have rx: "inv (s\<lparr>rx_buf := (rx_buf s)\<lparr>b_off := j\<rparr>\<rparr>)" for j
    by (rule inv_rx [OF i]) (use wf in \<open>simp_all add: wf_buff_def\<close>)
  have rx0: "inv (s\<lparr>rx_buf := rx_buf s\<rparr>)" using i by simp
  have a2: "attr_code SSTP_ATTR_STATUS_INFO \<noteq> 4" by simp
  consider (f) a where "sstp_pkt_parse (rx_buf s) fresh_attrs = Some (SSTP_FAIL, rx_buf s, a)"
    | (z) "sstp_pkt_parse (rx_buf s) fresh_attrs
        = Some (SSTP_OKAY, (rx_buf s)\<lparr>b_off := 8\<rparr>, [Null, Null, Null, Null, Uninit])"
    | (o) ty j where "unat ty \<le> SSTP_ATTR_MAX" "sstp_pkt_parse (rx_buf s) fresh_attrs
        = Some (SSTP_OKAY, (rx_buf s)\<lparr>b_off := j\<rparr>, [Null, Null, Null, Null, Uninit][unat (ty :: u8) := At 8])"
    using sstp_pkt_parse_le1 [OF wf(1) n, of fresh_attrs] unfolding fresh_parsed by blast
  then show ?thesis
  proof cases
    case f
    then show ?thesis using i by (simp add: sstp_state_connect_nak_def good_def)
  next
    case z
    then show ?thesis using rx by (simp add: sstp_state_connect_nak_def good_def attr_at_cleared)
  next
    case o
    obtain u v where uv: "rd16 (b_data (rx_buf s)) 10 = Some u" "rd32 (b_data (rx_buf s)) 16 = Some v"
      using rx_reads [OF inv_wf [OF i]] by blast
    have "inv (s\<lparr>rx_buf := (rx_buf s)\<lparr>b_off := j\<rparr>, st_status := v\<rparr>)" using inv_status [OF rx] by simp
    then show ?thesis
      using o uv rx attr_at_parsed [OF o(1), of SSTP_ATTR_STATUS_INFO]
      by (auto simp: sstp_state_connect_nak_def good_def sstp_attr_len_def sstp_attr_data_def Let_def)
  qed
qed

lemma good_connect_ack:
  assumes i: "inv s" and n: "rd16 (b_data (rx_buf s)) 6 = Some n" "unat n \<le> 1"
    and ack: "14 \<le> b_len (rx_buf s) \<Longrightarrow> unat n = 1 \<and> 4 \<le> unat (b_data (rx_buf s) ! 9)"
  shows "good (sstp_state_connect_ack w s)"
proof -
  have wf: "wf_state s" by (rule inv_wf [OF i])
  obtain j r where r: "bind_request (rx_buf s) = Some ((rx_buf s)\<lparr>b_off := j\<rparr>, r)"
    "\<forall>p m. r = Some (p, m) \<longrightarrow> length m = 32"
    using bind_request_total [OF wf n ack] by blast
  have rx: "inv (s\<lparr>rx_buf := (rx_buf s)\<lparr>b_off := j\<rparr>\<rparr>)"
    by (rule inv_rx [OF i]) (use wf in \<open>simp_all add: wf_state_def wf_buff_def\<close>)
  show ?thesis
  proof (cases r)
    case None
    obtain st s' where "call_state w SSTP_CALL_ABORT (s\<lparr>rx_buf := (rx_buf s)\<lparr>b_off := j\<rparr>\<rparr>) = Some (st, s')" "inv s'"
      using call_state_ok [OF rx] by blast
    then show ?thesis using r(1) None by (simp add: sstp_state_connect_ack_def good_def)
  next
    case (Some q)
    obtain p m where q: "q = (p, m)" by (cases q)
    have "inv (s\<lparr>rx_buf := (rx_buf s)\<lparr>b_off := j\<rparr>, proto := p, nounce := m\<rparr>)"
      using inv_bind [OF rx, of m p] r(2) Some q by simp
    then have "good (call_state w SSTP_CALL_CONNECT (s\<lparr>rx_buf := (rx_buf s)\<lparr>b_off := j\<rparr>, proto := p, nounce := m\<rparr>))"
      by (rule good_call_state)
    then show ?thesis using r(1) Some q by (simp add: sstp_state_connect_ack_def)
  qed
qed

lemma good_opt:
  assumes "inv s" "\<And>s. inv s \<Longrightarrow> good (g s)" "\<And>s. inv s \<Longrightarrow> good (f s)"
  shows "good ((if c then map_option snd (g s) else Some s) \<bind> f)"
proof (cases c)
  case True
  obtain st s' where "g s = Some (st, s')" "inv s'" using assms(2) [OF assms(1)] by (auto simp: good_def)
  then show ?thesis using True assms(3) by simp
qed (use assms in simp)

lemma good_if: "(c \<Longrightarrow> good x) \<Longrightarrow> (\<not> c \<Longrightarrow> good y) \<Longrightarrow> good (if c then x else y)"
  by simp

lemma good_handle_ctrl:
  assumes i: "inv s" and n: "rd16 (b_data (rx_buf s)) 6 = Some n" "unat n \<le> 1"
    and ack: "ty = msg_code SSTP_MSG_CONNECT_ACK \<Longrightarrow> 14 \<le> b_len (rx_buf s)
      \<Longrightarrow> unat n = 1 \<and> 4 \<le> unat (b_data (rx_buf s) ! 9)"
  shows "good (sstp_state_handle_ctrl w ty s)"
  unfolding sstp_state_handle_ctrl_def
  by (intro good_if good_connect_ack [OF i n ack] good_bind [OF good_connect_nak [OF i n]]
      good_bind [OF good_call_state] good_bind [OF good_echo_reply] good_opt good_Some
      good_disconnect good_disconnect_ack good_call_state inv_echo i)

end

text \<open>
  A client that takes data, once it has set \<open>forward_cb\<close>, in packets of up to \<open>limit\<close> bytes.
\<close>

locale state_world = state_calls +
  fixes limit :: int
  assumes call_forward_ok: "inv s \<Longrightarrow> forward_set s \<Longrightarrow> sstp_pkt_data (rx_buf s) = Some (Some off)
      \<Longrightarrow> sstp_pkt_data_len (rx_buf s) = Some n \<Longrightarrow> 0 \<le> n \<Longrightarrow> n \<le> limit
      \<Longrightarrow> \<exists>st s'. call_forward w (Some off) n s = Some (st, s') \<and> inv s'"
begin

lemma good_handle_data:
  assumes i: "inv s" and fw: "forward_set s" and ty: "sstp_pkt_type (rx_buf s) = Some (SSTP_PKT_DATA, t)"
    and lim: "b_len (rx_buf s) - 4 \<le> limit"
  shows "good (sstp_state_handle_data w s)"
proof -
  have ge: "0 \<le> b_len (rx_buf s)" "b_len (rx_buf s) \<le> 16384"
    using inv_wf [OF i] by (auto simp: wf_state_def wf_buff_def)
  then have "4 \<le> b_len (rx_buf s)"
    using ty by (auto simp: sstp_pkt_type_def split: if_splits Option.bind_splits)
  moreover obtain fl where fl: "rd (b_data (rx_buf s)) 1 = Some fl" "SSTP_MSG_FLAG_CTRL AND fl = 0"
    using ty by (auto simp: sstp_pkt_type_def split: if_splits Option.bind_splits)
  ultimately have d: "sstp_pkt_data (rx_buf s) = Some (Some 4)"
    "sstp_pkt_data_len (rx_buf s) = Some (b_len (rx_buf s) - 4)" "0 \<le> b_len (rx_buf s) - 4"
    by (simp_all add: sstp_pkt_data_def sstp_pkt_data_len_def)
  then show ?thesis
    using call_forward_ok [OF i fw d lim] fw by (simp add: sstp_state_handle_data_def good_def)
qed

lemma good_handle_packet:
  assumes i: "inv s" and p: "sound_packet limit s"
  shows "good (sstp_state_handle_packet w s)"
proof -
  have l: "length (b_data (rx_buf s)) = 16384" using inv_wf [OF i] by (simp add: wf_state_def wf_buff_def)
  then obtain k t where kt: "sstp_pkt_type (rx_buf s) = Some (k, t)" "k = SSTP_PKT_CTRL \<Longrightarrow> t \<noteq> None"
    using pkt_type_total [of "rx_buf s"] by auto
  show ?thesis
  proof (cases k)
    case SSTP_PKT_UNKNOWN
    then show ?thesis using kt i by (simp add: sstp_state_handle_packet_def good_Some)
  next
    case SSTP_PKT_DATA
    then have "good (sstp_state_handle_data w s)"
      using good_handle_data [OF i, of t] p kt by (simp add: sound_packet_def)
    then show ?thesis using kt SSTP_PKT_DATA by (auto simp: sstp_state_handle_packet_def good_def)
  next
    case SSTP_PKT_CTRL
    then obtain ty where ty: "t = Some ty" using kt(2) by auto
    obtain n where n: "rd16 (b_data (rx_buf s)) 6 = Some n" "unat n \<le> 1"
      and ack: "ty = msg_code SSTP_MSG_CONNECT_ACK \<and> 14 \<le> b_len (rx_buf s) \<longrightarrow>
        n = 1 \<and> 4 \<le> unat (b_data (rx_buf s) ! 9)"
      using p kt(1) SSTP_PKT_CTRL ty by (auto simp: sound_packet_def)
    have "good (sstp_state_handle_ctrl w ty s)"
      by (rule good_handle_ctrl [OF i n]) (use ack in auto)
    then show ?thesis using kt(1) SSTP_PKT_CTRL ty by (simp add: sstp_state_handle_packet_def)
  qed
qed

lemma good_reset_and_read: "inv s \<Longrightarrow> good1 (reset_and_read w ret s)"
proof -
  assume i: "inv s"
  have "inv (s\<lparr>rx_buf := sstp_buff_reset (rx_buf s)\<rparr>)"
    by (rule inv_rx [OF i]) (use inv_wf [OF i] in \<open>auto simp: wf_state_def sstp_buff_reset_def wf_buff_def\<close>)
  then show ?thesis using req_recv_ok by (auto simp: reset_and_read_def Let_def good1_def)
qed

text \<open>Whatever the stream reports, the receive callback returns and keeps the invariant.\<close>

lemma recv_safe:
  assumes i: "inv s" and p: "status = SSTP_OKAY \<Longrightarrow> sound_packet limit s"
  shows "\<exists>s'. sstp_state_recv w status s = Some s' \<and> inv s'"
proof -
  have seq: "good1 (m \<bind> (\<lambda>(r, s). f r s))" if "good m" "\<And>r s. inv s \<Longrightarrow> good1 (f r s)" for m f
    using that by (auto simp: good_def good1_def)
  have if1: "good1 (if c then x else y)" if "c \<Longrightarrow> good1 x" "\<not> c \<Longrightarrow> good1 y" for c x y
    using that by simp
  have "good1 (sstp_state_recv w status s)"
    unfolding sstp_state_recv_def
    by (intro if1 seq good1_snd good_call_state good_echo_request good_handle_packet
        good_reset_and_read good1_Some i p)
  then show ?thesis by (simp add: good1_def)
qed

end

lemma length_connected_msg: "length n = 32 \<Longrightarrow> length h = 32 \<Longrightarrow> length (connected_msg ty n h) = 112"
  by (simp add: connected_msg_def length_enc_ctrl enc_attrs_def length_enc_attr binding_data_def)

lemma set_key_total:
  "length k = 32 \<Longrightarrow> length key = 32 \<Longrightarrow> len \<le> 32 \<Longrightarrow> \<exists>k'. set_key k key len = Some k' \<and> length k' = 32"
  using set_key_full [of k len key] by (intro exI [of _ "take len key @ drop len k"]) simp

lemma cmac_result_total:
  assumes "length (send_key c) = 32" "length (recv_key c) = 32" "key_len c \<le> 32"
    "seed c = cmac_seed @ replicate 3 0" "slen c = 29" "digest_lengths ssl"
  shows "\<exists>mac. sstp_cmac_result ssl c msg = Some (0, mac) \<and> (length mac = 20 \<or> length mac = 32)"
proof -
  have "\<exists>key n. sstp_cmac_makekey c (replicate 64 0) 64 = Some (key, n)"
    using assms(1-3)
    by (cases "key_len c < 32"; cases "SSTP_CMAC_SERVER AND cmac_flag c = 0")
      (simp_all add: sstp_cmac_makekey_def SSTP_HLAK_KEYLEN_def rd_n_def wr_n_def Let_def)
  then obtain key n where "sstp_cmac_makekey c (replicate 64 0) 64 = Some (key, n)" by blast
  then show ?thesis
    using assms by (auto simp: sstp_cmac_result_def rd_n_def Let_def digest_lengthsD)
qed

lemma cmac_keys_total:
  assumes "length s = 32" "length r = 32" "n \<le> 32" "digest_lengths ssl"
  shows "\<exists>c1 c2 mac. sstp_cmac_send_key (the (snd (sstp_cmac_init True f))) s n = Some c1
    \<and> sstp_cmac_recv_key c1 r n = Some c2 \<and> sstp_cmac_result ssl c2 msg = Some (0, mac)
    \<and> (length mac = 20 \<or> length mac = 32)"
proof -
  let ?c = "the (snd (sstp_cmac_init True f))"
  obtain c1 where c1: "sstp_cmac_send_key ?c s n = Some c1" "length (send_key c1) = 32"
    "recv_key c1 = replicate 32 0" "key_len c1 \<le> 32" "seed c1 = cmac_seed @ replicate 3 0" "slen c1 = 29"
    using set_key_total [of "replicate 32 0" s n] assms(1,3)
    by (cases "n = 0") (auto simp: sstp_cmac_init_def sstp_cmac_send_key_def Let_def)
  obtain c2 where c2: "sstp_cmac_recv_key c1 r n = Some c2" "send_key c2 = send_key c1"
    "length (recv_key c2) = 32" "key_len c2 \<le> 32" "seed c2 = seed c1" "slen c2 = slen c1"
    using set_key_total [of "replicate 32 0" r n] assms(2,3) c1
    by (cases "n = 0") (auto simp: sstp_cmac_recv_key_def Let_def)
  show ?thesis
    using cmac_result_total [of c2 ssl msg] c1 c2 assms(4) by auto
qed

text \<open>The key of the MAC: the two halves, or zeros when the client never had keys.\<close>

definition hlak :: "'z sstp_state_scheme \<Rightarrow> bytes" where
  "hlak ctx = (if mppe_key_len ctx = 0 then replicate 32 0 else take 16 (mppe_send_key ctx) @ take 16 (mppe_recv_key ctx))"

lemma cmac_no_key:
  "sstp_cmac_result ssl (the (snd (sstp_cmac_init True flag))) msg =
    Some (0, spec_cmac ssl (SSTP_CMAC_SHA256 AND flag \<noteq> 0) (replicate 32 0) msg)"
proof -
  have z: "replicate 16 (0 :: u8) @ replicate 16 0 = replicate 32 0" by (simp add: replicate_add [symmetric])
  show ?thesis
    by (simp add: sstp_cmac_init_def sstp_cmac_result_def sstp_cmac_makekey_def SSTP_HLAK_KEYLEN_def
        rd_n_def wr_n_def spec_cmac_def Let_def z)
qed

lemma store_cmac_total:
  assumes wf: "wf_state ctx" and h: "holds (tx_buf ctx) msg" "length msg = 112" and d: "digest_lengths ssl"
  shows "\<exists>mac b. store_cmac ssl True ty ctx = Some (ctx\<lparr>tx_buf := b\<rparr>) \<and> wf_buff b \<and> b_max b = 16384
    \<and> content b = with_mac msg mac
    \<and> (length (mppe_send_key ctx) = 32 \<longrightarrow> mppe_key_len ctx = 16 \<longrightarrow>
        mac = spec_cmac ssl (SSTP_CMAC_SHA256 AND uint ty \<noteq> 0)
          (if SSTP_CMAC_SERVER AND uint ty \<noteq> 0 then take 16 (mppe_recv_key ctx) @ take 16 (mppe_send_key ctx)
           else take 16 (mppe_send_key ctx) @ take 16 (mppe_recv_key ctx)) msg)
    \<and> (mppe_key_len ctx = 0 \<longrightarrow> mac = spec_cmac ssl (SSTP_CMAC_SHA256 AND uint ty \<noteq> 0) (replicate 32 0) msg)"
proof -
  let ?s = "mppe_send_key ctx" and ?r = "mppe_recv_key ctx" and ?n = "mppe_key_len ctx"
  have len: "length ?s = 32" "length ?r = 32" "?n \<le> 32" using wf by (simp_all add: wf_state_def)
  obtain c1 c2 mac where c: "sstp_cmac_send_key (the (snd (sstp_cmac_init True (uint ty)))) ?s ?n = Some c1"
    "sstp_cmac_recv_key c1 ?r ?n = Some c2" "sstp_cmac_result ssl c2 msg = Some (0, mac)"
    "length mac = 20 \<or> length mac = 32"
    using cmac_keys_total [OF len d, of "uint ty" msg] by blast
  obtain free where b: "wf_buff (tx_buf ctx)" "b_max (tx_buf ctx) = 16384"
    "b_len (tx_buf ctx) = 112" "b_data (tx_buf ctx) = msg @ free"
    using h wf by (auto simp: holds_iff wf_state_def)
  have msg: "rd_n (b_data (tx_buf ctx)) 0 (b_len (tx_buf ctx)) = Some msg"
    using h(2) by (simp add: b rd_n_def)
  have w: "wr_n (msg @ free) 80 mac = Some (with_mac msg mac @ free)"
  proof (rule wr_n_at [of _ "take 80 msg" _ "take (length mac) (drop 80 msg)"])
    show "msg @ free = take 80 msg @ take (length mac) (drop 80 msg) @ drop (80 + length mac) msg @ free"
      using take_drop_split [of msg 80 "length mac"] by (metis append_assoc)
  qed (use h(2) c(4) in \<open>auto simp: with_mac_def\<close>)
  define b' where "b' = (tx_buf ctx)\<lparr>b_data := with_mac msg mac @ free\<rparr>"
  have lm: "length (with_mac msg mac) = 112" using h(2) c(4) by (auto simp: with_mac_def)
  have st: "store_cmac ssl True ty ctx = Some (ctx\<lparr>tx_buf := b'\<rparr>)"
    using c(1-3) msg w by (simp add: store_cmac_def sstp_cmac_init_def b(4) b'_def Let_def)
  have wb: "wf_buff b'" "b_max b' = 16384" "content b' = with_mac msg mac"
    using b lm h(2) by (simp_all add: b'_def wf_buff_def content_def)
  have "mac = spec_cmac ssl (SSTP_CMAC_SHA256 AND uint ty \<noteq> 0)
      (if SSTP_CMAC_SERVER AND uint ty \<noteq> 0 then take 16 ?r @ take 16 ?s else take 16 ?s @ take 16 ?r) msg"
    if n: "?n = 16"
  proof -
    have "c2 = \<lparr>send_key = take 16 ?s @ replicate 16 0, recv_key = take 16 ?r @ replicate 16 0,
      key_len = 16, seed = cmac_seed @ replicate 3 0, slen = 29, cmac_flag = uint ty\<rparr>"
      using c(1,2) len n
      by (auto simp: sstp_cmac_init_def sstp_cmac_send_key_def sstp_cmac_recv_key_def set_key_full Let_def)
    moreover have "length (take 16 ?s) = 16" "length (take 16 ?r) = 16" using len by simp_all
    ultimately show ?thesis
      using sstp_cmac_result_16 [OF _ _ cmac_with_16, of "take 16 ?s" "take 16 ?r" ssl "uint ty" msg] c(3) by simp
  qed
  moreover have "mac = spec_cmac ssl (SSTP_CMAC_SHA256 AND uint ty \<noteq> 0) (replicate 32 0) msg" if n: "?n = 0"
    using c(1-3) n cmac_no_key [of ssl "uint ty" msg]
    by (simp add: sstp_cmac_send_key_def sstp_cmac_recv_key_def)
  ultimately show ?thesis using st wb by (intro exI [of _ mac] exI [of _ b'] conjI impI)
qed

text \<open>The transmit buffer holds the Connected message with its MAC.\<close>

lemma build_connected:
  assumes wf: "wf_state ctx" and h: "length h = 32"
  shows "\<exists>b b'. sstp_pkt_init (tx_buf ctx) SSTP_MSG_CONNECTED = Some (SSTP_OKAY, b)
    \<and> sstp_pkt_attr b SSTP_ATTR_CRYPTO_BIND 100 (binding_data ty (nounce ctx) h) = Some (SSTP_OKAY, b')
    \<and> holds b' (connected_msg ty (nounce ctx) h) \<and> b_max b' = 16384"
proof -
  let ?d = "binding_data ty (nounce ctx) h"
  have d: "length ?d = 100" using wf h by (simp add: binding_data_def wf_state_def)
  obtain b where b: "sstp_pkt_init (tx_buf ctx) SSTP_MSG_CONNECTED = Some (SSTP_OKAY, b)"
    "holds b (enc_ctrl SSTP_MSG_CONNECTED [])" "b_max b = 16384"
    using sstp_pkt_init_ctrl [of "tx_buf ctx" SSTP_MSG_CONNECTED] wf by (auto simp: wf_state_def)
  have "8 + int (length (enc_attrs ([] @ [(SSTP_ATTR_CRYPTO_BIND, ?d)]))) \<le> b_max b"
    by (simp add: enc_attrs_def length_enc_attr d b(3))
  then obtain b' where "sstp_pkt_attr b SSTP_ATTR_CRYPTO_BIND (of_nat (length ?d)) ?d = Some (SSTP_OKAY, b')"
    "holds b' (enc_ctrl SSTP_MSG_CONNECTED ([] @ [(SSTP_ATTR_CRYPTO_BIND, ?d)]))" "b_max b' = b_max b"
    using sstp_pkt_attr_appends [OF b(2), of ?d SSTP_ATTR_CRYPTO_BIND] d by auto
  then show ?thesis using b d by (auto simp: connected_msg_def)
qed

lemma send_connect_steps:
  assumes wf: "wf_state ctx" and h: "cert_hash w (proto ctx) ctx = (SSTP_OKAY, h)" "length h = 32"
    and m: "\<And>b. wf_buff b \<Longrightarrow> b_max b = 16384 \<Longrightarrow> cmac_mem w (ctx\<lparr>tx_buf := b\<rparr>)" and d: "digest_lengths ssl"
  shows "\<exists>b mac. sstp_state_send_connect ssl w ctx =
      send_buf w (ctx\<lparr>tx_buf := b\<rparr>) \<bind> (\<lambda>(st, c). after_connect w st c)
    \<and> wf_buff b \<and> b_max b = 16384
    \<and> content b = with_mac (connected_msg (hash_type (proto ctx)) (nounce ctx) h) mac
    \<and> (mppe_key_len ctx = 0 \<or> mppe_key_len ctx = 16 \<longrightarrow>
        mac = spec_cmac ssl (SSTP_CMAC_SHA256 AND uint (hash_type (proto ctx)) \<noteq> 0)
          (hlak ctx) (connected_msg (hash_type (proto ctx)) (nounce ctx) h))"
proof -
  let ?ty = "hash_type (proto ctx)"
  obtain b b' where b: "sstp_pkt_init (tx_buf ctx) SSTP_MSG_CONNECTED = Some (SSTP_OKAY, b)"
    "sstp_pkt_attr b SSTP_ATTR_CRYPTO_BIND 100 (binding_data ?ty (nounce ctx) h) = Some (SSTP_OKAY, b')"
    "holds b' (connected_msg ?ty (nounce ctx) h)" "b_max b' = 16384"
    using build_connected [OF wf h(2)] by blast
  let ?c = "ctx\<lparr>tx_buf := b'\<rparr>"
  have wfc: "wf_state ?c" using wf b(3,4) by (simp add: wf_state_def holds_def)
  have l: "length (connected_msg ?ty (nounce ctx) h) = 112"
    using wf h(2) by (simp add: length_connected_msg wf_state_def)
  obtain mac b2 where s: "store_cmac ssl True ?ty ?c = Some (?c\<lparr>tx_buf := b2\<rparr>)" "wf_buff b2" "b_max b2 = 16384"
    "content b2 = with_mac (connected_msg ?ty (nounce ctx) h) mac"
    "mppe_key_len ?c = 16 \<longrightarrow> mac = spec_cmac ssl (SSTP_CMAC_SHA256 AND uint ?ty \<noteq> 0)
          (if SSTP_CMAC_SERVER AND uint ?ty \<noteq> 0 then take 16 (mppe_recv_key ?c) @ take 16 (mppe_send_key ?c)
           else take 16 (mppe_send_key ?c) @ take 16 (mppe_recv_key ?c)) (connected_msg ?ty (nounce ctx) h)"
    "mppe_key_len ?c = 0 \<longrightarrow> mac = spec_cmac ssl (SSTP_CMAC_SHA256 AND uint ?ty \<noteq> 0) (replicate 32 0) (connected_msg ?ty (nounce ctx) h)"
    using store_cmac_total [OF wfc _ l d, of ?ty] b(3) wfc by (auto simp: wf_state_def)
  have cm: "cmac_mem w ?c" using m b(3,4) by (simp add: holds_def)
  have cl: "SSTP_CMAC_SERVER AND uint ?ty = 0" by (simp add: hash_type_def pkt_consts cmac_consts)
  have "sstp_state_send_connect ssl w ctx =
      send_buf w (ctx\<lparr>tx_buf := b2\<rparr>) \<bind> (\<lambda>(st, c). after_connect w st c)"
  proof (cases "send_buf w (ctx\<lparr>tx_buf := b2\<rparr>)")
    case None
    then show ?thesis using h(1) b(1,2) s(1) cm by (simp add: sstp_state_send_connect_def Let_def)
  next
    case (Some q)
    obtain st c where q: "q = (st, c)" by (cases q)
    show ?thesis
      using h(1) b(1,2) s(1) cm Some q
      by (cases "SSTP_OKAY = st"; cases "call_state w SSTP_CALL_ESTABLISHED c")
        (simp_all add: sstp_state_send_connect_def after_connect_def Let_def)
  qed
  moreover have "mppe_key_len ctx = 0 \<or> mppe_key_len ctx = 16 \<longrightarrow>
      mac = spec_cmac ssl (SSTP_CMAC_SHA256 AND uint ?ty \<noteq> 0) (hlak ctx) (connected_msg ?ty (nounce ctx) h)"
    using s(5,6) cl by (auto simp: hlak_def)
  ultimately show ?thesis using s(2-4) by blast
qed

context state_calls
begin

lemma good_after_connect: "inv s \<Longrightarrow> good (after_connect w st s)"
proof -
  assume i: "inv s"
  have 1: "\<exists>s1. (if SSTP_OKAY = st then map_option snd (call_state w SSTP_CALL_ESTABLISHED s) else Some s) = Some s1 \<and> inv s1"
    using call_state_ok [OF i, of SSTP_CALL_ESTABLISHED] i by auto
  then obtain s1 where s1: "(if SSTP_OKAY = st then map_option snd (call_state w SSTP_CALL_ESTABLISHED s) else Some s) = Some s1" "inv s1"
    by blast
  let ?s2 = "s1\<lparr>st_state := st_state s1 OR SSTP_ST_ESTABLISHED\<rparr>"
  have "inv ?s2" using s1(2) by (rule inv_st_state)
  then have "\<exists>s3. (if SSTP_OKAY \<noteq> st then map_option snd (call_state w SSTP_CALL_ABORT ?s2) else Some ?s2) = Some s3 \<and> inv s3"
    using call_state_ok [of ?s2 SSTP_CALL_ABORT] by auto
  then show ?thesis using s1(1) by (auto simp: after_connect_def Let_def good_def)
qed

lemma good_send_connect:
  assumes i: "inv s" and d: "digest_lengths ssl"
  shows "good (sstp_state_send_connect ssl w s)"
proof (cases "cert_hash w (proto s) s")
  case (Pair ret h)
  show ?thesis
  proof (cases "ret = SSTP_OKAY")
    case True
    have l: "length h = 32" using cert_hash_ok [OF i, of "proto s"] Pair by simp
    have m: "cmac_mem w (s\<lparr>tx_buf := b\<rparr>)" if "wf_buff b" "b_max b = 16384" for b
      using cmac_mem_ok inv_tx [OF i that] by blast
    obtain b where b: "sstp_state_send_connect ssl w s =
        send_buf w (s\<lparr>tx_buf := b\<rparr>) \<bind> (\<lambda>(st, c). after_connect w st c)" "wf_buff b" "b_max b = 16384"
      using send_connect_steps [OF inv_wf [OF i] _ l m d] Pair True by blast
    show ?thesis unfolding b(1)
      by (intro good_bind good_send_buf inv_tx i b(2,3) good_after_connect)
  next
    case False
    obtain st s' where "call_state w SSTP_CALL_ABORT s = Some (st, s')" "inv s'"
      using call_state_ok [OF i] by blast
    then show ?thesis using Pair False by (simp add: sstp_state_send_connect_def good_def)
  qed
qed

lemma good_start: "inv s \<Longrightarrow> good (sstp_state_start w s)"
  by (simp add: sstp_state_start_def good_send_request good_Some split: sstp_mode.split)

lemma good_accept: "inv s \<Longrightarrow> digest_lengths ssl \<Longrightarrow> good (sstp_state_accept ssl w s)"
  by (simp add: sstp_state_accept_def good_send_connect good_Some split: sstp_mode.split)

lemma good_send_complete: "inv s \<Longrightarrow> good1 (sstp_state_send_complete w st s)"
  by (simp add: sstp_state_send_complete_def good1_snd good_call_state good1_Some)

end

lemma holds_rx_with: "length m \<le> 16384 \<Longrightarrow> holds (rx_with m) m"
  by (simp add: rx_with_def wbuf_def holds_def wf_buff_def content_def)

lemma rx_with_max [simp]: "b_max (rx_with m) = 16384"
  by (simp add: rx_with_def wbuf_def)

lemma wf_recorder_start: "wf_state recorder_start"
  by (simp add: wf_state_def recorder_start_def wbuf_def wf_buff_def)

lemma wf_recorder_rx: "length m \<le> 16384 \<Longrightarrow> wf_state (recorder_start\<lparr>rx_buf := rx_with m\<rparr>)"
  using holds_rx_with [of m] wf_recorder_start by (simp add: wf_state_def holds_def)

section \<open>The received messages\<close>

text \<open>A message is dispatched by its type.\<close>

lemma handle_packet_ctrl:
  assumes h: "holds (rx_buf s) (enc_ctrl ty as)" and m: "b_max (rx_buf s) = 16384"
  shows "sstp_state_handle_packet w s = sstp_state_handle_ctrl w (msg_code ty) s"
proof -
  obtain free where f: "b_data (rx_buf s) = enc_ctrl ty as @ free"
    and l: "b_len (rx_buf s) = int (length (enc_ctrl ty as))"
    using content_prefix [OF h] by blast
  have "0 \<le> b_len (rx_buf s)" "b_len (rx_buf s) < 2 ^ 64"
    using h m by (auto simp: holds_def wf_buff_def)
  then have "sstp_pkt_type (rx_buf s) = Some (SSTP_PKT_CTRL, Some (msg_code ty))"
    by (simp add: sstp_pkt_type_def f rd_1_enc_ctrl enc_ctrl_type SSTP_MSG_FLAG_CTRL_def)
      (simp add: l length_enc_ctrl)
  then show ?thesis by (simp add: sstp_state_handle_packet_def)
qed

text \<open>A message of one attribute parses to a pointer to that attribute.\<close>

lemma parse_one:
  assumes h: "holds buf (enc_ctrl ty [(t, d)])" and d: "2 \<le> length d" "length d < 32764"
  shows "sstp_pkt_parse buf fresh_attrs = Some (SSTP_OKAY, buf\<lparr>b_off := int (length d) + 4\<rparr>,
      [Null, Null, Null, Null, Uninit][attr_code t := At 8])"
    and "sstp_attr_len (b_data buf) 8 = Some (int (length d))"
    and "rd_n (b_data buf) 12 (int (length d)) = Some d"
proof -
  obtain free where f: "b_data buf = enc_ctrl ty [(t, d)] @ free"
    using content_prefix [OF h] by blast
  have r: "replicate SSTP_ATTR_MAX Null @ drop SSTP_ATTR_MAX fresh_attrs = [Null, Null, Null, Null, Uninit]"
    by (rule fresh_parsed)
  show "sstp_pkt_parse buf fresh_attrs = Some (SSTP_OKAY, buf\<lparr>b_off := int (length d) + 4\<rparr>,
      [Null, Null, Null, Null, Uninit][attr_code t := At 8])"
    using sstp_pkt_parse_first [OF h, of fresh_attrs] d by (simp add: fresh_parsed)
  show "sstp_attr_len (b_data buf) 8 = Some (int (length d))"
    using uint_attr_len [OF d(2)] by (simp add: sstp_attr_len_def f first_attr_length)
  show "rd_n (b_data buf) 12 (int (length d)) = Some d"
    by (simp add: f first_attr_data)
qed

lemma rd_n_parts:
  assumes "rd_n m i (int (length a)) = Some a" "j < length a"
  shows "rd m (i + int j) = Some (a ! j)"
proof -
  have b: "0 \<le> i" "i + int (length a) \<le> int (length m)" and a: "take (length a) (drop (nat i) m) = a"
    using assms(1) by (auto simp: rd_n_def split: if_splits)
  have "a ! j = take (length a) (drop (nat i) m) ! j" by (simp add: a)
  then show ?thesis using assms(2) b by (simp add: rd_def nat_add_distrib)
qed

lemma rd_n_tail:
  assumes "rd_n m i (int (length a)) = Some a" "j \<le> length a"
  shows "rd_n m (i + int j) (int (length a) - int j) = Some (drop j a)"
proof -
  have b: "0 \<le> i" "i + int (length a) \<le> int (length m)" and a: "take (length a) (drop (nat i) m) = a"
    using assms(1) by (auto simp: rd_n_def split: if_splits)
  have "drop j a = drop j (take (length a) (drop (nat i) m))" by (simp add: a)
  then show ?thesis using assms(2) b
    by (simp add: rd_n_def nat_add_distrib nat_diff_distrib drop_take add.commute)
qed

lemma parse_short: "b_len buf < 14 \<Longrightarrow> sstp_pkt_parse buf attrs = Some (SSTP_FAIL, buf, attrs)"
  by (simp add: sstp_pkt_parse_def)

lemma attr_at_one: "attr_at ([Null, Null, Null, Null, Uninit][attr_code t := At 8]) t = Some (Some 8)"
  by (cases t) (simp_all add: attr_at_def numeral_eq_Suc)

lemma bind_request_one:
  assumes h: "holds buf (enc_ctrl ty [(SSTP_ATTR_CRYPTO_BIND_REQ, d)])" and d: "2 \<le> length d" "length d < 32764"
  shows "bind_request buf = Some (buf\<lparr>b_off := int (length d) + 4\<rparr>,
      if length d = 36 then Some (uint (d ! 3), drop 4 d) else None)"
proof -
  note p = parse_one [OF h d]
  have "rd (b_data buf) 15 = Some (d ! 3)" "rd_n (b_data buf) 16 (int (length d) - 4) = Some (drop 4 d)"
    if "length d = 36"
    using rd_n_parts [OF p(3), of 3] rd_n_tail [OF p(3), of 4] that by simp_all
  then show ?thesis
    using p attr_at_one [of SSTP_ATTR_CRYPTO_BIND_REQ]
    by (simp add: bind_request_def sstp_attr_data_def)
qed

lemma connect_nak_one:
  assumes h: "holds (rx_buf s) (enc_ctrl ty [(SSTP_ATTR_STATUS_INFO, d)])" and d: "8 \<le> length d" "length d < 32764"
  shows "\<exists>v. rd32 d 4 = Some v \<and> sstp_state_connect_nak s =
     Some (SSTP_OKAY, s\<lparr>rx_buf := (rx_buf s)\<lparr>b_off := int (length d) + 4\<rparr>, st_status := v\<rparr>)"
proof -
  have d2: "2 \<le> length d" using d by simp
  note p = parse_one [OF h d2 d(2)]
  have r: "rd (b_data (rx_buf s)) (12 + int j) = rd d (int j)" if "j < 8" for j
    using rd_n_parts [OF p(3), of j] that d by (simp add: rd_def)
  have "rd32 (b_data (rx_buf s)) 16 = rd32 d 4"
    using r [of 4] r [of 5] r [of 6] r [of 7] by (simp add: rd32_def)
  moreover obtain v where "rd32 d 4 = Some v" using d by (auto simp: rd32_def rd_def)
  ultimately show ?thesis
    using p(1,2) attr_at_one [of SSTP_ATTR_STATUS_INFO] d
    by (simp add: sstp_state_connect_nak_def sstp_attr_data_def)
qed

section \<open>Properties\<close>

lemma connected_bytes:
  assumes "length nonce = 32" "length h = 32"
  shows "connected_msg ty nonce h
    = [0x10, 0x01, 0x00, 0x70, 0x00, 0x04, 0x00, 0x01, 0x00, 0x03, 0x00, 0x68, 0, 0, 0, ty] @ nonce @ h @ replicate 32 0"
  using assms
  by (simp add: connected_msg_def binding_data_def enc_ctrl_def enc_attrs_def enc_attr_def be16_def pkt_consts)

lemma length_HMAC_spec: "digest_lengths ssl \<Longrightarrow> length (spec_cmac ssl b k m) = (if b then 32 else 20)"
  by (simp add: spec_cmac_def digest_lengthsD)

lemma hash_type_sha256: "SSTP_CMAC_SHA256 AND uint (hash_type p) \<noteq> 0 \<longleftrightarrow> hash_type p = SSTP_PROTO_HASH_SHA256"
  by (simp add: hash_type_def pkt_consts cmac_consts)

text \<open>C16. The Call Connected message: with 16-byte MPPE keys, from any well-formed state and
  whatever the client and the stream then do, \<open>sstp_state_send_connect\<close> hands the stream exactly
  one message, of 112 bytes: the header with one CRYPTO_BIND attribute, the hash type, the
  server's nonce, the hash of the server's certificate, and the compound MAC of this same
  message with a zero MAC field under the client's send and receive keys, padded with zeros.\<close>

theorem send_connect_message:
  assumes "wf_state ctx" "cert_hash w (proto ctx) ctx = (SSTP_OKAY, h)" "length h = 32"
    and "\<And>b. wf_buff b \<Longrightarrow> b_max b = 16384 \<Longrightarrow> cmac_mem w (ctx\<lparr>tx_buf := b\<rparr>)"
    and "digest_lengths ssl" "mppe_key_len ctx = 16"
  defines "msg \<equiv> [0x10, 0x01, 0x00, 0x70, 0x00, 0x04, 0x00, 0x01, 0x00, 0x03, 0x00, 0x68,
      0, 0, 0, hash_type (proto ctx)] @ nounce ctx @ h"
  defines "mac \<equiv> spec_cmac ssl (hash_type (proto ctx) = SSTP_PROTO_HASH_SHA256)
      (take 16 (mppe_send_key ctx) @ take 16 (mppe_recv_key ctx)) (msg @ replicate 32 0)"
  shows "\<exists>b. sstp_state_send_connect ssl w ctx =
      send_buf w (ctx\<lparr>tx_buf := b\<rparr>) \<bind> (\<lambda>(st, c). after_connect w st c)
    \<and> wf_buff b \<and> content b = msg @ mac @ replicate (32 - length mac) 0"
proof -
  obtain b m where b: "sstp_state_send_connect ssl w ctx =
      send_buf w (ctx\<lparr>tx_buf := b\<rparr>) \<bind> (\<lambda>(st, c). after_connect w st c)" "wf_buff b"
    "content b = with_mac (connected_msg (hash_type (proto ctx)) (nounce ctx) h) m"
    "m = spec_cmac ssl (SSTP_CMAC_SHA256 AND uint (hash_type (proto ctx)) \<noteq> 0)
          (take 16 (mppe_send_key ctx) @ take 16 (mppe_recv_key ctx))
          (connected_msg (hash_type (proto ctx)) (nounce ctx) h)"
    using send_connect_steps [OF assms(1-5)] assms(6) by (fastforce simp: hlak_def)
  have l: "length (nounce ctx) = 32" using assms(1) by (simp add: wf_state_def)
  have c: "connected_msg (hash_type (proto ctx)) (nounce ctx) h = msg @ replicate 32 0"
    using connected_bytes [OF l assms(3)] by (simp add: msg_def)
  have "m = mac" unfolding b(4) c hash_type_sha256 mac_def ..
  moreover have "length msg = 80" using l assms(3) by (simp add: msg_def)
  ultimately have "content b = msg @ mac @ replicate (32 - length mac) 0"
    unfolding b(3) c by (simp add: with_mac_def)
  then show ?thesis using b(1,2) by blast
qed

lemma send_connect_message_witness:
  "map_option (\<lambda>(st, s). (st, calls s, map (take 16) (sent s)))
      (sstp_state_send_connect demo_ssl recorder_world recorder_start)
    = Some (SSTP_OKAY, [SSTP_CALL_ESTABLISHED],
        [[0x10, 0x01, 0x00, 0x70, 0x00, 0x04, 0x00, 0x01, 0x00, 0x03, 0x00, 0x68, 0, 0, 0, 2]])"
proof -
  have 1: "cert_hash recorder_world (proto recorder_start) recorder_start = (SSTP_OKAY, replicate 32 7)"
    "length (replicate 32 (7 :: u8)) = 32"
    "\<And>b. cmac_mem recorder_world (recorder_start\<lparr>tx_buf := b\<rparr>)" "mppe_key_len recorder_start = 16"
    "hash_type (proto recorder_start) = 2"
    by (simp_all add: recorder_world_def recorder_start_def hash_type_def pkt_consts)
  obtain b where b: "sstp_state_send_connect demo_ssl recorder_world recorder_start =
      send_buf recorder_world (recorder_start\<lparr>tx_buf := b\<rparr>) \<bind> (\<lambda>(st, c). after_connect recorder_world st c)"
    "\<exists>rest. content b = [0x10, 0x01, 0x00, 0x70, 0x00, 0x04, 0x00, 0x01, 0x00, 0x03, 0x00, 0x68, 0, 0, 0, 2] @ rest"
    using send_connect_message [OF wf_recorder_start 1(1,2) 1(3) demo_digest_lengths 1(4)] 1(5) by auto
  have t: "take 16 (content b) = [0x10, 0x01, 0x00, 0x70, 0x00, 0x04, 0x00, 0x01, 0x00, 0x03, 0x00, 0x68, 0, 0, 0, 2]"
    using b(2) by auto
  show ?thesis unfolding b(1)
    using t by (simp add: recorder_world_def recorder_start_def after_connect_def)
qed

text \<open>The Call Connect Request: from any well-formed state, and whatever the stream answers,
  \<open>sstp_state_send_request\<close> hands the stream the 14 bytes of the request for the PPP protocol,
  and reports an abort to the client exactly when the stream's answer is not success.\<close>

theorem send_request_message:
  assumes "wf_state ctx"
  shows "\<exists>b. wf_buff b \<and> b_max b = 16384
    \<and> content b = [0x10, 0x01, 0x00, 0x0e, 0x00, 0x01, 0x00, 0x01, 0x00, 0x01, 0x00, 0x06, 0x00, 0x01]
    \<and> sstp_state_send_request w ctx = do {
        (st, c) \<leftarrow> send_buf w (ctx\<lparr>tx_buf := b\<rparr>);
        c \<leftarrow> (if st = SSTP_OKAY then Some c else map_option snd (call_state w SSTP_CALL_ABORT c));
        Some (st, c) }"
proof -
  obtain b where b: "sstp_pkt_init (tx_buf ctx) SSTP_MSG_CONNECT_REQ = Some (SSTP_OKAY, b)"
    "b_max b = 16384" "holds b (enc_ctrl SSTP_MSG_CONNECT_REQ [])"
    using sstp_pkt_init_ctrl [of "tx_buf ctx" SSTP_MSG_CONNECT_REQ] assms by (auto simp: wf_state_def)
  obtain b' where b': "sstp_pkt_attr b SSTP_ATTR_ENCAP_PROTO 2 (be16 SSTP_ENCAP_PROTO_PPP) = Some (SSTP_OKAY, b')"
    "holds b' (enc_ctrl SSTP_MSG_CONNECT_REQ [(SSTP_ATTR_ENCAP_PROTO, be16 SSTP_ENCAP_PROTO_PPP)])" "b_max b' = b_max b"
    using sstp_pkt_attr_appends [OF b(3), of "be16 SSTP_ENCAP_PROTO_PPP" SSTP_ATTR_ENCAP_PROTO] b(2)
    by (auto simp: enc_attrs_def length_enc_attr)
  have "enc_ctrl SSTP_MSG_CONNECT_REQ [(SSTP_ATTR_ENCAP_PROTO, be16 SSTP_ENCAP_PROTO_PPP)]
      = [0x10, 0x01, 0x00, 0x0e, 0x00, 0x01, 0x00, 0x01, 0x00, 0x01, 0x00, 0x06, 0x00, 0x01]"
    by (simp add: enc_ctrl_def enc_attrs_def enc_attr_def be16_def pkt_consts)
  moreover have "sstp_state_send_request w ctx = do {
        (st, c) \<leftarrow> send_buf w (ctx\<lparr>tx_buf := b'\<rparr>);
        c \<leftarrow> (if st = SSTP_OKAY then Some c else map_option snd (call_state w SSTP_CALL_ABORT c));
        Some (st, c) }"
  proof (cases "send_buf w (ctx\<lparr>tx_buf := b'\<rparr>)")
    case None
    then show ?thesis using b(1) b'(1) by (simp add: sstp_state_send_request_def)
  next
    case (Some q)
    obtain st c where q: "q = (st, c)" by (cases q)
    then show ?thesis using Some b(1) b'(1)
      by (cases "st = SSTP_OKAY") (simp_all add: sstp_state_send_request_def)
  qed
  ultimately show ?thesis using b'(2,3) b(2) by (auto simp: holds_def)
qed

lemma send_request_message_witness:
  "map_option (\<lambda>(st, s). (st, calls s, sent s)) (sstp_state_send_request recorder_world recorder_start)
    = Some (SSTP_OKAY, [], [[0x10, 1, 0, 0x0e, 0, 1, 0, 1, 0, 1, 0, 6, 0, 1]])"
proof -
  obtain b where "content b = [0x10, 1, 0, 0x0e, 0, 1, 0, 1, 0, 1, 0, 6, 0, 1]"
    "sstp_state_send_request recorder_world recorder_start = do {
        (st, c) \<leftarrow> send_buf recorder_world (recorder_start\<lparr>tx_buf := b\<rparr>);
        c \<leftarrow> (if st = SSTP_OKAY then Some c else map_option snd (call_state recorder_world SSTP_CALL_ABORT c));
        Some (st, c) }"
    using send_request_message [OF wf_recorder_start, of recorder_world] by blast
  then show ?thesis by (simp add: recorder_world_def recorder_start_def)
qed

text \<open>The server's answer: on a Connect-Ack whose crypto binding request has 36 bytes the
  machine stores the certificate hash protocol and the nonce of the message and reports the
  connection to the client; with any other length it reports an abort. Either way it then
  resets its receive buffer and asks for the next packet, unless the client's answer to the
  connection is \<open>SSTP_INPROG\<close>.\<close>

theorem connect_ack_received:
  assumes "wf_state s" "content (rx_buf s) = enc_ctrl SSTP_MSG_CONNECT_ACK [(SSTP_ATTR_CRYPTO_BIND_REQ, d)]"
    and "2 \<le> length d" "length d < 32764"
  defines "s1 \<equiv> s\<lparr>rx_buf := (rx_buf s)\<lparr>b_off := int (length d) + 4\<rparr>\<rparr>"
  shows "sstp_state_recv w SSTP_OKAY s =
     (if length d = 36
      then do {
        (ret, c) \<leftarrow> call_state w SSTP_CALL_CONNECT (s1\<lparr>proto := uint (d ! 3), nounce := drop 4 d\<rparr>);
        reset_and_read w ret c }
      else do {
        (ret, c) \<leftarrow> call_state w SSTP_CALL_ABORT s1;
        reset_and_read w SSTP_FAIL c })"
proof -
  have h: "holds (rx_buf s) (enc_ctrl SSTP_MSG_CONNECT_ACK [(SSTP_ATTR_CRYPTO_BIND_REQ, d)])"
    "b_max (rx_buf s) = 16384"
    using assms(1,2) by (simp_all add: holds_def wf_state_def)
  have "sstp_state_handle_packet w s = sstp_state_connect_ack w s"
    using handle_packet_ctrl [OF h] by (simp add: sstp_state_handle_ctrl_def)
  then show ?thesis
    using bind_request_one [OF h(1) assms(3,4)]
    by (cases "length d = 36"; cases "call_state w SSTP_CALL_ABORT s1")
      (auto simp: sstp_state_recv_def sstp_state_connect_ack_def s1_def)
qed

lemma connect_ack_received_witness:
  "map_option (\<lambda>s. (calls s, proto s, nounce s, b_len (rx_buf s)))
     (sstp_state_recv recorder_world SSTP_OKAY (recorder_start\<lparr>rx_buf := rx_with
        (enc_ctrl SSTP_MSG_CONNECT_ACK [(SSTP_ATTR_CRYPTO_BIND_REQ, [0, 0, 0, 3] @ replicate 32 9)])\<rparr>))
   = Some ([SSTP_CALL_CONNECT], 3, replicate 32 9, 0)"
proof -
  let ?m = "enc_ctrl SSTP_MSG_CONNECT_ACK [(SSTP_ATTR_CRYPTO_BIND_REQ, [0, 0, 0, 3] @ replicate 32 9)]"
  have l: "length ?m \<le> 16384" by (simp add: length_enc_ctrl enc_attrs_def length_enc_attr)
  have "content (rx_buf (recorder_start\<lparr>rx_buf := rx_with ?m\<rparr>)) = ?m"
    using holds_rx_with [OF l] by (simp add: holds_def)
  from connect_ack_received [OF wf_recorder_rx [OF l] this, of recorder_world] show ?thesis
    by (simp add: recorder_world_def recorder_start_def reset_and_read_def sstp_buff_reset_def)
qed

text \<open>The two messages of the keepalive, byte by byte.\<close>

lemma echo_wire:
  "enc_ctrl SSTP_ECHO_REQUEST [] = [0x10, 0x01, 0x00, 0x08, 0x00, 0x08, 0x00, 0x00]"
  "enc_ctrl SSTP_ECHO_REPLY [] = [0x10, 0x01, 0x00, 0x08, 0x00, 0x09, 0x00, 0x00]"
  by (simp_all add: enc_ctrl_def enc_attrs_def be16_def pkt_consts)

text \<open>
  What the keepalive needs of its stream: a send takes what is in the transmit buffer, a request to receive takes
  nothing, and neither touches the counter. \<open>wire\<close> is what the stream was given so far.
\<close>

definition wire_only :: "('z sstp_state_scheme \<Rightarrow> bytes list) \<Rightarrow> bool" where
  "wire_only wire \<longleftrightarrow> (\<forall>s b k. wire (s\<lparr>tx_buf := b\<rparr>) = wire s \<and> wire (s\<lparr>rx_buf := b\<rparr>) = wire s \<and> wire (s\<lparr>echo := k\<rparr>) = wire s)"

definition keeps_echo ::
    "('z sstp_state_scheme, 'e) world_scheme \<Rightarrow> ('z sstp_state_scheme \<Rightarrow> bytes list) \<Rightarrow> bool" where
  "keeps_echo w wire \<longleftrightarrow> wire_only wire \<and> (\<forall>s. wf_state s \<longrightarrow>
     (\<exists>st s'. send_buf w s = Some (st, s') \<and> wf_state s' \<and> echo s' = echo s \<and> wire s' = wire s @ [content (tx_buf s)])
     \<and> (\<exists>s'. req_recv w s = Some s' \<and> wf_state s' \<and> echo s' = echo s \<and> wire s' = wire s))"

lemma wf_state_rx: "wf_state s \<Longrightarrow> wf_state (s\<lparr>echo := k, rx_buf := sstp_buff_reset (rx_buf s)\<rparr>)"
  "wf_state s \<Longrightarrow> wf_state (s\<lparr>rx_buf := sstp_buff_reset (rx_buf s)\<rparr>)"
  by (auto simp: wf_state_def sstp_buff_reset_def wf_buff_def)

lemma send_plain_wire:
  assumes "keeps_echo w wire" "wf_state s" "ty \<noteq> SSTP_MSG_DATA"
  shows "\<exists>st s'. send_plain w ty s = Some (True, st, s') \<and> wf_state s' \<and> echo s' = echo s \<and> wire s' = wire s @ [enc_ctrl ty []]"
proof -
  obtain b where b: "sstp_pkt_init (tx_buf s) ty = Some (SSTP_OKAY, b)" "wf_buff b" "b_max b = 16384" "content b = enc_ctrl ty []"
    using sstp_pkt_init_ctrl [of "tx_buf s" ty] assms(2,3) by (auto simp: wf_state_def holds_def)
  have "wf_state (s\<lparr>tx_buf := b\<rparr>)" using assms(2) b by (simp add: wf_state_def)
  then obtain st s' where "send_buf w (s\<lparr>tx_buf := b\<rparr>) = Some (st, s')" "wf_state s'" "echo s' = echo s"
    "wire s' = wire (s\<lparr>tx_buf := b\<rparr>) @ [content b]"
    using assms(1) unfolding keeps_echo_def by fastforce
  then show ?thesis using b assms(1) by (simp add: send_plain_def keeps_echo_def wire_only_def)
qed

lemma read_on:
  assumes "keeps_echo w wire" "wf_state s"
  shows "\<exists>s'. reset_and_read w SSTP_OKAY s = Some s' \<and> wf_state s' \<and> echo s' = echo s \<and> wire s' = wire s"
proof -
  let ?s = "s\<lparr>rx_buf := sstp_buff_reset (rx_buf s)\<rparr>"
  obtain s' where "req_recv w ?s = Some s'" "wf_state s'" "echo s' = echo ?s" "wire s' = wire ?s"
    using assms wf_state_rx(2) [OF assms(2)] unfolding keeps_echo_def by blast
  then show ?thesis using assms(1) by (simp add: reset_and_read_def keeps_echo_def wire_only_def)
qed

lemma timeout_step:
  assumes k: "keeps_echo w wire" "wf_state s" and e: "echo s \<le> 4"
  shows "\<exists>s'. sstp_state_recv w SSTP_TIMEOUT s = Some s' \<and> wf_state s' \<and> echo s' = echo s + 1
    \<and> wire s' = wire s @ [enc_ctrl SSTP_ECHO_REQUEST []]"
proof -
  obtain st s1 where s1: "send_plain w SSTP_ECHO_REQUEST s = Some (True, st, s1)" "wf_state s1" "echo s1 = echo s"
    "wire s1 = wire s @ [enc_ctrl SSTP_ECHO_REQUEST []]"
    using send_plain_wire [OF k, of SSTP_ECHO_REQUEST] by (auto simp: pkt_consts)
  have "wf_state (s1\<lparr>echo := echo s1 + 1\<rparr>)" using s1(2) by (simp add: wf_state_def)
  then obtain s2 where "reset_and_read w SSTP_OKAY (s1\<lparr>echo := echo s1 + 1\<rparr>) = Some s2" "wf_state s2" "echo s2 = echo s + 1"
    "wire s2 = wire (s1\<lparr>echo := echo s1 + 1\<rparr>)"
    using read_on [OF k(1)] s1(3) by fastforce
  then show ?thesis using e s1 k(1) by (simp add: sstp_state_recv_def sstp_state_echo_request_def keeps_echo_def wire_only_def)
qed

lemma timeout_run:
  assumes "keeps_echo w wire" "wf_state s" "echo s = 0"
  shows "n \<le> 5 \<Longrightarrow> \<exists>s'. run_steps (sstp_state_recv w) (replicate n SSTP_TIMEOUT) s = Some s' \<and> wf_state s' \<and> echo s' = int n
    \<and> wire s' = wire s @ replicate n (enc_ctrl SSTP_ECHO_REQUEST [])"
proof (induction n)
  case 0
  then show ?case using assms by simp
next
  case (Suc n)
  then obtain s1 where s1: "run_steps (sstp_state_recv w) (replicate n SSTP_TIMEOUT) s = Some s1" "wf_state s1" "echo s1 = int n"
    "wire s1 = wire s @ replicate n (enc_ctrl SSTP_ECHO_REQUEST [])" by auto
  obtain s2 where s2: "sstp_state_recv w SSTP_TIMEOUT s1 = Some s2" "wf_state s2" "echo s2 = int n + 1"
    "wire s2 = wire s1 @ [enc_ctrl SSTP_ECHO_REQUEST []]"
    using timeout_step [OF assms(1) s1(2)] s1(3) Suc.prems by auto
  have t: "replicate (Suc n) SSTP_TIMEOUT = replicate n SSTP_TIMEOUT @ [SSTP_TIMEOUT]"
    "replicate (Suc n) e = replicate n e @ [e]" for e :: bytes by (simp_all add: replicate_append_same)
  have "run_steps (sstp_state_recv w) (replicate (Suc n) SSTP_TIMEOUT) s = Some s2"
    unfolding t(1) run_steps_append using s1(1) s2(1) by simp
  moreover have "wire s2 = wire s @ replicate (Suc n) (enc_ctrl SSTP_ECHO_REQUEST [])"
    unfolding t(2) using s1(4) s2(4) by simp
  ultimately show ?case using s2(2,3) by (intro exI [of _ s2]) simp
qed

text \<open>An echo message that has arrived.\<close>

lemma echo_received:
  assumes k: "keeps_echo w wire" "wf_state s"
  shows "content (rx_buf s) = enc_ctrl SSTP_ECHO_REPLY [] \<Longrightarrow>
      \<exists>s'. sstp_state_recv w SSTP_OKAY s = Some s' \<and> echo s' = 0 \<and> wire s' = wire s"
    and "content (rx_buf s) = enc_ctrl SSTP_ECHO_REQUEST [] \<Longrightarrow>
      \<exists>s'. sstp_state_recv w SSTP_OKAY s = Some s' \<and> echo s' = echo s \<and> wire s' = wire s @ [enc_ctrl SSTP_ECHO_REPLY []]"
proof -
  have m: "wf_buff (rx_buf s)" "b_max (rx_buf s) = 16384" using k(2) by (simp_all add: wf_state_def)
  show "\<exists>s'. sstp_state_recv w SSTP_OKAY s = Some s' \<and> echo s' = 0 \<and> wire s' = wire s"
    if c: "content (rx_buf s) = enc_ctrl SSTP_ECHO_REPLY []"
  proof -
    have "sstp_state_handle_packet w s = Some (SSTP_OKAY, s\<lparr>echo := 0\<rparr>)"
      using handle_packet_ctrl [of s SSTP_ECHO_REPLY "[]" w] c m by (simp add: holds_def sstp_state_handle_ctrl_def)
    moreover have "wf_state (s\<lparr>echo := 0\<rparr>)" using k(2) by (simp add: wf_state_def)
    ultimately show ?thesis using read_on [OF k(1), of "s\<lparr>echo := 0\<rparr>"] k(1)
      by (auto simp: sstp_state_recv_def keeps_echo_def wire_only_def)
  qed
  show "\<exists>s'. sstp_state_recv w SSTP_OKAY s = Some s' \<and> echo s' = echo s \<and> wire s' = wire s @ [enc_ctrl SSTP_ECHO_REPLY []]"
    if c: "content (rx_buf s) = enc_ctrl SSTP_ECHO_REQUEST []"
  proof -
    obtain st s1 where s1: "send_plain w SSTP_ECHO_REPLY s = Some (True, st, s1)" "wf_state s1" "echo s1 = echo s"
      "wire s1 = wire s @ [enc_ctrl SSTP_ECHO_REPLY []]"
      using send_plain_wire [OF k, of SSTP_ECHO_REPLY] by (auto simp: pkt_consts)
    have "sstp_state_handle_packet w s = Some (SSTP_OKAY, s1)"
      using handle_packet_ctrl [of s SSTP_ECHO_REQUEST "[]" w] c m s1(1)
      by (simp add: holds_def sstp_state_handle_ctrl_def sstp_state_echo_reply_def)
    then show ?thesis using read_on [OF k(1) s1(2)] s1(3,4) by (auto simp: sstp_state_recv_def)
  qed
qed

text \<open>C21. The keepalive, over a stream that takes what it is given and leaves the counter alone: after up to five receive
  timeouts in a row the stream has been given that many Echo-Requests and nothing else, byte by byte, and the counter is
  their number; the sixth is reported to the client as an abort, with nothing sent before; an Echo-Reply received in between
  clears the counter and sends nothing; an Echo-Request is answered with an Echo-Reply and leaves the counter.\<close>

theorem keepalive:
  assumes "wf_state s" "echo s = 0" "n \<le> 5" "keeps_echo w wire"
  shows "\<exists>s'. run_steps (sstp_state_recv w) (replicate n SSTP_TIMEOUT) s = Some s' \<and> echo s' = int n
    \<and> wire s' = wire s @ replicate n [0x10, 0x01, 0x00, 0x08, 0x00, 0x08, 0x00, 0x00]
    \<and> (n = 5 \<longrightarrow> sstp_state_recv w SSTP_TIMEOUT s' = map_option snd (call_state w SSTP_CALL_ABORT s'))
    \<and> (content (rx_buf s') = [0x10, 0x01, 0x00, 0x08, 0x00, 0x09, 0x00, 0x00] \<longrightarrow>
        (\<exists>s''. sstp_state_recv w SSTP_OKAY s' = Some s'' \<and> echo s'' = 0 \<and> wire s'' = wire s'))
    \<and> (content (rx_buf s') = [0x10, 0x01, 0x00, 0x08, 0x00, 0x08, 0x00, 0x00] \<longrightarrow>
        (\<exists>s''. sstp_state_recv w SSTP_OKAY s' = Some s'' \<and> echo s'' = int n
          \<and> wire s'' = wire s' @ [[0x10, 0x01, 0x00, 0x08, 0x00, 0x09, 0x00, 0x00]]))"
proof -
  obtain s' where s': "run_steps (sstp_state_recv w) (replicate n SSTP_TIMEOUT) s = Some s'" "wf_state s'" "echo s' = int n"
    "wire s' = wire s @ replicate n (enc_ctrl SSTP_ECHO_REQUEST [])"
    using timeout_run [OF assms(4,1,2,3)] by blast
  have "n = 5 \<longrightarrow> sstp_state_recv w SSTP_TIMEOUT s' = map_option snd (call_state w SSTP_CALL_ABORT s')"
    using s'(3) by (simp add: sstp_state_recv_def)
  then show ?thesis using s' echo_received [OF assms(4) s'(2)] unfolding echo_wire by auto
qed

lemma keepalive_witness:
  "\<exists>s'. run_steps (sstp_state_recv recorder_world) (replicate 5 SSTP_TIMEOUT) recorder_start = Some s'
    \<and> echo s' = 5 \<and> sent s' = replicate 5 [0x10, 1, 0, 8, 0, 8, 0, 0]
    \<and> sstp_state_recv recorder_world SSTP_TIMEOUT s' = map_option snd (call_state recorder_world SSTP_CALL_ABORT s')"
proof -
  have "keeps_echo recorder_world sent"
    by (simp add: keeps_echo_def wire_only_def recorder_world_def wf_state_def)
  moreover have "echo recorder_start = 0" "sent recorder_start = []" by (simp_all add: recorder_start_def)
  ultimately show ?thesis using keepalive [OF wf_recorder_start, of 5 recorder_world sent] by auto
qed

text \<open>A Call-Abort is obeyed only when its status attribute can be read: with a status
  attribute of at least eight bytes the machine stores the status word and reports the abort to
  the client, but an abort without attributes is dropped and the call goes on.\<close>

theorem abort_received:
  assumes s: "wf_state s"
  shows "(content (rx_buf s) = enc_ctrl SSTP_MSG_ABORT [] \<longrightarrow>
      sstp_state_handle_packet w s = Some (SSTP_OKAY, s))
    \<and> (8 \<le> length d \<and> length d < 32764
       \<and> content (rx_buf s) = enc_ctrl SSTP_MSG_ABORT [(SSTP_ATTR_STATUS_INFO, d)] \<longrightarrow>
      (\<exists>v. rd32 d 4 = Some v \<and> sstp_state_handle_packet w s = do {
         (r, c) \<leftarrow> call_state w SSTP_CALL_ABORT
           (s\<lparr>rx_buf := (rx_buf s)\<lparr>b_off := int (length d) + 4\<rparr>, st_status := v\<rparr>);
         Some (SSTP_OKAY, c) }))"
proof (intro conjI impI; (elim conjE)?)
  assume c: "content (rx_buf s) = enc_ctrl SSTP_MSG_ABORT []"
  then have h: "holds (rx_buf s) (enc_ctrl SSTP_MSG_ABORT [])" "b_max (rx_buf s) = 16384"
    using s by (simp_all add: holds_def wf_state_def)
  then have "b_len (rx_buf s) = 8" by (simp add: holds_iff length_enc_ctrl enc_attrs_def)
  then have "sstp_state_connect_nak s = Some (SSTP_FAIL, s)"
    by (simp add: sstp_state_connect_nak_def parse_short)
  then show "sstp_state_handle_packet w s = Some (SSTP_OKAY, s)"
    using handle_packet_ctrl [OF h] by (simp add: sstp_state_handle_ctrl_def)
next
  assume d: "8 \<le> length d" "length d < 32764"
    and c: "content (rx_buf s) = enc_ctrl SSTP_MSG_ABORT [(SSTP_ATTR_STATUS_INFO, d)]"
  then have h: "holds (rx_buf s) (enc_ctrl SSTP_MSG_ABORT [(SSTP_ATTR_STATUS_INFO, d)])"
    "b_max (rx_buf s) = 16384"
    using s by (simp_all add: holds_def wf_state_def)
  obtain v where v: "rd32 d 4 = Some v" "sstp_state_connect_nak s =
     Some (SSTP_OKAY, s\<lparr>rx_buf := (rx_buf s)\<lparr>b_off := int (length d) + 4\<rparr>, st_status := v\<rparr>)"
    using connect_nak_one [OF h(1) d] by blast
  let ?s = "s\<lparr>rx_buf := (rx_buf s)\<lparr>b_off := int (length d) + 4\<rparr>, st_status := v\<rparr>"
  have "sstp_state_handle_packet w s = do { (r, c) \<leftarrow> call_state w SSTP_CALL_ABORT ?s; Some (SSTP_OKAY, c) }"
    using handle_packet_ctrl [OF h, of w] v
    by (cases "call_state w SSTP_CALL_ABORT ?s") (auto simp: sstp_state_handle_ctrl_def)
  then show "\<exists>v. rd32 d 4 = Some v \<and> sstp_state_handle_packet w s = do {
         (r, c) \<leftarrow> call_state w SSTP_CALL_ABORT
           (s\<lparr>rx_buf := (rx_buf s)\<lparr>b_off := int (length d) + 4\<rparr>, st_status := v\<rparr>);
         Some (SSTP_OKAY, c) }" using v by blast
qed

lemma abort_received_witness:
  "sstp_state_handle_packet recorder_world
      (recorder_start\<lparr>rx_buf := rx_with (enc_ctrl SSTP_MSG_ABORT [])\<rparr>)
    = Some (SSTP_OKAY, recorder_start\<lparr>rx_buf := rx_with (enc_ctrl SSTP_MSG_ABORT [])\<rparr>)"
proof -
  have l: "length (enc_ctrl SSTP_MSG_ABORT []) \<le> 16384" by (simp add: length_enc_ctrl enc_attrs_def)
  have c: "content (rx_buf (recorder_start\<lparr>rx_buf := rx_with (enc_ctrl SSTP_MSG_ABORT [])\<rparr>)) = enc_ctrl SSTP_MSG_ABORT []"
    using holds_rx_with [OF l] by (simp add: holds_def)
  show ?thesis using abort_received [OF wf_recorder_rx [OF l], of recorder_world "[]"] c by simp
qed

end
