(* ===== verification/Stream.thy ===== *)
theory Stream
  imports Packet
begin

text \<open>
  The TLS stream, \<^verbatim>\<open>sstp/sstp-stream.c\<close>: the queue of sends, the receive operation with the
  SSTP and HTTP readers, connection and handshake, the checks of the peer's certificate.

  OpenSSL, the sockets and libevent are outside: the answers of \<^verbatim>\<open>SSL_write\<close>,
  \<^verbatim>\<open>SSL_read\<close> and \<^verbatim>\<open>SSL_do_handshake\<close> are lists the stream consumes one after the other (an
  exhausted list means that the call would block), a pending event is an optional record that
  firing clears. Buffers are shared by address, as in the code: an operation holds the number of
  its buffer and \<open>bufs\<close> is the store. A completion callback may call back into the stream; it is
  the parameter \<open>complete\<close> on the whole state. \<open>None\<close> is a memory error.
\<close>

section \<open>Data\<close>

text \<open>An answer \<open>Wrote k\<close> accepts \<open>k + 1\<close> bytes, or all there are; \<open>Got bs\<close> is one TLS record.\<close>

datatype wr_answer = Wrote nat | Wr_want_read | Wr_want_write | Wr_error
datatype rd_answer = Got bytes | Rd_want_read | Rd_want_write | Rd_error
datatype hs_answer = Hs_done | Hs_odd | Hs_want_read | Hs_want_write | Hs_error

datatype io_end = Io_done | Io_want_read | Io_want_write | Io_error

datatype recv_fn = Recv_plain | Recv_http | Recv_sstp
datatype event_fn = Fn_recv_cont | Fn_send_cont | Fn_send_cont_plain | Fn_connect_complete | Fn_handshake_cont

record event =
  ev_write :: bool          \<comment> \<open>\<^verbatim>\<open>EV_WRITE\<close>, otherwise \<^verbatim>\<open>EV_READ\<close>\<close>
  ev_tout :: "int option"
  ev_fn :: event_fn

record 'c operation =
  op_tout :: int
  op_buf :: "nat option"
  op_complete :: 'c         \<comment> \<open>\<open>complete\<close> and \<open>arg\<close>\<close>

record 'c stream =
  ssock :: int
  rsock :: int
  activity :: int             \<comment> \<open>\<open>last\<close>\<close>
  ssl_on :: bool          \<comment> \<open>\<open>ssl\<close> is not null\<close>
  recv_cb :: recv_fn
  send_cb :: event_fn
  ev_recv :: "event option"
  recv_op :: "'c operation"
  ev_send :: "event option"
  send_q :: "'c operation list"
  cache :: "'c operation list"
  bufs :: "nat \<Rightarrow> sstp_buff"
  io_wr :: "wr_answer list"
  io_rd :: "rd_answer list"
  io_hs :: "hs_answer list"
  io_now :: int
  io_mem :: bool
  io_add :: bool
  io_out :: bytes         \<comment> \<open>what has been written so far\<close>
  stream_arg :: "'c \<Rightarrow> 'c"   \<comment> \<open>the same callback with the stream for its argument\<close>

section \<open>Operations\<close>

text \<open>
  A free operation: from the heap, which is not checked for null, or the first of the cache.
  \<open>op->next\<close> is cleared before the cache is set to it, so the cache is emptied.
\<close>

definition sstp_operation_get ::
    "('c, 'z) stream_scheme \<Rightarrow> nat option \<Rightarrow> int \<Rightarrow> 'c \<Rightarrow> ('c operation \<times> ('c, 'z) stream_scheme) option" where
  "sstp_operation_get ctx buf timeout c =
     (let op = \<lparr>op_tout = timeout, op_buf = buf, op_complete = c\<rparr> in
      if cache ctx = [] then (if io_mem ctx then Some (op, ctx) else None)
      else Some (op, ctx\<lparr>cache := []\<rparr>))"

definition sstp_operation_append :: "'c operation list \<Rightarrow> 'c operation \<Rightarrow> 'c operation list" where
  "sstp_operation_append head item = head @ [item]"

definition tout :: "int \<Rightarrow> int option" where
  "tout t = (if t > 0 then Some t else None)"

definition sstp_operation_add_read ::
    "('c, 'z) stream_scheme \<Rightarrow> nat option \<Rightarrow> bool \<Rightarrow> int \<Rightarrow> 'c \<Rightarrow> status_t \<times> ('c, 'z) stream_scheme" where
  "sstp_operation_add_read ctx buf wr timeout c =
     (let ctx = ctx\<lparr>recv_op := \<lparr>op_tout = timeout, op_buf = buf, op_complete = c\<rparr>, ev_recv := None\<rparr> in
      if io_add ctx
      then (SSTP_OKAY, ctx\<lparr>ev_recv := Some \<lparr>ev_write = wr, ev_tout = tout timeout, ev_fn = Fn_recv_cont\<rparr>\<rparr>)
      else (SSTP_FAIL, ctx))"

definition sstp_operation_add_write ::
    "('c, 'z) stream_scheme \<Rightarrow> nat option \<Rightarrow> bool \<Rightarrow> int \<Rightarrow> 'c \<Rightarrow>
     (status_t \<times> ('c, 'z) stream_scheme) option" where
  "sstp_operation_add_write ctx buf wr timeout c = do {
     (op, ctx) \<leftarrow> sstp_operation_get ctx buf timeout c;
     let ctx = ctx\<lparr>send_q := sstp_operation_append (send_q ctx) op\<rparr>;
     Some (if ev_send ctx \<noteq> None then (SSTP_INPROG, ctx)
           else (SSTP_OKAY,
             if io_add ctx
             then ctx\<lparr>ev_send := Some \<lparr>ev_write = wr, ev_tout = tout timeout, ev_fn = send_cb ctx\<rparr>\<rparr>
             else ctx)) }"

section \<open>Sending\<close>

text \<open>The loop around \<^verbatim>\<open>SSL_write\<close>.\<close>

fun write_loop ::
    "wr_answer list \<Rightarrow> sstp_buff \<Rightarrow> bytes \<Rightarrow> (io_end \<times> wr_answer list \<times> sstp_buff \<times> bytes) option" where
  "write_loop [] b out = do {
     d \<leftarrow> rd_n (b_data b) (b_off b) (b_len b - b_off b);
     Some (Io_want_write, [], b, out) }"
| "write_loop (a # as) b out = do {
     d \<leftarrow> rd_n (b_data b) (b_off b) (b_len b - b_off b);
     case a of
       Wrote k \<Rightarrow>
         (let n = min (Suc k) (length d);
              b = b\<lparr>b_off := b_off b + int n\<rparr>;
              out = out @ take n d in
          if b_off b < b_len b then write_loop as b out else Some (Io_done, as, b, out))
     | Wr_want_read \<Rightarrow> Some (Io_want_read, as, b, out)
     | Wr_want_write \<Rightarrow> Some (Io_want_write, as, b, out)
     | Wr_error \<Rightarrow> Some (Io_error, as, b, out) }"

definition sstp_stream_send ::
    "('c, 'z) stream_scheme \<Rightarrow> nat option \<Rightarrow> 'c \<Rightarrow> int \<Rightarrow> (status_t \<times> ('c, 'z) stream_scheme) option" where
  "sstp_stream_send ctx buf c timeout =
     (let ctx = ctx\<lparr>activity := io_now ctx, send_cb := Fn_send_cont\<rparr> in
      if ev_send ctx \<noteq> None
      then map_option (\<lambda>(r, ctx). (SSTP_INPROG, ctx)) (sstp_operation_add_write ctx buf True timeout c)
      else case buf of
        None \<Rightarrow> None
      | Some i \<Rightarrow> do {
          (e, as, b, out) \<leftarrow> write_loop (io_wr ctx) (bufs ctx i) (io_out ctx);
          let ctx = ctx\<lparr>io_wr := as, bufs := (bufs ctx)(i := b), io_out := out\<rparr>;
          case e of
            Io_done \<Rightarrow> Some (SSTP_OKAY, ctx)
          | Io_want_read \<Rightarrow>
              map_option (\<lambda>(r, ctx). (SSTP_INPROG, ctx)) (sstp_operation_add_write ctx buf False timeout c)
          | Io_want_write \<Rightarrow>
              map_option (\<lambda>(r, ctx). (SSTP_INPROG, ctx)) (sstp_operation_add_write ctx buf True timeout c)
          | Io_error \<Rightarrow> Some (SSTP_FAIL, ctx) })"

partial_function (option) sstp_send_cont ::
    "('c \<Rightarrow> nat option \<Rightarrow> status_t \<Rightarrow> ('c, 'z) stream_scheme \<Rightarrow> ('c, 'z) stream_scheme option) \<Rightarrow>
     ('c, 'z) stream_scheme \<Rightarrow> ('c, 'z) stream_scheme option" where
  "sstp_send_cont complete ctx =
     (case send_q ctx of
        [] \<Rightarrow> Some ctx
      | op # rest \<Rightarrow>
          Option.bind (sstp_stream_send (ctx\<lparr>send_q := rest\<rparr>) (op_buf op) (op_complete op) (op_tout op))
            (\<lambda>r. if fst r = SSTP_INPROG then Some (snd r)
                 else Option.bind (complete (op_complete op) (op_buf op) (fst r) (snd r))
                   (\<lambda>ctx. sstp_send_cont complete (ctx\<lparr>cache := op # cache ctx\<rparr>))))"

text \<open>Before TLS: the answers of \<^verbatim>\<open>send\<close> are those of \<open>io_wr\<close>, one call at a time.\<close>

definition sstp_stream_send_plain ::
    "('c, 'z) stream_scheme \<Rightarrow> nat option \<Rightarrow> 'c \<Rightarrow> int \<Rightarrow> (status_t \<times> ('c, 'z) stream_scheme) option" where
  "sstp_stream_send_plain ctx buf c timeout =
     (case buf of
        None \<Rightarrow> None
      | Some i \<Rightarrow> do {
          let b = bufs ctx i;
          d \<leftarrow> rd_n (b_data b) (b_off b) (b_len b - b_off b);
          case io_wr ctx of
            Wrote k # as \<Rightarrow> do {
              let n = min (Suc k) (length d);
              let b = b\<lparr>b_off := b_off b + int n\<rparr>;
              let ctx = ctx\<lparr>io_wr := as, bufs := (bufs ctx)(i := b), io_out := io_out ctx @ take n d\<rparr>;
              if n = 0 then Some (SSTP_FAIL, ctx)
              else if b_off b < b_len b
              then map_option (\<lambda>(r, ctx). (SSTP_INPROG, ctx))
                     (sstp_operation_add_write (ctx\<lparr>send_cb := Fn_send_cont_plain\<rparr>) buf True timeout (stream_arg ctx c))
              else Some (SSTP_OKAY, ctx) }
          | as \<Rightarrow> Some (SSTP_FAIL, ctx\<lparr>io_wr := tl as\<rparr>) })"

text \<open>
  After the callback the queue is set to what followed the operation: a send queued by the
  callback stays only when something followed it already.
\<close>

definition sstp_send_cont_plain ::
    "('c \<Rightarrow> nat option \<Rightarrow> status_t \<Rightarrow> ('c, 'z) stream_scheme \<Rightarrow> ('c, 'z) stream_scheme option) \<Rightarrow>
     ('c, 'z) stream_scheme \<Rightarrow> ('c, 'z) stream_scheme option" where
  "sstp_send_cont_plain complete ctx =
     (case send_q ctx of
        [] \<Rightarrow> None
      | op # rest \<Rightarrow> do {
          (ret, ctx) \<leftarrow> sstp_stream_send_plain (ctx\<lparr>send_q := rest\<rparr>) (op_buf op) (op_complete op) (op_tout op);
          if ret = SSTP_INPROG then Some ctx
          else do {
            ctx \<leftarrow> complete (op_complete op) (op_buf op) ret ctx;
            Some (ctx\<lparr>send_q := (if rest = [] then [] else send_q ctx), cache := op # cache ctx\<rparr>) } })"

section \<open>Receiving\<close>

fun rd_size :: "rd_answer \<Rightarrow> nat" where
  "rd_size (Got bs) = Suc (length bs)"
| "rd_size _ = 1"

text \<open>
  One \<^verbatim>\<open>SSL_read\<close> of at most \<open>n\<close> bytes stored at the offset of the buffer. What the record
  still holds is left for the next call; a read of no bytes or at the end of the stream is an
  error.
\<close>

definition ssl_read ::
    "rd_answer list \<Rightarrow> sstp_buff \<Rightarrow> int \<Rightarrow> (io_end \<times> rd_answer list \<times> sstp_buff) option" where
  "ssl_read as b n =
     (case as of
        [] \<Rightarrow> Some (Io_want_read, [], b)
      | Rd_want_read # as \<Rightarrow> Some (Io_want_read, as, b)
      | Rd_want_write # as \<Rightarrow> Some (Io_want_write, as, b)
      | Rd_error # as \<Rightarrow> Some (Io_error, as, b)
      | Got bs # as \<Rightarrow>
          if bs = [] \<or> n \<le> 0 then Some (Io_error, as, b)
          else do {
            let x = take (nat n) bs;
            d \<leftarrow> wr_n (b_data b) (b_off b) x;
            Some (Io_done, if length x < length bs then Got (drop (nat n) bs) # as else as,
                  b\<lparr>b_data := d, b_off := b_off b + int (length x)\<rparr>) })"

lemma ssl_read_decreases:
  "ssl_read as b n = Some (Io_done, as', b') \<Longrightarrow> sum_list (map rd_size as') < sum_list (map rd_size as)"
  by (auto simp: ssl_read_def Let_def split: list.splits rd_answer.splits if_splits Option.bind_splits)

text \<open>The loop of \<open>sstp_stream_recv_sstp\<close>: the header first, then the whole packet.\<close>

function recv_sstp_loop ::
    "rd_answer list \<Rightarrow> sstp_buff \<Rightarrow> (io_end \<times> rd_answer list \<times> sstp_buff) option" where
  "recv_sstp_loop as b =
     (case (if 4 \<le> b_off b then sstp_pkt_len b else Some 4) of
        None \<Rightarrow> None
      | Some l \<Rightarrow>
          (case ssl_read as (b\<lparr>b_len := l\<rparr>) (l - b_off b) of
             None \<Rightarrow> None
           | Some (e, as', b') \<Rightarrow>
               if e \<noteq> Io_done then Some (e, as', b')
               else (case sstp_pkt_len b' of
                       None \<Rightarrow> None
                     | Some l' \<Rightarrow> if b_off b' < l' then recv_sstp_loop as' b' else Some (Io_done, as', b'))))"
  by pat_completeness auto
termination
  by (relation "measure (\<lambda>(as, b). sum_list (map rd_size as))") (auto dest: ssl_read_decreases)

declare recv_sstp_loop.simps [simp del]

text \<open>The end of the HTTP header.\<close>

definition sstp_http_header_complete :: "sstp_buff \<Rightarrow> bool option" where
  "sstp_http_header_complete buf =
     (let n = b_off buf in do {
        a \<leftarrow> (if n \<ge> 4 then map_option (\<lambda>l. l = [13, 10, 13, 10]) (rd_n (b_data buf) (n - 4) 4) else Some False);
        b \<leftarrow> (if n \<ge> 2 then map_option (\<lambda>l. l = [10, 10]) (rd_n (b_data buf) (n - 2) 2) else Some False);
        Some (a \<or> b) })"

text \<open>
  The status is set to success by the first read, and an error of a later one leaves it so: the
  flag \<open>got\<close> says that a read of this call has succeeded.
\<close>

function recv_http_loop ::
    "bool \<Rightarrow> rd_answer list \<Rightarrow> sstp_buff \<Rightarrow> (io_end \<times> rd_answer list \<times> sstp_buff) option" where
  "recv_http_loop got as b =
     (case ssl_read as b (b_max b - b_off b) of
        None \<Rightarrow> None
      | Some (e, as', b') \<Rightarrow>
          if e = Io_error \<and> got then Some (Io_done, as', b')
          else if e \<noteq> Io_done then Some (e, as', b')
          else (case sstp_http_header_complete b' of
                  None \<Rightarrow> None
                | Some done \<Rightarrow> if done then Some (Io_done, as', b') else recv_http_loop True as' b'))"
  by pat_completeness auto
termination
  by (relation "measure (\<lambda>(got, as, b). sum_list (map rd_size as))") (auto dest: ssl_read_decreases)

declare recv_http_loop.simps [simp del]

text \<open>After a read that would block the operation is armed again.\<close>

definition recv_with ::
    "(rd_answer list \<Rightarrow> sstp_buff \<Rightarrow> (io_end \<times> rd_answer list \<times> sstp_buff) option) \<Rightarrow>
     ('c, 'z) stream_scheme \<Rightarrow> nat option \<Rightarrow> 'c \<Rightarrow> int \<Rightarrow> (status_t \<times> ('c, 'z) stream_scheme) option" where
  "recv_with loop ctx buf c timeout =
     (case buf of
        None \<Rightarrow> None
      | Some i \<Rightarrow> do {
          (e, as, b) \<leftarrow> loop (io_rd ctx) (bufs ctx i);
          let ctx = ctx\<lparr>activity := io_now ctx, io_rd := as, bufs := (bufs ctx)(i := b)\<rparr>;
          Some (case e of
            Io_done \<Rightarrow> (SSTP_OKAY, ctx)
          | Io_want_read \<Rightarrow> (SSTP_INPROG, snd (sstp_operation_add_read ctx buf False timeout c))
          | Io_want_write \<Rightarrow> (SSTP_INPROG, snd (sstp_operation_add_read ctx buf True timeout c))
          | Io_error \<Rightarrow> (SSTP_FAIL, ctx)) })"

definition sstp_stream_recv_sstp ::
    "('c, 'z) stream_scheme \<Rightarrow> nat option \<Rightarrow> 'c \<Rightarrow> int \<Rightarrow> (status_t \<times> ('c, 'z) stream_scheme) option" where
  "sstp_stream_recv_sstp = recv_with recv_sstp_loop"

definition sstp_stream_recv_http ::
    "('c, 'z) stream_scheme \<Rightarrow> nat option \<Rightarrow> 'c \<Rightarrow> int \<Rightarrow> (status_t \<times> ('c, 'z) stream_scheme) option" where
  "sstp_stream_recv_http = recv_with (recv_http_loop False)"

text \<open>Before TLS one \<^verbatim>\<open>recv\<close>, whose answers are those of \<open>io_rd\<close>; any answer but data fails.\<close>

definition sstp_stream_recv_plain ::
    "('c, 'z) stream_scheme \<Rightarrow> nat option \<Rightarrow> 'c \<Rightarrow> int \<Rightarrow> (status_t \<times> ('c, 'z) stream_scheme) option" where
  "sstp_stream_recv_plain ctx buf c timeout =
     (case buf of
        None \<Rightarrow> None
      | Some i \<Rightarrow> do {
          let ctx = ctx\<lparr>recv_cb := Recv_plain\<rparr>;
          let b = bufs ctx i;
          (e, as, b) \<leftarrow> ssl_read (io_rd ctx) b (b_max b - b_off b);
          let ctx = ctx\<lparr>io_rd := as, bufs := (bufs ctx)(i := b)\<rparr>;
          Some (if e = Io_done then SSTP_OKAY else SSTP_FAIL, ctx) })"

definition call_recv ::
    "recv_fn \<Rightarrow> ('c, 'z) stream_scheme \<Rightarrow> nat option \<Rightarrow> 'c \<Rightarrow> int \<Rightarrow> (status_t \<times> ('c, 'z) stream_scheme) option" where
  "call_recv f = (case f of Recv_plain \<Rightarrow> sstp_stream_recv_plain
     | Recv_http \<Rightarrow> sstp_stream_recv_http | Recv_sstp \<Rightarrow> sstp_stream_recv_sstp)"

definition sstp_recv_cont ::
    "('c \<Rightarrow> nat option \<Rightarrow> status_t \<Rightarrow> ('c, 'z) stream_scheme \<Rightarrow> ('c, 'z) stream_scheme option) \<Rightarrow>
     bool \<Rightarrow> ('c, 'z) stream_scheme \<Rightarrow> ('c, 'z) stream_scheme option" where
  "sstp_recv_cont complete timed_out ctx =
     (let op = recv_op ctx in
      if timed_out then complete (op_complete op) (op_buf op) SSTP_TIMEOUT ctx
      else do {
        (ret, ctx) \<leftarrow> call_recv (recv_cb ctx) ctx (op_buf op) (op_complete op) (op_tout op);
        if ret = SSTP_INPROG then Some ctx
        else complete (op_complete (recv_op ctx)) (op_buf (recv_op ctx)) ret ctx })"

definition sstp_stream_setrecv ::
    "('c, 'z) stream_scheme \<Rightarrow> recv_fn \<Rightarrow> nat \<Rightarrow> 'c \<Rightarrow> int \<Rightarrow> ('c, 'z) stream_scheme" where
  "sstp_stream_setrecv ctx f i c timeout =
     (let ctx = snd (sstp_operation_add_read (ctx\<lparr>recv_cb := f\<rparr>) (Some i) False timeout c) in
      ctx\<lparr>bufs := (bufs ctx)(i := sstp_buff_reset (bufs ctx i))\<rparr>)"

definition sstp_stream_req_recv :: "('c, 'z) stream_scheme \<Rightarrow> ('c, 'z) stream_scheme" where
  "sstp_stream_req_recv ctx =
     (let op = recv_op ctx in
      snd (sstp_operation_add_read ctx (op_buf op) False (op_tout op) (op_complete op)))"

section \<open>Connection and handshake\<close>

definition sstp_ssl_handshake_arm :: "('c, 'z) stream_scheme \<Rightarrow> bool \<Rightarrow> int \<Rightarrow> ('c, 'z) stream_scheme" where
  "sstp_ssl_handshake_arm ctx wr timeout =
     ctx\<lparr>ev_send := (if io_add ctx
        then Some \<lparr>ev_write = wr, ev_tout = tout timeout, ev_fn = Fn_handshake_cont\<rparr> else None)\<rparr>"

text \<open>The connect operation is taken off the queue and put in the cache, then completed.\<close>

definition finish_connect ::
    "('c \<Rightarrow> nat option \<Rightarrow> status_t \<Rightarrow> ('c, 'z) stream_scheme \<Rightarrow> ('c, 'z) stream_scheme option) \<Rightarrow>
     'c operation \<Rightarrow> status_t \<Rightarrow> ('c, 'z) stream_scheme \<Rightarrow> ('c, 'z) stream_scheme option" where
  "finish_connect complete op status ctx =
     complete (op_complete op) None status (ctx\<lparr>send_q := tl (send_q ctx), cache := op # cache ctx\<rparr>)"

definition sstp_ssl_handshake_cont ::
    "('c \<Rightarrow> nat option \<Rightarrow> status_t \<Rightarrow> ('c, 'z) stream_scheme \<Rightarrow> ('c, 'z) stream_scheme option) \<Rightarrow>
     bool \<Rightarrow> ('c, 'z) stream_scheme \<Rightarrow> ('c, 'z) stream_scheme option" where
  "sstp_ssl_handshake_cont complete timed_out ctx =
     (case send_q ctx of
        [] \<Rightarrow> Some ctx
      | op # _ \<Rightarrow>
          (let timeout = (if op_tout op > 0 then op_tout op else 60);
               finish = (\<lambda>st ctx. finish_connect complete op st (ctx\<lparr>ev_send := None\<rparr>)) in
           if timed_out then finish SSTP_FAIL ctx
           else if \<not> ssl_on ctx then None
           else case io_hs ctx of
             [] \<Rightarrow> Some (sstp_ssl_handshake_arm ctx False timeout)
           | a # as \<Rightarrow>
               (let ctx = ctx\<lparr>io_hs := as\<rparr> in
                case a of
                  Hs_done \<Rightarrow> finish SSTP_CONNECTED ctx
                | Hs_odd \<Rightarrow> finish SSTP_FAIL ctx
                | Hs_want_read \<Rightarrow> Some (sstp_ssl_handshake_arm ctx False timeout)
                | Hs_want_write \<Rightarrow> Some (sstp_ssl_handshake_arm ctx True timeout)
                | Hs_error \<Rightarrow> finish SSTP_FAIL ctx)))"

text \<open>What the socket and TLS calls of the connection answer.\<close>

datatype conn_answer = Conn_done | Conn_in_progress | Conn_error

record conn_env =
  new_socket :: int         \<comment> \<open>\<^verbatim>\<open>socket\<close>\<close>
  dup_socket :: int
  nonbl_ok :: "int \<Rightarrow> bool"
  sndbuf_ok :: bool
  connect_answer :: conn_answer
  ssl_new_ok :: bool
  ssl_fd_ok :: bool
  sni_ok :: bool

definition sstp_stream_setup :: "conn_env \<Rightarrow> bool \<Rightarrow> ('c, 'z) stream_scheme \<Rightarrow> status_t \<times> ('c, 'z) stream_scheme" where
  "sstp_stream_setup env tlsext ctx =
     (if \<not> ssl_new_ok env then (SSTP_FAIL, ctx\<lparr>ssl_on := False\<rparr>)
      else if \<not> ssl_fd_ok env then (SSTP_FAIL, ctx\<lparr>ssl_on := False\<rparr>)
      else if tlsext \<and> \<not> sni_ok env then (SSTP_FAIL, ctx\<lparr>ssl_on := False\<rparr>)
      else (SSTP_OKAY, ctx\<lparr>ssl_on := True\<rparr>))"

text \<open>
  The name that the certificate must have (\<^verbatim>\<open>SSL_set1_host\<close>) and the log of it set no field of the stream: what OpenSSL makes of
  the name is part of what the handshake answers (\<open>io_hs\<close>).
\<close>

definition sstp_connect_complete ::
    "('c \<Rightarrow> nat option \<Rightarrow> status_t \<Rightarrow> ('c, 'z) stream_scheme \<Rightarrow> ('c, 'z) stream_scheme option) \<Rightarrow>
     conn_env \<Rightarrow> bool \<Rightarrow> bool \<Rightarrow> ('c, 'z) stream_scheme \<Rightarrow> ('c, 'z) stream_scheme option" where
  "sstp_connect_complete complete env tlsext timed_out ctx =
     (case send_q ctx of
        [] \<Rightarrow> Some ctx
      | op # _ \<Rightarrow>
          if timed_out then finish_connect complete op SSTP_TIMEOUT ctx
          else (let (ret, ctx) = sstp_stream_setup env tlsext ctx in
                if ret \<noteq> SSTP_OKAY then finish_connect complete op SSTP_FAIL ctx
                else sstp_ssl_handshake_cont complete False ctx))"

text \<open>Closing sets no field: the numbers of closed sockets stay in the stream.\<close>

definition sstp_stream_connect ::
    "conn_env \<Rightarrow> ('c, 'z) stream_scheme \<Rightarrow> 'c \<Rightarrow> int \<Rightarrow> (status_t \<times> ('c, 'z) stream_scheme) option" where
  "sstp_stream_connect env ctx c timeout =
     (let ctx = ctx\<lparr>ssock := new_socket env\<rparr> in
      if new_socket env < 0 then Some (SSTP_FAIL, ctx)
      else let ctx = ctx\<lparr>rsock := dup_socket env\<rparr> in
      if \<not> nonbl_ok env (ssock ctx) \<or> \<not> nonbl_ok env (rsock ctx) then Some (SSTP_FAIL, ctx)
      else case connect_answer env of
        Conn_done \<Rightarrow> Some (SSTP_OKAY, ctx)
      | Conn_error \<Rightarrow> Some (SSTP_FAIL, ctx)
      | Conn_in_progress \<Rightarrow> do {
          (ret, ctx) \<leftarrow> sstp_operation_add_write (ctx\<lparr>send_cb := Fn_connect_complete\<rparr>) None True timeout c;
          Some (if ret \<noteq> SSTP_OKAY then SSTP_FAIL else SSTP_INPROG, ctx) })"

text \<open>
  The stream is released (\<open>None\<close> for the stream) unless it has no socket or the socket cannot
  be made blocking. \<^verbatim>\<open>SSL_shutdown\<close> gets a null pointer when TLS was not set up (\<open>ssl_on\<close>), which OpenSSL 3 answers with an
  error and earlier versions read; the definition takes the answer.
\<close>

definition sstp_stream_destroy :: "bool \<Rightarrow> ('c, 'z) stream_scheme \<Rightarrow> status_t \<times> ('c, 'z) stream_scheme option" where
  "sstp_stream_destroy blocking_ok ctx =
     (if ssock ctx \<le> 0 then (SSTP_FAIL, Some ctx)
      else if \<not> blocking_ok then (SSTP_FAIL, Some ctx)
      else (SSTP_OKAY, None))"

definition sstp_last_activity :: "('c, 'z) stream_scheme \<Rightarrow> int \<Rightarrow> status_t" where
  "sstp_last_activity ctx seconds = (if io_now ctx - activity ctx > seconds then SSTP_FAIL else SSTP_OKAY)"

text \<open>libevent calls the function of a pending event, which is pending no longer.\<close>

definition fire_send ::
    "('c \<Rightarrow> nat option \<Rightarrow> status_t \<Rightarrow> ('c, 'z) stream_scheme \<Rightarrow> ('c, 'z) stream_scheme option) \<Rightarrow>
     conn_env \<Rightarrow> bool \<Rightarrow> bool \<Rightarrow> ('c, 'z) stream_scheme \<Rightarrow> ('c, 'z) stream_scheme option" where
  "fire_send complete env tlsext timed_out ctx =
     (case ev_send ctx of
        None \<Rightarrow> Some ctx
      | Some e \<Rightarrow>
          (let ctx = ctx\<lparr>ev_send := None\<rparr> in
           case ev_fn e of
             Fn_send_cont \<Rightarrow> sstp_send_cont complete ctx
           | Fn_send_cont_plain \<Rightarrow> sstp_send_cont_plain complete ctx
           | Fn_connect_complete \<Rightarrow> sstp_connect_complete complete env tlsext timed_out ctx
           | Fn_handshake_cont \<Rightarrow> sstp_ssl_handshake_cont complete timed_out ctx
           | Fn_recv_cont \<Rightarrow> sstp_recv_cont complete timed_out ctx))"

definition fire_recv ::
    "('c \<Rightarrow> nat option \<Rightarrow> status_t \<Rightarrow> ('c, 'z) stream_scheme \<Rightarrow> ('c, 'z) stream_scheme option) \<Rightarrow>
     bool \<Rightarrow> ('c, 'z) stream_scheme \<Rightarrow> ('c, 'z) stream_scheme option" where
  "fire_recv complete timed_out ctx =
     (case ev_recv ctx of
        None \<Rightarrow> Some ctx
      | Some e \<Rightarrow> sstp_recv_cont complete timed_out (ctx\<lparr>ev_recv := None\<rparr>))"

section \<open>The certificate of the peer\<close>

text \<open>OpenSSL's view of the peer: its certificate and the checks of it.\<close>

record 'x tls_peer =
  peer_cert :: "'x option"
  chain_result :: int             \<comment> \<open>\<^verbatim>\<open>SSL_get_verify_result\<close>, 0 is \<^verbatim>\<open>X509_V_OK\<close>\<close>
  check_host :: "'x \<Rightarrow> string \<Rightarrow> bool"
  check_ip :: "'x \<Rightarrow> string \<Rightarrow> bool"
  x509_digest :: "bool \<Rightarrow> 'x \<Rightarrow> bytes option"    \<comment> \<open>SHA-256 or SHA-1\<close>
  ip_text :: "string \<Rightarrow> bool"      \<comment> \<open>\<^verbatim>\<open>inet_pton\<close> accepts it\<close>

definition SSTP_VERIFY_NAME :: nat where "SSTP_VERIFY_NAME = 1"
definition SSTP_VERIFY_CERT :: nat where "SSTP_VERIFY_CERT = 2"

text \<open>The hash buffer has \<open>hlen\<close> bytes; a digest longer than it overflows it.\<close>

definition sstp_get_cert_hash :: "('x, 'z) tls_peer_scheme \<Rightarrow> int \<Rightarrow> nat \<Rightarrow> (status_t \<times> bytes) option" where
  "sstp_get_cert_hash tls proto hlen =
     (case peer_cert tls of
        None \<Rightarrow> Some (SSTP_FAIL, replicate hlen 0)
      | Some x \<Rightarrow>
          (case x509_digest tls (uint SSTP_PROTO_HASH_SHA256 AND proto \<noteq> 0) x of
             None \<Rightarrow> Some (SSTP_FAIL, replicate hlen 0)
           | Some h \<Rightarrow> map_option (\<lambda>h. (SSTP_OKAY, h)) (wr_n (replicate hlen 0) 0 h)))"

definition sstp_host_is_ip_literal :: "('x, 'z) tls_peer_scheme \<Rightarrow> string option \<Rightarrow> bool" where
  "sstp_host_is_ip_literal tls host =
     (case host of None \<Rightarrow> False | Some h \<Rightarrow> h \<noteq> [] \<and> ip_text tls h)"

definition sstp_verify_cert :: "('x, 'z) tls_peer_scheme \<Rightarrow> string option \<Rightarrow> nat \<Rightarrow> status_t" where
  "sstp_verify_cert tls host opts =
     (let is_ip = sstp_host_is_ip_literal tls host in
      case peer_cert tls of
        None \<Rightarrow> SSTP_FAIL
      | Some peer \<Rightarrow>
          if SSTP_VERIFY_CERT AND opts \<noteq> 0 \<and> chain_result tls \<noteq> 0 then SSTP_FAIL
          else if SSTP_VERIFY_NAME AND opts \<noteq> 0 then
            (case host of
               None \<Rightarrow> SSTP_FAIL
             | Some h \<Rightarrow>
                 if h = [] then SSTP_FAIL
                 else if is_ip then (if check_ip tls peer h then SSTP_OKAY else SSTP_FAIL)
                 else (if check_host tls peer h then SSTP_OKAY else SSTP_FAIL))
          else SSTP_OKAY)"

definition sstp_stream_verify_result :: "('x, 'z) tls_peer_scheme \<Rightarrow> bool \<Rightarrow> int option" where
  "sstp_stream_verify_result tls ssl_set = (if ssl_set then Some (chain_result tls) else None)"

section \<open>Creation\<close>

text \<open>The environment of a new stream is the one given.\<close>

definition sstp_stream_create :: "('c, 'z) stream_scheme \<Rightarrow> 'c \<Rightarrow> status_t \<times> ('c, 'z) stream_scheme option" where
  "sstp_stream_create env c =
     (if \<not> io_mem env then (SSTP_FAIL, None)
      else (SSTP_OKAY, Some (env\<lparr>ssock := 0, rsock := 0, activity := 0, ssl_on := False,
        ev_recv := None, recv_op := \<lparr>op_tout = 0, op_buf = None, op_complete = c\<rparr>,
        ev_send := None, send_q := [], cache := []\<rparr>)))"

end
