(* ===== verification/StreamProofs.thy ===== *)
theory StreamProofs
  imports Stream "HOL-Library.Multiset"
begin

text \<open>
  Correctness of the TLS stream (theory \<open>Stream\<close>): framing of SSTP packets over TLS records,
  complete and conserved sends, the connection, the certificate check, and what the readers do
  not check.
\<close>

section \<open>What a list of answers delivers\<close>

definition rd_bytes :: "rd_answer list \<Rightarrow> bytes" where
  "rd_bytes as = concat (map (\<lambda>a. case a of Got bs \<Rightarrow> bs | _ \<Rightarrow> []) as)"

text \<open>No error, and no record without data.\<close>

definition honest_rd :: "rd_answer list \<Rightarrow> bool" where
  "honest_rd as \<longleftrightarrow> list_all (\<lambda>a. a \<noteq> Rd_error \<and> a \<noteq> Got []) as"

definition rd_waits :: "rd_answer list \<Rightarrow> nat" where
  "rd_waits as = length (filter (\<lambda>a. a = Rd_want_read \<or> a = Rd_want_write) as)"

text \<open>The first record holds a whole packet header.\<close>

fun header_whole :: "rd_answer list \<Rightarrow> bool" where
  "header_whole (Got bs # as) \<longleftrightarrow> 4 \<le> length bs"
| "header_whole (_ # as) \<longleftrightarrow> header_whole as"
| "header_whole [] \<longleftrightarrow> True"

text \<open>An SSTP packet: its length field is its length.\<close>

definition packet :: "bytes \<Rightarrow> bool" where
  "packet p \<longleftrightarrow> 4 \<le> length p \<and> rd16 p 2 = Some (of_nat (length p)) \<and> length p < 65536"

text \<open>The buffer holds the first \<open>k\<close> bytes of a packet.\<close>

definition partial :: "bytes \<Rightarrow> nat \<Rightarrow> sstp_buff \<Rightarrow> bool" where
  "partial p k b \<longleftrightarrow> int (length (b_data b)) = b_max b \<and> int (length p) \<le> b_max b \<and> 4 \<le> b_max b
     \<and> b_off b = int k \<and> k \<le> length p \<and> take k (b_data b) = take k p"

text \<open>
  What keeps the reader from stopping inside the header: the length bytes left in the buffer
  from before, alone and behind the first length byte of the packet, are at least 4.
\<close>

definition stale_ok :: "bytes \<Rightarrow> sstp_buff \<Rightarrow> bool" where
  "stale_ok p b \<longleftrightarrow> 4 \<le> un16 (b_data b ! 2) (b_data b ! 3) \<and> 4 \<le> un16 (p ! 2) (b_data b ! 3)"

definition header_ok :: "bytes \<Rightarrow> nat \<Rightarrow> rd_answer list \<Rightarrow> sstp_buff \<Rightarrow> bool" where
  "header_ok p k as b \<longleftrightarrow> 4 \<le> k \<or> stale_ok p b \<or> (k = 0 \<and> header_whole as)"

section \<open>One read\<close>

lemma rd_bytes_simps [simp]:
  "rd_bytes [] = []" "rd_bytes (Got bs # as) = bs @ rd_bytes as"
  "rd_bytes (Rd_want_read # as) = rd_bytes as" "rd_bytes (Rd_want_write # as) = rd_bytes as"
  by (simp_all add: rd_bytes_def)

lemma honest_rd_simps [simp]:
  "honest_rd []" "honest_rd (a # as) \<longleftrightarrow> a \<noteq> Rd_error \<and> a \<noteq> Got [] \<and> honest_rd as"
  by (simp_all add: honest_rd_def)

lemma rd_waits_simps [simp]:
  "rd_waits [] = 0" "rd_waits (Got bs # as) = rd_waits as"
  "rd_waits (Rd_want_read # as) = Suc (rd_waits as)" "rd_waits (Rd_want_write # as) = Suc (rd_waits as)"
  by (simp_all add: rd_waits_def)

lemma packet_len: "packet p \<Longrightarrow> 4 \<le> k \<Longrightarrow> take k (b_data b) = take k p \<Longrightarrow>
    sstp_pkt_len b = Some (int (length p))"
proof -
  assume p: "packet p" and k: "4 \<le> k" and t: "take k (b_data b) = take k p"
  have l: "4 \<le> length (take k (b_data b))" using p k t by (simp add: packet_def)
  have "take k (b_data b) ! 2 = take k p ! 2" "take k (b_data b) ! 3 = take k p ! 3" using t by simp_all
  then have "b_data b ! 2 = p ! 2" "b_data b ! 3 = p ! 3" "4 \<le> length (b_data b)"
    using l p k by (simp_all add: packet_def)
  moreover have "un16 (p ! 2) (p ! 3) = of_nat (length p)" "uint (of_nat (length p) :: u16) = int (length p)"
    using p by (auto simp: packet_def rd16_def rd_def unsigned_of_nat take_bit_nat_eq_self)
  ultimately show ?thesis by (simp add: sstp_pkt_len_def rd16_def rd_def)
qed

lemma wr_n_grow:
  assumes "partial p k b" "x = take n (drop k p)" "k + length x \<le> length p"
  shows "\<exists>d. wr_n (b_data b) (int k) x = Some d
    \<and> partial p (k + length x) (b\<lparr>b_len := l, b_data := d, b_off := int k + int (length x)\<rparr>)
    \<and> (\<forall>j \<ge> k + length x. d ! j = b_data b ! j)"
proof -
  have lx: "length x = min n (length p - k)" using assms(2) by simp
  have fit: "int k + int (length x) \<le> int (length (b_data b))" "length (b_data b) \<ge> k"
    using assms(1,3) by (auto simp: partial_def)
  define d where "d = take k (b_data b) @ x @ drop (k + length x) (b_data b)"
  have w: "wr_n (b_data b) (int k) x = Some d" using fit by (simp add: wr_n_def d_def)
  have ld: "length d = length (b_data b)" using fit by (simp add: d_def)
  have "take (k + length x) d = take k p @ x" using assms(1) fit by (simp add: d_def partial_def)
  also have "\<dots> = take (k + length x) p"
    unfolding take_add using assms(2) lx by (simp add: min_def)
  finally have t: "take (k + length x) d = take (k + length x) p" .
  have lt: "length (take k (b_data b) @ x) = k + length x" using fit by simp
  have "d ! j = b_data b ! j" if "k + length x \<le> j" for j
  proof -
    have "((take k (b_data b) @ x) @ drop (k + length x) (b_data b)) ! j
        = drop (k + length x) (b_data b) ! (j - (k + length x))"
      using that unfolding nth_append lt by simp
    also have "\<dots> = b_data b ! j" using that fit by simp
    finally show ?thesis by (simp add: d_def)
  qed
  then show ?thesis using w t ld assms(1,3) by (intro exI [of _ d]) (auto simp: partial_def)
qed

lemma ssl_read_step:
  assumes b: "partial p k b" and g: "k < g" "g \<le> length p" and h: "honest_rd as"
    and r: "rd_bytes as = drop k p @ rest"
  shows "(\<exists>e as'. ssl_read as (b\<lparr>b_len := l\<rparr>) (int g - int k) = Some (e, as', b\<lparr>b_len := l\<rparr>)
      \<and> (e = Io_want_read \<or> e = Io_want_write) \<and> honest_rd as' \<and> rd_bytes as' = drop k p @ rest
      \<and> rd_waits as = Suc (rd_waits as') \<and> header_whole as' = header_whole as)
    \<or> (\<exists>as' b' k'. ssl_read as (b\<lparr>b_len := l\<rparr>) (int g - int k) = Some (Io_done, as', b')
      \<and> honest_rd as' \<and> k < k' \<and> k' \<le> g \<and> partial p k' b' \<and> b_len b' = l \<and> b_max b' = b_max b
      \<and> rd_bytes as' = drop k' p @ rest \<and> rd_waits as' = rd_waits as
      \<and> (\<forall>j \<ge> k'. b_data b' ! j = b_data b ! j) \<and> (header_whole as \<and> g - k \<le> 4 \<longrightarrow> k' = g))"
proof (cases as)
  case Nil
  then show ?thesis using r g by simp
next
  case (Cons a as1)
  show ?thesis
  proof (cases a)
    case (Got bs)
    define x where "x = take (g - k) bs"
    have ne: "bs \<noteq> []" using h Cons Got by simp
    have lx: "length x = min (g - k) (length bs)" "0 < length x" using g ne by (simp_all add: x_def)
    have app: "bs @ rd_bytes as1 = drop k p @ rest" using r Cons Got by simp
    have pre: "x = take (length x) (drop k p)"
    proof -
      have "length x \<le> length (drop k p)" using lx g by simp
      then have "take (length x) (bs @ rd_bytes as1) = take (length x) (drop k p)" using app by simp
      then show ?thesis using lx by (simp add: x_def min_def split: if_splits)
    qed
    have kx: "k + length x \<le> length p" using lx g by simp
    obtain d where d: "wr_n (b_data b) (int k) x = Some d"
      "partial p (k + length x) (b\<lparr>b_len := l, b_data := d, b_off := int k + int (length x)\<rparr>)"
      "\<forall>j \<ge> k + length x. d ! j = b_data b ! j"
      using wr_n_grow [OF b pre kx, of l] by blast
    define as' where "as' = (if length x < length bs then Got (drop (g - k) bs) # as1 else as1)"
    define b' where "b' = b\<lparr>b_len := l, b_data := d, b_off := int k + int (length x)\<rparr>"
    have ng: "nat (int g - int k) = g - k" "\<not> int g - int k \<le> 0" using g by simp_all
    have "ssl_read as (b\<lparr>b_len := l\<rparr>) (int g - int k) = Some (Io_done, as', b')"
      using Cons Got ne d(1) b ng
      by (simp add: ssl_read_def Let_def as'_def b'_def x_def [symmetric] partial_def)
    moreover have "bs = x @ drop (g - k) bs" by (simp add: x_def)
    moreover have "rd_bytes as' = drop (length x) (bs @ rd_bytes as1)"
      using lx by (auto simp: as'_def min_def)
    moreover have "drop (length x) (drop k p @ rest) = drop (k + length x) p @ rest"
      using lx g by (simp add: add.commute)
    moreover have "honest_rd as'" using h Cons Got lx by (auto simp: as'_def min_def)
    moreover have "rd_waits as' = rd_waits as" using Cons Got by (simp add: as'_def)
    moreover have "header_whole as \<and> g - k \<le> 4 \<longrightarrow> k + length x = g" using lx g Cons Got by auto
    ultimately show ?thesis
      using d(2,3) lx g app
      by (intro disjI2 exI [of _ as'] exI [of _ b'] exI [of _ "k + length x"]) (auto simp: b'_def)
  qed (use h r Cons in \<open>auto simp: ssl_read_def\<close>)
qed

lemma stale_ok_mono:
  assumes s: "stale_ok p b" and b: "partial p k' b'" "k' < 4" "4 \<le> length p"
    and j: "\<forall>j \<ge> k'. b_data b' ! j = b_data b ! j"
  shows "stale_ok p b'"
proof -
  have 3: "b_data b' ! 3 = b_data b ! 3" using j b(2) by simp
  have 2: "b_data b' ! 2 = b_data b ! 2 \<or> b_data b' ! 2 = p ! 2"
  proof (cases "k' \<le> 2")
    case True
    then show ?thesis using j by simp
  next
    case False
    have "take k' (b_data b') ! 2 = take k' p ! 2" using b(1) by (simp add: partial_def)
    then show ?thesis using False by simp
  qed
  show ?thesis using s 2 3 by (auto simp: stale_ok_def)
qed

lemma stale_len:
  assumes "stale_ok p b" "4 \<le> length (b_data b)"
  shows "\<exists>l. sstp_pkt_len b = Some l \<and> 4 \<le> l"
  using assms by (simp add: stale_ok_def sstp_pkt_len_def rd16_def rd_def word_le_def)

lemma recv_sstp_loop_step:
  assumes "partial p k b" "k < length p" "packet p" "honest_rd as" "rd_bytes as = drop k p @ rest"
    and "header_ok p k as b"
  shows "\<exists>e as' b'. recv_sstp_loop as b = Some (e, as', b') \<and> honest_rd as' \<and> b_max b' = b_max b
    \<and> ((e = Io_want_read \<or> e = Io_want_write) \<and> rd_waits as' < rd_waits as
         \<and> (\<exists>k'. partial p k' b' \<and> k' < length p \<and> rd_bytes as' = drop k' p @ rest \<and> header_ok p k' as' b')
       \<or> e = Io_done \<and> partial p (length p) b' \<and> b_len b' = int (length p) \<and> rd_bytes as' = rest)"
  using assms
proof (induction as b arbitrary: k rule: recv_sstp_loop.induct)
  case (1 as b)
  let ?goal = "if 4 \<le> k then length p else 4"
  define l where "l = int ?goal"
  have off: "b_off b = int k" "int (length p) \<le> b_max b" using 1(2) by (simp_all add: partial_def)
  have l: "(if 4 \<le> b_off b then sstp_pkt_len b else Some 4) = Some l"
    using 1(2,4) packet_len [of p k b] by (auto simp: partial_def l_def)
  have g: "k < ?goal" "?goal \<le> length p" using 1(3,4) by (auto simp: packet_def)
  have lk: "l - b_off b = int ?goal - int k" by (simp add: l_def off)
  consider (w) e as' where "ssl_read as (b\<lparr>b_len := l\<rparr>) (int ?goal - int k) = Some (e, as', b\<lparr>b_len := l\<rparr>)"
      "e = Io_want_read \<or> e = Io_want_write" "honest_rd as'" "rd_bytes as' = drop k p @ rest"
      "rd_waits as = Suc (rd_waits as')" "header_whole as' = header_whole as"
    | (d) as' b' k' where "ssl_read as (b\<lparr>b_len := l\<rparr>) (int ?goal - int k) = Some (Io_done, as', b')"
      "honest_rd as'" "k < k'" "k' \<le> ?goal" "partial p k' b'" "b_len b' = l" "b_max b' = b_max b"
      "rd_bytes as' = drop k' p @ rest" "rd_waits as' = rd_waits as"
      "\<forall>j \<ge> k'. b_data b' ! j = b_data b ! j" "header_whole as \<and> ?goal - k \<le> 4 \<longrightarrow> k' = ?goal"
    using ssl_read_step [OF 1(2) g 1(5,6), of l] by blast
  then show ?case
  proof cases
    case w
    have "recv_sstp_loop as b = Some (e, as', b\<lparr>b_len := l\<rparr>)"
      using w(1,2) l lk by (subst recv_sstp_loop.simps) auto
    moreover have "partial p k (b\<lparr>b_len := l\<rparr>)" "header_ok p k as' (b\<lparr>b_len := l\<rparr>)"
      using 1(2,7) w(6) by (simp_all add: partial_def header_ok_def stale_ok_def)
    ultimately show ?thesis using w 1(3) by auto
  next
    case d
    have ok': "header_ok p k' as' b'"
    proof (cases "4 \<le> k'")
      case False
      then have "k < 4" using d(3) by simp
      then consider "stale_ok p b" | "k = 0" "header_whole as" using 1(7) by (auto simp: header_ok_def)
      then show ?thesis
      proof cases
        case 1
        then show ?thesis using stale_ok_mono [OF 1 d(5) _ _ d(10)] False \<open>packet p\<close>
          by (auto simp: header_ok_def packet_def)
      next
        case 2
        then show ?thesis using d(11) False by simp
      qed
    qed (simp add: header_ok_def)
    have ld: "4 \<le> length (b_data b')" using d(5) by (auto simp: partial_def)
    obtain l' where l': "sstp_pkt_len b' = Some l'" "k' < 4 \<longrightarrow> 4 \<le> l'" "4 \<le> k' \<longrightarrow> l' = int (length p)"
    proof (cases "4 \<le> k'")
      case True
      then show ?thesis using that packet_len [OF 1(4) True, of b'] d(5) by (auto simp: partial_def)
    next
      case False
      then have "stale_ok p b'" using ok' d(3) by (auto simp: header_ok_def)
      then show ?thesis using that stale_len [OF _ ld] False by auto
    qed
    have off': "b_off b' = int k'" "k' \<le> length p" using d(5) by (simp_all add: partial_def)
    show ?thesis
    proof (cases "b_off b' < l'")
      case False
      then have k': "k' = length p" using l' off' by (cases "4 \<le> k'") auto
      then have "?goal = length p" using d(4) g by (auto split: if_splits)
      moreover have "recv_sstp_loop as b = Some (Io_done, as', b')"
        using d(1) l lk l'(1) False by (subst recv_sstp_loop.simps) simp
      ultimately show ?thesis using d k' by (auto simp: l_def)
    next
      case True
      have k': "k' < length p" using True l' off' 1(4) by (cases "4 \<le> k'") (auto simp: packet_def)
      have e: "recv_sstp_loop as b = recv_sstp_loop as' b'"
        using d(1) l lk l'(1) True by (subst recv_sstp_loop.simps) simp
      have ih: "\<exists>e as'' b''. recv_sstp_loop as' b' = Some (e, as'', b'') \<and> honest_rd as'' \<and> b_max b'' = b_max b'
        \<and> ((e = Io_want_read \<or> e = Io_want_write) \<and> rd_waits as'' < rd_waits as'
             \<and> (\<exists>k'. partial p k' b'' \<and> k' < length p \<and> rd_bytes as'' = drop k' p @ rest \<and> header_ok p k' as'' b'')
           \<or> e = Io_done \<and> partial p (length p) b'' \<and> b_len b'' = int (length p) \<and> rd_bytes as'' = rest)"
        by (rule 1(1) [OF l, of "(Io_done, as', b')" Io_done "(as', b')" as' b' l'])
          (use d(1,2,5,8) lk l'(1) True k' ok' 1(4) in \<open>simp_all\<close>)
      show ?thesis unfolding e using ih d(7,9) by auto
    qed
  qed
qed

lemma recv_sstp_fire:
  assumes p: "packet p" and h: "honest_rd (io_rd ctx)" and r: "rd_bytes (io_rd ctx) = drop k p @ rest"
    and b: "partial p k (bufs ctx i)" "k < length p" "header_ok p k (io_rd ctx) (bufs ctx i)"
    and f: "recv_cb ctx = Recv_sstp" "recv_op ctx = \<lparr>op_tout = t, op_buf = Some i, op_complete = c\<rparr>"
    and e: "ev_recv ctx \<noteq> None" "io_add ctx"
  shows "\<exists>ctx'. (\<forall>complete. fire_recv complete False ctx = complete c (Some i) SSTP_OKAY ctx')
        \<and> content (bufs ctx' i) = p \<and> rd_bytes (io_rd ctx') = rest
      \<or> (\<forall>complete. fire_recv complete False ctx = Some ctx') \<and> rd_waits (io_rd ctx') < rd_waits (io_rd ctx)
        \<and> honest_rd (io_rd ctx') \<and> recv_cb ctx' = Recv_sstp \<and> recv_op ctx' = recv_op ctx
        \<and> ev_recv ctx' \<noteq> None \<and> io_add ctx'
        \<and> (\<exists>k'. partial p k' (bufs ctx' i) \<and> k' < length p \<and> rd_bytes (io_rd ctx') = drop k' p @ rest
            \<and> header_ok p k' (io_rd ctx') (bufs ctx' i))"
proof -
  obtain ev where ev: "ev_recv ctx = Some ev" using e(1) by blast
  obtain x as' b' where s: "recv_sstp_loop (io_rd ctx) (bufs ctx i) = Some (x, as', b')" "honest_rd as'"
    and c: "(x = Io_want_read \<or> x = Io_want_write) \<and> rd_waits as' < rd_waits (io_rd ctx)
         \<and> (\<exists>k'. partial p k' b' \<and> k' < length p \<and> rd_bytes as' = drop k' p @ rest \<and> header_ok p k' as' b')
       \<or> x = Io_done \<and> partial p (length p) b' \<and> b_len b' = int (length p) \<and> rd_bytes as' = rest"
    using recv_sstp_loop_step [OF b(1,2) p h r b(3)] by blast
  let ?c = "ctx\<lparr>ev_recv := None, activity := io_now ctx, io_rd := as', bufs := (bufs ctx)(i := b')\<rparr>"
  note defs = fire_recv_def sstp_recv_cont_def call_recv_def sstp_stream_recv_sstp_def recv_with_def
  show ?thesis
  proof (cases "x = Io_done")
    case True
    then have d: "content b' = p" "rd_bytes as' = rest" using c by (auto simp: content_def partial_def)
    have "fire_recv complete False ctx = complete c (Some i) SSTP_OKAY ?c" for complete
      using ev f s(1) True by (simp add: defs)
    then show ?thesis using d by (intro exI [of _ ?c]) simp
  next
    case False
    define wr where "wr = (x = Io_want_write)"
    let ?r = "snd (sstp_operation_add_read ?c (Some i) wr t c)"
    have "fire_recv complete False ctx = Some ?r" for complete
      using ev f s(1) False c by (auto simp: defs wr_def)
    then show ?thesis using c False f e s(2)
      by (intro exI [of _ ?r]) (auto simp: sstp_operation_add_read_def)
  qed
qed

lemma recv_sstp_calls:
  assumes "packet p"
  shows "honest_rd (io_rd ctx) \<Longrightarrow> rd_bytes (io_rd ctx) = drop k p @ rest
    \<Longrightarrow> partial p k (bufs ctx i) \<Longrightarrow> k < length p \<Longrightarrow> header_ok p k (io_rd ctx) (bufs ctx i)
    \<Longrightarrow> recv_cb ctx = Recv_sstp \<Longrightarrow> recv_op ctx = \<lparr>op_tout = t, op_buf = Some i, op_complete = c\<rparr>
    \<Longrightarrow> ev_recv ctx \<noteq> None \<Longrightarrow> io_add ctx
    \<Longrightarrow> \<exists>n ctx1 ctx2. n \<le> rd_waits (io_rd ctx)
      \<and> (\<forall>complete. run_steps (\<lambda>_. fire_recv complete False) (replicate n ()) ctx = Some ctx1
          \<and> fire_recv complete False ctx1 = complete c (Some i) SSTP_OKAY ctx2)
      \<and> content (bufs ctx2 i) = p \<and> rd_bytes (io_rd ctx2) = rest"
proof (induction "rd_waits (io_rd ctx)" arbitrary: ctx k rule: less_induct)
  case less
  from recv_sstp_fire [OF assms(1) less.prems]
  obtain ctx' where c: "(\<forall>complete. fire_recv complete False ctx = complete c (Some i) SSTP_OKAY ctx')
      \<and> content (bufs ctx' i) = p \<and> rd_bytes (io_rd ctx') = rest
    \<or> (\<forall>complete. fire_recv complete False ctx = Some ctx') \<and> rd_waits (io_rd ctx') < rd_waits (io_rd ctx)
      \<and> honest_rd (io_rd ctx') \<and> recv_cb ctx' = Recv_sstp \<and> recv_op ctx' = recv_op ctx
      \<and> ev_recv ctx' \<noteq> None \<and> io_add ctx'
      \<and> (\<exists>k'. partial p k' (bufs ctx' i) \<and> k' < length p \<and> rd_bytes (io_rd ctx') = drop k' p @ rest
          \<and> header_ok p k' (io_rd ctx') (bufs ctx' i))" by blast
  then show ?case
  proof (elim disjE conjE exE)
    assume "\<forall>complete. fire_recv complete False ctx = complete c (Some i) SSTP_OKAY ctx'"
      "content (bufs ctx' i) = p" "rd_bytes (io_rd ctx') = rest"
    then show ?thesis by (intro exI [of _ 0] exI [of _ ctx] exI [of _ ctx']) simp
  next
    fix k' assume s: "\<forall>complete. fire_recv complete False ctx = Some ctx'" "rd_waits (io_rd ctx') < rd_waits (io_rd ctx)"
      "honest_rd (io_rd ctx')" "recv_cb ctx' = Recv_sstp" "recv_op ctx' = recv_op ctx"
      "ev_recv ctx' \<noteq> None" "io_add ctx'" "partial p k' (bufs ctx' i)" "k' < length p"
      "rd_bytes (io_rd ctx') = drop k' p @ rest" "header_ok p k' (io_rd ctx') (bufs ctx' i)"
    obtain n ctx1 ctx2 where "n \<le> rd_waits (io_rd ctx')"
      "\<forall>complete. run_steps (\<lambda>_. fire_recv complete False) (replicate n ()) ctx' = Some ctx1
        \<and> fire_recv complete False ctx1 = complete c (Some i) SSTP_OKAY ctx2"
      "content (bufs ctx2 i) = p" "rd_bytes (io_rd ctx2) = rest"
      using less.hyps [OF s(2,3,10,8,9,11,4) _ s(6,7)] s(5) less.prems(7) by auto
    then show ?thesis using s(1,2)
      by (intro exI [of _ "Suc n"] exI [of _ ctx1] exI [of _ ctx2]) simp
  qed
qed

section \<open>A stream for the concrete instances\<close>

definition demo_stream :: "nat stream" where
  "demo_stream =
     \<lparr>ssock = 3, rsock = 4, activity = 0, ssl_on = True, recv_cb = Recv_sstp, send_cb = Fn_send_cont,
      ev_recv = Some \<lparr>ev_write = False, ev_tout = None, ev_fn = Fn_recv_cont\<rparr>,
      recv_op = \<lparr>op_tout = 0, op_buf = Some 0, op_complete = 1\<rparr>, ev_send = None, send_q = [],
      cache = [], bufs = (\<lambda>_. wbuf 32), io_wr = [], io_rd = [], io_hs = [], io_now = 0,
      io_mem = True, io_add = True, io_out = [], stream_arg = id\<rparr>"

section \<open>Sends\<close>

definition honest_wr :: "wr_answer list \<Rightarrow> bool" where
  "honest_wr as \<longleftrightarrow> Wr_error \<notin> set as"

text \<open>How many bytes the answers accept, and how often they block.\<close>

definition wr_room :: "wr_answer list \<Rightarrow> nat" where
  "wr_room as = sum_list (map (\<lambda>a. case a of Wrote k \<Rightarrow> Suc k | _ \<Rightarrow> 0) as)"

definition wr_waits :: "wr_answer list \<Rightarrow> nat" where
  "wr_waits as = length (filter (\<lambda>a. a = Wr_want_read \<or> a = Wr_want_write) as)"

text \<open>A buffer that is being sent.\<close>

definition sendable :: "sstp_buff \<Rightarrow> bool" where
  "sendable b \<longleftrightarrow> wf_buff b \<and> 0 \<le> b_off b \<and> b_off b \<le> b_len b"

definition unsent :: "sstp_buff \<Rightarrow> bytes" where
  "unsent b = drop (nat (b_off b)) (content b)"

lemma wr_simps [simp]:
  "honest_wr []" "honest_wr (a # as) \<longleftrightarrow> a \<noteq> Wr_error \<and> honest_wr as"
  "wr_room [] = 0" "wr_room (Wrote k # as) = Suc k + wr_room as"
  "wr_room (Wr_want_read # as) = wr_room as" "wr_room (Wr_want_write # as) = wr_room as"
  "wr_waits [] = 0" "wr_waits (Wrote k # as) = wr_waits as"
  "wr_waits (Wr_want_read # as) = Suc (wr_waits as)" "wr_waits (Wr_want_write # as) = Suc (wr_waits as)"
  by (auto simp: honest_wr_def wr_room_def wr_waits_def)

lemma rd_unsent: "sendable b \<Longrightarrow> rd_n (b_data b) (b_off b) (b_len b - b_off b) = Some (unsent b)"
  by (auto simp: sendable_def wf_buff_def rd_n_def unsent_def content_def drop_take nat_diff_distrib)

lemma length_unsent: "sendable b \<Longrightarrow> int (length (unsent b)) = b_len b - b_off b"
  by (auto simp: sendable_def wf_buff_def unsent_def content_def min_def)

lemma sendable_advance:
  assumes "sendable b" "n \<le> length (unsent b)"
  shows "sendable (b\<lparr>b_off := b_off b + int n\<rparr>)" "unsent (b\<lparr>b_off := b_off b + int n\<rparr>) = drop n (unsent b)"
  using assms length_unsent [OF assms(1)]
  by (auto simp: sendable_def wf_buff_def unsent_def content_def nat_add_distrib add.commute)

text \<open>Every outcome of the write loop keeps what is written followed by what is unsent.\<close>

lemma write_loop_ok:
  "sendable b \<Longrightarrow> \<exists>e as' b' out'. write_loop as b out = Some (e, as', b', out') \<and> sendable b'
     \<and> (\<exists>j. b' = b\<lparr>b_off := j\<rparr>) \<and> out' @ unsent b' = out @ unsent b
     \<and> (e = Io_done \<longrightarrow> unsent b' = [])
     \<and> (honest_wr as \<longrightarrow> honest_wr as' \<and> e \<noteq> Io_error \<and>
         (length (unsent b) \<le> wr_room as \<and> unsent b \<noteq> [] \<and> e \<noteq> Io_done
           \<longrightarrow> length (unsent b') \<le> wr_room as' \<and> unsent b' \<noteq> [] \<and> wr_waits as' < wr_waits as))"
proof (induction as b out rule: write_loop.induct)
  case (1 b out)
  then show ?case by (auto simp: rd_unsent intro: exI [of _ "b_off b"])
next
  case (2 a as b out)
  show ?case
  proof (cases a)
    case (Wrote k)
    define n where "n = min (Suc k) (length (unsent b))"
    define b1 where "b1 = b\<lparr>b_off := b_off b + int n\<rparr>"
    have b1: "sendable b1" "unsent b1 = drop n (unsent b)"
      using sendable_advance [OF 2(2), of n] by (simp_all add: b1_def n_def)
    have e: "write_loop (a # as) b out
        = (if b_off b1 < b_len b1 then write_loop as b1 (out @ take n (unsent b))
           else Some (Io_done, as, b1, out @ take n (unsent b)))"
      using Wrote by (simp add: rd_unsent [OF 2(2)] Let_def n_def b1_def)
    show ?thesis
    proof (cases "b_off b1 < b_len b1")
      case True
      have ne: "unsent b1 \<noteq> []" using length_unsent [OF b1(1)] True by auto
      then have nk: "n = Suc k" using b1(2) by (auto simp: n_def min_def split: if_splits)
      have ih: "\<exists>e as' b' out'. write_loop as b1 (out @ take n (unsent b)) = Some (e, as', b', out') \<and> sendable b'
         \<and> (\<exists>j. b' = b1\<lparr>b_off := j\<rparr>) \<and> out' @ unsent b' = (out @ take n (unsent b)) @ unsent b1
         \<and> (e = Io_done \<longrightarrow> unsent b' = [])
         \<and> (honest_wr as \<longrightarrow> honest_wr as' \<and> e \<noteq> Io_error \<and>
             (length (unsent b1) \<le> wr_room as \<and> unsent b1 \<noteq> [] \<and> e \<noteq> Io_done
               \<longrightarrow> length (unsent b') \<le> wr_room as' \<and> unsent b' \<noteq> [] \<and> wr_waits as' < wr_waits as))"
        using 2(1) [OF rd_unsent [OF 2(2)] Wrote, of n b1 "out @ take n (unsent b)"] True b1(1)
        by (simp add: n_def b1_def)
      have "unsent b \<noteq> []" using ne b1(2) by auto
      moreover have "\<exists>j. b' = b\<lparr>b_off := j\<rparr>" if "\<exists>j. b' = b1\<lparr>b_off := j\<rparr>" for b'
        using that by (auto simp: b1_def)
      ultimately show ?thesis unfolding e using ih True ne Wrote nk b1(2) by fastforce
    next
      case False
      then have "length (unsent b1) = 0" using length_unsent [OF b1(1)] by linarith
      then have "unsent b1 = []" by simp
      then show ?thesis unfolding e using False b1 Wrote
        by (auto simp: b1_def intro!: exI [of _ "b_off b + int n"])
    qed
  qed (use 2(2) in \<open>auto simp: rd_unsent intro: exI [of _ "b_off b"]\<close>)
qed

section \<open>The queue of sends\<close>

text \<open>A stream between two events, in TLS mode: a queue that is not empty has an event armed.\<close>

definition sends_ok :: "('c, 'z) stream_scheme \<Rightarrow> bool" where
  "sends_ok ctx \<longleftrightarrow> io_mem ctx \<and> io_add ctx
     \<and> (\<forall>i. sendable (bufs ctx i)) \<and> (\<forall>op \<in> set (send_q ctx). op_buf op \<noteq> None)
     \<and> (\<forall>e. ev_send ctx = Some e \<longrightarrow> ev_fn e = Fn_send_cont)"

definition armed :: "('c, 'z) stream_scheme \<Rightarrow> bool" where
  "armed ctx \<longleftrightarrow> (send_q ctx \<noteq> [] \<longrightarrow> ev_send ctx \<noteq> None)"

lemma add_write_ok:
  assumes "io_mem ctx" "io_add ctx"
  shows "\<exists>r e. sstp_operation_add_write ctx buf wr t c = Some (r,
      ctx\<lparr>send_q := send_q ctx @ [\<lparr>op_tout = t, op_buf = buf, op_complete = c\<rparr>], cache := [], ev_send := Some e\<rparr>)
    \<and> (ev_send ctx = None \<longrightarrow> ev_fn e = send_cb ctx) \<and> (ev_send ctx \<noteq> None \<longrightarrow> ev_send ctx = Some e)"
proof -
  have c: "cache ctx = [] \<Longrightarrow> ctx = ctx\<lparr>cache := []\<rparr>" by simp
  have g: "sstp_operation_get ctx buf t c = Some (\<lparr>op_tout = t, op_buf = buf, op_complete = c\<rparr>, ctx\<lparr>cache := []\<rparr>)"
    using assms c by (cases "cache ctx = []") (simp_all add: sstp_operation_get_def)
  show ?thesis
  proof (cases "ev_send ctx")
    case None
    then show ?thesis using assms
      by (intro exI [of _ SSTP_OKAY] exI [of _ "\<lparr>ev_write = wr, ev_tout = tout t, ev_fn = send_cb ctx\<rparr>"])
        (simp add: sstp_operation_add_write_def g sstp_operation_append_def Let_def)
  next
    case (Some e)
    have "ctx\<lparr>ev_send := Some e\<rparr> = ctx" using Some by simp
    then show ?thesis using assms Some
      by (intro exI [of _ SSTP_INPROG] exI [of _ e])
        (simp add: sstp_operation_add_write_def g sstp_operation_append_def Let_def)
  qed
qed

text \<open>A send either completes or fails at once, or it is queued with an event armed.\<close>

lemma send_ok:
  assumes "sends_ok ctx"
  shows "\<exists>r ctx'. sstp_stream_send ctx (Some i) c t = Some (r, ctx') \<and> sends_ok ctx'
    \<and> (r = SSTP_INPROG \<and> send_q ctx' = send_q ctx @ [\<lparr>op_tout = t, op_buf = Some i, op_complete = c\<rparr>]
         \<and> ev_send ctx' \<noteq> None
       \<or> (r = SSTP_OKAY \<or> r = SSTP_FAIL) \<and> send_q ctx' = send_q ctx \<and> ev_send ctx' = ev_send ctx)
    \<and> stream.more ctx' = stream.more ctx
    \<and> (ev_send ctx = None \<longrightarrow> io_out ctx' @ unsent (bufs ctx' i) = io_out ctx @ unsent (bufs ctx i)
        \<and> (r = SSTP_OKAY \<longrightarrow> unsent (bufs ctx' i) = [])
        \<and> (honest_wr (io_wr ctx) \<longrightarrow> r \<noteq> SSTP_FAIL \<and> honest_wr (io_wr ctx')
          \<and> (length (unsent (bufs ctx i)) \<le> wr_room (io_wr ctx) \<and> unsent (bufs ctx i) \<noteq> [] \<and> r = SSTP_INPROG
             \<longrightarrow> length (unsent (bufs ctx' i)) \<le> wr_room (io_wr ctx') \<and> unsent (bufs ctx' i) \<noteq> []
               \<and> wr_waits (io_wr ctx') < wr_waits (io_wr ctx))))"
proof (cases "ev_send ctx = None")
  case False
  let ?c = "ctx\<lparr>activity := io_now ctx, send_cb := Fn_send_cont\<rparr>"
  obtain r e where "sstp_operation_add_write ?c (Some i) True t c = Some (r,
      ?c\<lparr>send_q := send_q ?c @ [\<lparr>op_tout = t, op_buf = Some i, op_complete = c\<rparr>], cache := [], ev_send := Some e\<rparr>)"
    "ev_send ?c \<noteq> None \<longrightarrow> ev_send ?c = Some e"
    using add_write_ok [of ?c "Some i" True t c] assms by (auto simp: sends_ok_def)
  then show ?thesis using False assms
    by (auto simp: sstp_stream_send_def sends_ok_def Let_def)
next
  case True
  have s: "sendable (bufs ctx i)" using assms by (simp add: sends_ok_def)
  obtain e as b out where w: "write_loop (io_wr ctx) (bufs ctx i) (io_out ctx) = Some (e, as, b, out)" "sendable b"
    "out @ unsent b = io_out ctx @ unsent (bufs ctx i)" "e = Io_done \<longrightarrow> unsent b = []"
    "honest_wr (io_wr ctx) \<longrightarrow> honest_wr as \<and> e \<noteq> Io_error \<and>
         (length (unsent (bufs ctx i)) \<le> wr_room (io_wr ctx) \<and> unsent (bufs ctx i) \<noteq> [] \<and> e \<noteq> Io_done
           \<longrightarrow> length (unsent b) \<le> wr_room as \<and> unsent b \<noteq> [] \<and> wr_waits as < wr_waits (io_wr ctx))"
    using write_loop_ok [OF s, of "io_wr ctx" "io_out ctx"] by blast
  let ?c = "ctx\<lparr>activity := io_now ctx, send_cb := Fn_send_cont, io_wr := as, bufs := (bufs ctx)(i := b), io_out := out\<rparr>"
  show ?thesis
  proof (cases "e = Io_want_read \<or> e = Io_want_write")
    case False
    then have "e = Io_done \<or> e = Io_error" by (cases e) auto
    then show ?thesis using w True assms
      by (auto simp: sstp_stream_send_def sends_ok_def Let_def)
  next
    case e: True
    define wr where "wr = (e = Io_want_write)"
    obtain r ev where "sstp_operation_add_write ?c (Some i) wr t c = Some (r,
        ?c\<lparr>send_q := send_q ?c @ [\<lparr>op_tout = t, op_buf = Some i, op_complete = c\<rparr>], cache := [], ev_send := Some ev\<rparr>)"
      "ev_send ?c = None \<longrightarrow> ev_fn ev = send_cb ?c"
      using add_write_ok [of ?c "Some i" wr t c] assms by (auto simp: sends_ok_def)
    then show ?thesis using w True assms e
      by (auto simp: sstp_stream_send_def sends_ok_def wr_def Let_def)
  qed
qed

section \<open>A log of the completions\<close>

record 'c logged = "'c stream" +
  log :: "('c \<times> nat option \<times> status_t) list"
  issued :: "('c \<times> nat option) list"

definition log_complete :: "'c \<Rightarrow> nat option \<Rightarrow> status_t \<Rightarrow> 'c logged \<Rightarrow> 'c logged option" where
  "log_complete c b st s = Some (s\<lparr>log := log s @ [(c, b, st)]\<rparr>)"

definition op_key :: "'c operation \<Rightarrow> 'c \<times> nat option" where
  "op_key op = (op_complete op, op_buf op)"

definition log_key :: "'c \<times> nat option \<times> status_t \<Rightarrow> 'c \<times> nat option" where
  "log_key l = (fst l, fst (snd l))"

text \<open>The operations that are queued and those that have been completed.\<close>

definition accounted :: "'c logged \<Rightarrow> ('c \<times> nat option) multiset" where
  "accounted s = mset (map op_key (send_q s)) + mset (map log_key (log s))"

text \<open>What may happen to the sending half of a stream in TLS mode.\<close>

datatype 'c send_event =
    Send_buf nat 'c int        \<comment> \<open>a client sends a buffer\<close>
  | Fill nat sstp_buff         \<comment> \<open>a client fills a buffer\<close>
  | Send_ready bool            \<comment> \<open>the send event fires, after a timeout or not\<close>

definition send_step :: "conn_env \<Rightarrow> bool \<Rightarrow> 'c send_event \<Rightarrow> 'c logged \<Rightarrow> 'c logged option" where
  "send_step env tlsext e s =
     (case e of
        Send_buf i c t \<Rightarrow> map_option
          (\<lambda>(r, s). if r = SSTP_INPROG then s\<lparr>issued := issued s @ [(c, Some i)]\<rparr> else s)
          (sstp_stream_send s (Some i) c t)
      | Fill i b \<Rightarrow> Some (s\<lparr>bufs := (bufs s)(i := b)\<rparr>)
      | Send_ready to \<Rightarrow> fire_send log_complete env tlsext to s)"

definition send_inv :: "'c logged \<Rightarrow> bool" where
  "send_inv s \<longleftrightarrow> sends_ok s \<and> armed s \<and> mset (issued s) = accounted s"

definition may_send :: "'c send_event \<Rightarrow> bool" where
  "may_send e = (case e of Fill i b \<Rightarrow> sendable b | _ \<Rightarrow> True)"

lemma send_cont_logged:
  "length (send_q s) = n \<Longrightarrow> sends_ok (s :: 'c logged) \<Longrightarrow> ev_send s = None \<Longrightarrow>
    \<exists>s'. sstp_send_cont log_complete s = Some s' \<and> sends_ok s' \<and> armed s' \<and> accounted s' = accounted s
      \<and> issued s' = issued s"
proof (induction n arbitrary: s)
  case 0
  then show ?case by (subst sstp_send_cont.simps) (simp add: armed_def)
next
  case (Suc n)
  obtain op rest where q: "send_q s = op # rest" using Suc.prems(1) by (cases "send_q s") auto
  let ?s = "s\<lparr>send_q := rest\<rparr>"
  have ok: "sends_ok ?s" using Suc.prems(2) q by (simp add: sends_ok_def)
  obtain i where i: "op_buf op = Some i" using Suc.prems(2) q by (auto simp: sends_ok_def)
  obtain r s1 where r: "sstp_stream_send ?s (Some i) (op_complete op) (op_tout op) = Some (r, s1)" "sends_ok s1"
    and c: "r = SSTP_INPROG \<and> send_q s1 = rest @ [\<lparr>op_tout = op_tout op, op_buf = Some i, op_complete = op_complete op\<rparr>]
         \<and> ev_send s1 \<noteq> None
       \<or> (r = SSTP_OKAY \<or> r = SSTP_FAIL) \<and> send_q s1 = rest \<and> ev_send s1 = None"
    and m: "stream.more s1 = stream.more s"
    using send_ok [OF ok, of i "op_complete op" "op_tout op"] Suc.prems(3) by auto
  have l: "log s1 = log s" "issued s1 = issued s" using m by (cases s; cases s1; simp)+
  show ?case
  proof (cases "r = SSTP_INPROG")
    case True
    then have "sstp_send_cont log_complete s = Some s1"
      using q i r(1) by (subst sstp_send_cont.simps) simp
    moreover have "accounted s1 = accounted s"
      using c True q i l by (simp add: accounted_def op_key_def)
    ultimately show ?thesis using c True r(2) l by (auto simp: armed_def)
  next
    case False
    let ?s2 = "s1\<lparr>log := log s1 @ [(op_complete op, op_buf op, r)], cache := op # cache s1\<rparr>"
    have s2: "sends_ok ?s2" "ev_send ?s2 = None" "length (send_q ?s2) = n"
      using r(2) c False Suc.prems(1) q by (auto simp: sends_ok_def)
    have e: "sstp_send_cont log_complete s = sstp_send_cont log_complete ?s2"
      using q i r(1) False by (subst sstp_send_cont.simps) (simp add: log_complete_def)
    have a: "accounted ?s2 = accounted s"
      using c False q l by (auto simp: accounted_def op_key_def log_key_def)
    obtain s' where "sstp_send_cont log_complete ?s2 = Some s'" "sends_ok s'" "armed s'"
      "accounted s' = accounted ?s2" "issued s' = issued ?s2"
      using Suc.IH [OF s2(3,1,2)] by blast
    then show ?thesis unfolding e using a l by auto
  qed
qed

lemma send_step_safe:
  assumes "send_inv s" "may_send e"
  shows "\<exists>s'. send_step env tlsext e s = Some s' \<and> send_inv s'"
proof (cases e)
  case (Send_buf i c t)
  have ok: "sends_ok s" using assms(1) by (simp add: send_inv_def)
  obtain r s1 where r: "sstp_stream_send s (Some i) c t = Some (r, s1)" "sends_ok s1"
    and q: "r = SSTP_INPROG \<and> send_q s1 = send_q s @ [\<lparr>op_tout = t, op_buf = Some i, op_complete = c\<rparr>]
         \<and> ev_send s1 \<noteq> None
       \<or> (r = SSTP_OKAY \<or> r = SSTP_FAIL) \<and> send_q s1 = send_q s \<and> ev_send s1 = ev_send s"
    and m: "stream.more s1 = stream.more s"
    using send_ok [OF ok, of i c t] by auto
  have l: "log s1 = log s" "issued s1 = issued s" using m by (cases s; cases s1; simp)+
  define s2 where "s2 = (if r = SSTP_INPROG then s1\<lparr>issued := issued s1 @ [(c, Some i)]\<rparr> else s1)"
  have "send_step env tlsext e s = Some s2" using r(1) Send_buf by (simp add: send_step_def s2_def)
  moreover have "send_inv s2"
    using assms(1) r(2) q l
    by (auto simp: send_inv_def s2_def sends_ok_def armed_def accounted_def op_key_def)
  ultimately show ?thesis by blast
next
  case (Fill i b)
  then show ?thesis using assms
    by (auto simp: send_step_def may_send_def send_inv_def sends_ok_def armed_def accounted_def)
next
  case (Send_ready to)
  show ?thesis
  proof (cases "ev_send s")
    case None
    then show ?thesis using assms Send_ready by (simp add: send_step_def fire_send_def)
  next
    case (Some ev)
    let ?s = "s\<lparr>ev_send := None\<rparr>"
    have f: "ev_fn ev = Fn_send_cont" "sends_ok ?s"
      using assms(1) Some by (auto simp: send_inv_def sends_ok_def)
    obtain s' where s': "sstp_send_cont log_complete ?s = Some s'" "sends_ok s'" "armed s'"
      "accounted s' = accounted ?s" "issued s' = issued ?s"
      using send_cont_logged [OF refl f(2)] by auto
    have "accounted ?s = accounted s" by (simp add: accounted_def)
    then show ?thesis using s' f(1) Some Send_ready assms(1)
      by (auto simp: send_step_def fire_send_def send_inv_def)
  qed
qed

interpretation sending: guarded_machine "send_step env tlsext" send_inv may_send for env tlsext
  by unfold_locales (rule send_step_safe)

definition logged_stream :: "nat logged" where
  "logged_stream = stream.extend demo_stream \<lparr>log = [], issued = []\<rparr>"

text \<open>One firing of the send event with a single queued operation.\<close>

text \<open>Nothing is waiting to be sent, and nothing will be called for it.\<close>

definition sends_idle :: "('c, 'z) stream_scheme \<Rightarrow> bool" where
  "sends_idle ctx \<longleftrightarrow> send_q ctx = [] \<and> ev_send ctx = None"

lemma send_fire_one:
  assumes ok: "sends_ok ctx" and e: "ev_send ctx = Some ev"
    and q: "send_q ctx = [op]" "op_buf op = Some i"
    and h: "honest_wr (io_wr ctx)" "length (unsent (bufs ctx i)) \<le> wr_room (io_wr ctx)" "unsent (bufs ctx i) \<noteq> []"
  shows "\<exists>ctx'. (\<forall>complete env tlsext to. fire_send complete env tlsext to ctx =
          complete (op_complete op) (Some i) SSTP_OKAY ctx' \<bind>
            (\<lambda>s. sstp_send_cont complete (s\<lparr>cache := op # cache s\<rparr>)))
        \<and> io_out ctx' = io_out ctx @ unsent (bufs ctx i) \<and> sends_idle ctx'
      \<or> (\<forall>complete env tlsext to. fire_send complete env tlsext to ctx = Some ctx')
        \<and> sends_ok ctx' \<and> ev_send ctx' \<noteq> None \<and> send_q ctx' = [op] \<and> wr_waits (io_wr ctx') < wr_waits (io_wr ctx)
        \<and> honest_wr (io_wr ctx') \<and> length (unsent (bufs ctx' i)) \<le> wr_room (io_wr ctx') \<and> unsent (bufs ctx' i) \<noteq> []
        \<and> io_out ctx' @ unsent (bufs ctx' i) = io_out ctx @ unsent (bufs ctx i)"
proof -
  let ?c = "ctx\<lparr>ev_send := None, send_q := []\<rparr>"
  have f: "ev_fn ev = Fn_send_cont" and ok': "sends_ok ?c" using ok e by (simp_all add: sends_ok_def)
  obtain r c1 where r: "sstp_stream_send ?c (Some i) (op_complete op) (op_tout op) = Some (r, c1)" "sends_ok c1"
    and c: "r = SSTP_INPROG \<and> send_q c1 = [\<lparr>op_tout = op_tout op, op_buf = Some i, op_complete = op_complete op\<rparr>]
         \<and> ev_send c1 \<noteq> None
       \<or> (r = SSTP_OKAY \<or> r = SSTP_FAIL) \<and> send_q c1 = [] \<and> ev_send c1 = None"
    and o: "io_out c1 @ unsent (bufs c1 i) = io_out ctx @ unsent (bufs ctx i)"
      "r = SSTP_OKAY \<longrightarrow> unsent (bufs c1 i) = []" "r \<noteq> SSTP_FAIL" "honest_wr (io_wr c1)"
      "r = SSTP_INPROG \<longrightarrow> length (unsent (bufs c1 i)) \<le> wr_room (io_wr c1) \<and> unsent (bufs c1 i) \<noteq> []
               \<and> wr_waits (io_wr c1) < wr_waits (io_wr ctx)"
    using send_ok [OF ok', of i "op_complete op" "op_tout op"] h by auto
  have opeq: "\<lparr>op_tout = op_tout op, op_buf = Some i, op_complete = op_complete op\<rparr> = op"
    using q(2) by (cases op) simp
  show ?thesis
  proof (cases "r = SSTP_INPROG")
    case True
    have "fire_send complete env tlsext to ctx = Some c1" for complete env tlsext to
      using e f q r(1) True by (simp add: fire_send_def) (subst sstp_send_cont.simps, simp)
    then show ?thesis using True c o r(2) opeq by (intro exI [of _ c1]) auto
  next
    case False
    then have k: "r = SSTP_OKAY" using c o(3) by auto
    have "fire_send complete env tlsext to ctx = complete (op_complete op) (Some i) SSTP_OKAY c1 \<bind>
            (\<lambda>s. sstp_send_cont complete (s\<lparr>cache := op # cache s\<rparr>))" for complete env tlsext to
      using e f q r(1) k by (simp add: fire_send_def) (subst sstp_send_cont.simps, simp)
    then show ?thesis using k o c by (intro exI [of _ c1]) (auto simp: sends_idle_def)
  qed
qed

lemma send_fires:
  shows "sends_ok ctx \<Longrightarrow> ev_send ctx \<noteq> None \<Longrightarrow> send_q ctx = [op] \<Longrightarrow> op_buf op = Some i
    \<Longrightarrow> honest_wr (io_wr ctx) \<Longrightarrow> length (unsent (bufs ctx i)) \<le> wr_room (io_wr ctx)
    \<Longrightarrow> unsent (bufs ctx i) \<noteq> []
    \<Longrightarrow> \<exists>n ctx1 ctx2. n \<le> wr_waits (io_wr ctx)
      \<and> (\<forall>complete env tlsext to.
          run_steps (\<lambda>_. fire_send complete env tlsext to) (replicate n ()) ctx = Some ctx1
          \<and> fire_send complete env tlsext to ctx1 = complete (op_complete op) (Some i) SSTP_OKAY ctx2 \<bind>
            (\<lambda>s. sstp_send_cont complete (s\<lparr>cache := op # cache s\<rparr>)))
      \<and> io_out ctx2 = io_out ctx @ unsent (bufs ctx i) \<and> sends_idle ctx2"
proof (induction "wr_waits (io_wr ctx)" arbitrary: ctx rule: less_induct)
  case less
  obtain ev where ev: "ev_send ctx = Some ev" using less.prems(2) by blast
  obtain ctx' where "(\<forall>complete env tlsext to. fire_send complete env tlsext to ctx =
          complete (op_complete op) (Some i) SSTP_OKAY ctx' \<bind>
            (\<lambda>s. sstp_send_cont complete (s\<lparr>cache := op # cache s\<rparr>)))
        \<and> io_out ctx' = io_out ctx @ unsent (bufs ctx i) \<and> sends_idle ctx'
      \<or> (\<forall>complete env tlsext to. fire_send complete env tlsext to ctx = Some ctx')
        \<and> sends_ok ctx' \<and> ev_send ctx' \<noteq> None \<and> send_q ctx' = [op] \<and> wr_waits (io_wr ctx') < wr_waits (io_wr ctx)
        \<and> honest_wr (io_wr ctx') \<and> length (unsent (bufs ctx' i)) \<le> wr_room (io_wr ctx') \<and> unsent (bufs ctx' i) \<noteq> []
        \<and> io_out ctx' @ unsent (bufs ctx' i) = io_out ctx @ unsent (bufs ctx i)"
    using send_fire_one [OF less.prems(1) ev less.prems(3-7)] by blast
  then show ?case
  proof (elim disjE conjE)
    assume "\<forall>complete env tlsext to. fire_send complete env tlsext to ctx =
          complete (op_complete op) (Some i) SSTP_OKAY ctx' \<bind>
            (\<lambda>s. sstp_send_cont complete (s\<lparr>cache := op # cache s\<rparr>))"
      "io_out ctx' = io_out ctx @ unsent (bufs ctx i)" "sends_idle ctx'"
    then show ?thesis by (intro exI [of _ 0] exI [of _ ctx] exI [of _ ctx']) simp
  next
    assume s: "\<forall>complete env tlsext to. fire_send complete env tlsext to ctx = Some ctx'" "sends_ok ctx'"
      "ev_send ctx' \<noteq> None" "send_q ctx' = [op]" "wr_waits (io_wr ctx') < wr_waits (io_wr ctx)"
      "honest_wr (io_wr ctx')" "length (unsent (bufs ctx' i)) \<le> wr_room (io_wr ctx')" "unsent (bufs ctx' i) \<noteq> []"
      "io_out ctx' @ unsent (bufs ctx' i) = io_out ctx @ unsent (bufs ctx i)"
    obtain n ctx1 ctx2 where n: "n \<le> wr_waits (io_wr ctx')"
      "\<forall>complete env tlsext to.
          run_steps (\<lambda>_. fire_send complete env tlsext to) (replicate n ()) ctx' = Some ctx1
          \<and> fire_send complete env tlsext to ctx1 = complete (op_complete op) (Some i) SSTP_OKAY ctx2 \<bind>
            (\<lambda>s. sstp_send_cont complete (s\<lparr>cache := op # cache s\<rparr>))"
      "io_out ctx2 = io_out ctx' @ unsent (bufs ctx' i)" "sends_idle ctx2"
      using less.hyps [OF s(5,2,3,4) less.prems(4) s(6-8)] by blast
    then show ?thesis using s
      by (intro exI [of _ "Suc n"] exI [of _ ctx1] exI [of _ ctx2]) simp
  qed
qed

section \<open>Properties\<close>

text \<open>C13. Framing, for a packet whose first TLS record has its header (at least four bytes), or into a buffer whose length
  bytes from before, alone and behind the first length byte of the packet, are at least 4: whatever the records are that carry
  the rest of the packet and what follows it, and however often the reads would block, the receive operation reports success
  exactly once, when the buffer holds exactly the packet, and leaves what follows unread. The completion is not called
  before, whatever it does. Otherwise the code may end inside the header and report success: \<open>recv_sstp_unchecked\<close>.\<close>

theorem recv_sstp_framing:
  assumes "packet p" "honest_rd (io_rd ctx)" "rd_bytes (io_rd ctx) = p @ rest"
    and "partial p 0 (bufs ctx i)" "header_whole (io_rd ctx) \<or> stale_ok p (bufs ctx i)"
    and "recv_cb ctx = Recv_sstp" "recv_op ctx = \<lparr>op_tout = t, op_buf = Some i, op_complete = c\<rparr>"
    and "ev_recv ctx \<noteq> None" "io_add ctx"
  shows "\<exists>n ctx1 ctx2. n \<le> rd_waits (io_rd ctx)
    \<and> (\<forall>complete. run_steps (\<lambda>_. fire_recv complete False) (replicate n ()) ctx = Some ctx1
        \<and> fire_recv complete False ctx1 = complete c (Some i) SSTP_OKAY ctx2)
    \<and> content (bufs ctx2 i) = p \<and> rd_bytes (io_rd ctx2) = rest"
proof (rule recv_sstp_calls [OF assms(1,2) _ assms(4) _ _ assms(6-9)])
  show "rd_bytes (io_rd ctx) = drop 0 p @ rest" using assms(3) by simp
  show "0 < length p" using assms(1) by (auto simp: packet_def)
  show "header_ok p 0 (io_rd ctx) (bufs ctx i)" using assms(5) by (auto simp: header_ok_def)
qed

lemma recv_sstp_framing_witness:
  "\<exists>n ctx1 ctx2. n \<le> 2
    \<and> run_steps (\<lambda>_. fire_recv (\<lambda>_ _ _. Some) False) (replicate n ())
        (demo_stream\<lparr>io_rd := [Rd_want_read, Got [0x10, 1, 0, 8, 0], Rd_want_read, Got [9, 0, 0, 0x10, 0]]\<rparr>) = Some ctx1
    \<and> fire_recv (\<lambda>_ _ _. Some) False ctx1 = Some ctx2
    \<and> content (bufs ctx2 0) = [0x10, 1, 0, 8, 0, 9, 0, 0] \<and> rd_bytes (io_rd ctx2) = [0x10, 0]"
proof -
  let ?p = "[0x10, 1, 0, 8, 0, 9, 0, 0] :: bytes"
  let ?c = "demo_stream\<lparr>io_rd := [Rd_want_read, Got [0x10, 1, 0, 8, 0], Rd_want_read, Got [9, 0, 0, 0x10, 0]]\<rparr>"
  have "packet ?p" by (simp add: packet_def rd16_def rd_def un16_def)
  moreover have "partial ?p 0 (bufs ?c 0)" by (simp add: partial_def demo_stream_def wbuf_def)
  moreover have "rd_bytes (io_rd ?c) = ?p @ [0x10, 0]" "honest_rd (io_rd ?c)" "header_whole (io_rd ?c)"
    "recv_cb ?c = Recv_sstp" "recv_op ?c = \<lparr>op_tout = 0, op_buf = Some 0, op_complete = 1\<rparr>"
    "ev_recv ?c \<noteq> None" "io_add ?c" "rd_waits (io_rd ?c) = 2"
    by (simp_all add: demo_stream_def)
  ultimately show ?thesis using recv_sstp_framing [of ?p ?c "[0x10, 0]" 0 0 1] by metis
qed

text \<open>C17. A send is complete: on an idle stream, and with answers of \<^verbatim>\<open>SSL_write\<close> that accept the
  buffer in pieces and block in between in any pattern, the unsent bytes of the buffer are
  written once, in order, and the client learns of it exactly once: by the result
  \<open>SSTP_OKAY\<close> with nothing queued and no event armed, or, after \<open>SSTP_INPROG\<close> with this one operation queued, by one
  call of its completion with \<open>SSTP_OKAY\<close> after at most as many firings of the event as the answers block. The firings
  before it call nothing (they do the same for every completion); at the call the queue is empty and the event is not
  armed, and when the completion sends nothing itself the firing ends there.\<close>

theorem send_exactly_once:
  fixes ctx :: "('c, 'z) stream_scheme" and c :: 'c and t :: int
  assumes "sends_ok ctx" "ev_send ctx = None" "send_q ctx = []"
    and "honest_wr (io_wr ctx)" "length (unsent (bufs ctx i)) \<le> wr_room (io_wr ctx)" "unsent (bufs ctx i) \<noteq> []"
  defines "op \<equiv> \<lparr>op_tout = t, op_buf = Some i, op_complete = c\<rparr>"
  shows "(\<exists>ctx2. sstp_stream_send ctx (Some i) c t = Some (SSTP_OKAY, ctx2) \<and> sends_idle ctx2
        \<and> io_out ctx2 = io_out ctx @ unsent (bufs ctx i))
    \<or> (\<exists>ctx0 n ctx1 ctx2. sstp_stream_send ctx (Some i) c t = Some (SSTP_INPROG, ctx0)
        \<and> send_q ctx0 = [op] \<and> n < wr_waits (io_wr ctx)
        \<and> (\<forall>complete env tlsext to.
            run_steps (\<lambda>_. fire_send complete env tlsext to) (replicate n ()) ctx0 = Some ctx1
            \<and> fire_send complete env tlsext to ctx1 = complete c (Some i) SSTP_OKAY ctx2 \<bind>
                (\<lambda>s. sstp_send_cont complete (s\<lparr>cache := op # cache s\<rparr>))
            \<and> (\<forall>s. complete c (Some i) SSTP_OKAY ctx2 = Some s \<and> send_q s = [] \<longrightarrow>
                fire_send complete env tlsext to ctx1 = Some (s\<lparr>cache := op # cache s\<rparr>)))
        \<and> sends_idle ctx2 \<and> io_out ctx2 = io_out ctx @ unsent (bufs ctx i))"
proof -
  obtain r c0 where r: "sstp_stream_send ctx (Some i) c t = Some (r, c0)" "sends_ok c0"
    and q: "r = SSTP_INPROG \<and> send_q c0 = [op] \<and> ev_send c0 \<noteq> None
       \<or> (r = SSTP_OKAY \<or> r = SSTP_FAIL) \<and> send_q c0 = [] \<and> ev_send c0 = None"
    and o: "io_out c0 @ unsent (bufs c0 i) = io_out ctx @ unsent (bufs ctx i)"
      "r = SSTP_OKAY \<longrightarrow> unsent (bufs c0 i) = []" "r \<noteq> SSTP_FAIL" "honest_wr (io_wr c0)"
      "r = SSTP_INPROG \<longrightarrow> length (unsent (bufs c0 i)) \<le> wr_room (io_wr c0) \<and> unsent (bufs c0 i) \<noteq> []
               \<and> wr_waits (io_wr c0) < wr_waits (io_wr ctx)"
    using send_ok [OF assms(1), of i c t] assms(2-6) by (auto simp: op_def)
  show ?thesis
  proof (cases "r = SSTP_INPROG")
    case True
    obtain n ctx1 ctx2 where f: "n \<le> wr_waits (io_wr c0)"
      "\<And>complete env tlsext to.
          run_steps (\<lambda>_. fire_send complete env tlsext to) (replicate n ()) c0 = Some ctx1
          \<and> fire_send complete env tlsext to ctx1 = complete c (Some i) SSTP_OKAY ctx2 \<bind>
            (\<lambda>s. sstp_send_cont complete (s\<lparr>cache := op # cache s\<rparr>))"
      "io_out ctx2 = io_out c0 @ unsent (bufs c0 i)" "sends_idle ctx2"
      using send_fires [of c0 op i] r(2) q o True by (auto simp: op_def)
    have e: "sstp_send_cont complete s = Some s" if "send_q s = []" for complete and s :: "('c, 'z) stream_scheme"
      using that by (subst sstp_send_cont.simps) simp
    have l: "\<forall>s. complete c (Some i) SSTP_OKAY ctx2 = Some s \<and> send_q s = [] \<longrightarrow>
        fire_send complete env tlsext to ctx1 = Some (s\<lparr>cache := op # cache s\<rparr>)" for complete env tlsext to
      using f(2) [of complete env tlsext to] e by simp
    have "send_q c0 = [op]" "n < wr_waits (io_wr ctx)" using q o(5) f(1) True by auto
    then show ?thesis using r(1) o(1) True f(2-4) l
      by (intro disjI2 exI [of _ c0] exI [of _ n] exI [of _ ctx1] exI [of _ ctx2]) simp
  next
    case False
    then have "r = SSTP_OKAY" using q o(3) by auto
    then show ?thesis using r q o by (auto simp: sends_idle_def)
  qed
qed

definition full_buff :: "bytes \<Rightarrow> sstp_buff" where
  "full_buff m = \<lparr>b_len = int (length m), b_max = int (length m), b_off = 0, b_data = m\<rparr>"

lemma full_buff [simp]: "sendable (full_buff m)" "unsent (full_buff m) = m"
  by (simp_all add: full_buff_def sendable_def wf_buff_def unsent_def content_def)

definition idle_conn :: conn_env where
  "idle_conn = \<lparr>new_socket = 3, dup_socket = 4, nonbl_ok = (\<lambda>_. True), sndbuf_ok = True,
     connect_answer = Conn_in_progress, ssl_new_ok = True, ssl_fd_ok = True, sni_ok = True\<rparr>"

lemma send_exactly_once_witness:
  "\<exists>ctx2. io_out ctx2 = [1, 2, 3] \<and> send_q ctx2 = [] \<and> ev_send ctx2 = None
    \<and> (sstp_stream_send (demo_stream\<lparr>bufs := (\<lambda>_. full_buff [1, 2, 3]), io_wr := [Wrote 0, Wr_want_write, Wrote 5]\<rparr>)
          (Some 0) 7 10 = Some (SSTP_OKAY, ctx2)
       \<or> (\<exists>ctx0 s. sstp_stream_send
            (demo_stream\<lparr>bufs := (\<lambda>_. full_buff [1, 2, 3]), io_wr := [Wrote 0, Wr_want_write, Wrote 5]\<rparr>)
            (Some 0) 7 10 = Some (SSTP_INPROG, ctx0)
          \<and> fire_send (\<lambda>_ _ _. Some) idle_conn True False ctx0 = Some (ctx2\<lparr>cache := s\<rparr>)))"
proof -
  let ?c = "demo_stream\<lparr>bufs := (\<lambda>_. full_buff [1, 2, 3]), io_wr := [Wrote 0, Wr_want_write, Wrote 5]\<rparr>"
  have h: "sends_ok ?c" "ev_send ?c = None" "send_q ?c = []" "honest_wr (io_wr ?c)"
    "length (unsent (bufs ?c 0)) \<le> wr_room (io_wr ?c)" "unsent (bufs ?c 0) \<noteq> []" "io_out ?c = []"
    "unsent (bufs ?c 0) = [1, 2, 3]" "wr_waits (io_wr ?c) = 1"
    by (simp_all add: sends_ok_def demo_stream_def)
  from send_exactly_once [OF h(1-6), of 7 10] show ?thesis unfolding h(7-9)
  proof (elim disjE exE conjE)
    fix ctx2 assume "sstp_stream_send ?c (Some 0) 7 10 = Some (SSTP_OKAY, ctx2)" "io_out ctx2 = [] @ [1, 2, 3]" "sends_idle ctx2"
    then show ?thesis by (intro exI [of _ ctx2]) (simp add: sends_idle_def)
  next
    fix ctx0 n ctx1 ctx2
    assume n: "n < (1::nat)" and s: "sstp_stream_send ?c (Some 0) 7 10 = Some (SSTP_INPROG, ctx0)"
      and f: "\<forall>complete env tlsext to.
            run_steps (\<lambda>_. fire_send complete env tlsext to) (replicate n ()) ctx0 = Some ctx1
            \<and> fire_send complete env tlsext to ctx1 = complete 7 (Some 0) SSTP_OKAY ctx2 \<bind>
                (\<lambda>s. sstp_send_cont complete (s\<lparr>cache := \<lparr>op_tout = 10, op_buf = Some 0, op_complete = 7\<rparr> # cache s\<rparr>))
            \<and> (\<forall>s. complete 7 (Some 0) SSTP_OKAY ctx2 = Some s \<and> send_q s = [] \<longrightarrow>
                fire_send complete env tlsext to ctx1 = Some (s\<lparr>cache := \<lparr>op_tout = 10, op_buf = Some 0, op_complete = 7\<rparr> # cache s\<rparr>))"
      and o: "io_out ctx2 = [] @ [1, 2, 3]" "sends_idle ctx2"
    have "ctx1 = ctx0" using n f by simp
    moreover have "\<forall>s. Some ctx2 = Some s \<and> send_q s = [] \<longrightarrow> fire_send (\<lambda>_ _ _. Some) idle_conn True False ctx1
      = Some (s\<lparr>cache := \<lparr>op_tout = 10, op_buf = Some 0, op_complete = 7\<rparr> # cache s\<rparr>)"
      using f by (elim allE [of _ "\<lambda>_ _ _. Some"] allE [of _ idle_conn] allE [of _ True] allE [of _ False] conjE)
    then have "fire_send (\<lambda>_ _ _. Some) idle_conn True False ctx1
      = Some (ctx2\<lparr>cache := \<lparr>op_tout = 10, op_buf = Some 0, op_complete = 7\<rparr> # cache ctx2\<rparr>)"
      using o(2) by (simp only: sends_idle_def)
    ultimately show ?thesis using s o by (intro exI [of _ ctx2] conjI disjI2 exI) (simp_all add: sends_idle_def)
  qed
qed

text \<open>C18. Nothing that was accepted for sending is lost or reported twice: from an idle stream,
  over every sequence of sends, refilled buffers and firings of the send event, with any
  answers of \<^verbatim>\<open>SSL_write\<close>, no step makes a memory error, every send that was answered with
  \<open>SSTP_INPROG\<close> is either queued or has been completed, each once, and whenever the queue is
  not empty the event is armed.\<close>

theorem sends_conserved:
  assumes "sends_ok s" "send_q s = []" "log s = []" "issued s = []" "list_all may_send es"
  shows "\<exists>s'. run_steps (send_step env tlsext) es s = Some s'
    \<and> mset (issued s') = mset (map op_key (send_q s')) + mset (map log_key (log s'))
    \<and> (send_q s' \<noteq> [] \<longrightarrow> ev_send s' \<noteq> None)"
proof -
  have "send_inv s" using assms(1-4) by (simp add: send_inv_def armed_def accounted_def)
  then obtain s' where "run_steps (send_step env tlsext) es s = Some s'" "send_inv s'"
    using sending.run_safe [of s es] assms(5) by blast
  then show ?thesis by (auto simp: send_inv_def armed_def accounted_def)
qed

lemma sends_conserved_witness:
  "\<exists>s'. run_steps (send_step idle_conn True)
       [Fill 0 (full_buff [1]), Send_buf 0 7 10, Send_buf 1 8 10, Send_ready False] logged_stream = Some s'
    \<and> mset (issued s') = mset (map op_key (send_q s')) + mset (map log_key (log s'))"
proof -
  have "sendable (wbuf 32)" by (simp add: sendable_def wbuf_def wf_buff_def)
  then have "sends_ok logged_stream" "send_q logged_stream = []" "log logged_stream = []" "issued logged_stream = []"
    by (simp_all add: logged_stream_def demo_stream_def sends_ok_def stream.extend_def)
  from sends_conserved [OF this, of "[Fill 0 (full_buff [1]), Send_buf 0 7 10, Send_buf 1 8 10, Send_ready False]"]
  show ?thesis by (auto simp: may_send_def)
qed

text \<open>A send that blocks again loses its place: when the first of several queued sends still
  blocks, it is queued anew behind all the others, so after its first bytes the stream goes on
  with another buffer.\<close>

theorem blocked_send_requeued:
  assumes "sends_ok ctx" "ev_send ctx = Some ev" "send_q ctx = op # rest" "op_buf op = Some i"
    and "write_loop (io_wr ctx) (bufs ctx i) (io_out ctx) = Some (e, as, b, out)"
    and "e = Io_want_read \<or> e = Io_want_write"
  shows "\<exists>ctx'. (\<forall>complete env tlsext to. fire_send complete env tlsext to ctx = Some ctx')
    \<and> send_q ctx' = rest @ [op] \<and> io_out ctx' = out \<and> bufs ctx' = (bufs ctx)(i := b)"
proof -
  let ?c = "ctx\<lparr>ev_send := None, send_q := rest, activity := io_now ctx, send_cb := Fn_send_cont,
    io_wr := as, bufs := (bufs ctx)(i := b), io_out := out\<rparr>"
  define wr where "wr = (e = Io_want_write)"
  have f: "ev_fn ev = Fn_send_cont" "io_mem ?c" "io_add ?c" using assms(1,2) by (simp_all add: sends_ok_def)
  have opeq: "\<lparr>op_tout = op_tout op, op_buf = Some i, op_complete = op_complete op\<rparr> = op"
    using assms(4) by (cases op) simp
  obtain r v where a: "sstp_operation_add_write ?c (Some i) wr (op_tout op) (op_complete op) = Some (r,
      ?c\<lparr>send_q := rest @ [op], cache := [], ev_send := Some v\<rparr>)"
    using add_write_ok [OF f(2,3), of "Some i" wr "op_tout op" "op_complete op"] opeq by auto
  let ?d = "?c\<lparr>send_q := rest @ [op], cache := [], ev_send := Some v\<rparr>"
  have s: "sstp_stream_send (ctx\<lparr>ev_send := None, send_q := rest\<rparr>) (Some i) (op_complete op) (op_tout op)
      = Some (SSTP_INPROG, ?d)"
    using assms(5,6) a by (auto simp: sstp_stream_send_def wr_def Let_def)
  have "fire_send complete env tlsext to ctx = Some ?d" for complete env tlsext to
    using assms(2-4) f(1) s by (simp add: fire_send_def) (subst sstp_send_cont.simps, simp)
  then show ?thesis by (intro exI [of _ ?d]) simp
qed

definition demo_queue :: "nat stream" where
  "demo_queue = demo_stream\<lparr>bufs := (\<lambda>i. full_buff (if i = 0 then [1, 2] else [9])),
     io_wr := [Wrote 0, Wr_want_write],
     send_q := [\<lparr>op_tout = 0, op_buf = Some 0, op_complete = 1\<rparr>, \<lparr>op_tout = 0, op_buf = Some 1, op_complete = 2\<rparr>],
     ev_send := Some \<lparr>ev_write = True, ev_tout = None, ev_fn = Fn_send_cont\<rparr>\<rparr>"

lemma blocked_send_requeued_witness:
  "\<exists>ctx'. fire_send (\<lambda>_ _ _. Some) idle_conn True False demo_queue = Some ctx'
    \<and> map op_complete (send_q ctx') = [2, 1] \<and> io_out ctx' = [1]"
proof -
  have ok: "sends_ok demo_queue" by (simp add: sends_ok_def demo_queue_def demo_stream_def)
  have w: "write_loop (io_wr demo_queue) (bufs demo_queue 0) (io_out demo_queue)
      = Some (Io_want_write, [], (full_buff [1, 2])\<lparr>b_off := 1\<rparr>, [1])"
    by (simp add: demo_queue_def demo_stream_def full_buff_def rd_n_def)
  have q: "ev_send demo_queue = Some \<lparr>ev_write = True, ev_tout = None, ev_fn = Fn_send_cont\<rparr>"
    "send_q demo_queue = \<lparr>op_tout = 0, op_buf = Some 0, op_complete = 1\<rparr> # [\<lparr>op_tout = 0, op_buf = Some 1, op_complete = 2\<rparr>]"
    "op_buf \<lparr>op_tout = 0, op_buf = Some (0::nat), op_complete = (1::nat)\<rparr> = Some 0"
    by (simp_all add: demo_queue_def)
  obtain ctx' where "\<forall>complete env tlsext to. fire_send complete env tlsext to demo_queue = Some ctx'"
    "send_q ctx' = [\<lparr>op_tout = 0, op_buf = Some 1, op_complete = 2\<rparr>] @ [\<lparr>op_tout = 0, op_buf = Some 0, op_complete = 1\<rparr>]"
    "io_out ctx' = [1]"
    using blocked_send_requeued [OF ok q w] by blast
  then show ?thesis by (intro exI [of _ ctx']) simp
qed

text \<open>The certificate check: with the chain and the name to be verified
  \<open>sstp_verify_cert\<close> accepts exactly a peer that presented a certificate, whose chain OpenSSL
  verified, and which is issued for the host: by an IP address when the host is one and by name
  otherwise. A missing or empty host is refused.\<close>

theorem verify_cert_iff:
  "sstp_verify_cert tls host (SSTP_VERIFY_CERT OR SSTP_VERIFY_NAME) = SSTP_OKAY \<longleftrightarrow>
     (\<exists>x h. peer_cert tls = Some x \<and> chain_result tls = 0 \<and> host = Some h \<and> h \<noteq> []
        \<and> (if ip_text tls h then check_ip tls x h else check_host tls x h))"
proof -
  have o: "SSTP_VERIFY_CERT AND (SSTP_VERIFY_CERT OR SSTP_VERIFY_NAME) = 2"
    "SSTP_VERIFY_NAME AND (SSTP_VERIFY_CERT OR SSTP_VERIFY_NAME) = 1"
    by (simp_all add: SSTP_VERIFY_CERT_def SSTP_VERIFY_NAME_def)
  show ?thesis
    by (cases "peer_cert tls"; cases host)
      (auto simp: sstp_verify_cert_def o Let_def sstp_host_is_ip_literal_def)
qed

lemma want_step:
  assumes "send_q ctx = [op]" "ssl_on ctx" "io_add ctx" "io_hs ctx = w # hs" "w = Hs_want_read \<or> w = Hs_want_write"
  shows "\<exists>e. (\<forall>complete. sstp_ssl_handshake_cont complete False ctx = Some (ctx\<lparr>io_hs := hs, ev_send := Some e\<rparr>))
    \<and> ev_fn e = Fn_handshake_cont"
proof -
  define wr where "wr = (w = Hs_want_write)"
  define e where "e = \<lparr>ev_write = wr, ev_tout = tout (if op_tout op > 0 then op_tout op else 60), ev_fn = Fn_handshake_cont\<rparr>"
  have "sstp_ssl_handshake_cont complete False ctx = Some (ctx\<lparr>io_hs := hs, ev_send := Some e\<rparr>)" for complete
    using assms by (auto simp: sstp_ssl_handshake_cont_def sstp_ssl_handshake_arm_def Let_def e_def wr_def)
  then show ?thesis by (intro exI [of _ e]) (simp add: e_def)
qed

lemma last_step:
  assumes "send_q ctx = [op]" "ssl_on ctx" "io_hs ctx = [a]" "a = Hs_done \<or> a = Hs_odd \<or> a = Hs_error"
  shows "sstp_ssl_handshake_cont complete False ctx = complete (op_complete op) None
      (if a = Hs_done then SSTP_CONNECTED else SSTP_FAIL)
      (ctx\<lparr>io_hs := [], ev_send := None, send_q := [], cache := op # cache ctx\<rparr>)"
  using assms by (auto simp: sstp_ssl_handshake_cont_def finish_connect_def Let_def)

text \<open>The handshake, from an armed event on.\<close>

lemma handshake_fires:
  "send_q ctx = [op] \<Longrightarrow> ssl_on ctx \<Longrightarrow> io_add ctx \<Longrightarrow> io_hs ctx = ws @ [a]
    \<Longrightarrow> list_all (\<lambda>w. w = Hs_want_read \<or> w = Hs_want_write) ws
    \<Longrightarrow> a = Hs_done \<or> a = Hs_odd \<or> a = Hs_error
    \<Longrightarrow> ev_send ctx = Some e \<Longrightarrow> ev_fn e = Fn_handshake_cont
    \<Longrightarrow> \<exists>ctx1 ctx2. send_q ctx2 = [] \<and> ev_send ctx2 = None \<and>
       (\<forall>complete. run_steps (\<lambda>_. fire_send complete env tlsext False) (replicate (length ws) ()) ctx = Some ctx1
          \<and> fire_send complete env tlsext False ctx1 = complete (op_complete op) None
              (if a = Hs_done then SSTP_CONNECTED else SSTP_FAIL) ctx2)"
proof (induction ws arbitrary: ctx e)
  case Nil
  let ?c = "ctx\<lparr>ev_send := None\<rparr>"
  have "fire_send complete env tlsext False ctx = sstp_ssl_handshake_cont complete False ?c" for complete
    using Nil by (simp add: fire_send_def)
  then show ?case
    using last_step [of ?c op a] Nil
    by (intro exI [of _ ctx] exI [of _ "?c\<lparr>io_hs := [], ev_send := None, send_q := [], cache := op # cache ?c\<rparr>"]) simp
next
  case (Cons w ws)
  let ?c = "ctx\<lparr>ev_send := None\<rparr>"
  obtain e' where s: "\<forall>complete. sstp_ssl_handshake_cont complete False ?c = Some (?c\<lparr>io_hs := ws @ [a], ev_send := Some e'\<rparr>)"
    "ev_fn e' = Fn_handshake_cont"
    using want_step [of ?c op w "ws @ [a]"] Cons.prems by auto
  let ?d = "?c\<lparr>io_hs := ws @ [a], ev_send := Some e'\<rparr>"
  obtain ctx1 ctx2 where c: "send_q ctx2 = []" "ev_send ctx2 = None"
    "\<forall>complete. run_steps (\<lambda>_. fire_send complete env tlsext False) (replicate (length ws) ()) ?d = Some ctx1
          \<and> fire_send complete env tlsext False ctx1 = complete (op_complete op) None
              (if a = Hs_done then SSTP_CONNECTED else SSTP_FAIL) ctx2"
    using Cons.IH [of ?d e'] Cons.prems s(2) by auto
  have f: "fire_send complete env tlsext False ctx = Some ?d" for complete
    using Cons.prems s(1) by (simp add: fire_send_def)
  show ?case using c f by (intro exI [of _ ctx1] exI [of _ ctx2]) simp
qed

text \<open>C22. Connecting: when the connection is in progress the client's completion is called once,
  after the socket became writable and the TLS handshake has ended, with
  \<open>SSTP_CONNECTED\<close> exactly when OpenSSL reported success. By then the connect operation is off
  the queue and no event is pending, so the first send of the client is not held up.\<close>

theorem connect_completes:
  assumes s: "sstp_stream_connect env ctx0 c t = Some (SSTP_INPROG, ctx)"
    and i: "send_q ctx0 = []" "ev_send ctx0 = None" "io_add ctx0" "io_hs ctx0 = ws @ [a]"
    and w: "list_all (\<lambda>w. w = Hs_want_read \<or> w = Hs_want_write) ws"
    and a: "a = Hs_done \<or> a = Hs_odd \<or> a = Hs_error"
    and e: "ssl_new_ok env" "ssl_fd_ok env" "sni_ok env"
  shows "\<exists>ctx1 ctx2. send_q ctx2 = [] \<and> ev_send ctx2 = None \<and>
    (\<forall>complete. run_steps (\<lambda>_. fire_send complete env tlsext False) (replicate (length ws) ()) ctx = Some ctx1
      \<and> fire_send complete env tlsext False ctx1 = complete c None
          (if a = Hs_done then SSTP_CONNECTED else SSTP_FAIL) ctx2)"
proof -
  define op where "op = \<lparr>op_tout = t, op_buf = None :: nat option, op_complete = c\<rparr>"
  have q: "send_q ctx = [op]" "ev_send ctx = Some \<lparr>ev_write = True, ev_tout = tout t, ev_fn = Fn_connect_complete\<rparr>"
    "io_add ctx" "io_hs ctx = ws @ [a]"
    using s i by (auto simp: sstp_stream_connect_def sstp_operation_add_write_def sstp_operation_get_def
        sstp_operation_append_def op_def Let_def split: if_splits conn_answer.splits)
  let ?c = "ctx\<lparr>ev_send := None, ssl_on := True\<rparr>"
  have f: "fire_send complete env tlsext False ctx = sstp_ssl_handshake_cont complete False ?c" for complete
    using q(1,2) e by (simp add: fire_send_def sstp_connect_complete_def sstp_stream_setup_def)
  have oc: "op_complete op = c" by (simp add: op_def)
  show ?thesis
  proof (cases ws)
    case Nil
    have "fire_send complete env tlsext False ctx = complete c None (if a = Hs_done then SSTP_CONNECTED else SSTP_FAIL)
        (?c\<lparr>io_hs := [], ev_send := None, send_q := [], cache := op # cache ?c\<rparr>)" for complete
      using last_step [of ?c op a complete] q Nil a unfolding f oc by simp
    then show ?thesis using Nil
      by (intro exI [of _ ctx] exI [of _ "?c\<lparr>io_hs := [], ev_send := None, send_q := [], cache := op # cache ?c\<rparr>"]) simp
  next
    case (Cons v vs)
    obtain e' where v: "\<forall>complete. sstp_ssl_handshake_cont complete False ?c = Some (?c\<lparr>io_hs := vs @ [a], ev_send := Some e'\<rparr>)"
      "ev_fn e' = Fn_handshake_cont"
      using want_step [of ?c op v "vs @ [a]"] q Cons w by auto
    let ?d = "?c\<lparr>io_hs := vs @ [a], ev_send := Some e'\<rparr>"
    obtain ctx1 ctx2 where r: "send_q ctx2 = []" "ev_send ctx2 = None"
      "\<forall>complete. run_steps (\<lambda>_. fire_send complete env tlsext False) (replicate (length vs) ()) ?d = Some ctx1
          \<and> fire_send complete env tlsext False ctx1 = complete (op_complete op) None
              (if a = Hs_done then SSTP_CONNECTED else SSTP_FAIL) ctx2"
      using handshake_fires [of ?d op vs a e' env tlsext] q Cons w a v(2) by auto
    have "fire_send complete env tlsext False ctx = Some ?d" for complete
      using f [of complete] spec [OF v(1), of complete] by simp
    then show ?thesis using r Cons oc by (intro exI [of _ ctx1] exI [of _ ctx2]) simp
  qed
qed

lemma connect_completes_witness:
  "\<exists>ctx ctx1 ctx2. sstp_stream_connect idle_conn (demo_stream\<lparr>io_hs := [Hs_want_read, Hs_done]\<rparr>) 7 60 = Some (SSTP_INPROG, ctx)
    \<and> send_q ctx2 = [] \<and> fire_send (\<lambda>_ _ _. Some) idle_conn True False ctx = Some ctx1
    \<and> fire_send (\<lambda>c b st s. if c = 7 \<and> st = SSTP_CONNECTED then Some s else None) idle_conn True False ctx1 = Some ctx2"
proof -
  let ?c = "demo_stream\<lparr>io_hs := [Hs_want_read, Hs_done]\<rparr>"
  obtain ctx where c: "sstp_stream_connect idle_conn ?c 7 60 = Some (SSTP_INPROG, ctx)"
    by (simp add: sstp_stream_connect_def idle_conn_def demo_stream_def sstp_operation_add_write_def
        sstp_operation_get_def Let_def)
  have h: "send_q ?c = []" "ev_send ?c = None" "io_add ?c" "io_hs ?c = [Hs_want_read] @ [Hs_done]"
    "ssl_new_ok idle_conn" "ssl_fd_ok idle_conn" "sni_ok idle_conn"
    by (simp_all add: demo_stream_def idle_conn_def)
  obtain ctx1 ctx2 where "send_q ctx2 = []"
    "\<forall>complete. run_steps (\<lambda>_. fire_send complete idle_conn True False) (replicate (length [Hs_want_read]) ()) ctx = Some ctx1
      \<and> fire_send complete idle_conn True False ctx1 = complete 7 None
          (if Hs_done = Hs_done then SSTP_CONNECTED else SSTP_FAIL) ctx2"
    using connect_completes [OF c h(1-4) _ _ h(5-7), of True] by auto
  then show ?thesis using c by (intro exI [of _ ctx] exI [of _ ctx1] exI [of _ ctx2]) (simp add: bind_eq_Some_conv)
qed

text \<open>What the receive loop does not check: it stops inside the header when the length bytes left
  in the buffer say so (on a fresh buffer, after a first read of one or two bytes), and it reads
  a packet of the length the header announces, up to 65535, into a buffer of 16384 bytes.\<close>

theorem recv_sstp_unchecked:
  assumes b: "wf_buff b" "b_off b = 0" "b_max b = 16384"
  shows "(b_data b ! 2 = 0 \<and> b_data b ! 3 = 0 \<and> (length bs = 1 \<or> length bs = 2) \<longrightarrow>
      (\<exists>b'. recv_sstp_loop (Got bs # as) b = Some (Io_done, as, b') \<and> b_off b' = int (length bs)))
    \<and> (length hdr = 4 \<and> rd16 hdr 2 = Some l \<and> 16384 < unat l
        \<and> 16384 < 4 + length bs \<and> 4 + length bs \<le> unat l \<longrightarrow>
      recv_sstp_loop (Got hdr # Got bs # as) b = None)"
proof
  have ld: "length (b_data b) = 16384" using b by (simp add: wf_buff_def)
  show "b_data b ! 2 = 0 \<and> b_data b ! 3 = 0 \<and> (length bs = 1 \<or> length bs = 2) \<longrightarrow>
      (\<exists>b'. recv_sstp_loop (Got bs # as) b = Some (Io_done, as, b') \<and> b_off b' = int (length bs))"
  proof (intro impI, elim conjE)
    assume z: "b_data b ! 2 = 0" "b_data b ! 3 = 0" and l: "length bs = 1 \<or> length bs = 2"
    define b' where "b' = b\<lparr>b_len := 4, b_data := bs @ drop (length bs) (b_data b), b_off := int (length bs)\<rparr>"
    have r: "ssl_read (Got bs # as) (b\<lparr>b_len := 4\<rparr>) 4 = Some (Io_done, as, b')"
      using l b(2) ld by (auto simp: ssl_read_def wr_n_def b'_def Let_def)
    have "(bs @ drop (length bs) (b_data b)) ! 2 = 0" "(bs @ drop (length bs) (b_data b)) ! 3 = 0"
      using l z ld by (auto simp: nth_append)
    then have "sstp_pkt_len b' = Some 0"
      using ld l by (auto simp: sstp_pkt_len_def rd16_def rd_def b'_def un16_def)
    then show "\<exists>b'. recv_sstp_loop (Got bs # as) b = Some (Io_done, as, b') \<and> b_off b' = int (length bs)"
      using r b(2) by (subst recv_sstp_loop.simps) (simp add: b'_def)
  qed
next
  have ld: "length (b_data b) = 16384" using b by (simp add: wf_buff_def)
  show "length hdr = 4 \<and> rd16 hdr 2 = Some l \<and> 16384 < unat l
        \<and> 16384 < 4 + length bs \<and> 4 + length bs \<le> unat l \<longrightarrow>
      recv_sstp_loop (Got hdr # Got bs # as) b = None"
  proof (intro impI, elim conjE)
    assume h: "length hdr = 4" "rd16 hdr 2 = Some l" "16384 < unat l" "16384 < 4 + length bs" "4 + length bs \<le> unat l"
    define b' where "b' = b\<lparr>b_len := 4, b_data := hdr @ drop 4 (b_data b), b_off := 4\<rparr>"
    have r: "ssl_read (Got hdr # Got bs # as) (b\<lparr>b_len := 4\<rparr>) 4 = Some (Io_done, Got bs # as, b')"
      using h(1) b(2) ld by (auto simp: ssl_read_def wr_n_def b'_def Let_def)
    have p: "sstp_pkt_len b' = Some (uint l)"
      using h(1,2) by (auto simp: sstp_pkt_len_def rd16_def rd_def b'_def nth_append split: if_splits Option.bind_splits)
    have u: "uint l = int (unat l)" by simp
    have w: "ssl_read (Got bs # as) (b'\<lparr>b_len := uint l\<rparr>) (uint l - 4) = None"
    proof -
      have ub: "4 + int (length bs) \<le> uint l" using h(5) u by linarith
      then have t: "take (nat (uint l - 4)) bs = bs" "\<not> uint l - 4 \<le> 0" using h(4) by simp_all
      then show ?thesis using h(1,4) ld by (auto simp: ssl_read_def b'_def wr_n_def Let_def t(1))
    qed
    have n: "recv_sstp_loop (Got bs # as) b' = None"
      using p w by (subst recv_sstp_loop.simps) (simp add: b'_def)
    show "recv_sstp_loop (Got hdr # Got bs # as) b = None"
    proof -
      have "4 < uint l" using h(3) u by linarith
      then show ?thesis using r b(2) p n by (subst recv_sstp_loop.simps) (simp add: b'_def)
    qed
  qed
qed

lemma recv_sstp_unchecked_witness:
  "\<exists>b'. recv_sstp_loop [Got [0x10]] (wbuf 16384) = Some (Io_done, [], b') \<and> b_off b' = 1"
proof -
  have w: "wf_buff (wbuf 16384)" "b_off (wbuf 16384) = 0" "b_max (wbuf 16384) = 16384"
    by simp (simp_all add: wbuf_def)
  moreover have "b_data (wbuf 16384) ! 2 = 0" "b_data (wbuf 16384) ! 3 = 0" by (simp_all add: wbuf_def)
  ultimately show ?thesis using recv_sstp_unchecked [of "wbuf 16384" "[0x10]" "[]" "[]" 0 ] by simp
qed

text \<open>The HTTP reader takes an error for the end of the header: once a first read has
  succeeded, an error or the end of the stream ends the operation with success, with whatever
  the buffer holds.\<close>

theorem recv_http_error_masked:
  assumes "wf_buff b" "b_off b = 0" "bs \<noteq> []" "int (length bs) < b_max b"
    and "sstp_http_header_complete (b\<lparr>b_data := bs @ drop (length bs) (b_data b), b_off := int (length bs)\<rparr>) = Some False"
  shows "recv_http_loop False (Got bs # Rd_error # as) b
    = Some (Io_done, as, b\<lparr>b_data := bs @ drop (length bs) (b_data b), b_off := int (length bs)\<rparr>)"
proof -
  let ?b = "b\<lparr>b_data := bs @ drop (length bs) (b_data b), b_off := int (length bs)\<rparr>"
  have r: "ssl_read (Got bs # Rd_error # as) b (b_max b - b_off b) = Some (Io_done, Rd_error # as, ?b)"
    using assms(1-4) by (auto simp: ssl_read_def wr_n_def wf_buff_def Let_def)
  have "recv_http_loop True (Rd_error # as) ?b = Some (Io_done, as, ?b)"
    by (subst recv_http_loop.simps) (simp add: ssl_read_def)
  then show ?thesis using r assms(5) by (subst recv_http_loop.simps) simp
qed

lemma recv_http_error_masked_witness:
  "map_option (\<lambda>(e, as, b). (e, b_off b)) (recv_http_loop False [Got [72, 84], Rd_error] (wbuf 16)) = Some (Io_done, 2)"
proof -
  have "sstp_http_header_complete ((wbuf 16)\<lparr>b_data := [72, 84] @ drop (length [72 :: u8, 84]) (b_data (wbuf 16)),
      b_off := int (length [72 :: u8, 84])\<rparr>) = Some False"
    by (simp add: sstp_http_header_complete_def wbuf_def rd_n_def)
  moreover have "wf_buff (wbuf 16)" "b_off (wbuf 16) = 0" "[72 :: u8, 84] \<noteq> []" "int (length [72 :: u8, 84]) < b_max (wbuf 16)"
    by simp (simp_all add: wbuf_def)
  ultimately show ?thesis using recv_http_error_masked [of "wbuf 16" "[72, 84]" "[]"] by simp
qed

end
