(* ===== verification/Http.thy ===== *)
theory Http
  imports Buff Chap
begin

text \<open>
  The HTTP upgrade: \<^verbatim>\<open>sstp/sstp-http.c\<close>, the parser \<open>sstp_http_get\<close> of \<^verbatim>\<open>sstp/sstp-buff.c\<close> and
  \<open>sstp_get_guid\<close> of \<^verbatim>\<open>sstp/sstp-util.c\<close>.

  The C library functions the code uses on strings are written out on byte lists, with a read
  past the end of the object as \<open>None\<close>. What a context does to its stream and its client is a
  list of actions; the answer of the stream to a send is an argument.
\<close>

section \<open>C strings\<close>

definition is_space :: "u8 \<Rightarrow> bool" where
  "is_space c \<longleftrightarrow> c = 32 \<or> (9 \<le> c \<and> c \<le> 13)"

definition is_digit :: "u8 \<Rightarrow> bool" where
  "is_digit c \<longleftrightarrow> 48 \<le> c \<and> c \<le> 57"

definition lower :: "u8 \<Rightarrow> u8" where
  "lower c = (if 65 \<le> c \<and> c \<le> 90 then c + 32 else c)"

definition digits_value :: "bytes \<Rightarrow> nat" where
  "digits_value ds = foldl (\<lambda>n d. 10 * n + (unat d - 48)) 0 ds"

text \<open>
  \<^verbatim>\<open>strtoul (p, NULL, 10)\<close> of a 64-bit \<^verbatim>\<open>unsigned long\<close>, for the bytes from \<open>p\<close> on: white
  space, a sign, digits. The value, and whether \<^verbatim>\<open>errno\<close> is set to \<^verbatim>\<open>ERANGE\<close>.
\<close>

definition strtoul :: "bytes \<Rightarrow> (nat \<times> bool) option" where
  "strtoul r =
     (let r1 = dropWhile is_space r;
          neg = (r1 \<noteq> [] \<and> hd r1 = 45);
          r2 = (if r1 \<noteq> [] \<and> (hd r1 = 45 \<or> hd r1 = 43) then tl r1 else r1);
          ds = takeWhile is_digit r2;
          v = digits_value ds
      in if dropWhile is_digit r2 = [] then None
         else if v \<ge> 2 ^ 64 then Some (2 ^ 64 - 1, True)
         else Some (if neg then (2 ^ 64 - v) mod 2 ^ 64 else v, False))"

text \<open>\<^verbatim>\<open>strchr\<close> from an offset: the offset of the character, null, or a read past the end.\<close>

definition strchr :: "bytes \<Rightarrow> int \<Rightarrow> u8 \<Rightarrow> int option option" where
  "strchr d i c =
     (let r = drop (nat i) d;
          n = length (takeWhile (\<lambda>b. b \<noteq> 0 \<and> b \<noteq> c) r)
      in if i < 0 \<or> n = length r then None
         else Some (if r ! n = c then Some (i + int n) else None))"

definition strcasecmp_eq :: "bytes \<Rightarrow> bytes \<Rightarrow> bool" where
  "strcasecmp_eq a b \<longleftrightarrow> map lower a = map lower b"

section \<open>The parser of the reply\<close>

text \<open>The sizes of \<open>http_header_st\<close>.\<close>

definition name_size :: nat where "name_size = 32"
definition value_size :: nat where "value_size = 128"

text \<open>
  \<^verbatim>\<open>sscanf (p, "%[^:]: %[^\r\n]", name, value)\<close>: \<open>Some (Some (n, v))\<close> when it returns 2,
  \<open>Some None\<close> when it returns less. Neither conversion has a width: a string that does not fit
  its array with its terminator overflows it.
\<close>

definition sscanf_header :: "bytes \<Rightarrow> int \<Rightarrow> (bytes \<times> bytes) option option" where
  "sscanf_header d i =
     (if i < 0 then None
      else
        let r = drop (nat i) d;
            name = takeWhile (\<lambda>b. b \<noteq> 58 \<and> b \<noteq> 0) r;
            r1 = drop (length name) r
        in if r1 = [] then None
           else if name = [] then Some None
           else if length name \<ge> name_size then None
           else if hd r1 = 0 then Some None
           else
             let r2 = dropWhile is_space (tl r1);
                 val = takeWhile (\<lambda>b. b \<noteq> 13 \<and> b \<noteq> 10 \<and> b \<noteq> 0) r2
             in if length val = length r2 then None
                else if val = [] then Some None
                else if length val \<ge> value_size then None
                else Some (Some (name, val)))"

text \<open>
  The loop over the headers; \<open>k\<close> is the room left in the array, \<open>p\<close> the offset of a newline.
  The next newline is searched from \<open>p\<close> itself.
\<close>

fun http_loop :: "nat \<Rightarrow> bytes \<Rightarrow> int \<Rightarrow> (bytes \<times> bytes) list \<Rightarrow> (bytes \<times> bytes) list option" where
  "http_loop 0 d p acc = Some acc"
| "http_loop (Suc k) d p acc = do {
     h \<leftarrow> sscanf_header d (p + 1);
     case h of
       None \<Rightarrow> Some acc
     | Some h \<Rightarrow> do {
         q \<leftarrow> strchr d p 10;
         case q of
           None \<Rightarrow> Some (acc @ [h])
         | Some p \<Rightarrow> do {
             c \<leftarrow> rd d (p + 1);
             if c \<noteq> 13 \<and> c \<noteq> 10 then http_loop k d p (acc @ [h]) else Some (acc @ [h]) } } }"

text \<open>The status, the code as \<^verbatim>\<open>int\<close> and the headers; \<open>erange\<close> is \<^verbatim>\<open>errno\<close> before the call.\<close>

definition sstp_http_get ::
    "bool \<Rightarrow> sstp_buff \<Rightarrow> nat \<Rightarrow> (status_t \<times> int \<times> (bytes \<times> bytes) list) option" where
  "sstp_http_get erange buf count = do {
     (v, er) \<leftarrow> strtoul (drop 9 (b_data buf));
     let code = signed_take_bit 31 (int v);
     if code = -1 \<and> (er \<or> erange) then Some (SSTP_FAIL, code, [])
     else do {
       p \<leftarrow> strchr (b_data buf) 0 10;
       case p of
         None \<Rightarrow> Some (SSTP_FAIL, code, [])
       | Some p \<Rightarrow> do {
           hs \<leftarrow> http_loop count (b_data buf) p [];
           Some (SSTP_OKAY, code, hs) } } }"

primrec sstp_http_get_header :: "bytes \<Rightarrow> (bytes \<times> bytes) list \<Rightarrow> (bytes \<times> bytes) option" where
  "sstp_http_get_header name [] = None"
| "sstp_http_get_header name (h # hs) =
     (if strcasecmp_eq name (fst h) then Some h else sstp_http_get_header name hs)"

section \<open>The correlation id\<close>

definition hex_digit :: "nat \<Rightarrow> u8" where
  "hex_digit n = (if n < 10 then of_nat (48 + n) else of_nat (55 + n))"

function hex_digits :: "nat \<Rightarrow> bytes" where
  "hex_digits n = (if n < 16 then [hex_digit n] else hex_digits (n div 16) @ [hex_digit (n mod 16)])"
  by pat_completeness auto
termination by (relation "measure id") auto

declare hex_digits.simps [simp del]

text \<open>\<^verbatim>\<open>%.<w>X\<close>.\<close>

definition hex_pad :: "nat \<Rightarrow> nat \<Rightarrow> bytes" where
  "hex_pad w n = replicate (w - length (hex_digits n)) 48 @ hex_digits n"

text \<open>
  \<open>{%.4X-%.2X-%.2X-%.4X}\<close> of four random numbers, the middle two as 16-bit values; \<open>None\<close> when
  the text is longer than the buffer. A text of exactly \<open>len\<close> bytes loses its last one.
\<close>

definition sstp_get_guid :: "u32 \<Rightarrow> u32 \<Rightarrow> u32 \<Rightarrow> u32 \<Rightarrow> nat \<Rightarrow> bytes option" where
  "sstp_get_guid r1 r2 r3 r4 len =
     (let txt' = [123] @ hex_pad 4 (unat (r1 + 1)) @ [45] @ hex_pad 2 (unat (ucast (r2 + 1) :: u16)) @ [45]
            @ hex_pad 2 (unat (ucast (r3 + 1) :: u16)) @ [45] @ hex_pad 4 (unat (r4 + 1)) @ [125]
      in if length txt' > len then None else Some (take (len - 1) txt'))"

section \<open>The context\<close>

datatype http_mode = Http_client | Http_server

datatype http_act =
    Send_tls bytes          \<comment> \<open>\<open>sstp_stream_send\<close>\<close>
  | Send_plain bytes        \<comment> \<open>\<open>sstp_stream_send_plain\<close>\<close>
  | Arm_http int            \<comment> \<open>\<open>sstp_stream_setrecv\<close> with the HTTP reader and a timeout\<close>
  | Arm_plain int
  | Http_done status_t      \<comment> \<open>the client's callback\<close>

record http =
  h_server :: bytes
  h_buf :: sstp_buff
  h_mode :: http_mode
  h_user :: "bytes option"
  h_pass :: "bytes option"
  h_uuid :: bytes           \<comment> \<open>the 64 bytes\<close>

definition sstp_http_create ::
    "bool \<Rightarrow> bool \<Rightarrow> bytes option \<Rightarrow> bytes \<Rightarrow> http_mode \<Rightarrow> status_t \<times> http option" where
  "sstp_http_create mem mem_buf guid server md =
     (if \<not> mem then (SSTP_FAIL, None)
      else case sstp_buff_create mem_buf 8192 of
        (_, None) \<Rightarrow> (SSTP_FAIL, None)
      | (_, Some b) \<Rightarrow>
          (SSTP_OKAY, Some \<lparr>h_server = server, h_buf = b, h_mode = md, h_user = None, h_pass = None,
             h_uuid = (let u = (case guid of None \<Rightarrow> [] | Some u \<Rightarrow> u) in u @ replicate (64 - length u) 0)\<rparr>))"

definition sstp_http_setcreds :: "http \<Rightarrow> bytes \<Rightarrow> bytes \<Rightarrow> http" where
  "sstp_http_setcreds h user pass = h\<lparr>h_user := Some user, h_pass := Some pass\<rparr>"

text \<open>\<^verbatim>\<open>strncpy\<close> into the 64 bytes: an id of 64 bytes or more is not terminated.\<close>

definition sstp_http_setuuid :: "http \<Rightarrow> bytes \<Rightarrow> http" where
  "sstp_http_setuuid h uuid = h\<lparr>h_uuid := take 64 (uuid @ replicate 64 0)\<rparr>"

text \<open>The string in an array.\<close>

definition cstring :: "bytes \<Rightarrow> bytes option" where
  "cstring a = (if 0 \<in> set a then Some (takeWhile (\<lambda>b. b \<noteq> 0) a) else None)"

section \<open>The hello\<close>

definition crlf :: bytes where "crlf = [13, 10]"

definition hello_lines :: "bytes \<Rightarrow> bytes \<Rightarrow> bytes list" where
  "hello_lines server uuid =
     [ascii ''SSTP_DUPLEX_POST /sra_{BA195980-CD49-458b-9E23-C84EE0ADCD75}/ HTTP/1.1'' @ crlf,
      ascii ''Host: '' @ server @ crlf,
      ascii ''Content-Length: 18446744073709551615'' @ crlf,
      ascii ''SSTPCORRELATIONID: '' @ uuid @ crlf @ crlf]"

text \<open>The prints one after the other, stopped by the first that fails.\<close>

fun print_all :: "sstp_buff \<Rightarrow> bytes list \<Rightarrow> (status_t \<times> sstp_buff) option" where
  "print_all b [] = Some (SSTP_OKAY, b)"
| "print_all b (l # ls) = do {
     (st, b) \<leftarrow> sstp_buff_print b l;
     if st \<noteq> SSTP_OKAY then Some (st, b) else print_all b ls }"

definition sstp_http_send_complete :: "status_t \<Rightarrow> http \<Rightarrow> http_act list \<times> http" where
  "sstp_http_send_complete result h =
     (if result \<noteq> SSTP_OKAY then ([Http_done SSTP_FAIL], h)
      else ([Arm_http 60], h\<lparr>h_buf := sstp_buff_reset (h_buf h)\<rparr>))"

definition sstp_http_send_proxy_complete :: "status_t \<Rightarrow> http \<Rightarrow> http_act list \<times> http" where
  "sstp_http_send_proxy_complete result h =
     (if result \<noteq> SSTP_OKAY then ([Http_done SSTP_FAIL], h)
      else ([Arm_plain 60], h\<lparr>h_buf := sstp_buff_reset (h_buf h)\<rparr>))"

text \<open>\<open>ret\<close> is the answer of the stream.\<close>

definition sstp_http_send_hello ::
    "status_t \<Rightarrow> http \<Rightarrow> (status_t \<times> http_act list \<times> http) option" where
  "sstp_http_send_hello ret h = do {
     uuid \<leftarrow> cstring (h_uuid h);
     (st, b) \<leftarrow> print_all (sstp_buff_reset (h_buf h)) (hello_lines (h_server h) uuid);
     let h = h\<lparr>h_buf := b\<rparr>;
     Some (if st \<noteq> SSTP_OKAY then (st, [], h)
           else if ret = SSTP_OKAY then
             (let (acts, h) = sstp_http_send_complete SSTP_OKAY h in
              (SSTP_INPROG, Send_tls (content b) # acts, h))
           else (ret, [Send_tls (content b)], h)) }"

definition sstp_http_handshake ::
    "status_t \<Rightarrow> http \<Rightarrow> (status_t \<times> http_act list \<times> http) option" where
  "sstp_http_handshake ret h =
     (case h_mode h of Http_client \<Rightarrow> sstp_http_send_hello ret h
      | Http_server \<Rightarrow> Some (SSTP_NOTIMPL, [], h))"

text \<open>The reply. The \<open>Content-Length\<close> is only logged.\<close>

definition sstp_recv_hello_complete :: "bool \<Rightarrow> sstp_buff \<Rightarrow> status_t \<Rightarrow> http_act list option" where
  "sstp_recv_hello_complete erange buf status =
     (if status \<noteq> SSTP_OKAY then Some [Http_done status]
      else do {
        (ret, code, hs) \<leftarrow> sstp_http_get erange buf 32;
        Some [Http_done (if ret \<noteq> SSTP_OKAY then SSTP_FAIL
                         else if code \<noteq> 200 then SSTP_FAIL else SSTP_OKAY)] })"

section \<open>The proxy\<close>

text \<open>Base64 as \<^verbatim>\<open>EVP_Encode*\<close> write it is a parameter; the output array has 255 bytes.\<close>

definition sstp_proxy_basicauth :: "(bytes \<Rightarrow> bytes) \<Rightarrow> bytes \<Rightarrow> bytes \<Rightarrow> nat \<Rightarrow> bytes option" where
  "sstp_proxy_basicauth base64 user pass sz =
     (let out = base64 (user @ ascii '':'' @ pass) in
      if length out \<ge> 255 then None else Some (take (sz - 1) (ascii ''Basic '' @ out)))"

text \<open>
  \<open>SSTP_HTTP_PROXY_CONNECT_FMT\<close> has two conversions, the call one argument: \<open>stray\<close> is what the
  second conversion finds, if that is readable at all.
\<close>

definition sstp_http_proxy ::
    "(bytes \<Rightarrow> bytes) \<Rightarrow> bytes option \<Rightarrow> status_t \<Rightarrow> http \<Rightarrow> (status_t \<times> http_act list \<times> http) option" where
  "sstp_http_proxy base64 stray ret h = do {
     agent \<leftarrow> stray;
     auth \<leftarrow> (case (h_user h, h_pass h) of
                 (Some u, Some p) \<Rightarrow> do {
                   a \<leftarrow> sstp_proxy_basicauth base64 u p 512;
                   Some [ascii ''Proxy-Authorization: '' @ a] }
               | _ \<Rightarrow> Some []);
     (st, b) \<leftarrow> print_all (sstp_buff_reset (h_buf h))
       ([ascii ''CONNECT '' @ h_server h @ ascii '':443 HTTP/1.1'' @ crlf
           @ ascii ''SSTPVERSION: 1.0'' @ crlf @ ascii ''Connection: keep-alive'' @ crlf
           @ ascii ''User-Agent: '' @ agent @ crlf] @ auth @ [crlf]);
     let h = h\<lparr>h_buf := b\<rparr>;
     Some (if st \<noteq> SSTP_OKAY then (st, [], h)
           else if ret \<noteq> SSTP_OKAY then (ret, [Send_plain (content b)], h)
           else (ret, [Send_plain (content b), Arm_plain 60], h\<lparr>h_buf := sstp_buff_reset b\<rparr>)) }"

text \<open>A reply 407 without the header dereferences the null pointer.\<close>

definition sstp_recv_proxy_complete :: "bool \<Rightarrow> sstp_buff \<Rightarrow> status_t \<Rightarrow> http_act list option" where
  "sstp_recv_proxy_complete erange buf status =
     (if status \<noteq> SSTP_OKAY then Some [Http_done status]
      else do {
        (ret, code, hs) \<leftarrow> sstp_http_get erange buf 15;
        if ret \<noteq> SSTP_OKAY then Some [Http_done status]
        else if code = 200 then Some [Http_done SSTP_OKAY]
        else if code = 407 then
          (case sstp_http_get_header (ascii ''Proxy-Authenticate'') hs of
             None \<Rightarrow> None
           | Some e \<Rightarrow> Some [Http_done (if strcasecmp_eq (take 5 (snd e)) (ascii ''Basic'')
                                         then SSTP_AUTHENTICATE else SSTP_FAIL)])
        else Some [Http_done SSTP_FAIL] })"

end
