(* ===== verification/HttpProofs.thy ===== *)
theory HttpProofs
  imports Http
begin

text \<open>
  Correctness of the HTTP upgrade (theory \<open>Http\<close>): the exact request, what replies are accepted,
  and what the header parser returns.
\<close>

section \<open>Printing the request\<close>

lemma print_all_appends:
  "wf_buff b \<Longrightarrow> list_all (\<lambda>l. l \<noteq> []) ls \<Longrightarrow> b_len b + int (length (concat ls)) < b_max b \<Longrightarrow>
    \<exists>b'. print_all b ls = Some (SSTP_OKAY, b') \<and> content b' = content b @ concat ls
      \<and> wf_buff b' \<and> b_max b' = b_max b"
proof (induction ls arbitrary: b)
  case Nil
  then show ?case by simp
next
  case (Cons l ls)
  have f: "b_len b + int (length l) < b_max b" using Cons.prems(3) by simp
  obtain b1 where b1: "sstp_buff_print b l = Some (SSTP_OKAY, b1)" "content b1 = content b @ l"
    "wf_buff b1" "b_max b1 = b_max b"
    using sstp_buff_print_appends [OF Cons.prems(1) _ f] Cons.prems(2) by auto
  have "b_len b1 = b_len b + int (length l)"
    using length_content [OF b1(3)] length_content [OF Cons.prems(1)] b1(2,3) Cons.prems(1)
    by (auto simp: wf_buff_def)
  then obtain b2 where "print_all b1 ls = Some (SSTP_OKAY, b2)" "content b2 = content b1 @ concat ls"
    "wf_buff b2" "b_max b2 = b_max b1"
    using Cons.IH [OF b1(3)] Cons.prems(2,3) b1(4) by auto
  then show ?case using b1 by auto
qed

lemma hello_nonempty: "list_all (\<lambda>l. l \<noteq> []) (hello_lines server uuid)"
  by (simp add: hello_lines_def crlf_def)

lemma length_hello: "length (concat (hello_lines server uuid)) = length server + length uuid + 141"
  by (simp add: hello_lines_def crlf_def ascii_def)

section \<open>Reading the reply\<close>

text \<open>A number of three digits.\<close>

definition dec3 :: "nat \<Rightarrow> bytes" where
  "dec3 n = [of_nat (48 + n div 100), of_nat (48 + n div 10 mod 10), of_nat (48 + n mod 10)]"

text \<open>A reply: the status line, a first header and whatever follows, with a zero byte in the end.\<close>

definition reply :: "nat \<Rightarrow> bytes \<Rightarrow> bytes \<Rightarrow> bytes \<Rightarrow> bytes \<Rightarrow> bytes" where
  "reply n reason name val rest =
     ascii ''HTTP/1.1 '' @ dec3 n @ reason @ [13, 10] @ name @ [58, 32] @ val @ [13, 10] @ rest"

definition reply_ok :: "bytes \<Rightarrow> bytes \<Rightarrow> bytes \<Rightarrow> bool" where
  "reply_ok reason name val \<longleftrightarrow>
     (reason = [] \<or> \<not> is_digit (hd reason)) \<and> 0 \<notin> set reason \<and> 10 \<notin> set reason
     \<and> name \<noteq> [] \<and> length name < name_size \<and> 0 \<notin> set name \<and> 58 \<notin> set name
     \<and> hd name \<noteq> 13 \<and> hd name \<noteq> 10
     \<and> val \<noteq> [] \<and> length val < value_size \<and> 0 \<notin> set val \<and> 13 \<notin> set val \<and> 10 \<notin> set val
     \<and> \<not> is_space (hd val)"

lemma digit_byte:
  assumes "k < 10"
  shows "is_digit (of_nat (48 + k))" "unat (of_nat (48 + k) :: u8) - 48 = k"
    "\<not> is_space (of_nat (48 + k))" "of_nat (48 + k) \<noteq> (0::u8)" "of_nat (48 + k) \<noteq> (10::u8)"
    "of_nat (48 + k) \<noteq> (45::u8)" "of_nat (48 + k) \<noteq> (43::u8)"
proof -
  have "k \<in> {0, 1, 2, 3, 4, 5, 6, 7, 8, 9}" using assms by auto
  then show "is_digit (of_nat (48 + k))" "unat (of_nat (48 + k) :: u8) - 48 = k"
    "\<not> is_space (of_nat (48 + k))" "of_nat (48 + k) \<noteq> (0::u8)" "of_nat (48 + k) \<noteq> (10::u8)"
    "of_nat (48 + k) \<noteq> (45::u8)" "of_nat (48 + k) \<noteq> (43::u8)"
    by (elim insertE emptyE; simp add: is_digit_def is_space_def)+
qed

lemma strtoul_dec3:
  assumes "n < 1000" "r = [] \<longrightarrow> False" "\<not> is_digit (hd r)"
  shows "strtoul (dec3 n @ r) = Some (n, False)"
proof -
  define a b c where abc: "a = n div 100" "b = n div 10 mod 10" "c = n mod 10"
  have l: "a < 10" "b < 10" "c < 10" using assms(1) by (auto simp: abc)
  have "n div 100 = n div 10 div 10" by (simp add: div_mult2_eq [of n 10 10, symmetric])
  then have n: "n = 10 * (10 * a + b) + c" unfolding abc by (metis mult_div_mod_eq)
  have d: "dec3 n = [of_nat (48 + a), of_nat (48 + b), of_nat (48 + c)]" by (simp add: dec3_def abc)
  note da = digit_byte [OF l(1)] and db = digit_byte [OF l(2)] and dc = digit_byte [OF l(3)]
  have tw: "takeWhile is_digit r = []" "dropWhile is_digit r = r" "r \<noteq> []" using assms(2,3) by (cases r; simp)+
  have sp: "dropWhile is_space (dec3 n @ r) = dec3 n @ r" using da(3) by (simp add: d del: of_nat_add)
  have dg: "takeWhile is_digit (dec3 n @ r) = dec3 n" "dropWhile is_digit (dec3 n @ r) = r"
    using da(1) db(1) dc(1) tw by (simp_all add: d del: of_nat_add)
  have "digits_value (dec3 n) = 10 * (10 * a + b) + c"
    using da(2) db(2) dc(2) by (simp add: digits_value_def d del: of_nat_add)
  then have v: "digits_value (dec3 n) = n" using n by simp
  have h: "dec3 n @ r \<noteq> []" "hd (dec3 n @ r) \<noteq> 45" "hd (dec3 n @ r) \<noteq> 43"
    using da(6,7) by (simp_all add: d del: of_nat_add)
  show ?thesis
    using h sp dg v tw(3) assms(1) by (simp add: strtoul_def Let_def del: dropWhile_eq_Nil_conv)
qed

lemma takeWhile_stop: "(\<forall>x \<in> set xs. P x) \<Longrightarrow> \<not> P y \<Longrightarrow> takeWhile P (xs @ y # ys) = xs"
  by (induction xs) auto

text \<open>The newline of the status line is found from the start, and from itself.\<close>

lemma strchr_line:
  assumes "d = line @ 10 # r" "0 \<notin> set line" "10 \<notin> set line"
  shows "strchr d 0 10 = Some (Some (int (length line)))"
    and "strchr d (int (length line)) 10 = Some (Some (int (length line)))"
proof -
  have "takeWhile (\<lambda>b. b \<noteq> 0 \<and> b \<noteq> 10) d = line"
    unfolding assms(1) by (rule takeWhile_stop) (use assms in auto)
  then show "strchr d 0 10 = Some (Some (int (length line)))"
    using assms(1) by (simp add: strchr_def)
  show "strchr d (int (length line)) 10 = Some (Some (int (length line)))"
    using assms(1) by (simp add: strchr_def)
qed

lemma sscanf_first:
  assumes "d = pre @ name @ [58, 32] @ val @ 13 # r" "reply_ok reason name val"
  shows "sscanf_header d (int (length pre)) = Some (Some (name, val))"
proof -
  have n: "takeWhile (\<lambda>b. b \<noteq> 58 \<and> b \<noteq> 0) (name @ 58 # 32 # val @ 13 # r) = name"
    by (rule takeWhile_stop) (use assms(2) in \<open>auto simp: reply_ok_def\<close>)
  have v: "takeWhile (\<lambda>b. b \<noteq> 13 \<and> b \<noteq> 10 \<and> b \<noteq> 0) (val @ 13 # r) = val"
    by (rule takeWhile_stop) (use assms(2) in \<open>auto simp: reply_ok_def\<close>)
  obtain v vs where vs: "val = v # vs" "\<not> is_space v"
    using assms(2) by (cases val) (auto simp: reply_ok_def)
  have s: "is_space 32" "dropWhile is_space (val @ 13 # r) = val @ 13 # r"
    using vs by (simp_all) (simp add: is_space_def)
  have dr: "drop (length pre) d = name @ 58 # 32 # val @ 13 # r" using assms(1) by simp
  show ?thesis
    using assms(2) by (simp add: sscanf_header_def dr n v s Let_def reply_ok_def)
qed

lemma http_loop_repeats:
  assumes "sscanf_header d (p + 1) = Some (Some h)" "strchr d p 10 = Some (Some p)"
    and "rd d (p + 1) = Some c" "c \<noteq> 13" "c \<noteq> 10"
  shows "http_loop k d p acc = Some (acc @ replicate k h)"
proof (induction k arbitrary: acc)
  case (Suc k)
  then show ?case using assms by (simp add: replicate_append_same)
qed simp

lemma http_get_reply:
  assumes d: "b_data buf = reply n reason name val rest" and ok: "reply_ok reason name val" and n: "n < 1000"
  shows "sstp_http_get False buf count = Some (SSTP_OKAY, int n, replicate count (name, val))"
proof -
  let ?line = "ascii ''HTTP/1.1 '' @ dec3 n @ reason @ [13]"
  have ab: "ascii ''HTTP/1.1 '' = [72, 84, 84, 80, 47, 49, 46, 49, 32]" by (simp add: ascii_def)
  have l9: "drop 9 (b_data buf) = dec3 n @ (reason @ [13, 10] @ name @ [58, 32] @ val @ [13, 10] @ rest)"
    using d by (simp add: reply_def ab)
  have code: "strtoul (drop 9 (b_data buf)) = Some (n, False)"
    unfolding l9 by (rule strtoul_dec3) (use ok n in \<open>auto simp: reply_ok_def is_digit_def hd_append\<close>)
  have dd: "n div 100 < 10" "n div 10 mod 10 < 10" "n mod 10 < 10" using n by auto
  have dz: "0 \<notin> set (dec3 n)" "10 \<notin> set (dec3 n)"
    using digit_byte(4,5) [OF dd(1)] digit_byte(4,5) [OF dd(2)] digit_byte(4,5) [OF dd(3)]
    by (auto simp: dec3_def simp del: of_nat_add)
  have line: "b_data buf = ?line @ 10 # (name @ [58, 32] @ val @ [13, 10] @ rest)"
    using d by (simp add: reply_def)
  have nz: "0 \<notin> set ?line" "10 \<notin> set ?line" using ok dz by (auto simp: reply_ok_def ab)
  have s: "sscanf_header (b_data buf) (int (length ?line) + 1) = Some (Some (name, val))"
    using sscanf_first [of "b_data buf" "?line @ [10]" name val "10 # rest" reason] d ok
    by (simp add: reply_def add.commute)
  obtain c nt where c: "name = c # nt" using ok by (cases name) (auto simp: reply_ok_def)
  have r: "rd (b_data buf) (int (length ?line) + 1) = Some c"
    using rd_append_right [of 0 "?line @ [10]" "name @ [58, 32] @ val @ [13, 10] @ rest"] line c
    by (simp add: rd_def nth_append add.commute)
  have lp: "http_loop count (b_data buf) (int (length ?line)) [] = Some (replicate count (name, val))"
    using http_loop_repeats [OF s strchr_line(2) [OF line nz] r, of count "[]"] ok c by (simp add: reply_ok_def)
  have sg: "signed_take_bit 31 (int n) = int n"
    using n by (simp add: signed_take_bit_int_eq_self)
  show ?thesis
    using code strchr_line(1) [OF line nz] lp by (simp add: sstp_http_get_def sg)
qed

text \<open>A new context and its hello, with the correlation id that was generated.\<close>

definition hello_uuid :: "bytes option \<Rightarrow> bytes" where
  "hello_uuid guid = (case guid of None \<Rightarrow> [] | Some g \<Rightarrow> takeWhile (\<lambda>b. b \<noteq> 0) g)"

lemma hello_sent:
  assumes "sstp_http_create True True guid server Http_client = (st, ho)" "length server \<le> 254"
    and "\<And>g. guid = Some g \<Longrightarrow> length g < 64"
  shows "\<exists>h h'. ho = Some h \<and> sstp_http_handshake SSTP_OKAY h =
      Some (SSTP_INPROG, [Send_tls (concat (hello_lines server (hello_uuid guid))), Arm_http 60], h')"
proof -
  define u where "u = (case guid of None \<Rightarrow> [] | Some g \<Rightarrow> g)"
  have lu: "length u < 64" using assms(3) by (auto simp: u_def split: option.split)
  obtain h where h: "ho = Some h" "h_mode h = Http_client" "wf_buff (h_buf h)" "h_server h = server"
    "b_max (h_buf h) = 8192" "h_uuid h = u @ replicate (64 - length u) 0"
    using assms(1) by (auto simp: sstp_http_create_def sstp_buff_create_def wf_buff_def u_def Let_def)
  have tw: "takeWhile (\<lambda>b. b \<noteq> 0) (u @ replicate k 0) = takeWhile (\<lambda>b. b \<noteq> 0) u" for k
    by (induction u) auto
  have cs: "cstring (h_uuid h) = Some (hello_uuid guid)"
    using lu tw h(6) by (auto simp: cstring_def u_def hello_uuid_def split: option.split)
  have lh: "length (hello_uuid guid) \<le> 64"
    using lu length_takeWhile_le [of "\<lambda>b. b \<noteq> 0" u] by (auto simp: u_def hello_uuid_def split: option.splits)
  let ?b = "sstp_buff_reset (h_buf h)"
  have r: "wf_buff ?b" "b_len ?b = 0" "b_max ?b = 8192" "content ?b = []"
    using h(3,5) by (auto simp: sstp_buff_reset_def wf_buff_def content_def)
  obtain b' where "print_all ?b (hello_lines server (hello_uuid guid)) = Some (SSTP_OKAY, b')"
    "content b' = concat (hello_lines server (hello_uuid guid))"
    using print_all_appends [OF r(1) hello_nonempty, of server "hello_uuid guid"] r assms(2) lh
    by (auto simp: length_hello)
  then show ?thesis using h cs by (simp add: sstp_http_handshake_def sstp_http_send_hello_def sstp_http_send_complete_def)
qed

section \<open>How a server reads a request\<close>













section \<open>Properties\<close>




text \<open>The reply: a reply of the server with a three-digit code and a first header that fits is
  accepted exactly when the code is 200, and refused with \<open>SSTP_FAIL\<close> otherwise; a failed or
  timed out receive is passed on as it is.\<close>

theorem http_reply:
  assumes "b_data buf = reply n reason name val rest" "reply_ok reason name val" "n < 1000"
  shows "sstp_recv_hello_complete False buf st =
    Some [Http_done (if st \<noteq> SSTP_OKAY then st else if n = 200 then SSTP_OKAY else SSTP_FAIL)]"
  using http_get_reply [OF assms, of 32] by (simp add: sstp_recv_hello_complete_def)

lemma http_reply_witness:
  "sstp_recv_hello_complete False
     ((wbuf 0)\<lparr>b_data := reply 503 [32, 78] [83] [77] [0]\<rparr>) SSTP_OKAY = Some [Http_done SSTP_FAIL]"
  using http_reply [of "(wbuf 0)\<lparr>b_data := reply 503 [32, 78] [83] [77] [0]\<rparr>" 503 "[32, 78]" "[83]" "[77]" "[0]" SSTP_OKAY]
  by (simp add: reply_ok_def is_digit_def is_space_def name_size_def value_size_def)

text \<open>The header parser does not advance: it looks for the next line from the newline it is at,
  so whatever headers the reply has, every entry of the array is the first of them, and no other
  header is ever found.\<close>

theorem http_get_repeats_first:
  assumes "b_data buf = reply n reason name val rest" "reply_ok reason name val" "n < 1000" "0 < count"
  shows "sstp_http_get False buf count = Some (SSTP_OKAY, int n, replicate count (name, val))
    \<and> (\<forall>key. sstp_http_get_header key (replicate count (name, val)) =
        (if strcasecmp_eq key name then Some (name, val) else None))"
proof -
  have "sstp_http_get_header key (replicate count (name, val)) =
        (if strcasecmp_eq key name then Some (name, val) else None)" for key
    using assms(4) by (induction count) (auto simp: neq_Nil_conv, (case_tac count; simp)+)
  then show ?thesis using http_get_reply [OF assms(1-3)] by blast
qed

lemma http_get_repeats_first_witness:
  "sstp_http_get False ((wbuf 0)\<lparr>b_data := reply 200 [] [83] [77] (ascii ''Content-Length: 5'' @ [13, 10, 13, 10, 0])\<rparr>) 3
    = Some (SSTP_OKAY, 200, [([83], [77]), ([83], [77]), ([83], [77])])"
  using http_get_repeats_first [of "(wbuf 0)\<lparr>b_data := reply 200 [] [83] [77] (ascii ''Content-Length: 5'' @ [13, 10, 13, 10, 0])\<rparr>"
      200 "[]" "[83]" "[77]" "ascii ''Content-Length: 5'' @ [13, 10, 13, 10, 0]" 3]
  by (simp add: reply_ok_def is_digit_def is_space_def name_size_def value_size_def numeral_3_eq_3)

end
