(* ===== verification/Url.thy ===== *)
theory Url
  imports Http
begin

text \<open>
  The URL parser of \<^verbatim>\<open>sstp/sstp-util.c\<close> (\<open>sstp_url_parse\<close>) and the two socket helpers the
  stream uses. The parser cuts a copy of the text in place; its fields are the strings that
  result. \<^verbatim>\<open>inet_pton\<close> is outside: \<open>ip4\<close> and \<open>ip6\<close> say which texts it accepts.
\<close>

section \<open>Data\<close>

record url =
  u_schema :: "bytes option"
  u_user :: "bytes option"
  u_password :: "bytes option"
  u_host :: bytes
  u_port :: "bytes option"
  u_path :: "bytes option"

record inet =
  ip4 :: "bytes \<Rightarrow> bool"
  ip6 :: "bytes \<Rightarrow> bool"

section \<open>Strings\<close>

text \<open>The text before and behind the first, and the last, occurrence of a character.\<close>

definition split_first :: "u8 \<Rightarrow> bytes \<Rightarrow> (bytes \<times> bytes) option" where
  "split_first c s =
     (if c \<in> set s then Some (takeWhile (\<lambda>x. x \<noteq> c) s, tl (dropWhile (\<lambda>x. x \<noteq> c) s)) else None)"

definition split_last :: "u8 \<Rightarrow> bytes \<Rightarrow> (bytes \<times> bytes) option" where
  "split_last c s = map_option (\<lambda>(a, b). (rev b, rev a)) (split_first c (rev s))"

text \<open>\<^verbatim>\<open>strstr (s, "://")\<close>.\<close>

primrec split_schema :: "bytes \<Rightarrow> (bytes \<times> bytes) option" where
  "split_schema [] = None"
| "split_schema (c # s) =
     (if take 3 (c # s) = [58, 47, 47] then Some ([], drop 3 (c # s))
      else map_option (\<lambda>(a, b). (c # a, b)) (split_schema s))"

text \<open>
  \<^verbatim>\<open>strtol (s, NULL, 10)\<close> of a 64-bit \<^verbatim>\<open>long\<close> for a whole string: white space, a sign,
  digits, whatever follows. The value, and whether it is out of range.
\<close>

definition strtol :: "bytes \<Rightarrow> int \<times> bool" where
  "strtol s =
     (let r1 = dropWhile is_space s;
          neg = (r1 \<noteq> [] \<and> hd r1 = 45);
          r2 = (if r1 \<noteq> [] \<and> (hd r1 = 45 \<or> hd r1 = 43) then tl r1 else r1);
          v = (if neg then -1 else 1) * int (digits_value (takeWhile is_digit r2))
      in if v \<ge> 2 ^ 63 then (2 ^ 63 - 1, True) else if v < - (2 ^ 63) then (- (2 ^ 63), True) else (v, False))"

section \<open>The parser\<close>

definition is_hostname :: "bytes \<Rightarrow> bool" where
  "is_hostname s \<longleftrightarrow> length s \<le> 253"

text \<open>The value is narrowed to \<^verbatim>\<open>int\<close> before the comparison.\<close>

definition is_port :: "bytes \<Rightarrow> bool" where
  "is_port s =
     (let (v, erange) = strtol s; val = signed_take_bit 31 v in \<not> erange \<and> val > 0 \<and> val < 65536)"

text \<open>The host and the port, \<open>None\<close> when the parser gives up.\<close>

definition host_port :: "inet \<Rightarrow> bytes \<Rightarrow> (bytes \<times> bytes option) option" where
  "host_port net s =
     (if s \<noteq> [] \<and> hd s = 91 then
        (case split_first 93 s of
           None \<Rightarrow> None
         | Some (a, after) \<Rightarrow>
             if \<not> ip6 net (tl a) then None
             else Some (tl a, if after \<noteq> [] \<and> hd after = 58 then Some (tl after) else None))
      else if ip6 net s then Some (s, None)
      else
        let (h, p) = (case split_last 58 s of None \<Rightarrow> (s, None) | Some (h, p) \<Rightarrow> (h, Some p)) in
        if \<not> ip4 net h \<and> \<not> is_hostname h then None else Some (h, p))"

definition sstp_url_parse :: "inet \<Rightarrow> bool \<Rightarrow> bytes \<Rightarrow> status_t \<times> url option" where
  "sstp_url_parse net mem text' =
     (if \<not> mem then (SSTP_FAIL, None)
      else
        let (schema, r) = (case split_schema text' of None \<Rightarrow> (None, text') | Some (s, r) \<Rightarrow> (Some s, r));
            (usr, r) = (case split_first 64 r of None \<Rightarrow> (None, r) | Some (u, r) \<Rightarrow> (Some u, r));
            (usr, pw) = (case usr of
                None \<Rightarrow> (None, None)
              | Some u \<Rightarrow> (case split_first 58 u of None \<Rightarrow> (Some u, None) | Some (u, p) \<Rightarrow> (Some u, Some p)));
            (r, path) = (case split_first 47 r of None \<Rightarrow> (r, None) | Some (r, p) \<Rightarrow> (r, Some p))
        in case host_port net r of
          None \<Rightarrow> (SSTP_FAIL, None)
        | Some (host, port) \<Rightarrow>
            if (case port of None \<Rightarrow> False | Some p \<Rightarrow> \<not> is_port p) then (SSTP_FAIL, None)
            else
              let port = (if schema = None \<and> port = None then Some (ascii ''443'') else port)
              in (SSTP_OKAY, Some \<lparr>u_schema = schema, u_user = usr, u_password = pw,
                    u_host = host, u_port = port, u_path = path\<rparr>))"

section \<open>Sockets\<close>

text \<open>The flags are those \<^verbatim>\<open>fcntl\<close> reports; \<open>setfl\<close> and \<open>setopt\<close> are the results of the calls.\<close>

definition sstp_set_nonbl :: "u32 \<Rightarrow> (u32 \<Rightarrow> int) \<Rightarrow> u32 \<Rightarrow> int \<Rightarrow> status_t" where
  "sstp_set_nonbl O_NONBLOCK setfl flags state =
     (let flag = (if state = 1 then flags OR O_NONBLOCK else flags AND NOT O_NONBLOCK) in
      if setfl flag \<noteq> 0 then SSTP_FAIL else SSTP_OKAY)"

definition sstp_set_sndbuf :: "(int \<Rightarrow> int) \<Rightarrow> int \<Rightarrow> status_t" where
  "sstp_set_sndbuf setopt sz = (if setopt sz \<noteq> 0 then SSTP_FAIL else SSTP_OKAY)"

section \<open>Splitting what was joined\<close>

lemma split_first_join: "c \<notin> set a \<Longrightarrow> split_first c (a @ c # b) = Some (a, b)"
  by (induction a) (auto simp: split_first_def)

lemma split_first_none: "c \<notin> set a \<Longrightarrow> split_first c a = None"
  by (simp add: split_first_def)

lemma split_last_join: "c \<notin> set b \<Longrightarrow> split_last c (a @ c # b) = Some (a, b)"
  using split_first_join [of c "rev b" "rev a"] by (simp add: split_last_def)

lemma split_last_none: "c \<notin> set a \<Longrightarrow> split_last c a = None"
  by (simp add: split_last_def split_first_none)

lemma split_schema_join: "58 \<notin> set a \<Longrightarrow> split_schema (a @ 58 # 47 # 47 # b) = Some (a, b)"
  by (induction a) auto

text \<open>The text of a URL.\<close>

definition plain :: "bytes \<Rightarrow> bool" where
  "plain s \<longleftrightarrow> 58 \<notin> set s \<and> 47 \<notin> set s \<and> 64 \<notin> set s"

definition url_text :: "bytes \<Rightarrow> (bytes \<times> bytes) option \<Rightarrow> bytes \<Rightarrow> bytes \<Rightarrow> bytes \<Rightarrow> bytes" where
  "url_text schema cred host port path =
     schema @ [58, 47, 47]
     @ (case cred of None \<Rightarrow> [] | Some (u, p) \<Rightarrow> u @ [58] @ p @ [64])
     @ host @ [58] @ port @ [47] @ path"

lemma is_port_cases:
  "is_port p \<Longrightarrow> p \<noteq> []"
  by (auto simp: is_port_def strtol_def digits_value_def)

section \<open>Properties\<close>

text \<open>C27. A URL is taken apart into the parts it was made of: schema, user and password if there are
  any, host, port and path, for a host name or IPv4 address of at most 253 bytes without
  colon, slash or at-sign, a number from 1 to 65535 as the port, and a path without at-sign; an
  IPv6 host is found in its brackets.\<close>

theorem sstp_url_parse_text:
  assumes "plain schema" "plain port" "64 \<notin> set path" "is_port port"
    and "\<And>u p. cred = Some (u, p) \<Longrightarrow> plain u \<and> 64 \<notin> set p"
    and "(plain host \<and> length host \<le> 253 \<and> host \<noteq> [] \<and> hd host \<noteq> 91 \<and> \<not> ip6 net (host @ [58] @ port) \<and> shown = host)
      \<or> (ip6 net host \<and> 93 \<notin> set host \<and> 47 \<notin> set host \<and> 64 \<notin> set host \<and> shown = [91] @ host @ [93])"
  shows "sstp_url_parse net True (url_text schema cred shown port path) = (SSTP_OKAY, Some
    \<lparr>u_schema = Some schema, u_user = map_option fst cred, u_password = map_option snd cred,
     u_host = host, u_port = Some port, u_path = Some path\<rparr>)"
proof -
  let ?r = "shown @ [58] @ port"
  have s47: "47 \<notin> set ?r" "64 \<notin> set ?r" using assms(2,6) by (auto simp: plain_def)
  have hp: "host_port net ?r = Some (host, Some port)"
    using assms(6)
  proof
    assume h: "plain host \<and> length host \<le> 253 \<and> host \<noteq> [] \<and> hd host \<noteq> 91 \<and> \<not> ip6 net (host @ [58] @ port) \<and> shown = host"
    have "split_last 58 (host @ 58 # port) = Some (host, port)"
      using split_last_join [of 58 port host] assms(2) by (simp add: plain_def)
    then show ?thesis using h by (simp add: host_port_def is_hostname_def)
  next
    assume h: "ip6 net host \<and> 93 \<notin> set host \<and> 47 \<notin> set host \<and> 64 \<notin> set host \<and> shown = [91] @ host @ [93]"
    then have "split_first 93 ((91 # host) @ 93 # 58 # port) = Some (91 # host, 58 # port)"
      by (intro split_first_join) simp
    then show ?thesis using h by (simp add: host_port_def)
  qed
  have sl: "split_first 47 (?r @ 47 # path) = Some (?r, path)" using s47(1) by (rule split_first_join)
  have sc: "split_schema (url_text schema cred shown port path) = Some (schema,
      (case cred of None \<Rightarrow> [] | Some (u, p) \<Rightarrow> u @ [58] @ p @ [64]) @ ?r @ 47 # path)"
    using assms(1) by (simp add: url_text_def split_schema_join plain_def)
  show ?thesis
  proof (cases cred)
    case None
    have "split_first 64 (?r @ 47 # path) = None"
      by (rule split_first_none) (use s47(2) assms(3) in auto)
    then show ?thesis
      using sc sl hp assms(4) None by (simp add: sstp_url_parse_def)
  next
    case (Some q)
    obtain u p where q: "q = (u, p)" by (cases q)
    have up: "plain u" "64 \<notin> set p" using assms(5) Some q by auto
    have "split_first 64 ((u @ 58 # p) @ 64 # (?r @ 47 # path)) = Some (u @ 58 # p, ?r @ 47 # path)"
      by (rule split_first_join) (use up in \<open>auto simp: plain_def\<close>)
    moreover have "split_first 58 (u @ 58 # p) = Some (u, p)"
      by (rule split_first_join) (use up in \<open>simp add: plain_def\<close>)
    ultimately show ?thesis
      using sc sl hp assms(4) Some q by (simp add: sstp_url_parse_def)
  qed
qed

lemma sstp_url_parse_text_witness:
  "sstp_url_parse \<lparr>ip4 = (\<lambda>_. False), ip6 = (\<lambda>_. False)\<rparr> True
     (url_text [104] (Some ([117], [112, 58])) [115, 46, 99] [52, 52, 51] [97])
   = (SSTP_OKAY, Some \<lparr>u_schema = Some [104], u_user = Some [117], u_password = Some [112, 58],
        u_host = [115, 46, 99], u_port = Some [52, 52, 51], u_path = Some [97]\<rparr>)"
  using sstp_url_parse_text [of "[104]" "[52, 52, 51]" "[97]" "Some ([117], [112, 58])" "[115, 46, 99]"
      "\<lparr>ip4 = (\<lambda>_. False), ip6 = (\<lambda>_. False)\<rparr>" "[115, 46, 99]"]
  by (simp add: plain_def is_port_def strtol_def is_space_def is_digit_def digits_value_def signed_take_bit_int_eq_self)

text \<open>The port check narrows the number to 32 bits and ignores what follows the digits: a port is
  accepted whenever its digits are a number between 1 and 65535 modulo \<open>2 ^ 32\<close>.\<close>

theorem is_port_modulo:
  assumes "ds \<noteq> []" "list_all is_digit ds" "r = [] \<or> \<not> is_digit (hd r)" "digits_value ds < 2 ^ 63"
  shows "is_port (ds @ r) \<longleftrightarrow> 0 < digits_value ds mod 2 ^ 32 \<and> digits_value ds mod 2 ^ 32 < 65536"
proof -
  obtain d ds' where d: "ds = d # ds'" "is_digit d" using assms(1,2) by (cases ds) auto
  have nd: "\<not> is_space d" "d \<noteq> 45" "d \<noteq> 43"
    using d(2) by (auto simp: is_space_def is_digit_def word_le_nat_alt)
  have tw: "takeWhile is_digit (ds @ r) = ds"
    using assms(2,3) by (cases r) (auto simp: list_all_iff takeWhile_append1 takeWhile_append2)
  define v where "v = digits_value ds"
  have s: "strtol (ds @ r) = (int v, False)"
    using nd assms(4) tw unfolding v_def by (simp add: strtol_def d(1) Let_def)
  define m where "m = int (v mod 2 ^ 32)"
  have m: "0 \<le> m" "m < 4294967296" "int v mod 4294967296 = m" by (simp_all add: m_def zmod_int)
  have "signed_take_bit 31 (int v) = (int v + 2147483648) mod 4294967296 - 2147483648"
    by (simp add: signed_take_bit_eq_take_bit_shift take_bit_eq_mod)
  also have "(int v + 2147483648) mod 4294967296 = (m + 2147483648) mod 4294967296"
    unfolding m(3) [symmetric] by (rule mod_add_left_eq [symmetric])
  also have "\<dots> = (if m < 2147483648 then m + 2147483648 else m - 2147483648)"
  proof (cases "m < 2147483648")
    case True
    then show ?thesis using m by (simp add: mod_pos_pos_trivial)
  next
    case False
    have "(m + 2147483648) mod 4294967296 = ((m - 2147483648) + 4294967296) mod 4294967296"
      by (rule arg_cong [of _ _ "\<lambda>x. x mod 4294967296"]) simp
    also have "\<dots> = m - 2147483648" unfolding mod_add_self2 using False m by (simp add: mod_pos_pos_trivial)
    finally show ?thesis using False by simp
  qed
  finally have st: "signed_take_bit 31 (int v) = (if m < 2147483648 then m else m - 4294967296)" by simp
  have "is_port (ds @ r) \<longleftrightarrow> 0 < m \<and> m < 65536"
    using m(2) by (simp add: is_port_def s st Let_def)
  then show ?thesis by (simp add: m_def v_def)
qed

lemma is_port_modulo_witness: "is_port (ascii ''4294967739x'')"
proof -
  have "ascii ''4294967739x'' = ascii ''4294967739'' @ ascii ''x''" by (simp add: ascii_def)
  moreover have "ascii ''4294967739'' \<noteq> []" "list_all is_digit (ascii ''4294967739'')"
    "ascii ''x'' = [] \<or> \<not> is_digit (hd (ascii ''x''))" "digits_value (ascii ''4294967739'') = 4294967739"
    by (simp_all add: ascii_def is_digit_def digits_value_def)
  ultimately show ?thesis using is_port_modulo [of "ascii ''4294967739''" "ascii ''x''"] by simp
qed

end
