(* ===== verification/IosError.thy ===== *)
theory IosError
  imports Main
begin

text \<open>
  The stage and error contract of the iOS client, \<^verbatim>\<open>sstp/sstp-ios-error.h\<close> and
  \<^verbatim>\<open>sstp/sstp-ios-error.c\<close>. A string argument may be the null pointer.
\<close>

definition STAGE_IDLE :: string where "STAGE_IDLE = ''idle''"
definition STAGE_RESOLVING :: string where "STAGE_RESOLVING = ''resolving''"
definition STAGE_TCP_TLS :: string where "STAGE_TCP_TLS = ''tcp_tls''"
definition STAGE_HTTP_UPGRADE :: string where "STAGE_HTTP_UPGRADE = ''http_upgrade''"
definition STAGE_SSTP_CONTROL :: string where "STAGE_SSTP_CONTROL = ''sstp_control''"
definition STAGE_PPP_LCP :: string where "STAGE_PPP_LCP = ''ppp_lcp''"
definition STAGE_PPP_AUTH :: string where "STAGE_PPP_AUTH = ''ppp_auth''"
definition STAGE_PPP_IPCP :: string where "STAGE_PPP_IPCP = ''ppp_ipcp''"
definition STAGE_PPP_MPPE :: string where "STAGE_PPP_MPPE = ''ppp_mppe''"
definition STAGE_APPLYING_SETTINGS :: string where "STAGE_APPLYING_SETTINGS = ''applying_settings''"
definition STAGE_CONNECTED :: string where "STAGE_CONNECTED = ''connected''"
definition STAGE_DISCONNECTING :: string where "STAGE_DISCONNECTING = ''disconnecting''"
definition STAGE_RECONNECTING :: string where "STAGE_RECONNECTING = ''reconnecting''"
definition STAGE_ERROR :: string where "STAGE_ERROR = ''error''"

definition ERR_DNS_RESOLVE :: string where "ERR_DNS_RESOLVE = ''dns_resolve''"
definition ERR_TCP_TIMEOUT :: string where "ERR_TCP_TIMEOUT = ''tcp_timeout''"
definition ERR_TLS_HANDSHAKE :: string where "ERR_TLS_HANDSHAKE = ''tls_handshake''"
definition ERR_TLS_CERT :: string where "ERR_TLS_CERT = ''tls_cert''"
definition ERR_HTTP_UPGRADE :: string where "ERR_HTTP_UPGRADE = ''http_upgrade''"
definition ERR_SSTP_CONTROL :: string where "ERR_SSTP_CONTROL = ''sstp_control''"
definition ERR_AUTH_REJECTED :: string where "ERR_AUTH_REJECTED = ''auth_rejected''"
definition ERR_IPCP_FAILED :: string where "ERR_IPCP_FAILED = ''ipcp_failed''"
definition ERR_CRYPTO_BINDING :: string where "ERR_CRYPTO_BINDING = ''crypto_binding''"
definition ERR_MPPE_FAILED :: string where "ERR_MPPE_FAILED = ''mppe_failed''"
definition ERR_NETWORK_LOST :: string where "ERR_NETWORK_LOST = ''network_lost''"
definition ERR_MISSING_CREDENTIALS :: string where "ERR_MISSING_CREDENTIALS = ''missing_credentials''"
definition ERR_CANCELLED :: string where "ERR_CANCELLED = ''cancelled''"
definition ERR_INTERNAL :: string where "ERR_INTERNAL = ''internal''"

lemmas stage_defs =
  STAGE_IDLE_def STAGE_RESOLVING_def STAGE_TCP_TLS_def STAGE_HTTP_UPGRADE_def STAGE_SSTP_CONTROL_def
  STAGE_PPP_LCP_def STAGE_PPP_AUTH_def STAGE_PPP_IPCP_def STAGE_PPP_MPPE_def STAGE_APPLYING_SETTINGS_def
  STAGE_CONNECTED_def STAGE_DISCONNECTING_def STAGE_RECONNECTING_def STAGE_ERROR_def

lemmas err_defs =
  ERR_DNS_RESOLVE_def ERR_TCP_TIMEOUT_def ERR_TLS_HANDSHAKE_def ERR_TLS_CERT_def ERR_HTTP_UPGRADE_def
  ERR_SSTP_CONTROL_def ERR_AUTH_REJECTED_def ERR_IPCP_FAILED_def ERR_CRYPTO_BINDING_def
  ERR_MPPE_FAILED_def ERR_NETWORK_LOST_def ERR_MISSING_CREDENTIALS_def ERR_CANCELLED_def ERR_INTERNAL_def

definition codes :: "string list" where
  "codes = [ERR_DNS_RESOLVE, ERR_TCP_TIMEOUT, ERR_TLS_HANDSHAKE, ERR_TLS_CERT, ERR_HTTP_UPGRADE,
     ERR_SSTP_CONTROL, ERR_AUTH_REJECTED, ERR_IPCP_FAILED, ERR_CRYPTO_BINDING, ERR_MPPE_FAILED,
     ERR_NETWORK_LOST, ERR_MISSING_CREDENTIALS, ERR_CANCELLED, ERR_INTERNAL]"

definition stages :: "string list" where
  "stages = [STAGE_IDLE, STAGE_RESOLVING, STAGE_TCP_TLS, STAGE_HTTP_UPGRADE, STAGE_SSTP_CONTROL,
     STAGE_PPP_LCP, STAGE_PPP_AUTH, STAGE_PPP_IPCP, STAGE_PPP_MPPE, STAGE_APPLYING_SETTINGS,
     STAGE_CONNECTED, STAGE_DISCONNECTING, STAGE_RECONNECTING, STAGE_ERROR]"

definition sstp_ios_error_is_fatal :: "string option \<Rightarrow> bool" where
  "sstp_ios_error_is_fatal code =
     (case code of
        None \<Rightarrow> False
      | Some c \<Rightarrow> c \<noteq> [] \<and> (c = ERR_AUTH_REJECTED \<or> c = ERR_MISSING_CREDENTIALS \<or> c = ERR_TLS_CERT
          \<or> c = ERR_CANCELLED \<or> c = ERR_CRYPTO_BINDING))"

definition sstp_ios_error_code_valid :: "string option \<Rightarrow> bool" where
  "sstp_ios_error_code_valid code = (case code of None \<Rightarrow> False | Some c \<Rightarrow> c \<in> set codes)"

definition sstp_ios_stage_valid :: "string option \<Rightarrow> bool" where
  "sstp_ios_stage_valid stage = (case stage of None \<Rightarrow> False | Some s \<Rightarrow> s \<in> set stages)"

lemma fatal_valid: "sstp_ios_error_is_fatal c \<Longrightarrow> sstp_ios_error_code_valid c"
  by (cases c) (auto simp: sstp_ios_error_is_fatal_def sstp_ios_error_code_valid_def codes_def)

lemma stage_length: "sstp_ios_stage_valid (Some s) \<Longrightarrow> length s < 64"
  by (auto simp: sstp_ios_stage_valid_def stages_def stage_defs)

lemma code_length: "sstp_ios_error_code_valid (Some s) \<Longrightarrow> length s < 64 \<and> s \<noteq> []"
  by (auto simp: sstp_ios_error_code_valid_def codes_def err_defs)

end
