(* ===== verification/IosTls.thy ===== *)
theory IosTls
  imports Stream Http IosError
begin

text \<open>
  The trust decisions of the iOS client, from \<^verbatim>\<open>sstp/sstp-ios.c\<close>: the TLS modes, the pin of
  the leaf certificate, the verify callback, the set-up of the OpenSSL context and the
  evaluation of the chain by the system.

  OpenSSL's answers are a record of functions (\<open>tls_peer\<close> of theory \<open>Stream\<close>, extended by what
  the client asks besides). A failure is the triple of code, stage and message that
  \<open>sstp_ios_fail_ex\<close> is called with.
\<close>

section \<open>Modes\<close>

datatype tls_mode =
    SSTP_IOS_TLS_SYSTEM
  | SSTP_IOS_TLS_CUSTOM_CA
  | SSTP_IOS_TLS_PINNED
  | SSTP_IOS_TLS_INSECURE_DEBUG

primrec ios_tls_mode_name :: "tls_mode \<Rightarrow> string" where
  "ios_tls_mode_name SSTP_IOS_TLS_SYSTEM = ''system''"
| "ios_tls_mode_name SSTP_IOS_TLS_CUSTOM_CA = ''custom_ca''"
| "ios_tls_mode_name SSTP_IOS_TLS_PINNED = ''pinned''"
| "ios_tls_mode_name SSTP_IOS_TLS_INSECURE_DEBUG = ''insecure_debug''"

type_synonym failure = "string \<times> string \<times> string"

section \<open>The pin\<close>

definition ios_hex_nibble :: "char \<Rightarrow> int" where
  "ios_hex_nibble c =
     (let n = int (of_char c) in
      if 48 \<le> n \<and> n \<le> 57 then n - 48
      else if 97 \<le> n \<and> n \<le> 102 then n - 97 + 10
      else if 65 \<le> n \<and> n \<le> 70 then n - 65 + 10
      else -1)"

text \<open>The loop of \<open>ios_parse_sha256_hex\<close>, two characters at a time.\<close>

fun hex_pairs :: "string \<Rightarrow> bytes option" where
  "hex_pairs (a # b # r) =
     (let hi = ios_hex_nibble a; lo = ios_hex_nibble b in
      if hi < 0 \<or> lo < 0 then None
      else map_option ((#) (word_of_int (push_bit 4 hi OR lo))) (hex_pairs r))"
| "hex_pairs [] = Some []"
| "hex_pairs [_] = None"

definition ios_parse_sha256_hex :: "string option \<Rightarrow> bytes option" where
  "ios_parse_sha256_hex hex =
     (case hex of None \<Rightarrow> None | Some h \<Rightarrow> if length h \<noteq> 64 then None else hex_pairs h)"

definition ios_pin_matches :: "('x, 'z) tls_peer_scheme \<Rightarrow> 'x option \<Rightarrow> string \<Rightarrow> bool" where
  "ios_pin_matches tls cert pin_hex =
     (case cert of None \<Rightarrow> False
      | Some x \<Rightarrow> pin_hex \<noteq> [] \<and>
          (case ios_parse_sha256_hex (Some pin_hex) of None \<Rightarrow> False
           | Some want \<Rightarrow> (case x509_digest tls True x of None \<Rightarrow> False
               | Some dig \<Rightarrow> length dig = 32 \<and> dig = want)))"

text \<open>\<^verbatim>\<open>snprintf (hex + i * 2, 3, "%02x", hash[i])\<close> for all \<open>i\<close>.\<close>

definition nibble_char :: "nat \<Rightarrow> char" where
  "nibble_char n = char_of (if n < 10 then 48 + n else 87 + n)"

definition hex_of :: "bytes \<Rightarrow> string" where
  "hex_of hash = concat (map (\<lambda>b. [nibble_char (unat b div 16), nibble_char (unat b mod 16)]) hash)"

section \<open>The verify callback\<close>

text \<open>The session is its mode and its pin; without one the verdict of OpenSSL stands.\<close>

definition ios_verify_callback ::
    "('x, 'z) tls_peer_scheme \<Rightarrow> (tls_mode \<times> string) option \<Rightarrow> bool \<Rightarrow> nat \<Rightarrow> 'x option \<Rightarrow> bool" where
  "ios_verify_callback tls session preverify_ok depth cert =
     (case session of None \<Rightarrow> preverify_ok
      | Some (md, pin) \<Rightarrow>
          if md = SSTP_IOS_TLS_INSECURE_DEBUG then True
          else if md = SSTP_IOS_TLS_SYSTEM then True
          else if md = SSTP_IOS_TLS_PINNED \<and> depth = 0 \<and> cert \<noteq> None then ios_pin_matches tls cert pin
          else preverify_ok)"

section \<open>The trust of the system\<close>

text \<open>
  \<open>peer_chain\<close> is the chain the server sent, if it is known (an entry may be null), \<open>i2d\<close> the
  encoding of a certificate, \<open>der_mem\<close> whether the memory for it is found, \<open>sec_trust\<close> the
  answer of \<open>sstp_ios_sec_trust_evaluate\<close> with its message.
\<close>

record 'x ios_tls = "'x tls_peer" +
  ssl_there :: bool
  peer_chain :: "'x option list option"
  x509_cmp :: "'x \<Rightarrow> 'x \<Rightarrow> bool"     \<comment> \<open>equal\<close>
  i2d :: "'x \<Rightarrow> bytes"               \<comment> \<open>empty when it fails\<close>
  der_mem :: "'x \<Rightarrow> bool"
  trust_mem :: bool
  sec_trust :: "bytes list \<Rightarrow> string option \<Rightarrow> bool \<times> string"

definition ios_x509_to_der :: "('x, 'z) ios_tls_scheme \<Rightarrow> 'x option \<Rightarrow> bytes option" where
  "ios_x509_to_der tls cert =
     (case cert of None \<Rightarrow> None
      | Some x \<Rightarrow> if i2d tls x = [] then None else if \<not> der_mem tls x then None else Some (i2d tls x))"

text \<open>The loop over the chain: null entries and copies of the leaf are left out.\<close>

primrec chain_ders :: "('x, 'z) ios_tls_scheme \<Rightarrow> 'x \<Rightarrow> 'x option list \<Rightarrow> bytes list option" where
  "chain_ders tls leaf [] = Some []"
| "chain_ders tls leaf (c # cs) =
     (case c of None \<Rightarrow> chain_ders tls leaf cs
      | Some x \<Rightarrow>
          if x509_cmp tls x leaf then chain_ders tls leaf cs
          else (case ios_x509_to_der tls c of None \<Rightarrow> None
                | Some d \<Rightarrow> map_option ((#) d) (chain_ders tls leaf cs)))"

definition ios_evaluate_system_trust :: "('x, 'z) ios_tls_scheme \<Rightarrow> string option \<Rightarrow> failure + unit" where
  "ios_evaluate_system_trust tls hostname =
     (if \<not> ssl_there tls then
        Inl (ERR_TLS_CERT, STAGE_TCP_TLS, ''No SSL session for system trust evaluation'')
      else case peer_cert tls of
        None \<Rightarrow> Inl (ERR_TLS_CERT, STAGE_TCP_TLS, ''Server did not present a certificate'')
      | Some leaf \<Rightarrow>
          if \<not> trust_mem tls then
            Inl (ERR_INTERNAL, STAGE_TCP_TLS, ''Out of memory building certificate chain'')
          else case ios_x509_to_der tls (Some leaf) of
            None \<Rightarrow> Inl (ERR_TLS_CERT, STAGE_TCP_TLS, ''Could not encode peer certificate'')
          | Some d \<Rightarrow>
              (case chain_ders tls leaf (case peer_chain tls of None \<Rightarrow> [] | Some cs \<Rightarrow> cs) of
                 None \<Rightarrow> Inl (ERR_TLS_CERT, STAGE_TCP_TLS, ''Could not encode intermediate certificate'')
               | Some ds \<Rightarrow>
                   (let (trusted, errmsg) = sec_trust tls (d # ds) hostname in
                    if \<not> trusted then
                      Inl (ERR_TLS_CERT, STAGE_TCP_TLS,
                        if errmsg \<noteq> [] then errmsg else ''iOS system trust rejected server certificate'')
                    else Inr ())))"

section \<open>The OpenSSL context\<close>

text \<open>\<open>pem_certs\<close>: for every certificate in the text, whether the store takes it.\<close>

record ssl_env =
  ctx_new :: bool
  bio_mem :: bool
  cert_store :: bool
  pem_certs :: "string \<Rightarrow> bool list"
  default_paths :: bool
  ca_bundle_var :: "string option"
  load_locations :: "string \<Rightarrow> bool"
  debug_build :: bool

datatype ssl_verify = Verify_none | Verify_peer | Verify_peer_or_fail

definition ios_load_custom_ca :: "('z) ssl_env_scheme \<Rightarrow> string option \<Rightarrow> int" where
  "ios_load_custom_ca env pem =
     (case pem of None \<Rightarrow> -1
      | Some p \<Rightarrow>
          if p = [] then -1
          else if \<not> bio_mem env then -1
          else if \<not> cert_store env then -1
          else if length (filter id (pem_certs env p)) > 0 then 0 else -1)"

definition ios_load_bundled_or_default_ca :: "('z) ssl_env_scheme \<Rightarrow> int" where
  "ios_load_bundled_or_default_ca env =
     (if default_paths env then 0
      else if (case ca_bundle_var env of None \<Rightarrow> False | Some home \<Rightarrow> home \<noteq> [] \<and> load_locations env home) then 0
      else if load_locations env ''cacert.pem'' then 0
      else if load_locations env ''/etc/ssl/cert.pem'' then 0
      else if load_locations env ''/etc/ssl/certs/ca-certificates.crt'' then 0
      else -1)"

text \<open>The status, and the verify mode set (with the verify callback, but for \<open>Verify_none\<close>).\<close>

definition ios_init_ssl ::
    "('z) ssl_env_scheme \<Rightarrow> tls_mode \<Rightarrow> string option \<Rightarrow> string \<Rightarrow> status_t \<times> ssl_verify option" where
  "ios_init_ssl env md ca_pem pin =
     (if \<not> ctx_new env then (SSTP_FAIL, None)
      else if \<not> debug_build env \<and> md = SSTP_IOS_TLS_INSECURE_DEBUG then (SSTP_FAIL, None)
      else if md = SSTP_IOS_TLS_INSECURE_DEBUG then (SSTP_OKAY, Some Verify_none)
      else if md = SSTP_IOS_TLS_CUSTOM_CA then
        (if ios_load_custom_ca env ca_pem \<noteq> 0 then (SSTP_FAIL, Some Verify_peer)
         else (SSTP_OKAY, Some Verify_peer))
      else if md = SSTP_IOS_TLS_PINNED then
        (if pin = [] then (SSTP_FAIL, Some Verify_peer) else (SSTP_OKAY, Some Verify_peer))
      else (SSTP_OKAY, Some Verify_peer_or_fail))"

section \<open>After the handshake\<close>

text \<open>
  The check of \<open>ios_http_done\<close> before the control protocol starts. The hash array has 32 bytes;
  \<open>None\<close> is its overflow.
\<close>

definition post_http_verify ::
    "('x, 'z) tls_peer_scheme \<Rightarrow> tls_mode \<Rightarrow> string \<Rightarrow> string option \<Rightarrow> (failure + unit) option" where
  "post_http_verify tls md pin host =
     (if md = SSTP_IOS_TLS_SYSTEM then Some (Inr ())
      else if md \<noteq> SSTP_IOS_TLS_INSECURE_DEBUG then
        (if sstp_verify_cert tls host (SSTP_VERIFY_CERT OR SSTP_VERIFY_NAME) \<noteq> SSTP_OKAY then
           Some (Inl (ERR_TLS_CERT, STAGE_TCP_TLS, ''Server certificate verification failed (chain or hostname)''))
         else if md = SSTP_IOS_TLS_PINNED \<and> pin \<noteq> [] then do {
           (st, hash) \<leftarrow> sstp_get_cert_hash tls (uint SSTP_PROTO_HASH_SHA256) 32;
           Some (if st \<noteq> SSTP_OKAY then
                   Inl (ERR_TLS_CERT, STAGE_TCP_TLS, ''Could not hash server certificate for pin check'')
                 else if \<not> strcasecmp_eq (ascii (hex_of hash)) (ascii pin) then
                   Inl (ERR_TLS_CERT, STAGE_TCP_TLS, ''Server certificate pin mismatch'')
                 else Inr ()) }
         else Some (Inr ()))
      else Some (Inr ()))"

text \<open>What \<open>ios_connected\<close> reports for a handshake that failed; \<open>err\<close> is the text of the code.\<close>

definition handshake_failure ::
    "('x, 'z) ios_tls_scheme \<Rightarrow> (int \<Rightarrow> string) \<Rightarrow> tls_mode \<Rightarrow> failure" where
  "handshake_failure tls err md =
     (let vr = (case sstp_stream_verify_result tls (ssl_there tls) of None \<Rightarrow> 69 | Some v \<Rightarrow> v) in
      if md = SSTP_IOS_TLS_SYSTEM then
        (ERR_TLS_HANDSHAKE, STAGE_TCP_TLS, ''Could not complete TLS handshake with SSTP server'')
      else if vr \<noteq> 0 \<and> vr \<noteq> 69 then
        (ERR_TLS_CERT, STAGE_TCP_TLS, take 191 (''Server certificate verification failed: '' @ err vr))
      else (ERR_TLS_HANDSHAKE, STAGE_TCP_TLS, ''Could not complete TLS handshake with SSTP server''))"

end
