(* ===== verification/Ios.thy ===== *)
theory Ios
  imports State Ppp IosTls Url
begin

text \<open>
  The session of the iOS client, \<^verbatim>\<open>sstp/sstp-ios.c\<close>: the callbacks that tie stream, HTTP
  upgrade, state machine and PPP together, the injection of IP packets from another thread,
  and the public operations.

  The whole client is one state: the record of the state machine (theory \<open>State\<close>) extended by
  the session and by the place where \<^verbatim>\<open>longjmp\<close> leaves what it saw. \<open>sstp_ios_fail_ex\<close>
  does not return while the event loop runs: the model keeps a snapshot of the state at that
  point, what the code above it on the stack would still have done does not count, and the event
  ends with the snapshot (\<open>land\<close>). Callbacks made by the PPP operations run after the operation,
  in the order in which it made them; but for \<open>SSTP_PPP_START\<close>, whose callback only arms the
  reader, and for \<open>SSTP_PPP_UP\<close> out of the fallback of \<open>handle_ipcp\<close>, a call is the last thing the
  operation does.

  The control messages, the hello and their results are recorded in \<open>s_sent\<close>, the calls of the
  application in \<open>s_calls\<close>. The answers of the outside (memory, time, the stream, OpenSSL) are the
  record \<open>ios_env\<close>; the number of a send selects its answer. \<open>None\<close> is a memory error.
\<close>

section \<open>Data\<close>

datatype ios_call =
    OnStage string
  | OnFail string string string
  | OnReady u32 u32 u32 u32
  | OnPacket bytes

record 'k session =
  s_on_ready :: bool
  s_on_packet :: bool
  s_on_stage :: bool
  s_on_fail :: bool
  s_failed :: bool
  s_ready :: bool
  s_stage :: string
  s_fail_code :: string
  s_fail_msg :: string
  s_escape :: bool            \<comment> \<open>\<open>escape_set\<close>\<close>
  s_looping :: bool           \<comment> \<open>the event loop runs\<close>
  s_tls_mode :: tls_mode
  s_ca_pem :: "string option"
  s_pin :: string
  s_server :: "string option" \<comment> \<open>\<open>client.option\<close>\<close>
  s_host :: "string option"
  s_user :: bytes
  s_password :: bytes
  s_peer_name :: bytes        \<comment> \<open>\<open>client.host.name\<close>\<close>
  s_http :: "http option"
  s_state :: bool             \<comment> \<open>\<open>client.state\<close> is not null\<close>
  s_pppd :: "'k sstp_pppd option"
  s_ssl :: "ssl_verify option" \<comment> \<open>\<open>client.ssl_ctx\<close>: its verify mode\<close>
  s_ev_base :: bool
  s_inject :: "bytes option"  \<comment> \<open>unread bytes of the inject socket pair\<close>
  s_stop :: "nat option"      \<comment> \<open>unread bytes of the stop socket pair\<close>
  s_reading :: bool           \<comment> \<open>the state machine's reader is armed\<close>
  s_sent :: "(bytes \<times> status_t) list"
  s_calls :: "ios_call list"

record 'k ios = sstp_state +
  sess :: "'k session"
  jump :: "(sstp_state \<times> 'k session) option"

record ('k, 'x) ios_env =
  ppp :: "'k ppp_env"
  tls :: "'x ios_tls"
  send_ret :: "nat \<Rightarrow> status_t"
  pppd_mem :: bool
  pppd_random :: u32
  pppd_keys :: "'k \<times> 'k"
  clock :: nat
  state_mem :: bool
  state_buf :: bool
  http_mem :: bool
  http_buf :: bool
  http_guid :: "bytes option"
  verify_text :: "int \<Rightarrow> string"

section \<open>Stages and failures\<close>

definition snprintf_s :: "nat \<Rightarrow> string \<Rightarrow> string" where
  "snprintf_s n s = take (n - 1) s"

definition sstp_ios_set_stage :: "string \<Rightarrow> 'k session \<Rightarrow> 'k session" where
  "sstp_ios_set_stage stage c =
     (let c = c\<lparr>s_stage := snprintf_s 64 stage\<rparr> in
      if s_on_stage c then c\<lparr>s_calls := s_calls c @ [OnStage (s_stage c)]\<rparr> else c)"

text \<open>Up to the \<^verbatim>\<open>longjmp\<close>.\<close>

definition sstp_ios_fail_ex :: "string option \<Rightarrow> string option \<Rightarrow> string option \<Rightarrow> 'k session \<Rightarrow> 'k session" where
  "sstp_ios_fail_ex code stage message c =
     (let c = c\<lparr>s_failed := True,
            s_fail_code := snprintf_s 64 (case code of None \<Rightarrow> ERR_INTERNAL
              | Some s \<Rightarrow> if s \<noteq> [] then s else ERR_INTERNAL)\<rparr>;
          c = (case stage of
                 None \<Rightarrow> (if s_stage c = [] then c\<lparr>s_stage := snprintf_s 64 STAGE_ERROR\<rparr> else c)
               | Some s \<Rightarrow> (if s \<noteq> [] then c\<lparr>s_stage := snprintf_s 64 s\<rparr>
                            else if s_stage c = [] then c\<lparr>s_stage := snprintf_s 64 STAGE_ERROR\<rparr> else c));
          c = c\<lparr>s_fail_msg := snprintf_s 256 (case message of None \<Rightarrow> ''SSTP failure'' | Some m \<Rightarrow> m)\<rparr>;
          c = (if s_on_fail c
               then c\<lparr>s_calls := s_calls c @ [OnFail (s_fail_code c) (s_stage c) (s_fail_msg c)]\<rparr> else c)
      in if s_ev_base c then c\<lparr>s_looping := False\<rparr> else c)"

definition sstp_ios_fail :: "string option \<Rightarrow> 'k session \<Rightarrow> 'k session" where
  "sstp_ios_fail message c = sstp_ios_fail_ex (Some ERR_INTERNAL) (Some (s_stage c)) message c"

text \<open>On the whole state: nothing happens any more once \<^verbatim>\<open>longjmp\<close> was called.\<close>

definition on_sess :: "('k session \<Rightarrow> 'k session) \<Rightarrow> 'k ios \<Rightarrow> 'k ios" where
  "on_sess f s = (if jump s \<noteq> None then s else s\<lparr>sess := f (sess s)\<rparr>)"

definition ios_fail :: "failure \<Rightarrow> 'k ios \<Rightarrow> 'k ios" where
  "ios_fail e s =
     (if jump s \<noteq> None then s
      else
        let s = s\<lparr>sess := sstp_ios_fail_ex (Some (fst e)) (Some (fst (snd e))) (Some (snd (snd e))) (sess s)\<rparr>
        in if s_escape (sess s) then s\<lparr>jump := Some (sstp_state.truncate s, sess s)\<rparr> else s)"

text \<open>After \<^verbatim>\<open>setjmp\<close>: the state of the jump, and \<open>escape_set\<close> is cleared.\<close>

definition land :: "'k ios \<Rightarrow> 'k ios" where
  "land s = (case jump s of None \<Rightarrow> s
     | Some (st, c) \<Rightarrow> sstp_state.extend st (ios.fields (c\<lparr>s_escape := False\<rparr>) None))"

section \<open>Calls of the state machine into the stream\<close>

definition ios_send :: "('k, 'x) ios_env \<Rightarrow> bytes \<Rightarrow> 'k ios \<Rightarrow> status_t \<times> 'k ios" where
  "ios_send env m s =
     (let r = send_ret env (length (s_sent (sess s))) in
      (r, on_sess (\<lambda>c. c\<lparr>s_sent := s_sent c @ [(m, r)]\<rparr>) s))"

definition stream_world ::
    "('k, 'x) ios_env \<Rightarrow> (sstp_state_t \<Rightarrow> 'k ios \<Rightarrow> (status_t \<times> 'k ios) option) \<Rightarrow>
     (int option \<Rightarrow> int \<Rightarrow> 'k ios \<Rightarrow> (status_t \<times> 'k ios) option) \<Rightarrow> 'k ios world" where
  "stream_world env cb fwd =
     \<lparr>call_state = cb, call_forward = fwd,
      send_buf = (\<lambda>s. Some (ios_send env (content (tx_buf s)) s)),
      req_recv = (\<lambda>s. Some (on_sess (\<lambda>c. c\<lparr>s_reading := True\<rparr>) s)),
      cert_hash = (\<lambda>p s. case sstp_get_cert_hash (tls env) p 32 of None \<Rightarrow> (SSTP_FAIL, replicate 32 0)
                         | Some r \<Rightarrow> r),
      cmac_mem = (\<lambda>s. True)\<rparr>"

section \<open>PPP events\<close>

definition ios_ip_handler :: "bytes \<Rightarrow> 'k session \<Rightarrow> 'k session" where
  "ios_ip_handler ip c =
     (if s_on_packet c \<and> length ip > 0 then c\<lparr>s_calls := s_calls c @ [OnPacket ip]\<rparr> else c)"

definition ios_pppd_cb ::
    "('k, 'x) ios_env \<Rightarrow> 'k ios world \<Rightarrow> ppp_event \<Rightarrow> 'k ios \<Rightarrow> 'k ios option" where
  "ios_pppd_cb env w ev s =
     (if jump s \<noteq> None then Some s
      else case ev of
        SSTP_PPP_START \<Rightarrow> sstp_state_resume_recv w (on_sess (sstp_ios_set_stage STAGE_PPP_LCP) s)
      | SSTP_PPP_DOWN \<Rightarrow> Some (ios_fail (ERR_NETWORK_LOST, STAGE_PPP_LCP, ''PPP connection terminated'') s)
      | SSTP_PPP_AUTH_FAIL \<Rightarrow>
          Some (ios_fail (ERR_AUTH_REJECTED, STAGE_PPP_AUTH, ''Authentication rejected by server'') s)
      | SSTP_PPP_UP \<Rightarrow> do {
          (ret, s) \<leftarrow> sstp_state_accept (crypto (ppp env)) w (on_sess (sstp_ios_set_stage STAGE_PPP_IPCP) s);
          if jump s \<noteq> None then Some s
          else if ret = SSTP_FAIL then
            Some (ios_fail (ERR_CRYPTO_BINDING, STAGE_SSTP_CONTROL, ''SSTP crypto binding failed'') s)
          else do {
            p \<leftarrow> s_pppd (sess s);
            let (l, g, d1, d2) = sstp_pppd_get_ipv4 p;
            let s = on_sess (\<lambda>c. sstp_ios_set_stage STAGE_APPLYING_SETTINGS (c\<lparr>s_ready := True\<rparr>)) s;
            Some (on_sess (\<lambda>c. if s_on_ready c then c\<lparr>s_calls := s_calls c @ [OnReady l g d1 d2]\<rparr> else c) s) } }
      | SSTP_PPP_AUTH \<Rightarrow> do {
          let s = on_sess (sstp_ios_set_stage STAGE_PPP_AUTH) s;
          p \<leftarrow> s_pppd (sess s);
          case sstp_chap_mppe_get (crypto (ppp env)) (chap p) (s_password (sess s)) False of
            (ret, Some skey, Some rkey) \<Rightarrow>
              if ret \<noteq> 0 then
                Some (ios_fail (ERR_MPPE_FAILED, STAGE_PPP_MPPE, ''Could not derive MPPE keys'') s)
              else do {
                let s = on_sess (sstp_ios_set_stage STAGE_PPP_MPPE) s;
                (r, s) \<leftarrow> sstp_state_mppe_keys skey rkey 16 s;
                Some (on_sess (\<lambda>c. c\<lparr>s_pppd := Some (sstp_pppd_set_mppe_keys skey rkey p)\<rparr>) s) }
          | _ \<Rightarrow> Some (ios_fail (ERR_MPPE_FAILED, STAGE_PPP_MPPE, ''Could not derive MPPE keys'') s) })"

text \<open>The calls an operation of the context has made, in order.\<close>

primrec ios_calls ::
    "('k, 'x) ios_env \<Rightarrow> 'k ios world \<Rightarrow> ppp_action list \<Rightarrow> 'k ios \<Rightarrow> 'k ios option" where
  "ios_calls env w [] s = Some s"
| "ios_calls env w (a # as) s = do {
     s \<leftarrow> (case a of
             StreamSend p \<Rightarrow> Some s
           | DeliverIp p \<Rightarrow> Some (on_sess (ios_ip_handler p) s)
           | Notify ev \<Rightarrow> ios_pppd_cb env w ev s);
     ios_calls env w as s }"

definition with_pppd ::
    "('k, 'x) ios_env \<Rightarrow> 'k ios world \<Rightarrow> ('k sstp_pppd \<Rightarrow> (status_t \<times> 'k sstp_pppd) option) \<Rightarrow> 'k ios \<Rightarrow>
     (status_t \<times> 'k ios) option" where
  "with_pppd env w f s = do {
     p \<leftarrow> s_pppd (sess s);
     (r, p') \<leftarrow> f p;
     s \<leftarrow> ios_calls env w (drop (length (trace p)) (trace p')) (s\<lparr>sess := (sess s)\<lparr>s_pppd := Some p'\<rparr>\<rparr>);
     Some (r, s) }"

section \<open>Events of the state machine\<close>

definition ios_state_cb ::
    "('k, 'x) ios_env \<Rightarrow> 'k ios world \<Rightarrow> sstp_state_t \<Rightarrow> 'k ios \<Rightarrow> (status_t \<times> 'k ios) option" where
  "ios_state_cb env w ev s =
     (if jump s \<noteq> None then Some (SSTP_OKAY, s)
      else case ev of
        SSTP_CALL_CONNECT \<Rightarrow>
          (let s = on_sess (sstp_ios_set_stage STAGE_PPP_LCP) s;
               (ret, p) = sstp_pppd_create (pppd_mem env) True True (pppd_random env)
                            (fst (pppd_keys env)) (snd (pppd_keys env))
           in case p of
                None \<Rightarrow> Some (SSTP_FAIL, ios_fail (ERR_INTERNAL, STAGE_PPP_LCP, ''Could not create PPP context'')
                          (s\<lparr>sess := (sess s)\<lparr>s_pppd := None\<rparr>\<rparr>))
              | Some p \<Rightarrow> do {
                  (ret, s) \<leftarrow> with_pppd env w
                    (sstp_pppd_start (ppp env) (clock env) (Some (s_user (sess s))) (Some (s_password (sess s))))
                    (s\<lparr>sess := (sess s)\<lparr>s_pppd := Some (sstp_pppd_set_ip_handler True p)\<rparr>\<rparr>);
                  if ret = SSTP_FAIL then
                    Some (SSTP_FAIL, ios_fail (ERR_INTERNAL, STAGE_PPP_LCP, ''Could not start PPP'') s)
                  else Some (ret, sstp_state_set_forward True s) })
      | SSTP_CALL_ESTABLISHED \<Rightarrow> Some (SSTP_OKAY, s)
      | _ \<Rightarrow>
          (let s = on_sess (\<lambda>c. c\<lparr>s_pppd := map_option (snd \<circ> sstp_pppd_stop (clock env)) (s_pppd c)\<rparr>) s
           in Some (SSTP_OKAY, ios_fail (ERR_SSTP_CONTROL, STAGE_SSTP_CONTROL, sstp_state_reason s) s)))"

text \<open>\<open>forward_cb\<close> is \<open>sstp_pppd_send\<close>; the data is in the receive buffer.\<close>

definition ios_forward ::
    "('k, 'x) ios_env \<Rightarrow> 'k ios world \<Rightarrow> int option \<Rightarrow> int \<Rightarrow> 'k ios \<Rightarrow> (status_t \<times> 'k ios) option" where
  "ios_forward env w off n s =
     (if jump s \<noteq> None then Some (SSTP_OKAY, s)
      else case off of
        None \<Rightarrow> Some (SSTP_FAIL, s)
      | Some i \<Rightarrow> do {
          data \<leftarrow> rd_n (b_data (rx_buf s)) i n;
          with_pppd env w (sstp_pppd_send (ppp env) data) s })"

text \<open>
  The world of the state machine. Calls nest: a data packet may make PPP report that the link is
  up, this makes the machine send its Connected message, and that reports a failure. Two levels
  are all there is; at level 0 the machine must not call its client.
\<close>

primrec ios_world :: "('k, 'x) ios_env \<Rightarrow> nat \<Rightarrow> 'k ios world" where
  "ios_world env 0 = stream_world env (\<lambda>_ _. None) (\<lambda>_ _ _. None)"
| "ios_world env (Suc n) =
     stream_world env (ios_state_cb env (ios_world env n)) (ios_forward env (ios_world env n))"

section \<open>Connection and HTTP upgrade\<close>

definition verify_host :: "'k session \<Rightarrow> string option" where
  "verify_host c = (case s_host c of Some h \<Rightarrow> Some h | None \<Rightarrow> s_server c)"

text \<open>
  The memory of the two buffers of \<open>sstp_state_create\<close> is found or not found together. An object that
  is not whole is used all the same: \<open>sstp_state_start\<close> follows the null pointer.
\<close>

definition ios_http_done ::
    "('k, 'x) ios_env \<Rightarrow> 'k ios world \<Rightarrow> status_t \<Rightarrow> 'k ios \<Rightarrow> 'k ios option" where
  "ios_http_done env w status s =
     (if status \<noteq> SSTP_OKAY then
        Some (ios_fail (ERR_HTTP_UPGRADE, STAGE_HTTP_UPGRADE,
          if status = SSTP_TIMEOUT then ''HTTP SSTP upgrade timed out''
          else ''HTTP handshake with SSTP server failed'') s)
      else do {
        let s = s\<lparr>sess := (sess s)\<lparr>s_http := None\<rparr>\<rparr>;
        let c = sess s;
        v \<leftarrow> post_http_verify (tls env) (s_tls_mode c) (s_pin c)
               (verify_host c);
        case v of
          Inl e \<Rightarrow> Some (ios_fail e s)
        | Inr _ \<Rightarrow> do {
            let s = on_sess (sstp_ios_set_stage STAGE_SSTP_CONTROL) s;
            case sstp_state_create (state_mem env) (state_buf env) (state_buf env) SSTP_MODE_CLIENT of
              (ret, st) \<Rightarrow>
                if ret \<noteq> SSTP_OKAY then
                  Some (ios_fail (ERR_SSTP_CONTROL, STAGE_SSTP_CONTROL, ''Could not create SSTP state machine'') s)
                else do {
                  st \<leftarrow> (case st of Whole st \<Rightarrow> Some st | _ \<Rightarrow> None);
                  (ret, s) \<leftarrow> sstp_state_start w
                    (sstp_state.extend st (ios.fields ((sess s)\<lparr>s_state := True, s_reading := True\<rparr>) (jump s)));
                  Some (if ret = SSTP_FAIL then
                          ios_fail (ERR_SSTP_CONTROL, STAGE_SSTP_CONTROL, ''Could not start SSTP state machine'') s
                        else s) } } })"

text \<open>The actions of the HTTP context; the answer to its send has been given already.\<close>

primrec http_acts ::
    "('k, 'x) ios_env \<Rightarrow> 'k ios world \<Rightarrow> status_t \<Rightarrow> http_act list \<Rightarrow> 'k ios \<Rightarrow> 'k ios option" where
  "http_acts env w r [] s = Some s"
| "http_acts env w r (a # as) s = do {
     s \<leftarrow> (case a of
             Send_tls m \<Rightarrow> Some (on_sess (\<lambda>c. c\<lparr>s_sent := s_sent c @ [(m, r)]\<rparr>) s)
           | Http_done st \<Rightarrow> ios_http_done env w st s
           | _ \<Rightarrow> Some s);
     http_acts env w r as s }"

definition ios_connected ::
    "('k, 'x) ios_env \<Rightarrow> 'k ios world \<Rightarrow> status_t \<Rightarrow> 'k ios \<Rightarrow> 'k ios option" where
  "ios_connected env w status s =
     (if status = SSTP_TIMEOUT then
        Some (ios_fail (ERR_TCP_TIMEOUT, STAGE_TCP_TLS, ''TCP/TLS connect timed out'') s)
      else if status \<noteq> SSTP_CONNECTED then
        Some (ios_fail (handshake_failure (tls env) (verify_text env) (s_tls_mode (sess s))) s)
      else
        case (if s_tls_mode (sess s) = SSTP_IOS_TLS_SYSTEM
              then ios_evaluate_system_trust (tls env) (verify_host (sess s))
              else Inr ()) of
          Inl e \<Rightarrow> Some (ios_fail e s)
        | Inr _ \<Rightarrow>
            (let s = on_sess (sstp_ios_set_stage STAGE_HTTP_UPGRADE) s in
             case sstp_http_create (http_mem env) (http_buf env) (http_guid env) (s_peer_name (sess s)) Http_client of
               (_, None) \<Rightarrow>
                 Some (ios_fail (ERR_HTTP_UPGRADE, STAGE_HTTP_UPGRADE, ''Could not create HTTP context'') s)
             | (_, Some h) \<Rightarrow> do {
                 let r = send_ret env (length (s_sent (sess s)));
                 (ret, acts, h) \<leftarrow> sstp_http_handshake r h;
                 s \<leftarrow> http_acts env w r acts (s\<lparr>sess := (sess s)\<lparr>s_http := Some h\<rparr>\<rparr>);
                 Some (if ret \<noteq> SSTP_OKAY \<and> ret \<noteq> SSTP_INPROG then
                         ios_fail (ERR_HTTP_UPGRADE, STAGE_HTTP_UPGRADE, ''Could not start HTTP handshake'') s
                       else s) }))"

section \<open>Injection of IP packets\<close>

definition inject_len :: "bytes \<Rightarrow> nat" where
  "inject_len hdr = unat (un32 (hdr ! 0) (hdr ! 1) (hdr ! 2) (hdr ! 3))"

text \<open>
  The loop of \<open>ios_inject_cb\<close> over the bytes in the socket: the packets it passes on, and what
  it leaves. A short read is consumed; a length of zero or above 2048 is skipped without the
  bytes it announces.
\<close>

function inject_loop :: "bytes \<Rightarrow> bytes list" where
  "inject_loop q =
     (if length q < 4 then []
      else
        let n = inject_len q; r = drop 4 q in
        if n = 0 \<or> n > 2048 then inject_loop r
        else if length r < n then []
        else take n r # inject_loop (drop n r))"
  by pat_completeness auto
termination by (relation "measure length") (auto simp: Let_def)

declare inject_loop.simps [simp del]

primrec inject_sends ::
    "('k, 'x) ios_env \<Rightarrow> 'k ios world \<Rightarrow> bytes list \<Rightarrow> 'k ios \<Rightarrow> 'k ios option" where
  "inject_sends env w [] s = Some s"
| "inject_sends env w (p # ps) s = do {
     s \<leftarrow> (if s_pppd (sess s) = None then Some s
           else map_option snd (with_pppd env w (sstp_pppd_send_ip (ppp env) p) s));
     inject_sends env w ps s }"

definition ios_inject_cb :: "('k, 'x) ios_env \<Rightarrow> 'k ios world \<Rightarrow> 'k ios \<Rightarrow> 'k ios option" where
  "ios_inject_cb env w s =
     (case s_inject (sess s) of
        None \<Rightarrow> Some s
      | Some q \<Rightarrow> inject_sends env w (inject_loop q) (s\<lparr>sess := (sess s)\<lparr>s_inject := Some []\<rparr>\<rparr>))"

text \<open>\<open>room1\<close> and \<open>room2\<close>: how many bytes the socket takes in the two writes.\<close>

definition sstp_ios_session_write_ip :: "nat \<Rightarrow> nat \<Rightarrow> bytes \<Rightarrow> 'k session \<Rightarrow> int \<times> 'k session" where
  "sstp_ios_session_write_ip room1 room2 pkt c =
     (case s_inject c of
        None \<Rightarrow> (-1, c)
      | Some q \<Rightarrow>
          if length pkt = 0 \<or> length pkt > 2000 then (-1, c)
          else if \<not> s_ready c then (-1, c)
          else
            let hdr = be32 (of_nat (length pkt)); q1 = q @ take room1 hdr in
            if room1 < 4 then (-1, c\<lparr>s_inject := Some q1\<rparr>)
            else if room2 < length pkt then (-1, c\<lparr>s_inject := Some (q1 @ take room2 pkt)\<rparr>)
            else (0, c\<lparr>s_inject := Some (q1 @ pkt)\<rparr>))"

definition ios_stop_cb :: "'k session \<Rightarrow> 'k session" where
  "ios_stop_cb c =
     (let c = c\<lparr>s_stop := map_option (\<lambda>_. 0) (s_stop c)\<rparr> in
      if s_ev_base c then c\<lparr>s_looping := False\<rparr> else c)"

section \<open>Creation and start\<close>

definition sstp_ios_session_create :: "bool \<Rightarrow> bool \<Rightarrow> bool \<Rightarrow> bool \<Rightarrow> bool \<Rightarrow> 'k session option" where
  "sstp_ios_session_create mem on_ready on_packet on_stage on_fail =
     (if \<not> mem then None
      else Some \<lparr>s_on_ready = on_ready, s_on_packet = on_packet, s_on_stage = on_stage, s_on_fail = on_fail,
        s_failed = False, s_ready = False, s_stage = snprintf_s 64 STAGE_IDLE, s_fail_code = [], s_fail_msg = [],
        s_escape = False, s_looping = False, s_tls_mode = SSTP_IOS_TLS_SYSTEM, s_ca_pem = None, s_pin = [],
        s_server = None, s_host = None, s_user = [], s_password = [], s_peer_name = [], s_http = None,
        s_state = False, s_pppd = None, s_ssl = None, s_ev_base = False, s_inject = None, s_stop = None,
        s_reading = False, s_sent = [], s_calls = []\<rparr>)"

record ios_params =
  p_server :: "string option"
  p_server_host :: "string option"
  p_server_port :: "string option"
  p_username :: "string option"
  p_password :: "string option"
  p_tls_mode :: tls_mode
  p_ca_pem :: "string option"
  p_pin :: "string option"

text \<open>What \<^verbatim>\<open>getaddrinfo\<close> finds: the addresses, each with whether it is an \<^verbatim>\<open>AF_INET\<close> one.\<close>

record start_env =
  e_ca_mem :: bool
  e_inet :: inet
  e_url_mem :: bool
  e_url_calloc :: bool
  e_ev_base :: bool
  e_inject_pair :: bool
  e_stop_pair :: bool
  e_events :: bool
  e_ssl :: ssl_env
  e_getaddrinfo :: "string \<Rightarrow> string \<Rightarrow> (bool \<times> bytes) list option"
  e_stream :: status_t
  e_connect :: status_t

text \<open>A string that is not null and not empty.\<close>

definition given :: "string option \<Rightarrow> bool" where
  "given x = (case x of None \<Rightarrow> False | Some s \<Rightarrow> s \<noteq> [])"

definition text_of :: "bytes \<Rightarrow> string" where
  "text_of b = map (\<lambda>x. char_of (unat x)) b"

definition to_lower :: "char \<Rightarrow> char" where
  "to_lower c = (let n = of_char c in if 65 \<le> n \<and> n \<le> (90 :: nat) then char_of (n + 32) else c)"

text \<open>The status and the peer's name and address.\<close>

definition ios_lookup :: "start_env \<Rightarrow> string \<Rightarrow> string option \<Rightarrow> status_t \<times> (bytes \<times> bytes) option" where
  "ios_lookup e host port =
     (case e_getaddrinfo e host (case port of None \<Rightarrow> ''443'' | Some p \<Rightarrow> p) of
        None \<Rightarrow> (SSTP_FAIL, None)
      | Some l \<Rightarrow> (case find fst l of
          None \<Rightarrow> (SSTP_FAIL, None)
        | Some a \<Rightarrow> (SSTP_OKAY, Some (take 254 (ascii host), snd a))))"

definition fail_with :: "failure \<Rightarrow> 'k session \<Rightarrow> 'k session" where
  "fail_with e = sstp_ios_fail_ex (Some (fst e)) (Some (fst (snd e))) (Some (snd (snd e)))"

definition ios_urlbuf :: "ios_params \<Rightarrow> string" where
  "ios_urlbuf p = snprintf_s 512
     (if given (p_server_host p) \<and> given (p_server_port p)
      then ''https://'' @ the (p_server_host p) @ '':'' @ the (p_server_port p) @ ''/''
      else if given (p_server_host p) then ''https://'' @ the (p_server_host p) @ ''/''
      else ''https://'' @ the (p_server p) @ ''/'')"

text \<open>Host and port of the URL, or those given if it cannot be parsed.\<close>

definition ios_endpoint :: "start_env \<Rightarrow> ios_params \<Rightarrow> (string \<times> string) option" where
  "ios_endpoint e p =
     (case sstp_url_parse (e_inet e) (e_url_mem e) (ascii (ios_urlbuf p)) of
        (SSTP_OKAY, Some u) \<Rightarrow>
          Some (text_of (u_host u), case u_port u of None \<Rightarrow> ''443'' | Some q \<Rightarrow> text_of q)
      | _ \<Rightarrow>
          if \<not> e_url_calloc e then None
          else Some (if given (p_server_host p) then the (p_server_host p) else the (p_server p),
                     if given (p_server_port p) then the (p_server_port p) else ''443''))"

text \<open>The session as the start leaves it before the endpoint is known.\<close>

definition start_reset :: "ios_params \<Rightarrow> 'k session \<Rightarrow> 'k session" where
  "start_reset p c =
     c\<lparr>s_failed := False, s_ready := False, s_fail_code := [], s_fail_msg := [], s_tls_mode := p_tls_mode p,
       s_ca_pem := (if given (p_ca_pem p) then p_ca_pem p else None),
       s_pin := (if given (p_pin p) then map to_lower (snprintf_s 65 (the (p_pin p))) else []),
       s_server := Some (if given (p_server_host p) then the (p_server_host p) else the (p_server p)),
       s_host := None, s_user := ascii (the (p_username p)), s_password := ascii (the (p_password p)),
       s_peer_name := [], s_http := None, s_state := False, s_pppd := None, s_ssl := None, s_ev_base := False\<rparr>"

text \<open>From the event base on; the result and the session.\<close>

definition start_loop :: "start_env \<Rightarrow> string \<Rightarrow> string \<Rightarrow> 'k session \<Rightarrow> int \<times> 'k session" where
  "start_loop e host port c =
     (if \<not> e_ev_base e then (-1, fail_with (ERR_INTERNAL, STAGE_IDLE, ''Could not create event base'') c)
      else let c = c\<lparr>s_ev_base := True\<rparr> in
      if \<not> e_inject_pair e then (-1, fail_with (ERR_INTERNAL, STAGE_IDLE, ''Could not create inject pipe'') c)
      else let c = c\<lparr>s_inject := Some []\<rparr> in
      if \<not> e_stop_pair e then (-1, fail_with (ERR_INTERNAL, STAGE_IDLE, ''Could not create stop pipe'') c)
      else let c = c\<lparr>s_stop := Some 0\<rparr> in
      if \<not> e_events e then (-1, fail_with (ERR_INTERNAL, STAGE_IDLE, ''Could not create inject/stop events'') c)
      else let (r, v) = ios_init_ssl (e_ssl e) (s_tls_mode c) (s_ca_pem c) (s_pin c); c = c\<lparr>s_ssl := v\<rparr> in
      if r \<noteq> SSTP_OKAY then (-1, fail_with (ERR_TLS_HANDSHAKE, STAGE_TCP_TLS, ''Could not initialize SSL'') c)
      else let c = sstp_ios_set_stage STAGE_RESOLVING c in
      case ios_lookup e host (Some port) of
        (_, None) \<Rightarrow> (-1, fail_with (ERR_DNS_RESOLVE, STAGE_RESOLVING, ''Could not resolve SSTP server'') c)
      | (_, Some (name, addr)) \<Rightarrow>
          let c = sstp_ios_set_stage STAGE_TCP_TLS (c\<lparr>s_peer_name := name\<rparr>) in
          if e_stream e \<noteq> SSTP_OKAY then
            (-1, fail_with (ERR_TLS_HANDSHAKE, STAGE_TCP_TLS, ''Could not create SSL stream'') c)
          else if e_connect e \<noteq> SSTP_OKAY \<and> e_connect e \<noteq> SSTP_INPROG then
            (-1, fail_with (ERR_TCP_TIMEOUT, STAGE_TCP_TLS, ''Could not start TCP/TLS connect'') c)
          else (0, c))"

definition sstp_ios_session_start_ex :: "start_env \<Rightarrow> ios_params \<Rightarrow> 'k session \<Rightarrow> int \<times> 'k session" where
  "sstp_ios_session_start_ex e p c =
     (if p_server p = None \<or> p_username p = None \<or> p_password p = None then (-1, c)
      else let c = start_reset p c in
      if given (p_ca_pem p) \<and> \<not> e_ca_mem e then (-1, c\<lparr>s_ca_pem := None, s_pin := [], s_server := None, s_user := [], s_password := []\<rparr>)
      else case ios_endpoint e p of
        None \<Rightarrow> (-1, c)
      | Some (host, port) \<Rightarrow> start_loop e host port (c\<lparr>s_host := Some host\<rparr>))"

definition sstp_ios_session_start ::
    "start_env \<Rightarrow> string option \<Rightarrow> string option \<Rightarrow> string option \<Rightarrow> 'k session \<Rightarrow> int \<times> 'k session" where
  "sstp_ios_session_start e server user pass =
     sstp_ios_session_start_ex e
       \<lparr>p_server = server, p_server_host = None, p_server_port = None, p_username = user,
        p_password = pass, p_tls_mode = SSTP_IOS_TLS_SYSTEM, p_ca_pem = None, p_pin = None\<rparr>"

section \<open>The other operations\<close>

definition sstp_ios_session_stop :: "nat \<Rightarrow> 'k session \<Rightarrow> 'k session" where
  "sstp_ios_session_stop now c =
     (let c = c\<lparr>s_stage := snprintf_s 64 STAGE_DISCONNECTING,
              s_pppd := map_option (snd \<circ> sstp_pppd_stop now) (s_pppd c)\<rparr> in
      case s_stop c of
        Some n \<Rightarrow> c\<lparr>s_stop := Some (n + 1)\<rparr>
      | None \<Rightarrow> if s_ev_base c then c\<lparr>s_looping := False\<rparr> else c)"

definition sstp_ios_session_stage :: "'k session option \<Rightarrow> string" where
  "sstp_ios_session_stage c = (case c of None \<Rightarrow> STAGE_IDLE | Some c \<Rightarrow> s_stage c)"

definition sstp_ios_session_last_error_code :: "'k session option \<Rightarrow> string option" where
  "sstp_ios_session_last_error_code c =
     (case c of None \<Rightarrow> None | Some c \<Rightarrow> if s_fail_code c = [] then None else Some (s_fail_code c))"

definition sstp_ios_session_last_error_message :: "'k session option \<Rightarrow> string option" where
  "sstp_ios_session_last_error_message c =
     (case c of None \<Rightarrow> None | Some c \<Rightarrow> if s_fail_msg c = [] then None else Some (s_fail_msg c))"

definition sstp_ios_session_is_ready :: "'k session option \<Rightarrow> int" where
  "sstp_ios_session_is_ready c = (case c of None \<Rightarrow> 0 | Some c \<Rightarrow> if s_ready c then 1 else 0)"

section \<open>The event loop\<close>

text \<open>
  Everything that happens to a session while \<open>sstp_ios_session_run\<close> is in the loop: the events
  of the stream, of the two socket pairs, and the calls from other threads (each taken as
  atomic).
\<close>

datatype ios_event =
    Ev_connected status_t             \<comment> \<open>completion of \<open>sstp_stream_connect\<close>\<close>
  | Ev_http_sent status_t             \<comment> \<open>completion of the hello\<close>
  | Ev_http_recv bool sstp_buff status_t
  | Ev_state_sent status_t            \<comment> \<open>completion of a control message\<close>
  | Ev_state_recv sstp_buff status_t
  | Ev_ppp_sent                       \<comment> \<open>completion of a PPP packet\<close>
  | Ev_inject
  | Ev_stop
  | Call_write_ip nat nat bytes
  | Call_stop

primrec ios_dispatch :: "('k, 'x) ios_env \<Rightarrow> ios_event \<Rightarrow> 'k ios \<Rightarrow> 'k ios option" where
  "ios_dispatch env (Ev_connected st) s = ios_connected env (ios_world env 2) st s"
| "ios_dispatch env (Ev_http_sent st) s = do {
     h \<leftarrow> s_http (sess s);
     let (acts, h) = sstp_http_send_complete st h;
     http_acts env (ios_world env 2) st acts (s\<lparr>sess := (sess s)\<lparr>s_http := Some h\<rparr>\<rparr>) }"
| "ios_dispatch env (Ev_http_recv er buf st) s = do {
     h \<leftarrow> s_http (sess s);
     acts \<leftarrow> sstp_recv_hello_complete er buf st;
     http_acts env (ios_world env 2) st acts s }"
| "ios_dispatch env (Ev_state_sent st) s =
     (if \<not> s_state (sess s) then None else sstp_state_send_complete (ios_world env 2) st s)"
| "ios_dispatch env (Ev_state_recv buf st) s =
     (if \<not> s_state (sess s) then None
      else sstp_state_recv (ios_world env 2) st (s\<lparr>rx_buf := buf, sess := (sess s)\<lparr>s_reading := False\<rparr>\<rparr>))"
| "ios_dispatch env Ev_ppp_sent s =
     map_option snd (with_pppd env (ios_world env 2) (\<lambda>p. Some (SSTP_OKAY, ppp_send_complete (ppp env) p)) s)"
| "ios_dispatch env Ev_inject s = ios_inject_cb env (ios_world env 2) s"
| "ios_dispatch env Ev_stop s = Some (on_sess ios_stop_cb s)"
| "ios_dispatch env (Call_write_ip room1 room2 pkt) s =
     Some (s\<lparr>sess := snd (sstp_ios_session_write_ip room1 room2 pkt (sess s))\<rparr>)"
| "ios_dispatch env Call_stop s = Some (s\<lparr>sess := sstp_ios_session_stop (clock env) (sess s)\<rparr>)"

text \<open>After a break no event is dispatched any more; after a jump the loop has been left.\<close>

definition ios_step :: "('k, 'x) ios_env \<Rightarrow> ios_event \<Rightarrow> 'k ios \<Rightarrow> 'k ios option" where
  "ios_step env ev s = (if \<not> s_looping (sess s) then Some s else map_option land (ios_dispatch env ev s))"

definition sstp_ios_session_run :: "('k, 'x) ios_env \<Rightarrow> ios_event list \<Rightarrow> 'k ios \<Rightarrow> 'k ios option" where
  "sstp_ios_session_run env evs s =
     (if \<not> s_ev_base (sess s) then Some s
      else do {
        s \<leftarrow> run_steps (ios_step env) evs (s\<lparr>sess := (sess s)\<lparr>s_escape := True, s_looping := True\<rparr>\<rparr>);
        Some (s\<lparr>sess := (sess s)\<lparr>s_escape := False, s_looping := False\<rparr>\<rparr>) })"

end
