(* ===== verification/IosProofs.thy ===== *)
theory IosProofs
  imports Ios StateProofs PppProofs HttpProofs
begin

text \<open>
  The invariant of the iOS session: what holds of the session record, of the state machine in it
  and of the PPP context between two events, whatever the server sends. The session is an
  instance of the two interfaces of the state machine (\<open>state_calls\<close>, \<open>state_world\<close>, in
  StateProofs) at every level of \<open>ios_world\<close>, and every callback keeps the invariant.
\<close>


definition ios_env_ok :: "('k, 'x) ios_env \<Rightarrow> bool" where
  "ios_env_ok env \<longleftrightarrow> env_ok (ppp env) \<and> state_mem env \<and> state_buf env
     \<and> (\<forall>b x h. x509_digest (tls env) b x = Some h \<longrightarrow> length h = (if b then 32 else 20))
     \<and> (\<forall>g. http_guid env = Some g \<longrightarrow> length g < 64)"

definition call_ok :: "ios_call \<Rightarrow> bool" where
  "call_ok a = (case a of
     OnStage st \<Rightarrow> sstp_ios_stage_valid (Some st)
   | OnFail code st msg \<Rightarrow> sstp_ios_error_code_valid (Some code) \<and> sstp_ios_stage_valid (Some st) \<and> length msg < 256
   | _ \<Rightarrow> True)"

definition trusted :: "('k, 'x) ios_env \<Rightarrow> 'k session \<Rightarrow> bool" where
  "trusted env c \<longleftrightarrow>
     (s_tls_mode c = SSTP_IOS_TLS_SYSTEM \<and> (s_http c \<noteq> None \<or> s_state c) \<longrightarrow>
        ios_evaluate_system_trust (tls env) (verify_host c) = Inr ())
     \<and> (s_state c \<longrightarrow> post_http_verify (tls env) (s_tls_mode c) (s_pin c) (verify_host c) = Some (Inr ()))"

definition bound :: "'k session \<Rightarrow> bool" where
  "bound c \<longleftrightarrow> (\<exists>ty n h mac. (with_mac (connected_msg ty n h) mac, SSTP_OKAY) \<in> set (s_sent c))"

definition sess_ok :: "('k, 'x) ios_env \<Rightarrow> 'k session \<Rightarrow> bool" where
  "sess_ok env c \<longleftrightarrow>
     sstp_ios_stage_valid (Some (s_stage c))
     \<and> (if s_failed c then sstp_ios_error_code_valid (Some (s_fail_code c)) else s_fail_code c = [])
     \<and> list_all call_ok (s_calls c)
     \<and> (\<forall>p. s_pppd c = Some p \<longrightarrow> wf_pppd p)
     \<and> trusted env c \<and> (s_ready c \<longrightarrow> bound c)"

definition ios_inv :: "('k, 'x) ios_env \<Rightarrow> bool \<Rightarrow> 'k ios \<Rightarrow> bool" where
  "ios_inv env b s \<longleftrightarrow>
     ios_env_ok env \<and> wf_state s \<and> mode s = SSTP_MODE_CLIENT \<and> sess_ok env (sess s) \<and> s_ev_base (sess s)
     \<and> (case jump s of
          None \<Rightarrow> s_escape (sess s) \<and> \<not> s_failed (sess s) \<and> (forward_set s \<or> b \<longrightarrow> s_pppd (sess s) \<noteq> None)
        | Some (st, c) \<Rightarrow> wf_state st \<and> mode st = SSTP_MODE_CLIENT \<and> sess_ok env c \<and> s_failed c \<and> \<not> s_looping c)"

lemma ios_simps [simp]:
  "sstp_state.more s = ios.fields (sess s) (jump s)"
  by (cases s) (simp add: ios.fields_def sstp_state.defs)

definition keeps :: "('k, 'x) ios_env \<Rightarrow> 'k session \<Rightarrow> 'k session \<Rightarrow> bool" where
  "keeps env c c' \<longleftrightarrow> (sess_ok env c \<longrightarrow> sess_ok env c') \<and> s_escape c' = s_escape c \<and> s_failed c' = s_failed c
     \<and> s_ev_base c' = s_ev_base c \<and> (s_pppd c \<noteq> None \<longrightarrow> s_pppd c' \<noteq> None)"

lemma inv_on_sess: "ios_inv env b s \<Longrightarrow> (jump s = None \<Longrightarrow> keeps env (sess s) (f (sess s))) \<Longrightarrow> ios_inv env b (on_sess f s)"
  by (cases "jump s") (simp_all add: ios_inv_def on_sess_def keeps_def wf_state_def)

lemma jump_on_sess [simp]: "jump (on_sess f s) = jump s"
  by (simp add: on_sess_def)

lemma sess_on_sess: "jump s = None \<Longrightarrow> sess (on_sess f s) = f (sess s)"
  by (simp add: on_sess_def)

lemma base_on_sess [simp]:
  "forward_set (on_sess f s) = forward_set s" "mode (on_sess f s) = mode s" "wf_state (on_sess f s) = wf_state s"
  "rx_buf (on_sess f s) = rx_buf s"
  by (simp_all add: on_sess_def wf_state_def)

lemma valid_stages [simp]:
  "sstp_ios_stage_valid (Some STAGE_IDLE)" "sstp_ios_stage_valid (Some STAGE_RESOLVING)"
  "sstp_ios_stage_valid (Some STAGE_TCP_TLS)" "sstp_ios_stage_valid (Some STAGE_HTTP_UPGRADE)"
  "sstp_ios_stage_valid (Some STAGE_SSTP_CONTROL)" "sstp_ios_stage_valid (Some STAGE_PPP_LCP)"
  "sstp_ios_stage_valid (Some STAGE_PPP_AUTH)" "sstp_ios_stage_valid (Some STAGE_PPP_IPCP)"
  "sstp_ios_stage_valid (Some STAGE_PPP_MPPE)" "sstp_ios_stage_valid (Some STAGE_APPLYING_SETTINGS)"
  "sstp_ios_stage_valid (Some STAGE_DISCONNECTING)" "sstp_ios_stage_valid (Some STAGE_ERROR)"
  by (simp_all add: sstp_ios_stage_valid_def stages_def)

lemma valid_codes [simp]:
  "sstp_ios_error_code_valid (Some ERR_DNS_RESOLVE)" "sstp_ios_error_code_valid (Some ERR_TCP_TIMEOUT)"
  "sstp_ios_error_code_valid (Some ERR_TLS_HANDSHAKE)" "sstp_ios_error_code_valid (Some ERR_TLS_CERT)"
  "sstp_ios_error_code_valid (Some ERR_HTTP_UPGRADE)" "sstp_ios_error_code_valid (Some ERR_SSTP_CONTROL)"
  "sstp_ios_error_code_valid (Some ERR_AUTH_REJECTED)" "sstp_ios_error_code_valid (Some ERR_CRYPTO_BINDING)"
  "sstp_ios_error_code_valid (Some ERR_MPPE_FAILED)" "sstp_ios_error_code_valid (Some ERR_NETWORK_LOST)"
  "sstp_ios_error_code_valid (Some ERR_INTERNAL)"
  by (simp_all add: sstp_ios_error_code_valid_def codes_def)

lemma snprintf_stage: "sstp_ios_stage_valid (Some st) \<Longrightarrow> snprintf_s 64 st = st"
  using stage_length [of st] by (simp add: snprintf_s_def)

lemma snprintf_code: "sstp_ios_error_code_valid (Some st) \<Longrightarrow> snprintf_s 64 st = st \<and> st \<noteq> []"
  using code_length [of st] by (simp add: snprintf_s_def)

lemma sess_okI:
  assumes "sess_ok env c" "sstp_ios_stage_valid (Some (s_stage c'))" "s_failed c' = s_failed c"
    "s_fail_code c' = s_fail_code c" "list_all call_ok (s_calls c')"
    "\<And>p. s_pppd c' = Some p \<Longrightarrow> wf_pppd p \<or> s_pppd c = Some p"
    "s_tls_mode c' = s_tls_mode c" "s_http c' = s_http c"
    "s_state c' = s_state c" "s_pin c' = s_pin c" "s_host c' = s_host c" "s_server c' = s_server c"
    "s_ready c' = s_ready c" "set (s_sent c) \<subseteq> set (s_sent c')"
  shows "sess_ok env c'"
proof -
  have "verify_host c' = verify_host c" using assms(11,12) by (simp add: verify_host_def split: option.split)
  then have "trusted env c' = trusted env c" using assms by (simp add: trusted_def)
  moreover have "bound c \<Longrightarrow> bound c'" using assms(14) unfolding bound_def by blast
  moreover have "\<forall>p. s_pppd c' = Some p \<longrightarrow> wf_pppd p" using assms(1,6) unfolding sess_ok_def by blast
  ultimately show ?thesis using assms(1-5,13) by (simp add: sess_ok_def)
qed

lemma sess_okD:
  "sess_ok env c \<Longrightarrow> sstp_ios_stage_valid (Some (s_stage c)) \<and> list_all call_ok (s_calls c)
    \<and> (\<forall>p. s_pppd c = Some p \<longrightarrow> wf_pppd p) \<and> trusted env c \<and> (s_ready c \<longrightarrow> bound c)"
  unfolding sess_ok_def by blast

lemma keepsI: "(sess_ok env c \<Longrightarrow> sess_ok env c') \<Longrightarrow> s_escape c' = s_escape c \<Longrightarrow> s_failed c' = s_failed c
     \<Longrightarrow> s_ev_base c' = s_ev_base c \<Longrightarrow> (s_pppd c \<noteq> None \<Longrightarrow> s_pppd c' \<noteq> None) \<Longrightarrow> keeps env c c'"
  by (simp add: keeps_def)

lemma set_stage_keeps:
  assumes "sstp_ios_stage_valid (Some st)" shows "keeps env c (sstp_ios_set_stage st c)"
proof (rule keepsI)
  assume "sess_ok env c"
  then show "sess_ok env (sstp_ios_set_stage st c)"
    by (rule sess_okI) (use assms sess_okD [OF \<open>sess_ok env c\<close>] in
      \<open>auto simp: sstp_ios_set_stage_def Let_def snprintf_stage call_ok_def split: if_splits\<close>)
qed (simp_all add: sstp_ios_set_stage_def Let_def)

lemma call_keeps: "call_ok a \<Longrightarrow> keeps env c (if b then c\<lparr>s_calls := s_calls c @ [a]\<rparr> else c)"
  by (rule keepsI, rule sess_okI, assumption) (auto dest: sess_okD split: if_splits)

lemma ip_handler_keeps: "keeps env c (ios_ip_handler ip c)"
  unfolding ios_ip_handler_def by (rule call_keeps) (simp add: call_ok_def)

lemma send_keeps: "keeps env c (c\<lparr>s_sent := s_sent c @ xs\<rparr>)"
  by (rule keepsI, rule sess_okI, assumption) (auto dest: sess_okD)

lemma reading_keeps: "keeps env c (c\<lparr>s_reading := b\<rparr>)"
  by (rule keepsI, rule sess_okI, assumption) (auto dest: sess_okD)

lemma pppd_keeps: "wf_pppd p \<Longrightarrow> keeps env c (c\<lparr>s_pppd := Some p\<rparr>)"
  by (rule keepsI, rule sess_okI, assumption) (auto dest: sess_okD)

text \<open>What a failure leaves.\<close>

lemma fail_ex_valid:
  fixes msg :: string
  assumes "sess_ok env c" "sstp_ios_error_code_valid (Some code)" "sstp_ios_stage_valid (Some st)" "s_ev_base c"
  defines "c' \<equiv> sstp_ios_fail_ex (Some code) (Some st) (Some msg) c"
  shows "sess_ok env c'" "s_failed c'" "\<not> s_looping c'" "s_escape c' = s_escape c" "s_ev_base c'"
    "s_fail_code c' = code" "s_stage c' = st" "s_pppd c' = s_pppd c" "s_ready c' = s_ready c"
proof -
  have st: "st \<noteq> []" using assms(3) by (auto simp: sstp_ios_stage_valid_def stages_def stage_defs)
  have e: "snprintf_s 64 code = code" "code \<noteq> []" "snprintf_s 64 st = st"
    using snprintf_code [OF assms(2)] snprintf_stage [OF assms(3)] by simp_all
  have m: "length (snprintf_s 256 msg) < 256" by (simp add: snprintf_s_def)
  let ?f = "c\<lparr>s_failed := True, s_fail_code := code, s_stage := st, s_fail_msg := snprintf_s 256 msg,
      s_calls := (if s_on_fail c then s_calls c @ [OnFail code st (snprintf_s 256 msg)] else s_calls c),
      s_looping := False\<rparr>"
  have f: "c' = ?f" using assms(4) e st by (simp add: c'_def sstp_ios_fail_ex_def Let_def)
  have "trusted env ?f = trusted env c" "bound ?f = bound c"
    by (simp_all add: trusted_def bound_def verify_host_def cong: option.case_cong)
  then have "sess_ok env ?f"
    using assms(1-3) m by (simp add: sess_ok_def call_ok_def)
  then show "sess_ok env c'" using f by simp
  show "s_failed c'" "\<not> s_looping c'" "s_escape c' = s_escape c" "s_ev_base c'"
    "s_fail_code c' = code" "s_stage c' = st" "s_pppd c' = s_pppd c" "s_ready c' = s_ready c"
    using assms(4) by (simp_all add: f)
qed

lemma wf_truncate [simp]: "wf_state (sstp_state.truncate s) = wf_state s"
  "mode (sstp_state.truncate s) = mode s"
  by (simp_all add: wf_state_def sstp_state.truncate_def)

lemma fail_live:
  assumes "ios_env_ok env" "wf_state s" "mode s = SSTP_MODE_CLIENT" "sess_ok env (sess s)" "s_ev_base (sess s)"
    and "jump s = None" "s_escape (sess s)"
    and v: "sstp_ios_error_code_valid (Some (fst e))" "sstp_ios_stage_valid (Some (fst (snd e)))"
  shows "ios_inv env b (ios_fail e s) \<and> jump (ios_fail e s) \<noteq> None"
proof -
  note f = fail_ex_valid [OF assms(4) v assms(5), of "snd (snd e)"]
  let ?c = "sstp_ios_fail_ex (Some (fst e)) (Some (fst (snd e))) (Some (snd (snd e))) (sess s)"
  let ?s = "s\<lparr>sess := ?c\<rparr>"
  have "ios_fail e s = ?s\<lparr>jump := Some (sstp_state.truncate ?s, ?c)\<rparr>"
    using assms f(4) by (simp add: ios_fail_def Let_def)
  moreover have "wf_state ?s" "wf_state (?s\<lparr>jump := j\<rparr>)" for j
    using assms(2) by (simp_all add: wf_state_def)
  ultimately show ?thesis using assms(1,3) f by (simp add: ios_inv_def)
qed

lemma fail_inv:
  assumes i: "ios_inv env b s" and v: "sstp_ios_error_code_valid (Some (fst e))" "sstp_ios_stage_valid (Some (fst (snd e)))"
  shows "ios_inv env b (ios_fail e s)" "jump (ios_fail e s) \<noteq> None"
proof -
  have "ios_inv env b (ios_fail e s) \<and> jump (ios_fail e s) \<noteq> None"
  proof (cases "jump s = None")
    case True
    then show ?thesis by (intro fail_live v) (use i in \<open>auto simp: ios_inv_def\<close>)
  next
    case False
    then show ?thesis using i by (simp add: ios_fail_def)
  qed
  then show "ios_inv env b (ios_fail e s)" "jump (ios_fail e s) \<noteq> None" by simp_all
qed

lemma more_eq:
  fixes s s' :: "'k ios"
  assumes "sstp_state.more s' = sstp_state.more s"
  shows "sess s' = sess s" "jump s' = jump s"
proof -
  have "sess s' = sess s \<and> jump s' = jump s" using assms by (cases s; cases s') (simp add: ios.fields_def)
  then show "sess s' = sess s" "jump s' = jump s" by simp_all
qed

lemma inv_frame:
  assumes "ios_inv env b s" "wf_state s'" "sstp_state.more s' = sstp_state.more s"
    "forward_set s' = forward_set s" "mode s' = mode s"
  shows "ios_inv env b s'"
  using assms(1,2,4,5) more_eq [OF assms(3)] by (simp add: ios_inv_def cong: option.case_cong)


lemma world_simps [simp]:
  "send_buf (ios_world env n) s = Some (ios_send env (content (tx_buf s)) s)"
  "req_recv (ios_world env n) s = Some (on_sess (\<lambda>c. c\<lparr>s_reading := True\<rparr>) s)"
  "cert_hash (ios_world env n) p s =
     (case sstp_get_cert_hash (tls env) p 32 of None \<Rightarrow> (SSTP_FAIL, replicate 32 0) | Some r \<Rightarrow> r)"
  "cmac_mem (ios_world env n) s = True"
  by (cases n; simp add: stream_world_def)+

lemma world_calls [simp]:
  "call_state (ios_world env (Suc n)) = ios_state_cb env (ios_world env n)"
  "call_forward (ios_world env (Suc n)) = ios_forward env (ios_world env n)"
  by (simp_all add: stream_world_def)

declare ios_world.simps [simp del]

lemma inv_send: "ios_inv env b s \<Longrightarrow> ios_inv env b (snd (ios_send env m s))"
  unfolding ios_send_def Let_def snd_conv by (erule inv_on_sess) (rule send_keeps)

lemma inv_stage: "ios_inv env b s \<Longrightarrow> sstp_ios_stage_valid (Some st) \<Longrightarrow> ios_inv env b (on_sess (sstp_ios_set_stage st) s)"
  by (erule inv_on_sess) (rule set_stage_keeps)

lemma cert_hash_32:
  assumes "ios_inv env b s'"
  shows "length (snd (cert_hash (ios_world env n) p s)) = 32"
  using assms
  by (auto simp: ios_inv_def ios_env_ok_def sstp_get_cert_hash_def wr_n_def split: option.splits)

text \<open>The callbacks of the PPP context.\<close>

lemma pppd_cb_start:
  assumes "ios_inv env b s"
  shows "\<exists>s'. ios_pppd_cb env (ios_world env n) SSTP_PPP_START s = Some s' \<and> ios_inv env b s'"
proof (cases "jump s = None")
  case True
  have "ios_inv env b (on_sess (\<lambda>c. c\<lparr>s_reading := True\<rparr>) (on_sess (sstp_ios_set_stage STAGE_PPP_LCP) s))"
    by (rule inv_on_sess [OF inv_stage [OF assms]]) (simp_all add: reading_keeps)
  then show ?thesis using True by (simp add: ios_pppd_cb_def sstp_state_resume_recv_def)
qed (use assms in \<open>simp add: ios_pppd_cb_def\<close>)

lemma calls_inv:
  assumes "\<And>ev s. Notify ev \<in> set as \<Longrightarrow> ios_inv env b s \<Longrightarrow> \<exists>s'. ios_pppd_cb env w ev s = Some s' \<and> ios_inv env b s'"
    and "ios_inv env b s"
  shows "\<exists>s'. ios_calls env w as s = Some s' \<and> ios_inv env b s'"
  using assms
proof (induction as arbitrary: s)
  case (Cons a as)
  have "\<exists>s1. (case a of StreamSend p \<Rightarrow> Some s | DeliverIp p \<Rightarrow> Some (on_sess (ios_ip_handler p) s)
      | Notify ev \<Rightarrow> ios_pppd_cb env w ev s) = Some s1 \<and> ios_inv env b s1"
    using Cons.prems by (cases a) (auto intro!: inv_on_sess ip_handler_keeps)
  then obtain s1 where s1: "(case a of StreamSend p \<Rightarrow> Some s | DeliverIp p \<Rightarrow> Some (on_sess (ios_ip_handler p) s)
      | Notify ev \<Rightarrow> ios_pppd_cb env w ev s) = Some s1" "ios_inv env b s1" by blast
  have "\<exists>s'. ios_calls env w as s1 = Some s' \<and> ios_inv env b s'"
    using Cons.IH [of s1] Cons.prems(1) s1(2) by simp
  then show ?case using s1(1) by simp
qed simp

lemma inv_pppd:
  assumes i: "ios_inv env b s" and p: "wf_pppd p"
  shows "ios_inv env True (s\<lparr>sess := (sess s)\<lparr>s_pppd := Some p\<rparr>\<rparr>)"
proof -
  have "sess_ok env (sess s)" using i by (simp add: ios_inv_def)
  then have "sess_ok env ((sess s)\<lparr>s_pppd := Some p\<rparr>)" using pppd_keeps [OF p, of env "sess s"] by (simp add: keeps_def)
  moreover have "wf_state (s\<lparr>sess := c\<rparr>) = wf_state s" for c by (simp add: wf_state_def)
  ultimately show ?thesis using i by (cases "jump s") (simp_all add: ios_inv_def)
qed

lemma with_pppd_inv:
  assumes i: "ios_inv env b s" and p: "s_pppd (sess s) = Some p"
    and f: "f p = Some (r, p')" "wf_pppd p'"
    and cb: "\<And>ev s. Notify ev \<in> set (drop (length (trace p)) (trace p')) \<Longrightarrow> ios_inv env True s
      \<Longrightarrow> \<exists>s'. ios_pppd_cb env w ev s = Some s' \<and> ios_inv env True s'"
  shows "\<exists>s'. with_pppd env w f s = Some (r, s') \<and> ios_inv env True s'"
proof -
  let ?s = "s\<lparr>sess := (sess s)\<lparr>s_pppd := Some p'\<rparr>\<rparr>"
  have "ios_inv env True ?s" by (rule inv_pppd [OF i f(2)])
  then obtain s' where "ios_calls env w (drop (length (trace p)) (trace p')) ?s = Some s'" "ios_inv env True s'"
    using calls_inv [OF cb] by blast
  then show ?thesis using p f(1) by (simp add: with_pppd_def)
qed

lemma inv_weaken: "ios_inv env b s \<Longrightarrow> ios_inv env False s"
  by (auto simp: ios_inv_def split: option.splits)

lemma inv_True: "ios_inv env True s \<Longrightarrow> ios_inv env b s"
  by (auto simp: ios_inv_def split: option.splits)

lemma notify_iff: "Notify ev \<in> set tr \<longleftrightarrow> ev \<in> set (signals tr)"
  by (induction tr) (auto simp: signals_def split: ppp_action.splits)

text \<open>The callback of the state machine.\<close>

lemma start_signals:
  assumes "sstp_pppd_create m True True r k1 k2 = (st, Some p)"
  shows "\<exists>p'. sstp_pppd_start env now u w (sstp_pppd_set_ip_handler True p) = Some (SSTP_OKAY, p') \<and> wf_pppd p'
    \<and> (\<forall>ev. Notify ev \<in> set (drop (length (trace (sstp_pppd_set_ip_handler True p))) (trace p')) \<longrightarrow> ev = SSTP_PPP_START)"
proof -
  have c: "st = SSTP_OKAY" "m = True" using assms by (auto simp: sstp_pppd_create_def split: if_splits)
  define q where "q = sstp_pppd_set_ip_handler True p"
  have q: "wf_pppd q" "trace q = []" "notify_set q"
    using wf_create [of True True r k1 k2 p] assms c
    by (auto simp: q_def sstp_pppd_set_ip_handler_def wf_pppd_def tx_ok_def sstp_pppd_create_def)
  define d where "d = notify SSTP_PPP_START (q\<lparr>username := (case u of None \<Rightarrow> username q | Some x \<Rightarrow> take 255 x),
      password := (case w of None \<Rightarrow> password q | Some x \<Rightarrow> take 255 x), t_start := now, started := True\<rparr>)"
  have d: "trace d = [Notify SSTP_PPP_START]" using q by (simp add: d_def notify_def)
  have wfd: "wf_pppd d" using q by (simp add: d_def notify_def wf_pppd_def tx_ok_def act_def sends_def signals_def)
  obtain p' where p': "send_lcp_confreq env d = Some p'" "quiet (d\<lparr>lcp_id := lcp_id d + 1\<rparr>) p'"
    using send_frame_spec by (fastforce simp: send_lcp_confreq_def Let_def)
  have "wf_pppd (d\<lparr>lcp_id := lcp_id d + 1\<rparr>)" using wfd by (simp add: wf_pppd_def tx_ok_def)
  then have "wf_pppd p'" using wf_quiet [OF p'(2)] by blast
  moreover have "signals (trace p') = [SSTP_PPP_START]" using p'(2) d by (simp add: quiet_def signals_def)
  moreover have "sstp_pppd_start env now u w q = Some (SSTP_OKAY, p')"
    using p'(1) by (simp add: sstp_pppd_start_def Let_def d_def split: option.splits)
  ultimately show ?thesis using q(2) unfolding q_def [symmetric] by (simp add: notify_iff)
qed


lemma keep_bases: "wf_state (s\<lparr>sess := c\<rparr>) = wf_state s" for s :: "'k ios"
  by (simp add: wf_state_def)

lemma stop_keeps: "keeps env c (c\<lparr>s_pppd := map_option (snd \<circ> sstp_pppd_stop now) (s_pppd c)\<rparr>)"
proof (rule keepsI)
  assume "sess_ok env c"
  then show "sess_ok env (c\<lparr>s_pppd := map_option (snd \<circ> sstp_pppd_stop now) (s_pppd c)\<rparr>)"
  proof (rule sess_okI)
    fix p
    assume "s_pppd (c\<lparr>s_pppd := map_option (snd \<circ> sstp_pppd_stop now) (s_pppd c)\<rparr>) = Some p"
    then obtain q where "s_pppd c = Some q" "p = q\<lparr>t_end := now\<rparr>" by (auto simp: sstp_pppd_stop_def)
    moreover have "wf_pppd q" using sess_okD [OF \<open>sess_ok env c\<close>] calculation by blast
    ultimately have "wf_pppd p" by (simp add: wf_pppd_def tx_ok_def)
    then show "wf_pppd p \<or> s_pppd c = Some p" by simp
  qed (use sess_okD [OF \<open>sess_ok env c\<close>] in simp_all)
qed simp_all

lemma state_cb_inv:
  assumes i: "ios_inv env b s"
  shows "\<exists>r s'. ios_state_cb env (ios_world env n) ev s = Some (r, s') \<and> ios_inv env b s'"
proof (cases "jump s = None")
  case j: True
  have abort: ?thesis if "ev \<noteq> SSTP_CALL_CONNECT" "ev \<noteq> SSTP_CALL_ESTABLISHED"
  proof -
    let ?s = "on_sess (\<lambda>c. c\<lparr>s_pppd := map_option (snd \<circ> sstp_pppd_stop (clock env)) (s_pppd c)\<rparr>) s"
    have "ios_inv env b ?s" by (rule inv_on_sess [OF i]) (rule stop_keeps)
    then have "ios_inv env b (ios_fail (ERR_SSTP_CONTROL, STAGE_SSTP_CONTROL, sstp_state_reason ?s) ?s)"
      by (rule fail_inv(1)) simp_all
    then show ?thesis using that j by (cases ev) (simp_all add: ios_state_cb_def Let_def)
  qed
  show ?thesis
  proof (cases "ev = SSTP_CALL_CONNECT")
    case True
    let ?s = "on_sess (sstp_ios_set_stage STAGE_PPP_LCP) s"
    have si: "ios_inv env b ?s" "jump ?s = None" using inv_stage [OF i] j by simp_all
    show ?thesis
    proof (cases "sstp_pppd_create (pppd_mem env) True True (pppd_random env) (fst (pppd_keys env)) (snd (pppd_keys env))")
      case (Pair st po)
      show ?thesis
      proof (cases po)
        case None
        have o: "ios_env_ok env" "sess_ok env (sess ?s)" "wf_state ?s" "mode ?s = SSTP_MODE_CLIENT" "s_ev_base (sess ?s)" "s_escape (sess ?s)"
          using si by (auto simp: ios_inv_def)
        have "sess_ok env ((sess ?s)\<lparr>s_pppd := None\<rparr>)"
          by (rule sess_okI [OF o(2)]) (use sess_okD [OF o(2)] in simp_all)
        then have "ios_inv env b (ios_fail (ERR_INTERNAL, STAGE_PPP_LCP, ''Could not create PPP context'')
            (?s\<lparr>sess := (sess ?s)\<lparr>s_pppd := None\<rparr>\<rparr>))"
          using o si(2) by (intro conjunct1 [OF fail_live]) (simp_all add: keep_bases)
        then show ?thesis using True Pair None j by (simp add: ios_state_cb_def Let_def)
      next
        case (Some p)
        let ?f = "sstp_pppd_start (ppp env) (clock env) (Some (s_user (sess ?s))) (Some (s_password (sess ?s)))"
        let ?p = "sstp_pppd_set_ip_handler True p"
        let ?t = "?s\<lparr>sess := (sess ?s)\<lparr>s_pppd := Some ?p\<rparr>\<rparr>"
        obtain p' where p': "?f ?p = Some (SSTP_OKAY, p')" "wf_pppd p'"
          "\<And>ev. Notify ev \<in> set (drop (length (trace ?p)) (trace p')) \<Longrightarrow> ev = SSTP_PPP_START"
          using start_signals [of "pppd_mem env" "pppd_random env" "fst (pppd_keys env)" "snd (pppd_keys env)" st p
            "ppp env" "clock env" "Some (s_user (sess ?s))" "Some (s_password (sess ?s))"] Pair Some by blast
        have st: "st = SSTP_OKAY" "pppd_mem env" using Pair Some by (auto simp: sstp_pppd_create_def split: if_splits)
        have "wf_pppd p" using wf_create [of True True "pppd_random env" "fst (pppd_keys env)" "snd (pppd_keys env)" p] Pair Some st by simp
        then have wp: "wf_pppd ?p" by (simp add: sstp_pppd_set_ip_handler_def wf_pppd_def tx_ok_def)
        have "ios_inv env True ?t" by (rule inv_pppd [OF si(1) wp])
        moreover have "s_pppd (sess ?t) = Some ?p" by simp
        ultimately obtain s' where s': "with_pppd env (ios_world env n) ?f ?t = Some (SSTP_OKAY, s')" "ios_inv env True s'"
          using with_pppd_inv [of env True ?t ?p ?f SSTP_OKAY p' "ios_world env n"] p' pppd_cb_start by blast
        have "ios_inv env b (sstp_state_set_forward True s')"
          using s'(2) by (auto simp: ios_inv_def sstp_state_set_forward_def wf_state_def split: option.splits)
        then show ?thesis using True Pair Some j s'(1) by (simp add: ios_state_cb_def Let_def)
      qed
    qed
  next
    case False
    then show ?thesis using abort i j by (cases "ev = SSTP_CALL_ESTABLISHED") (simp_all add: ios_state_cb_def Let_def)
  qed
qed (use i in \<open>simp add: ios_state_cb_def\<close>)

text \<open>The session is a client of the state machine, at every level but the lowest.\<close>

interpretation level: state_calls "ios_world env (Suc n)" "ios_inv env b"
  for env :: "('k, 'x) ios_env" and n b
proof
  fix s s' :: "'k ios" and ev p
  show "ios_inv env b s \<Longrightarrow> wf_state s" by (simp add: ios_inv_def)
  show "ios_inv env b s \<Longrightarrow> wf_state s' \<Longrightarrow> sstp_state.more s' = sstp_state.more s \<Longrightarrow> forward_set s' = forward_set s
    \<Longrightarrow> mode s' = mode s \<Longrightarrow> ios_inv env b s'" by (rule inv_frame)
  show "ios_inv env b s \<Longrightarrow> \<exists>st s'. call_state (ios_world env (Suc n)) ev s = Some (st, s') \<and> ios_inv env b s'"
    using state_cb_inv [of env b s n ev] by simp
  show "ios_inv env b s \<Longrightarrow> \<exists>st s'. send_buf (ios_world env (Suc n)) s = Some (st, s') \<and> ios_inv env b s'"
    using inv_send [of env b s "content (tx_buf s)"] by (simp add: prod_eq_iff)
  show "ios_inv env b s \<Longrightarrow> \<exists>s'. req_recv (ios_world env (Suc n)) s = Some s' \<and> ios_inv env b s'"
    by (simp add: inv_on_sess reading_keeps)
  show "ios_inv env b s \<Longrightarrow> length (snd (cert_hash (ios_world env (Suc n)) p s)) = 32"
    using cert_hash_32 by blast
  show "ios_inv env b s \<Longrightarrow> cmac_mem (ios_world env (Suc n)) s" by simp
qed


lemma sess_base [simp]:
  fixes s :: "'k ios"
  shows "sess (s\<lparr>tx_buf := b\<rparr>) = sess s" "sess (s\<lparr>st_state := v\<rparr>) = sess s"
    "jump (s\<lparr>tx_buf := b\<rparr>) = jump s" "jump (s\<lparr>st_state := v\<rparr>) = jump s"
  by simp_all

lemma env_lengths: "ios_inv env b s \<Longrightarrow> digest_lengths (crypto (ppp env))"
  by (simp add: ios_inv_def ios_env_ok_def env_ok_def)

text \<open>An abort ends in the jump.\<close>

lemma abort_jumps:
  "ios_inv env b s \<Longrightarrow> ios_state_cb env w SSTP_CALL_ABORT s = Some (r, s') \<Longrightarrow> jump s' \<noteq> None"
proof (cases "jump s = None")
  case True
  assume i: "ios_inv env b s" and c: "ios_state_cb env w SSTP_CALL_ABORT s = Some (r, s')"
  let ?s = "on_sess (\<lambda>c. c\<lparr>s_pppd := map_option (snd \<circ> sstp_pppd_stop (clock env)) (s_pppd c)\<rparr>) s"
  have "ios_inv env b ?s" by (rule inv_on_sess [OF i]) (rule stop_keeps)
  then have "jump (ios_fail (ERR_SSTP_CONTROL, STAGE_SSTP_CONTROL, sstp_state_reason ?s) ?s) \<noteq> None"
    by (rule fail_inv(2)) simp_all
  then show ?thesis using c True by (auto simp: ios_state_cb_def Let_def)
qed (auto simp: ios_state_cb_def)

lemma bound_kept:
  "jump s = None \<Longrightarrow> ios_send env m s = (r, s') \<Longrightarrow> r = SSTP_OKAY \<Longrightarrow> m = with_mac (connected_msg ty n h) mac
    \<Longrightarrow> bound (sess s')"
  unfolding bound_def
  by (intro exI [of _ ty] exI [of _ n] exI [of _ h] exI [of _ mac]) (auto simp: ios_send_def Let_def on_sess_def)

text \<open>The Connected message is sent, and what the stream answers decides.\<close>

lemma accept_steps:
  assumes i: "ios_inv env b s" and h: "sstp_get_cert_hash (tls env) (proto s) 32 = Some (SSTP_OKAY, h)"
  shows "\<exists>c mac. wf_buff c \<and> b_max c = 16384
    \<and> content c = with_mac (connected_msg (hash_type (proto s)) (nounce s) h) mac
    \<and> (mppe_key_len s = 0 \<or> mppe_key_len s = 16 \<longrightarrow> mac = spec_cmac (crypto (ppp env))
        (SSTP_CMAC_SHA256 AND uint (hash_type (proto s)) \<noteq> 0) (hlak s) (connected_msg (hash_type (proto s)) (nounce s) h))
    \<and> sstp_state_accept (crypto (ppp env)) (ios_world env (Suc n)) s =
        (let (st, s1) = ios_send env (content c) (s\<lparr>tx_buf := c\<rparr>) in after_connect (ios_world env (Suc n)) st s1)"
proof -
  have wf: "wf_state s" "mode s = SSTP_MODE_CLIENT" using i by (simp_all add: ios_inv_def)
  have h': "cert_hash (ios_world env (Suc n)) (proto s) s = (SSTP_OKAY, h)" using h by simp
  have l: "length h = 32" using cert_hash_32 [OF i, of "Suc n" "proto s" s] h' by simp
  obtain c mac where c: "sstp_state_send_connect (crypto (ppp env)) (ios_world env (Suc n)) s =
      send_buf (ios_world env (Suc n)) (s\<lparr>tx_buf := c\<rparr>) \<bind> (\<lambda>(st, c). after_connect (ios_world env (Suc n)) st c)"
    "wf_buff c" "b_max c = 16384"
    "content c = with_mac (connected_msg (hash_type (proto s)) (nounce s) h) mac"
    "mppe_key_len s = 0 \<or> mppe_key_len s = 16 \<longrightarrow> mac = spec_cmac (crypto (ppp env))
        (SSTP_CMAC_SHA256 AND uint (hash_type (proto s)) \<noteq> 0) (hlak s) (connected_msg (hash_type (proto s)) (nounce s) h)"
    using send_connect_steps [OF wf(1) h' l _ env_lengths [OF i]] by force
  show ?thesis
    by (rule exI [of _ c], rule exI [of _ mac]) (use c wf(2) in \<open>simp add: sstp_state_accept_def Let_def split_beta\<close>)
qed

text \<open>The Connected message has been taken by the stream when the machine accepts and goes on.\<close>

lemma accept_inv:
  assumes i: "ios_inv env b s" and j: "jump s = None"
  shows "\<exists>r s'. sstp_state_accept (crypto (ppp env)) (ios_world env (Suc n)) s = Some (r, s') \<and> ios_inv env b s'
    \<and> (jump s' = None \<longrightarrow> bound (sess s'))"
proof -
  let ?w = "ios_world env (Suc n)"
  have m: "mode s = SSTP_MODE_CLIENT" using i by (simp add: ios_inv_def)
  obtain r s' where a: "sstp_state_accept (crypto (ppp env)) ?w s = Some (r, s')" "ios_inv env b s'"
    using level.good_accept [OF i env_lengths [OF i]] unfolding level.good_def by blast
  have "bound (sess s')" if j': "jump s' = None"
  proof (cases "cert_hash ?w (proto s) s")
    case (Pair ret h)
    show ?thesis
    proof (cases "ret = SSTP_OKAY")
      case False
      then obtain q where "ios_state_cb env (ios_world env n) SSTP_CALL_ABORT s = Some (q, s')"
        using a(1) Pair m by (auto simp: sstp_state_accept_def sstp_state_send_connect_def split: Option.bind_splits)
      then show ?thesis using abort_jumps [OF i] j' by blast
    next
      case True
      have h: "sstp_get_cert_hash (tls env) (proto s) 32 = Some (SSTP_OKAY, h)"
        using Pair True by (simp split: option.splits)
      obtain c mac where c: "wf_buff c" "b_max c = 16384"
        "content c = with_mac (connected_msg (hash_type (proto s)) (nounce s) h) mac"
        "sstp_state_accept (crypto (ppp env)) ?w s =
          (let (st, s1) = ios_send env (content c) (s\<lparr>tx_buf := c\<rparr>) in after_connect ?w st s1)"
        using accept_steps [OF i h] by blast
      obtain st s1 where s1: "ios_send env (content c) (s\<lparr>tx_buf := c\<rparr>) = (st, s1)" by (cases "ios_send env (content c) (s\<lparr>tx_buf := c\<rparr>)")
      have i1: "ios_inv env b s1"
        using inv_send [OF level.inv_tx [OF i c(1,2)], of "content c"] s1 by simp
      have ac: "after_connect ?w st s1 = Some (r, s')" using a(1) c(4) s1 by simp
      show ?thesis
      proof (cases "st = SSTP_OKAY")
        case True
        have "bound (sess s1)" using bound_kept [OF _ s1 True c(3)] j by simp
        moreover have "s' = s1\<lparr>st_state := st_state s1 OR SSTP_ST_ESTABLISHED\<rparr>"
          using ac True by (cases "jump s1") (simp_all add: after_connect_def ios_state_cb_def)
        ultimately show ?thesis by simp
      next
        case False
        have i2: "ios_inv env b (s1\<lparr>st_state := st_state s1 OR SSTP_ST_ESTABLISHED\<rparr>)"
          using level.inv_st_state [OF i1] .
        obtain q where "ios_state_cb env (ios_world env n) SSTP_CALL_ABORT
            (s1\<lparr>st_state := st_state s1 OR SSTP_ST_ESTABLISHED\<rparr>) = Some (q, s')"
          using ac False by (auto simp: after_connect_def Let_def split: Option.bind_splits)
        then show ?thesis using abort_jumps [OF i2] j' by blast
      qed
    qed
  qed
  then show ?thesis by (intro exI [of _ r] exI [of _ s'] conjI impI a)
qed

lemma mppe_get_lengths:
  "sstp_chap_mppe_get ssl c pw server = (ret, Some sk, Some rk) \<Longrightarrow> digest_lengths ssl \<Longrightarrow> length sk = 16 \<and> length rk = 16"
  by (auto simp: sstp_chap_mppe_get_def sstp_chap_hash_session_def digest_lengthsD Let_def split: option.splits prod.splits if_splits)

lemma mppe_keys_inv:
  assumes "ios_inv env b s" "length sk = 16" "length rk = 16"
  shows "\<exists>s'. sstp_state_mppe_keys sk rk 16 s = Some (SSTP_OKAY, s') \<and> ios_inv env b s'
    \<and> sess s' = sess s \<and> jump s' = jump s"
proof -
  have wf: "wf_state s" using assms(1) by (simp add: ios_inv_def)
  let ?s = "s\<lparr>mppe_send_key := sk @ drop 16 (mppe_send_key s), mppe_recv_key := rk @ drop 16 (mppe_recv_key s), mppe_key_len := 16\<rparr>"
  have e: "sstp_state_mppe_keys sk rk 16 s = Some (SSTP_OKAY, ?s)"
    using wf assms(2,3) by (simp add: sstp_state_mppe_keys_def set_key_full wf_state_def Let_def)
  have "ios_inv env b ?s"
    by (rule inv_frame [OF assms(1)]) (use wf assms(2,3) in \<open>simp_all add: wf_state_def\<close>)
  then show ?thesis using e by simp
qed

lemma pppd_cb_inv:
  assumes i: "ios_inv env True s"
  shows "\<exists>s'. ios_pppd_cb env (ios_world env (Suc n)) ev s = Some s' \<and> ios_inv env True s'"
proof (cases "jump s = None")
  case j: True
  show ?thesis
  proof (cases ev)
    case SSTP_PPP_START
    then show ?thesis using pppd_cb_start [OF i] by simp
  next
    case SSTP_PPP_DOWN
    then show ?thesis using j fail_inv(1) [OF i] by (simp add: ios_pppd_cb_def)
  next
    case SSTP_PPP_AUTH_FAIL
    then show ?thesis using j fail_inv(1) [OF i] by (simp add: ios_pppd_cb_def)
  next
    case SSTP_PPP_UP
    let ?s = "on_sess (sstp_ios_set_stage STAGE_PPP_IPCP) s"
    have i1: "ios_inv env True ?s" "jump ?s = None" using inv_stage [OF i] j by simp_all
    obtain r s1 where s1: "sstp_state_accept (crypto (ppp env)) (ios_world env (Suc n)) ?s = Some (r, s1)"
      "ios_inv env True s1" "jump s1 = None \<longrightarrow> bound (sess s1)"
      using accept_inv [OF i1, of n] by (elim exE conjE) (rule that)
    consider "jump s1 \<noteq> None" | "jump s1 = None" "r = SSTP_FAIL" | "jump s1 = None" "r \<noteq> SSTP_FAIL" by blast
    then show ?thesis
    proof cases
      case 1
      then show ?thesis using SSTP_PPP_UP j s1 by (simp add: ios_pppd_cb_def)
    next
      case 2
      then show ?thesis using SSTP_PPP_UP j s1 fail_inv(1) [OF s1(2)] by (simp add: ios_pppd_cb_def)
    next
      case 3
      then obtain p where p: "s_pppd (sess s1) = Some p" using s1(2) by (auto simp: ios_inv_def)
      let ?f = "\<lambda>c. sstp_ios_set_stage STAGE_APPLYING_SETTINGS (c\<lparr>s_ready := True\<rparr>)"
      have "keeps env (sess s1) ((sess s1)\<lparr>s_ready := True\<rparr>)" 
      proof (rule keepsI)
        assume "sess_ok env (sess s1)"
        then show "sess_ok env ((sess s1)\<lparr>s_ready := True\<rparr>)"
          using s1(3) 3 unfolding sess_ok_def by (simp add: trusted_def bound_def verify_host_def cong: option.case_cong)
      qed simp_all
      then have i2: "ios_inv env True (on_sess ?f s1)"
        using set_stage_keeps [of STAGE_APPLYING_SETTINGS env "(sess s1)\<lparr>s_ready := True\<rparr>"]
        by (intro inv_on_sess [OF s1(2)]) (simp add: keeps_def)
      have "ios_inv env True (on_sess (\<lambda>c. if s_on_ready c then c\<lparr>s_calls := s_calls c @ [OnReady x1 x2 x3 x4]\<rparr> else c) (on_sess ?f s1))"
        for x1 x2 x3 x4
        by (intro inv_on_sess [OF i2] call_keeps) (simp add: call_ok_def)
      then show ?thesis using SSTP_PPP_UP j s1(1) 3 p by (simp add: ios_pppd_cb_def Let_def split: prod.split)
    qed
  next
    case SSTP_PPP_AUTH
    let ?s = "on_sess (sstp_ios_set_stage STAGE_PPP_AUTH) s"
    have i1: "ios_inv env True ?s" "jump ?s = None" using inv_stage [OF i] j by simp_all
    obtain p where p: "s_pppd (sess ?s) = Some p" using i1 by (auto simp: ios_inv_def)
    have wp: "wf_pppd p" using i1 p by (auto simp: ios_inv_def sess_ok_def)
    let ?k = "sstp_chap_mppe_get (crypto (ppp env)) (chap p) (s_password (sess ?s)) False"
    have fail: "ios_inv env True (ios_fail (ERR_MPPE_FAILED, STAGE_PPP_MPPE, ''Could not derive MPPE keys'') ?s)"
      by (rule fail_inv(1) [OF i1(1)]) simp_all
    show ?thesis
    proof (cases "\<exists>sk rk. ?k = (0, Some sk, Some rk)")
      case False
      then show ?thesis
        using SSTP_PPP_AUTH j p fail
        by (cases ?k rule: prod_cases3) (auto simp: ios_pppd_cb_def Let_def split: option.splits)
    next
      case True
      then obtain sk rk where k: "?k = (0, Some sk, Some rk)" by blast
      have l: "length sk = 16" "length rk = 16" using mppe_get_lengths [OF k env_lengths [OF i]] by simp_all
      have i2: "ios_inv env True (on_sess (sstp_ios_set_stage STAGE_PPP_MPPE) ?s)" using inv_stage [OF i1(1)] by simp
      obtain s3 where s3: "sstp_state_mppe_keys sk rk 16 (on_sess (sstp_ios_set_stage STAGE_PPP_MPPE) ?s) = Some (SSTP_OKAY, s3)"
        "ios_inv env True s3"
        using mppe_keys_inv [OF i2 l] by blast
      have "wf_pppd (sstp_pppd_set_mppe_keys sk rk p)"
        using wp l by (simp add: sstp_pppd_set_mppe_keys_def wf_pppd_def tx_ok_def)
      then have "ios_inv env True (on_sess (\<lambda>c. c\<lparr>s_pppd := Some (sstp_pppd_set_mppe_keys sk rk p)\<rparr>) s3)"
        by (intro inv_on_sess [OF s3(2)] pppd_keeps)
      then show ?thesis using SSTP_PPP_AUTH j p k s3(1) by (simp add: ios_pppd_cb_def Let_def)
    qed
  qed
qed (use i in \<open>simp add: ios_pppd_cb_def\<close>)


lemma pppd_send_total:
  assumes "wf_pppd p" "env_ok e" "length f \<le> 1419"
  shows "\<exists>r p'. sstp_pppd_send e f p = Some (r, p') \<and> wf_pppd p'"
  using ppp_step_safe [OF ok_from_refl [OF assms(1)] assms(2), of "PppFrame f"] assms(3)
  by (auto simp: ppp_may_def safe_def ok_from_def)

lemma pppd_send_ip_total:
  assumes "wf_pppd p" "env_ok e"
  shows "\<exists>r p'. sstp_pppd_send_ip e ip p = Some (r, p') \<and> wf_pppd p'"
  using ppp_step_safe [OF ok_from_refl [OF assms(1)] assms(2), of "PppSendIp ip"]
  by (auto simp: ppp_may_def safe_def ok_from_def)

lemma pppd_complete_wf:
  assumes "wf_pppd p" "env_ok e"
  shows "wf_pppd (ppp_send_complete e p)"
  using ppp_step_safe [OF ok_from_refl [OF assms(1)] assms(2), of PppSendComplete]
  by (auto simp: ppp_may_def safe_def ok_from_def)

lemma env_ppp: "ios_inv env b s \<Longrightarrow> env_ok (ppp env)"
  by (simp add: ios_inv_def ios_env_ok_def)

lemma session_pppd: "ios_inv env b s \<Longrightarrow> s_pppd (sess s) = Some p \<Longrightarrow> wf_pppd p"
  by (auto simp: ios_inv_def sess_ok_def)

text \<open>An operation of the context that never fails.\<close>

lemma with_pppd_total:
  assumes i: "ios_inv env b s" and p: "s_pppd (sess s) = Some p"
    and f: "\<And>p. wf_pppd p \<Longrightarrow> \<exists>r p'. f p = Some (r, p') \<and> wf_pppd p'"
  shows "\<exists>r s'. with_pppd env (ios_world env (Suc n)) f s = Some (r, s') \<and> ios_inv env True s'"
proof -
  obtain r p' where p': "f p = Some (r, p')" "wf_pppd p'" using f [OF session_pppd [OF i p]] by blast
  show ?thesis by (rule exI [of _ r], rule with_pppd_inv [where f = f and p = p, OF i p p'], rule pppd_cb_inv)
qed

interpretation client: state_world "ios_world env (Suc (Suc n))" "ios_inv env b" 1419
  for env :: "('k, 'x) ios_env" and n b
proof
  fix s :: "'k ios" and off m
  assume i: "ios_inv env b s" and fw: "forward_set s" and d: "sstp_pkt_data (rx_buf s) = Some (Some off)"
    "sstp_pkt_data_len (rx_buf s) = Some m" "0 \<le> m" "m \<le> 1419"
  show "\<exists>st s'. call_forward (ios_world env (Suc (Suc n))) (Some off) m s = Some (st, s') \<and> ios_inv env b s'"
  proof (cases "jump s = None")
    case False
    then show ?thesis using i by (simp add: ios_forward_def)
  next
    case True
    have o: "off = 4" "m = b_len (rx_buf s) - 4"
      using d(1,2) by (auto simp: sstp_pkt_data_def sstp_pkt_data_len_def split: Option.bind_splits if_splits)
    have wf: "wf_buff (rx_buf s)" using i by (simp add: ios_inv_def wf_state_def)
    then have "4 + m \<le> int (length (b_data (rx_buf s)))" using o by (auto simp: wf_buff_def)
    then obtain x where x: "rd_n (b_data (rx_buf s)) off m = Some x" "length x \<le> 1419"
      using d(3,4) o(1) rd_n_defined [of 4 m "b_data (rx_buf s)"] rd_n_length [of "b_data (rx_buf s)" 4 m] by fastforce
    obtain p where p: "s_pppd (sess s) = Some p" using i fw True by (auto simp: ios_inv_def)
    obtain r s' where "with_pppd env (ios_world env (Suc n)) (sstp_pppd_send (ppp env) x) s = Some (r, s')" "ios_inv env True s'"
      using with_pppd_total [OF i p, of "sstp_pppd_send (ppp env) x" n] pppd_send_total [OF _ env_ppp [OF i] x(2)] by blast
    then show ?thesis using True x(1) inv_True by (fastforce simp: ios_forward_def)
  qed
qed

section \<open>The events\<close>

lemma post_verify_total: "ios_env_ok env \<Longrightarrow> post_http_verify (tls env) md pin host \<noteq> None"
  by (auto simp: post_http_verify_def sstp_get_cert_hash_def ios_env_ok_def wr_n_def split: option.splits)

lemma extend_simps [simp]:
  "sess (sstp_state.extend st (ios.fields c j)) = c" "jump (sstp_state.extend st (ios.fields c j)) = j"
  "wf_state (sstp_state.extend st (ios.fields c j)) = wf_state st"
  "mode (sstp_state.extend st (ios.fields c j)) = mode st"
  "forward_set (sstp_state.extend st (ios.fields c j)) = forward_set st"
  "mppe_key_len (sstp_state.extend st (ios.fields c j)) = mppe_key_len st"
  by (simp_all add: sstp_state.extend_def ios.fields_def wf_state_def)

lemma http_done_inv:
  assumes i: "ios_inv env False s" and j: "jump s = None" and h: "s_http (sess s) \<noteq> None"
  shows "\<exists>s'. ios_http_done env (ios_world env (Suc n)) st s = Some s' \<and> ios_inv env False s'"
proof (cases "st = SSTP_OKAY")
  case False
  then show ?thesis using fail_inv(1) [OF i] by (simp add: ios_http_done_def)
next
  case True
  let ?s = "s\<lparr>sess := (sess s)\<lparr>s_http := None\<rparr>\<rparr>"
  let ?c = "sess ?s"
  have so: "sess_ok env (sess s)" "ios_env_ok env" "wf_state s" "mode s = SSTP_MODE_CLIENT" "s_ev_base (sess s)"
    "s_escape (sess s)" "\<not> s_failed (sess s)" "forward_set s \<longrightarrow> s_pppd (sess s) \<noteq> None"
    using i j by (auto simp: ios_inv_def)
  have vh: "verify_host ?c = verify_host (sess s)" by (simp add: verify_host_def cong: option.case_cong)
  have tr: "trusted env (sess s)" using so(1) by (simp add: sess_ok_def)
  have "sess_ok env ?c"
    using so(1) tr vh unfolding sess_ok_def by (simp add: trusted_def bound_def)
  then have i1: "ios_inv env False ?s" using so j by (simp add: ios_inv_def keep_bases)
  obtain v where v: "post_http_verify (tls env) (s_tls_mode ?c) (s_pin ?c) (verify_host ?c) = Some v"
    using post_verify_total [OF so(2)] by fastforce
  show ?thesis
  proof (cases v)
    case (Inl e)
    have "sstp_ios_error_code_valid (Some (fst e))" "sstp_ios_stage_valid (Some (fst (snd e)))"
      using v Inl by (auto simp: post_http_verify_def split: if_splits Option.bind_splits)
    then show ?thesis using True v Inl fail_inv(1) [OF i1] by (simp add: ios_http_done_def)
  next
    case (Inr u)
    let ?t = "on_sess (sstp_ios_set_stage STAGE_SSTP_CONTROL) ?s"
    have i2: "ios_inv env False ?t" "jump ?t = None" using inv_stage [OF i1] j by simp_all
    obtain st0 where st0: "sstp_state_create True True True SSTP_MODE_CLIENT = (SSTP_OKAY, Whole st0)"
      "wf_state st0" "mode st0 = SSTP_MODE_CLIENT" "\<not> forward_set st0"
      using create_wf [of SSTP_MODE_CLIENT]
      by (cases "sstp_state_create True True True SSTP_MODE_CLIENT")
        (simp add: sstp_state_create_def sstp_buff_create_def wbuf_def)
    let ?d = "(sess ?t)\<lparr>s_state := True, s_reading := True\<rparr>"
    let ?u = "sstp_state.extend st0 (ios.fields ?d (jump ?t))"
    have same: "s_tls_mode (sess ?t) = s_tls_mode (sess s)" "s_pin (sess ?t) = s_pin (sess s)"
      "verify_host (sess ?t) = verify_host (sess s)" "verify_host ?d = verify_host (sess s)"
      using j by (simp_all add: on_sess_def sstp_ios_set_stage_def Let_def verify_host_def cong: option.case_cong)
    have "post_http_verify (tls env) (s_tls_mode (sess s)) (s_pin (sess s)) (verify_host (sess s)) = Some (Inr ())"
      using v vh Inr by simp
    then have "trusted env ?d" using tr h same by (simp add: trusted_def)
    moreover have "sess_ok env (sess ?t)" using i2 by (simp add: ios_inv_def)
    ultimately have "sess_ok env ?d" unfolding sess_ok_def by (simp add: bound_def)
    moreover have "s_ev_base ?d" "s_escape ?d" "\<not> s_failed ?d"
      using i2 by (auto simp: ios_inv_def)
    ultimately have i3: "ios_inv env False ?u" using st0 so(2) i2(2) by (simp add: ios_inv_def)
    obtain r s' where s': "sstp_state_start (ios_world env (Suc n)) ?u = Some (r, s')" "ios_inv env False s'"
      using level.good_start [OF i3] unfolding level.good_def by blast
    have m: "state_mem env" "state_buf env" using so(2) by (simp_all add: ios_env_ok_def)
    show ?thesis
      using True v Inr st0(1) s' m fail_inv(1) [OF s'(2), of "(ERR_SSTP_CONTROL, STAGE_SSTP_CONTROL, ''Could not start SSTP state machine'')"]
      by (cases "r = SSTP_FAIL") (simp_all add: ios_http_done_def Let_def)
  qed
qed


lemma handshake_total:
  assumes "ios_env_ok env"
    and "sstp_http_create m1 m2 (http_guid env) server Http_client = (st, Some h)"
  shows "\<exists>ret acts h'. sstp_http_handshake r h = Some (ret, acts, h') \<and> (\<forall>st. Http_done st \<notin> set acts)"
proof -
  have h: "h_mode h = Http_client" "wf_buff (h_buf h)" "0 \<in> set (h_uuid h)"
    using assms
    by (auto simp: sstp_http_create_def sstp_buff_create_def wf_buff_def ios_env_ok_def Let_def
        split: if_splits option.splits)
  obtain u where u: "cstring (h_uuid h) = Some u" using h(3) by (simp add: cstring_def)
  have "\<exists>st b. print_all c ls = Some (st, b)" if "wf_buff c" for c ls
    using that
  proof (induction ls arbitrary: c)
    case (Cons l ls)
    then show ?case using sstp_buff_print_wf [OF Cons.prems, of l] by fastforce
  qed simp
  then obtain st b where "print_all (sstp_buff_reset (h_buf h)) (hello_lines (h_server h) u) = Some (st, b)"
    using wf_buff_reset [OF h(2)] by blast
  then show ?thesis using h(1) u
    by (cases "st = SSTP_OKAY"; cases "r = SSTP_OKAY")
      (simp_all add: sstp_http_handshake_def sstp_http_send_hello_def sstp_http_send_complete_def Let_def)
qed

lemma quiet_acts:
  "ios_inv env b s \<Longrightarrow> \<forall>st. Http_done st \<notin> set acts \<Longrightarrow> \<exists>s'. http_acts env w r acts s = Some s' \<and> ios_inv env b s'"
proof (induction acts arbitrary: s)
  case (Cons a acts)
  have "\<exists>s1. (case a of Send_tls m \<Rightarrow> Some (on_sess (\<lambda>c. c\<lparr>s_sent := s_sent c @ [(m, r)]\<rparr>) s)
      | Http_done st \<Rightarrow> ios_http_done env w st s | _ \<Rightarrow> Some s) = Some s1 \<and> ios_inv env b s1"
    using Cons.prems by (cases a) (auto intro!: inv_on_sess send_keeps)
  then show ?case using Cons by fastforce
qed simp

lemma inv_http:
  assumes i: "ios_inv env b s"
    and t: "s_tls_mode (sess s) = SSTP_IOS_TLS_SYSTEM \<longrightarrow> ios_evaluate_system_trust (tls env) (verify_host (sess s)) = Inr ()"
  shows "ios_inv env b (s\<lparr>sess := (sess s)\<lparr>s_http := h\<rparr>\<rparr>)"
proof -
  have vh: "verify_host ((sess s)\<lparr>s_http := h\<rparr>) = verify_host (sess s)" by (simp add: verify_host_def cong: option.case_cong)
  have "sess_ok env (sess s)" using i by (simp add: ios_inv_def)
  then have "sess_ok env ((sess s)\<lparr>s_http := h\<rparr>)"
    using t vh unfolding sess_ok_def by (simp add: trusted_def bound_def)
  then show ?thesis using i by (simp add: ios_inv_def keep_bases cong: option.case_cong)
qed

lemma connected_inv:
  assumes i: "ios_inv env False s" and j: "jump s = None"
  shows "\<exists>s'. ios_connected env w st s = Some s' \<and> ios_inv env False s'"
proof -
  consider "st = SSTP_TIMEOUT" | "st \<noteq> SSTP_TIMEOUT" "st \<noteq> SSTP_CONNECTED" | "st = SSTP_CONNECTED" by blast
  then show ?thesis
  proof cases
    case 1
    then show ?thesis using fail_inv(1) [OF i] by (simp add: ios_connected_def)
  next
    case 2
    have "ios_inv env False (ios_fail (handshake_failure (tls env) (verify_text env) (s_tls_mode (sess s))) s)"
      by (rule fail_inv(1) [OF i]) (simp_all add: handshake_failure_def Let_def)
    then show ?thesis using 2 by (simp add: ios_connected_def)
  next
    case 3
    let ?v = "if s_tls_mode (sess s) = SSTP_IOS_TLS_SYSTEM
        then ios_evaluate_system_trust (tls env) (verify_host (sess s)) else Inr ()"
    show ?thesis
    proof (cases ?v)
      case (Inl e)
      have "sstp_ios_error_code_valid (Some (fst e))" "sstp_ios_stage_valid (Some (fst (snd e)))"
        using Inl by (auto simp: ios_evaluate_system_trust_def Let_def split: if_splits option.splits prod.splits)
      then show ?thesis using 3 Inl fail_inv(1) [OF i] by (simp add: ios_connected_def)
    next
      case (Inr u)
      let ?s = "on_sess (sstp_ios_set_stage STAGE_HTTP_UPGRADE) s"
      have i1: "ios_inv env False ?s" "jump ?s = None" using inv_stage [OF i] j by simp_all
      have same: "s_tls_mode (sess ?s) = s_tls_mode (sess s)" "verify_host (sess ?s) = verify_host (sess s)"
        using j by (simp_all add: on_sess_def sstp_ios_set_stage_def Let_def verify_host_def cong: option.case_cong)
      show ?thesis
      proof (cases "sstp_http_create (http_mem env) (http_buf env) (http_guid env) (s_peer_name (sess ?s)) Http_client")
        case (Pair c ho)
        show ?thesis
        proof (cases ho)
          case None
          then show ?thesis using 3 Inr Pair fail_inv(1) [OF i1(1)] by (simp add: ios_connected_def Let_def)
        next
          case (Some h)
          let ?r = "send_ret env (length (s_sent (sess ?s)))"
          have "ios_env_ok env" using i by (simp add: ios_inv_def)
          then obtain ret acts h' where h': "sstp_http_handshake ?r h = Some (ret, acts, h')"
            "\<forall>st. Http_done st \<notin> set acts"
            using handshake_total Pair Some by blast
          have "ios_inv env False (?s\<lparr>sess := (sess ?s)\<lparr>s_http := Some h'\<rparr>\<rparr>)"
            by (rule inv_http [OF i1(1)]) (use Inr same in \<open>auto split: if_splits\<close>)
          then obtain s' where s': "http_acts env w ?r acts (?s\<lparr>sess := (sess ?s)\<lparr>s_http := Some h'\<rparr>\<rparr>) = Some s'"
            "ios_inv env False s'"
            using quiet_acts h'(2) by blast
          show ?thesis
            using 3 Inr Pair Some h'(1) s' fail_inv(1) [OF s'(2), of "(ERR_HTTP_UPGRADE, STAGE_HTTP_UPGRADE, ''Could not start HTTP handshake'')"]
            by (cases "ret \<noteq> SSTP_OKAY \<and> ret \<noteq> SSTP_INPROG") (auto simp: ios_connected_def Let_def)
        qed
      qed
    qed
  qed
qed

lemma sends_inv:
  "ios_inv env b s \<Longrightarrow> \<exists>s'. inject_sends env (ios_world env (Suc n)) ps s = Some s' \<and> ios_inv env b s'"
proof (induction ps arbitrary: s)
  case (Cons p ps)
  have "\<exists>s1. (if s_pppd (sess s) = None then Some s
      else map_option snd (with_pppd env (ios_world env (Suc n)) (sstp_pppd_send_ip (ppp env) p) s)) = Some s1 \<and> ios_inv env b s1"
  proof (cases "s_pppd (sess s)")
    case (Some q)
    obtain r s1 where "with_pppd env (ios_world env (Suc n)) (sstp_pppd_send_ip (ppp env) p) s = Some (r, s1)" "ios_inv env True s1"
      using with_pppd_total [OF Cons.prems Some, of "sstp_pppd_send_ip (ppp env) p" n]
        pppd_send_ip_total [OF _ env_ppp [OF Cons.prems]] by blast
    then show ?thesis using Some inv_True by auto
  qed (use Cons.prems in simp)
  then show ?case using Cons.IH by fastforce
qed simp

text \<open>What may happen to a session, and when.\<close>

definition ios_may :: "ios_event \<Rightarrow> 'k ios \<Rightarrow> bool" where
  "ios_may ev s \<longleftrightarrow> s_looping (sess s) \<longrightarrow>
     (case ev of
        Ev_http_sent st \<Rightarrow> s_http (sess s) \<noteq> None
      | Ev_http_recv er buf st \<Rightarrow> s_http (sess s) \<noteq> None \<and> (st = SSTP_OKAY \<longrightarrow> sstp_http_get er buf 32 \<noteq> None)
      | Ev_state_sent st \<Rightarrow> s_state (sess s)
      | Ev_state_recv buf st \<Rightarrow> s_state (sess s) \<and> wf_buff buf \<and> b_max buf = 16384
          \<and> (st = SSTP_OKAY \<longrightarrow> sound_packet 1419 (s\<lparr>rx_buf := buf\<rparr>))
      | Ev_ppp_sent \<Rightarrow> s_pppd (sess s) \<noteq> None
      | _ \<Rightarrow> True)"

text \<open>Between two events.\<close>

definition rest_inv :: "('k, 'x) ios_env \<Rightarrow> 'k ios \<Rightarrow> bool" where
  "rest_inv env s \<longleftrightarrow> jump s = None \<and> sess_ok env (sess s) \<and> (s_failed (sess s) \<longrightarrow> \<not> s_looping (sess s))
     \<and> (s_looping (sess s) \<longrightarrow> ios_inv env False s)"

lemma http_loop_acts:
  assumes i: "ios_inv env False s" and j: "jump s = None" and h: "s_http (sess s) \<noteq> None"
  shows "\<exists>s'. http_acts env (ios_world env (Suc n)) r [Http_done st] s = Some s' \<and> ios_inv env False s'"
  using http_done_inv [OF i j h, of n st] by auto

lemma write_ip_keeps: "keeps env c (snd (sstp_ios_session_write_ip r1 r2 pkt c))"
proof -
  have "keeps env c (c\<lparr>s_inject := q\<rparr>)" for q by (rule keepsI, rule sess_okI, assumption) (auto dest: sess_okD)
  then show ?thesis by (auto simp: sstp_ios_session_write_ip_def Let_def keeps_def split: option.splits)
qed

lemma user_stop_keeps: "keeps env c (sstp_ios_session_stop now c)"
proof -
  let ?c = "c\<lparr>s_pppd := map_option (snd \<circ> sstp_pppd_stop now) (s_pppd c)\<rparr>"
  have k: "keeps env c ?c" by (rule stop_keeps)
  have "keeps env ?c (sstp_ios_session_stop now c)"
    by (rule keepsI, rule sess_okI, assumption)
      (auto dest: sess_okD simp: sstp_ios_session_stop_def Let_def snprintf_stage split: option.splits if_splits)
  then show ?thesis using k by (simp add: keeps_def)
qed

lemma stop_cb_keeps: "keeps env c (ios_stop_cb c)"
  by (rule keepsI, rule sess_okI, assumption) (auto dest: sess_okD simp: ios_stop_cb_def Let_def split: if_splits)

lemma sound_cong:
  assumes "rx_buf a = rx_buf b" "forward_set a = forward_set b" "sound_packet l a"
  shows "sound_packet l b"
  using assms(3) unfolding sound_packet_def assms(1,2) .

lemma dispatch_inv:
  assumes i: "ios_inv env False s" and j: "jump s = None" and m: "ios_may ev s" and l: "s_looping (sess s)"
  shows "\<exists>s'. ios_dispatch env ev s = Some s' \<and> ios_inv env False s'"
proof (cases ev)
  case (Ev_connected st)
  then show ?thesis using connected_inv [OF i j] by simp
next
  case (Ev_http_sent st)
  obtain h where h: "s_http (sess s) = Some h" using m l Ev_http_sent by (auto simp: ios_may_def)
  let ?h = "snd (sstp_http_send_complete st h)"
  let ?s = "s\<lparr>sess := (sess s)\<lparr>s_http := Some ?h\<rparr>\<rparr>"
  have t: "trusted env (sess s)" using i by (simp add: ios_inv_def sess_ok_def)
  have i1: "ios_inv env False ?s" by (rule inv_http [OF i]) (use t h in \<open>simp add: trusted_def\<close>)
  have "\<exists>s'. http_acts env (ios_world env 2) st (fst (sstp_http_send_complete st h)) ?s = Some s' \<and> ios_inv env False s'"
    using http_loop_acts [OF i1, of 1 st SSTP_FAIL] i1 j
    by (cases "st = SSTP_OKAY") (simp_all add: sstp_http_send_complete_def numeral_2_eq_2)
  then show ?thesis using Ev_http_sent h by (simp add: split_beta Let_def)
next
  case (Ev_http_recv er buf st)
  have h: "s_http (sess s) \<noteq> None" "st = SSTP_OKAY \<longrightarrow> sstp_http_get er buf 32 \<noteq> None"
    using m l Ev_http_recv by (auto simp: ios_may_def)
  have "\<exists>st'. sstp_recv_hello_complete er buf st = Some [Http_done st']"
    using h(2) by (cases "st = SSTP_OKAY") (auto simp: sstp_recv_hello_complete_def)
  then obtain st' where "sstp_recv_hello_complete er buf st = Some [Http_done st']" by blast
  then show ?thesis using Ev_http_recv h(1) http_loop_acts [OF i j h(1), of 1 st st'] by (auto simp: numeral_2_eq_2)
next
  case (Ev_state_sent st)
  then have "s_state (sess s)" using m l by (simp add: ios_may_def)
  then show ?thesis
    using Ev_state_sent level.good_send_complete [OF i, of 1 st] unfolding level.good1_def by (simp add: numeral_2_eq_2)
next
  case (Ev_state_recv buf st)
  let ?s = "s\<lparr>rx_buf := buf, sess := (sess s)\<lparr>s_reading := False\<rparr>\<rparr>"
  have b: "s_state (sess s)" "wf_buff buf" "b_max buf = 16384" "st = SSTP_OKAY \<Longrightarrow> sound_packet 1419 (s\<lparr>rx_buf := buf\<rparr>)"
    using m l Ev_state_recv by (auto simp: ios_may_def)
  have "ios_inv env False (on_sess (\<lambda>c. c\<lparr>s_reading := False\<rparr>) s)" by (rule inv_on_sess [OF i]) (rule reading_keeps)
  then have "ios_inv env False ((on_sess (\<lambda>c. c\<lparr>s_reading := False\<rparr>) s)\<lparr>rx_buf := buf\<rparr>)"
    using b(2,3) by (rule level.inv_rx)
  moreover have "(on_sess (\<lambda>c. c\<lparr>s_reading := False\<rparr>) s)\<lparr>rx_buf := buf\<rparr> = ?s" using j by (cases s) (simp add: on_sess_def)
  ultimately have "ios_inv env False ?s" by simp
  moreover have "sound_packet 1419 ?s" if "st = SSTP_OKAY"
    by (rule sound_cong [OF _ _ b(4) [OF that]]) simp_all
  ultimately obtain s' where "sstp_state_recv (ios_world env (Suc (Suc 0))) st ?s = Some s'" "ios_inv env False s'"
    using client.recv_safe by blast
  then show ?thesis using Ev_state_recv b(1) by (simp add: numeral_2_eq_2)
next
  case Ev_ppp_sent
  then obtain p where p: "s_pppd (sess s) = Some p" using m l by (auto simp: ios_may_def)
  obtain r s' where "with_pppd env (ios_world env (Suc 1)) (\<lambda>p. Some (SSTP_OKAY, ppp_send_complete (ppp env) p)) s = Some (r, s')"
    "ios_inv env True s'"
    using with_pppd_total [OF i p, of "\<lambda>p. Some (SSTP_OKAY, ppp_send_complete (ppp env) p)" 1]
      pppd_complete_wf [OF _ env_ppp [OF i]] by auto
  then show ?thesis using Ev_ppp_sent inv_True by (auto simp: numeral_2_eq_2)
next
  case Ev_inject
  have "ios_inv env False (on_sess (\<lambda>c. c\<lparr>s_inject := Some []\<rparr>) s)"
    by (rule inv_on_sess [OF i], rule keepsI, rule sess_okI, assumption) (auto dest: sess_okD)
  then have "ios_inv env False (s\<lparr>sess := (sess s)\<lparr>s_inject := Some []\<rparr>\<rparr>)" using j by (simp add: on_sess_def)
  then show ?thesis using Ev_inject i sends_inv [of env False _ 1] by (auto simp: ios_inject_cb_def numeral_2_eq_2 split: option.split)
next
  case Ev_stop
  then show ?thesis using inv_on_sess [where f = ios_stop_cb, OF i] by (simp add: stop_cb_keeps)
next
  case (Call_write_ip r1 r2 pkt)
  then show ?thesis using inv_on_sess [where f = "\<lambda>c. snd (sstp_ios_session_write_ip r1 r2 pkt c)", OF i] j by (simp add: write_ip_keeps on_sess_def)
next
  case Call_stop
  then show ?thesis using inv_on_sess [where f = "sstp_ios_session_stop (clock env)", OF i] j by (simp add: user_stop_keeps on_sess_def)
qed

lemma land_inv:
  assumes "ios_inv env False s"
  shows "rest_inv env (land s)"
proof (cases "jump s")
  case None
  then show ?thesis using assms by (simp add: land_def rest_inv_def ios_inv_def)
next
  case (Some q)
  obtain st c where q: "q = (st, c)" by (cases q)
  have c: "sess_ok env c" "s_failed c" "\<not> s_looping c" using assms Some q by (auto simp: ios_inv_def)
  have "sess_ok env (c\<lparr>s_escape := False\<rparr>)" by (rule sess_okI [OF c(1)]) (use c(1) in \<open>auto dest: sess_okD\<close>)
  then show ?thesis using Some q c by (simp add: land_def rest_inv_def)
qed

interpretation session: latched_machine "ios_step env" "rest_inv env" ios_may "\<lambda>s. s_failed (sess s)"
  for env :: "('k, 'x) ios_env"
proof
  fix s :: "'k ios" and ev
  assume r: "rest_inv env s" and m: "ios_may ev s"
  show "\<exists>s'. ios_step env ev s = Some s' \<and> rest_inv env s'"
  proof (cases "s_looping (sess s)")
    case True
    then obtain s' where "ios_dispatch env ev s = Some s'" "ios_inv env False s'"
      using dispatch_inv [OF _ _ m] r by (auto simp: rest_inv_def)
    then show ?thesis using True land_inv by (auto simp: ios_step_def)
  qed (use r in \<open>simp add: ios_step_def\<close>)
next
  fix s s' :: "'k ios" and ev
  assume "rest_inv env s" "s_failed (sess s)" "ios_step env ev s = Some s'"
  then show "s_failed (sess s')" by (simp add: rest_inv_def ios_step_def)
qed

end
