(* ===== verification/IosRun.thy ===== *)
theory IosRun
  imports IosProofs
begin

text \<open>
  The runs of the iOS session: every event that the session may get keeps the invariant, so
  \<open>sstp_ios_session_run\<close> answers for every sequence of events; the trust policy, the run up to
  the Connect-Request, what the first packet may do, and the end of PPP.
\<close>


section \<open>From the start to the end of the loop\<close>

definition blank_state :: sstp_state where
  "blank_state = (case snd (sstp_state_create True True True SSTP_MODE_CLIENT) of Whole s \<Rightarrow> s)"

lemma blank_wf: "wf_state blank_state" "mode blank_state = SSTP_MODE_CLIENT" "\<not> forward_set blank_state"
  by (simp_all add: blank_state_def sstp_state_create_def sstp_buff_create_def wf_state_def wf_buff_def)

text \<open>A session in memory, and in its loop.\<close>

definition ios_boot :: "'k session \<Rightarrow> 'k ios" where
  "ios_boot c = sstp_state.extend blank_state (ios.fields c None)"

definition in_loop :: "'k ios \<Rightarrow> 'k ios" where
  "in_loop s = s\<lparr>sess := (sess s)\<lparr>s_escape := True, s_looping := True\<rparr>\<rparr>"

lemma fresh_ok:
  assumes "s_http c = None" "\<not> s_state c" "s_pppd c = None" "\<not> s_ready c" "\<not> s_failed c" "s_fail_code c = []"
    "sstp_ios_stage_valid (Some (s_stage c))" "list_all call_ok (s_calls c)"
  shows "sess_ok env c"
  using assms by (simp add: sess_ok_def trusted_def)

lemma start_loop_ok:
  assumes "start_loop e host port d = (0, c)"
  shows "\<exists>v name. c = sstp_ios_set_stage STAGE_TCP_TLS ((sstp_ios_set_stage STAGE_RESOLVING
    (d\<lparr>s_ev_base := True, s_inject := Some [], s_stop := Some 0, s_ssl := v\<rparr>))\<lparr>s_peer_name := take 254 name\<rparr>)"
proof (cases "ios_init_ssl (e_ssl e) (s_tls_mode d) (s_ca_pem d) (s_pin d)")
  case (Pair r v)
  obtain q where "ios_lookup e host (Some port) = q" by blast
  then show ?thesis
    using assms Pair
    by (cases q; cases "snd q")
      (auto simp: start_loop_def Let_def ios_lookup_def split: if_splits option.splits)
qed

text \<open>What a start that succeeds leaves.\<close>

lemma start_ok:
  assumes "sstp_ios_session_create True f1 f2 f3 f4 = Some c0" "sstp_ios_session_start_ex e p c0 = (0, c)"
  shows "sess_ok env c \<and> s_ev_base c \<and> \<not> s_failed c \<and> \<not> s_ready c \<and> \<not> s_state c \<and> s_http c = None
    \<and> s_sent c = [] \<and> length (s_peer_name c) \<le> 254 \<and> s_inject c = Some [] \<and> s_stage c = STAGE_TCP_TLS"
proof -
  obtain host port where l: "start_loop e host port ((start_reset p c0)\<lparr>s_host := Some host\<rparr>) = (0, c)"
    using assms(2) by (auto simp: sstp_ios_session_start_ex_def Let_def split: if_splits option.splits)
  have c0: "s_calls c0 = []" "s_sent c0 = []" using assms(1) by (auto simp: sstp_ios_session_create_def)
  define d :: "'a session" where "d = (start_reset p c0)\<lparr>s_host := Some host\<rparr>"
  have d: "s_http d = None" "\<not> s_state d" "s_pppd d = None" "\<not> s_ready d" "\<not> s_failed d" "s_fail_code d = []"
    "s_calls d = []" "s_sent d = []"
    by (simp_all add: d_def start_reset_def c0)
  obtain v name where c: "c = sstp_ios_set_stage STAGE_TCP_TLS ((sstp_ios_set_stage STAGE_RESOLVING
    (d\<lparr>s_ev_base := True, s_inject := Some [], s_stop := Some 0, s_ssl := v\<rparr>))\<lparr>s_peer_name := take 254 name\<rparr>)"
    using start_loop_ok [OF l] unfolding d_def by blast
  have f: "s_http c = None" "\<not> s_state c" "s_pppd c = None" "\<not> s_ready c" "\<not> s_failed c" "s_fail_code c = []"
    "s_stage c = STAGE_TCP_TLS" "list_all call_ok (s_calls c)" "s_sent c = []" "s_ev_base c"
    "length (s_peer_name c) \<le> 254" "s_inject c = Some []"
    unfolding c by (simp_all add: sstp_ios_set_stage_def Let_def d snprintf_stage call_ok_def)
  have "sess_ok env c" by (rule fresh_ok) (simp_all add: f)
  then show ?thesis using f by simp
qed

lemma boot_inv:
  assumes "sess_ok env c" "s_ev_base c" "\<not> s_failed c" "ios_env_ok env"
  shows "rest_inv env (in_loop (ios_boot c))"
proof -
  let ?c = "c\<lparr>s_escape := True, s_looping := True\<rparr>"
  have e: "in_loop (ios_boot c) = sstp_state.extend blank_state (ios.fields ?c None)"
    by (simp add: in_loop_def ios_boot_def sstp_state.extend_def ios.fields_def)
  have "sess_ok env ?c" by (rule sess_okI [OF assms(1)]) (use assms(1) in \<open>auto dest: sess_okD\<close>)
  then show ?thesis using assms blank_wf unfolding e rest_inv_def by (simp add: ios_inv_def)
qed

text \<open>The end of a run, from the start of the session.\<close>

lemma run_ends:
  assumes "sstp_ios_session_create True f1 f2 f3 f4 = Some c0" "sstp_ios_session_start_ex e p c0 = (0, c)"
    and "ios_env_ok env" "allowed (ios_step env) ios_may evs (in_loop (ios_boot c))"
  shows "\<exists>s. sstp_ios_session_run env evs (ios_boot c) = Some s \<and> sess_ok env (sess s)"
proof -
  note st = start_ok [OF assms(1,2), of env]
  have b: "rest_inv env (in_loop (ios_boot c))" using boot_inv st assms(3) by blast
  obtain s where s: "run_steps (ios_step env) evs (in_loop (ios_boot c)) = Some s" "rest_inv env s"
    using session.run_safe [OF b assms(4)] by blast
  have o: "sess_ok env (sess s)" using s(2) by (simp add: rest_inv_def)
  have "sess_ok env ((sess s)\<lparr>s_escape := False, s_looping := False\<rparr>)"
    by (rule sess_okI [OF o]) (use o in \<open>auto dest: sess_okD\<close>)
  moreover have "s_ev_base (sess (ios_boot c))" using st by (simp add: ios_boot_def)
  ultimately show ?thesis using s(1) by (simp add: sstp_ios_session_run_def in_loop_def)
qed

section \<open>Properties\<close>

text \<open>C2. The client does not fault: a session that was started runs through any events that may
  happen to it without a memory error, and at the end and in every call of the application its
  stage is one of the contract; it has an error code exactly when it failed, and this and every
  reported code is one of the contract.\<close>

theorem ios_run_safe:
  assumes "sstp_ios_session_create True f1 f2 f3 f4 = Some c0" "sstp_ios_session_start_ex e p c0 = (0, c)"
    and "ios_env_ok env" "allowed (ios_step env) ios_may evs (in_loop (ios_boot c))"
  shows "\<exists>s. sstp_ios_session_run env evs (ios_boot c) = Some s
    \<and> sstp_ios_stage_valid (Some (sstp_ios_session_stage (Some (sess s))))
    \<and> (case sstp_ios_session_last_error_code (Some (sess s)) of
         None \<Rightarrow> \<not> s_failed (sess s)
       | Some code \<Rightarrow> s_failed (sess s) \<and> sstp_ios_error_code_valid (Some code))
    \<and> list_all call_ok (s_calls (sess s))"
proof -
  obtain s where s: "sstp_ios_session_run env evs (ios_boot c) = Some s" "sess_ok env (sess s)"
    using run_ends [OF assms] by blast
  have "s_failed (sess s) \<Longrightarrow> s_fail_code (sess s) \<noteq> []"
    using s(2) code_length by (auto simp: sess_ok_def)
  then show ?thesis
    using s by (auto simp: sess_ok_def sstp_ios_session_stage_def sstp_ios_session_last_error_code_def split: if_splits)
qed

text \<open>C3. The TLS policy: in no run does the control protocol exist before the certificate of the
  server has been accepted the way the mode asks for: by the trust of the system for the host
  of the session, or, with an own CA or a pin, by OpenSSL as a verified certificate for this
  host whose SHA-256 hash, with a pin, is the pin.\<close>

theorem ios_trust_policy:
  assumes "sstp_ios_session_create True f1 f2 f3 f4 = Some c0" "sstp_ios_session_start_ex e p c0 = (0, c)"
    and "ios_env_ok env" "allowed (ios_step env) ios_may evs (in_loop (ios_boot c))"
    and "sstp_ios_session_run env evs (ios_boot c) = Some s" "s_state (sess s)"
  shows "case s_tls_mode (sess s) of
      SSTP_IOS_TLS_SYSTEM \<Rightarrow> ios_evaluate_system_trust (tls env) (verify_host (sess s)) = Inr ()
    | SSTP_IOS_TLS_INSECURE_DEBUG \<Rightarrow> True
    | SSTP_IOS_TLS_CUSTOM_CA \<Rightarrow>
        sstp_verify_cert (tls env) (verify_host (sess s)) (SSTP_VERIFY_CERT OR SSTP_VERIFY_NAME) = SSTP_OKAY
    | SSTP_IOS_TLS_PINNED \<Rightarrow>
        sstp_verify_cert (tls env) (verify_host (sess s)) (SSTP_VERIFY_CERT OR SSTP_VERIFY_NAME) = SSTP_OKAY
        \<and> (s_pin (sess s) = [] \<or>
            (\<exists>x h. peer_cert (tls env) = Some x \<and> x509_digest (tls env) True x = Some h
              \<and> strcasecmp_eq (ascii (hex_of h)) (ascii (s_pin (sess s)))))"
proof -
  have "trusted env (sess s)" using run_ends [OF assms(1-4)] assms(5) by (auto simp: sess_ok_def)
  then show ?thesis
    using assms(3,6)
    by (auto simp: trusted_def post_http_verify_def sstp_get_cert_hash_def ios_env_ok_def wr_n_def SSTP_PROTO_HASH_SHA256_def
        split: tls_mode.splits if_splits option.splits Option.bind_splits)
qed

text \<open>C5. The application is told that the tunnel is ready only after the stream has taken a
  Connected message with the crypto binding.\<close>

theorem ios_ready_bound:
  assumes "sstp_ios_session_create True f1 f2 f3 f4 = Some c0" "sstp_ios_session_start_ex e p c0 = (0, c)"
    and "ios_env_ok env" "allowed (ios_step env) ios_may evs (in_loop (ios_boot c))"
    and "sstp_ios_session_run env evs (ios_boot c) = Some s"
  shows "sstp_ios_session_is_ready (Some (sess s)) = 0
    \<or> (\<exists>ty n h mac. (with_mac (connected_msg ty n h) mac, SSTP_OKAY) \<in> set (s_sent (sess s)))"
  using run_ends [OF assms(1-4)] assms(5)
  by (auto simp: sess_ok_def bound_def sstp_ios_session_is_ready_def split: if_splits)


text \<open>An environment in which nothing goes wrong.\<close>

definition fair_env :: "('k, 'x) ios_env \<Rightarrow> bool" where
  "fair_env env \<longleftrightarrow> ios_env_ok env \<and> http_mem env \<and> http_buf env \<and> (\<forall>n. send_ret env n = SSTP_OKAY)"

lemma handshake_fair:
  assumes "fair_env env" "length server \<le> 254"
    and "sstp_http_create (http_mem env) (http_buf env) (http_guid env) server Http_client = (st, ho)"
  shows "\<exists>h h'. ho = Some h \<and> sstp_http_handshake SSTP_OKAY h =
      Some (SSTP_INPROG, [Send_tls (concat (hello_lines server (hello_uuid (http_guid env)))), Arm_http 60], h')"
proof -
  have "http_mem env" "http_buf env" "\<And>g. http_guid env = Some g \<Longrightarrow> length g < 64"
    using assms(1) by (auto simp: fair_env_def ios_env_ok_def)
  then show ?thesis using hello_sent assms(2,3) by metis
qed

lemma connected_fair:
  assumes "fair_env env" "jump s = None" "length (s_peer_name (sess s)) \<le> 254"
    and "s_tls_mode (sess s) = SSTP_IOS_TLS_SYSTEM \<longrightarrow> ios_evaluate_system_trust (tls env) (verify_host (sess s)) = Inr ()"
  shows "\<exists>h. ios_connected env w SSTP_CONNECTED s = Some (s\<lparr>sess := (sstp_ios_set_stage STAGE_HTTP_UPGRADE (sess s))
    \<lparr>s_http := Some h,
     s_sent := s_sent (sess s) @ [(concat (hello_lines (s_peer_name (sess s)) (hello_uuid (http_guid env))), SSTP_OKAY)]\<rparr>\<rparr>)"
proof -
  let ?s = "on_sess (sstp_ios_set_stage STAGE_HTTP_UPGRADE) s"
  have s: "sess ?s = sstp_ios_set_stage STAGE_HTTP_UPGRADE (sess s)" "s_peer_name (sess ?s) = s_peer_name (sess s)"
    "s_sent (sess ?s) = s_sent (sess s)"
    using assms(2) by (simp_all add: on_sess_def sstp_ios_set_stage_def Let_def)
  obtain st ho where c: "sstp_http_create (http_mem env) (http_buf env) (http_guid env) (s_peer_name (sess ?s)) Http_client = (st, ho)"
    by (cases "sstp_http_create (http_mem env) (http_buf env) (http_guid env) (s_peer_name (sess ?s)) Http_client")
  obtain h h' where h: "ho = Some h" "sstp_http_handshake SSTP_OKAY h = Some (SSTP_INPROG,
      [Send_tls (concat (hello_lines (s_peer_name (sess s)) (hello_uuid (http_guid env)))), Arm_http 60], h')"
    using handshake_fair [OF assms(1) _ c] assms(3) s(2) by auto
  have sr: "send_ret env n = SSTP_OKAY" for n using assms(1) by (simp add: fair_env_def)
  show ?thesis
    by (rule exI [of _ h'])
      (use assms(2,4) c h sr s in \<open>simp add: ios_connected_def Let_def on_sess_def\<close>)
qed

lemma http_done_fair:
  assumes "fair_env env" "jump s = None" "s_escape (sess s)"
    and v: "post_http_verify (tls env) (s_tls_mode (sess s)) (s_pin (sess s)) (verify_host (sess s)) = Some (Inr ())"
  shows "\<exists>st. \<not> forward_set st \<and> mppe_key_len st = 0 \<and> ios_http_done env (ios_world env (Suc n)) SSTP_OKAY s = Some (sstp_state.extend st (ios.fields
    ((sstp_ios_set_stage STAGE_SSTP_CONTROL (sess s))\<lparr>s_http := None, s_state := True, s_reading := True,
       s_sent := s_sent (sess s) @ [(conn_request, SSTP_OKAY)]\<rparr>) None))"
proof -
  let ?s = "s\<lparr>sess := (sess s)\<lparr>s_http := None\<rparr>\<rparr>"
  have m: "state_mem env" "state_buf env" and sr: "\<And>n. send_ret env n = SSTP_OKAY" using assms(1) by (simp_all add: fair_env_def ios_env_ok_def)
  have vh: "verify_host ((sess s)\<lparr>s_http := None\<rparr>) = verify_host (sess s)" by (simp add: verify_host_def cong: option.case_cong)
  obtain st0 where st0: "sstp_state_create True True True SSTP_MODE_CLIENT = (SSTP_OKAY, Whole st0)"
    "wf_state st0" "mode st0 = SSTP_MODE_CLIENT" "\<not> forward_set st0" "mppe_key_len st0 = 0"
    using create_wf [of SSTP_MODE_CLIENT]
    by (cases "sstp_state_create True True True SSTP_MODE_CLIENT")
      (simp add: sstp_state_create_def sstp_buff_create_def wbuf_def)
  let ?c = "(sstp_ios_set_stage STAGE_SSTP_CONTROL (sess ?s))\<lparr>s_state := True, s_reading := True\<rparr>"
  let ?u = "sstp_state.extend st0 (ios.fields ?c None)"
  have wf: "wf_state ?u" using st0(2) by simp
  obtain b where b: "content b = conn_request"
    "sstp_state_send_request (ios_world env (Suc n)) ?u = do {
        (st, c) \<leftarrow> send_buf (ios_world env (Suc n)) (?u\<lparr>tx_buf := b\<rparr>);
        c \<leftarrow> (if st = SSTP_OKAY then Some c else map_option snd (call_state (ios_world env (Suc n)) SSTP_CALL_ABORT c));
        Some (st, c) }"
    using send_request_message [OF wf, of "ios_world env (Suc n)"] unfolding conn_request_def by blast
  have st: "sstp_state_start (ios_world env (Suc n)) ?u =
      Some (SSTP_OKAY, on_sess (\<lambda>c. c\<lparr>s_sent := s_sent c @ [(conn_request, SSTP_OKAY)]\<rparr>) (?u\<lparr>tx_buf := b\<rparr>))"
    using b sr st0(3) by (simp add: sstp_state_start_def ios_send_def Let_def)
  have e: "on_sess (\<lambda>c. c\<lparr>s_sent := s_sent c @ [(conn_request, SSTP_OKAY)]\<rparr>) (?u\<lparr>tx_buf := b\<rparr>) =
      sstp_state.extend (st0\<lparr>tx_buf := b\<rparr>) (ios.fields (?c\<lparr>s_sent := s_sent (sess s) @ [(conn_request, SSTP_OKAY)]\<rparr>) None)"
    by (simp add: on_sess_def sstp_state.extend_def ios.fields_def sstp_ios_set_stage_def Let_def)
  have c: "?c\<lparr>s_sent := x\<rparr> = (sstp_ios_set_stage STAGE_SSTP_CONTROL (sess s))\<lparr>s_http := None, s_state := True, s_reading := True, s_sent := x\<rparr>" for x
    by (cases "sess s") (simp add: sstp_ios_set_stage_def Let_def)
  show ?thesis
    by (rule exI [of _ "st0\<lparr>tx_buf := b\<rparr>"])
      (use assms(2) v vh m st0(1,4,5) st e c in \<open>simp add: ios_http_done_def Let_def on_sess_def\<close>)
qed


text \<open>The way to the control protocol.\<close>

lemma upgrade_run:
  assumes f: "fair_env env"
    and c: "s_escape (sess s)" "jump s = None" "s_looping (sess s)" "length (s_peer_name (sess s)) \<le> 254" "s_sent (sess s) = []"
    and t: "s_tls_mode (sess s) = SSTP_IOS_TLS_SYSTEM \<longrightarrow> ios_evaluate_system_trust (tls env) (verify_host (sess s)) = Inr ()"
    and v: "post_http_verify (tls env) (s_tls_mode (sess s)) (s_pin (sess s)) (verify_host (sess s)) = Some (Inr ())"
    and r: "b_data buf = reply 200 reason name val rest" "reply_ok reason name val"
  shows "\<exists>s'. run_steps (ios_step env) [Ev_connected SSTP_CONNECTED, Ev_http_recv False buf SSTP_OKAY] s = Some s'
    \<and> allowed (ios_step env) ios_may [Ev_connected SSTP_CONNECTED, Ev_http_recv False buf SSTP_OKAY] s
    \<and> s_state (sess s') \<and> s_looping (sess s') \<and> s_failed (sess s') = s_failed (sess s) \<and> s_stage (sess s') = STAGE_SSTP_CONTROL
    \<and> s_reading (sess s') \<and> \<not> forward_set s' \<and> jump s' = None \<and> mppe_key_len s' = 0
    \<and> s_user (sess s') = s_user (sess s) \<and> s_password (sess s') = s_password (sess s) \<and> s_on_ready (sess s') = s_on_ready (sess s)
    \<and> s_sent (sess s') = [(concat (hello_lines (s_peer_name (sess s)) (hello_uuid (http_guid env))), SSTP_OKAY), (conn_request, SSTP_OKAY)]"
proof -
  obtain h where h: "ios_connected env (ios_world env 2) SSTP_CONNECTED s =
      Some (s\<lparr>sess := (sstp_ios_set_stage STAGE_HTTP_UPGRADE (sess s))\<lparr>s_http := Some h,
        s_sent := s_sent (sess s) @ [(concat (hello_lines (s_peer_name (sess s)) (hello_uuid (http_guid env))), SSTP_OKAY)]\<rparr>\<rparr>)"
    using connected_fair [OF f c(2,4) t] by blast
  let ?c1 = "(sstp_ios_set_stage STAGE_HTTP_UPGRADE (sess s))\<lparr>s_http := Some h,
        s_sent := s_sent (sess s) @ [(concat (hello_lines (s_peer_name (sess s)) (hello_uuid (http_guid env))), SSTP_OKAY)]\<rparr>"
  define s1 where "s1 = s\<lparr>sess := ?c1\<rparr>"
  have s1: "jump s1 = None" "s_escape (sess s1)" "s_looping (sess s1)" "s_http (sess s1) = Some h"
    "s_tls_mode (sess s1) = s_tls_mode (sess s)" "s_pin (sess s1) = s_pin (sess s)" "verify_host (sess s1) = verify_host (sess s)"
    "s_failed (sess s1) = s_failed (sess s)"
    "s_user (sess s1) = s_user (sess s)" "s_password (sess s1) = s_password (sess s)" "s_on_ready (sess s1) = s_on_ready (sess s)"
    "s_sent (sess s1) = [(concat (hello_lines (s_peer_name (sess s)) (hello_uuid (http_guid env))), SSTP_OKAY)]"
    using c by (simp_all add: s1_def sstp_ios_set_stage_def Let_def verify_host_def cong: option.case_cong)
  have st1: "ios_step env (Ev_connected SSTP_CONNECTED) s = Some s1"
    using h c(3) s1(1) by (simp add: ios_step_def land_def s1_def)
  have g: "sstp_http_get False buf 32 = Some (SSTP_OKAY, 200, replicate 32 (name, val))"
    using http_get_reply [OF r, of 32] by simp
  obtain st where st: "\<not> forward_set st \<and> mppe_key_len st = 0" "ios_http_done env (ios_world env 2) SSTP_OKAY s1 = Some (sstp_state.extend st (ios.fields
    ((sstp_ios_set_stage STAGE_SSTP_CONTROL (sess s1))\<lparr>s_http := None, s_state := True, s_reading := True,
       s_sent := s_sent (sess s1) @ [(conn_request, SSTP_OKAY)]\<rparr>) None))"
    using http_done_fair [OF f s1(1,2), of 1] v s1(5-7) by (auto simp: numeral_2_eq_2)
  define s2 where "s2 = sstp_state.extend st (ios.fields
    ((sstp_ios_set_stage STAGE_SSTP_CONTROL (sess s1))\<lparr>s_http := None, s_state := True, s_reading := True,
       s_sent := s_sent (sess s1) @ [(conn_request, SSTP_OKAY)]\<rparr>) None)"
  have st2: "ios_step env (Ev_http_recv False buf SSTP_OKAY) s1 = Some s2"
    using st(2) g s1(3,4) by (simp add: ios_step_def sstp_recv_hello_complete_def land_def s2_def)
  have "s_state (sess s2)" "s_looping (sess s2)" "s_failed (sess s2) = s_failed (sess s)" "s_stage (sess s2) = STAGE_SSTP_CONTROL"
    "s_sent (sess s2) = s_sent (sess s1) @ [(conn_request, SSTP_OKAY)]"
    "s_reading (sess s2)" "\<not> forward_set s2" "jump s2 = None" "mppe_key_len s2 = 0"
    "s_user (sess s2) = s_user (sess s)" "s_password (sess s2) = s_password (sess s)" "s_on_ready (sess s2) = s_on_ready (sess s)"
    using s1(3,8-11) st(1) by (simp_all add: s2_def sstp_ios_set_stage_def Let_def snprintf_stage)
  moreover have "allowed (ios_step env) ios_may [Ev_connected SSTP_CONNECTED, Ev_http_recv False buf SSTP_OKAY] s"
    using st1 st2 g s1(4) by (simp add: ios_may_def)
  ultimately show ?thesis using st1 st2 s1(12) by simp
qed

section \<open>The end of PPP\<close>

lemma sess_stage_simps [simp]:
  "s_sent (sstp_ios_set_stage st c) = s_sent c" "s_failed (sstp_ios_set_stage st c) = s_failed c"
  "s_ready (sstp_ios_set_stage st c) = s_ready c" "s_pppd (sstp_ios_set_stage st c) = s_pppd c"
  "s_on_ready (sstp_ios_set_stage st c) = s_on_ready c" "s_looping (sstp_ios_set_stage st c) = s_looping c"
  "s_stage (sstp_ios_set_stage st c) = snprintf_s 64 st"
  by (simp_all add: sstp_ios_set_stage_def Let_def)

lemma fail_sent [simp]: "s_sent (sstp_ios_fail_ex code st msg c) = s_sent c"
  by (simp add: sstp_ios_fail_ex_def Let_def split: option.split)

text \<open>What the application is told of a context.\<close>

definition ready_call :: "'k sstp_pppd \<Rightarrow> ios_call" where
  "ready_call p = (case sstp_pppd_get_ipv4 p of (l, g, d1, d2) \<Rightarrow> OnReady l g d1 d2)"

lemma up_steps:
  assumes i: "ios_inv env True s" and j: "jump s = None"
    and h: "sstp_get_cert_hash (tls env) (proto s) 32 = Some (SSTP_OKAY, h)"
  defines "r \<equiv> send_ret env (length (s_sent (sess s)))"
  shows "\<exists>s' mac. ios_pppd_cb env (ios_world env (Suc n)) SSTP_PPP_UP s = Some s'
    \<and> s_sent (sess s') = s_sent (sess s) @ [(with_mac (connected_msg (hash_type (proto s)) (nounce s) h) mac, r)]
    \<and> (mppe_key_len s = 0 \<or> mppe_key_len s = 16 \<longrightarrow> mac = spec_cmac (crypto (ppp env))
        (SSTP_CMAC_SHA256 AND uint (hash_type (proto s)) \<noteq> 0) (hlak s) (connected_msg (hash_type (proto s)) (nounce s) h))
    \<and> (if r = SSTP_OKAY
       then jump s' = None \<and> s_ready (sess s') \<and> s_stage (sess s') = STAGE_APPLYING_SETTINGS
         \<and> (s_on_ready (sess s) \<longrightarrow> last (s_calls (sess s')) = ready_call (the (s_pppd (sess s))))
         \<and> s_looping (sess s') = s_looping (sess s) \<and> s_failed (sess s') = s_failed (sess s)
         \<and> s_pppd (sess s') = s_pppd (sess s)
       else jump s' \<noteq> None \<and> s_failed (sess s') \<and> s_fail_code (sess s') = ERR_SSTP_CONTROL
         \<and> s_ready (sess s') = s_ready (sess s))"
proof -
  let ?s = "on_sess (sstp_ios_set_stage STAGE_PPP_IPCP) s"
  have i1: "ios_inv env True ?s" "jump ?s = None" using inv_stage [OF i] j by simp_all
  have e: "?s = s\<lparr>sess := sstp_ios_set_stage STAGE_PPP_IPCP (sess s)\<rparr>" using j by (simp add: on_sess_def)
  obtain c mac where c: "wf_buff c" "b_max c = 16384"
    "content c = with_mac (connected_msg (hash_type (proto s)) (nounce s) h) mac"
    "mppe_key_len s = 0 \<or> mppe_key_len s = 16 \<longrightarrow> mac = spec_cmac (crypto (ppp env))
        (SSTP_CMAC_SHA256 AND uint (hash_type (proto s)) \<noteq> 0) (hlak s) (connected_msg (hash_type (proto s)) (nounce s) h)"
    "sstp_state_accept (crypto (ppp env)) (ios_world env (Suc n)) ?s =
        (let (st, s1) = ios_send env (content c) (?s\<lparr>tx_buf := c\<rparr>) in after_connect (ios_world env (Suc n)) st s1)"
    using accept_steps [of env True ?s h n] i1(1) h by (auto simp: e hlak_def)
  let ?m = "with_mac (connected_msg (hash_type (proto s)) (nounce s) h) mac"
  let ?q = "on_sess (\<lambda>d. d\<lparr>s_sent := s_sent d @ [(?m, r)]\<rparr>) (?s\<lparr>tx_buf := c\<rparr>)"
  have se: "ios_send env (content c) (?s\<lparr>tx_buf := c\<rparr>) = (r, ?q)"
    using c(3) j by (simp add: ios_send_def Let_def r_def e)
  define s1 where "s1 = ?q\<lparr>st_state := st_state ?q OR SSTP_ST_ESTABLISHED\<rparr>"
  have i2: "ios_inv env True ?q"
    using inv_send [OF level.inv_tx [OF i1(1) c(1,2)], of "content c"] se by simp
  have i3: "ios_inv env True s1" using level.inv_st_state [OF i2] by (simp add: s1_def)
  have d: "jump s1 = None" "s_sent (sess s1) = s_sent (sess s) @ [(?m, r)]" "s_ready (sess s1) = s_ready (sess s)"
    "s_on_ready (sess s1) = s_on_ready (sess s)" "s_pppd (sess s1) = s_pppd (sess s)"
    "s_looping (sess s1) = s_looping (sess s)" "s_failed (sess s1) = s_failed (sess s)"
    using j by (simp_all add: s1_def on_sess_def)
  have ac: "sstp_state_accept (crypto (ppp env)) (ios_world env (Suc n)) ?s =
      after_connect (ios_world env (Suc n)) r ?q" using c(5) se by simp
  show ?thesis
  proof (cases "r = SSTP_OKAY")
    case True
    have "after_connect (ios_world env (Suc n)) r ?q = Some (SSTP_OKAY, s1)"
      using True d(1) by (simp add: after_connect_def ios_state_cb_def Let_def s1_def)
    then have a: "sstp_state_accept (crypto (ppp env)) (ios_world env (Suc n)) ?s = Some (SSTP_OKAY, s1)"
      using ac by simp
    obtain p where p: "s_pppd (sess s1) = Some p" using i3 d(1) by (auto simp: ios_inv_def)
    obtain l g d1 d2 where q: "sstp_pppd_get_ipv4 p = (l, g, d1, d2)" by (cases "sstp_pppd_get_ipv4 p" rule: prod_cases4)
    define s2 where "s2 = on_sess (\<lambda>c. sstp_ios_set_stage STAGE_APPLYING_SETTINGS (c\<lparr>s_ready := True\<rparr>)) s1"
    define s3 where "s3 = on_sess (\<lambda>c. if s_on_ready c then c\<lparr>s_calls := s_calls c @ [OnReady l g d1 d2]\<rparr> else c) s2"
    have s2: "jump s2 = None" "s_sent (sess s2) = s_sent (sess s1)" "s_ready (sess s2)"
      "s_stage (sess s2) = STAGE_APPLYING_SETTINGS" "s_on_ready (sess s2) = s_on_ready (sess s)"
      "s_pppd (sess s2) = s_pppd (sess s)" "s_looping (sess s2) = s_looping (sess s)" "s_failed (sess s2) = s_failed (sess s)"
      using d by (simp_all add: s2_def sess_on_sess snprintf_stage)
    have s3: "jump s3 = None" "s_sent (sess s3) = s_sent (sess s1)" "s_ready (sess s3)"
      "s_stage (sess s3) = STAGE_APPLYING_SETTINGS" "s_on_ready (sess s) \<longrightarrow> last (s_calls (sess s3)) = OnReady l g d1 d2"
      "s_pppd (sess s3) = s_pppd (sess s)" "s_looping (sess s3) = s_looping (sess s)" "s_failed (sess s3) = s_failed (sess s)"
      using s2 by (simp_all add: s3_def sess_on_sess)
    have "ios_pppd_cb env (ios_world env (Suc n)) SSTP_PPP_UP s = Some s3"
      using j d(1) a p q by (simp add: ios_pppd_cb_def Let_def s3_def s2_def)
    moreover have "OnReady l g d1 d2 = ready_call (the (s_pppd (sess s)))" using p q d(5) by (simp add: ready_call_def)
    ultimately show ?thesis using True d(2) s3 c(4) by (intro exI [of _ s3] exI [of _ mac]) simp
  next
    case False
    define s2 where "s2 = on_sess (\<lambda>c. c\<lparr>s_pppd := map_option (snd \<circ> sstp_pppd_stop (clock env)) (s_pppd c)\<rparr>) s1"
    define s3 where "s3 = ios_fail (ERR_SSTP_CONTROL, STAGE_SSTP_CONTROL, sstp_state_reason s2) s2"
    have i4: "ios_inv env True s2" unfolding s2_def by (rule inv_on_sess [OF i3]) (rule stop_keeps)
    have s2: "jump s2 = None" "s_sent (sess s2) = s_sent (sess s1)" "s_ready (sess s2) = s_ready (sess s1)"
      using d(1) by (simp_all add: s2_def sess_on_sess)
    have "after_connect (ios_world env (Suc n)) r ?q = Some (r, s3)"
      using False d(1) by (simp add: after_connect_def ios_state_cb_def Let_def s3_def s2_def s1_def)
    then have a: "sstp_state_accept (crypto (ppp env)) (ios_world env (Suc n)) ?s = Some (r, s3)"
      using ac by simp
    have j4: "jump s3 \<noteq> None" unfolding s3_def by (rule fail_inv(2) [OF i4]) simp_all
    have up: "ios_pppd_cb env (ios_world env (Suc n)) SSTP_PPP_UP s = Some s3"
      using j j4 a by (simp add: ios_pppd_cb_def)
    have ok: "sess_ok env (sess s2)" "s_ev_base (sess s2)" using i4 by (auto simp: ios_inv_def)
    have e3: "sess s3 = sstp_ios_fail_ex (Some ERR_SSTP_CONTROL) (Some STAGE_SSTP_CONTROL) (Some (sstp_state_reason s2)) (sess s2)"
      using s2(1) by (simp add: s3_def ios_fail_def Let_def)
    note f = fail_ex_valid [OF ok(1) _ _ ok(2), of ERR_SSTP_CONTROL STAGE_SSTP_CONTROL "sstp_state_reason s2", folded e3]
    show ?thesis using False d s2 f up j4 c(4) by (intro exI [of _ s3] exI [of _ mac]) (simp add: e3)
  qed
qed

text \<open>The end of PPP: when the link is up, the client sends the Connected message; if the stream
  takes it at once, the session is ready, in the stage of the settings, and the application has been
  called with the addresses of the link; any other answer, also that the write is still in progress, makes the session fail
  with a control error, and it does not become ready.\<close>

theorem ios_up_outcome:
  assumes i: "ios_inv env True s" and j: "jump s = None"
    and h: "sstp_get_cert_hash (tls env) (proto s) 32 = Some (SSTP_OKAY, h)"
  defines "r \<equiv> send_ret env (length (s_sent (sess s)))"
  shows "\<exists>s' mac. ios_pppd_cb env (ios_world env (Suc n)) SSTP_PPP_UP s = Some s'
    \<and> s_sent (sess s') = s_sent (sess s) @ [(with_mac (connected_msg (hash_type (proto s)) (nounce s) h) mac, r)]
    \<and> (if r = SSTP_OKAY
       then jump s' = None \<and> s_ready (sess s') \<and> s_stage (sess s') = STAGE_APPLYING_SETTINGS
         \<and> (s_on_ready (sess s) \<longrightarrow> last (s_calls (sess s')) = ready_call (the (s_pppd (sess s))))
       else jump s' \<noteq> None \<and> s_failed (sess s') \<and> s_fail_code (sess s') = ERR_SSTP_CONTROL
         \<and> s_ready (sess s') = s_ready (sess s))"
  using up_steps [OF i j h, of n, folded r_def]
  by (elim exE conjE, intro exI conjI) (assumption, assumption, simp split: if_splits)

section \<open>The upgrade\<close>

text \<open>The start and the upgrade together.\<close>

lemma upgraded:
  assumes "sstp_ios_session_create True f1 f2 f3 f4 = Some c0" "sstp_ios_session_start_ex e p c0 = (0, c)"
    and "fair_env env"
    and "s_tls_mode c = SSTP_IOS_TLS_SYSTEM \<longrightarrow> ios_evaluate_system_trust (tls env) (verify_host c) = Inr ()"
    and "post_http_verify (tls env) (s_tls_mode c) (s_pin c) (verify_host c) = Some (Inr ())"
    and "b_data buf = reply 200 reason name val rest" "reply_ok reason name val"
  shows "\<exists>s. run_steps (ios_step env) [Ev_connected SSTP_CONNECTED, Ev_http_recv False buf SSTP_OKAY] (in_loop (ios_boot c)) = Some s
    \<and> allowed (ios_step env) ios_may [Ev_connected SSTP_CONNECTED, Ev_http_recv False buf SSTP_OKAY] (in_loop (ios_boot c))
    \<and> s_state (sess s) \<and> s_looping (sess s) \<and> \<not> s_failed (sess s) \<and> s_stage (sess s) = STAGE_SSTP_CONTROL
    \<and> s_reading (sess s) \<and> \<not> forward_set s \<and> jump s = None \<and> mppe_key_len s = 0
    \<and> s_user (sess s) = s_user c \<and> s_password (sess s) = s_password c \<and> s_on_ready (sess s) = s_on_ready c
    \<and> s_sent (sess s) = [(concat (hello_lines (s_peer_name c) (hello_uuid (http_guid env))), SSTP_OKAY), (conn_request, SSTP_OKAY)]"
proof -
  let ?s = "in_loop (ios_boot c)"
  note st = start_ok [OF assms(1,2), of env]
  have b: "s_escape (sess ?s)" "jump ?s = None" "s_looping (sess ?s)" "s_peer_name (sess ?s) = s_peer_name c"
    "s_sent (sess ?s) = s_sent c" "s_tls_mode (sess ?s) = s_tls_mode c" "s_pin (sess ?s) = s_pin c"
    "verify_host (sess ?s) = verify_host c" "s_failed (sess ?s) = s_failed c"
    "s_user (sess ?s) = s_user c" "s_password (sess ?s) = s_password c" "s_on_ready (sess ?s) = s_on_ready c"
    by (simp_all add: in_loop_def ios_boot_def verify_host_def cong: option.case_cong)
  show ?thesis
    using upgrade_run [OF assms(3) b(1-3) _ _ _ _ assms(6,7)] st assms(4,5) b(4-12) by simp
qed

text \<open>The upgrade: a session that was started, whose connection is established, whose server is
  trusted and answers the request with a 200 reply, sends exactly the request of the SSTP
  protocol and then the Connect-Request, and is in the stage of the control protocol.\<close>

theorem ios_upgrade:
  assumes "sstp_ios_session_create True f1 f2 f3 f4 = Some c0" "sstp_ios_session_start_ex e p c0 = (0, c)"
    and "fair_env env"
    and "s_tls_mode c = SSTP_IOS_TLS_SYSTEM \<longrightarrow> ios_evaluate_system_trust (tls env) (verify_host c) = Inr ()"
    and "post_http_verify (tls env) (s_tls_mode c) (s_pin c) (verify_host c) = Some (Inr ())"
    and "b_data buf = reply 200 reason name val rest" "reply_ok reason name val"
  shows "\<exists>s. sstp_ios_session_run env [Ev_connected SSTP_CONNECTED, Ev_http_recv False buf SSTP_OKAY] (ios_boot c) = Some s
    \<and> s_state (sess s) \<and> s_reading (sess s) \<and> \<not> s_failed (sess s)
    \<and> sstp_ios_session_stage (Some (sess s)) = STAGE_SSTP_CONTROL
    \<and> s_sent (sess s) = [(concat (hello_lines (s_peer_name c) (hello_uuid (http_guid env))), SSTP_OKAY), (conn_request, SSTP_OKAY)]"
proof -
  obtain s where s: "run_steps (ios_step env) [Ev_connected SSTP_CONNECTED, Ev_http_recv False buf SSTP_OKAY] (in_loop (ios_boot c)) = Some s"
    "s_state (sess s)" "\<not> s_failed (sess s)" "s_stage (sess s) = STAGE_SSTP_CONTROL" "s_reading (sess s)"
    "s_sent (sess s) = [(concat (hello_lines (s_peer_name c) (hello_uuid (http_guid env))), SSTP_OKAY), (conn_request, SSTP_OKAY)]"
    using upgraded [OF assms] by blast
  have "s_ev_base (sess (ios_boot c))" using start_ok [OF assms(1,2), of env] by (simp add: ios_boot_def)
  then show ?thesis using s by (simp add: sstp_ios_session_run_def in_loop_def sstp_ios_session_stage_def del: run_steps.simps)
qed

text \<open>C35. A server can make the client follow a null pointer: a data packet as the first packet
  after the upgrade reaches \<open>sstp_state_handle_data\<close> before \<open>forward_cb\<close> is set.\<close>

theorem ios_data_first:
  assumes "sstp_ios_session_create True f1 f2 f3 f4 = Some c0" "sstp_ios_session_start_ex e p c0 = (0, c)"
    and "fair_env env"
    and "s_tls_mode c = SSTP_IOS_TLS_SYSTEM \<longrightarrow> ios_evaluate_system_trust (tls env) (verify_host c) = Inr ()"
    and "post_http_verify (tls env) (s_tls_mode c) (s_pin c) (verify_host c) = Some (Inr ())"
    and "b_data buf = reply 200 reason name val rest" "reply_ok reason name val"
    and "sstp_pkt_type pkt = Some (SSTP_PKT_DATA, ty)"
  shows "sstp_ios_session_run env
    [Ev_connected SSTP_CONNECTED, Ev_http_recv False buf SSTP_OKAY, Ev_state_recv pkt SSTP_OKAY] (ios_boot c) = None"
proof -
  obtain s where s: "run_steps (ios_step env) [Ev_connected SSTP_CONNECTED, Ev_http_recv False buf SSTP_OKAY] (in_loop (ios_boot c)) = Some s"
    "s_state (sess s)" "s_looping (sess s)" "\<not> forward_set s"
    using upgraded [OF assms(1-7)] by blast
  have "ios_step env (Ev_state_recv pkt SSTP_OKAY) s = None"
    using s(2-4) assms(8)
    by (simp add: ios_step_def sstp_state_recv_def sstp_state_handle_packet_def sstp_state_handle_data_def
        split: Option.bind_splits)
  then have "run_steps (ios_step env) [Ev_connected SSTP_CONNECTED, Ev_http_recv False buf SSTP_OKAY, Ev_state_recv pkt SSTP_OKAY]
      (in_loop (ios_boot c)) = None"
    using s(1) by (auto split: Option.bind_splits)
  moreover have "s_ev_base (sess (ios_boot c))" using start_ok [OF assms(1,2), of env] by (simp add: ios_boot_def)
  ultimately show ?thesis by (simp add: sstp_ios_session_run_def in_loop_def del: run_steps.simps)
qed

section \<open>A session for the witnesses\<close>

definition demo_tls :: "u8 ios_tls" where
  "demo_tls = \<lparr>peer_cert = Some 1, chain_result = 0, check_host = (\<lambda>_ _. True), check_ip = (\<lambda>_ _. True),
     x509_digest = (\<lambda>b x. Some (if b then replicate 32 x else replicate 20 x)), ip_text = (\<lambda>_. False),
     ssl_there = True, peer_chain = None, x509_cmp = (=), i2d = (\<lambda>x. [x]), der_mem = (\<lambda>_. True),
     trust_mem = True, sec_trust = (\<lambda>_ _. (True, []))\<rparr>"

definition demo_ios :: "(u8, u8) ios_env" where
  "demo_ios = \<lparr>ppp = demo_env, tls = demo_tls, send_ret = (\<lambda>_. SSTP_OKAY), pppd_mem = True, pppd_random = 7,
     pppd_keys = (0, 0), clock = 5, state_mem = True, state_buf = True, http_mem = True, http_buf = True,
     http_guid = Some [49], verify_text = (\<lambda>_. [])\<rparr>"

definition demo_ssl_env :: ssl_env where
  "demo_ssl_env = \<lparr>ctx_new = True, bio_mem = True, cert_store = True, pem_certs = (\<lambda>_. []), default_paths = True,
     ca_bundle_var = None, load_locations = (\<lambda>_. False), debug_build = False\<rparr>"

definition demo_start :: start_env where
  "demo_start = \<lparr>e_ca_mem = True, e_inet = \<lparr>ip4 = (\<lambda>_. False), ip6 = (\<lambda>_. False)\<rparr>, e_url_mem = False,
     e_url_calloc = True, e_ev_base = True, e_inject_pair = True, e_stop_pair = True, e_events = True,
     e_ssl = demo_ssl_env, e_getaddrinfo = (\<lambda>_ _. Some [(True, [1])]), e_stream = SSTP_OKAY, e_connect = SSTP_INPROG\<rparr>"

definition demo_pin :: string where
  "demo_pin = concat (replicate 32 ''01'')"

lemma demo_hex: "hex_of (replicate 32 1) = demo_pin"
  by (simp add: hex_of_def demo_pin_def nibble_char_def char_of_def bit_simps)

lemma demo_lower: "map to_lower demo_pin = demo_pin"
  by (simp add: demo_pin_def map_concat to_lower_def Let_def)

lemma demo_pin_length: "length demo_pin = 64"
  by (simp add: demo_pin_def length_concat sum_list_replicate)

lemma demo_pin_cut: "snprintf_s 65 demo_pin = demo_pin"
  by (simp add: snprintf_s_def demo_pin_length)

lemma demo_pin_there: "demo_pin \<noteq> []" "given (Some demo_pin)"
  using demo_pin_length by (auto simp: given_def)

definition demo_params :: ios_params where
  "demo_params = \<lparr>p_server = Some ''s'', p_server_host = None, p_server_port = None, p_username = Some ''u'',
     p_password = Some ''p'', p_tls_mode = SSTP_IOS_TLS_PINNED, p_ca_pem = None, p_pin = Some demo_pin\<rparr>"

definition demo_created :: "u8 session" where
  "demo_created = the (sstp_ios_session_create True True True True True)"

definition demo_session :: "u8 session" where
  "demo_session = snd (sstp_ios_session_start_ex demo_start demo_params demo_created)"

lemma demo_create: "sstp_ios_session_create True True True True True = Some demo_created"
  by (simp add: demo_created_def sstp_ios_session_create_def)

lemma demo_starts: "sstp_ios_session_start_ex demo_start demo_params demo_created = (0, demo_session)"
  by (simp add: demo_session_def sstp_ios_session_start_ex_def demo_params_def demo_start_def start_loop_def
      ios_endpoint_def sstp_url_parse_def given_def [of None] given_def [of "Some ''s''"] ios_lookup_def
      ios_init_ssl_def demo_ssl_env_def start_reset_def Let_def demo_pin_there demo_lower demo_pin_cut)

lemma demo_ios_ok: "ios_env_ok demo_ios"
  by (simp add: ios_env_ok_def demo_ios_def demo_tls_def demo_env_ok)

lemma demo_fair: "fair_env demo_ios"
  using demo_ios_ok by (simp add: fair_env_def) (simp add: demo_ios_def)

lemma demo_fields:
  "s_tls_mode demo_session = SSTP_IOS_TLS_PINNED" "s_pin demo_session = demo_pin"
  "s_host demo_session = Some ''s''" "s_peer_name demo_session = ascii ''s''"
  by (simp_all add: demo_session_def sstp_ios_session_start_ex_def demo_params_def demo_start_def start_loop_def
      ios_endpoint_def sstp_url_parse_def given_def [of None] given_def [of "Some ''s''"] ios_lookup_def ios_init_ssl_def
      demo_ssl_env_def start_reset_def Let_def demo_pin_there demo_lower demo_pin_cut
      sstp_ios_set_stage_def snprintf_s_def [of 64] ascii_def)

lemma demo_trust:
  "post_http_verify (tls demo_ios) (s_tls_mode demo_session) (s_pin demo_session) (verify_host demo_session) = Some (Inr ())"
  by (simp add: demo_fields post_http_verify_def demo_ios_def demo_tls_def sstp_verify_cert_def verify_host_def
      sstp_get_cert_hash_def SSTP_PROTO_HASH_SHA256_def wr_n_def demo_hex strcasecmp_eq_def
      SSTP_VERIFY_NAME_def SSTP_VERIFY_CERT_def sstp_host_is_ip_literal_def Let_def)

definition demo_reply :: sstp_buff where
  "demo_reply = (wbuf 0)\<lparr>b_data := reply 200 [32, 79] [83] [77] [0]\<rparr>"

lemma demo_reply_ok: "b_data demo_reply = reply 200 [32, 79] [83] [77] [0]" "reply_ok [32, 79] [83] [77]"
  by (simp_all add: demo_reply_def reply_ok_def is_digit_def is_space_def name_size_def value_size_def)

text \<open>A buffer that holds a data packet.\<close>

definition demo_data :: sstp_buff where
  "demo_data = \<lparr>b_len = 4, b_max = 16384, b_off = 0, b_data = [0x10, 0, 0, 4] @ replicate 16380 0\<rparr>"

lemma demo_mode: "s_tls_mode demo_session = SSTP_IOS_TLS_SYSTEM \<longrightarrow> x"
  by (simp add: demo_fields)

lemmas demo_run = demo_create demo_starts demo_fair demo_mode demo_trust demo_reply_ok

lemma ios_upgrade_witness:
  "\<exists>s. sstp_ios_session_run demo_ios [Ev_connected SSTP_CONNECTED, Ev_http_recv False demo_reply SSTP_OKAY] (ios_boot demo_session) = Some s
    \<and> s_state (sess s) \<and> s_sent (sess s) = [(concat (hello_lines [115] [49]), SSTP_OKAY), (conn_request, SSTP_OKAY)]"
  using ios_upgrade [OF demo_run] by (simp add: demo_fields hello_uuid_def ascii_def) (simp add: demo_ios_def, blast)

lemma ios_data_first_witness:
  "sstp_ios_session_run demo_ios [Ev_connected SSTP_CONNECTED, Ev_http_recv False demo_reply SSTP_OKAY,
     Ev_state_recv demo_data SSTP_OKAY] (ios_boot demo_session) = None"
  by (rule ios_data_first [OF demo_run, of _ None])
    (simp add: sstp_pkt_type_def demo_data_def rd_def SSTP_MSG_FLAG_CTRL_def)


text \<open>A run to the control protocol.\<close>

lemma demo_upgraded:
  "\<exists>s. sstp_ios_session_run demo_ios [Ev_connected SSTP_CONNECTED, Ev_http_recv False demo_reply SSTP_OKAY] (ios_boot demo_session) = Some s
    \<and> allowed (ios_step demo_ios) ios_may [Ev_connected SSTP_CONNECTED, Ev_http_recv False demo_reply SSTP_OKAY] (in_loop (ios_boot demo_session))
    \<and> s_state (sess s)"
proof -
  obtain s where s: "run_steps (ios_step demo_ios) [Ev_connected SSTP_CONNECTED, Ev_http_recv False demo_reply SSTP_OKAY]
      (in_loop (ios_boot demo_session)) = Some s" "s_state (sess s)"
    "allowed (ios_step demo_ios) ios_may [Ev_connected SSTP_CONNECTED, Ev_http_recv False demo_reply SSTP_OKAY] (in_loop (ios_boot demo_session))"
    using upgraded [OF demo_run] by blast
  have "s_ev_base (sess (ios_boot demo_session))" using start_ok [OF demo_create demo_starts, of demo_ios] by (simp add: ios_boot_def)
  then show ?thesis using s by (simp add: sstp_ios_session_run_def in_loop_def del: run_steps.simps allowed.simps)
qed

lemma ios_run_safe_witness:
  "\<exists>s. sstp_ios_session_run demo_ios [Ev_connected SSTP_CONNECTED, Ev_http_recv False demo_reply SSTP_OKAY] (ios_boot demo_session) = Some s
    \<and> list_all call_ok (s_calls (sess s))"
  using demo_upgraded ios_run_safe [OF demo_create demo_starts demo_ios_ok,
      of "[Ev_connected SSTP_CONNECTED, Ev_http_recv False demo_reply SSTP_OKAY]"] by blast

lemma ios_trust_policy_witness:
  "\<exists>s. sstp_ios_session_run demo_ios [Ev_connected SSTP_CONNECTED, Ev_http_recv False demo_reply SSTP_OKAY] (ios_boot demo_session) = Some s
    \<and> s_state (sess s)
    \<and> (case s_tls_mode (sess s) of
        SSTP_IOS_TLS_SYSTEM \<Rightarrow> ios_evaluate_system_trust (tls demo_ios) (verify_host (sess s)) = Inr ()
      | SSTP_IOS_TLS_INSECURE_DEBUG \<Rightarrow> True
      | _ \<Rightarrow> sstp_verify_cert (tls demo_ios) (verify_host (sess s)) (SSTP_VERIFY_CERT OR SSTP_VERIFY_NAME) = SSTP_OKAY)"
proof -
  obtain s where s: "sstp_ios_session_run demo_ios [Ev_connected SSTP_CONNECTED, Ev_http_recv False demo_reply SSTP_OKAY] (ios_boot demo_session) = Some s"
    "allowed (ios_step demo_ios) ios_may [Ev_connected SSTP_CONNECTED, Ev_http_recv False demo_reply SSTP_OKAY] (in_loop (ios_boot demo_session))"
    "s_state (sess s)" using demo_upgraded by blast
  show ?thesis using s(1,3) ios_trust_policy [OF demo_create demo_starts demo_ios_ok s(2,1,3)]
    by (intro exI [of _ s]) (cases "s_tls_mode (sess s)"; simp)
qed

lemma ios_ready_bound_witness:
  "\<exists>s. sstp_ios_session_run demo_ios [Ev_connected SSTP_CONNECTED, Ev_http_recv False demo_reply SSTP_OKAY] (ios_boot demo_session) = Some s
    \<and> (sstp_ios_session_is_ready (Some (sess s)) = 0
      \<or> (\<exists>ty n h mac. (with_mac (connected_msg ty n h) mac, SSTP_OKAY) \<in> set (s_sent (sess s))))"
proof -
  obtain s where s: "sstp_ios_session_run demo_ios [Ev_connected SSTP_CONNECTED, Ev_http_recv False demo_reply SSTP_OKAY] (ios_boot demo_session) = Some s"
    "allowed (ios_step demo_ios) ios_may [Ev_connected SSTP_CONNECTED, Ev_http_recv False demo_reply SSTP_OKAY] (in_loop (ios_boot demo_session))"
    using demo_upgraded by blast
  show ?thesis using s(1) ios_ready_bound [OF demo_create demo_starts demo_ios_ok s(2,1)] by blast
qed

lemma demo_session_ready: "s_inject (demo_session\<lparr>s_ready := True\<rparr>) = Some []" "s_ready (demo_session\<lparr>s_ready := True\<rparr>)"
  using start_ok [OF demo_create demo_starts, of demo_ios] by simp_all

text \<open>A session in the middle of PPP.\<close>

definition demo_ppp_session :: "u8 session" where
  "demo_ppp_session = demo_session\<lparr>s_escape := True, s_pppd := Some demo_ctx\<rparr>"

lemma demo_ppp_inv: "ios_inv demo_ios True (ios_boot demo_ppp_session)" "jump (ios_boot demo_ppp_session) = None"
proof -
  have o: "sess_ok demo_ios demo_session" "s_ev_base demo_session" "\<not> s_failed demo_session"
    using start_ok [OF demo_create demo_starts, of demo_ios] by simp_all
  have "wf_pppd demo_ctx" using wf_create [OF demo_ctx_create] by simp
  then have "sess_ok demo_ios demo_ppp_session"
    unfolding demo_ppp_session_def by (intro sess_okI [OF o(1)]) (use sess_okD [OF o(1)] in simp_all)
  moreover have "s_ev_base demo_ppp_session" "\<not> s_failed demo_ppp_session" "s_escape demo_ppp_session" "s_pppd demo_ppp_session \<noteq> None"
    using o by (simp_all add: demo_ppp_session_def)
  ultimately show "ios_inv demo_ios True (ios_boot demo_ppp_session)" "jump (ios_boot demo_ppp_session) = None"
    using blank_wf demo_ios_ok by (simp_all add: ios_inv_def ios_boot_def)
qed

lemma ios_up_outcome_witness:
  "\<exists>s'. ios_pppd_cb demo_ios (ios_world demo_ios (Suc 0)) SSTP_PPP_UP (ios_boot demo_ppp_session) = Some s'
    \<and> s_ready (sess s') \<and> s_stage (sess s') = STAGE_APPLYING_SETTINGS"
proof -
  have h: "sstp_get_cert_hash (tls demo_ios) (proto (ios_boot demo_ppp_session)) 32 = Some (SSTP_OKAY, replicate 20 1 @ replicate 12 0)"
    by (simp add: ios_boot_def blank_state_def sstp_state_create_def sstp_buff_create_def sstp_state.extend_def
        sstp_get_cert_hash_def demo_ios_def demo_tls_def wr_n_def)
  have "send_ret demo_ios n = SSTP_OKAY" for n by (simp add: demo_ios_def)
  then show ?thesis using ios_up_outcome [OF demo_ppp_inv h, of 0] by auto
qed

end
