(* ===== verification/PppLink.thy ===== *)
theory PppLink
  imports PppProofs
begin

text \<open>
  What the frames of an undisturbed negotiation make of the PPP context (theory \<open>Ppp\<close>): for every
  frame the server sends on the way to a link that is up, the context after it and the calls made.
\<close>

section \<open>Contexts and calls\<close>

text \<open>The calls made on the way from one context to the next: the signals, and no delivery.\<close>

definition evolves :: "ppp_event list \<Rightarrow> ('k, 'z) sstp_pppd_scheme \<Rightarrow> ('k, 'z) sstp_pppd_scheme \<Rightarrow> bool" where
  "evolves evs a b \<longleftrightarrow> (\<exists>new. trace b = trace a @ new \<and> signals new = evs \<and> delivered new = [])"

lemma quiet_evolves: "quiet a b \<Longrightarrow> evolves [] a b"
  unfolding quiet_def evolves_def by auto

lemma evolves_trace: "evolves evs a b \<Longrightarrow> trace a' = trace a \<Longrightarrow> trace b' = trace b \<Longrightarrow> evolves evs a' b'"
  by (simp add: evolves_def)

lemma evolves_notify: "evolves evs a b \<Longrightarrow> notify_set b \<Longrightarrow> evolves (evs @ [e]) a (notify e b)"
  unfolding evolves_def by (auto simp: notify_def)

lemma send_frame_core:
  "\<exists>ctx'. send_frame env proto payload ctx = Some ctx' \<and> core ctx' = core ctx \<and> evolves [] ctx ctx'"
proof -
  obtain c where c: "send_frame env proto payload ctx = Some c" "quiet ctx c"
    using send_frame_spec [of env proto payload ctx] by blast
  then show ?thesis using quiet_evolves [OF c(2)] by (simp add: quiet_def)
qed

definition ppp_frame :: "u16 \<Rightarrow> bytes \<Rightarrow> bytes" where
  "ppp_frame proto p = [0xFF, 0x03] @ be16 proto @ p"

lemma bind_pair: "m \<bind> (\<lambda>c. Some (r, c)) = map_option (Pair r) m"
  by (cases m) simp_all

text \<open>A frame of one of the control protocols reaches its handler.\<close>

lemma frame_dispatch:
  assumes "split_proto (be16 proto @ p) = Some (proto, p)" "p \<noteq> []"
  shows "ppp_dispatch env (ppp_frame proto p) ctx =
    (if proto = PPP_PROTO_LCP then handle_lcp env p ctx
     else if proto = PPP_PROTO_CHAP then handle_chap env p ctx
     else if proto = PPP_PROTO_IPCP then handle_ipcp env p ctx
     else if proto = PPP_PROTO_CCP then handle_ccp env p ctx
     else if proto = PPP_PROTO_MPPE then handle_mppe env p ctx
     else if proto = PPP_PROTO_IP then
       (let ctx = (if ip_handler_set ctx then act (DeliverIp p) ctx else ctx) in
        Some (ctx\<lparr>recv_bytes := recv_bytes ctx + of_nat (length p)\<rparr>))
     else Some ctx)"
proof -
  have l: "length (be16 proto) = 2" by (simp add: be16_def)
  have "\<not> length (ppp_frame proto p) < 3" "\<not> length (be16 proto @ p) < 2"
    "rd (ppp_frame proto p) 0 = Some 0xFF" "rd (ppp_frame proto p) 1 = Some 0x03"
    "drop 2 (ppp_frame proto p) = be16 proto @ p"
    using l by (simp_all add: ppp_frame_def rd_def)
  then show ?thesis using assms(1) unfolding ppp_dispatch_def by simp
qed

lemma send_lcp: "p \<noteq> [] \<Longrightarrow> sstp_pppd_send env (ppp_frame PPP_PROTO_LCP p) ctx = map_option (Pair SSTP_OKAY) (handle_lcp env p ctx)"
  by (subst sstp_pppd_send_def, subst frame_dispatch)
    (simp_all add: split_proto_def rd_def rd16_def be16_def un16_def bind_pair, simp add: ppp_frame_def)

lemma send_chap: "p \<noteq> [] \<Longrightarrow> sstp_pppd_send env (ppp_frame PPP_PROTO_CHAP p) ctx = map_option (Pair SSTP_OKAY) (handle_chap env p ctx)"
  by (subst sstp_pppd_send_def, subst frame_dispatch)
    (simp_all add: split_proto_def rd_def rd16_def be16_def un16_def bind_pair, simp add: ppp_frame_def)

lemma send_ipcp: "p \<noteq> [] \<Longrightarrow> sstp_pppd_send env (ppp_frame PPP_PROTO_IPCP p) ctx = map_option (Pair SSTP_OKAY) (handle_ipcp env p ctx)"
  by (subst sstp_pppd_send_def, subst frame_dispatch)
    (simp_all add: split_proto_def rd_def rd16_def be16_def un16_def bind_pair, simp add: ppp_frame_def)

lemma send_ccp: "p \<noteq> [] \<Longrightarrow> sstp_pppd_send env (ppp_frame PPP_PROTO_CCP p) ctx = map_option (Pair SSTP_OKAY) (handle_ccp env p ctx)"
  by (subst sstp_pppd_send_def, subst frame_dispatch)
    (simp_all add: split_proto_def rd_def rd16_def be16_def un16_def bind_pair, simp add: ppp_frame_def)

section \<open>The frames\<close>

text \<open>A Configure packet without options, and one with an IP address.\<close>

definition bare_conf :: "u8 \<Rightarrow> u8 \<Rightarrow> bytes" where
  "bare_conf code ident = [code, ident, 0, 4]"

definition addr_conf :: "u8 \<Rightarrow> u8 \<Rightarrow> u32 \<Rightarrow> bytes" where
  "addr_conf code ident a = [code, ident, 0, 10, 3, 6] @ be32 a"

definition challenge_pkt :: "u8 \<Rightarrow> bytes \<Rightarrow> bytes \<Rightarrow> bytes" where
  "challenge_pkt ident ch name = [1, ident] @ be16 (of_nat (5 + length ch + length name)) @ [of_nat (length ch)] @ ch @ name"

lemma lcp_ack: "handle_lcp env (bare_conf 2 ident) p = Some (p\<lparr>lcp_opened := True\<rparr>)"
  by (simp add: handle_lcp_def bare_conf_def rd_def header_plen_def rd16_def)

lemma core_upd:
  "core (p\<lparr>chap := x_chap\<rparr>) = (core p)\<lparr>chap := x_chap\<rparr>"
  "core (p\<lparr>chap_id := x_chap_id\<rparr>) = (core p)\<lparr>chap_id := x_chap_id\<rparr>"
  "core (p\<lparr>lcp_id := x_lcp_id\<rparr>) = (core p)\<lparr>lcp_id := x_lcp_id\<rparr>"
  "core (p\<lparr>ipcp_id := x_ipcp_id\<rparr>) = (core p)\<lparr>ipcp_id := x_ipcp_id\<rparr>"
  "core (p\<lparr>ccp_id := x_ccp_id\<rparr>) = (core p)\<lparr>ccp_id := x_ccp_id\<rparr>"
  "core (p\<lparr>lcp_opened := x_lcp_opened\<rparr>) = (core p)\<lparr>lcp_opened := x_lcp_opened\<rparr>"
  "core (p\<lparr>auth_done := x_auth_done\<rparr>) = (core p)\<lparr>auth_done := x_auth_done\<rparr>"
  "core (p\<lparr>ip_configured := x_ip_configured\<rparr>) = (core p)\<lparr>ip_configured := x_ip_configured\<rparr>"
  "core (p\<lparr>ccp_done := x_ccp_done\<rparr>) = (core p)\<lparr>ccp_done := x_ccp_done\<rparr>"
  "core (p\<lparr>mppe_enabled := x_mppe_enabled\<rparr>) = (core p)\<lparr>mppe_enabled := x_mppe_enabled\<rparr>"
  "core (p\<lparr>up_notified := x_up_notified\<rparr>) = (core p)\<lparr>up_notified := x_up_notified\<rparr>"
  "core (p\<lparr>local_ip := x_local_ip\<rparr>) = (core p)\<lparr>local_ip := x_local_ip\<rparr>"
  "core (p\<lparr>n_rand := x_n_rand\<rparr>) = (core p)\<lparr>n_rand := x_n_rand\<rparr>"
  by (simp_all add: core_def)

lemma evolves_from [simp]:
  "evolves evs (a\<lparr>lcp_id := x\<rparr>) b = evolves evs a b" "evolves evs (a\<lparr>ipcp_id := x\<rparr>) b = evolves evs a b"
  "evolves evs (a\<lparr>ccp_id := x\<rparr>) b = evolves evs a b" "evolves evs (a\<lparr>auth_done := y\<rparr>) b = evolves evs a b"
  "evolves evs (a\<lparr>ccp_done := y\<rparr>) b = evolves evs a b" "evolves evs (a\<lparr>local_ip := z\<rparr>) b = evolves evs a b"
  "evolves evs (a\<lparr>mppe_enabled := y\<rparr>) b = evolves evs a b"
  by (simp_all add: evolves_def)

lemma evolves_trans: "evolves [] a b \<Longrightarrow> evolves evs b c \<Longrightarrow> evolves evs a c"
  unfolding evolves_def by fastforce

lemma evolves_refl [simp]: "evolves [] a a"
  by (simp add: evolves_def)

lemma send_lcp_core:
  "\<exists>r. send_lcp_confreq env q = Some r \<and> core r = core (q\<lparr>lcp_id := lcp_id q + 1\<rparr>) \<and> evolves [] q r"
  unfolding send_lcp_confreq_def Let_def
  using send_frame_core [where ctx = "q\<lparr>lcp_id := lcp_id q + 1\<rparr>" and env = env] unfolding evolves_from by blast

lemma send_ipcp_core:
  "\<exists>r. send_ipcp_confreq env q = Some r \<and> core r = core (q\<lparr>ipcp_id := ipcp_id q + 1\<rparr>) \<and> evolves [] q r"
  unfolding send_ipcp_confreq_def Let_def
  using send_frame_core [where ctx = "q\<lparr>ipcp_id := ipcp_id q + 1\<rparr>" and env = env] unfolding evolves_from by blast

lemma send_ccp_core:
  "\<exists>r. send_ccp_confreq env q = Some r \<and> core r = core (q\<lparr>ccp_id := ccp_id q + 1\<rparr>) \<and> evolves [] q r"
  unfolding send_ccp_confreq_def Let_def
  using send_frame_core [where ctx = "q\<lparr>ccp_id := ccp_id q + 1\<rparr>" and env = env] unfolding evolves_from by blast

text \<open>What the frames of a negotiation make of a context.\<close>

lemma lcp_request:
  assumes "length opts \<le> 252"
  shows "\<exists>p'. handle_lcp env (confreq ident opts) p = Some p' \<and> evolves [] p p'
    \<and> core p' = core (p\<lparr>lcp_id := (if lcp_opened p then lcp_id p else lcp_id p + 1)\<rparr>)"
proof -
  let ?b = "confreq ident opts"
  have l: "length ?b = 4 + length opts" by (simp add: confreq_def be16_def)
  have u: "uint (of_nat (4 + length opts) :: u16) = int (4 + length opts)"
  proof -
    have "unat (of_nat (4 + length opts) :: u16) = 4 + length opts"
      using assms by (simp add: unat_of_nat del: of_nat_add)
    then show ?thesis by (simp only: uint_nat)
  qed
  have h: "rd ?b 0 = Some 1" "rd ?b 1 = Some ident" "rd16 ?b 2 = Some (of_nat (4 + length opts))"
    by (simp_all add: confreq_def rd_def rd16_def be16_def un16_be16)
  have pl: "header_plen ?b = Some (int (4 + length opts))"
    using h(3) u l by (simp add: header_plen_def)
  obtain ack where ack: "with_code ?b (int (4 + length opts)) 2 = Some ack"
    using l by (simp add: with_code_def rd_n_def)
  obtain q where q: "send_frame env PPP_PROTO_LCP ack p = Some q" "core q = core p" "evolves [] p q"
    using send_frame_core by blast
  have cq: "lcp_opened q = lcp_opened p" "lcp_id q = lcp_id p" using core_eqD [OF q(2)] by simp_all
  obtain r where r: "send_lcp_confreq env q = Some r" "core r = core (q\<lparr>lcp_id := lcp_id q + 1\<rparr>)" "evolves [] q r"
    using send_lcp_core by blast
  have e: "handle_lcp env ?b p = (if \<not> lcp_opened q then send_lcp_confreq env q else Some q)"
    using h(1,2) pl ack q(1) l assms by (simp add: handle_lcp_def)
  show ?thesis
  proof (cases "lcp_opened p")
    case True
    then show ?thesis using e q(2,3) cq by simp
  next
    case False
    have "core r = core (p\<lparr>lcp_id := lcp_id p + 1\<rparr>)" using r(2) q(2) cq by (simp add: core_upd)
    then show ?thesis using False e r(1) evolves_trans [OF q(3) r(3)] cq by simp
  qed
qed


lemma chap_challenge:
  fixes env :: "('k, 'e) ppp_env_scheme"
  assumes "length ch = 16" "length name \<le> 200" "notify_set p"
  defines "pc \<equiv> rand16 env (n_rand p)"
  defines "ntr \<equiv> sstp_mschapv2_generate_nt_response (crypto env) ch pc (username p) (password p)"
  shows "\<exists>p'. handle_chap env (challenge_pkt ident ch name) p = Some p' \<and> evolves [SSTP_PPP_AUTH] p p'
    \<and> core p' = core (p\<lparr>chap_id := ident, n_rand := n_rand p + 1,
         chap := \<lparr>challenge = pc, response = replicate 8 0, nt_response = ntr, chap_flags = 0\<rparr>\<rparr>)"
proof -
  let ?b = "challenge_pkt ident ch name"
  define c where "c = p\<lparr>chap_id := ident, n_rand := n_rand p + 1,
      chap := \<lparr>challenge = pc, response = replicate 8 0, nt_response = ntr, chap_flags = 0\<rparr>\<rparr>"
  have b: "rd ?b 0 = Some 1" "rd ?b 1 = Some ident" "rd ?b 4 = Some 16" "rd_n ?b 5 16 = Some ch"
    "length ?b = 21 + length name"
    using assms(1) by (simp_all add: challenge_pkt_def rd_def rd_n_def be16_def)
  obtain q where q: "send_frame env PPP_PROTO_CHAP (chap_response ident pc ntr (username c)) c = Some q"
    "core q = core c" "evolves [] c q"
    using send_frame_core by blast
  have n: "notify_set q" using core_eqD(2) [OF q(2)] assms(3) by (simp add: c_def)
  have "handle_chap env ?b p = Some (notify SSTP_PPP_AUTH q)"
    using b q(1) by (simp add: handle_chap_def pc_def [symmetric] ntr_def [symmetric] c_def [symmetric] Let_def c_def)
  moreover have "evolves [SSTP_PPP_AUTH] p (notify SSTP_PPP_AUTH q)"
    using evolves_notify [OF q(3) n, of SSTP_PPP_AUTH] by (simp add: evolves_def c_def)
  ultimately show ?thesis using q(2) by (simp add: c_def)
qed

lemma chap_success:
  assumes "3 \<le> length body"
  shows "\<exists>p'. handle_chap env ([3, ident] @ body) p = Some p' \<and> evolves [] p p'
    \<and> core p' = core (p\<lparr>auth_done := True, ccp_id := ccp_id p + 1\<rparr>)"
proof -
  obtain q where "send_ccp_confreq env (p\<lparr>auth_done := True\<rparr>) = Some q"
    "core q = core (p\<lparr>auth_done := True, ccp_id := ccp_id p + 1\<rparr>)" "evolves [] p q"
    using send_ccp_core [of env "p\<lparr>auth_done := True\<rparr>"] by auto
  moreover have "handle_chap env ([3, ident] @ body) p = send_ccp_confreq env (p\<lparr>auth_done := True\<rparr>)"
    using assms by (simp add: handle_chap_def rd_def)
  ultimately show ?thesis by simp
qed

lemma init_keys_trace [simp]: "trace (mppe_init_keys env p) = trace p"
  "ccp_done (mppe_init_keys env p) = ccp_done p" "auth_done (mppe_init_keys env p) = auth_done p"
  "ip_configured (mppe_init_keys env p) = ip_configured p" "up_notified (mppe_init_keys env p) = up_notified p"
  "ipcp_id (mppe_init_keys env p) = ipcp_id p" "notify_set (mppe_init_keys env p) = notify_set p"
  "local_ip (mppe_init_keys env p) = local_ip p"
  by (simp_all add: mppe_init_keys_def Let_def split: prod.split)

lemma ccp_ack:
  assumes "\<not> ccp_done p" "\<not> ip_configured p"
  shows "\<exists>p'. handle_ccp env (bare_conf 2 ident) p = Some p' \<and> evolves [] p p'
    \<and> core p' = core (if auth_done p then (mppe_init_keys env p)\<lparr>ccp_done := True, ipcp_id := ipcp_id p + 1\<rparr>
         else (mppe_init_keys env p)\<lparr>ccp_done := True\<rparr>)"
proof -
  let ?q = "(mppe_init_keys env p)\<lparr>ccp_done := True\<rparr>"
  have h: "handle_ccp env (bare_conf 2 ident) p = ccp_finished env (mppe_init_keys env p)"
    by (simp add: handle_ccp_def bare_conf_def rd_def header_plen_def rd16_def)
  obtain r where r: "send_ipcp_confreq env ?q = Some r" "core r = core (?q\<lparr>ipcp_id := ipcp_id ?q + 1\<rparr>)" "evolves [] ?q r"
    using send_ipcp_core by blast
  have i: "ip_configured r = ip_configured p" using core_eqD(14) [OF r(2)] by simp
  have m: "maybe_notify_up c = c" if "\<not> ip_configured c" for c :: "('a, 'b) sstp_pppd_scheme"
    using that by (simp add: maybe_notify_up_def)
  have ev: "evolves [] p r" using r(3) by (simp add: evolves_def)
  show ?thesis
    using h r(1,2) i m assms ev
    by (cases "auth_done p") (simp_all add: ccp_finished_def Let_def evolves_def)
qed


lemma addr_opt:
  assumes "upd 3 6 4 c = Some c'"
  shows "opt_loop upd (addr_conf code ident a) 10 4 c = Some c'"
proof -
  have r: "rd (addr_conf code ident a) 4 = Some 3" "rd (addr_conf code ident a) 5 = Some 6"
    by (simp_all add: addr_conf_def rd_def be32_def)
  have "opt_loop upd (addr_conf code ident a) 10 10 c' = Some c'" by (subst opt_loop.simps) simp
  then show ?thesis using r assms by (subst opt_loop.simps) simp
qed

lemma addr_conf_reads:
  "rd (addr_conf code ident a) 0 = Some code" "header_plen (addr_conf code ident a) = Some 10"
  "rd32 (addr_conf code ident a) 6 = Some a" "length (addr_conf code ident a) = 10"
  by (simp_all add: addr_conf_def rd_def header_plen_def rd16_def rd32_def be32_def un16_def un32_be32)

lemma ipcp_nak:
  assumes "ccp_done p"
  shows "\<exists>p'. handle_ipcp env (addr_conf 3 ident a) p = Some p' \<and> evolves [] p p'
    \<and> core p' = core (p\<lparr>local_ip := a, ipcp_id := ipcp_id p + 1\<rparr>)"
proof -
  obtain q where "send_ipcp_confreq env (p\<lparr>local_ip := a\<rparr>) = Some q"
    "core q = core (p\<lparr>local_ip := a, ipcp_id := ipcp_id p + 1\<rparr>)" "evolves [] p q"
    using send_ipcp_core [of env "p\<lparr>local_ip := a\<rparr>"] by auto
  moreover have "opt_loop (local_opt (addr_conf 3 ident a)) (addr_conf 3 ident a) 10 4 p = Some (p\<lparr>local_ip := a\<rparr>)"
    by (rule addr_opt) (simp add: local_opt_def addr_conf_reads)
  ultimately show ?thesis using assms by (simp add: handle_ipcp_def addr_conf_reads)
qed

lemma ipcp_ack:
  assumes "ccp_done p" "\<not> up_notified p" "a \<noteq> 0"
  shows "handle_ipcp env (addr_conf 2 ident a) p =
    Some (notify SSTP_PPP_UP (p\<lparr>local_ip := a, ip_configured := True, up_notified := True\<rparr>))"
proof -
  have "opt_loop (local_opt (addr_conf 2 ident a)) (addr_conf 2 ident a) 10 4 p = Some (p\<lparr>local_ip := a\<rparr>)"
    by (rule addr_opt) (simp add: local_opt_def addr_conf_reads)
  then show ?thesis using assms by (simp add: handle_ipcp_def addr_conf_reads maybe_notify_up_def)
qed

end
