(* ===== verification/IosLink.thy ===== *)
theory IosLink
  imports IosRun PppLink
begin

text \<open>
  What the packets of a server make of a session of the iOS client: a data packet carries a PPP
  frame, the frame makes the calls that theory \<open>PppLink\<close> computes, and these are what the session
  sees. The Connect-Ack starts the link; then the frames of LCP, MS-CHAPv2, CCP and IPCP.
\<close>

section \<open>A packet of data for the link\<close>

primrec ios_cbs :: "('k, 'x) ios_env \<Rightarrow> 'k ios world \<Rightarrow> ppp_event list \<Rightarrow> 'k ios \<Rightarrow> 'k ios option" where
  "ios_cbs env w [] s = Some s"
| "ios_cbs env w (e # es) s = do { s \<leftarrow> ios_pppd_cb env w e s; ios_cbs env w es s }"

lemma calls_cbs: "delivered as = [] \<Longrightarrow> ios_calls env w as s = ios_cbs env w (signals as) s"
  by (induction as arbitrary: s) (auto simp: delivered_def signals_def split: ppp_action.splits)

lemma rx_data:
  assumes "length f \<le> 1419"
  shows "sstp_pkt_type (rx_with (data_pkt f)) = Some (SSTP_PKT_DATA, None)"
    "sstp_pkt_data (rx_with (data_pkt f)) = Some (Some 4)"
    "sstp_pkt_data_len (rx_with (data_pkt f)) = Some (int (length f))"
    "rd_n (b_data (rx_with (data_pkt f))) 4 (int (length f)) = Some f"
    "wf_buff (rx_with (data_pkt f))" "b_len (rx_with (data_pkt f)) = int (length f) + 4"
proof -
  have l: "length (data_pkt f) = length f + 4" by (simp add: data_pkt_def be16_def)
  then have "length (data_pkt f) \<le> 16384" using assms by simp
  then show "wf_buff (rx_with (data_pkt f))" using holds_rx_with by (simp add: holds_def)
  show n: "b_len (rx_with (data_pkt f)) = int (length f) + 4" using l by (simp add: rx_with_def)
  have r: "rd (b_data (rx_with (data_pkt f))) 1 = Some 0"
    by (simp add: rx_with_def data_pkt_def rd_def)
  then show "sstp_pkt_type (rx_with (data_pkt f)) = Some (SSTP_PKT_DATA, None)"
    "sstp_pkt_data (rx_with (data_pkt f)) = Some (Some 4)"
    "sstp_pkt_data_len (rx_with (data_pkt f)) = Some (int (length f))"
    using n assms by (simp_all add: sstp_pkt_type_def sstp_pkt_data_def sstp_pkt_data_len_def SSTP_MSG_FLAG_CTRL_def)
  show "rd_n (b_data (rx_with (data_pkt f))) 4 (int (length f)) = Some f"
    by (simp add: rx_with_def data_pkt_def rd_n_def be16_def)
qed

definition more_data :: "'k ios \<Rightarrow> 'k ios" where
  "more_data s = on_sess (\<lambda>c. c\<lparr>s_reading := True\<rparr>) (s\<lparr>rx_buf := sstp_buff_reset (rx_buf s)\<rparr>)"

lemma data_step:
  assumes s: "s_looping (sess s)" "s_state (sess s)" "jump s = None" "forward_set s" "s_pppd (sess s) = Some p"
    and f: "length f \<le> 1419" "sstp_pppd_send (ppp env) f p = Some (r, p')" "evolves evs p p'"
  shows "ios_step env (Ev_state_recv (rx_with (data_pkt f)) SSTP_OKAY) s =
     map_option (land \<circ> more_data) (ios_cbs env (ios_world env 1) evs
       (s\<lparr>rx_buf := rx_with (data_pkt f), sess := (sess s)\<lparr>s_reading := False, s_pppd := Some p'\<rparr>\<rparr>))"
proof -
  note x = rx_data [OF f(1)]
  let ?s = "s\<lparr>rx_buf := rx_with (data_pkt f), sess := (sess s)\<lparr>s_reading := False\<rparr>\<rparr>"
  let ?s1 = "s\<lparr>rx_buf := rx_with (data_pkt f), sess := (sess s)\<lparr>s_reading := False, s_pppd := Some p'\<rparr>\<rparr>"
  obtain new where new: "trace p' = trace p @ new" "signals new = evs" "delivered new = []"
    using f(3) by (auto simp: evolves_def)
  have e: "with_pppd env (ios_world env 1) (sstp_pppd_send (ppp env) f) ?s =
      map_option (Pair r) (ios_cbs env (ios_world env 1) evs ?s1)"
    using s(5) f(2) new calls_cbs [OF new(3), of env "ios_world env 1" ?s1]
    by (simp add: with_pppd_def bind_pair)
  have h: "sstp_state_handle_packet (ios_world env 2) ?s =
      map_option (Pair SSTP_OKAY) (ios_cbs env (ios_world env 1) evs ?s1)"
    using x s(3,4) e world_calls(2) [of env 1]
    by (cases "ios_cbs env (ios_world env 1) evs ?s1")
      (simp_all add: sstp_state_handle_packet_def sstp_state_handle_data_def numeral_2_eq_2 ios_forward_def)
  show ?thesis
    using s(1,2) h
    by (cases "ios_cbs env (ios_world env 1) evs ?s1")
      (simp_all add: ios_step_def sstp_state_recv_def reset_and_read_def more_data_def)
qed

section \<open>A session with a link\<close>

definition linked :: "('k, 'x) ios_env \<Rightarrow> 'k sstp_pppd \<Rightarrow> 'k ios \<Rightarrow> bool" where
  "linked env p s \<longleftrightarrow> rest_inv env s \<and> s_looping (sess s) \<and> s_state (sess s) \<and> forward_set s \<and> s_pppd (sess s) = Some p"

lemma linkedD:
  assumes "linked env p s"
  shows "ios_inv env False s" "jump s = None" "s_looping (sess s)" "s_state (sess s)" "forward_set s" "s_pppd (sess s) = Some p"
  using assms by (simp_all add: linked_def rest_inv_def)

text \<open>What the packets do not change.\<close>

definition kept :: "'k ios \<Rightarrow> 'k ios \<Rightarrow> bool" where
  "kept a b \<longleftrightarrow> s_sent (sess b) = s_sent (sess a) \<and> s_on_ready (sess b) = s_on_ready (sess a)
     \<and> s_password (sess b) = s_password (sess a) \<and> proto b = proto a \<and> nounce b = nounce a"

definition same_keys :: "'k ios \<Rightarrow> 'k ios \<Rightarrow> bool" where
  "same_keys a b \<longleftrightarrow> mppe_key_len b = mppe_key_len a \<and> mppe_send_key b = mppe_send_key a \<and> mppe_recv_key b = mppe_recv_key a"

lemma kept_trans: "kept a b \<Longrightarrow> kept b c \<Longrightarrow> kept a c"
  by (simp add: kept_def)

lemma same_keys_trans: "same_keys a b \<Longrightarrow> same_keys b c \<Longrightarrow> same_keys a c"
  by (simp add: same_keys_def)

lemma may_data:
  assumes "linked env p s" "length f \<le> 1419"
  shows "ios_may (Ev_state_recv (rx_with (data_pkt f)) SSTP_OKAY) s"
  using linkedD [OF assms(1)] rx_data [OF assms(2)] assms(2) by (simp add: ios_may_def sound_packet_def)

lemma step_rest:
  assumes "rest_inv env s" "ios_may ev s" "ios_step env ev s = Some s'"
  shows "rest_inv env s'"
  using session.step_safe [OF assms(1,2)] assms(3) by auto

lemma more_data_simps [simp]:
  "jump (more_data s) = jump s" "forward_set (more_data s) = forward_set s" "proto (more_data s) = proto s"
  "nounce (more_data s) = nounce s" "mppe_key_len (more_data s) = mppe_key_len s"
  "mppe_send_key (more_data s) = mppe_send_key s" "mppe_recv_key (more_data s) = mppe_recv_key s"
  "s_sent (sess (more_data s)) = s_sent (sess s)" "s_on_ready (sess (more_data s)) = s_on_ready (sess s)"
  "s_password (sess (more_data s)) = s_password (sess s)" "s_looping (sess (more_data s)) = s_looping (sess s)"
  "s_state (sess (more_data s)) = s_state (sess s)" "s_pppd (sess (more_data s)) = s_pppd (sess s)"
  "s_ready (sess (more_data s)) = s_ready (sess s)" "s_stage (sess (more_data s)) = s_stage (sess s)"
  "s_calls (sess (more_data s)) = s_calls (sess s)" "s_failed (sess (more_data s)) = s_failed (sess s)"
  by (simp_all add: more_data_def on_sess_def)

lemma land_None: "jump s = None \<Longrightarrow> land s = s"
  by (simp add: land_def)

text \<open>A frame without a call.\<close>

lemma quiet_step:
  assumes l: "linked env p s" and f: "length f \<le> 1419" "sstp_pppd_send (ppp env) f p = Some (r, p')" "evolves [] p p'"
  shows "\<exists>s'. ios_step env (Ev_state_recv (rx_with (data_pkt f)) SSTP_OKAY) s = Some s'
    \<and> linked env p' s' \<and> kept s s' \<and> same_keys s s'"
proof -
  note d = linkedD [OF l]
  let ?s = "more_data (s\<lparr>rx_buf := rx_with (data_pkt f), sess := (sess s)\<lparr>s_reading := False, s_pppd := Some p'\<rparr>\<rparr>)"
  have e: "ios_step env (Ev_state_recv (rx_with (data_pkt f)) SSTP_OKAY) s = Some ?s"
    using data_step [OF d(3,4,2,5,6) f] d(2) by (simp add: land_None)
  moreover have "rest_inv env ?s" using step_rest [OF _ may_data [OF l f(1)] e] l by (simp add: linked_def)
  ultimately show ?thesis using d by (simp add: linked_def kept_def same_keys_def)
qed

text \<open>The frame that ends with the keys.\<close>

lemma auth_step:
  assumes l: "linked env p s" and f: "length f \<le> 1419" "sstp_pppd_send (ppp env) f p = Some (r, p')" "evolves [SSTP_PPP_AUTH] p p'"
    and k: "sstp_chap_mppe_get (crypto (ppp env)) (chap p') (s_password (sess s)) False = (0, Some sk, Some rk)"
  shows "\<exists>s'. ios_step env (Ev_state_recv (rx_with (data_pkt f)) SSTP_OKAY) s = Some s'
    \<and> linked env (sstp_pppd_set_mppe_keys sk rk p') s' \<and> kept s s'
    \<and> mppe_key_len s' = 16 \<and> take 16 (mppe_send_key s') = sk \<and> take 16 (mppe_recv_key s') = rk"
proof -
  note d = linkedD [OF l]
  have wf: "wf_state s" "digest_lengths (crypto (ppp env))" using d(1) env_lengths by (auto simp: ios_inv_def)
  have kl: "length sk = 16" "length rk = 16" using mppe_get_lengths [OF k wf(2)] by simp_all
  define s1 where "s1 = s\<lparr>rx_buf := rx_with (data_pkt f), sess := (sess s)\<lparr>s_reading := False, s_pppd := Some p'\<rparr>\<rparr>"
  define t where "t = on_sess (sstp_ios_set_stage STAGE_PPP_AUTH) s1"
  have t: "jump s1 = None" "s_pppd (sess t) = Some p'" "s_password (sess t) = s_password (sess s)"
    using d(2) by (simp_all add: t_def s1_def on_sess_def sstp_ios_set_stage_def Let_def)
  define s2 where "s2 = on_sess (sstp_ios_set_stage STAGE_PPP_MPPE) t"
  have s2: "jump s2 = None" "s_pppd (sess s2) = Some p'" "mppe_send_key s2 = mppe_send_key s" "mppe_recv_key s2 = mppe_recv_key s"
    using d(2) by (simp_all add: s2_def t_def s1_def on_sess_def)
  have lk: "length (mppe_send_key s2) = 32" "length (mppe_recv_key s2) = 32" using wf(1) s2 by (simp_all add: wf_state_def)
  define s3 where "s3 = s2\<lparr>mppe_send_key := sk @ drop 16 (mppe_send_key s2), mppe_recv_key := rk @ drop 16 (mppe_recv_key s2), mppe_key_len := 16\<rparr>"
  have m: "sstp_state_mppe_keys sk rk 16 s2 = Some (SSTP_OKAY, s3)"
    using lk kl by (simp add: sstp_state_mppe_keys_def set_key_full Let_def s3_def)
  let ?s4 = "on_sess (\<lambda>c. c\<lparr>s_pppd := Some (sstp_pppd_set_mppe_keys sk rk p')\<rparr>) s3"
  have cb: "ios_pppd_cb env (ios_world env 1) SSTP_PPP_AUTH s1 = Some ?s4"
    using t k m by (simp add: ios_pppd_cb_def Let_def t_def [symmetric] s2_def [symmetric])
  have j: "jump ?s4 = None" using s2(1) by (simp add: s3_def)
  have e: "ios_step env (Ev_state_recv (rx_with (data_pkt f)) SSTP_OKAY) s = Some (more_data ?s4)"
    using data_step [OF d(3,4,2,5,6) f] cb j by (simp add: s1_def [symmetric] land_None)
  moreover have "rest_inv env (more_data ?s4)" using step_rest [OF _ may_data [OF l f(1)] e] l by (simp add: linked_def)
  moreover have "s_looping (sess ?s4)" "s_state (sess ?s4)" "forward_set ?s4" "kept s ?s4"
    using d by (simp_all add: s3_def s2_def t_def s1_def on_sess_def sstp_ios_set_stage_def Let_def kept_def)
  moreover have "s_pppd (sess ?s4) = Some (sstp_pppd_set_mppe_keys sk rk p')"
    "mppe_key_len ?s4 = 16" "take 16 (mppe_send_key ?s4) = sk" "take 16 (mppe_recv_key ?s4) = rk"
    using s2(1) kl by (simp_all add: s3_def on_sess_def)
  ultimately show ?thesis by (intro exI [of _ "more_data ?s4"]) (simp add: linked_def kept_def)
qed

text \<open>The frame that brings the link up.\<close>

lemma up_step:
  assumes l: "linked env p s" and f: "length f \<le> 1419" "sstp_pppd_send (ppp env) f p = Some (r, p')" "evolves [SSTP_PPP_UP] p p'"
    and h: "sstp_get_cert_hash (tls env) (proto s) 32 = Some (SSTP_OKAY, h)"
    and o: "send_ret env (length (s_sent (sess s))) = SSTP_OKAY"
    and n: "mppe_key_len s = 0 \<or> mppe_key_len s = 16"
  defines "mac \<equiv> spec_cmac (crypto (ppp env)) (SSTP_CMAC_SHA256 AND uint (hash_type (proto s)) \<noteq> 0) (hlak s)
      (connected_msg (hash_type (proto s)) (nounce s) h)"
  shows "\<exists>s'. ios_step env (Ev_state_recv (rx_with (data_pkt f)) SSTP_OKAY) s = Some s'
    \<and> rest_inv env s' \<and> s_looping (sess s') \<and> \<not> s_failed (sess s') \<and> s_ready (sess s') \<and> s_stage (sess s') = STAGE_APPLYING_SETTINGS
    \<and> s_sent (sess s') = s_sent (sess s) @ [(with_mac (connected_msg (hash_type (proto s)) (nounce s) h) mac, SSTP_OKAY)]
    \<and> (s_on_ready (sess s) \<longrightarrow> last (s_calls (sess s')) = ready_call p')
    \<and> s_pppd (sess s') = Some p'"
proof -
  note d = linkedD [OF l]
  define s1 where "s1 = s\<lparr>rx_buf := rx_with (data_pkt f), sess := (sess s)\<lparr>s_reading := False, s_pppd := Some p'\<rparr>\<rparr>"
  have s1: "jump s1 = None" "proto s1 = proto s" "nounce s1 = nounce s" "s_sent (sess s1) = s_sent (sess s)"
    "mppe_key_len s1 = mppe_key_len s" "hlak s1 = hlak s" "s_pppd (sess s1) = Some p'" "s_on_ready (sess s1) = s_on_ready (sess s)"
    "s_looping (sess s1)" "s_failed (sess s1) = s_failed (sess s)"
    using d(2,3) by (simp_all add: s1_def hlak_def)
  have wp: "wf_pppd p'"
    using pppd_send_total [OF session_pppd [OF d(1,6)] env_ppp [OF d(1)] f(1)] f(2) by auto
  have "ios_inv env False ((on_sess (\<lambda>c. c\<lparr>s_reading := False\<rparr>) s)\<lparr>rx_buf := rx_with (data_pkt f)\<rparr>)"
    using inv_on_sess [where f = "\<lambda>c. c\<lparr>s_reading := False\<rparr>", OF d(1)] rx_data(5) [OF f(1)]
    by (intro level.inv_rx) (simp_all add: reading_keeps)
  from inv_pppd [OF this wp] have i: "ios_inv env True s1"
    using d(2) by (simp add: s1_def on_sess_def)
  have nf: "\<not> s_failed (sess s)" using d(1,2) by (simp add: ios_inv_def)
  obtain s2 m where u: "ios_pppd_cb env (ios_world env 1) SSTP_PPP_UP s1 = Some s2"
    "s_sent (sess s2) = s_sent (sess s) @ [(with_mac (connected_msg (hash_type (proto s)) (nounce s) h) m, SSTP_OKAY)]"
    "m = mac" "jump s2 = None" "s_ready (sess s2)" "s_stage (sess s2) = STAGE_APPLYING_SETTINGS"
    "s_on_ready (sess s) \<longrightarrow> last (s_calls (sess s2)) = ready_call p'" "s_looping (sess s2)" "\<not> s_failed (sess s2)"
    "s_pppd (sess s2) = Some p'"
    using up_steps [of env s1 h 0] i h o n s1 nf by (auto simp: mac_def)
  have e: "ios_step env (Ev_state_recv (rx_with (data_pkt f)) SSTP_OKAY) s = Some (more_data s2)"
    using data_step [OF d(3,4,2,5,6) f] u(1,4) by (simp add: s1_def [symmetric] land_None)
  moreover have "rest_inv env (more_data s2)" using step_rest [OF _ may_data [OF l f(1)] e] l by (simp add: linked_def)
  ultimately show ?thesis using u(2-) by (intro exI [of _ "more_data s2"]) simp
qed

section \<open>The Connect-Ack\<close>

definition fresh_link :: "bytes \<Rightarrow> bytes \<Rightarrow> 'k sstp_pppd \<Rightarrow> bool" where
  "fresh_link u w p \<longleftrightarrow> notify_set p \<and> \<not> lcp_opened p \<and> \<not> auth_done p \<and> \<not> ccp_done p \<and> \<not> ip_configured p
     \<and> \<not> up_notified p \<and> \<not> mppe_keys_set p \<and> \<not> mppe_enabled p \<and> username p = take 255 u \<and> password p = take 255 w \<and> n_rand p = 0
     \<and> local_ip p = 0 \<and> peer_ip p = 0 \<and> dns1 p = 0 \<and> dns2 p = 0"

lemma start_link:
  assumes "sstp_pppd_create m True True r k1 k2 = (st, Some p)"
  shows "\<exists>p'. sstp_pppd_start env now (Some u) (Some w) (sstp_pppd_set_ip_handler True p) = Some (SSTP_OKAY, p')
    \<and> evolves [SSTP_PPP_START] (sstp_pppd_set_ip_handler True p) p' \<and> fresh_link u w p'"
proof -
  define q where "q = sstp_pppd_set_ip_handler True p"
  define c where "c = q\<lparr>username := take 255 u, password := take 255 w, t_start := now, started := True\<rparr>"
  have f: "fresh_link u w c" "notify_set q"
    using assms by (auto simp: q_def c_def sstp_pppd_set_ip_handler_def sstp_pppd_create_def fresh_link_def split: if_splits)
  obtain p' where p': "send_lcp_confreq env (notify SSTP_PPP_START c) = Some p'"
    "core p' = core ((notify SSTP_PPP_START c)\<lparr>lcp_id := lcp_id (notify SSTP_PPP_START c) + 1\<rparr>)"
    "evolves [] (notify SSTP_PPP_START c) p'" using send_lcp_core by blast
  have k: "core p' = core (c\<lparr>lcp_id := lcp_id (notify SSTP_PPP_START c) + 1\<rparr>)" using p'(2) by (simp add: core_upd)
  have "fresh_link u w p'" using f(1) by (simp add: fresh_link_def core_eqD [OF k])
  moreover have "evolves [SSTP_PPP_START] q p'"
    using p'(3) f(2) by (auto simp: evolves_def notify_def act_def c_def signals_def delivered_def)
  moreover have "sstp_pppd_start env now (Some u) (Some w) q = Some (SSTP_OKAY, p')"
    using p'(1) by (simp add: sstp_pppd_start_def c_def)
  ultimately show ?thesis by (auto simp: q_def)
qed

lemma sound_connect_ack: "length d = 36 \<Longrightarrow> sound_packet 1419 (s\<lparr>rx_buf := rx_with (connect_ack d)\<rparr>)"
  by (simp add: sound_packet_def sstp_pkt_type_def connect_ack_def rx_with_def enc_ctrl_def enc_attrs_def enc_attr_def
      rd_def rd16_def be16_def un16_def pkt_consts length_enc_attr SSTP_MSG_FLAG_CTRL_def)

lemma ack_step:
  fixes s :: "'k ios"
  assumes s: "rest_inv env s" "s_looping (sess s)" "s_state (sess s)" and m: "pppd_mem env"
    and d: "length d = 36" "mppe_key_len s = 0"
  shows "\<exists>p s'. ios_step env (Ev_state_recv (rx_with (connect_ack d)) SSTP_OKAY) s = Some s'
    \<and> ios_may (Ev_state_recv (rx_with (connect_ack d)) SSTP_OKAY) s
    \<and> linked env p s' \<and> fresh_link (s_user (sess s)) (s_password (sess s)) p
    \<and> proto s' = uint (d ! 3) \<and> nounce s' = drop 4 d \<and> mppe_key_len s' = 0
    \<and> s_sent (sess s') = s_sent (sess s) \<and> s_on_ready (sess s') = s_on_ready (sess s) \<and> s_password (sess s') = s_password (sess s)"
proof -
  have i: "ios_inv env False s" "jump s = None" using s by (simp_all add: rest_inv_def)
  have l: "length (connect_ack d) \<le> 16384" using d by (simp add: connect_ack_def length_enc_ctrl enc_attrs_def length_enc_attr)
  have h: "holds (rx_with (connect_ack d)) (connect_ack d)" by (rule holds_rx_with [OF l])
  define s1 where "s1 = s\<lparr>rx_buf := rx_with (connect_ack d), sess := (sess s)\<lparr>s_reading := False\<rparr>\<rparr>"
  have wf: "wf_state s1" using i(1) h by (simp add: ios_inv_def s1_def wf_state_def holds_def)
  have co: "content (rx_buf s1) = enc_ctrl SSTP_MSG_CONNECT_ACK [(SSTP_ATTR_CRYPTO_BIND_REQ, d)]"
    using h by (simp add: s1_def holds_def connect_ack_def)
  define s2 where "s2 = s1\<lparr>rx_buf := (rx_buf s1)\<lparr>b_off := int (length d) + 4\<rparr>, proto := uint (d ! 3), nounce := drop 4 d\<rparr>"
  have r: "sstp_state_recv (ios_world env 2) SSTP_OKAY s1 =
      ios_state_cb env (ios_world env 1) SSTP_CALL_CONNECT s2 \<bind> (\<lambda>(ret, c). reset_and_read (ios_world env 2) ret c)"
    using connect_ack_received [OF wf co, of "ios_world env 2"] d(1) world_calls(1) [of env 1]
    by (simp add: s2_def numeral_2_eq_2)
  obtain p0 where p0: "sstp_pppd_create (pppd_mem env) True True (pppd_random env) (fst (pppd_keys env)) (snd (pppd_keys env)) = (SSTP_OKAY, Some p0)"
    using m by (simp add: sstp_pppd_create_def)
  let ?q = "sstp_pppd_set_ip_handler True p0"
  obtain p where p: "sstp_pppd_start (ppp env) (clock env) (Some (s_user (sess s))) (Some (s_password (sess s))) ?q = Some (SSTP_OKAY, p)"
    "evolves [SSTP_PPP_START] ?q p" "fresh_link (s_user (sess s)) (s_password (sess s)) p"
    using start_link [OF p0] by blast
  obtain new where new: "trace p = trace ?q @ new" "signals new = [SSTP_PPP_START]" "delivered new = []"
    using p(2) by (auto simp: evolves_def)
  define t where "t = on_sess (sstp_ios_set_stage STAGE_PPP_LCP) s2"
  have t: "jump t = None" "s_user (sess t) = s_user (sess s)" "s_password (sess t) = s_password (sess s)" "jump s2 = None"
    using i(2) by (simp_all add: t_def s2_def s1_def on_sess_def sstp_ios_set_stage_def Let_def)
  define t2 where "t2 = t\<lparr>sess := (sess t)\<lparr>s_pppd := Some p\<rparr>\<rparr>"
  define t3 where "t3 = on_sess (\<lambda>c. c\<lparr>s_reading := True\<rparr>) (on_sess (sstp_ios_set_stage STAGE_PPP_LCP) t2)"
  have st: "ios_pppd_cb env (ios_world env 1) SSTP_PPP_START t2 = Some t3"
    using t by (simp add: ios_pppd_cb_def sstp_state_resume_recv_def t3_def t2_def)
  have w: "with_pppd env (ios_world env 1)
      (sstp_pppd_start (ppp env) (clock env) (Some (s_user (sess s))) (Some (s_password (sess s))))
      (t\<lparr>sess := (sess t)\<lparr>s_pppd := Some ?q\<rparr>\<rparr>) = Some (SSTP_OKAY, t3)"
    using p(1) new calls_cbs [OF new(3), of env "ios_world env 1" t2] st by (simp add: with_pppd_def t2_def)
  have cb: "ios_state_cb env (ios_world env 1) SSTP_CALL_CONNECT s2 = Some (SSTP_OKAY, t3\<lparr>forward_set := True\<rparr>)"
    using t p0 w by (simp add: ios_state_cb_def Let_def t_def [symmetric] sstp_state_set_forward_def)
  have t3: "jump t3 = None" "s_looping (sess t3)" "s_state (sess t3)" "s_pppd (sess t3) = Some p"
    "proto t3 = uint (d ! 3)" "nounce t3 = drop 4 d" "mppe_key_len t3 = 0" "s_sent (sess t3) = s_sent (sess s)"
    "s_on_ready (sess t3) = s_on_ready (sess s)" "s_password (sess t3) = s_password (sess s)"
    using i(2) s(2,3) d(2) by (simp_all add: t3_def t2_def t_def s2_def s1_def on_sess_def sstp_ios_set_stage_def Let_def)
  let ?s' = "more_data (t3\<lparr>forward_set := True\<rparr>)"
  have e: "ios_step env (Ev_state_recv (rx_with (connect_ack d)) SSTP_OKAY) s = Some ?s'"
    using s(2,3) r cb t3(1) by (simp add: ios_step_def s1_def [symmetric] reset_and_read_def more_data_def land_def)
  have may: "ios_may (Ev_state_recv (rx_with (connect_ack d)) SSTP_OKAY) s"
    using s(3) h by (simp add: ios_may_def holds_def sound_connect_ack d(1))
  have "rest_inv env ?s'" by (rule step_rest [OF s(1) may e])
  then show ?thesis using e may t3 p(3) by (intro exI [of _ p] exI [of _ ?s']) (simp add: linked_def)
qed

section \<open>The negotiation\<close>

definition frame_ev :: "u16 \<Rightarrow> bytes \<Rightarrow> ios_event" where
  "frame_ev pid f = Ev_state_recv (rx_with (data_pkt (ppp_frame pid f))) SSTP_OKAY"

lemma length_frame: "length (ppp_frame pid f) = length f + 4"
  by (simp add: ppp_frame_def be16_def)

lemma core_keys: "core (sstp_pppd_set_mppe_keys sk rk p) = sstp_pppd_set_mppe_keys sk rk (core p)"
  by (simp add: core_def sstp_pppd_set_mppe_keys_def)

text \<open>LCP: the server's request, and its answer to the client's.\<close>

definition lcp_events :: "u8 \<Rightarrow> bytes \<Rightarrow> u8 \<Rightarrow> ios_event list" where
  "lcp_events i opts j = [frame_ev PPP_PROTO_LCP (confreq i opts), frame_ev PPP_PROTO_LCP (bare_conf 2 j)]"

lemma lcp_run:
  assumes l: "linked env p s" and o: "length opts \<le> 252"
  shows "\<exists>p' s' n. run_steps (ios_step env) (lcp_events i opts j) s = Some s' \<and> linked env p' s' \<and> kept s s' \<and> same_keys s s'
    \<and> core p' = core (p\<lparr>lcp_opened := True, lcp_id := n\<rparr>)"
proof -
  obtain p1 where p1: "handle_lcp (ppp env) (confreq i opts) p = Some p1" "evolves [] p p1"
    "core p1 = core (p\<lparr>lcp_id := (if lcp_opened p then lcp_id p else lcp_id p + 1)\<rparr>)"
    using lcp_request [OF o] by blast
  have ne: "confreq i opts \<noteq> []" "bare_conf 2 j \<noteq> []" by (simp_all add: confreq_def bare_conf_def)
  have s1: "sstp_pppd_send (ppp env) (ppp_frame PPP_PROTO_LCP (confreq i opts)) p = Some (SSTP_OKAY, p1)"
    by (simp add: send_lcp [OF ne(1)] p1(1))
  have l1: "length (ppp_frame PPP_PROTO_LCP (confreq i opts)) \<le> 1419" using o by (simp add: length_frame confreq_def be16_def)
  obtain t where t: "ios_step env (frame_ev PPP_PROTO_LCP (confreq i opts)) s = Some t"
    "linked env p1 t" "kept s t" "same_keys s t"
    using quiet_step [OF l l1 s1 p1(2)] unfolding frame_ev_def by blast
  have s2: "sstp_pppd_send (ppp env) (ppp_frame PPP_PROTO_LCP (bare_conf 2 j)) p1 = Some (SSTP_OKAY, p1\<lparr>lcp_opened := True\<rparr>)"
    by (simp add: send_lcp [OF ne(2)] lcp_ack)
  have l2: "length (ppp_frame PPP_PROTO_LCP (bare_conf 2 j)) \<le> 1419" by (simp add: length_frame bare_conf_def)
  have e2: "evolves [] p1 (p1\<lparr>lcp_opened := True\<rparr>)" by (simp add: evolves_def)
  obtain u where u: "ios_step env (frame_ev PPP_PROTO_LCP (bare_conf 2 j)) t = Some u"
    "linked env (p1\<lparr>lcp_opened := True\<rparr>) u" "kept t u" "same_keys t u"
    using quiet_step [OF t(2) l2 s2 e2] unfolding frame_ev_def by blast
  have "core (p1\<lparr>lcp_opened := True\<rparr>) = core (p\<lparr>lcp_opened := True, lcp_id := lcp_id p1\<rparr>)"
    using p1(3) core_eqD(7) [OF p1(3)] by (simp add: core_upd)
  then show ?thesis
    using t(1,3,4) u kept_trans [OF t(3) u(3)] same_keys_trans [OF t(4) u(4)]
    by (intro exI [of _ "p1\<lparr>lcp_opened := True\<rparr>"] exI [of _ u] exI [of _ "lcp_id p1"]) (simp add: lcp_events_def)
qed

text \<open>MS-CHAPv2: the challenge, after which the client has its keys, and the success.\<close>

definition chap_events :: "u8 \<Rightarrow> bytes \<Rightarrow> bytes \<Rightarrow> u8 \<Rightarrow> bytes \<Rightarrow> ios_event list" where
  "chap_events i ch name j body = [frame_ev PPP_PROTO_CHAP (challenge_pkt i ch name), frame_ev PPP_PROTO_CHAP ([3, j] @ body)]"

definition link_response :: "('k, 'e) ppp_env_scheme \<Rightarrow> bytes \<Rightarrow> 'k sstp_pppd \<Rightarrow> bytes" where
  "link_response env ch p = sstp_mschapv2_generate_nt_response (crypto env) ch (rand16 env (n_rand p)) (username p) (password p)"

definition link_master :: "('k, 'e) ppp_env_scheme \<Rightarrow> bytes \<Rightarrow> bytes \<Rightarrow> bytes" where
  "link_master env pw ntr = GetMasterKey (crypto env) (MD4 (crypto env) (MD4 (crypto env) (concat (map (\<lambda>c. [c, 0]) pw)))) ntr"

lemma chap_run:
  assumes l: "linked env p s" and n: "notify_set p"
    and h: "have_md4 (crypto (ppp env))" "have_sha1 (crypto (ppp env))"
    and pw: "length (s_password (sess s)) \<le> 255"
    and ch: "length ch = 16" "length name \<le> 200" and body: "3 \<le> length body" "length body \<le> 1000"
  defines "m \<equiv> link_master (ppp env) (s_password (sess s)) (link_response (ppp env) ch p)"
  defines "sk \<equiv> GetAsymmetricStartKey (crypto (ppp env)) m True False"
  defines "rk \<equiv> GetAsymmetricStartKey (crypto (ppp env)) m False False"
  shows "\<exists>p' s' x. run_steps (ios_step env) (chap_events i ch name j body) s = Some s' \<and> linked env p' s' \<and> kept s s'
    \<and> mppe_key_len s' = 16 \<and> hlak s' = sk @ rk
    \<and> core p' = core ((sstp_pppd_set_mppe_keys sk rk p)\<lparr>auth_done := True, chap := x, chap_id := i,
        n_rand := n_rand p + 1, ccp_id := ccp_id p + 1\<rparr>)"
proof -
  note d = linkedD [OF l]
  have dl: "digest_lengths (crypto (ppp env))" using d(1) by (rule env_lengths)
  let ?ntr = "link_response (ppp env) ch p"
  let ?chap = "\<lparr>challenge = rand16 (ppp env) (n_rand p), response = replicate 8 0, nt_response = ?ntr, chap_flags = 0\<rparr>"
  obtain p1 where p1: "handle_chap (ppp env) (challenge_pkt i ch name) p = Some p1" "evolves [SSTP_PPP_AUTH] p p1"
    "core p1 = core (p\<lparr>chap_id := i, n_rand := n_rand p + 1, chap := ?chap\<rparr>)"
    using chap_challenge [OF ch n, of "ppp env" i] unfolding link_response_def by blast
  have ne: "challenge_pkt i ch name \<noteq> []" "[3, j] @ body \<noteq> []" by (simp_all add: challenge_pkt_def)
  have s1: "sstp_pppd_send (ppp env) (ppp_frame PPP_PROTO_CHAP (challenge_pkt i ch name)) p = Some (SSTP_OKAY, p1)"
    by (simp add: send_chap [OF ne(1)] p1(1))
  have l1: "length (ppp_frame PPP_PROTO_CHAP (challenge_pkt i ch name)) \<le> 1419"
    using ch by (simp add: length_frame challenge_pkt_def be16_def)
  have c1: "chap p1 = ?chap" using core_eqD(4) [OF p1(3)] by simp
  have "length ?ntr = 24" by (simp add: link_response_def length_nt_response dl)
  then have k: "sstp_chap_mppe_get (crypto (ppp env)) (chap p1) (s_password (sess s)) False = (0, Some sk, Some rk)"
    using mppe_get_keys [OF dl h _ pw, of "chap p1"] c1 by (simp add: sk_def rk_def m_def link_master_def Let_def)
  obtain t where t: "ios_step env (frame_ev PPP_PROTO_CHAP (challenge_pkt i ch name)) s = Some t"
    "linked env (sstp_pppd_set_mppe_keys sk rk p1) t" "kept s t" "mppe_key_len t = 16"
    "take 16 (mppe_send_key t) = sk" "take 16 (mppe_recv_key t) = rk"
    using auth_step [OF l l1 s1 p1(2) k] unfolding frame_ev_def by blast
  let ?q = "sstp_pppd_set_mppe_keys sk rk p1"
  obtain p2 where p2: "handle_chap (ppp env) ([3, j] @ body) ?q = Some p2" "evolves [] ?q p2"
    "core p2 = core (?q\<lparr>auth_done := True, ccp_id := ccp_id ?q + 1\<rparr>)"
    using chap_success [OF body(1)] by blast
  have s2: "sstp_pppd_send (ppp env) (ppp_frame PPP_PROTO_CHAP ([3, j] @ body)) ?q = Some (SSTP_OKAY, p2)"
    by (simp only: send_chap [OF ne(2)] p2(1) option.map)
  have l2: "length (ppp_frame PPP_PROTO_CHAP ([3, j] @ body)) \<le> 1419" using body by (simp add: length_frame)
  obtain u where u: "ios_step env (frame_ev PPP_PROTO_CHAP ([3, j] @ body)) t = Some u"
    "linked env p2 u" "kept t u" "same_keys t u"
    using quiet_step [OF t(2) l2 s2 p2(2)] unfolding frame_ev_def by blast
  have cc: "ccp_id ?q = ccp_id p" using core_eqD(10) [OF p1(3)] by (simp add: sstp_pppd_set_mppe_keys_def)
  have "core ?q = sstp_pppd_set_mppe_keys sk rk (core (p\<lparr>chap_id := i, n_rand := n_rand p + 1, chap := ?chap\<rparr>))"
    by (simp only: core_keys p1(3))
  then have "core p2 = core ((sstp_pppd_set_mppe_keys sk rk p)\<lparr>auth_done := True, chap := ?chap, chap_id := i,
        n_rand := n_rand p + 1, ccp_id := ccp_id p + 1\<rparr>)"
    using p2(3) cc by (simp add: core_upd core_keys) (simp add: core_def sstp_pppd_set_mppe_keys_def)
  moreover have "mppe_key_len u = 16" "hlak u = sk @ rk" using t(4-6) u(4) by (simp_all add: same_keys_def hlak_def)
  ultimately show ?thesis
    using t(1) u(1,2) kept_trans [OF t(3) u(3)]
    by (intro exI [of _ p2] exI [of _ u] exI [of _ ?chap]) (simp add: chap_events_def)
qed

lemma init_keys_fields:
  "mppe_enabled (mppe_init_keys env p) = (mppe_enabled p \<or> mppe_keys_set p)"
  "peer_ip (mppe_init_keys env p) = peer_ip p" "dns1 (mppe_init_keys env p) = dns1 p" "dns2 (mppe_init_keys env p) = dns2 p"
  by (auto simp: mppe_init_keys_def Let_def split: prod.split)

lemma conf_bytes: "bare_conf code i \<noteq> []" "addr_conf code i a \<noteq> []"
  by (simp_all add: bare_conf_def addr_conf_def)

lemma ccp_step:
  assumes l: "linked env p s" and n: "\<not> ccp_done p" "\<not> ip_configured p"
  shows "\<exists>p' s'. ios_step env (frame_ev PPP_PROTO_CCP (bare_conf 2 i)) s = Some s' \<and> linked env p' s' \<and> kept s s' \<and> same_keys s s'
    \<and> ccp_done p' \<and> up_notified p' = up_notified p \<and> auth_done p' = auth_done p
    \<and> mppe_enabled p' = (mppe_enabled p \<or> mppe_keys_set p) \<and> peer_ip p' = peer_ip p \<and> dns1 p' = dns1 p \<and> dns2 p' = dns2 p
    \<and> notify_set p' = notify_set p"
proof -
  define q where "q = (if auth_done p then (mppe_init_keys (ppp env) p)\<lparr>ccp_done := True, ipcp_id := ipcp_id p + 1\<rparr>
         else (mppe_init_keys (ppp env) p)\<lparr>ccp_done := True\<rparr>)"
  obtain p' where p': "handle_ccp (ppp env) (bare_conf 2 i) p = Some p'" "evolves [] p p'" "core p' = core q"
    using ccp_ack [OF n] unfolding q_def by blast
  have s: "sstp_pppd_send (ppp env) (ppp_frame PPP_PROTO_CCP (bare_conf 2 i)) p = Some (SSTP_OKAY, p')"
    by (simp only: send_ccp [OF conf_bytes(1)] p'(1) option.map)
  have f: "length (ppp_frame PPP_PROTO_CCP (bare_conf 2 i)) \<le> 1419" by (simp add: length_frame bare_conf_def)
  have "ccp_done p'" "up_notified p' = up_notified p" "auth_done p' = auth_done p"
    "mppe_enabled p' = (mppe_enabled p \<or> mppe_keys_set p)" "peer_ip p' = peer_ip p" "dns1 p' = dns1 p" "dns2 p' = dns2 p" "notify_set p' = notify_set p"
    using core_eqD [OF p'(3)] by (simp_all add: q_def init_keys_fields)
  then show ?thesis using quiet_step [OF l f s p'(2)] unfolding frame_ev_def by blast
qed

lemma nak_step:
  assumes l: "linked env p s" and n: "ccp_done p"
  shows "\<exists>p' s'. ios_step env (frame_ev PPP_PROTO_IPCP (addr_conf 3 i a)) s = Some s' \<and> linked env p' s' \<and> kept s s' \<and> same_keys s s'
    \<and> core p' = core (p\<lparr>local_ip := a, ipcp_id := ipcp_id p + 1\<rparr>)"
proof -
  obtain p' where p': "handle_ipcp (ppp env) (addr_conf 3 i a) p = Some p'" "evolves [] p p'"
    "core p' = core (p\<lparr>local_ip := a, ipcp_id := ipcp_id p + 1\<rparr>)"
    using ipcp_nak [OF n] by blast
  have s: "sstp_pppd_send (ppp env) (ppp_frame PPP_PROTO_IPCP (addr_conf 3 i a)) p = Some (SSTP_OKAY, p')"
    by (simp only: send_ipcp [OF conf_bytes(2)] p'(1) option.map)
  have f: "length (ppp_frame PPP_PROTO_IPCP (addr_conf 3 i a)) \<le> 1419" by (simp add: length_frame addr_conf_def be32_def)
  show ?thesis using quiet_step [OF l f s p'(2)] p'(3) unfolding frame_ev_def by blast
qed

definition bound_msg :: "('k, 'x) ios_env \<Rightarrow> bytes \<Rightarrow> bytes \<Rightarrow> bytes \<Rightarrow> bytes" where
  "bound_msg env d h key =
     (let m = connected_msg (hash_type (uint (d ! 3))) (drop 4 d) h in
      with_mac m (spec_cmac (crypto (ppp env)) (hash_type (uint (d ! 3)) = SSTP_PROTO_HASH_SHA256) key m))"

lemma up_last:
  assumes l: "linked env p s" and n: "ccp_done p" "\<not> up_notified p" "a \<noteq> 0" "notify_set p"
    and d: "proto s = uint (d ! 3)" "nounce s = drop 4 d"
    and h: "sstp_get_cert_hash (tls env) (proto s) 32 = Some (SSTP_OKAY, h)"
    and o: "send_ret env (length (s_sent (sess s))) = SSTP_OKAY"
    and k: "mppe_key_len s = 0 \<or> mppe_key_len s = 16"
  shows "\<exists>s'. ios_step env (frame_ev PPP_PROTO_IPCP (addr_conf 2 i a)) s = Some s' \<and> s_looping (sess s') \<and> \<not> s_failed (sess s') 
    \<and> s_ready (sess s') \<and> s_stage (sess s') = STAGE_APPLYING_SETTINGS
    \<and> s_sent (sess s') = s_sent (sess s) @ [(bound_msg env d h (hlak s), SSTP_OKAY)]
    \<and> (s_on_ready (sess s) \<longrightarrow> last (s_calls (sess s')) = ready_call (p\<lparr>local_ip := a\<rparr>))
    \<and> (\<exists>q. s_pppd (sess s') = Some q \<and> auth_done q = auth_done p \<and> mppe_enabled q = mppe_enabled p)"
proof -
  define q where "q = notify SSTP_PPP_UP (p\<lparr>local_ip := a, ip_configured := True, up_notified := True\<rparr>)"
  have s: "sstp_pppd_send (ppp env) (ppp_frame PPP_PROTO_IPCP (addr_conf 2 i a)) p = Some (SSTP_OKAY, q)"
    by (simp only: send_ipcp [OF conf_bytes(2)] ipcp_ack [OF n(1-3)] option.map q_def)
  have f: "length (ppp_frame PPP_PROTO_IPCP (addr_conf 2 i a)) \<le> 1419" by (simp add: length_frame addr_conf_def be32_def)
  have e: "evolves [SSTP_PPP_UP] p q" using n(4) by (simp add: evolves_def q_def notify_def act_def signals_def delivered_def)
  have q: "ready_call q = ready_call (p\<lparr>local_ip := a\<rparr>)" "auth_done q = auth_done p" "mppe_enabled q = mppe_enabled p"
    by (simp_all add: q_def ready_call_def sstp_pppd_get_ipv4_def notify_def act_def)
  obtain s' where s': "ios_step env (frame_ev PPP_PROTO_IPCP (addr_conf 2 i a)) s = Some s'" "s_looping (sess s')"
    "\<not> s_failed (sess s')" "s_ready (sess s')" "s_stage (sess s') = STAGE_APPLYING_SETTINGS" "s_pppd (sess s') = Some q"
    "s_on_ready (sess s) \<longrightarrow> last (s_calls (sess s')) = ready_call q"
    "s_sent (sess s') = s_sent (sess s) @ [(with_mac (connected_msg (hash_type (proto s)) (nounce s) h)
       (spec_cmac (crypto (ppp env)) (SSTP_CMAC_SHA256 AND uint (hash_type (proto s)) \<noteq> 0) (hlak s)
          (connected_msg (hash_type (proto s)) (nounce s) h)), SSTP_OKAY)]"
    using up_step [OF l f s e h o k] unfolding frame_ev_def by blast
  have "s_sent (sess s') = s_sent (sess s) @ [(bound_msg env d h (hlak s), SSTP_OKAY)]"
    unfolding s'(8) bound_msg_def Let_def hash_type_sha256 d ..
  then show ?thesis using s'(1-7) q by simp
qed

end
