(* ===== verification/IosEdges.thy ===== *)
theory IosEdges
  imports IosRun
begin

text \<open>
  Two edges of the iOS session: the packets another thread injects through a socket pair, what the
  reader finds of what the writer wrote, and what it finds when it comes between the two writes;
  and the pin of the server's certificate, which the client checks twice in two ways.
\<close>

section \<open>Injection\<close>

text \<open>A packet as \<open>sstp_ios_session_write_ip\<close> writes it.\<close>

definition inject_frame :: "bytes \<Rightarrow> bytes" where
  "inject_frame p = be32 (of_nat (length p)) @ p"

lemma inject_len_be32: "n < 2 ^ 32 \<Longrightarrow> inject_len (be32 (of_nat n) @ r) = n"
  by (simp add: inject_len_def be32_def take_bit_nat_eq_self unat_of_nat)

lemma inject_loop_frame:
  assumes "p \<noteq> []" "length p \<le> 2048"
  shows "inject_loop (inject_frame p @ q) = p # inject_loop q"
  using assms inject_len_be32 [of "length p" "p @ q"]
  by (subst inject_loop.simps) (simp add: inject_frame_def Let_def)

lemma inject_loop_frames: "list_all (\<lambda>p. p \<noteq> [] \<and> length p \<le> 2048) ps \<Longrightarrow> inject_loop (concat (map inject_frame ps)) = ps"
  by (induction ps) (simp add: inject_loop.simps, simp add: inject_loop_frame)

lemma inject_short: "length q < 4 \<Longrightarrow> inject_loop q = []"
  by (simp add: inject_loop.simps)

lemma write_all:
  "s_ready c \<Longrightarrow> s_inject c = Some q \<Longrightarrow> list_all (\<lambda>p. p \<noteq> [] \<and> length p \<le> 2000) ps \<Longrightarrow>
    foldl (\<lambda>c p. snd (sstp_ios_session_write_ip 4 (length p) p c)) c ps = c\<lparr>s_inject := Some (q @ concat (map inject_frame ps))\<rparr>"
proof (induction ps arbitrary: c q)
  case (Cons p ps)
  have "snd (sstp_ios_session_write_ip 4 (length p) p c) = c\<lparr>s_inject := Some (q @ inject_frame p)\<rparr>"
    using Cons.prems by (simp add: sstp_ios_session_write_ip_def Let_def inject_frame_def)
  then show ?case using Cons.IH [of "c\<lparr>s_inject := Some (q @ inject_frame p)\<rparr>" "q @ inject_frame p"] Cons.prems by simp
qed simp

text \<open>C24. Packets written by the other thread arrive: any packets of 1 to 2000 bytes that the socket
  takes are handed to PPP by one run of the inject callback, all of them, unchanged and in
  order, and the socket is empty afterwards.\<close>

theorem inject_roundtrip:
  assumes "s_ready (sess s)" "s_inject (sess s) = Some []" "list_all (\<lambda>p. p \<noteq> [] \<and> length p \<le> 2000) ps"
  defines "c \<equiv> foldl (\<lambda>c p. snd (sstp_ios_session_write_ip 4 (length p) p c)) (sess s) ps"
  shows "ios_inject_cb env w (s\<lparr>sess := c\<rparr>) = inject_sends env w ps (s\<lparr>sess := (sess s)\<lparr>s_inject := Some []\<rparr>\<rparr>)"
proof -
  have "list_all (\<lambda>p. p \<noteq> [] \<and> length p \<le> 2048) ps" using assms(3) by (auto simp: list_all_iff)
  then show ?thesis
    using write_all [OF assms(1-3)] unfolding c_def [symmetric]
    by (simp add: ios_inject_cb_def inject_loop_frames)
qed

lemma inject_roundtrip_witness:
  "ios_inject_cb demo_ios (ios_world demo_ios 2) ((ios_boot (demo_session\<lparr>s_ready := True\<rparr>))
     \<lparr>sess := foldl (\<lambda>c p. snd (sstp_ios_session_write_ip 4 (length p) p c)) (demo_session\<lparr>s_ready := True\<rparr>) [[0x45, 1], [0x45]]\<rparr>)
   = inject_sends demo_ios (ios_world demo_ios 2) [[0x45, 1], [0x45]]
     ((ios_boot (demo_session\<lparr>s_ready := True\<rparr>))\<lparr>sess := demo_session\<lparr>s_ready := True, s_inject := Some []\<rparr>\<rparr>)"
  using inject_roundtrip [of "ios_boot (demo_session\<lparr>s_ready := True\<rparr>)" "[[0x45, 1], [0x45]]" demo_ios "ios_world demo_ios 2"]
    demo_session_ready by (simp add: ios_boot_def)

text \<open>The reader and the writer of the injection are not in step: the writer sends length and
  packet in two writes, and if the reader runs in between, it drops the length; it then takes
  the packet itself for the length of a frame: for a packet that begins with a byte that is not
  zero, as every IP header does, it skips four bytes and reads on inside the packet.\<close>

theorem inject_race:
  assumes "s_inject (sess s) = Some []" "s_ready (sess s)" "length p \<le> 2000"
    and "p = a # b # d # e # p'" "a \<noteq> 0"
  shows "s_inject (snd (sstp_ios_session_write_ip 4 0 p (sess s))) = Some (be32 (of_nat (length p)))
    \<and> inject_loop (be32 (of_nat (length p))) = []
    \<and> inject_loop (p @ q) = inject_loop (p' @ q)"
proof -
  have n: "0 < length p" "length p < 2 ^ 32" using assms(3,4) by simp_all
  have 1: "inject_loop (be32 (of_nat (length p))) = []"
    using inject_len_be32 [OF n(2), of "[]"] n(1) by (subst inject_loop.simps) (simp add: Let_def inject_short)
  have "push_bit 24 (ucast a :: u32) \<noteq> 0"
  proof
    assume z: "push_bit 24 (ucast a :: u32) = 0"
    have "a = 0"
    proof (rule bit_word_eqI)
      fix k assume k: "k < LENGTH(8)"
      have "\<not> bit (push_bit 24 (ucast a :: u32)) (24 + k)" by (simp add: z)
      then show "bit a k = bit 0 k" using k by (simp add: bit_simps)
    qed
    then show False using assms(5) by simp
  qed
  have big: "2048 < inject_len (p @ q)"
  proof -
    obtain k where k: "k < 8" "bit a k" using assms(5) by (auto simp: bit_eq_iff bit_simps)
    have "bit (un32 a b d e) (24 + k)" using k by (simp add: un32_def bit_simps)
    then have "bit (unat (un32 a b d e)) (24 + k)" by (simp add: bit_unsigned_iff)
    then have "2 ^ (24 + k) \<le> unat (un32 a b d e)"
      by (metis bit_iff_odd div_less even_zero not_le)
    moreover have "(2048::nat) < 2 ^ (24 + k)" by (rule less_le_trans [of _ "2 ^ 24"]) (simp, rule power_increasing, simp_all)
    ultimately show ?thesis by (simp add: inject_len_def assms(4))
  qed
  have 2: "inject_loop (p @ q) = inject_loop (p' @ q)"
    using big by (subst inject_loop.simps) (simp add: Let_def assms(4))
  show ?thesis using assms(1-3) n(1) 1 2
    by (simp add: sstp_ios_session_write_ip_def Let_def assms(4))
qed

lemma inject_race_witness:
  "inject_loop ([0x45, 1, 2, 3] @ [0, 0, 0, 1, 9]) = inject_loop [0, 0, 0, 1, 9]"
  using inject_race [of "ios_boot (demo_session\<lparr>s_ready := True\<rparr>)" "[0x45, 1, 2, 3]" "0x45" 1 2 3 "[]" "[0, 0, 0, 1, 9]"]
    demo_session_ready by (simp add: ios_boot_def)


section \<open>The pin\<close>

lemma of_char_less: "(of_char c :: nat) < 256"
  by simp

lemma nibble_iff:
  assumes "n < 16"
  shows "ios_hex_nibble c = int n \<longleftrightarrow> lower (of_nat (of_char c)) = lower (of_nat (of_char (nibble_char n)))"
proof -
  define m where "m = (of_char c :: nat)"
  have m: "m < 256" by (simp add: m_def)
  have nc: "(of_char (nibble_char n) :: nat) = (if n < 10 then 48 + n else 87 + n)"
    using assms by (simp add: nibble_char_def)
  have l: "unat (lower (of_nat k :: u8)) = (if 65 \<le> k \<and> k \<le> 90 then k + 32 else k)" if "k < 256" for k
  proof -
    have u: "unat (of_nat k :: u8) = k" using that by (simp add: unat_of_nat take_bit_nat_eq_self)
    have i: "(65 \<le> (of_nat k :: u8)) = (65 \<le> k)" "((of_nat k :: u8) \<le> 90) = (k \<le> 90)"
      by (simp_all add: word_le_nat_alt u)
    have "unat ((of_nat k :: u8) + 32) = k + 32" if "k \<le> 90"
      using unat_add_lem [of "of_nat k :: u8" 32] u that by simp
    then show ?thesis using u i by (simp add: lower_def)
  qed
  have "lower (of_nat m :: u8) = lower (of_nat (if n < 10 then 48 + n else 87 + n)) \<longleftrightarrow>
      unat (lower (of_nat m :: u8)) = unat (lower (of_nat (if n < 10 then 48 + n else 87 + n) :: u8))"
    by (simp add: word_unat_eq_iff)
  also have "\<dots> \<longleftrightarrow> (if 65 \<le> m \<and> m \<le> 90 then m + 32 else m) = (if n < 10 then 48 + n else 87 + n)"
    using l [OF m] l [of "if n < 10 then 48 + n else 87 + n"] assms by (auto split: if_splits)
  also have "\<dots> \<longleftrightarrow> ios_hex_nibble c = int n"
    using assms m by (auto simp: ios_hex_nibble_def m_def [symmetric] Let_def split: if_splits)
  finally show ?thesis unfolding nc m_def [symmetric] by blast
qed

lemma nibbles_byte:
  assumes "0 \<le> hi" "hi < 16" "0 \<le> lo" "lo < 16"
  shows "(word_of_int (push_bit 4 hi OR lo) :: u8) = b \<longleftrightarrow> hi = int (unat b div 16) \<and> lo = int (unat b mod 16)"
proof -
  have t: "take_bit 4 lo = lo" using assms(3,4) by (simp add: take_bit_int_eq_self_iff)
  have "\<not> bit (push_bit 4 hi) n \<or> \<not> bit lo n" for n
    by (subst t [symmetric]) (simp add: bit_simps)
  then have d: "push_bit 4 hi OR lo = 16 * hi + lo"
    by (simp add: disjunctive_add [symmetric] push_bit_eq_mult mult.commute)
  have r: "0 \<le> 16 * hi + lo" "16 * hi + lo < 256" using assms by simp_all
  have "uint (word_of_int m :: u8) = m" if "0 \<le> m" "m < 256" for m
    using that by (simp add: uint_word_of_int_eq take_bit_int_eq_self)
  note u = this [OF r]
  have sp: "16 * hi + lo = v \<longleftrightarrow> hi = v div 16 \<and> lo = v mod 16" for v
  proof
    assume "16 * hi + lo = v"
    then have "v = lo + 16 * hi" by simp
    then show "hi = v div 16 \<and> lo = v mod 16" using assms by (simp add: mod_pos_pos_trivial div_pos_pos_trivial)
  next
    assume "hi = v div 16 \<and> lo = v mod 16"
    then show "16 * hi + lo = v" using mult_div_mod_eq [of 16 v] by simp
  qed
  have "(word_of_int (16 * hi + lo) :: u8) = b \<longleftrightarrow> 16 * hi + lo = uint b"
    using u by (metis word_uint_eq_iff)
  also have "\<dots> \<longleftrightarrow> hi = uint b div 16 \<and> lo = uint b mod 16" by (rule sp)
  also have "\<dots> \<longleftrightarrow> hi = int (unat b div 16) \<and> lo = int (unat b mod 16)"
    by (simp add: zdiv_int zmod_int)
  finally show ?thesis by (simp add: d)
qed

lemma unat_bound: "unat (x :: u8) < 256"
  using unsigned_less [of x] by simp

lemma hex_nibble_range: "ios_hex_nibble c < 16" "ios_hex_nibble c < 0 \<longleftrightarrow> ios_hex_nibble c = -1"
  by (auto simp: ios_hex_nibble_def Let_def)

lemma pair_iff:
  "(0 \<le> ios_hex_nibble a \<and> 0 \<le> ios_hex_nibble b \<and> word_of_int (push_bit 4 (ios_hex_nibble a) OR ios_hex_nibble b) = (x :: u8))
    \<longleftrightarrow> map lower (ascii [a, b]) = map lower (ascii (hex_of [x]))"
proof -
  let ?h = "unat x div 16" and ?l = "unat x mod 16"
  have x: "?h < 16" "?l < 16" using unat_bound [of x] by (simp_all add: less_mult_imp_div_less)
  have "(0 \<le> ios_hex_nibble a \<and> 0 \<le> ios_hex_nibble b \<and> word_of_int (push_bit 4 (ios_hex_nibble a) OR ios_hex_nibble b) = x)
      \<longleftrightarrow> ios_hex_nibble a = int ?h \<and> ios_hex_nibble b = int ?l"
    using nibbles_byte [of "ios_hex_nibble a" "ios_hex_nibble b" x] hex_nibble_range(1) by auto
  then show ?thesis
    using nibble_iff [OF x(1), of a] nibble_iff [OF x(2), of b] by (simp add: ascii_def hex_of_def)
qed

lemma hex_of_Cons: "hex_of (x # h) = hex_of [x] @ hex_of h"
  by (simp add: hex_of_def)

lemma length_hex_of: "length (hex_of h) = 2 * length h"
  by (induction h) (simp_all add: hex_of_def)

lemma hex_pairs_iff: "hex_pairs p = Some h \<longleftrightarrow> map lower (ascii p) = map lower (ascii (hex_of h))"
proof (induction p arbitrary: h rule: hex_pairs.induct)
  case (1 a b r)
  show ?case
  proof (cases h)
    case Nil
    then show ?thesis by (auto simp: hex_of_def ascii_def Let_def)
  next
    case (Cons x h')
    have ih: "hex_pairs r = Some h' \<longleftrightarrow> map lower (ascii r) = map lower (ascii (hex_of h'))"
      if "0 \<le> ios_hex_nibble a" "0 \<le> ios_hex_nibble b"
      using 1 that by simp
    have "hex_pairs (a # b # r) = Some h \<longleftrightarrow>
        (0 \<le> ios_hex_nibble a \<and> 0 \<le> ios_hex_nibble b \<and> word_of_int (push_bit 4 (ios_hex_nibble a) OR ios_hex_nibble b) = x)
        \<and> hex_pairs r = Some h'"
      by (auto simp: Cons Let_def)
    also have "\<dots> \<longleftrightarrow> map lower (ascii [a, b]) = map lower (ascii (hex_of [x])) \<and> map lower (ascii r) = map lower (ascii (hex_of h'))"
      using ih pair_iff [of a b x] by blast
    also have "\<dots> \<longleftrightarrow> map lower (ascii (a # b # r)) = map lower (ascii (hex_of h))"
      by (auto simp: Cons hex_of_Cons [of x h'] ascii_def) (simp_all add: hex_of_def)
    finally show ?thesis .
  qed
next
  case 2
  then show ?case by (auto simp: hex_of_def ascii_def)
next
  case (3 c)
  then show ?case by (cases h) (auto simp: hex_of_def ascii_def)
qed

text \<open>C26. The two checks of a pin agree: the verify callback, which parses the pin and compares
  bytes, accepts the certificate of the server as the leaf exactly if the check after the HTTP
  upgrade, which prints the hash and compares strings without regard to case, does.\<close>

theorem ios_pin_checks_agree:
  assumes "peer_cert peer = Some x" "x509_digest peer True x = Some h" "length h = 32" "pin \<noteq> []"
    and "sstp_verify_cert peer host (SSTP_VERIFY_CERT OR SSTP_VERIFY_NAME) = SSTP_OKAY"
  shows "ios_verify_callback peer (Some (SSTP_IOS_TLS_PINNED, pin)) ok 0 (peer_cert peer)
    \<longleftrightarrow> post_http_verify peer SSTP_IOS_TLS_PINNED pin host = Some (Inr ())"
proof -
  have g: "sstp_get_cert_hash peer (uint SSTP_PROTO_HASH_SHA256) 32 = Some (SSTP_OKAY, h)"
    using assms(1-3) by (simp add: sstp_get_cert_hash_def SSTP_PROTO_HASH_SHA256_def wr_n_def)
  have "length pin = 64" if "map lower (ascii pin) = map lower (ascii (hex_of h))"
    using arg_cong [OF that, of length] assms(3) by (simp add: ascii_def length_hex_of)
  then have "ios_pin_matches peer (Some x) pin \<longleftrightarrow> hex_pairs pin = Some h"
    using assms(2-4) hex_pairs_iff [of pin h]
    by (cases "hex_pairs pin") (simp_all add: ios_pin_matches_def ios_parse_sha256_hex_def, blast)
  then have "ios_pin_matches peer (Some x) pin \<longleftrightarrow> strcasecmp_eq (ascii (hex_of h)) (ascii pin)"
    unfolding hex_pairs_iff strcasecmp_eq_def by metis
  then show ?thesis
    by (simp add: ios_verify_callback_def post_http_verify_def assms(1,4,5) g)
qed

lemma ios_pin_checks_agree_witness:
  "ios_verify_callback demo_tls (Some (SSTP_IOS_TLS_PINNED, demo_pin)) False 0 (peer_cert demo_tls)
    \<longleftrightarrow> post_http_verify demo_tls SSTP_IOS_TLS_PINNED demo_pin (Some ''s'') = Some (Inr ())"
  by (rule ios_pin_checks_agree [of _ 1 "replicate 32 1"])
    (simp_all add: demo_tls_def demo_pin_there sstp_verify_cert_def SSTP_VERIFY_NAME_def SSTP_VERIFY_CERT_def sstp_host_is_ip_literal_def Let_def)

end
