(* ===== verification/IosReady.thy ===== *)
theory IosReady
  imports IosLink IosEdges
begin

text \<open>
  Whole runs of the iOS client, from the start of the session to the tunnel: the run the client is
  made for, and the run of a server that asks for no authentication.
\<close>

section \<open>Runs to a tunnel\<close>

lemma run_done: "s_ev_base (sess b) \<Longrightarrow> run_steps (ios_step env) evs (in_loop b) = Some s
  \<Longrightarrow> sstp_ios_session_run env evs b = Some (s\<lparr>sess := (sess s)\<lparr>s_escape := False, s_looping := False\<rparr>\<rparr>)"
  by (simp add: sstp_ios_session_run_def in_loop_def)

text \<open>The start, the upgrade and the Connect-Ack.\<close>

definition open_events :: "sstp_buff \<Rightarrow> bytes \<Rightarrow> ios_event list" where
  "open_events buf d = [Ev_connected SSTP_CONNECTED, Ev_http_recv False buf SSTP_OKAY,
     Ev_state_recv (rx_with (connect_ack d)) SSTP_OKAY]"

definition first_sent :: "('k, 'x) ios_env \<Rightarrow> 'k session \<Rightarrow> (bytes \<times> status_t) list" where
  "first_sent env c = [(concat (hello_lines (s_peer_name c) (hello_uuid (http_guid env))), SSTP_OKAY), (conn_request, SSTP_OKAY)]"

lemma opened:
  assumes "sstp_ios_session_create True f1 f2 f3 f4 = Some c0" "sstp_ios_session_start_ex e p c0 = (0, c)"
    and "fair_env env" "pppd_mem env"
    and "s_tls_mode c = SSTP_IOS_TLS_SYSTEM \<longrightarrow> ios_evaluate_system_trust (tls env) (verify_host c) = Inr ()"
    and "post_http_verify (tls env) (s_tls_mode c) (s_pin c) (verify_host c) = Some (Inr ())"
    and "b_data buf = reply 200 reason name val rest" "reply_ok reason name val"
    and "length d = 36"
  shows "\<exists>q s. run_steps (ios_step env) (open_events buf d) (in_loop (ios_boot c)) = Some s
    \<and> s_ev_base (sess (ios_boot c)) \<and> linked env q s \<and> fresh_link (s_user c) (s_password c) q
    \<and> proto s = uint (d ! 3) \<and> nounce s = drop 4 d \<and> mppe_key_len s = 0 \<and> s_sent (sess s) = first_sent env c
    \<and> s_on_ready (sess s) = s_on_ready c \<and> s_password (sess s) = s_password c"
proof -
  let ?b = "in_loop (ios_boot c)" and ?e1 = "[Ev_connected SSTP_CONNECTED, Ev_http_recv False buf SSTP_OKAY]"
  obtain s where s: "run_steps (ios_step env) ?e1 ?b = Some s" "allowed (ios_step env) ios_may ?e1 ?b"
    "s_state (sess s)" "s_looping (sess s)" "mppe_key_len s = 0" "s_user (sess s) = s_user c"
    "s_password (sess s) = s_password c" "s_on_ready (sess s) = s_on_ready c" "s_sent (sess s) = first_sent env c"
    using upgraded [OF assms(1-3,5-8)] unfolding first_sent_def by blast
  have st: "rest_inv env ?b" "s_ev_base (sess (ios_boot c))"
    using boot_inv [of env c] start_ok [OF assms(1,2), of env] assms(3) by (simp_all add: fair_env_def ios_boot_def)
  have r: "rest_inv env s" by (rule session.run_inv [OF st(1) s(2,1)])
  obtain q t where t: "ios_step env (Ev_state_recv (rx_with (connect_ack d)) SSTP_OKAY) s = Some t"
    "linked env q t" "fresh_link (s_user (sess s)) (s_password (sess s)) q" "proto t = uint (d ! 3)" "nounce t = drop 4 d"
    "mppe_key_len t = 0" "s_sent (sess t) = s_sent (sess s)" "s_on_ready (sess t) = s_on_ready (sess s)"
    "s_password (sess t) = s_password (sess s)"
    using ack_step [OF r s(4,3) assms(4,9) s(5)] by blast
  have e: "open_events buf d = ?e1 @ [Ev_state_recv (rx_with (connect_ack d)) SSTP_OKAY]" by (simp add: open_events_def)
  have "run_steps (ios_step env) (open_events buf d) ?b = Some t"
    unfolding e run_steps_append s(1) using t(1) by simp
  then show ?thesis using st(2) s(6-9) t(2-) by (intro exI [of _ q] exI [of _ t]) simp
qed

lemma fair_sends: "fair_env env \<Longrightarrow> send_ret env n = SSTP_OKAY"
  by (simp add: fair_env_def)

text \<open>C6. The client reaches its goal: a started session whose server is trusted, accepts the upgrade,
  acknowledges the call with a nonce, agrees on LCP, sends a challenge and then a success, and
  assigns an address, is ready at the end. It has sent the request, the Connect-Request and the
  Connected message, whose compound MAC is keyed with the send and receive keys of RFC 3079 for the
  password and the response to the challenge, so that a server with the same password computes the
  same; the application is told the address, with the gateway and name servers of the code.\<close>

theorem ios_connects:
  assumes "sstp_ios_session_create True f1 f2 f3 f4 = Some c0" "sstp_ios_session_start_ex e p c0 = (0, c)"
    and "fair_env env" "pppd_mem env"
    and "s_tls_mode c = SSTP_IOS_TLS_SYSTEM \<longrightarrow> ios_evaluate_system_trust (tls env) (verify_host c) = Inr ()"
    and "post_http_verify (tls env) (s_tls_mode c) (s_pin c) (verify_host c) = Some (Inr ())"
    and "b_data buf = reply 200 reason name val rest" "reply_ok reason name val" "length d = 36"
    and "have_md4 (crypto (ppp env))" "have_sha1 (crypto (ppp env))" "length (s_password c) \<le> 255"
    and "sstp_get_cert_hash (tls env) (uint (d ! 3)) 32 = Some (SSTP_OKAY, h)"
    and "length opts \<le> 252" "length ch = 16" "length sname \<le> 200" "3 \<le> length body" "length body \<le> 1000" "a \<noteq> 0"
  defines "ntr \<equiv> sstp_mschapv2_generate_nt_response (crypto (ppp env)) ch (rand16 (ppp env) 0) (take 255 (s_user c)) (s_password c)"
  defines "master \<equiv> link_master (ppp env) (s_password c) ntr"
  defines "key \<equiv> GetAsymmetricStartKey (crypto (ppp env)) master True False @ GetAsymmetricStartKey (crypto (ppp env)) master False False"
  shows "\<exists>s. sstp_ios_session_run env (open_events buf d @ lcp_events i1 opts i2 @ chap_events i3 ch sname i4 body
      @ [frame_ev PPP_PROTO_CCP (bare_conf 2 i5), frame_ev PPP_PROTO_IPCP (addr_conf 3 i6 a), frame_ev PPP_PROTO_IPCP (addr_conf 2 i7 a)])
      (ios_boot c) = Some s
    \<and> sstp_ios_session_is_ready (Some (sess s)) = 1 \<and> \<not> s_failed (sess s)
    \<and> sstp_ios_session_stage (Some (sess s)) = STAGE_APPLYING_SETTINGS
    \<and> s_sent (sess s) = first_sent env c @ [(bound_msg env d h key, SSTP_OKAY)]
    \<and> (s_on_ready c \<longrightarrow> last (s_calls (sess s)) = OnReady a a 0x08080808 0x08080404)
    \<and> (\<exists>q. s_pppd (sess s) = Some q \<and> auth_done q \<and> mppe_enabled q)"
proof -
  obtain q0 s0 where s0: "run_steps (ios_step env) (open_events buf d) (in_loop (ios_boot c)) = Some s0"
    "s_ev_base (sess (ios_boot c))" "linked env q0 s0" "fresh_link (s_user c) (s_password c) q0"
    "proto s0 = uint (d ! 3)" "nounce s0 = drop 4 d" "s_sent (sess s0) = first_sent env c"
    "s_on_ready (sess s0) = s_on_ready c" "s_password (sess s0) = s_password c"
    using opened [OF assms(1-9)] by blast
  obtain q1 s1 n1 where s1: "run_steps (ios_step env) (lcp_events i1 opts i2) s0 = Some s1" "linked env q1 s1" "kept s0 s1"
    "core q1 = core (q0\<lparr>lcp_opened := True, lcp_id := n1\<rparr>)"
    using lcp_run [OF s0(3) assms(14)] by blast
  note c1 = core_eqD [OF s1(4)]
  have f1: "notify_set q1" "\<not> ccp_done q1" "\<not> ip_configured q1" "\<not> up_notified q1" "n_rand q1 = 0"
    "username q1 = take 255 (s_user c)" "password q1 = s_password c" "peer_ip q1 = 0" "dns1 q1 = 0" "dns2 q1 = 0"
    using s0(4) assms(12) by (simp_all add: c1 fresh_link_def)
  have k1: "s_password (sess s1) = s_password c" using s1(3) s0(9) by (simp add: kept_def)
  have l1: "length (s_password (sess s1)) \<le> 255" using k1 assms(12) by simp
  have m: "link_response (ppp env) ch q1 = ntr" using f1 by (simp add: link_response_def ntr_def)
  obtain q2 s2 x2 where s2: "run_steps (ios_step env) (chap_events i3 ch sname i4 body) s1 = Some s2" "linked env q2 s2" "kept s1 s2"
    "mppe_key_len s2 = 16" "hlak s2 = key"
    "core q2 = core ((sstp_pppd_set_mppe_keys (GetAsymmetricStartKey (crypto (ppp env)) master True False)
        (GetAsymmetricStartKey (crypto (ppp env)) master False False) q1)\<lparr>auth_done := True, chap := x2, chap_id := i3,
        n_rand := n_rand q1 + 1, ccp_id := ccp_id q1 + 1\<rparr>)"
    using chap_run [OF s1(2) f1(1) assms(10,11) l1 assms(15-18), of i3 i4] unfolding k1 m key_def master_def by blast
  note c2 = core_eqD [OF s2(6)]
  have f2: "notify_set q2" "\<not> ccp_done q2" "\<not> ip_configured q2" "\<not> up_notified q2" "auth_done q2" "mppe_keys_set q2"
    "peer_ip q2 = 0" "dns1 q2 = 0" "dns2 q2 = 0"
    using f1 by (simp_all add: c2 sstp_pppd_set_mppe_keys_def)
  obtain q3 s3 where s3: "ios_step env (frame_ev PPP_PROTO_CCP (bare_conf 2 i5)) s2 = Some s3" "linked env q3 s3" "kept s2 s3"
    "same_keys s2 s3" "ccp_done q3" "up_notified q3 = up_notified q2" "auth_done q3 = auth_done q2"
    "mppe_enabled q3 = (mppe_enabled q2 \<or> mppe_keys_set q2)" "peer_ip q3 = peer_ip q2" "dns1 q3 = dns1 q2" "dns2 q3 = dns2 q2" "notify_set q3 = notify_set q2"
    using ccp_step [OF s2(2) f2(2,3)] by blast
  obtain q4 s4 where s4: "ios_step env (frame_ev PPP_PROTO_IPCP (addr_conf 3 i6 a)) s3 = Some s4" "linked env q4 s4" "kept s3 s4"
    "same_keys s3 s4" "core q4 = core (q3\<lparr>local_ip := a, ipcp_id := ipcp_id q3 + 1\<rparr>)"
    using nak_step [OF s3(2,5)] by blast
  note c4 = core_eqD [OF s4(5)]
  have k4: "kept s0 s4" using s1(3) s2(3) s3(3) s4(3) by (blast intro: kept_trans)
  have h4: "hlak s4 = key" "mppe_key_len s4 = 16" using s2(4,5) s3(4) s4(4) by (simp_all add: same_keys_def hlak_def)
  have f4: "ccp_done q4" "\<not> up_notified q4" "notify_set q4" "auth_done q4" "mppe_enabled q4"
    "peer_ip q4 = 0" "dns1 q4 = 0" "dns2 q4 = 0"
    using s3(5-12) f2 by (simp_all add: c4)
  have p4: "proto s4 = uint (d ! 3)" "nounce s4 = drop 4 d" using k4 s0(5,6) by (simp_all add: kept_def)
  obtain s5 where s5: "ios_step env (frame_ev PPP_PROTO_IPCP (addr_conf 2 i7 a)) s4 = Some s5" "\<not> s_failed (sess s5)"
    "s_ready (sess s5)" "s_stage (sess s5) = STAGE_APPLYING_SETTINGS"
    "s_sent (sess s5) = s_sent (sess s4) @ [(bound_msg env d h (hlak s4), SSTP_OKAY)]"
    "s_on_ready (sess s4) \<longrightarrow> last (s_calls (sess s5)) = ready_call (q4\<lparr>local_ip := a\<rparr>)"
    "\<exists>q. s_pppd (sess s5) = Some q \<and> auth_done q = auth_done q4 \<and> mppe_enabled q = mppe_enabled q4"
    using up_last [OF s4(2) f4(1,2) assms(19) f4(3) p4 _ fair_sends [OF assms(3)], of h i7] p4(1) assms(13) h4(2) by auto
  have rc: "ready_call (q4\<lparr>local_ip := a\<rparr>) = OnReady a a 0x08080808 0x08080404"
    using f4 assms(19) by (simp add: ready_call_def sstp_pppd_get_ipv4_def)
  have r: "run_steps (ios_step env) (open_events buf d @ lcp_events i1 opts i2 @ chap_events i3 ch sname i4 body
      @ [frame_ev PPP_PROTO_CCP (bare_conf 2 i5), frame_ev PPP_PROTO_IPCP (addr_conf 3 i6 a), frame_ev PPP_PROTO_IPCP (addr_conf 2 i7 a)])
      (in_loop (ios_boot c)) = Some s5"
    using s0(1) s1(1) s2(1) s3(1) s4(1) s5(1) by (simp add: run_steps_append)
  have o: "s_on_ready (sess s4) = s_on_ready c" "s_sent (sess s4) = first_sent env c" using k4 s0(7,8) by (simp_all add: kept_def)
  show ?thesis
    by (rule exI, intro conjI, rule run_done [OF s0(2) r])
      (use s5(2-7) h4(1) rc o f4 in \<open>simp_all add: sstp_ios_session_is_ready_def sstp_ios_session_stage_def\<close>)
qed

text \<open>C36. Authentication is not required: when the server sends no LCP and no MS-CHAPv2 packet but only
  acknowledges CCP and assigns an address, the session becomes ready all the same; no one has been
  authenticated, MPPE is off, and the compound MAC is keyed with zeros.\<close>

theorem ios_unauthenticated:
  assumes "sstp_ios_session_create True f1 f2 f3 f4 = Some c0" "sstp_ios_session_start_ex e p c0 = (0, c)"
    and "fair_env env" "pppd_mem env"
    and "s_tls_mode c = SSTP_IOS_TLS_SYSTEM \<longrightarrow> ios_evaluate_system_trust (tls env) (verify_host c) = Inr ()"
    and "post_http_verify (tls env) (s_tls_mode c) (s_pin c) (verify_host c) = Some (Inr ())"
    and "b_data buf = reply 200 reason name val rest" "reply_ok reason name val" "length d = 36"
    and "sstp_get_cert_hash (tls env) (uint (d ! 3)) 32 = Some (SSTP_OKAY, h)" "a \<noteq> 0"
  shows "\<exists>s. sstp_ios_session_run env (open_events buf d
      @ [frame_ev PPP_PROTO_CCP (bare_conf 2 i1), frame_ev PPP_PROTO_IPCP (addr_conf 2 i2 a)]) (ios_boot c) = Some s
    \<and> sstp_ios_session_is_ready (Some (sess s)) = 1 \<and> \<not> s_failed (sess s)
    \<and> sstp_ios_session_stage (Some (sess s)) = STAGE_APPLYING_SETTINGS
    \<and> s_sent (sess s) = first_sent env c @ [(bound_msg env d h (replicate 32 0), SSTP_OKAY)]
    \<and> (\<exists>q. s_pppd (sess s) = Some q \<and> \<not> auth_done q \<and> \<not> mppe_enabled q)"
proof -
  obtain q0 s0 where s0: "run_steps (ios_step env) (open_events buf d) (in_loop (ios_boot c)) = Some s0"
    "s_ev_base (sess (ios_boot c))" "linked env q0 s0" "fresh_link (s_user c) (s_password c) q0"
    "proto s0 = uint (d ! 3)" "nounce s0 = drop 4 d" "mppe_key_len s0 = 0" "s_sent (sess s0) = first_sent env c"
    using opened [OF assms(1-9)] by blast
  have f0: "notify_set q0" "\<not> ccp_done q0" "\<not> ip_configured q0" "\<not> up_notified q0" "\<not> auth_done q0" "\<not> mppe_keys_set q0"
    "\<not> mppe_enabled q0"
    using s0(4) by (simp_all add: fresh_link_def)
  obtain q1 s1 where s1: "ios_step env (frame_ev PPP_PROTO_CCP (bare_conf 2 i1)) s0 = Some s1" "linked env q1 s1" "kept s0 s1"
    "same_keys s0 s1" "ccp_done q1" "up_notified q1 = up_notified q0" "auth_done q1 = auth_done q0"
    "mppe_enabled q1 = (mppe_enabled q0 \<or> mppe_keys_set q0)" "notify_set q1 = notify_set q0"
    using ccp_step [OF s0(3) f0(2,3)] by blast
  have k: "proto s1 = uint (d ! 3)" "nounce s1 = drop 4 d" "s_sent (sess s1) = first_sent env c" "mppe_key_len s1 = 0"
    using s1(3,4) s0(5-8) by (simp_all add: kept_def same_keys_def)
  have f1: "\<not> up_notified q1" "notify_set q1" "\<not> auth_done q1" "\<not> mppe_enabled q1" using f0 s1(6-9) by simp_all
  obtain s2 where s2: "ios_step env (frame_ev PPP_PROTO_IPCP (addr_conf 2 i2 a)) s1 = Some s2" "\<not> s_failed (sess s2)"
    "s_ready (sess s2)" "s_stage (sess s2) = STAGE_APPLYING_SETTINGS"
    "s_sent (sess s2) = s_sent (sess s1) @ [(bound_msg env d h (hlak s1), SSTP_OKAY)]"
    "\<exists>q. s_pppd (sess s2) = Some q \<and> auth_done q = auth_done q1 \<and> mppe_enabled q = mppe_enabled q1"
    using up_last [OF s1(2,5) f1(1) assms(11) f1(2) k(1,2) _ fair_sends [OF assms(3)], of h i2] k(1,4) assms(10) by auto
  have r: "run_steps (ios_step env) (open_events buf d
      @ [frame_ev PPP_PROTO_CCP (bare_conf 2 i1), frame_ev PPP_PROTO_IPCP (addr_conf 2 i2 a)]) (in_loop (ios_boot c)) = Some s2"
    using s0(1) s1(1) s2(1) by (simp add: run_steps_append)
  show ?thesis
    by (rule exI, intro conjI, rule run_done [OF s0(2) r])
      (use s2(2-6) k f1 in \<open>simp_all add: sstp_ios_session_is_ready_def sstp_ios_session_stage_def hlak_def\<close>)
qed

lemma demo_hash: "sstp_get_cert_hash (tls demo_ios) (uint (replicate 36 (2 :: u8) ! 3)) 32 = Some (SSTP_OKAY, replicate 32 1)"
  by (simp add: sstp_get_cert_hash_def demo_ios_def demo_tls_def wr_n_def SSTP_PROTO_HASH_SHA256_def)

lemma demo_mem: "pppd_mem demo_ios" "have_md4 (crypto (ppp demo_ios))" "have_sha1 (crypto (ppp demo_ios))"
  by (simp_all add: demo_ios_def demo_env_def demo_ssl_def)

lemma demo_login: "s_user demo_session = [117]" "s_password demo_session = [112]"
  by (simp_all add: demo_session_def sstp_ios_session_start_ex_def demo_params_def demo_start_def start_loop_def
      ios_endpoint_def sstp_url_parse_def given_def [of None] given_def [of "Some ''s''"] ios_lookup_def ios_init_ssl_def
      demo_ssl_env_def start_reset_def Let_def demo_pin_there demo_lower demo_pin_cut
      sstp_ios_set_stage_def snprintf_s_def [of 64] ascii_def)

lemma demo_run_ppp:
  "sstp_ios_session_create True True True True True = Some demo_created"
  "sstp_ios_session_start_ex demo_start demo_params demo_created = (0, demo_session)"
  "fair_env demo_ios" "pppd_mem demo_ios"
  "s_tls_mode demo_session = SSTP_IOS_TLS_SYSTEM \<longrightarrow> ios_evaluate_system_trust (tls demo_ios) (verify_host demo_session) = Inr ()"
  "post_http_verify (tls demo_ios) (s_tls_mode demo_session) (s_pin demo_session) (verify_host demo_session) = Some (Inr ())"
  "b_data demo_reply = reply 200 [32, 79] [83] [77] [0]" "reply_ok [32, 79] [83] [77]" "length (replicate 36 (2 :: u8)) = 36"
  by (rule demo_create, rule demo_starts, rule demo_fair, rule demo_mem, rule demo_mode, rule demo_trust, rule demo_reply_ok,
      rule demo_reply_ok, simp)

lemma ios_connects_witness:
  "\<exists>s. sstp_ios_session_run demo_ios (open_events demo_reply (replicate 36 2) @ lcp_events 1 [] 1 @ chap_events 2 (replicate 16 9) [] 3 [1, 2, 3]
      @ [frame_ev PPP_PROTO_CCP (bare_conf 2 1), frame_ev PPP_PROTO_IPCP (addr_conf 3 1 7), frame_ev PPP_PROTO_IPCP (addr_conf 2 2 7)])
      (ios_boot demo_session) = Some s
    \<and> sstp_ios_session_is_ready (Some (sess s)) = 1 \<and> sstp_ios_session_stage (Some (sess s)) = STAGE_APPLYING_SETTINGS"
  using ios_connects [OF demo_run_ppp demo_mem(2,3) _ demo_hash, of "[]" "replicate 16 9" "[]" "[1, 2, 3]" 7 1 1 2 3 1 1 2]
  by (simp add: demo_login) blast

lemma ios_unauthenticated_witness:
  "\<exists>s. sstp_ios_session_run demo_ios (open_events demo_reply (replicate 36 2)
      @ [frame_ev PPP_PROTO_CCP (bare_conf 2 1), frame_ev PPP_PROTO_IPCP (addr_conf 2 2 7)]) (ios_boot demo_session) = Some s
    \<and> sstp_ios_session_is_ready (Some (sess s)) = 1
    \<and> s_sent (sess s) = first_sent demo_ios demo_session @ [(bound_msg demo_ios (replicate 36 2) (replicate 32 1) (replicate 32 0), SSTP_OKAY)]"
proof -
  have "(7 :: u32) \<noteq> 0" by simp
  then show ?thesis using ios_unauthenticated [OF demo_run_ppp demo_hash, of 7 1 2] by blast
qed

end
