(* ===== verification/Api.thy ===== *)
theory Api
  imports Prelude
begin

text \<open>
  The messages between the client and the plugin of \<^verbatim>\<open>pppd\<close>, \<^verbatim>\<open>sstp/sstp-api.c\<close>: a header and a
  list of attributes, each padded to four bytes, in the byte order of the host (little endian on
  every platform of the build). A pointer to an attribute is its offset in the buffer that was parsed.
\<close>

section \<open>Data\<close>

definition le16 :: "u16 \<Rightarrow> bytes" where
  "le16 v = [ucast v, ucast (drop_bit 8 v)]"

definition le32 :: "u32 \<Rightarrow> bytes" where
  "le32 v = [ucast v, ucast (drop_bit 8 v), ucast (drop_bit 16 v), ucast (drop_bit 24 v)]"

definition rdl16 :: "bytes \<Rightarrow> int \<Rightarrow> u16 option" where
  "rdl16 m i = do { a \<leftarrow> rd m i; b \<leftarrow> rd m (i + 1); Some (un16 b a) }"

definition rdl32 :: "bytes \<Rightarrow> int \<Rightarrow> u32 option" where
  "rdl32 m i = do {
     a \<leftarrow> rd m i; b \<leftarrow> rd m (i + 1); c \<leftarrow> rd m (i + 2); d \<leftarrow> rd m (i + 3);
     Some (un32 d c b a) }"

definition SSTP_API_MSG_MAGIC :: u32 where "SSTP_API_MSG_MAGIC = 0x73737470"

datatype sstp_api_msg_t =
    SSTP_API_MSG_UNKNOWN
  | SSTP_API_MSG_AUTH
  | SSTP_API_MSG_ADDR
  | SSTP_API_MSG_ACK

primrec api_msg_code :: "sstp_api_msg_t \<Rightarrow> u16" where
  "api_msg_code SSTP_API_MSG_UNKNOWN = 0"
| "api_msg_code SSTP_API_MSG_AUTH = 1"
| "api_msg_code SSTP_API_MSG_ADDR = 2"
| "api_msg_code SSTP_API_MSG_ACK = 3"

datatype sstp_api_attr_t =
    SSTP_API_ATTR_UNKNOWN
  | SSTP_API_ATTR_MPPE_SEND
  | SSTP_API_ATTR_MPPE_RECV
  | SSTP_API_ATTR_GATEWAY
  | SSTP_API_ATTR_ADDR

primrec api_attr_code :: "sstp_api_attr_t \<Rightarrow> u16" where
  "api_attr_code SSTP_API_ATTR_UNKNOWN = 0"
| "api_attr_code SSTP_API_ATTR_MPPE_SEND = 1"
| "api_attr_code SSTP_API_ATTR_MPPE_RECV = 2"
| "api_attr_code SSTP_API_ATTR_GATEWAY = 3"
| "api_attr_code SSTP_API_ATTR_ADDR = 4"

definition SSTP_API_ATTR_MAX :: u16 where "SSTP_API_ATTR_MAX = 4"

definition ALIGN32 :: "int \<Rightarrow> int" where
  "ALIGN32 n = (n + 3) AND NOT 3"

section \<open>Operations\<close>

definition sstp_api_msg_new :: "bytes \<Rightarrow> sstp_api_msg_t \<Rightarrow> bytes option" where
  "sstp_api_msg_new buf ty = do {
     buf \<leftarrow> wr_n buf 0 (le32 SSTP_API_MSG_MAGIC);
     buf \<leftarrow> wr_n buf 6 (le16 (api_msg_code ty));
     wr_n buf 4 (le16 0) }"

definition sstp_api_msg_len :: "bytes \<Rightarrow> int option" where
  "sstp_api_msg_len msg = do { n \<leftarrow> rdl16 msg 4; Some (8 + uint n) }"

text \<open>The result, and the type if it was stored.\<close>

definition sstp_api_msg_type :: "bytes \<Rightarrow> (int \<times> u16 option) option" where
  "sstp_api_msg_type msg = do {
     m \<leftarrow> rdl32 msg 0;
     if m \<noteq> SSTP_API_MSG_MAGIC then Some (-1, None)
     else do { t \<leftarrow> rdl16 msg 6; Some (0, Some t) } }"

text \<open>The length is an \<^verbatim>\<open>unsigned int\<close>, the fields that take it have 16 bits.\<close>

definition sstp_api_attr_add :: "bytes \<Rightarrow> sstp_api_attr_t \<Rightarrow> u32 \<Rightarrow> bytes \<Rightarrow> bytes option" where
  "sstp_api_attr_add msg ty len data = do {
     n \<leftarrow> rdl16 msg 4;
     let attr = 8 + uint n;
     let alen = (ucast len :: u16);
     msg \<leftarrow> wr_n msg attr (le16 (api_attr_code ty));
     msg \<leftarrow> wr_n msg (attr + 2) (le16 alen);
     d \<leftarrow> rd_n data 0 (uint alen);
     msg \<leftarrow> wr_n msg (attr + 4) d;
     wr_n msg 4 (le16 (n + word_of_int (4 + ALIGN32 (uint alen)))) }"

lemma ALIGN32_eq: "ALIGN32 n = (n + 3) div 4 * 4"
proof -
  have three: "(3 :: int) = mask 2" by (simp add: mask_eq_exp_minus_1)
  have "m AND NOT (mask 2) = push_bit 2 (drop_bit 2 m)" for m :: int
    by (rule bit_eqI) (auto simp only: bit_and_iff bit_not_iff bit_mask_iff bit_push_bit_iff bit_drop_bit_eq
        possible_bit_int o_apply le_add_diff_inverse not_less simp_thms)
  then have "m AND NOT 3 = push_bit 2 (drop_bit 2 m)" for m :: int by (simp only: three)
  then show ?thesis by (simp add: ALIGN32_def push_bit_eq_mult drop_bit_eq_div)
qed

lemma ALIGN32_ge: "n \<le> ALIGN32 n" "ALIGN32 n < n + 4" "4 dvd ALIGN32 n"
proof -
  show "n \<le> ALIGN32 n" "ALIGN32 n < n + 4" unfolding ALIGN32_eq by presburger+
qed (simp add: ALIGN32_eq)

text \<open>The loop over the attributes; \<open>list\<close> are the caller's pointers.\<close>

function api_attr_loop :: "bytes \<Rightarrow> int \<Rightarrow> int \<Rightarrow> int option list \<Rightarrow> (int \<times> int option list) option" where
  "api_attr_loop buf len index list =
     (if \<not> index < len then Some (0, list)
      else do {
        t \<leftarrow> rdl16 buf index;
        if t > SSTP_API_ATTR_MAX \<or> t \<le> 0 then Some (-1, list)
        else if length list \<le> unat t then None
        else do {
          n \<leftarrow> rdl16 buf (index + 2);
          api_attr_loop buf len (index + (4 + ALIGN32 (uint n))) (list[unat t := Some index]) } })"
  by pat_completeness auto
termination
proof (relation "measure (\<lambda>(buf, len, index, list). nat (len - index))")
  fix len index :: int and list :: "int option list" and t n :: u16 and buf
  assume "\<not> \<not> index < len"
  then show "((buf, len, index + (4 + ALIGN32 (uint n)), list[unat t := Some index]), buf, len, index, list)
      \<in> measure (\<lambda>(buf, len, index, list). nat (len - index))"
    using ALIGN32_ge(1) [of "uint n"] by (simp add: nat_less_iff) (smt (verit) uint_nonnegative)
qed simp

declare api_attr_loop.simps [simp del]

definition sstp_api_attr_parse :: "bytes \<Rightarrow> int \<Rightarrow> nat \<Rightarrow> (int \<times> int option list) option" where
  "sstp_api_attr_parse buf len count = api_attr_loop buf len 0 (replicate count None)"

text \<open>A whole message: the header, then the attributes in order.\<close>

primrec api_add_attrs :: "(sstp_api_attr_t \<times> bytes) list \<Rightarrow> bytes \<Rightarrow> bytes option" where
  "api_add_attrs [] msg = Some msg"
| "api_add_attrs (a # as) msg = do {
     msg \<leftarrow> sstp_api_attr_add msg (fst a) (of_nat (length (snd a))) (snd a);
     api_add_attrs as msg }"

section \<open>The layout of a message\<close>

lemma le_lengths [simp]: "length (le16 v) = 2" "length (le32 w) = 4"
  by (simp_all add: le16_def le32_def)

interpretation le16: codec le16 "\<lambda>bs. rdl16 bs 0" "\<lambda>_. True"
  by unfold_locales (simp add: rdl16_def rd_def le16_def)

interpretation le32: codec le32 "\<lambda>bs. rdl32 bs 0" "\<lambda>_. True"
  by unfold_locales (simp add: rdl32_def rd_def le32_def)

lemma rdl16_split: "i = int (length a) \<Longrightarrow> rdl16 (a @ le16 v @ c) i = Some v"
  using rd_append_right [of 0 a "le16 v @ c"] rd_append_right [of 1 a "le16 v @ c"]
  by (simp add: rdl16_def) (simp add: rd_def le16_def)

definition api_pad :: "bytes \<Rightarrow> nat" where
  "api_pad d = nat (ALIGN32 (int (length d))) - length d"

lemma api_pad: "int (length d + api_pad d) = ALIGN32 (int (length d))"
  using ALIGN32_ge(1) [of "int (length d)"] by (simp add: api_pad_def)

primrec api_size :: "(sstp_api_attr_t \<times> bytes) list \<Rightarrow> nat" where
  "api_size [] = 0"
| "api_size (a # as) = 4 + length (snd a) + api_pad (snd a) + api_size as"

lemma api_size_append: "api_size (as @ bs) = api_size as + api_size bs"
  by (induction as) simp_all

text \<open>The bytes of some attributes; the padding is arbitrary.\<close>

fun api_body :: "(sstp_api_attr_t \<times> bytes) list \<Rightarrow> bytes \<Rightarrow> bool" where
  "api_body [] bs = (bs = [])"
| "api_body ((t, d) # as) bs = (\<exists>pad rest. bs = le16 (api_attr_code t) @ le16 (of_nat (length d)) @ d @ pad @ rest
     \<and> length pad = api_pad d \<and> api_body as rest)"

lemma api_body_append: "api_body as xs \<Longrightarrow> api_body bs ys \<Longrightarrow> api_body (as @ bs) (xs @ ys)"
  by (induction as xs rule: api_body.induct) fastforce+

lemma api_body_length: "api_body as xs \<Longrightarrow> length xs = api_size as"
  by (induction as xs rule: api_body.induct) auto

definition api_msg :: "sstp_api_msg_t \<Rightarrow> (sstp_api_attr_t \<times> bytes) list \<Rightarrow> bytes \<Rightarrow> bool" where
  "api_msg ty as msg \<longleftrightarrow> (\<exists>body free. api_body as body
     \<and> msg = le32 SSTP_API_MSG_MAGIC @ le16 (of_nat (api_size as)) @ le16 (api_msg_code ty) @ body @ free)"

lemma msg_new_layout:
  assumes "8 \<le> length buf"
  shows "\<exists>msg. sstp_api_msg_new buf ty = Some msg \<and> api_msg ty [] msg \<and> length msg = length buf"
proof -
  obtain a b c d e f g h ys where b: "buf = a # b # c # d # e # f # g # h # ys" using list_of_8 [OF assms] by blast
  have "sstp_api_msg_new buf ty = Some (le32 SSTP_API_MSG_MAGIC @ le16 0 @ le16 (api_msg_code ty) @ ys)"
    by (simp add: sstp_api_msg_new_def wr_n_def b le16_def le32_def)
  then show ?thesis by (simp add: api_msg_def b)
qed

lemma uint_of_nat16: "n < 2 ^ 16 \<Longrightarrow> uint (of_nat n :: u16) = int n"
proof -
  assume "n < 2 ^ 16"
  then have "unat (of_nat n :: u16) = n" by (simp add: unat_of_nat)
  then show ?thesis by (simp only: uint_nat)
qed

lemma attr_add_layout:
  assumes m: "api_msg ty as msg" and d: "api_size (as @ [(t, d)]) < 2 ^ 16" "8 + api_size (as @ [(t, d)]) \<le> length msg"
  shows "\<exists>msg'. sstp_api_attr_add msg t (of_nat (length d)) d = Some msg' \<and> api_msg ty (as @ [(t, d)]) msg'
    \<and> length msg' = length msg"
proof -
  let ?h = "\<lambda>n. le32 SSTP_API_MSG_MAGIC @ le16 n @ le16 (api_msg_code ty)" and ?n = "api_size as"
  obtain body free where b: "api_body as body" "msg = ?h (of_nat ?n) @ body @ free" using m by (auto simp: api_msg_def)
  have lb: "length body = ?n" by (rule api_body_length [OF b(1)])
  have sz: "?n + 4 + length d + api_pad d < 2 ^ 16" using d(1) by (simp add: api_size_append)
  have lf: "4 + length d + api_pad d \<le> length free" using d(2) lb by (simp add: b(2) api_size_append)
  define x y pad rest where "x = take 2 free" and "y = take 2 (drop 2 free)"
    and "pad = take (api_pad d) (drop (4 + length d) free)" and "rest = drop (4 + length d + api_pad d) free"
  define z where "z = take (length d) (drop 4 free)"
  have fr: "free = x @ y @ z @ pad @ rest"
  proof -
    have "free = take 2 free @ take 2 (drop 2 free) @ drop 4 free" using take_drop_split [of free 2 2] by simp
    also have "drop 4 free = z @ drop (4 + length d) free"
      using append_take_drop_id [of "length d" "drop 4 free"] by (simp add: z_def add.commute)
    also have "drop (4 + length d) free = pad @ rest"
      using append_take_drop_id [of "api_pad d" "drop (4 + length d) free"] by (simp add: pad_def rest_def add.commute add.left_commute)
    finally show ?thesis by (simp add: x_def y_def)
  qed
  have l: "length x = 2" "length y = 2" "length z = length d" "length pad = api_pad d" using lf by (simp_all add: x_def y_def z_def pad_def)
  have lc: "ucast (of_nat (length d) :: u32) = (of_nat (length d) :: u16)"
    using sz by (simp add: unsigned_of_nat take_bit_nat_eq_self)
  have ul: "uint (of_nat ?n :: u16) = int ?n" "uint (of_nat (length d) :: u16) = int (length d)"
    using sz by (simp_all add: uint_of_nat16)
  have r: "rdl16 msg 4 = Some (of_nat ?n)" unfolding b(2) using rdl16_split [of 4 "le32 SSTP_API_MSG_MAGIC" "of_nat ?n"] by simp
  let ?t = "le16 (api_attr_code t)" and ?l = "le16 (of_nat (length d))"
  have w1: "wr_n msg (8 + int ?n) ?t = Some (?h (of_nat ?n) @ body @ ?t @ y @ z @ pad @ rest)"
    by (rule wr_n_at [of _ "?h (of_nat ?n) @ body" _ x]) (use l lb in \<open>simp_all add: b(2) fr\<close>)
  have w2: "wr_n (?h (of_nat ?n) @ body @ ?t @ y @ z @ pad @ rest) (8 + int ?n + 2) ?l
      = Some (?h (of_nat ?n) @ body @ ?t @ ?l @ z @ pad @ rest)"
    by (rule wr_n_at [of _ "?h (of_nat ?n) @ body @ ?t" _ y]) (use l lb in simp_all)
  have w3: "wr_n (?h (of_nat ?n) @ body @ ?t @ ?l @ z @ pad @ rest) (8 + int ?n + 4) d
      = Some (?h (of_nat ?n) @ body @ ?t @ ?l @ d @ pad @ rest)"
    by (rule wr_n_at [of _ "?h (of_nat ?n) @ body @ ?t @ ?l" _ z]) (use l lb in simp_all)
  have w4: "wr_n (?h (of_nat ?n) @ body @ ?t @ ?l @ d @ pad @ rest) 4 (le16 v)
      = Some (?h v @ body @ ?t @ ?l @ d @ pad @ rest)" for v
    by (rule wr_n_at [of _ "le32 SSTP_API_MSG_MAGIC" _ "le16 (of_nat ?n)"]) simp_all
  have rd: "rd_n d 0 (int (length d)) = Some d" by (simp add: rd_n_def)
  have v: "of_nat ?n + word_of_int (4 + ALIGN32 (int (length d))) = (of_nat (api_size (as @ [(t, d)])) :: u16)"
  proof -
    have "4 + ALIGN32 (int (length d)) = int (4 + length d + api_pad d)" using api_pad [of d] by simp
    then have "word_of_int (4 + ALIGN32 (int (length d))) = (of_nat (4 + length d + api_pad d) :: u16)"
      by (simp only: word_of_int_nat)
    then show ?thesis by (simp add: api_size_append)
  qed
  have "sstp_api_attr_add msg t (of_nat (length d)) d
      = Some (?h (of_nat (api_size (as @ [(t, d)]))) @ body @ ?t @ ?l @ d @ pad @ rest)"
    by (simp only: sstp_api_attr_add_def Let_def r ul lc w1 w2 w3 w4 rd v bind.bind_lunit)
  moreover have "api_body (as @ [(t, d)]) (body @ ?t @ ?l @ d @ pad)"
    by (rule api_body_append [OF b(1)]) (use l in simp)
  then have "api_msg ty (as @ [(t, d)]) (?h (of_nat (api_size (as @ [(t, d)]))) @ body @ ?t @ ?l @ d @ pad @ rest)"
    unfolding api_msg_def by (intro exI [of _ "body @ ?t @ ?l @ d @ pad"] exI [of _ rest]) simp
  ultimately show ?thesis using l by (simp add: b(2) fr)
qed

lemma api_add_attrs_layout:
  assumes "api_msg ty as msg" "api_size (as @ bs) < 2 ^ 16" "8 + api_size (as @ bs) \<le> length msg"
  shows "\<exists>msg'. api_add_attrs bs msg = Some msg' \<and> api_msg ty (as @ bs) msg' \<and> length msg' = length msg"
  using assms
proof (induction bs arbitrary: "as" msg)
  case (Cons b bs)
  obtain t d where b: "b = (t, d)" by (cases b)
  have s: "api_size (as @ [(t, d)]) < 2 ^ 16" "8 + api_size (as @ [(t, d)]) \<le> length msg"
    using Cons.prems(2,3) by (simp_all add: b api_size_append)
  obtain msg1 where m1: "sstp_api_attr_add msg t (of_nat (length d)) d = Some msg1" "api_msg ty (as @ [(t, d)]) msg1"
    "length msg1 = length msg" using attr_add_layout [OF Cons.prems(1) s] by blast
  obtain msg' where "api_add_attrs bs msg1 = Some msg'" "api_msg ty ((as @ [(t, d)]) @ bs) msg'" "length msg' = length msg1"
    using Cons.IH [OF m1(2)] Cons.prems(2,3) m1(3) by (auto simp: b)
  then show ?case using m1 by (simp add: b)
qed simp

section \<open>Parsing\<close>

text \<open>The offsets at which the parser finds the attributes.\<close>

primrec api_ptrs :: "int \<Rightarrow> (sstp_api_attr_t \<times> bytes) list \<Rightarrow> int option list \<Rightarrow> int option list" where
  "api_ptrs i [] l = l"
| "api_ptrs i (a # as) l = api_ptrs (i + (4 + ALIGN32 (int (length (snd a))))) as (l[unat (api_attr_code (fst a)) := Some i])"

lemma attr_code_range: "t \<noteq> SSTP_API_ATTR_UNKNOWN \<Longrightarrow> 0 < api_attr_code t \<and> api_attr_code t \<le> SSTP_API_ATTR_MAX"
  "unat (api_attr_code t) < 5"
  by (cases t; simp add: SSTP_API_ATTR_MAX_def)+

lemma attr_code_inj: "api_attr_code t = api_attr_code u \<longleftrightarrow> t = u"
  by (cases t; cases u) simp_all

lemma api_ptrs_length [simp]: "length (api_ptrs i as l) = length l"
  by (induction as arbitrary: i l) simp_all

definition api_ok :: "(sstp_api_attr_t \<times> bytes) list \<Rightarrow> bool" where
  "api_ok as \<longleftrightarrow> (\<forall>a \<in> set as. fst a \<noteq> SSTP_API_ATTR_UNKNOWN \<and> length (snd a) < 2 ^ 16)"

lemma loop_body:
  assumes "api_body as bs" "api_ok as" "length l = 5" "i = int (length pre)" "i + int (length bs) \<le> n"
  shows "api_attr_loop (pre @ bs @ free) n i l = api_attr_loop (pre @ bs @ free) n (i + int (length bs)) (api_ptrs i as l)"
  using assms
proof (induction "as" bs arbitrary: pre l i rule: api_body.induct)
  case (1 bs)
  then show ?case by simp
next
  case (2 t d "as" bs)
  obtain pad rest where b: "bs = le16 (api_attr_code t) @ le16 (of_nat (length d)) @ d @ pad @ rest"
    "length pad = api_pad d" "api_body as rest" using "2.prems"(1) by auto
  have ok: "t \<noteq> SSTP_API_ATTR_UNKNOWN" "length d < 2 ^ 16" "api_ok as" using "2.prems"(2) by (auto simp: api_ok_def)
  let ?m = "pre @ bs @ free" and ?j = "i + (4 + ALIGN32 (int (length d)))"
  have lt: "i < n" using "2.prems"(5) by (simp add: b(1))
  have r1: "rdl16 ?m i = Some (api_attr_code t)"
    using rdl16_split [OF "2.prems"(4), of "api_attr_code t" "le16 (of_nat (length d)) @ d @ pad @ rest @ free"] by (simp add: b(1))
  have r2: "rdl16 ?m (i + 2) = Some (of_nat (length d))"
    using rdl16_split [of "i + 2" "pre @ le16 (api_attr_code t)" "of_nat (length d)" "d @ pad @ rest @ free"] "2.prems"(4)
    by (simp add: b(1))
  have u: "uint (of_nat (length d) :: u16) = int (length d)" by (rule uint_of_nat16 [OF ok(2)])
  have j: "?j = int (length (pre @ le16 (api_attr_code t) @ le16 (of_nat (length d)) @ d @ pad))"
    using "2.prems"(4) b(2) api_pad [of d] by simp
  have e: "i + int (length bs) = ?j + int (length rest)" using "2.prems"(4) b(2) api_pad [of d] by (simp add: b(1))
  have n: "?j + int (length rest) \<le> n" using "2.prems"(5) e by simp
  have l5: "length (l[unat (api_attr_code t) := Some i]) = 5" using "2.prems"(3) by simp
  have m: "(pre @ le16 (api_attr_code t) @ le16 (of_nat (length d)) @ d @ pad) @ rest @ free = ?m" by (simp add: b(1))
  note rest = "2.IH" [OF b(3) ok(3) l5 j n, unfolded m]
  have c: "\<not> SSTP_API_ATTR_MAX < api_attr_code t" "\<not> api_attr_code t \<le> 0"
    using attr_code_range(1) [OF ok(1)] by auto
  show ?case
    using lt r1 r2 rest c attr_code_range(2) [of t] "2.prems"(3)
    by (subst api_attr_loop.simps) (simp add: u e)
qed

text \<open>What the pointers point to: the last attribute of a type.\<close>

definition api_entry :: "bytes \<Rightarrow> int option \<Rightarrow> bytes option \<Rightarrow> bool" where
  "api_entry m p a = (case a of None \<Rightarrow> p = None
     | Some d \<Rightarrow> \<exists>j. p = Some j \<and> rdl16 m (j + 2) = Some (of_nat (length d)) \<and> rd_n m (j + 4) (int (length d)) = Some d)"

lemma ptrs_entry:
  assumes "api_body as bs" "api_ok as" "length l = 5" "i = int (length pre)"
  shows "if map_of (rev as) t = None then api_ptrs i as l ! unat (api_attr_code t) = l ! unat (api_attr_code t)
    else api_entry (pre @ bs @ free) (api_ptrs i as l ! unat (api_attr_code t)) (map_of (rev as) t)"
  using assms
proof (induction "as" bs arbitrary: pre l i rule: api_body.induct)
  case (2 u d "as" bs)
  obtain pad rest where b: "bs = le16 (api_attr_code u) @ le16 (of_nat (length d)) @ d @ pad @ rest"
    "length pad = api_pad d" "api_body as rest" using "2.prems"(1) by auto
  have ok: "api_ok as" using "2.prems"(2) by (simp add: api_ok_def)
  let ?j = "i + (4 + ALIGN32 (int (length d)))" and ?l = "l[unat (api_attr_code u) := Some i]"
  let ?pre = "pre @ le16 (api_attr_code u) @ le16 (of_nat (length d)) @ d @ pad"
  have j: "?j = int (length ?pre)" using "2.prems"(4) b(2) api_pad [of d] by simp
  have m: "?pre @ rest @ free = pre @ bs @ free" by (simp add: b(1))
  have ih: "if map_of (rev as) t = None then api_ptrs ?j as ?l ! unat (api_attr_code t) = ?l ! unat (api_attr_code t)
    else api_entry (pre @ bs @ free) (api_ptrs ?j as ?l ! unat (api_attr_code t)) (map_of (rev as) t)"
    using "2.IH" [OF b(3) ok _ j, of ?l] "2.prems"(3) unfolding m by simp
  have "rdl16 (pre @ bs @ free) (i + 2) = Some (of_nat (length d))"
    using rdl16_split [of "i + 2" "pre @ le16 (api_attr_code u)" "of_nat (length d)" "d @ pad @ rest @ free"] "2.prems"(4)
    by (simp add: b(1))
  moreover have "rd_n (pre @ bs @ free) (i + 4) (int (length d)) = Some d"
    using "2.prems"(4) by (simp add: b(1) rd_n_def le16_def nat_add_distrib)
  ultimately have e: "api_entry (pre @ bs @ free) (Some i) (Some d)" by (simp add: api_entry_def)
  show ?case
  proof (cases "map_of (rev as) t")
    case None
    have "u = t \<Longrightarrow> ?l ! unat (api_attr_code t) = Some i" using "2.prems"(3) attr_code_range(2) [of u] by simp
    moreover have "u \<noteq> t \<Longrightarrow> ?l ! unat (api_attr_code t) = l ! unat (api_attr_code t)"
      using attr_code_inj [of u t] by (simp add: word_unat_eq_iff)
    ultimately show ?thesis using None ih e by (cases "u = t") (simp_all add: map_of_append map_add_def)
  next
    case (Some x)
    then show ?thesis using ih by (simp add: map_of_append map_add_def)
  qed
qed simp

text \<open>Parsing a whole message.\<close>

lemma api_msg_parse:
  assumes "api_msg ty as m" "api_size as < 2 ^ 16" "\<forall>a \<in> set as. fst a \<noteq> SSTP_API_ATTR_UNKNOWN"
  shows "sstp_api_msg_type m = Some (0, Some (api_msg_code ty))" "sstp_api_msg_len m = Some (8 + int (api_size as))"
    "sstp_api_attr_parse (drop 8 m) (int (api_size as)) 5 = Some (0, api_ptrs 0 as (replicate 5 None))"
    "api_entry (drop 8 m) (api_ptrs 0 as (replicate 5 None) ! unat (api_attr_code t)) (map_of (rev as) t)"
proof -
  obtain body free where b: "api_body as body"
    "m = le32 SSTP_API_MSG_MAGIC @ le16 (of_nat (api_size as)) @ le16 (api_msg_code ty) @ body @ free"
    using assms(1) by (auto simp: api_msg_def)
  have d: "drop 8 m = body @ free" by (simp add: b(2))
  have "rdl32 m 0 = Some SSTP_API_MSG_MAGIC" by (simp add: b(2) rdl32_def rd_def le32_def)
  moreover have "rdl16 m 4 = Some (of_nat (api_size as))"
    using rdl16_split [of 4 "le32 SSTP_API_MSG_MAGIC" "of_nat (api_size as)"] by (simp add: b(2))
  moreover have "rdl16 m 6 = Some (api_msg_code ty)"
    using rdl16_split [of 6 "le32 SSTP_API_MSG_MAGIC @ le16 (of_nat (api_size as))" "api_msg_code ty"] by (simp add: b(2))
  ultimately show "sstp_api_msg_type m = Some (0, Some (api_msg_code ty))" "sstp_api_msg_len m = Some (8 + int (api_size as))"
    using assms(2) by (simp_all add: sstp_api_msg_type_def sstp_api_msg_len_def uint_of_nat16)
  have le: "length (snd a) \<le> api_size as" if "a \<in> set as" for a using that by (induction "as") auto
  have ok: "api_ok as" using assms(2,3) le by (fastforce simp: api_ok_def)
  let ?l = "api_ptrs 0 as (replicate 5 None)"
  show "sstp_api_attr_parse (drop 8 m) (int (api_size as)) 5 = Some (0, ?l)"
    using loop_body [OF b(1) ok, of "replicate 5 None" 0 "[]" "int (api_size as)" free] api_body_length [OF b(1)]
    by (simp add: sstp_api_attr_parse_def d) (simp add: api_attr_loop.simps)
  show "api_entry (drop 8 m) (?l ! unat (api_attr_code t)) (map_of (rev as) t)"
    using ptrs_entry [OF b(1) ok, of "replicate 5 None" 0 "[]" t free] attr_code_range(2) [of t]
    by (cases "map_of (rev as) t") (simp_all add: d api_entry_def split: if_splits)
qed

text \<open>The length field after an attribute was added.\<close>

lemma attr_add_len:
  assumes "sstp_api_attr_add msg ty len d = Some msg'" "rdl16 msg 4 = Some n"
  shows "rdl16 msg' 4 = Some (n + word_of_int (4 + ALIGN32 (uint (ucast len :: u16))))"
proof -
  obtain m1 where w: "wr_n m1 4 (le16 (n + word_of_int (4 + ALIGN32 (uint (ucast len :: u16))))) = Some msg'"
    using assms by (auto simp: sstp_api_attr_add_def Let_def split: Option.bind_splits)
  then obtain a c where "msg' = a @ le16 (n + word_of_int (4 + ALIGN32 (uint (ucast len :: u16)))) @ c" "length a = 4"
    by (auto simp: wr_n_def split: if_splits)
  then show ?thesis using rdl16_split [of 4 a] by simp
qed

section \<open>Properties\<close>

text \<open>The messages to the plugin of pppd: a message built from any attributes that fit its buffer
  and its 16-bit length has its type and length, and parsing what follows the header gives, for every
  type of attribute, a pointer to the length and data of the last one added, and none where there
  was none.\<close>

theorem api_roundtrip:
  assumes "8 + api_size as \<le> length buf" "api_size as < 2 ^ 16" "\<forall>a \<in> set as. fst a \<noteq> SSTP_API_ATTR_UNKNOWN"
  shows "\<exists>msg. (sstp_api_msg_new buf ty \<bind> api_add_attrs as) = Some msg
    \<and> sstp_api_msg_type msg = Some (0, Some (api_msg_code ty)) \<and> sstp_api_msg_len msg = Some (8 + int (api_size as))
    \<and> (\<exists>list. sstp_api_attr_parse (drop 8 msg) (int (api_size as)) 5 = Some (0, list)
      \<and> (\<forall>t. api_entry (drop 8 msg) (list ! unat (api_attr_code t)) (map_of (rev as) t)))"
proof -
  obtain m0 where m0: "sstp_api_msg_new buf ty = Some m0" "api_msg ty [] m0" "length m0 = length buf"
    using msg_new_layout [of buf ty] assms(1) by auto
  obtain m where m: "api_add_attrs as m0 = Some m" "api_msg ty as m" using api_add_attrs_layout [OF m0(2), of "as"] assms(1,2) m0(3) by auto
  then show ?thesis using m0(1) api_msg_parse [OF m(2) assms(2,3)] by auto
qed

lemma api_roundtrip_witness:
  "\<exists>msg. (sstp_api_msg_new (replicate 64 0) SSTP_API_MSG_AUTH
      \<bind> api_add_attrs [(SSTP_API_ATTR_MPPE_SEND, [1, 2, 3]), (SSTP_API_ATTR_MPPE_RECV, [4]), (SSTP_API_ATTR_MPPE_SEND, [5])]) = Some msg
    \<and> sstp_api_msg_len msg = Some 32"
proof -
  let ?as = "[(SSTP_API_ATTR_MPPE_SEND, [1, 2, 3]), (SSTP_API_ATTR_MPPE_RECV, [4]), (SSTP_API_ATTR_MPPE_SEND, [5])] :: (sstp_api_attr_t \<times> bytes) list"
  have s: "api_size ?as = 24" by (simp add: api_pad_def ALIGN32_eq)
  show ?thesis using api_roundtrip [of ?as "replicate 64 0" SSTP_API_MSG_AUTH] unfolding s by auto
qed

text \<open>The parser reads only the bytes it is given when their number is a multiple of four, whatever they are.\<close>

lemma loop_safe:
  assumes "0 \<le> i" "4 dvd i" "4 dvd n" "n \<le> int (length m)" "length l = 5"
  shows "\<exists>r l'. api_attr_loop m n i l = Some (r, l') \<and> length l' = 5"
  using assms
proof (induction m n i l rule: api_attr_loop.induct)
  case (1 m n i l)
  show ?case
  proof (cases "i < n")
    case True
    then have "i + 4 \<le> n" using "1.prems"(2,3) by presburger
    then obtain t k where t: "rdl16 m i = Some t" "rdl16 m (i + 2) = Some k"
      using "1.prems"(1,4) by (simp add: rdl16_def rd_def)
    show ?thesis
    proof (cases "t > SSTP_API_ATTR_MAX \<or> t \<le> 0")
      case False
      have u: "unat t < 5" using False by (auto simp: SSTP_API_ATTR_MAX_def word_less_nat_alt)
      have "0 \<le> ALIGN32 (uint k)" using ALIGN32_ge(1) [of "uint k"] uint_nonnegative [of k] by linarith
      then have al: "0 \<le> i + (4 + ALIGN32 (uint k))" "4 dvd i + (4 + ALIGN32 (uint k))"
        using "1.prems"(1,2) ALIGN32_ge(3) [of "uint k"] by simp_all
      have "\<exists>r l'. api_attr_loop m n (i + (4 + ALIGN32 (uint k))) (l[unat t := Some i]) = Some (r, l') \<and> length l' = 5"
        using "1.IH" [OF _ t(1) False _ t(2) al] True "1.prems"(3-5) u by auto
      then show ?thesis using True t False u "1.prems"(5) by (subst api_attr_loop.simps) auto
    qed (use True t(1) "1.prems"(5) in \<open>subst api_attr_loop.simps, auto\<close>)
  qed (use "1.prems"(5) in \<open>subst api_attr_loop.simps, simp\<close>)
qed

lemma parse_safe: "0 \<le> n \<Longrightarrow> 4 dvd n \<Longrightarrow> n \<le> int (length m) \<Longrightarrow> \<exists>r l. sstp_api_attr_parse m n 5 = Some (r, l) \<and> length l = 5"
  unfolding sstp_api_attr_parse_def by (rule loop_safe) simp_all

text \<open>Any other number may lead it beyond them.\<close>

lemma parse_overread:
  assumes "api_body as bs" "api_ok as"
  shows "sstp_api_attr_parse (bs @ [x]) (int (length bs) + 1) 5 = None"
proof -
  have "rd (bs @ [x]) (int (length bs) + 1) = None" by (simp add: rd_def)
  then have "rdl16 (bs @ [x]) (int (length bs)) = None" by (simp add: rdl16_def split: Option.bind_split)
  then show ?thesis
    using loop_body [OF assms, of "replicate 5 None" 0 "[]" "int (length bs) + 1" "[x]"]
    by (simp add: sstp_api_attr_parse_def) (simp add: api_attr_loop.simps)
qed

end
