(* ===== verification/Channel.thy ===== *)
theory Channel
  imports Api StateProofs
begin

text \<open>
  The socket on which the plugin of \<^verbatim>\<open>pppd\<close> leaves the MPPE keys and asks for the address of the
  server, \<^verbatim>\<open>sstp/sstp-event.c\<close>. One connection is what its calls of \<^verbatim>\<open>accept\<close> and \<^verbatim>\<open>read\<close> give; the
  bytes sent on it are returned. The payload of a message lives on the stack of the handler, so a
  pointer into it is good while the handler runs, in the callback too, and dangles after it.
\<close>

section \<open>Data\<close>

datatype key_ptr =
    No_key
  | In_payload int   \<comment> \<open>the offset of the attribute in the payload\<close>
  | Dangling

record sstp_event =
  ev_skey :: key_ptr
  ev_rkey :: key_ptr
  ev_listening :: bool

text \<open>What happens on a connection: whether it is accepted, what the two reads return.\<close>

record event_conn =
  c_accepted :: bool
  c_header :: "bytes option"
  c_payload :: "bytes option"

text \<open>The client's peer: \<open>host.name\<close> up to its end, and the address of \<open>host.alen\<close> bytes.\<close>

record sstp_peer =
  peer_name :: bytes
  peer_addr :: bytes

section \<open>Operations\<close>

definition key_at :: "int option \<Rightarrow> key_ptr" where
  "key_at p = (case p of None \<Rightarrow> No_key | Some i \<Rightarrow> In_payload i)"

definition after_return :: "key_ptr \<Rightarrow> key_ptr" where
  "after_return k = (case k of In_payload i \<Rightarrow> Dangling | _ \<Rightarrow> k)"

text \<open>
  The payload, the context and the state go to the callback, which may end the process (\<open>Inl\<close> its exit
  code); the answer, the messages sent, the context and the state come back.
\<close>

definition sstp_event_auth ::
    "(bytes \<Rightarrow> sstp_event \<Rightarrow> 's \<Rightarrow> (int + 's) option) \<Rightarrow> bytes option \<Rightarrow> bytes \<Rightarrow> sstp_event \<Rightarrow> 's \<Rightarrow>
     (int + status_t \<times> bytes list \<times> sstp_event \<times> 's) option" where
  "sstp_event_auth event_cb payload msg ctx s = do {
     n \<leftarrow> rdl16 msg 4;
     case payload of
       None \<Rightarrow> Some (Inr (SSTP_FAIL, [], ctx, s))
     | Some buff \<Rightarrow>
         if length buff \<noteq> unat n then Some (Inr (SSTP_FAIL, [], ctx, s))
         else do {
           (ret, list) \<leftarrow> sstp_api_attr_parse buff (uint n) 5;
           if ret \<noteq> 0 then Some (Inr (SSTP_FAIL, [], ctx, s))
           else do {
             let ctx = ctx\<lparr>ev_skey := key_at (list ! unat (api_attr_code SSTP_API_ATTR_MPPE_SEND)),
                           ev_rkey := key_at (list ! unat (api_attr_code SSTP_API_ATTR_MPPE_RECV))\<rparr>;
             r \<leftarrow> event_cb buff ctx s;
             case r of
               Inl e \<Rightarrow> Some (Inl e)
             | Inr s \<Rightarrow> do {
                 ack \<leftarrow> sstp_api_msg_new msg SSTP_API_MSG_ACK;
                 out \<leftarrow> rd_n ack 0 8;
                 Some (Inr (SSTP_OKAY, [out],
                   ctx\<lparr>ev_skey := after_return (ev_skey ctx), ev_rkey := after_return (ev_rkey ctx)\<rparr>, s)) } } } }"

text \<open>The reply is built in an array of 255 bytes.\<close>

definition sstp_event_addr :: "sstp_peer \<Rightarrow> (status_t \<times> bytes list) option" where
  "sstp_event_addr peer = do {
     msg \<leftarrow> sstp_api_msg_new (replicate 255 0) SSTP_API_MSG_ACK;
     msg \<leftarrow> sstp_api_attr_add msg SSTP_API_ATTR_GATEWAY (of_nat (length (peer_name peer))) (peer_name peer);
     msg \<leftarrow> sstp_api_attr_add msg SSTP_API_ATTR_ADDR (of_nat (length (peer_addr peer))) (peer_addr peer);
     n \<leftarrow> sstp_api_msg_len msg;
     out \<leftarrow> rd_n msg 0 n;
     Some (SSTP_OKAY, [out]) }"

definition sstp_event_accept ::
    "(bytes \<Rightarrow> sstp_event \<Rightarrow> 's \<Rightarrow> (int + 's) option) \<Rightarrow> sstp_peer \<Rightarrow> event_conn \<Rightarrow> sstp_event \<Rightarrow> 's \<Rightarrow>
     (int + bytes list \<times> sstp_event \<times> 's) option" where
  "sstp_event_accept event_cb peer conn ctx s =
     (let closed = (\<lambda>out ctx s. Inr (out, ctx\<lparr>ev_listening := True\<rparr>, s)) in
      if \<not> c_accepted conn then Some (closed [] ctx s)
      else case c_header conn of
        None \<Rightarrow> Some (closed [] ctx s)
      | Some msg \<Rightarrow>
          if length msg \<noteq> 8 then Some (closed [] ctx s)
          else do {
            (r, ty) \<leftarrow> sstp_api_msg_type msg;
            if r \<noteq> 0 then Some (closed [] ctx s)
            else if ty = Some (api_msg_code SSTP_API_MSG_AUTH) then do {
              r \<leftarrow> sstp_event_auth event_cb (c_payload conn) msg ctx s;
              Some (case r of Inl e \<Rightarrow> Inl e | Inr (st, out, ctx, s) \<Rightarrow> closed out ctx s) }
            else if ty = Some (api_msg_code SSTP_API_MSG_ADDR) then do {
              (st, out) \<leftarrow> sstp_event_addr peer;
              Some (closed out ctx s) }
            else Some (closed [] ctx s) })"

text \<open>The offsets of the two keys in the payload (\<open>None\<close> is a null pointer) and their common length.\<close>

definition sstp_event_mppe_result :: "bytes \<Rightarrow> sstp_event \<Rightarrow> (status_t \<times> int option \<times> int option \<times> nat) option" where
  "sstp_event_mppe_result buff ctx = do {
     (sk, n) \<leftarrow> (case ev_skey ctx of
        No_key \<Rightarrow> Some (None, 0)
      | Dangling \<Rightarrow> None
      | In_payload i \<Rightarrow> do { k \<leftarrow> rdl16 buff (i + 2); Some (Some (i + 4), unat k) });
     (rk, n) \<leftarrow> (case ev_rkey ctx of
        No_key \<Rightarrow> Some (None, n)
      | Dangling \<Rightarrow> None
      | In_payload i \<Rightarrow> do { k \<leftarrow> rdl16 buff (i + 2); Some (Some (i + 4), unat k) });
     Some (SSTP_OKAY, sk, rk, n) }"

text \<open>
  The socket, or its failure. Its name is printed with a format of two strings and one argument: the second
  is read from where no argument is.
\<close>

definition sstp_event_create :: "bool \<Rightarrow> (status_t \<times> sstp_event option) option" where
  "sstp_event_create sock_ok = (if \<not> sock_ok then Some (SSTP_FAIL, None) else None)"

section \<open>The client's callback\<close>

text \<open>
  From \<^verbatim>\<open>sstp/sstp-client.c\<close>; \<open>Inl\<close> is the exit of the process with this code. \<open>key_bytes\<close> is what the
  pointer leads to, nothing when it is null.
\<close>

definition key_bytes :: "bytes \<Rightarrow> int option \<Rightarrow> bytes" where
  "key_bytes buff p = (case p of None \<Rightarrow> [] | Some i \<Rightarrow> drop (nat i) buff)"

definition sstp_client_event_cb ::
    "('k, 'y) openssl_scheme \<Rightarrow> ('z sstp_state_scheme, 'e) world_scheme \<Rightarrow> status_t \<Rightarrow> bytes \<Rightarrow> sstp_event \<Rightarrow>
     'z sstp_state_scheme \<Rightarrow> (int + 'z sstp_state_scheme) option" where
  "sstp_client_event_cb ssl w ret buff ctx s =
     (if SSTP_OKAY \<noteq> ret then Some (Inl (-1))
      else do {
        (ret, skey, rkey, klen) \<leftarrow> sstp_event_mppe_result buff ctx;
        (r, s) \<leftarrow> sstp_state_mppe_keys (key_bytes buff skey) (key_bytes buff rkey) klen s;
        (ret, s) \<leftarrow> sstp_state_accept ssl w s;
        Some (if SSTP_FAIL = ret then Inl (-1) else Inr s) })"

section \<open>Properties\<close>

lemma api_msg_parts:
  assumes "api_msg ty as msg" "api_size as < 2 ^ 16"
  shows "rdl16 (take 8 msg) 4 = Some (of_nat (api_size as))" "sstp_api_msg_type (take 8 msg) = Some (0, Some (api_msg_code ty))"
    "length (take 8 msg) = 8" "api_body as (take (api_size as) (drop 8 msg))" "8 + api_size as \<le> length msg"
proof -
  obtain body free where b: "api_body as body"
    "msg = le32 SSTP_API_MSG_MAGIC @ le16 (of_nat (api_size as)) @ le16 (api_msg_code ty) @ body @ free"
    using assms(1) by (auto simp: api_msg_def)
  have t: "take 8 msg = le32 SSTP_API_MSG_MAGIC @ le16 (of_nat (api_size as)) @ le16 (api_msg_code ty)" by (simp add: b(2))
  show "rdl16 (take 8 msg) 4 = Some (of_nat (api_size as))"
    unfolding t using rdl16_split [of 4 "le32 SSTP_API_MSG_MAGIC" "of_nat (api_size as)" "le16 (api_msg_code ty)"] by simp
  have "rdl32 (take 8 msg) 0 = Some SSTP_API_MSG_MAGIC" unfolding t by (simp add: rdl32_def rd_def le32_def)
  moreover have "rdl16 (take 8 msg) 6 = Some (api_msg_code ty)"
    unfolding t using rdl16_split [of 6 "le32 SSTP_API_MSG_MAGIC @ le16 (of_nat (api_size as))" "api_msg_code ty" "[]"] by simp
  ultimately show "sstp_api_msg_type (take 8 msg) = Some (0, Some (api_msg_code ty))" by (simp add: sstp_api_msg_type_def)
  show "length (take 8 msg) = 8" unfolding t by simp
  have "take (api_size as) (drop 8 msg) = body" using api_body_length [OF b(1)] by (simp add: b(2))
  then show "api_body as (take (api_size as) (drop 8 msg))" using b(1) by simp
  show "8 + api_size as \<le> length msg" using api_body_length [OF b(1)] by (simp add: b(2))
qed

lemma ack_bytes: "length msg = 8 \<Longrightarrow> sstp_api_msg_new msg SSTP_API_MSG_ACK = Some [0x70, 0x74, 0x73, 0x73, 0, 0, 3, 0]"
proof -
  assume "length msg = 8"
  then obtain a b c d e f g h where "msg = [a, b, c, d, e, f, g, h]" by (auto simp: numeral_eq_Suc length_Suc_conv)
  then show ?thesis by (simp add: sstp_api_msg_new_def wr_n_def le16_def le32_def SSTP_API_MSG_MAGIC_def)
qed

text \<open>A key of the message as the callback finds it.\<close>

lemma key_result:
  assumes "api_entry buff p a" "a = Some d" "length d < 2 ^ 16"
  shows "\<exists>i. key_at p = In_payload i \<and> rdl16 buff (i + 2) = Some (of_nat (length d)) \<and> rd_n (drop (nat (i + 4)) buff) 0 (int (length d)) = Some d"
proof -
  obtain j where j: "p = Some j" "rdl16 buff (j + 2) = Some (of_nat (length d))" "rd_n buff (j + 4) (int (length d)) = Some d"
    using assms(1,2) by (auto simp: api_entry_def)
  then have "rd_n (drop (nat (j + 4)) buff) 0 (int (length d)) = Some d" by (auto simp: rd_n_def split: if_splits)
  then show ?thesis using j by (simp add: key_at_def)
qed

text \<open>The keys come through: when the plugin sends an authentication message with two keys of 16
  bytes, the state machine has them as its MPPE keys when the client makes it accept the call; if
  that does not end the process, the plugin is sent the acknowledgement and the socket listens again.\<close>

theorem channel_keys:
  assumes "api_msg SSTP_API_MSG_AUTH [(SSTP_API_ATTR_MPPE_SEND, sk), (SSTP_API_ATTR_MPPE_RECV, rk)] msg"
    and "length sk = 16" "length rk = 16" "length (mppe_send_key s) = 32" "length (mppe_recv_key s) = 32"
    and "c_accepted conn" "c_header conn = Some (take 8 msg)" "c_payload conn = Some (take 40 (drop 8 msg))"
  defines "s1 \<equiv> s\<lparr>mppe_send_key := sk @ drop 16 (mppe_send_key s), mppe_recv_key := rk @ drop 16 (mppe_recv_key s), mppe_key_len := 16\<rparr>"
  shows "\<exists>ctx'. ev_listening ctx' \<and> sstp_event_accept (sstp_client_event_cb ssl w SSTP_OKAY) peer conn ctx s = do {
      (ret, s2) \<leftarrow> sstp_state_accept ssl w s1;
      Some (if SSTP_FAIL = ret then Inl (-1) else Inr ([[0x70, 0x74, 0x73, 0x73, 0, 0, 3, 0]], ctx', s2)) }"
proof -
  let ?as = "[(SSTP_API_ATTR_MPPE_SEND, sk), (SSTP_API_ATTR_MPPE_RECV, rk)]"
  have sz: "api_size ?as = 40" using assms(2,3) by (simp add: api_pad_def ALIGN32_eq)
  have lt: "api_size ?as < 2 ^ 16" unfolding sz by simp
  note m = api_msg_parts [OF assms(1) lt, unfolded sz]
  let ?b = "take 40 (drop 8 msg)" and ?l = "api_ptrs 0 ?as (replicate 5 None)"
  have ok: "api_ok ?as" using assms(2,3) by (simp add: api_ok_def)
  have lb: "length ?b = 40" using m(5) by simp
  have p: "sstp_api_attr_parse ?b 40 5 = Some (0, ?l)"
    using loop_body [OF m(4) ok, of "replicate 5 None" 0 "[]" 40 "[]"] lb
    by (simp add: sstp_api_attr_parse_def) (simp add: api_attr_loop.simps)
  have e: "api_entry ?b (?l ! unat (api_attr_code SSTP_API_ATTR_MPPE_SEND)) (Some sk)"
    "api_entry ?b (?l ! unat (api_attr_code SSTP_API_ATTR_MPPE_RECV)) (Some rk)"
    using ptrs_entry [OF m(4) ok, of "replicate 5 None" 0 "[]" SSTP_API_ATTR_MPPE_SEND "[]"]
      ptrs_entry [OF m(4) ok, of "replicate 5 None" 0 "[]" SSTP_API_ATTR_MPPE_RECV "[]"] by (simp_all del: api_ptrs.simps)
  obtain i where i: "key_at (?l ! unat (api_attr_code SSTP_API_ATTR_MPPE_SEND)) = In_payload i" "rdl16 ?b (i + 2) = Some 16"
    "rd_n (drop (nat (i + 4)) ?b) 0 16 = Some sk"
    using key_result [OF e(1) refl] assms(2) by auto
  obtain j where j: "key_at (?l ! unat (api_attr_code SSTP_API_ATTR_MPPE_RECV)) = In_payload j" "rdl16 ?b (j + 2) = Some 16"
    "rd_n (drop (nat (j + 4)) ?b) 0 16 = Some rk"
    using key_result [OF e(2) refl] assms(3) by auto
  define c where "c = ctx\<lparr>ev_skey := In_payload i, ev_rkey := In_payload j\<rparr>"
  have r: "sstp_event_mppe_result ?b c = Some (SSTP_OKAY, Some (i + 4), Some (j + 4), 16)"
    using i(2) j(2) by (simp add: sstp_event_mppe_result_def c_def)
  have k: "sstp_state_mppe_keys (key_bytes ?b (Some (i + 4))) (key_bytes ?b (Some (j + 4))) 16 s = Some (SSTP_OKAY, s1)"
    using i(3) j(3) assms(2-5) by (simp add: sstp_state_mppe_keys_def key_bytes_def set_key_def wr_n_def s1_def)
  have cb: "sstp_client_event_cb ssl w SSTP_OKAY ?b c s =
      do { (ret, s2) \<leftarrow> sstp_state_accept ssl w s1; Some (if SSTP_FAIL = ret then Inl (-1) else Inr s2) }"
    using r k by (simp add: sstp_client_event_cb_def)
  let ?c' = "c\<lparr>ev_skey := Dangling, ev_rkey := Dangling, ev_listening := True\<rparr>"
  have a: "sstp_event_auth (sstp_client_event_cb ssl w SSTP_OKAY) (Some ?b) (take 8 msg) ctx s = do {
      (ret, s2) \<leftarrow> sstp_state_accept ssl w s1;
      Some (if SSTP_FAIL = ret then Inl (-1) else Inr (SSTP_OKAY, [[0x70, 0x74, 0x73, 0x73, 0, 0, 3, 0]],
        c\<lparr>ev_skey := Dangling, ev_rkey := Dangling\<rparr>, s2)) }"
    using m(1) lb p i(1) j(1) cb ack_bytes [OF m(3)]
    by (simp add: sstp_event_auth_def c_def after_return_def rd_n_def split: Option.bind_split)
  have "sstp_event_accept (sstp_client_event_cb ssl w SSTP_OKAY) peer conn ctx s = do {
      (ret, s2) \<leftarrow> sstp_state_accept ssl w s1;
      Some (if SSTP_FAIL = ret then Inl (-1) else Inr ([[0x70, 0x74, 0x73, 0x73, 0, 0, 3, 0]], ?c', s2)) }"
    using a m(2,3) assms(6-8) by (simp add: sstp_event_accept_def split: Option.bind_split)
  then show ?thesis by (intro exI [of _ ?c']) simp
qed

lemma channel_keys_witness:
  "\<exists>ctx'. ev_listening ctx'
    \<and> sstp_event_accept (sstp_client_event_cb demo_ssl recorder_world SSTP_OKAY) \<lparr>peer_name = [], peer_addr = []\<rparr>
        \<lparr>c_accepted = True, c_header = Some [0x70, 0x74, 0x73, 0x73, 40, 0, 1, 0],
         c_payload = Some ([1, 0, 16, 0] @ replicate 16 5 @ [2, 0, 16, 0] @ replicate 16 6)\<rparr>
        \<lparr>ev_skey = No_key, ev_rkey = No_key, ev_listening = False\<rparr> recorder_start = do {
      (ret, s2) \<leftarrow> sstp_state_accept demo_ssl recorder_world
        (recorder_start\<lparr>mppe_send_key := replicate 16 5 @ drop 16 (mppe_send_key recorder_start),
          mppe_recv_key := replicate 16 6 @ drop 16 (mppe_recv_key recorder_start), mppe_key_len := 16\<rparr>);
      Some (if SSTP_FAIL = ret then Inl (-1) else Inr ([[0x70, 0x74, 0x73, 0x73, 0, 0, 3, 0]], ctx', s2)) }"
proof -
  let ?as = "[(SSTP_API_ATTR_MPPE_SEND, replicate 16 5), (SSTP_API_ATTR_MPPE_RECV, replicate 16 6)]"
  let ?h = "[0x70, 0x74, 0x73, 0x73, 40, 0, 1, 0] :: bytes"
  let ?p = "[1, 0, 16, 0] @ replicate 16 5 @ [2, 0, 16, 0] @ replicate 16 6 :: bytes"
  have "api_size ?as = 40" by (simp add: api_pad_def ALIGN32_eq)
  moreover have "api_body ?as ?p" by (simp add: api_pad_def ALIGN32_eq le16_def)
  ultimately have m: "api_msg SSTP_API_MSG_AUTH ?as (?h @ ?p)"
    unfolding api_msg_def by (intro exI [of _ ?p] exI [of _ "[]"]) (simp add: le16_def le32_def SSTP_API_MSG_MAGIC_def)
  have l: "length (mppe_send_key recorder_start) = 32" "length (mppe_recv_key recorder_start) = 32"
    by (simp_all add: recorder_start_def)
  show ?thesis
    by (rule channel_keys [OF m _ _ l]) simp_all
qed

text \<open>The reply of \<open>sstp_event_addr\<close> fits its array of 255 bytes.\<close>

definition addr_fits :: "sstp_peer \<Rightarrow> bool" where
  "addr_fits peer \<longleftrightarrow> 16 + ALIGN32 (int (length (peer_name peer))) + ALIGN32 (int (length (peer_addr peer))) \<le> 255"

lemma msg_new_len: "sstp_api_msg_new buf ty = Some msg \<Longrightarrow> rdl16 msg 4 = Some 0 \<and> length msg = length buf"
proof -
  assume "sstp_api_msg_new buf ty = Some msg"
  then obtain m1 m2 where m: "wr_n buf 0 (le32 SSTP_API_MSG_MAGIC) = Some m1" "wr_n m1 6 (le16 (api_msg_code ty)) = Some m2"
    "wr_n m2 4 (le16 0) = Some msg"
    by (auto simp: sstp_api_msg_new_def split: Option.bind_splits)
  obtain a c where "msg = a @ le16 0 @ c" "length a = 4" using m(3) by (auto simp: wr_n_def split: if_splits)
  then show ?thesis using rdl16_split [of 4 a] m [THEN wr_n_length] by simp
qed

lemma attr_add_length: "sstp_api_attr_add msg ty len d = Some msg' \<Longrightarrow> length msg' = length msg"
  by (auto simp: sstp_api_attr_add_def Let_def dest!: wr_n_length split: Option.bind_splits)

lemma api_msg_take: "api_msg ty as m \<Longrightarrow> api_msg ty as (take (8 + api_size as) m)"
proof -
  assume "api_msg ty as m"
  then obtain body free where b: "api_body as body"
    "m = le32 SSTP_API_MSG_MAGIC @ le16 (of_nat (api_size as)) @ le16 (api_msg_code ty) @ body @ free"
    by (auto simp: api_msg_def)
  then show ?thesis unfolding api_msg_def
    by (intro exI [of _ body] exI [of _ "[]"]) (simp add: api_body_length)
qed

lemma event_addr_reads:
  assumes "sstp_event_addr peer = Some r" "length (peer_name peer) < 2 ^ 14" "length (peer_addr peer) < 2 ^ 14"
  shows "addr_fits peer"
proof -
  let ?a = "ALIGN32 (int (length (peer_name peer)))" and ?b = "ALIGN32 (int (length (peer_addr peer)))"
  obtain m0 m1 m2 n out where m: "sstp_api_msg_new (replicate 255 0) SSTP_API_MSG_ACK = Some m0"
    "sstp_api_attr_add m0 SSTP_API_ATTR_GATEWAY (of_nat (length (peer_name peer))) (peer_name peer) = Some m1"
    "sstp_api_attr_add m1 SSTP_API_ATTR_ADDR (of_nat (length (peer_addr peer))) (peer_addr peer) = Some m2"
    "sstp_api_msg_len m2 = Some n" "rd_n m2 0 n = Some out"
    using assms(1) by (auto simp: sstp_event_addr_def split: Option.bind_splits)
  have c: "ucast (of_nat k :: u32) = (of_nat k :: u16)" if "k < 2 ^ 14" for k
    using that by (simp add: unsigned_of_nat take_bit_nat_eq_self)
  have u: "uint (of_nat k :: u16) = int k" if "k < 2 ^ 14" for k using that by (simp add: uint_of_nat16)
  have l: "rdl16 m0 4 = Some 0" "length m0 = 255" using msg_new_len [OF m(1)] by simp_all
  have "rdl16 m1 4 = Some (word_of_int (4 + ?a))" using attr_add_len [OF m(2) l(1)] c [OF assms(2)] u [OF assms(2)] by simp
  from attr_add_len [OF m(3) this] have r: "rdl16 m2 4 = Some (word_of_int (8 + ?a + ?b))"
    using c [OF assms(3)] u [OF assms(3)] by (simp add: algebra_simps)
  have len: "length m2 = 255" using attr_add_length [OF m(2)] attr_add_length [OF m(3)] l(2) by simp
  have ab: "0 \<le> 8 + ?a + ?b" "8 + ?a + ?b < 2 ^ 16"
    using ALIGN32_ge(1,2) [of "int (length (peer_name peer))"] ALIGN32_ge(1,2) [of "int (length (peer_addr peer))"] assms(2,3)
    by simp_all
  moreover have "uint (word_of_int x :: u16) = x" if "0 \<le> x" "x < 2 ^ 16" for x using that by (simp add: uint_word_of_int)
  ultimately have "uint (word_of_int (8 + ?a + ?b) :: u16) = 8 + ?a + ?b" by blast
  then have "n = 16 + ?a + ?b" using m(4) r by (simp add: sstp_api_msg_len_def)
  then show ?thesis using m(5) len by (simp add: addr_fits_def rd_n_def split: if_splits)
qed

text \<open>C40. The plugin's question for the address of the server: the answer holds the name and the
  address of the peer as its parser finds them, when both, padded, take at most 239 bytes; otherwise
  the handler leaves its array of 255 bytes on the stack.\<close>

theorem event_addr:
  assumes "length (peer_name peer) < 2 ^ 14" "length (peer_addr peer) < 2 ^ 14"
  shows "if addr_fits peer
    then \<exists>msg list. sstp_event_addr peer = Some (SSTP_OKAY, [msg])
      \<and> sstp_api_msg_type msg = Some (0, Some (api_msg_code SSTP_API_MSG_ACK)) \<and> sstp_api_msg_len msg = Some (int (length msg))
      \<and> sstp_api_attr_parse (drop 8 msg) (int (length (drop 8 msg))) 5 = Some (0, list)
      \<and> api_entry (drop 8 msg) (list ! unat (api_attr_code SSTP_API_ATTR_GATEWAY)) (Some (peer_name peer))
      \<and> api_entry (drop 8 msg) (list ! unat (api_attr_code SSTP_API_ATTR_ADDR)) (Some (peer_addr peer))
    else sstp_event_addr peer = None"
proof (cases "addr_fits peer")
  case True
  let ?as = "[(SSTP_API_ATTR_GATEWAY, peer_name peer), (SSTP_API_ATTR_ADDR, peer_addr peer)]"
  have s: "8 + api_size ?as \<le> 255" using True api_pad [of "peer_name peer"] api_pad [of "peer_addr peer"]
    by (simp add: addr_fits_def)
  obtain m0 where m0: "sstp_api_msg_new (replicate 255 0) SSTP_API_MSG_ACK = Some m0" "api_msg SSTP_API_MSG_ACK [] m0" "length m0 = 255"
    using msg_new_layout [of "replicate 255 0"] by auto
  have s16: "api_size ?as < 2 ^ 16" by (rule le_less_trans [of _ 247]) (use s in \<open>linarith, simp\<close>)
  obtain m where m: "api_add_attrs ?as m0 = Some m" "api_msg SSTP_API_MSG_ACK ?as m" "length m = 255"
    using api_add_attrs_layout [OF m0(2), of ?as] s s16 m0(3) by auto
  define out where "out = take (8 + api_size ?as) m"
  have o: "api_msg SSTP_API_MSG_ACK ?as out" unfolding out_def by (rule api_msg_take [OF m(2)])
  have l: "length out = 8 + api_size ?as" unfolding out_def using s m(3) by (simp del: api_size.simps)
  have r: "sstp_event_addr peer = Some (SSTP_OKAY, [out])"
  proof -
    have "rd_n m 0 (8 + int (api_size ?as)) = Some out" unfolding out_def using s m(3) by (simp add: rd_n_def nat_add_distrib del: api_size.simps)
    moreover obtain m1 where "sstp_api_attr_add m0 SSTP_API_ATTR_GATEWAY (of_nat (length (peer_name peer))) (peer_name peer) = Some m1"
      "sstp_api_attr_add m1 SSTP_API_ATTR_ADDR (of_nat (length (peer_addr peer))) (peer_addr peer) = Some m"
      using m(1) by (auto split: Option.bind_splits)
    ultimately show ?thesis using m0(1) api_msg_parse(2) [OF m(2) s16] by (simp add: sstp_event_addr_def del: api_size.simps)
  qed
  have k: "\<forall>a \<in> set ?as. fst a \<noteq> SSTP_API_ATTR_UNKNOWN" by simp
  note p = api_msg_parse [OF o s16 k]
  have n: "int (length (drop 8 out)) = int (api_size ?as)" using l by (simp del: api_size.simps)
  have e: "api_entry (drop 8 out) (api_ptrs 0 ?as (replicate 5 None) ! unat (api_attr_code SSTP_API_ATTR_GATEWAY)) (Some (peer_name peer))"
    "api_entry (drop 8 out) (api_ptrs 0 ?as (replicate 5 None) ! unat (api_attr_code SSTP_API_ATTR_ADDR)) (Some (peer_addr peer))"
    using p(4) [of SSTP_API_ATTR_GATEWAY] p(4) [of SSTP_API_ATTR_ADDR] by (simp_all del: api_ptrs.simps)
  have len: "sstp_api_msg_len out = Some (int (length out))" unfolding p(2) l by (simp del: api_size.simps)
  show ?thesis unfolding if_P [OF True] by (intro exI conjI) (rule r p(1) len p(3) [folded n] e)+
next
  case False
  then show ?thesis using event_addr_reads [OF _ assms] by (cases "sstp_event_addr peer") auto
qed

lemma event_addr_witness:
  "(\<exists>msg. sstp_event_addr \<lparr>peer_name = replicate 11 0x61, peer_addr = replicate 16 0\<rparr> = Some (SSTP_OKAY, [msg]))
    \<and> sstp_event_addr \<lparr>peer_name = replicate 221 0x61, peer_addr = replicate 16 0\<rparr> = None"
proof -
  have "addr_fits \<lparr>peer_name = replicate 11 0x61, peer_addr = replicate 16 0\<rparr>"
    "\<not> addr_fits \<lparr>peer_name = replicate 221 0x61, peer_addr = replicate 16 0\<rparr>"
    by (simp_all add: addr_fits_def ALIGN32_eq)
  then show ?thesis using event_addr [of "\<lparr>peer_name = replicate 11 0x61, peer_addr = replicate 16 0\<rparr>"]
      event_addr [of "\<lparr>peer_name = replicate 221 0x61, peer_addr = replicate 16 0\<rparr>"] by auto
qed

text \<open>A message with only one of the keys: the other is read through a null pointer.\<close>

lemma one_key:
  assumes "api_msg SSTP_API_MSG_AUTH [(SSTP_API_ATTR_MPPE_SEND, sk)] msg" "length sk = 16"
    and "length (mppe_send_key s) = 32" "length (mppe_recv_key s) = 32"
    and "c_accepted conn" "c_header conn = Some (take 8 msg)" "c_payload conn = Some (take 20 (drop 8 msg))"
  shows "sstp_event_accept (sstp_client_event_cb ssl w SSTP_OKAY) peer conn ctx s = None"
proof -
  let ?as = "[(SSTP_API_ATTR_MPPE_SEND, sk)]" and ?b = "take 20 (drop 8 msg)"
  have sz: "api_size ?as = 20" using assms(2) by (simp add: api_pad_def ALIGN32_eq)
  have lt: "api_size ?as < 2 ^ 16" unfolding sz by simp
  note m = api_msg_parts [OF assms(1) lt, unfolded sz]
  have lb: "length ?b = 20" using m(5) by simp
  have ok: "api_ok ?as" using assms(2) by (simp add: api_ok_def)
  have p: "sstp_api_attr_parse ?b 20 5 = Some (0, [None, Some 0, None, None, None])"
    using loop_body [OF m(4) ok, of "replicate 5 None" 0 "[]" 20 "[]"] lb
    by (simp add: sstp_api_attr_parse_def) (simp add: api_attr_loop.simps numeral_eq_Suc)
  have "rdl16 ?b 2 = Some 16"
    using ptrs_entry [OF m(4) ok, of "replicate 5 None" 0 "[]" SSTP_API_ATTR_MPPE_SEND "[]"] assms(2)
    by (auto simp: api_entry_def numeral_eq_Suc split: if_splits)
  then have "sstp_client_event_cb ssl w SSTP_OKAY ?b (ctx\<lparr>ev_skey := In_payload 0, ev_rkey := No_key\<rparr>) s = None"
    using assms(3,4)
    by (auto simp: sstp_client_event_cb_def sstp_event_mppe_result_def sstp_state_mppe_keys_def key_bytes_def set_key_def
        rd_n_def Let_def split: Option.bind_splits if_splits)
  then have "sstp_event_auth (sstp_client_event_cb ssl w SSTP_OKAY) (Some ?b) (take 8 msg) ctx s = None"
    using m(1) lb p by (simp add: sstp_event_auth_def key_at_def)
  then show ?thesis using m(2,3) assms(5-7) by (simp add: sstp_event_accept_def)
qed

end
