(* ===== verification/Task.thy ===== *)
theory Task
  imports Prelude
begin

text \<open>
  A child process and its terminal, \<^verbatim>\<open>sstp/sstp-task.c\<close>. The descriptors of a process are a map to what
  they are open on; the answers of the system are arguments. \<^verbatim>\<open>fork\<close> returns twice, so what the parent
  does after it and what the child does are definitions of their own.
\<close>

section \<open>Data\<close>

datatype sstp_task_t = SSTP_TASK_SILENT | SSTP_TASK_USEPIPE | SSTP_TASK_USEPTY

record sstp_task =
  tk_pid :: int
  tk_out :: int
  tk_in :: int
  tk_type :: sstp_task_t
  tk_ttydev :: string

type_synonym 'f fds = "int \<Rightarrow> 'f option"

definition close_fd :: "int \<Rightarrow> 'f fds \<Rightarrow> 'f fds" where
  "close_fd a t = t(a := None)"

definition dup2 :: "int \<Rightarrow> int \<Rightarrow> 'f fds \<Rightarrow> 'f fds" where
  "dup2 a b t = (if t a = None then t else t(b := t a))"

section \<open>Operations\<close>

text \<open>The answers are the two descriptors, and for \<^verbatim>\<open>openpty\<close> the name of the device.\<close>

definition sstp_setup_pty :: "(int \<times> int \<times> string) option \<Rightarrow> sstp_task \<Rightarrow> status_t \<times> sstp_task" where
  "sstp_setup_pty ans task =
     (case ans of
        None \<Rightarrow> (SSTP_FAIL, task)
      | Some (i, out, tty) \<Rightarrow> (SSTP_OKAY, task\<lparr>tk_in := i, tk_out := out, tk_ttydev := tty\<rparr>))"

definition sstp_setup_pipe :: "(int \<times> int) option \<Rightarrow> sstp_task \<Rightarrow> status_t \<times> sstp_task" where
  "sstp_setup_pipe ans task =
     (case ans of
        None \<Rightarrow> (SSTP_FAIL, task)
      | Some (a, b) \<Rightarrow> (SSTP_OKAY, task\<lparr>tk_in := a, tk_out := b\<rparr>))"

text \<open>\<open>mem\<close> says whether memory is found.\<close>

definition sstp_task_new ::
    "bool \<Rightarrow> (int \<times> int) option \<Rightarrow> (int \<times> int \<times> string) option \<Rightarrow> sstp_task_t \<Rightarrow> status_t \<times> sstp_task option" where
  "sstp_task_new mem pair pty type =
     (if \<not> mem then (SSTP_FAIL, None)
      else
        let task = \<lparr>tk_pid = 0, tk_out = 0, tk_in = 0, tk_type = SSTP_TASK_SILENT, tk_ttydev = []\<rparr>;
            task = (case type of
              SSTP_TASK_USEPIPE \<Rightarrow> snd (sstp_setup_pipe pair task)
            | SSTP_TASK_USEPTY \<Rightarrow> snd (sstp_setup_pty pty task)
            | SSTP_TASK_SILENT \<Rightarrow> task)
        in (SSTP_OKAY, Some (task\<lparr>tk_type := type\<rparr>)))"

definition sstp_task_close :: "sstp_task \<Rightarrow> 'f fds \<Rightarrow> sstp_task \<times> 'f fds" where
  "sstp_task_close task t =
     (let (task, t) = (if tk_in task \<noteq> 0 then (task\<lparr>tk_in := 0\<rparr>, close_fd (tk_in task) t) else (task, t))
      in if tk_out task \<noteq> 0 then (task\<lparr>tk_out := 0\<rparr>, close_fd (tk_out task) t) else (task, t))"

text \<open>
  The child up to \<^verbatim>\<open>execv\<close>: the descriptors, the program and its arguments. \<open>null\<close> is what
  \<^verbatim>\<open>/dev/null\<close> is opened as.
\<close>

definition task_child :: "int \<times> 'f \<Rightarrow> sstp_task \<Rightarrow> string list \<Rightarrow> 'f fds \<Rightarrow> ('f fds \<times> string \<times> string list) option" where
  "task_child null task argv t =
     (let (task, t) =
        (if tk_type task = SSTP_TASK_SILENT
         then (task\<lparr>tk_out := fst null\<rparr>, dup2 (fst null) 2 (dup2 (fst null) 1 (t(fst null := Some (snd null)))))
         else (task, t)) in
      let t = (if tk_type task = SSTP_TASK_USEPIPE \<or> tk_type task = SSTP_TASK_USEPTY
               then dup2 (tk_out task) 0 (dup2 (tk_out task) 1 t) else t) in
      let t = snd (sstp_task_close task t) in
      case argv of [] \<Rightarrow> None | path # args \<Rightarrow> Some (t, path, args))"

text \<open>The parent; \<open>ret\<close> is what \<^verbatim>\<open>fork\<close> returned to it.\<close>

definition sstp_task_start :: "int \<Rightarrow> sstp_task \<Rightarrow> 'f fds \<Rightarrow> status_t \<times> sstp_task \<times> 'f fds" where
  "sstp_task_start ret task t =
     (if ret = -1 then (SSTP_FAIL, task, t)
      else
        let task = task\<lparr>tk_pid := ret\<rparr> in
        if tk_type task = SSTP_TASK_USEPIPE \<or> tk_type task = SSTP_TASK_USEPTY
        then (SSTP_OKAY, task\<lparr>tk_out := tk_in task\<rparr>, close_fd (tk_out task) t)
        else (SSTP_OKAY, task, t))"

text \<open>The answers of \<^verbatim>\<open>kill\<close>: the signal was delivered, no such process, or another error.\<close>

datatype kill_result = Killed | Esrch | Kill_error

definition sstp_task_stop :: "kill_result \<Rightarrow> status_t" where
  "sstp_task_stop r = (if r \<noteq> Killed then SSTP_FAIL else SSTP_OKAY)"

definition sstp_task_alive :: "kill_result \<Rightarrow> bool" where
  "sstp_task_alive r = (r \<noteq> Esrch)"

definition sstp_task_ttydev :: "sstp_task \<Rightarrow> string" where "sstp_task_ttydev task = tk_ttydev task"
definition sstp_task_stdout :: "sstp_task \<Rightarrow> int" where "sstp_task_stdout task = tk_out task"
definition sstp_task_stdin :: "sstp_task \<Rightarrow> int" where "sstp_task_stdin task = tk_in task"

text \<open>Whether a child was waited for, and the task.\<close>

definition sstp_task_wait :: "sstp_task \<Rightarrow> status_t \<times> sstp_task" where
  "sstp_task_wait task = (if tk_pid task \<noteq> 0 then (SSTP_OKAY, task\<lparr>tk_pid := 0\<rparr>) else (SSTP_FAIL, task))"

definition sstp_task_destroy :: "sstp_task option \<Rightarrow> 'f fds \<Rightarrow> 'f fds" where
  "sstp_task_destroy task t =
     (case task of None \<Rightarrow> t | Some task \<Rightarrow> snd (sstp_task_close (snd (sstp_task_wait task)) t))"

section \<open>Properties\<close>

text \<open>The terminal of a task: the child runs with its standard input and output on the terminal and
  with the descriptors the parent had opened for it closed; the parent keeps only its own end, as input
  and output; after the task is destroyed both ends are closed and everything else is as it was.\<close>

theorem task_terminal:
  assumes "2 < a" "2 < b" "a \<noteq> b" "t a = Some master" "t b = Some slave" "0 < ret"
  shows "\<exists>task0 task t1. sstp_task_new True pair (Some (a, b, tty)) SSTP_TASK_USEPTY = (SSTP_OKAY, Some task0)
    \<and> task_child null task0 (path # args) t = Some (t(0 := Some slave, 1 := Some slave, a := None, b := None), path, args)
    \<and> sstp_task_start ret task0 t = (SSTP_OKAY, task, t1) \<and> sstp_task_stdout task = a \<and> sstp_task_stdin task = a
    \<and> tk_pid task = ret \<and> t1 = t(b := None) \<and> sstp_task_destroy (Some task) t1 = t(a := None, b := None)"
  using assms
  by (simp add: sstp_task_new_def sstp_setup_pty_def task_child_def sstp_task_start_def sstp_task_close_def dup2_def
      close_fd_def sstp_task_destroy_def sstp_task_wait_def sstp_task_stdout_def sstp_task_stdin_def Let_def)
    (auto simp: fun_eq_iff)

lemma task_terminal_witness:
  "\<exists>task0. sstp_task_new True None (Some (5, 6, ''/dev/pts/3'')) SSTP_TASK_USEPTY = (SSTP_OKAY, Some task0)
    \<and> task_child (7, CHR ''n'') task0 [''/usr/sbin/pppd'', ''/dev/pts/3'', ''38400''] [0 \<mapsto> CHR ''i'', 1 \<mapsto> CHR ''o'', 5 \<mapsto> CHR ''m'', 6 \<mapsto> CHR ''s'']
      = Some ([0 \<mapsto> CHR ''i'', 1 \<mapsto> CHR ''o'', 5 \<mapsto> CHR ''m'', 6 \<mapsto> CHR ''s''](0 := Some (CHR ''s''), 1 := Some (CHR ''s''), 5 := None, 6 := None),
          ''/usr/sbin/pppd'', [''/dev/pts/3'', ''38400''])"
  using task_terminal [of 5 6 "[0 \<mapsto> CHR ''i'', 1 \<mapsto> CHR ''o'', 5 \<mapsto> CHR ''m'', 6 \<mapsto> CHR ''s'']" "CHR ''m''" "CHR ''s''" 77 None
      "''/dev/pts/3''" "(7, CHR ''n'')" "''/usr/sbin/pppd''" "[''/dev/pts/3'', ''38400'']"]
  by auto

text \<open>When standard input was closed at the start, the terminal takes its descriptor and the child loses its own.\<close>

lemma task_low_descriptor:
  assumes "1 < a" "t a = Some master" "t 1 = Some slave"
    and "sstp_task_new True pair (Some (a, 1, tty)) SSTP_TASK_USEPTY = (SSTP_OKAY, Some task)"
    and "task_child null task (path # args) t = Some (t', path', args')"
  shows "t' 1 = None"
  using assms
  by (auto simp: sstp_task_new_def sstp_setup_pty_def task_child_def sstp_task_close_def dup2_def close_fd_def Let_def)

text \<open>The first argument of the new program is not its name but the first one meant for it.\<close>

lemma task_argv0: "task_child null task (path # args) t = Some (t', p, a) \<Longrightarrow> a = args"
  by (simp add: task_child_def Let_def split_beta)

end
