(* ===== verification/Options.thy ===== *)
theory Options
  imports Prelude
begin

text \<open>
  The command line of the client, \<^verbatim>\<open>sstp/sstp-option.c\<close>. \<^verbatim>\<open>getopt_long\<close> and the environment are what
  they answer: the options found, with where in \<^verbatim>\<open>argv\<close> their argument is, and the order in which the
  other arguments are left. A null string is \<open>None\<close>; ending the process is \<open>Inl\<close> of its exit code.
\<close>

section \<open>Data\<close>

definition SSTP_OPT_NOLAUNCH :: u32 where "SSTP_OPT_NOLAUNCH = 0x0001"
definition SSTP_OPT_NODAEMON :: u32 where "SSTP_OPT_NODAEMON = 0x0002"
definition SSTP_OPT_NOPLUGIN :: u32 where "SSTP_OPT_NOPLUGIN = 0x0008"
definition SSTP_OPT_CERTWARN :: u32 where "SSTP_OPT_CERTWARN = 0x0010"
definition SSTP_OPT_SAVEROUTE :: u32 where "SSTP_OPT_SAVEROUTE = 0x0020"
definition SSTP_OPT_TLSEXT :: u32 where "SSTP_OPT_TLSEXT = 0x0040"

lemmas opt_consts = SSTP_OPT_NOLAUNCH_def SSTP_OPT_NODAEMON_def SSTP_OPT_NOPLUGIN_def SSTP_OPT_CERTWARN_def
  SSTP_OPT_SAVEROUTE_def SSTP_OPT_TLSEXT_def

record sstp_option =
  o_enable :: u32
  o_ca_cert :: "string option"
  o_ca_path :: "string option"
  o_crl_file :: "string option"
  o_crl_path :: "string option"
  o_server :: "string option"
  o_host :: "string option"
  o_ipparam :: "string option"
  o_password :: "string option"
  o_proxy :: "string option"
  o_priv_user :: "string option"
  o_priv_group :: "string option"
  o_priv_dir :: "string option"
  o_user :: "string option"
  o_uuid :: "string option"
  o_pppdargc :: int
  o_pppdargv :: "string list"

definition option_zero :: sstp_option where
  "option_zero = \<lparr>o_enable = 0, o_ca_cert = None, o_ca_path = None, o_crl_file = None, o_crl_path = None,
     o_server = None, o_host = None, o_ipparam = None, o_password = None, o_proxy = None, o_priv_user = None,
     o_priv_group = None, o_priv_dir = None, o_user = None, o_uuid = None, o_pppdargc = 0, o_pppdargv = []\<rparr>"

text \<open>One answer of \<^verbatim>\<open>getopt_long\<close>; \<open>optarg\<close> is the number of an argument and an offset in it.\<close>

record opt_answer =
  a_c :: char
  a_index :: nat
  a_arg :: "(nat \<times> nat) option"

record opt_env =
  g_answers :: "opt_answer list"
  g_rest :: "nat list"      \<comment> \<open>which arguments are left from \<^verbatim>\<open>optind\<close> on\<close>
  g_proxy :: "string option"  \<comment> \<open>\<^verbatim>\<open>getenv\<close>\<close>
  g_uid :: nat
  g_strdup :: "string \<Rightarrow> string option"

section \<open>Operations\<close>

primrec scramble_text :: "string \<Rightarrow> string" where
  "scramble_text [] = []"
| "scramble_text (c # cs) = CHR ''x'' # scramble_text cs"

definition arg_text :: "string list \<Rightarrow> nat \<times> nat \<Rightarrow> string" where
  "arg_text argv p = drop (snd p) (argv ! fst p)"

definition sstp_scramble :: "string list \<Rightarrow> nat \<times> nat \<Rightarrow> string list" where
  "sstp_scramble argv p = argv[fst p := take (snd p) (argv ! fst p) @ scramble_text (arg_text argv p)]"

definition sstp_parse_option ::
    "opt_env \<Rightarrow> sstp_option \<Rightarrow> string list \<Rightarrow> nat \<Rightarrow> (nat \<times> nat) option \<Rightarrow> (int + sstp_option \<times> string list) option" where
  "sstp_parse_option env ctx argv index optarg =
     (let dup = (\<lambda>upd. do { p \<leftarrow> optarg; Some (Inr (upd (g_strdup env (arg_text argv p)) ctx, argv)) });
          hide = (\<lambda>upd. do { p \<leftarrow> optarg; Some (Inr (upd (g_strdup env (arg_text argv p)) ctx, sstp_scramble argv p)) });
          flag = (\<lambda>f. Some (Inr (ctx\<lparr>o_enable := o_enable ctx OR f\<rparr>, argv))) in
      if index = 0 then dup (\<lambda>s. o_ca_cert_update (\<lambda>_. s))
      else if index = 1 then dup (\<lambda>s. o_ca_path_update (\<lambda>_. s))
      else if index = 2 then flag SSTP_OPT_CERTWARN
      else if index = 3 then Some (Inl 0)
      else if index = 4 then dup (\<lambda>s. o_host_update (\<lambda>_. s))
      else if index = 5 then dup (\<lambda>s. o_ipparam_update (\<lambda>_. s))
      else if index = 6 then flag SSTP_OPT_NOLAUNCH
      else if index = 7 then hide (\<lambda>s. o_password_update (\<lambda>_. s))
      else if index = 8 then dup (\<lambda>s. o_priv_user_update (\<lambda>_. s))
      else if index = 9 then dup (\<lambda>s. o_priv_group_update (\<lambda>_. s))
      else if index = 10 then dup (\<lambda>s. o_priv_dir_update (\<lambda>_. s))
      else if index = 11 then hide (\<lambda>s. o_proxy_update (\<lambda>_. s))
      else if index = 12 then dup (\<lambda>s. o_user_update (\<lambda>_. s))
      else if index = 13 then dup (\<lambda>s. o_uuid_update (\<lambda>_. s))
      else if index = 14 then if g_uid env \<noteq> 0 then Some (Inl (-1)) else flag SSTP_OPT_SAVEROUTE
      else if index = 15 then flag SSTP_OPT_TLSEXT
      else if index = 16 then Some (Inl 0)
      else if index = 17 then dup (\<lambda>s. o_crl_file_update (\<lambda>_. s))
      else if index = 18 then dup (\<lambda>s. o_crl_path_update (\<lambda>_. s))
      else Some (Inl (-1)))"

text \<open>The loop of \<^verbatim>\<open>sstp_parse_argv\<close>.\<close>

fun parse_answers ::
    "opt_env \<Rightarrow> opt_answer list \<Rightarrow> sstp_option \<Rightarrow> string list \<Rightarrow> (int + sstp_option \<times> string list) option" where
  "parse_answers env [] ctx argv = Some (Inr (ctx, argv))"
| "parse_answers env (a # as) ctx argv =
     (if a_c a = char_of (0 :: nat) then do {
        r \<leftarrow> sstp_parse_option env ctx argv (a_index a) (a_arg a);
        case r of Inl e \<Rightarrow> Some (Inl e) | Inr (ctx, argv) \<Rightarrow> parse_answers env as ctx argv }
      else if a_c a = CHR ''h'' then Some (Inl 0)
      else if a_c a = CHR ''v'' then Some (Inl 0)
      else Some (Inl (-1)))"

text \<open>The options and \<^verbatim>\<open>argv\<close>, or the exit code.\<close>

definition sstp_parse_argv :: "opt_env \<Rightarrow> string list \<Rightarrow> (int + sstp_option \<times> string list) option" where
  "sstp_parse_argv env argv = do {
     r \<leftarrow> parse_answers env (g_answers env) option_zero argv;
     case r of
       Inl e \<Rightarrow> Some (Inl e)
     | Inr (ctx, argv) \<Rightarrow>
         (let ctx = (case (o_proxy ctx, g_proxy env) of
              (None, Some p) \<Rightarrow> ctx\<lparr>o_proxy := g_strdup env p\<rparr> | _ \<Rightarrow> ctx) in
          case g_rest env of
            [] \<Rightarrow> Some (Inl (-1))
          | i # rest \<Rightarrow>
              (let ctx = (if o_user ctx \<noteq> None \<and> o_password ctx \<noteq> None
                          then ctx\<lparr>o_enable := o_enable ctx OR SSTP_OPT_NOPLUGIN\<rparr> else ctx) in
               Some (Inr (ctx\<lparr>o_server := g_strdup env (argv ! i), o_pppdargc := int (length rest),
                              o_pppdargv := map (\<lambda>j. argv ! j) rest\<rparr>, argv)))) }"

text \<open>The two strings of the certificate revocation lists are not released.\<close>

definition sstp_option_free :: "sstp_option \<Rightarrow> sstp_option \<times> string option list" where
  "sstp_option_free ctx = (option_zero, [o_crl_file ctx, o_crl_path ctx])"

section \<open>What parsing leaves\<close>

lemma scramble_text_replicate: "scramble_text s = replicate (length s) (CHR ''x'')"
  by (induction s) simp_all

text \<open>What the last answer of an option sets, from the arguments as they were given.\<close>

definition opt_value :: "opt_env \<Rightarrow> string list \<Rightarrow> nat \<Rightarrow> opt_answer list \<Rightarrow> string option \<Rightarrow> string option" where
  "opt_value env argv k as d =
     fold (\<lambda>a v. if a_index a = k then g_strdup env (arg_text argv (the (a_arg a))) else v) as d"

text \<open>The arguments afterwards.\<close>

definition hides :: "opt_answer \<Rightarrow> bool" where
  "hides a \<longleftrightarrow> a_index a = 7 \<or> a_index a = 11"

definition hidden :: "opt_answer list \<Rightarrow> string list \<Rightarrow> string list" where
  "hidden as argv = fold (\<lambda>a argv. if hides a then sstp_scramble argv (the (a_arg a)) else argv) as argv"

lemma parse_option_step:
  assumes "sstp_parse_option env ctx argv k p = Some (Inr (ctx', argv'))"
  shows "argv' = (if k = 7 \<or> k = 11 then sstp_scramble argv (the p) else argv)"
    and "o_password ctx' = (if k = 7 then g_strdup env (arg_text argv (the p)) else o_password ctx)"
    and "o_user ctx' = (if k = 12 then g_strdup env (arg_text argv (the p)) else o_user ctx)"
    and "o_proxy ctx' = (if k = 11 then g_strdup env (arg_text argv (the p)) else o_proxy ctx)"
    and "o_enable ctx' AND SSTP_OPT_NOPLUGIN = o_enable ctx AND SSTP_OPT_NOPLUGIN"
    and "k = 7 \<or> k = 11 \<or> k = 12 \<Longrightarrow> p \<noteq> None"
proof -
  note d = sstp_parse_option_def Let_def opt_consts bit.conj_disj_distrib2
  show "argv' = (if k = 7 \<or> k = 11 then sstp_scramble argv (the p) else argv)"
    using assms by (auto simp: d split: if_splits Option.bind_splits)
  show "o_password ctx' = (if k = 7 then g_strdup env (arg_text argv (the p)) else o_password ctx)"
    using assms by (auto simp: d split: if_splits Option.bind_splits)
  show "o_user ctx' = (if k = 12 then g_strdup env (arg_text argv (the p)) else o_user ctx)"
    using assms by (auto simp: d split: if_splits Option.bind_splits)
  show "o_proxy ctx' = (if k = 11 then g_strdup env (arg_text argv (the p)) else o_proxy ctx)"
    using assms by (auto simp: d split: if_splits Option.bind_splits)
  show "o_enable ctx' AND SSTP_OPT_NOPLUGIN = o_enable ctx AND SSTP_OPT_NOPLUGIN"
    using assms by (auto simp: d split: if_splits Option.bind_splits)
  show "k = 7 \<or> k = 11 \<or> k = 12 \<Longrightarrow> p \<noteq> None"
    using assms by (auto simp: d split: if_splits Option.bind_splits)
qed

lemma scramble_elsewhere: "i \<noteq> fst p \<Longrightarrow> sstp_scramble argv p ! i = argv ! i"
  by (simp add: sstp_scramble_def)

definition arg_positions :: "opt_answer list \<Rightarrow> nat list" where
  "arg_positions as = concat (map (\<lambda>a. case a_arg a of None \<Rightarrow> [] | Some p \<Rightarrow> [fst p]) as)"

lemma parse_answers_values:
  assumes "parse_answers env as ctx argv = Some (Inr (ctx', argv'))" "distinct (arg_positions as)"
    and "\<forall>i \<in> set (arg_positions as). argv ! i = argv0 ! i"
  shows "argv' = hidden as argv \<and> o_password ctx' = opt_value env argv0 7 as (o_password ctx)
    \<and> o_user ctx' = opt_value env argv0 12 as (o_user ctx) \<and> o_proxy ctx' = opt_value env argv0 11 as (o_proxy ctx)
    \<and> o_enable ctx' AND SSTP_OPT_NOPLUGIN = o_enable ctx AND SSTP_OPT_NOPLUGIN"
  using assms
proof (induction "as" arbitrary: ctx argv)
  case (Cons a as')
  obtain ctx1 argv1 where s: "sstp_parse_option env ctx argv (a_index a) (a_arg a) = Some (Inr (ctx1, argv1))"
    "parse_answers env as' ctx1 argv1 = Some (Inr (ctx', argv'))"
    using Cons.prems(1) by (auto split: if_splits Option.bind_splits sum.splits)
  note st = parse_option_step [OF s(1)]
  have v: "arg_text argv (the (a_arg a)) = arg_text argv0 (the (a_arg a))" if "a_arg a \<noteq> None"
    using Cons.prems(3) that by (auto simp: arg_positions_def arg_text_def)
  have keep: "\<forall>i \<in> set (arg_positions as'). argv1 ! i = argv0 ! i"
  proof
    fix i assume i: "i \<in> set (arg_positions as')"
    then have "argv ! i = argv0 ! i" using Cons.prems(3) by (simp add: arg_positions_def)
    moreover have "a_arg a = Some p \<Longrightarrow> i \<noteq> fst p" for p
      using i Cons.prems(2) by (auto simp: arg_positions_def)
    ultimately show "argv1 ! i = argv0 ! i"
      using st(1,6) by (cases "a_arg a") (auto simp: scramble_elsewhere)
  qed
  have "distinct (arg_positions as')" using Cons.prems(2) by (simp add: arg_positions_def)
  note ih = Cons.IH [OF s(2) this keep]
  show ?case using ih st(1-5) v st(6) by (auto simp: hidden_def opt_value_def hides_def)
qed (simp add: hidden_def opt_value_def)

lemma hidden_elsewhere: "i \<notin> set (arg_positions as) \<Longrightarrow> \<forall>a \<in> set as. hides a \<longrightarrow> a_arg a \<noteq> None \<Longrightarrow> hidden as argv ! i = argv ! i"
proof (induction "as" arbitrary: argv)
  case (Cons a as')
  then have "hidden as' x ! i = x ! i" for x by (simp add: arg_positions_def)
  moreover have "hides a \<Longrightarrow> i \<noteq> fst (the (a_arg a))" using Cons.prems by (auto simp: arg_positions_def)
  ultimately show ?case by (simp add: hidden_def scramble_elsewhere)
qed (simp add: hidden_def)

lemma hidden_text:
  assumes "a \<in> set as" "hides a" "a_arg a = Some (i, j)" "distinct (arg_positions as)" "i < length argv"
    and "\<forall>a \<in> set as. hides a \<longrightarrow> a_arg a \<noteq> None"
  shows "hidden as argv ! i = take j (argv ! i) @ replicate (length (argv ! i) - j) (CHR ''x'')"
  using assms
proof (induction "as" arbitrary: argv)
  case (Cons b as')
  show ?case
  proof (cases "a = b")
    case True
    then have "i \<notin> set (arg_positions as')" using Cons.prems(3,4) by (auto simp: arg_positions_def)
    then have "hidden as' x ! i = x ! i" for x using hidden_elsewhere [of i as' x] Cons.prems(6) by simp
    then show ?thesis using True Cons.prems(2,3,5)
      by (simp add: hidden_def sstp_scramble_def scramble_text_replicate arg_text_def)
  next
    case False
    let ?argv = "if hides b then sstp_scramble argv (the (a_arg b)) else argv"
    have a: "a \<in> set as'" using False Cons.prems(1) by simp
    then have "i \<in> set (arg_positions as')" using Cons.prems(3) by (force simp: arg_positions_def)
    then have "hides b \<Longrightarrow> i \<noteq> fst (the (a_arg b))" using Cons.prems(4,6) by (auto simp: arg_positions_def)
    then have "?argv ! i = argv ! i" by (simp add: scramble_elsewhere)
    moreover have "hidden as' ?argv ! i = take j (?argv ! i) @ replicate (length (?argv ! i) - j) (CHR ''x'')"
      using Cons.IH [OF a Cons.prems(2,3), of ?argv] Cons.prems(4-6) by (simp add: arg_positions_def sstp_scramble_def)
    ultimately show ?thesis by (simp add: hidden_def)
  qed
qed simp

lemma parse_answers_args:
  "parse_answers env as ctx argv = Some (Inr r) \<Longrightarrow> \<forall>a \<in> set as. hides a \<longrightarrow> a_arg a \<noteq> None"
proof (induction "as" arbitrary: ctx argv)
  case (Cons a as')
  obtain ctx1 argv1 where s: "sstp_parse_option env ctx argv (a_index a) (a_arg a) = Some (Inr (ctx1, argv1))"
    "parse_answers env as' ctx1 argv1 = Some (Inr r)"
    using Cons.prems by (auto split: if_splits Option.bind_splits sum.splits)
  show ?case using Cons.IH [OF s(2)] parse_option_step(6) [OF s(1)] by (auto simp: hides_def)
qed simp

text \<open>C33. The command line: user and password are those given last, the plugin is switched off exactly
  when both are there, the first argument left is the server and the others are for pppd; every
  password and proxy is overwritten in the arguments of the process, up to the last character.\<close>

theorem parse_argv_result:
  assumes "sstp_parse_argv env argv = Some (Inr (ctx, argv'))" "distinct (arg_positions (g_answers env))"
    and "set (g_rest env) \<inter> set (arg_positions (g_answers env)) = {}"
  shows "o_user ctx = opt_value env argv 12 (g_answers env) None \<and> o_password ctx = opt_value env argv 7 (g_answers env) None
    \<and> (o_enable ctx AND SSTP_OPT_NOPLUGIN \<noteq> 0) = (o_user ctx \<noteq> None \<and> o_password ctx \<noteq> None)
    \<and> o_server ctx = g_strdup env (argv ! hd (g_rest env)) \<and> o_pppdargv ctx = map (\<lambda>j. argv ! j) (tl (g_rest env))
    \<and> (\<forall>a \<in> set (g_answers env). \<forall>i j. hides a \<and> a_arg a = Some (i, j) \<and> i < length argv
        \<longrightarrow> argv' ! i = take j (argv ! i) @ replicate (length (argv ! i) - j) (CHR ''x''))"
proof -
  obtain ctx1 argv1 where p1: "parse_answers env (g_answers env) option_zero argv = Some (Inr (ctx1, argv1))"
    using assms(1) by (auto simp: sstp_parse_argv_def simp del: parse_answers.simps split: Option.bind_splits sum.splits)
  obtain i rest where ir: "g_rest env = i # rest" using assms(1) by (cases "g_rest env") (simp_all add: sstp_parse_argv_def p1)
  have p: "parse_answers env (g_answers env) option_zero argv = Some (Inr (ctx1, argv'))"
    using assms(1) p1 by (simp add: sstp_parse_argv_def p1 ir Let_def)
  define ctx2 where "ctx2 = (case (o_proxy ctx1, g_proxy env) of (None, Some p) \<Rightarrow> ctx1\<lparr>o_proxy := g_strdup env p\<rparr> | _ \<Rightarrow> ctx1)"
  have e2: "o_user ctx2 = o_user ctx1" "o_password ctx2 = o_password ctx1" "o_enable ctx2 = o_enable ctx1"
    by (simp_all add: ctx2_def split: option.splits)
  define ctx3 where "ctx3 = (if o_user ctx2 \<noteq> None \<and> o_password ctx2 \<noteq> None
    then ctx2\<lparr>o_enable := o_enable ctx2 OR SSTP_OPT_NOPLUGIN\<rparr> else ctx2)"
  have c: "ctx = ctx3\<lparr>o_server := g_strdup env (argv' ! i), o_pppdargc := int (length rest), o_pppdargv := map (\<lambda>j. argv' ! j) rest\<rparr>"
    using assms(1) unfolding sstp_parse_argv_def p ctx3_def ctx2_def ir Let_def by simp
  note v = parse_answers_values [OF p assms(2), of argv, simplified] and ok = parse_answers_args [OF p]
  have same: "argv' ! i = argv ! i" if "i \<in> set (g_rest env)" for i
    using hidden_elsewhere [OF _ ok, of i argv] v assms(3) that by blast
  have "o_user ctx = o_user ctx1" "o_password ctx = o_password ctx1"
    "o_server ctx = g_strdup env (argv ! hd (g_rest env))" "o_pppdargv ctx = map (\<lambda>j. argv ! j) (tl (g_rest env))"
    "o_enable ctx = (if o_user ctx1 \<noteq> None \<and> o_password ctx1 \<noteq> None then o_enable ctx1 OR SSTP_OPT_NOPLUGIN else o_enable ctx1)"
    using same e2 by (simp_all add: c ir ctx3_def)
  moreover have "o_enable ctx1 AND SSTP_OPT_NOPLUGIN = 0" "(o_enable ctx1 OR SSTP_OPT_NOPLUGIN) AND SSTP_OPT_NOPLUGIN \<noteq> 0"
    using v by (simp_all add: option_zero_def bit.conj_disj_distrib2) (simp add: SSTP_OPT_NOPLUGIN_def)
  moreover have "\<forall>a \<in> set (g_answers env). \<forall>i j. hides a \<and> a_arg a = Some (i, j) \<and> i < length argv
        \<longrightarrow> argv' ! i = take j (argv ! i) @ replicate (length (argv ! i) - j) (CHR ''x'')"
    using hidden_text [OF _ _ _ assms(2) _ ok] v by blast
  ultimately show ?thesis using v by (simp add: option_zero_def)
qed

lemma parse_argv_result_witness:
  "\<exists>ctx. sstp_parse_argv
      \<lparr>g_answers = [\<lparr>a_c = char_of (0 :: nat), a_index = 12, a_arg = Some (2, 0)\<rparr>, \<lparr>a_c = char_of (0 :: nat), a_index = 7, a_arg = Some (3, 11)\<rparr>],
       g_rest = [4, 5], g_proxy = None, g_uid = 0, g_strdup = Some\<rparr>
      [''sstpc'', ''--user'', ''joe'', ''--password=pw'', ''vpn'', ''noauth'']
    = Some (Inr (ctx, [''sstpc'', ''--user'', ''joe'', ''--password=xx'', ''vpn'', ''noauth'']))
    \<and> o_password ctx = Some ''pw'' \<and> o_pppdargv ctx = [''noauth'']"
proof -
  let ?env = "\<lparr>g_answers = [\<lparr>a_c = char_of (0 :: nat), a_index = 12, a_arg = Some (2, 0)\<rparr>, \<lparr>a_c = char_of (0 :: nat), a_index = 7, a_arg = Some (3, 11)\<rparr>],
       g_rest = [4, 5], g_proxy = None, g_uid = 0, g_strdup = Some\<rparr>"
  let ?argv = "[''sstpc'', ''--user'', ''joe'', ''--password=pw'', ''vpn'', ''noauth'']"
  obtain ctx where r: "sstp_parse_argv ?env ?argv
      = Some (Inr (ctx, [''sstpc'', ''--user'', ''joe'', ''--password=xx'', ''vpn'', ''noauth'']))"
    by (simp add: sstp_parse_argv_def sstp_parse_option_def sstp_scramble_def arg_text_def option_zero_def)
  show ?thesis using r parse_argv_result [OF r] by (simp add: arg_positions_def opt_value_def arg_text_def)
qed

end
