(* ===== verification/Pty.thy ===== *)
theory Pty
  imports Fcs Ppp Task Options
begin

text \<open>
  The bridge to the external \<^verbatim>\<open>pppd\<close>, \<^verbatim>\<open>sstp/sstp-pppd.c\<close>: what pppd writes to its terminal is HDLC framed;
  every frame becomes an SSTP data packet, and the payload of a packet of the server is framed and
  written back. Without the plugin the bridge looks into the packets for the authentication.

  The context is a record that a client may extend. Its calls of the client and of the stream
  are functions on the whole state, gathered in the record \<open>pty_world\<close>; they, and so the operations,
  may end the process (\<open>Inl\<close> its exit code). Names that \<^verbatim>\<open>ios-pppd.c\<close> has too end in \<open>_pty\<close>.
\<close>

section \<open>Data\<close>

abbreviation (input) PPP_PROTO_PAP :: u16 where "PPP_PROTO_PAP \<equiv> 0xc023"
abbreviation (input) PPP_PROTO_EAP :: u16 where "PPP_PROTO_EAP \<equiv> 0xc227"
abbreviation (input) EAP_RESPONSE :: u8 where "EAP_RESPONSE \<equiv> 2"
abbreviation (input) EAPT_TLS :: u8 where "EAPT_TLS \<equiv> 13"
abbreviation (input) EAPT_MSCHAPV2 :: u8 where "EAPT_MSCHAPV2 \<equiv> 26"

text \<open>\<open>y_disk\<close> are the temporary files, \<open>y_reading\<close> says whether the read event is armed.\<close>

record pty =
  y_task :: "sstp_task option"
  y_rx :: sstp_buff
  y_tx :: sstp_buff
  y_notify :: bool
  y_chap :: sstp_chap
  y_sock :: int
  y_ip_up :: bool
  y_auth_done :: bool
  y_auth_check :: bool
  y_del_file :: bool
  y_tmpfile :: string
  y_t_end :: "64 word"
  y_t_start :: "64 word"
  y_sent :: "64 word"
  y_recv :: "64 word"
  y_first :: bool
  y_reading :: bool
  y_disk :: "string \<Rightarrow> bytes option"

text \<open>
  \<open>y_call\<close> is the notify function, \<open>y_send\<close> is \<open>sstp_stream_send\<close> of the transmit buffer with the
  completion \<open>ppp_send_complete\<close>, \<open>y_unlink\<close> whether the temporary file can be removed.
\<close>

record 's pty_world =
  y_call :: "ppp_event \<Rightarrow> 's \<Rightarrow> (int + 's) option"
  y_send :: "'s \<Rightarrow> (status_t \<times> 's) option"
  y_unlink :: bool

section \<open>Looking into a packet\<close>

definition ppp_record_recv_pty :: "u32 \<Rightarrow> 'z pty_scheme \<Rightarrow> 'z pty_scheme" where
  "ppp_record_recv_pty len ctx = ctx\<lparr>y_recv := y_recv ctx + ucast len\<rparr>"

definition ppp_record_sent_pty :: "u32 \<Rightarrow> 'z pty_scheme \<Rightarrow> 'z pty_scheme" where
  "ppp_record_sent_pty len ctx = ctx\<lparr>y_sent := y_sent ctx + ucast len\<rparr>"

definition sstp_pppd_deltmp :: "('z pty_scheme, 'e) pty_world_scheme \<Rightarrow> 'z pty_scheme \<Rightarrow> 'z pty_scheme" where
  "sstp_pppd_deltmp w ctx =
     (if \<not> y_del_file ctx then ctx
      else ctx\<lparr>y_disk := (if y_unlink w then (y_disk ctx)(y_tmpfile ctx := None) else y_disk ctx), y_del_file := False\<rparr>)"

definition sstp_pppd_getchap_pty :: "'z pty_scheme \<Rightarrow> sstp_chap" where
  "sstp_pppd_getchap_pty ctx = y_chap ctx"

text \<open>Established for, bytes received, bytes sent.\<close>

definition sstp_pppd_session_details_pty :: "64 word \<Rightarrow> 'z pty_scheme \<Rightarrow> 64 word \<times> 64 word \<times> 64 word" where
  "sstp_pppd_session_details_pty now ctx =
     (let t_end = (if y_t_end ctx = 0 then now else y_t_end ctx)
      in (t_end - y_t_start ctx, y_recv ctx, y_sent ctx))"

text \<open>The call of the notify function where the code tests it first.\<close>

definition notify_pty :: "('z pty_scheme, 'e) pty_world_scheme \<Rightarrow> ppp_event \<Rightarrow> 'z pty_scheme \<Rightarrow> (int + 'z pty_scheme) option" where
  "notify_pty w ev ctx = (if y_notify ctx then y_call w ev ctx else Some (Inr ctx))"

text \<open>Where the frame begins, behind the address and control bytes if they are there.\<close>

definition skip_hdlc :: "bytes \<Rightarrow> int \<Rightarrow> int option" where
  "skip_hdlc d p = do {
     a \<leftarrow> rd d p;
     if a = 0xff then do { b \<leftarrow> rd d (p + 1); Some (if b = 0x03 then p + 2 else p) } else Some p }"

definition sstp_pppd_ipup ::
    "('z pty_scheme, 'e) pty_world_scheme \<Rightarrow> 'z pty_scheme \<Rightarrow> (int + 'z pty_scheme) option" where
  "sstp_pppd_ipup w ctx = do {
     data \<leftarrow> sstp_pkt_data (y_tx ctx);
     p \<leftarrow> data;
     p \<leftarrow> skip_hdlc (b_data (y_tx ctx)) p;
     proto \<leftarrow> rd16 (b_data (y_tx ctx)) p;
     if proto = PPP_PROTO_IPCP then do {
       r \<leftarrow> notify_pty w SSTP_PPP_UP ctx;
       Some (case r of Inl e \<Rightarrow> Inl e | Inr ctx \<Rightarrow> Inr (ctx\<lparr>y_ip_up := True\<rparr>)) }
     else Some (Inr ctx) }"

text \<open>\<^verbatim>\<open>memcpy\<close> of the 49 bytes at \<open>p\<close> over the context of the exchange, then the notification.\<close>

definition chap_seen ::
    "('z pty_scheme, 'e) pty_world_scheme \<Rightarrow> bytes \<Rightarrow> int \<Rightarrow> 'z pty_scheme \<Rightarrow> (int + 'z pty_scheme) option" where
  "chap_seen w d p ctx = do {
     v \<leftarrow> rd_n d p 49;
     let ctx = ctx\<lparr>y_chap := \<lparr>challenge = take 16 v, response = take 8 (drop 16 v), nt_response = take 24 (drop 24 v),
                              chap_flags = v ! 48\<rparr>\<rparr>;
     r \<leftarrow> notify_pty w SSTP_PPP_AUTH ctx;
     Some (case r of Inl e \<Rightarrow> Inl e | Inr ctx \<Rightarrow> Inr (ctx\<lparr>y_auth_done := True\<rparr>)) }"

definition auth_chap ::
    "('z pty_scheme, 'e) pty_world_scheme \<Rightarrow> bytes \<Rightarrow> int \<Rightarrow> 'z pty_scheme \<Rightarrow> (int + 'z pty_scheme) option" where
  "auth_chap w d hdr ctx = do {
     code \<leftarrow> rd d hdr;
     is_response \<leftarrow> (if code = CHAP_RESPONSE then do { v \<leftarrow> rd d (hdr + 4); Some (v = MSCHAP_VALUE_LEN) } else Some False);
     if is_response then chap_seen w d (hdr + 5) ctx
     else if code = CHAP_FAILURE then Some (Inr ctx)
     else Some (Inr (sstp_pppd_deltmp w ctx)) }"

definition auth_eap ::
    "('z pty_scheme, 'e) pty_world_scheme \<Rightarrow> bytes \<Rightarrow> int \<Rightarrow> 'z pty_scheme \<Rightarrow> (int + 'z pty_scheme) option" where
  "auth_eap w d hdr ctx = do {
     code \<leftarrow> rd d hdr;
     if code = EAP_RESPONSE then do {
       ty \<leftarrow> rd d (hdr + 4);
       is_response \<leftarrow> (if ty = EAPT_MSCHAPV2 then do {
           op \<leftarrow> rd d (hdr + 5);
           if op = CHAP_RESPONSE then do { v \<leftarrow> rd d (hdr + 9); Some (v = MSCHAP_VALUE_LEN) } else Some False }
         else Some False);
       if is_response then chap_seen w d (hdr + 10) ctx
       else if ty = EAPT_TLS then Some (Inl (-1))
       else Some (Inr ctx) }
     else Some (Inr ctx) }"

definition sstp_pppd_check_auth ::
    "('z pty_scheme, 'e) pty_world_scheme \<Rightarrow> 'z pty_scheme \<Rightarrow> (int + 'z pty_scheme) option" where
  "sstp_pppd_check_auth w ctx = do {
     let d = b_data (y_tx ctx);
     data \<leftarrow> sstp_pkt_data (y_tx ctx);
     p \<leftarrow> data;
     p \<leftarrow> skip_hdlc d p;
     a \<leftarrow> rd d p;
     proto \<leftarrow> (if odd a then Some (ucast a) else do { b \<leftarrow> rd d (p + 1); Some (un16 a b) });
     let hdr = p + (if odd a then 1 else 2);
     if proto = PPP_PROTO_CHAP then auth_chap w d hdr ctx
     else if proto = PPP_PROTO_EAP then auth_eap w d hdr ctx
     else if proto = PPP_PROTO_PAP then Some (Inr ((sstp_pppd_deltmp w ctx)\<lparr>y_auth_done := True\<rparr>))
     else Some (Inr ctx) }"

section \<open>From pppd to the server\<close>

text \<open>The two looks into a finished packet.\<close>

definition ppp_inspect :: "('z pty_scheme, 'e) pty_world_scheme \<Rightarrow> 'z pty_scheme \<Rightarrow> (int + 'z pty_scheme) option" where
  "ppp_inspect w ctx = do {
     r \<leftarrow> (if y_auth_check ctx \<and> \<not> y_auth_done ctx then sstp_pppd_check_auth w ctx else Some (Inr ctx));
     case r of
       Inl e \<Rightarrow> Some (Inl e)
     | Inr ctx \<Rightarrow>
         if y_auth_check ctx \<and> y_auth_done ctx \<and> \<not> y_ip_up ctx then sstp_pppd_ipup w ctx
         else Some (Inr ctx) }"

text \<open>One frame from the receive buffer into the transmit buffer: the status, \<open>off\<close> and \<open>max\<close>.\<close>

definition ppp_decode :: "'z pty_scheme \<Rightarrow> (status_t \<times> int \<times> int \<times> 'z pty_scheme) option" where
  "ppp_decode ctx = do {
     let rx = y_rx ctx;
     let tx = y_tx ctx;
     (ret, off, max, out) \<leftarrow> sstp_frame_decode (drop (nat (b_off rx)) (b_data rx)) (nat (b_len rx - b_off rx)) (nat (b_max tx - b_len tx));
     d \<leftarrow> wr_n (b_data tx) (b_len tx) out;
     Some (ret, off, max, ctx\<lparr>y_tx := tx\<lparr>b_data := d\<rparr>\<rparr>) }"

text \<open>The frame that is not complete moves to the beginning of the buffer.\<close>

definition ppp_keep_rest :: "int \<Rightarrow> 'z pty_scheme \<Rightarrow> 'z pty_scheme option" where
  "ppp_keep_rest off ctx = do {
     let rx = y_rx ctx;
     rest \<leftarrow> rd_n (b_data rx) (b_off rx) (b_len rx - b_off rx);
     d \<leftarrow> wr_n (b_data rx) 0 rest;
     Some (ctx\<lparr>y_rx := rx\<lparr>b_data := d, b_len := off, b_off := 0\<rparr>\<rparr>) }"

partial_function (option) ppp_process_loop ::
    "('z pty_scheme, 'e) pty_world_scheme \<Rightarrow> 'z pty_scheme \<Rightarrow> (int + status_t \<times> 'z pty_scheme) option" where
  "ppp_process_loop w ctx =
     (if \<not> b_off (y_rx ctx) < b_len (y_rx ctx)
      then Some (Inr (SSTP_OKAY,
        if b_off (y_rx ctx) = b_len (y_rx ctx) then ctx\<lparr>y_rx := sstp_buff_reset (y_rx ctx)\<rparr> else ctx))
      else do {
        (ret, tx) \<leftarrow> sstp_pkt_init (y_tx ctx) SSTP_MSG_DATA;
        let ctx = ctx\<lparr>y_tx := tx\<rparr>;
        if SSTP_OKAY \<noteq> ret then Some (Inr (SSTP_FAIL, ctx))
        else do {
          (ret, off, max, ctx) \<leftarrow> ppp_decode ctx;
          if SSTP_OKAY \<noteq> ret then
            if SSTP_OVERFLOW = ret \<or> b_len (y_rx ctx) = b_off (y_rx ctx) + off then do {
              ctx \<leftarrow> ppp_keep_rest off ctx;
              Some (Inr (SSTP_OKAY, ctx)) }
            else ppp_process_loop w (ctx\<lparr>y_rx := (y_rx ctx)\<lparr>b_off := b_off (y_rx ctx) + off\<rparr>\<rparr>)
          else do {
            let ctx = ctx\<lparr>y_tx := (y_tx ctx)\<lparr>b_len := b_len (y_tx ctx) + max\<rparr>,
                          y_rx := (y_rx ctx)\<lparr>b_off := b_off (y_rx ctx) + off\<rparr>\<rparr>;
            tx \<leftarrow> sstp_pkt_update (y_tx ctx);
            r \<leftarrow> ppp_inspect w (ctx\<lparr>y_tx := tx\<rparr>);
            case r of
              Inl e \<Rightarrow> Some (Inl e)
            | Inr ctx \<Rightarrow> do {
                (ret, ctx) \<leftarrow> y_send w ctx;
                if SSTP_OKAY \<noteq> ret then Some (Inr (SSTP_INPROG, ctx))
                else ppp_process_loop w (ppp_record_sent_pty (word_of_int (b_len (y_tx ctx))) ctx) } } } })"

definition ppp_process_data ::
    "('z pty_scheme, 'e) pty_world_scheme \<Rightarrow> 'z pty_scheme \<Rightarrow> (int + status_t \<times> 'z pty_scheme) option" where
  "ppp_process_data w ctx = ppp_process_loop w (ctx\<lparr>y_tx := sstp_buff_reset (y_tx ctx)\<rparr>)"

definition ppp_send_complete_pty ::
    "('z pty_scheme, 'e) pty_world_scheme \<Rightarrow> status_t \<Rightarrow> 'z pty_scheme \<Rightarrow> (int + 'z pty_scheme) option" where
  "ppp_send_complete_pty w status ctx = do {
     r \<leftarrow> ppp_process_data w ctx;
     Some (case r of
       Inl e \<Rightarrow> Inl e
     | Inr (ret, ctx) \<Rightarrow>
         Inr (if ret = SSTP_OKAY then (ppp_record_sent_pty (word_of_int (b_len (y_tx ctx))) ctx)\<lparr>y_reading := True\<rparr> else ctx)) }"

text \<open>\<open>got\<close> is what \<^verbatim>\<open>read\<close> stores, at most the free space; \<open>None\<close> is its error.\<close>

definition sstp_pppd_recv_pty ::
    "('z pty_scheme, 'e) pty_world_scheme \<Rightarrow> bytes option \<Rightarrow> 'z pty_scheme \<Rightarrow> (int + 'z pty_scheme) option" where
  "sstp_pppd_recv_pty w got ctx = do {
     let ctx = ctx\<lparr>y_reading := False\<rparr>;
     r \<leftarrow> (if y_first ctx then
             if \<not> y_notify ctx then None
             else do {
               r \<leftarrow> y_call w SSTP_PPP_START ctx;
               Some (case r of Inl e \<Rightarrow> Inl e | Inr ctx \<Rightarrow> Inr (ctx\<lparr>y_first := False\<rparr>)) }
           else Some (Inr ctx));
     case r of
       Inl e \<Rightarrow> Some (Inl e)
     | Inr ctx \<Rightarrow> do {
         let rx = y_rx ctx;
         d \<leftarrow> (case got of None \<Rightarrow> Some (b_data rx) | Some bs \<Rightarrow> wr_n (b_data rx) (b_len rx) bs);
         let rx = rx\<lparr>b_data := d, b_len := b_len rx + (case got of None \<Rightarrow> -1 | Some bs \<Rightarrow> int (length bs))\<rparr>;
         let ctx = ctx\<lparr>y_rx := rx\<rparr>;
         if b_len rx \<le> 0 then notify_pty w SSTP_PPP_DOWN ctx
         else do {
           r \<leftarrow> ppp_process_data w ctx;
           Some (case r of
             Inl e \<Rightarrow> Inl e
           | Inr (ret, ctx) \<Rightarrow> Inr (if ret = SSTP_OKAY then ctx\<lparr>y_reading := True\<rparr> else ctx)) } } }"

section \<open>From the server to pppd\<close>

text \<open>\<open>n\<close> is what \<^verbatim>\<open>write\<close> returns for the frame, which comes back with the status.\<close>

definition sstp_pppd_send_pty ::
    "(bytes \<Rightarrow> int) \<Rightarrow> bytes \<Rightarrow> int \<Rightarrow> 'z pty_scheme \<Rightarrow> (status_t \<times> bytes option \<times> 'z pty_scheme) option" where
  "sstp_pppd_send_pty n buf len ctx = do {
     let flen = 2 * len + 4;
     src \<leftarrow> rd_n buf 0 len;
     (ret, frame, flen) \<leftarrow> sstp_frame_encode src flen;
     if SSTP_OKAY \<noteq> ret then Some (SSTP_FAIL, None, ctx)
     else do {
       let ctx = ppp_record_recv_pty (word_of_int len) ctx;
       Some (if n (take (nat flen) frame) \<noteq> flen then SSTP_FAIL else SSTP_OKAY, Some (take (nat flen) frame), ctx) } }"

section \<open>Starting and stopping pppd\<close>

definition SSTP_TMP_PATH :: string where "SSTP_TMP_PATH = ''/tmp/''"

text \<open>The answers: memory and terminal of the task, \<^verbatim>\<open>mkstemp\<close> (descriptor, name), \<^verbatim>\<open>fork\<close>, the time.\<close>

record start_sys =
  k_mem :: bool
  k_pty :: "(int \<times> int \<times> string) option"
  k_mkstemp :: "int \<times> string"
  k_fork :: int
  k_now :: "64 word"

definition str_bytes :: "string \<Rightarrow> bytes" where
  "str_bytes s = map (\<lambda>c. of_nat (of_char c)) s"

text \<open>What \<^verbatim>\<open>snprintf\<close> leaves in an array of 255 bytes and what \<^verbatim>\<open>write\<close> then takes from it.\<close>

definition password_line :: "string \<Rightarrow> bytes option" where
  "password_line pw =
     (let s = str_bytes (''password '' @ [CHR 0x22] @ pw @ [CHR 0x22, CHR 0x0A]); j = int (length s) in
      rd_n (take 254 s @ [0] @ replicate (254 - length s) 0) 0 j)"

definition password_file :: "start_sys \<Rightarrow> string \<Rightarrow> 'z pty_scheme \<Rightarrow> (bool \<times> 'z pty_scheme) option" where
  "password_file sys pw ctx = do {
     tmpl \<leftarrow> wr_n (replicate 64 0) 0 (str_bytes (SSTP_TMP_PATH @ ''/sstp-pppd.XXXXXX'') @ [0]);
     let (fd, name) = k_mkstemp sys;
     if fd \<le> 0 then Some (False, ctx\<lparr>y_tmpfile := SSTP_TMP_PATH @ ''/sstp-pppd.XXXXXX''\<rparr>)
     else do {
       line \<leftarrow> password_line pw;
       Some (True, ctx\<lparr>y_tmpfile := name, y_disk := (y_disk ctx)(name \<mapsto> line), y_auth_check := True, y_del_file := True\<rparr>) } }"

text \<open>The argument vector has room for 20 pointers, the terminating null one included.\<close>

definition pppd_args :: "sstp_task \<Rightarrow> sstp_option \<Rightarrow> string \<Rightarrow> string \<Rightarrow> string list option" where
  "pppd_args task opts sockname tmpfile =
     (let args = [''/usr/sbin/pppd'', sstp_task_ttydev task, ''38400'']
        @ (case o_user opts of None \<Rightarrow> [] | Some u \<Rightarrow> [''user'', u])
        @ (case o_password opts of None \<Rightarrow> [] | Some p \<Rightarrow> [''file'', tmpfile])
        @ (if o_enable opts AND SSTP_OPT_NOPLUGIN = 0 then [''plugin'', ''sstp-pppd-plugin.so'', ''sstp-sock'', sockname] else [])
        @ o_pppdargv opts in
      if length args + 1 \<le> 20 then Some args else None)"

text \<open>The status, the arguments of the child that was started, and the context.\<close>

definition sstp_pppd_start_pty ::
    "start_sys \<Rightarrow> sstp_option \<Rightarrow> string \<Rightarrow> 'z pty_scheme \<Rightarrow> (status_t \<times> string list option \<times> 'z pty_scheme) option" where
  "sstp_pppd_start_pty sys opts sockname ctx =
     (let armed = (\<lambda>ctx. ctx\<lparr>y_t_start := k_now sys, y_reading := True\<rparr>) in
      if SSTP_OPT_NOLAUNCH AND o_enable opts = 0 then
        (let (ret, task) = sstp_task_new (k_mem sys) None (k_pty sys) SSTP_TASK_USEPTY; ctx = ctx\<lparr>y_task := task\<rparr> in
         case task of
           None \<Rightarrow> Some (SSTP_FAIL, None, ctx)
         | Some task \<Rightarrow> do {
             (ok, ctx) \<leftarrow> (case o_password opts of None \<Rightarrow> Some (True, ctx) | Some pw \<Rightarrow> password_file sys pw ctx);
             if \<not> ok then Some (SSTP_FAIL, None, ctx)
             else do {
               args \<leftarrow> pppd_args task opts sockname (y_tmpfile ctx);
               let (ret, task, t) = sstp_task_start (k_fork sys) task (\<lambda>_. None :: unit option);
               let ctx = ctx\<lparr>y_task := Some task\<rparr>;
               if SSTP_OKAY \<noteq> ret then Some (SSTP_FAIL, None, ctx)
               else Some (SSTP_INPROG, Some args, armed (ctx\<lparr>y_sock := sstp_task_stdout task\<rparr>)) } })
      else Some (SSTP_OKAY, None, armed (ctx\<lparr>y_sock := 0\<rparr>)))"

text \<open>\<open>alive\<close> is the answer to the signal 0; the result says whether the process was told to end.\<close>

definition end_task :: "kill_result \<Rightarrow> 64 word \<Rightarrow> 'z pty_scheme \<Rightarrow> bool \<times> 'z pty_scheme" where
  "end_task alive now ctx =
     (case y_task ctx of
        None \<Rightarrow> (False, ctx)
      | Some task \<Rightarrow> (sstp_task_alive alive, ctx\<lparr>y_task := None, y_t_end := now\<rparr>))"

definition sstp_pppd_stop_pty :: "kill_result \<Rightarrow> 64 word \<Rightarrow> 'z pty_scheme \<Rightarrow> status_t \<times> bool \<times> 'z pty_scheme" where
  "sstp_pppd_stop_pty alive now ctx = (let (killed, ctx) = end_task alive now ctx in (SSTP_FAIL, killed, ctx))"

definition sstp_pppd_free_pty ::
    "('z pty_scheme, 'e) pty_world_scheme \<Rightarrow> kill_result \<Rightarrow> 64 word \<Rightarrow> 'z pty_scheme \<Rightarrow> bool \<times> 'z pty_scheme" where
  "sstp_pppd_free_pty w alive now ctx = end_task alive now (sstp_pppd_deltmp w ctx)"

definition chap_zero :: sstp_chap where
  "chap_zero = \<lparr>challenge = replicate 16 0, response = replicate 8 0, nt_response = replicate 24 0, chap_flags = 0\<rparr>"

text \<open>The context of a client; \<open>None\<close> inside is a pointer to memory that was freed, or the null one.\<close>

definition sstp_pppd_create_pty :: "bool \<Rightarrow> bool \<Rightarrow> bool \<Rightarrow> bool \<Rightarrow> status_t \<times> pty option" where
  "sstp_pppd_create_pty mem tx_mem rx_mem notify_cb =
     (if \<not> mem then (SSTP_FAIL, None)
      else case sstp_buff_create tx_mem 16384 of
        (SSTP_OKAY, Some tx) \<Rightarrow>
          (case sstp_buff_create rx_mem 16384 of
             (SSTP_OKAY, Some rx) \<Rightarrow>
               (SSTP_OKAY, Some \<lparr>y_task = None, y_rx = rx, y_tx = tx, y_notify = notify_cb, y_chap = chap_zero, y_sock = 0,
                  y_ip_up = False, y_auth_done = False, y_auth_check = False, y_del_file = False, y_tmpfile = [],
                  y_t_end = 0, y_t_start = 0, y_sent = 0, y_recv = 0, y_first = True, y_reading = False, y_disk = (\<lambda>_. None)\<rparr>)
           | _ \<Rightarrow> (SSTP_FAIL, None))
      | _ \<Rightarrow> (SSTP_FAIL, None))"

end
