(* ===== verification/Util.thy ===== *)
theory Util
  imports Http
begin

text \<open>
  The helpers of \<^verbatim>\<open>sstp/sstp-util.c\<close> for accounts and text: \<open>sstp_bin2hex\<close> into an array of the caller,
  \<open>sstp_ipaddr\<close>, the numbers of users and groups, the directory of the client and \<open>sstp_sandbox\<close>, which takes
  the process out of the file system and away from root. The lemmas show when \<open>sstp_bin2hex\<close> stays in its
  array, and that the sandbox, entered as root, gives up everything in an order a kernel allows.
\<close>

section \<open>Strings and numbers as text\<close>

lemma unat_u8: "m < 256 \<Longrightarrow> unat (of_nat m :: u8) = m"
  by (simp add: unsigned_of_nat take_bit_nat_eq_self)

lemma uint_u8: "m < 256 \<Longrightarrow> uint (of_nat m :: u8) = int m"
  by (simp add: unsigned_of_nat take_bit_nat_eq_self)

lemma cstring_zero: "0 \<notin> set t \<Longrightarrow> cstring (t @ 0 # rest) = Some t"
  by (induction t) (auto simp: cstring_def)

lemma rd_n_mid: "i = int (length a) \<Longrightarrow> n \<le> length b \<Longrightarrow> rd_n (a @ b @ c) i (int n) = Some (take n b)"
  by (simp add: rd_n_def)

function dec_digits :: "nat \<Rightarrow> bytes" where
  "dec_digits n = (if n < 10 then [of_nat (48 + n)] else dec_digits (n div 10) @ [of_nat (48 + n mod 10)])"
  by pat_completeness auto
termination by (relation "measure id") auto

declare dec_digits.simps [simp del]

definition show_int :: "int \<Rightarrow> bytes" where
  "show_int i = (if i < 0 then [45] else []) @ dec_digits (nat \<bar>i\<bar>)"

named_theorems printed \<open>texts without a zero\<close>

lemma of_nat_nz: "0 < m \<Longrightarrow> m < 256 \<Longrightarrow> (of_nat m :: u8) \<noteq> 0"
  using unat_u8 [of m] by (metis less_irrefl unsigned_0)

lemma dec_digit_nz: "n < 10 \<Longrightarrow> (of_nat (48 + n) :: u8) \<noteq> 0"
  by (rule of_nat_nz) simp_all

lemma dec_digits_nz [printed]: "0 \<notin> set (dec_digits n)"
proof (induction n rule: dec_digits.induct)
  case (1 n)
  show ?case
  proof (cases "n < 10")
    case True
    then show ?thesis using dec_digit_nz [of n] by (simp add: dec_digits.simps [of n])
  next
    case False
    then show ?thesis using 1 dec_digit_nz [of "n mod 10"] by (simp add: dec_digits.simps [of n])
  qed
qed

lemma show_int_nz [printed]: "0 \<notin> set (show_int i)"
  using dec_digits_nz by (simp add: show_int_def)

section \<open>Hexadecimal text\<close>

text \<open>
  The text of one byte is an argument. \<^verbatim>\<open>sprintf\<close> stores it with its final zero before the length is looked
  at; \<open>None\<close> when this or the input leaves its array.
\<close>

fun bin2hex_loop ::
    "(u8 \<Rightarrow> bytes) \<Rightarrow> bytes \<Rightarrow> int \<Rightarrow> bytes \<Rightarrow> int \<Rightarrow> nat \<Rightarrow> int \<Rightarrow> (int \<times> bytes) option" where
  "bin2hex_loop fmt out outlen d p 0 offset = Some (offset, out)"
| "bin2hex_loop fmt out outlen d p (Suc k) offset = do {
     b \<leftarrow> rd d p;
     out \<leftarrow> wr_n out offset (fmt b @ [0]);
     let len = int (length (fmt b));
     if len \<ge> outlen - offset then Some (-1, out)
     else bin2hex_loop fmt out outlen d (p + 1) k (offset + len) }"

definition sstp_bin2hex ::
    "(u8 \<Rightarrow> bytes) \<Rightarrow> bytes \<Rightarrow> int \<Rightarrow> bytes \<Rightarrow> int \<Rightarrow> int \<Rightarrow> (int \<times> bytes) option" where
  "sstp_bin2hex fmt out outlen d p inlen = bin2hex_loop fmt out outlen d p (nat inlen) 0"

text \<open>The formats \<open>%02X\<close>, \<open>%02X \<close> and \<open>0x%02X \<close>.\<close>

definition fmt_02X :: "u8 \<Rightarrow> bytes" where "fmt_02X b = hex_pad 2 (unat b)"
definition fmt_02X_sp :: "u8 \<Rightarrow> bytes" where "fmt_02X_sp b = hex_pad 2 (unat b) @ [32]"
definition fmt_0x02X_sp :: "u8 \<Rightarrow> bytes" where "fmt_0x02X_sp b = [48, 120] @ hex_pad 2 (unat b) @ [32]"

lemma hex_pad_byte: "hex_pad 2 (unat (b :: u8)) = [hex_digit (unat b div 16), hex_digit (unat b mod 16)]"
proof -
  have b: "unat b < 256" using unsigned_less [of b] by simp
  show ?thesis
  proof (cases "unat b < 16")
    case True
    then show ?thesis by (simp add: hex_pad_def hex_digits.simps [of "unat b"] hex_digit_def numeral_2_eq_2)
  next
    case False
    moreover have "unat b div 16 < 16" using b by simp
    ultimately have "hex_digits (unat b) = [hex_digit (unat b div 16), hex_digit (unat b mod 16)]"
      by (simp add: hex_digits.simps [of "unat b"] hex_digits.simps [of "unat b div 16"])
    then show ?thesis by (simp add: hex_pad_def)
  qed
qed

lemma length_fmt [simp]:
  "length (fmt_02X b) = 2" "length (fmt_02X_sp b) = 3" "length (fmt_0x02X_sp b) = 5"
  by (simp_all add: fmt_02X_def fmt_02X_sp_def fmt_0x02X_sp_def hex_pad_byte)

text \<open>The bytes of the input that are in memory, and what is left of the array behind the text.\<close>

lemma bin2hex_loop_at:
  assumes w: "\<And>b. length (fmt b) = w" "0 < w"
  shows "length pre = k \<Longrightarrow> d = front @ xs @ back \<Longrightarrow> p = int (length front) \<Longrightarrow>
    k + length xs * w < length pre + length arr \<Longrightarrow> xs \<noteq> [] \<Longrightarrow> length pre + length arr = n \<Longrightarrow>
    bin2hex_loop fmt (pre @ arr) (int n) d p (length xs) (int k)
      = Some (int (k + length xs * w), pre @ concat (map fmt xs) @ [0] @ drop (length xs * w + 1) arr)"
proof (induction xs arbitrary: pre arr k front p)
  case (Cons x xs)
  have rd: "rd d p = Some x" using Cons.prems(2,3) by (simp add: rd_def nth_append)
  obtain a1 a2 where a: "arr = a1 @ a2" "length a1 = w + 1"
  proof (rule that)
    show "arr = take (w + 1) arr @ drop (w + 1) arr" by simp
  qed (use Cons.prems(1,4) in simp)
  have wr: "wr_n (pre @ arr) (int k) (fmt x @ [0]) = Some (pre @ (fmt x @ [0]) @ a2)"
    unfolding a(1) by (rule wr_n_split) (use Cons.prems(1) a(2) w in simp_all)
  have go: "\<not> int n - int k \<le> int w" using Cons.prems(1,4,6) w(2) by simp
  show ?case
  proof (cases "xs = []")
    case True
    then show ?thesis using rd wr go w a Cons.prems(1) by (simp add: Let_def)
  next
    case False
    have "bin2hex_loop fmt ((pre @ fmt x) @ (0 # a2)) (int n) d (p + 1) (length xs) (int (k + w))
      = Some (int (k + w + length xs * w), (pre @ fmt x) @ concat (map fmt xs) @ [0] @ drop (length xs * w + 1) (0 # a2))"
      by (rule Cons.IH [of _ _ "front @ [x]"]) (use Cons.prems False a w in auto)
    then show ?thesis using rd wr go w a by (simp add: Let_def algebra_simps)
  qed
qed simp

text \<open>
  In an array of the stated size the text of \<open>n\<close> bytes is right when it fits with its zero. When it does not
  the array has been overrun before the code notices, so that \<open>-1\<close> is never returned.
\<close>

lemma sstp_bin2hex_fits:
  assumes "\<And>b. length (fmt b) = w" "0 < w" "d = front @ xs @ back" "length xs * w < length out" "xs \<noteq> []"
  shows "sstp_bin2hex fmt out (int (length out)) d (int (length front)) (int (length xs))
    = Some (int (length xs * w), concat (map fmt xs) @ [0] @ drop (length xs * w + 1) out)"
  using bin2hex_loop_at [where pre = "[]" and k = 0 and arr = out and front = front and xs = xs and fmt = fmt and w = w] assms
  by (simp add: sstp_bin2hex_def)

lemma bin2hex_loop_over:
  assumes w: "\<And>b. length (fmt b) = w" "0 < w"
  shows "length out = n \<Longrightarrow> k \<le> n \<Longrightarrow> n \<le> k + m * w \<Longrightarrow> k < n \<Longrightarrow>
    bin2hex_loop fmt out (int n) d p m (int k) = None"
proof (induction m arbitrary: out k p)
  case (Suc m)
  show ?case
  proof (cases "rd d p")
    case (Some b)
    show ?thesis
    proof (cases "n \<le> k + w")
      case True
      then show ?thesis using Some Suc.prems w by (simp add: wr_n_def)
    next
      case False
      obtain out' where o: "wr_n out (int k) (fmt b @ [0]) = Some out'" using False Suc.prems(1) w by (simp add: wr_n_def)
      have "bin2hex_loop fmt out' (int n) d (p + 1) m (int (k + w)) = None"
        by (rule Suc.IH) (use False Suc.prems wr_n_length [OF o] in auto)
      then show ?thesis using Some False o w by (simp add: Let_def)
    qed
  qed simp
qed simp

lemma sstp_bin2hex_overrun:
  assumes "\<And>b. length (fmt b) = w" "0 < w" "int (length out) \<le> inlen * int w" "out \<noteq> []"
  shows "sstp_bin2hex fmt out (int (length out)) d p inlen = None"
proof -
  have "0 < inlen"
  proof (rule ccontr)
    assume "\<not> 0 < inlen"
    then have "inlen * int w \<le> 0" by (simp add: mult_nonpos_nonneg)
    then show False using assms(3,4) by (cases out) simp_all
  qed
  then have "int (length out) \<le> int (nat inlen * w)" using assms(3) by simp
  then have "length out \<le> nat inlen * w" by linarith
  then have "bin2hex_loop fmt out (int (length out)) d p (nat inlen) (int 0) = None"
    by (intro bin2hex_loop_over [OF assms(1,2)]) (use assms(4) in auto)
  then show ?thesis by (simp add: sstp_bin2hex_def)
qed

section \<open>Accounts\<close>

text \<open>
  The data base of users and groups as the lookup of a number; a number from \<open>2 ^ 31\<close> on is negative as
  an \<^verbatim>\<open>int\<close> and taken for a missing account. Reading an address as text is \<^verbatim>\<open>inet_ntop\<close>.
\<close>

definition sstp_get_uid :: "(string \<Rightarrow> u32 option) \<Rightarrow> string \<Rightarrow> int" where
  "sstp_get_uid passwd name = (case passwd name of Some n \<Rightarrow> sint n | None \<Rightarrow> -1)"

definition sstp_get_gid :: "(string \<Rightarrow> u32 option) \<Rightarrow> string \<Rightarrow> int" where
  "sstp_get_gid grps name = (case grps name of Some n \<Rightarrow> sint n | None \<Rightarrow> -1)"

datatype sock_addr = Sa_in bytes | Sa_in6 bytes | Sa_other nat

definition sstp_ipaddr :: "(bytes \<Rightarrow> string) \<Rightarrow> (bytes \<Rightarrow> string) \<Rightarrow> sock_addr \<Rightarrow> int \<Rightarrow> string option" where
  "sstp_ipaddr ntop4 ntop6 addr len =
     (let ntop = (\<lambda>t. if int (length t) < len then Some t else None) in
      case addr of Sa_in a \<Rightarrow> ntop (ntop4 a) | Sa_in6 a \<Rightarrow> ntop (ntop6 a) | Sa_other _ \<Rightarrow> None)"

section \<open>Leaving root\<close>

record process =
  p_dir :: string
  p_root :: string
  p_uid :: u32
  p_gid :: u32
  p_groups :: "u32 list"

text \<open>
  The kernel: may this process change into the directory, make it its root, take the group, the user or
  these supplementary groups.
\<close>

record kernel =
  k_passwd :: "string \<Rightarrow> u32 option"
  k_group :: "string \<Rightarrow> u32 option"
  k_chdir :: "string \<Rightarrow> process \<Rightarrow> bool"
  k_chroot :: "string \<Rightarrow> process \<Rightarrow> bool"
  k_setgroups :: "process \<Rightarrow> bool"
  k_setgid :: "u32 \<Rightarrow> process \<Rightarrow> bool"
  k_setuid :: "u32 \<Rightarrow> process \<Rightarrow> bool"

definition change_root :: "kernel \<Rightarrow> string option \<Rightarrow> process \<Rightarrow> bool \<times> process" where
  "change_root k path p =
     (case path of
        None \<Rightarrow> (True, p)
      | Some d \<Rightarrow>
          if \<not> k_chdir k d p then (False, p)
          else let p = p\<lparr>p_dir := d\<rparr> in if \<not> k_chroot k d p then (False, p) else (True, p\<lparr>p_root := d\<rparr>))"

definition change_group :: "kernel \<Rightarrow> int \<Rightarrow> process \<Rightarrow> bool \<times> process" where
  "change_group k gid p =
     (if gid \<ge> 0 \<and> word_of_int gid \<noteq> p_gid p then
        let p = (if k_setgroups k p then p\<lparr>p_groups := []\<rparr> else p) in
        if \<not> k_setgid k (word_of_int gid) p then (False, p) else (True, p\<lparr>p_gid := word_of_int gid\<rparr>)
      else (True, p))"

definition change_user :: "kernel \<Rightarrow> int \<Rightarrow> process \<Rightarrow> bool \<times> process" where
  "change_user k uid p =
     (if uid \<ge> 0 \<and> word_of_int uid \<noteq> p_uid p then
        if \<not> k_setuid k (word_of_int uid) p then (False, p) else (True, p\<lparr>p_uid := word_of_int uid\<rparr>)
      else (True, p))"

definition sstp_sandbox ::
    "kernel \<Rightarrow> string option \<Rightarrow> string option \<Rightarrow> string option \<Rightarrow> process \<Rightarrow> int \<times> process" where
  "sstp_sandbox k path user grp p =
     (let uid = (case user of None \<Rightarrow> -1 | Some u \<Rightarrow> sstp_get_uid (k_passwd k) u);
          gid = (case grp of None \<Rightarrow> -1 | Some g \<Rightarrow> sstp_get_gid (k_group k) g);
          (ok, p) = change_root k path p in
      if \<not> ok then (-1, p)
      else let (ok, p) = change_group k gid p in
        if \<not> ok then (-1, p)
        else let (ok, p) = change_user k uid p in (if ok then 0 else -1, p))"

text \<open>
  The directory of the client: the entries that are there, whether a new one can be made, and whether its owner
  can be changed. An owner or group of \<open>-1\<close> is left as it is.
\<close>

record dir_entry =
  e_mode :: u32
  e_uid :: u32
  e_gid :: u32

definition sstp_create_dir ::
    "kernel \<Rightarrow> bool \<Rightarrow> bool \<Rightarrow> process \<Rightarrow> string \<Rightarrow> string option \<Rightarrow> string option \<Rightarrow> u32 \<Rightarrow>
     (string \<rightharpoonup> dir_entry) \<Rightarrow> int \<times> (string \<rightharpoonup> dir_entry)" where
  "sstp_create_dir k can_make can_own p path user grp mode fs =
     (if fs path = None \<and> \<not> can_make then (-1, fs)
      else
        let e = (case fs path of Some e \<Rightarrow> e | None \<Rightarrow> \<lparr>e_mode = mode, e_uid = p_uid p, e_gid = p_gid p\<rparr>);
            uid = (case user of None \<Rightarrow> -1 | Some u \<Rightarrow> sstp_get_uid (k_passwd k) u);
            gid = (case grp of None \<Rightarrow> -1 | Some g \<Rightarrow> sstp_get_gid (k_group k) g);
            e' = e\<lparr>e_uid := if uid = -1 then e_uid e else word_of_int uid,
                   e_gid := if gid = -1 then e_gid e else word_of_int gid\<rparr>
        in (0, fs(path \<mapsto> (if can_own then e' else e))))"

text \<open>
  A kernel with the rules of POSIX: a new root, other groups and any user are for root; a process that is not
  root may take only the user it is. The directory can be entered.
\<close>

definition posix_kernel :: "kernel \<Rightarrow> bool" where
  "posix_kernel k \<longleftrightarrow>
     (\<forall>d p. k_chdir k d p) \<and> (\<forall>d p. k_chroot k d p \<longleftrightarrow> p_uid p = 0) \<and> (\<forall>p. k_setgroups k p \<longleftrightarrow> p_uid p = 0)
     \<and> (\<forall>g p. k_setgid k g p \<longleftrightarrow> p_uid p = 0 \<or> g = p_gid p) \<and> (\<forall>u p. k_setuid k u p \<longleftrightarrow> p_uid p = 0 \<or> u = p_uid p)"

lemma sandbox_user_unknown:
  assumes "k_passwd k u = None"
  shows "p_uid (snd (sstp_sandbox k path (Some u) grp p)) = p_uid p"
  using assms
  by (auto simp: sstp_sandbox_def sstp_get_uid_def change_user_def change_group_def change_root_def Let_def
      split: option.splits if_splits prod.splits)

lemma sandbox_user_only:
  assumes "fst (sstp_sandbox k path (Some u) None p) = 0"
  shows "p_gid (snd (sstp_sandbox k path (Some u) None p)) = p_gid p
    \<and> p_groups (snd (sstp_sandbox k path (Some u) None p)) = p_groups p"
  using assms
  by (auto simp: sstp_sandbox_def change_user_def change_group_def change_root_def Let_def
      split: option.splits if_splits prod.splits)

lemma word_of_sint [simp]: "word_of_int (sint (w :: u32)) = w"
  by simp

text \<open>C34. The sandbox drops everything: entered as root on a POSIX kernel with an existing user and
  group that are not root's, it succeeds, the directory is the working directory and the root, user and
  group are those asked for, and no supplementary group is left; groups go before the user, which a kernel would
  refuse the other way round. After it the process cannot become root again.\<close>

theorem sandbox_drops:
  assumes "posix_kernel k" "p_uid p = 0" "p_gid p \<noteq> gid"
    and "k_passwd k u = Some uid" "k_group k g = Some gid" "uid \<noteq> 0" "0 \<le> sint uid" "0 \<le> sint gid"
  shows "sstp_sandbox k (Some dir) (Some u) (Some g) p
      = (0, p\<lparr>p_dir := dir, p_root := dir, p_groups := [], p_gid := gid, p_uid := uid\<rparr>)
    \<and> \<not> k_setuid k 0 (snd (sstp_sandbox k (Some dir) (Some u) (Some g) p))"
  using assms
  by (auto simp: sstp_sandbox_def sstp_get_uid_def sstp_get_gid_def posix_kernel_def change_user_def
      change_group_def change_root_def Let_def)

definition demo_kernel :: kernel where
  "demo_kernel = \<lparr>k_passwd = [''sstpc'' \<mapsto> 102], k_group = [''sstpc'' \<mapsto> 65], k_chdir = (\<lambda>d p. True),
     k_chroot = (\<lambda>d p. p_uid p = 0), k_setgroups = (\<lambda>p. p_uid p = 0),
     k_setgid = (\<lambda>g p. p_uid p = 0 \<or> g = p_gid p), k_setuid = (\<lambda>u p. p_uid p = 0 \<or> u = p_uid p)\<rparr>"

definition root_process :: process where
  "root_process = \<lparr>p_dir = ''/'', p_root = ''/'', p_uid = 0, p_gid = 0, p_groups = [0, 27]\<rparr>"

lemma sandbox_drops_witness:
  "fst (sstp_sandbox demo_kernel (Some ''/var/run/sstpc'') (Some ''sstpc'') (Some ''sstpc'') root_process) = 0
   \<and> p_uid (snd (sstp_sandbox demo_kernel (Some ''/var/run/sstpc'') (Some ''sstpc'') (Some ''sstpc'') root_process)) = 102"
proof -
  have "posix_kernel demo_kernel" by (simp add: posix_kernel_def demo_kernel_def)
  then show ?thesis
    using sandbox_drops [of demo_kernel root_process 65 "''sstpc''" 102 "''sstpc''" "''/var/run/sstpc''"]
    by (simp add: root_process_def demo_kernel_def)
qed

end
