(* ===== verification/Client.thy ===== *)
theory Client
  imports Channel Pty StreamProofs Url Util
begin

text \<open>
  The command line client, \<^verbatim>\<open>sstp/sstp-client.c\<close>: it connects, directly or through a proxy, checks the
  certificate, runs the state machine on the stream and an external pppd behind the bridge of theory \<open>Pty\<close>,
  and hands the keys of the authentication to the state machine.

  As in theory \<open>Ios\<close> the client extends the record of the state machine, whose calls are the record \<open>world\<close>.
  The bridge has a record of its own: an operation of it runs on the bridge extended by the whole client,
  and puts the bridge back (\<open>with_pty\<close>). Ending the process sets \<open>l_exit\<close>; from then on nothing changes.
\<close>

section \<open>Data\<close>

record client = sstp_state +
  l_option :: sstp_option
  l_url :: "url option"
  l_host :: sstp_peer
  l_http :: "http option"
  l_http_proxy :: bool        \<comment> \<open>the callback of the HTTP context is \<open>sstp_client_proxy_done\<close>\<close>
  l_conn_proxy :: bool        \<comment> \<open>the completion of the connection is \<open>sstp_client_proxy_connected\<close>\<close>
  l_state :: bool
  l_pppd :: "pty option"
  l_event :: "sstp_event option"
  l_reading :: bool           \<comment> \<open>the state machine has asked the stream for the next packet\<close>
  l_looping :: bool
  l_exit :: "int option"
  l_sent :: "(bytes \<times> status_t) list"
  l_written :: "bytes list"   \<comment> \<open>frames written to pppd\<close>
  l_started :: "string list list"  \<comment> \<open>arguments of the children\<close>
  l_process :: process

record pty_client = pty +
  outer :: client

text \<open>What the client gets from its surroundings.\<close>

record ('k, 'x) client_env =
  q_crypto :: "'k openssl"
  q_tls :: "'x tls_peer"
  q_send :: "nat \<Rightarrow> status_t"
  q_write :: "bytes \<Rightarrow> int"
  q_pppd_mem :: "bool \<times> bool \<times> bool"
  q_sys :: start_sys
  q_sockname :: string
  q_unlink :: bool
  q_kill :: kill_result
  q_kernel :: kernel
  q_process :: process
  q_state_mem :: bool
  q_state_buf :: bool
  q_http_mem :: bool
  q_http_buf :: bool
  q_http_guid :: "bytes option"
  q_base64 :: "bytes \<Rightarrow> bytes"
  q_stray :: "bytes option"
  q_stream :: status_t
  q_connect :: status_t

definition l_die :: "int \<Rightarrow> client \<Rightarrow> client" where
  "l_die code s = (if l_exit s = None then s\<lparr>l_exit := Some code\<rparr> else s)"

definition l_do :: "(client \<Rightarrow> client) \<Rightarrow> client \<Rightarrow> client" where
  "l_do f s = (if l_exit s \<noteq> None then s else f s)"

section \<open>Stream and bridge\<close>

definition l_transmit :: "('k, 'x) client_env \<Rightarrow> bytes \<Rightarrow> client \<Rightarrow> status_t \<times> client" where
  "l_transmit env m s =
     (let r = q_send env (length (l_sent s)) in (r, l_do (\<lambda>s. s\<lparr>l_sent := l_sent s @ [(m, r)]\<rparr>) s))"

definition client_stream_world ::
    "('k, 'x) client_env \<Rightarrow> (sstp_state_t \<Rightarrow> client \<Rightarrow> (status_t \<times> client) option) \<Rightarrow>
     (int option \<Rightarrow> int \<Rightarrow> client \<Rightarrow> (status_t \<times> client) option) \<Rightarrow> client world" where
  "client_stream_world env cb fwd =
     \<lparr>call_state = cb, call_forward = fwd,
      send_buf = (\<lambda>s. Some (l_transmit env (content (tx_buf s)) s)),
      req_recv = (\<lambda>s. Some (l_do (\<lambda>s. s\<lparr>l_reading := True\<rparr>) s)),
      cert_hash = (\<lambda>p s. case sstp_get_cert_hash (q_tls env) p 32 of None \<Rightarrow> (SSTP_FAIL, replicate 32 0) | Some r \<Rightarrow> r),
      cmac_mem = (\<lambda>s. True)\<rparr>"

text \<open>\<open>sstp_pppd_send\<close> on the data in the receive buffer.\<close>

definition client_forward :: "('k, 'x) client_env \<Rightarrow> int option \<Rightarrow> int \<Rightarrow> client \<Rightarrow> (status_t \<times> client) option" where
  "client_forward env off n s =
     (if l_exit s \<noteq> None then Some (SSTP_OKAY, s)
      else do {
        i \<leftarrow> off;
        data \<leftarrow> rd_n (b_data (rx_buf s)) i n;
        p \<leftarrow> l_pppd s;
        (ret, frame, p) \<leftarrow> sstp_pppd_send_pty (q_write env) data n p;
        Some (ret, s\<lparr>l_pppd := Some p, l_written := l_written s @ (case frame of None \<Rightarrow> [] | Some f \<Rightarrow> [f])\<rparr>) })"

section \<open>Events of the state machine\<close>

text \<open>A process of root enters its directory when the connection is established.\<close>

definition client_sandbox :: "('k, 'x) client_env \<Rightarrow> client \<Rightarrow> int \<times> process" where
  "client_sandbox env s =
     (if p_uid (l_process s) = 0
      then sstp_sandbox (q_kernel env) (o_priv_dir (l_option s)) (o_priv_user (l_option s)) (o_priv_group (l_option s)) (l_process s)
      else (0, l_process s))"

definition sstp_client_state_cb :: "('k, 'x) client_env \<Rightarrow> sstp_state_t \<Rightarrow> client \<Rightarrow> (status_t \<times> client) option" where
  "sstp_client_state_cb env ev s =
     (if l_exit s \<noteq> None then Some (SSTP_OKAY, s)
      else case ev of
        SSTP_CALL_CONNECT \<Rightarrow>
          (let (m, t, r) = q_pppd_mem env; (ret, p) = sstp_pppd_create_pty m t r True in
           case p of
             None \<Rightarrow> Some (SSTP_FAIL, l_die (-1) s)
           | Some p \<Rightarrow> do {
               (ret, args, p) \<leftarrow> sstp_pppd_start_pty (q_sys env) (l_option s) (q_sockname env) p;
               let s = s\<lparr>l_pppd := Some p, l_started := l_started s @ (case args of None \<Rightarrow> [] | Some a \<Rightarrow> [a])\<rparr>;
               Some (if ret = SSTP_FAIL then (SSTP_FAIL, l_die (-1) s) else (ret, sstp_state_set_forward True s)) })
      | SSTP_CALL_ESTABLISHED \<Rightarrow>
          (let (r, p) = client_sandbox env s in Some (if r = 0 then SSTP_OKAY else SSTP_FAIL, s\<lparr>l_process := p\<rparr>))
      | _ \<Rightarrow>
          (let s = s\<lparr>l_pppd := map_option (\<lambda>p. snd (snd (sstp_pppd_stop_pty (q_kill env) (k_now (q_sys env)) p))) (l_pppd s)\<rparr>
           in Some (SSTP_OKAY, l_die (-1) s)))"

definition client_world :: "('k, 'x) client_env \<Rightarrow> client world" where
  "client_world env = client_stream_world env (sstp_client_state_cb env) (client_forward env)"

section \<open>Events of pppd\<close>

definition sstp_client_pppd_cb :: "('k, 'x) client_env \<Rightarrow> ppp_event \<Rightarrow> client \<Rightarrow> client option" where
  "sstp_client_pppd_cb env ev s =
     (if l_exit s \<noteq> None then Some s
      else case ev of
        SSTP_PPP_START \<Rightarrow> sstp_state_resume_recv (client_world env) s
      | SSTP_PPP_DOWN \<Rightarrow> Some (s\<lparr>l_looping := False\<rparr>)
      | SSTP_PPP_UP \<Rightarrow> do {
          (ret, s) \<leftarrow> sstp_state_accept (q_crypto env) (client_world env) s;
          Some (if ret = SSTP_FAIL then l_die (-1) s else s) }
      | SSTP_PPP_AUTH \<Rightarrow> do {
          p \<leftarrow> l_pppd s;
          pw \<leftarrow> o_password (l_option s);
          case sstp_chap_mppe_get (q_crypto env) (sstp_pppd_getchap_pty p) (ascii pw) False of
            (ret, skey, rkey) \<Rightarrow>
              if ret = -1 then Some s
              else do {
                skey \<leftarrow> skey;
                rkey \<leftarrow> rkey;
                (r, s) \<leftarrow> sstp_state_mppe_keys skey rkey 16 s;
                Some s } }
      | SSTP_PPP_AUTH_FAIL \<Rightarrow> Some s)"

text \<open>The bridge calls the client, which reads the bridge.\<close>

definition into_client :: "pty_client \<Rightarrow> client" where
  "into_client x = (outer x)\<lparr>l_pppd := Some (pty.truncate x)\<rparr>"

definition from_client :: "client \<Rightarrow> (int + pty_client) option" where
  "from_client s =
     (case l_exit s of
        Some e \<Rightarrow> Some (Inl e)
      | None \<Rightarrow> do { p \<leftarrow> l_pppd s; Some (Inr (pty.extend p (pty_client.fields s))) })"

definition bridge_world :: "('k, 'x) client_env \<Rightarrow> pty_client pty_world" where
  "bridge_world env =
     \<lparr>y_call = (\<lambda>ev x. do { s \<leftarrow> sstp_client_pppd_cb env ev (into_client x); from_client s }),
      y_send = (\<lambda>x. let (r, s) = l_transmit env (content (y_tx x)) (outer x) in Some (r, x\<lparr>outer := s\<rparr>)),
      y_unlink = q_unlink env\<rparr>"

text \<open>
  An event of the bridge. When it ends the process, \<open>Inl\<close> is the exit code, which the client then has.
\<close>

definition with_pty :: "(pty_client \<Rightarrow> (int + pty_client) option) \<Rightarrow> client \<Rightarrow> client option" where
  "with_pty f s = do {
     p \<leftarrow> l_pppd s;
     r \<leftarrow> f (pty.extend p (pty_client.fields s));
     Some (case r of Inl e \<Rightarrow> l_die e s | Inr x \<Rightarrow> into_client x) }"

section \<open>Connection, proxy and upgrade\<close>

definition server_host :: "sstp_option \<Rightarrow> string option" where
  "server_host opt = (case o_host opt of Some h \<Rightarrow> Some h | None \<Rightarrow> o_server opt)"

definition verify_options :: "sstp_option \<Rightarrow> nat" where
  "verify_options opt = (if o_ca_cert opt \<noteq> None \<or> o_ca_path opt \<noteq> None then SSTP_VERIFY_CERT else SSTP_VERIFY_NAME)"

definition sstp_client_http_done :: "('k, 'x) client_env \<Rightarrow> status_t \<Rightarrow> client \<Rightarrow> client option" where
  "sstp_client_http_done env status s =
     (if l_exit s \<noteq> None then Some s
      else if SSTP_OKAY \<noteq> status then Some (l_die (-1) s)
      else
        let s = s\<lparr>l_http := None\<rparr>;
            status = sstp_verify_cert (q_tls env) (server_host (l_option s)) (verify_options (l_option s)) in
        if SSTP_OKAY \<noteq> status \<and> SSTP_OPT_CERTWARN AND o_enable (l_option s) = 0 then Some (l_die (-2) s)
        else case sstp_state_create (q_state_mem env) (q_state_buf env) (q_state_buf env) SSTP_MODE_CLIENT of
          (ret, st) \<Rightarrow>
            if ret \<noteq> SSTP_OKAY then Some (l_die (-1) s)
            else do {
              st \<leftarrow> (case st of Whole st \<Rightarrow> Some st | _ \<Rightarrow> None);
              (ret, s) \<leftarrow> sstp_state_start (client_world env)
                (sstp_state.extend st (sstp_state.more (s\<lparr>l_state := True, l_reading := True\<rparr>)));
              Some (if ret = SSTP_FAIL then l_die (-1) s else s) })"

text \<open>The context of the upgrade with the server of this name.\<close>

definition begin_http :: "('k, 'x) client_env \<Rightarrow> bytes \<Rightarrow> bool \<Rightarrow> client \<Rightarrow> client" where
  "begin_http env server for_proxy s =
     (case sstp_http_create (q_http_mem env) (q_http_buf env) (q_http_guid env) server Http_client of
        (_, None) \<Rightarrow> l_die (-1) s
      | (_, Some h) \<Rightarrow> s\<lparr>l_http := Some h, l_http_proxy := for_proxy\<rparr>)"

primrec http_client_acts ::
    "(status_t \<Rightarrow> client \<Rightarrow> client option) \<Rightarrow> status_t \<Rightarrow> http_act list \<Rightarrow> client \<Rightarrow> client option" where
  "http_client_acts done_cb r [] s = Some s"
| "http_client_acts done_cb r (a # as) s = do {
     s \<leftarrow> (case a of
             Send_tls m \<Rightarrow> Some (l_do (\<lambda>s. s\<lparr>l_sent := l_sent s @ [(m, r)]\<rparr>) s)
           | Send_plain m \<Rightarrow> Some (l_do (\<lambda>s. s\<lparr>l_sent := l_sent s @ [(m, r)]\<rparr>) s)
           | Http_done st \<Rightarrow> done_cb st s
           | _ \<Rightarrow> Some s);
     http_client_acts done_cb r as s }"

text \<open>The hello on the context that is there; \<open>sstp_client_http_done\<close> is what its end calls.\<close>

definition start_handshake :: "('k, 'x) client_env \<Rightarrow> client \<Rightarrow> client option" where
  "start_handshake env s =
     (if l_exit s \<noteq> None then Some s
      else do {
        h \<leftarrow> l_http s;
        let r = q_send env (length (l_sent s));
        (ret, acts, h) \<leftarrow> sstp_http_handshake r h;
        s \<leftarrow> http_client_acts (sstp_client_http_done env) r acts (s\<lparr>l_http := Some h\<rparr>);
        Some (if ret = SSTP_FAIL then l_die (-1) s else s) })"

text \<open>The name of the peer as a string: the array of 255 bytes may lack its end.\<close>

definition peer_string :: "sstp_peer \<Rightarrow> bytes option" where
  "peer_string peer = (if length (peer_name peer) < 255 then Some (peer_name peer) else None)"

definition sstp_client_connected :: "('k, 'x) client_env \<Rightarrow> status_t \<Rightarrow> client \<Rightarrow> client option" where
  "sstp_client_connected env status s =
     (if SSTP_CONNECTED \<noteq> status then Some (l_die (-1) s)
      else do {
        name \<leftarrow> peer_string (l_host s);
        let s = begin_http env name False s;
        if l_exit s \<noteq> None then Some s
        else do {
          h \<leftarrow> l_http s;
          let s = s\<lparr>l_http := Some (case o_uuid (l_option s) of None \<Rightarrow> h | Some u \<Rightarrow> sstp_http_setuuid h (ascii u))\<rparr>;
          start_handshake env s } })"

text \<open>
  A server that is null, and a URL of the proxy without user, are null pointers to the code that
  copies them. The new stream and connection are their answers.
\<close>

definition sstp_client_proxy_done :: "('k, 'x) client_env \<Rightarrow> status_t \<Rightarrow> client \<Rightarrow> client option" where
  "sstp_client_proxy_done env status s =
     (if l_exit s \<noteq> None then Some s
      else if status = SSTP_AUTHENTICATE then
        (if q_stream env \<noteq> SSTP_OKAY then Some (l_die (-1) s)
         else do {
           u \<leftarrow> l_url s;
           case u_password u of
             None \<Rightarrow> Some (l_die (-1) s)
           | Some pw \<Rightarrow> do {
               h \<leftarrow> l_http s;
               user \<leftarrow> u_user u;
               Some (s\<lparr>l_http := Some (sstp_http_setcreds h user pw), l_conn_proxy := True\<rparr>) } })
      else if status = SSTP_OKAY then do {
        name \<leftarrow> server_host (l_option s);
        start_handshake env (begin_http env (ascii name) False (s\<lparr>l_http := None\<rparr>)) }
      else Some (l_die (-1) s))"

definition sstp_client_proxy_connected :: "('k, 'x) client_env \<Rightarrow> status_t \<Rightarrow> client \<Rightarrow> client option" where
  "sstp_client_proxy_connected env status s =
     (if SSTP_CONNECTED \<noteq> status then Some (l_die (-1) s)
      else do {
        s \<leftarrow> (case l_http s of
                Some _ \<Rightarrow> Some s
              | None \<Rightarrow> do { name \<leftarrow> server_host (l_option s); Some (begin_http env (ascii name) True s) });
        if l_exit s \<noteq> None then Some s
        else do {
          h \<leftarrow> l_http s;
          let r = q_send env (length (l_sent s));
          (ret, acts, h) \<leftarrow> sstp_http_proxy (q_base64 env) (q_stray env) r h;
          s \<leftarrow> http_client_acts (sstp_client_proxy_done env) r acts (s\<lparr>l_http := Some h\<rparr>);
          Some (if ret = SSTP_FAIL then l_die (-1) s else s) } })"

text \<open>The status is that of the connection that was begun.\<close>

definition sstp_client_connect :: "('k, 'x) client_env \<Rightarrow> client \<Rightarrow> (status_t \<times> client) option" where
  "sstp_client_connect env s =
     (case o_proxy (l_option s) of
        Some _ \<Rightarrow> Some (s\<lparr>l_conn_proxy := True\<rparr>)
      | None \<Rightarrow> do {
          name \<leftarrow> peer_string (l_host s);
          server \<leftarrow> o_server (l_option s);
          Some (case o_host (l_option s) of
            Some h \<Rightarrow> if name = ascii server
                       then s\<lparr>l_host := (l_host s)\<lparr>peer_name := take 255 (ascii h)\<rparr>, l_conn_proxy := False\<rparr>
                       else s\<lparr>l_conn_proxy := False\<rparr>
          | None \<Rightarrow> s\<lparr>l_conn_proxy := False\<rparr>) }) \<bind>
     (\<lambda>s. Some (if q_stream env \<noteq> SSTP_OKAY then (q_stream env, s)
                else if q_connect env \<noteq> SSTP_INPROG \<and> q_connect env \<noteq> SSTP_OKAY then (q_connect env, s)
                else (SSTP_OKAY, s)))"

section \<open>Start\<close>

text \<open>
  The steps of \<open>sstp_init_ssl\<close> that can fail, and what they set: the protocols that are off,
  where certificates are looked for, whether revocation is checked.
\<close>

record ssl_steps =
  st_ctx :: bool
  st_options :: bool
  st_no_compression :: bool
  st_mode :: bool
  st_ciphers :: bool
  st_locations :: bool
  st_store :: bool
  st_lookup :: bool
  st_lookup_dir :: bool
  st_crl_open :: bool
  st_crl_read :: bool
  st_crl_add :: bool

record ssl_setup =
  no_sslv2_sslv3 :: bool
  no_compression :: bool
  ciphers_set :: bool
  locations :: "(string option \<times> string option) option"
  crl_check :: bool
  verify_depth :: nat

definition sstp_setup_crl_options :: "ssl_steps \<Rightarrow> sstp_option \<Rightarrow> status_t" where
  "sstp_setup_crl_options e opt =
     (if \<not> st_store e then SSTP_FAIL
      else if o_crl_path opt \<noteq> None \<and> (\<not> st_lookup e \<or> \<not> st_lookup_dir e) then SSTP_FAIL
      else if o_crl_file opt \<noteq> None \<and> (\<not> st_crl_open e \<or> \<not> st_crl_read e \<or> \<not> st_crl_add e) then SSTP_FAIL
      else SSTP_OKAY)"

definition sstp_init_ssl :: "ssl_steps \<Rightarrow> sstp_option \<Rightarrow> status_t \<times> ssl_setup option" where
  "sstp_init_ssl e opt =
     (let ca = (o_ca_cert opt \<noteq> None \<or> o_ca_path opt \<noteq> None); crl = (o_crl_file opt \<noteq> None \<or> o_crl_path opt \<noteq> None) in
      if \<not> st_ctx e \<or> \<not> st_options e \<or> \<not> st_no_compression e \<or> \<not> st_mode e \<or> \<not> st_ciphers e then (SSTP_FAIL, None)
      else if ca \<and> \<not> st_locations e then (SSTP_FAIL, None)
      else if crl \<and> sstp_setup_crl_options e opt \<noteq> SSTP_OKAY then (SSTP_FAIL, None)
      else (SSTP_OKAY, Some \<lparr>no_sslv2_sslv3 = True, no_compression = True, ciphers_set = True,
              locations = (if ca then Some (o_ca_cert opt, o_ca_path opt) else None), crl_check = crl, verify_depth = 9\<rparr>))"

text \<open>\<^verbatim>\<open>getaddrinfo\<close> finds a canonical name, or none, and an address, or fails; the address goes to 128 bytes.\<close>

definition sstp_client_lookup ::
    "(bytes \<Rightarrow> bytes option \<Rightarrow> (bytes option \<times> bytes) option) \<Rightarrow> url \<Rightarrow> sstp_peer \<Rightarrow> (status_t \<times> sstp_peer) option" where
  "sstp_client_lookup resolve uri peer =
     (case resolve (u_host uri) (case u_port uri of Some p \<Rightarrow> Some p | None \<Rightarrow> u_schema uri) of
        None \<Rightarrow> Some (SSTP_FAIL, peer)
      | Some (canon, addr) \<Rightarrow>
          if length addr > 128 then None
          else Some (SSTP_OKAY, peer\<lparr>peer_name := take 255 (case canon of Some c \<Rightarrow> c | None \<Rightarrow> u_host uri), peer_addr := addr\<rparr>))"

text \<open>
  The answers \<open>main\<close> gets on its way to the event loop; the handlers of signals and log are installed without
  failure.
\<close>

record main_env =
  m_opt :: opt_env
  m_inet :: inet
  m_url_mem :: bool
  m_ev_base :: bool
  m_ssl :: ssl_steps
  m_resolve :: "bytes \<Rightarrow> bytes option \<Rightarrow> (bytes option \<times> bytes) option"
  m_route :: bool

definition client_zero :: client where
  "client_zero =
     \<lparr>st_state = 0, mode = SSTP_MODE_CLIENT, tx_buf = wbuf 0, rx_buf = wbuf 0, forward_set = False, proto = 0, st_status = 0,
      echo = 0, nounce = replicate 32 0, mppe_send_key = replicate 32 0, mppe_recv_key = replicate 32 0, mppe_key_len = 0,
      l_option = option_zero, l_url = None, l_host = \<lparr>peer_name = [], peer_addr = []\<rparr>, l_http = None, l_http_proxy = False,
      l_conn_proxy = False, l_state = False, l_pppd = None, l_event = None, l_reading = False, l_looping = False, l_exit = None,
      l_sent = [], l_written = [], l_started = [], l_process = root_process\<rparr>"

text \<open>
  \<open>mainAnhTV\<close> up to the event loop. \<open>HAVE_PPP_PLUGIN\<close> is undefined in the build, so a user and a password are
  required; then the plugin is off and its socket is never created.
\<close>

definition client_main :: "('k, 'x) client_env \<Rightarrow> main_env \<Rightarrow> string list \<Rightarrow> (int + client) option" where
  "client_main env e argv = do {
     r \<leftarrow> sstp_parse_argv (m_opt e) argv;
     case r of
       Inl code \<Rightarrow> Some (Inl code)
     | Inr (opt, argv) \<Rightarrow>
         if o_password opt = None \<or> o_user opt = None then Some (Inl (-1))
         else if \<not> m_ev_base e \<or> fst (sstp_init_ssl (m_ssl e) opt) \<noteq> SSTP_OKAY then Some (Inl (-1))
         else if o_enable opt AND SSTP_OPT_NOPLUGIN = 0 then None
         else do {
           text \<leftarrow> (case o_proxy opt of Some p \<Rightarrow> Some p | None \<Rightarrow> o_server opt);
           case sstp_url_parse (m_inet e) (m_url_mem e) (ascii text) of
             (st, url) \<Rightarrow>
               if st \<noteq> SSTP_OKAY then Some (Inl (-1))
               else do {
                 url \<leftarrow> url;
                 (st, host) \<leftarrow> sstp_client_lookup (m_resolve e) url (l_host client_zero);
                 if st \<noteq> SSTP_OKAY then Some (Inl (-1))
                 else do {
                   (st, s) \<leftarrow> sstp_client_connect env (client_zero\<lparr>l_option := opt, l_url := Some url, l_host := host, l_process := q_process env\<rparr>);
                   Some (if st = SSTP_FAIL then Inl (-1)
                         else if o_enable opt AND SSTP_OPT_SAVEROUTE \<noteq> 0 \<and> \<not> m_route e then Inl (-1)
                         else Inr (s\<lparr>l_looping := True\<rparr>)) } } } }"

section \<open>The event loop\<close>

datatype client_event =
    Cl_connected status_t
  | Cl_http_sent status_t
  | Cl_http_recv bool sstp_buff status_t
  | Cl_state_sent status_t
  | Cl_state_recv sstp_buff status_t
  | Cl_pty_readable "bytes option"
  | Cl_pty_sent status_t
  | Cl_plugin event_conn
  | Cl_signal

definition http_done_cb :: "('k, 'x) client_env \<Rightarrow> client \<Rightarrow> status_t \<Rightarrow> client \<Rightarrow> client option" where
  "http_done_cb env s = (if l_http_proxy s then sstp_client_proxy_done env else sstp_client_http_done env)"

primrec client_dispatch :: "('k, 'x) client_env \<Rightarrow> client_event \<Rightarrow> client \<Rightarrow> client option" where
  "client_dispatch env (Cl_connected st) s =
     (if l_conn_proxy s then sstp_client_proxy_connected env st s else sstp_client_connected env st s)"
| "client_dispatch env (Cl_http_sent st) s = do {
     h \<leftarrow> l_http s;
     let (acts, h) = (if l_http_proxy s then sstp_http_send_proxy_complete st h else sstp_http_send_complete st h);
     http_client_acts (http_done_cb env s) st acts (s\<lparr>l_http := Some h\<rparr>) }"
| "client_dispatch env (Cl_http_recv er buf st) s = do {
     h \<leftarrow> l_http s;
     acts \<leftarrow> (if l_http_proxy s then sstp_recv_proxy_complete er buf st else sstp_recv_hello_complete er buf st);
     http_client_acts (http_done_cb env s) st acts s }"
| "client_dispatch env (Cl_state_sent st) s =
     (if \<not> l_state s then None else sstp_state_send_complete (client_world env) st s)"
| "client_dispatch env (Cl_state_recv buf st) s =
     (if \<not> l_state s then None else sstp_state_recv (client_world env) st (s\<lparr>rx_buf := buf, l_reading := False\<rparr>))"
| "client_dispatch env (Cl_pty_readable got) s = with_pty (sstp_pppd_recv_pty (bridge_world env) got) s"
| "client_dispatch env (Cl_pty_sent st) s = with_pty (ppp_send_complete_pty (bridge_world env) st) s"
| "client_dispatch env (Cl_plugin conn) s = do {
     ctx \<leftarrow> l_event s;
     r \<leftarrow> sstp_event_accept (sstp_client_event_cb (q_crypto env) (client_world env) SSTP_OKAY) (l_host s) conn ctx s;
     Some (case r of Inl e \<Rightarrow> l_die e s | Inr (out, ctx, s) \<Rightarrow> s\<lparr>l_event := Some ctx\<rparr>) }"
| "client_dispatch env Cl_signal s = Some (s\<lparr>l_looping := False\<rparr>)"

definition client_step :: "('k, 'x) client_env \<Rightarrow> client_event \<Rightarrow> client \<Rightarrow> client option" where
  "client_step env ev s = (if l_exit s \<noteq> None \<or> \<not> l_looping s then Some s else client_dispatch env ev s)"

end
