(* ===== verification/Frames.thy ===== *)
theory Frames
  imports State Pty
begin

text \<open>
  What the operations of the state machine (theory \<open>State\<close>) and of the bridge (theory \<open>Pty\<close>) leave alone:
  the record that extends theirs changes in their calls only. The locale \<open>state_frame\<close> has a predicate on
  the rest of the record that the calls of the state machine keep, and then so does every operation that
  returns; \<open>bridge_frame\<close> is the same for the bridge. Unlike \<open>state_world\<close> of theory \<open>StateProofs\<close> nothing is
  said of memory errors, and nothing is asked of the messages. They are interpreted on the command line
  client in theory \<open>ClientProofs\<close>.
\<close>

section \<open>State machine\<close>

lemma if_SomeE: "(if c then a else b) = Some x \<Longrightarrow> (a = Some x \<Longrightarrow> Z) \<Longrightarrow> (b = Some x \<Longrightarrow> Z) \<Longrightarrow> Z"
  by (simp split: if_splits)

locale state_frame =
  fixes w :: "('z sstp_state_scheme, 'e) world_scheme" and P :: "'z \<Rightarrow> bool"
  assumes call_keeps: "call_state w ev s = Some (r, t) \<Longrightarrow> P (sstp_state.more s) \<Longrightarrow> P (sstp_state.more t)"
    and forward_keeps: "call_forward w off n s = Some (r, t) \<Longrightarrow> P (sstp_state.more s) \<Longrightarrow> P (sstp_state.more t)"
    and send_keeps: "send_buf w s = Some (r, t) \<Longrightarrow> P (sstp_state.more s) \<Longrightarrow> P (sstp_state.more t)"
    and recv_keeps: "req_recv w s = Some t \<Longrightarrow> P (sstp_state.more s) \<Longrightarrow> P (sstp_state.more t)"
begin

lemmas keeps = call_keeps forward_keeps send_keeps recv_keeps
lemmas cuts = Option.bind_splits prod.splits if_splits option.splits

lemma plain_keeps: "send_plain w ty s = Some (b, r, t) \<Longrightarrow> P (sstp_state.more s) \<Longrightarrow> P (sstp_state.more t)"
  by (auto simp: send_plain_def Let_def keeps split: cuts)

lemma complete_keeps: "sstp_state_send_complete w st s = Some t \<Longrightarrow> P (sstp_state.more s) \<Longrightarrow> P (sstp_state.more t)"
  by (auto simp: sstp_state_send_complete_def keeps split: cuts)

lemma request_keeps: "sstp_state_send_request w s = Some (r, t) \<Longrightarrow> P (sstp_state.more s) \<Longrightarrow> P (sstp_state.more t)"
  by (auto simp: sstp_state_send_request_def Let_def keeps split: cuts)

lemma cmac_keeps: "store_cmac ssl ok ty s = Some t \<Longrightarrow> P (sstp_state.more s) \<Longrightarrow> P (sstp_state.more t)"
  by (auto simp: store_cmac_def Let_def split: cuts)

lemma connect_keeps: "sstp_state_send_connect ssl w s = Some (r, t) \<Longrightarrow> P (sstp_state.more s) \<Longrightarrow> P (sstp_state.more t)"
  by (auto simp: sstp_state_send_connect_def Let_def keeps cmac_keeps split: cuts)

lemma ack_keeps: "sstp_state_connect_ack w s = Some (r, t) \<Longrightarrow> P (sstp_state.more s) \<Longrightarrow> P (sstp_state.more t)"
  by (auto simp: sstp_state_connect_ack_def Let_def keeps split: cuts)

lemma nak_keeps: "sstp_state_connect_nak s = Some (r, t) \<Longrightarrow> P (sstp_state.more s) \<Longrightarrow> P (sstp_state.more t)"
  by (auto simp: sstp_state_connect_nak_def Let_def split: cuts)

lemmas sent_keeps = keeps plain_keeps

lemma reply_keeps: "sstp_state_echo_reply w s = Some (r, t) \<Longrightarrow> P (sstp_state.more s) \<Longrightarrow> P (sstp_state.more t)"
  "sstp_state_echo_request w s = Some (r, t) \<Longrightarrow> P (sstp_state.more s) \<Longrightarrow> P (sstp_state.more t)"
  "sstp_state_disconnect w s = Some (r, t) \<Longrightarrow> P (sstp_state.more s) \<Longrightarrow> P (sstp_state.more t)"
  "sstp_state_disconnect_ack w s = Some (r, t) \<Longrightarrow> P (sstp_state.more s) \<Longrightarrow> P (sstp_state.more t)"
  by (auto simp: sstp_state_echo_reply_def sstp_state_echo_request_def sstp_state_disconnect_def
      sstp_state_disconnect_ack_def sent_keeps split: cuts)

lemma ctrl_keeps: "sstp_state_handle_ctrl w ty s = Some (r, t) \<Longrightarrow> P (sstp_state.more s) \<Longrightarrow> P (sstp_state.more t)"
  unfolding sstp_state_handle_ctrl_def
  by (elim if_SomeE) (auto simp: keeps reply_keeps nak_keeps ack_keeps split: cuts)

lemma packet_keeps: "sstp_state_handle_packet w s = Some (r, t) \<Longrightarrow> P (sstp_state.more s) \<Longrightarrow> P (sstp_state.more t)"
  by (auto simp: sstp_state_handle_packet_def sstp_state_handle_data_def keeps ctrl_keeps
      split: cuts sstp_pkt_t.splits)

lemma read_keeps: "reset_and_read w r s = Some t \<Longrightarrow> P (sstp_state.more s) \<Longrightarrow> P (sstp_state.more t)"
  by (auto simp: reset_and_read_def Let_def keeps split: cuts)

lemma state_recv_keeps: "sstp_state_recv w st s = Some t \<Longrightarrow> P (sstp_state.more s) \<Longrightarrow> P (sstp_state.more t)"
  by (auto simp: sstp_state_recv_def keeps reply_keeps packet_keeps read_keeps split: cuts)

lemma accept_keeps: "sstp_state_accept ssl w s = Some (r, t) \<Longrightarrow> P (sstp_state.more s) \<Longrightarrow> P (sstp_state.more t)"
  by (auto simp: sstp_state_accept_def connect_keeps split: sstp_mode.splits)

lemma start_keeps: "sstp_state_start w s = Some (r, t) \<Longrightarrow> P (sstp_state.more s) \<Longrightarrow> P (sstp_state.more t)"
  by (auto simp: sstp_state_start_def request_keeps split: sstp_mode.splits)

lemma resume_keeps: "sstp_state_resume_recv w s = Some t \<Longrightarrow> P (sstp_state.more s) \<Longrightarrow> P (sstp_state.more t)"
  by (simp add: sstp_state_resume_recv_def recv_keeps)

end


section \<open>Bridge\<close>

locale bridge_frame =
  fixes w :: "('z pty_scheme, 'e) pty_world_scheme" and P :: "'z \<Rightarrow> bool"
  assumes call_keeps: "y_call w ev x = Some (Inr y) \<Longrightarrow> P (pty.more x) \<Longrightarrow> P (pty.more y)"
    and send_keeps: "y_send w x = Some (r, y) \<Longrightarrow> P (pty.more x) \<Longrightarrow> P (pty.more y)"
begin

lemma tmp_keeps: "pty.more (sstp_pppd_deltmp w x) = pty.more x"
  by (simp add: sstp_pppd_deltmp_def)

lemma notify_keeps: "notify_pty w ev x = Some (Inr y) \<Longrightarrow> P (pty.more x) \<Longrightarrow> P (pty.more y)"
  by (auto simp: notify_pty_def call_keeps split: if_splits)

lemma ipup_keeps: "sstp_pppd_ipup w x = Some (Inr y) \<Longrightarrow> P (pty.more x) \<Longrightarrow> P (pty.more y)"
  by (auto simp: sstp_pppd_ipup_def notify_keeps split: Option.bind_splits if_splits sum.splits)

lemma chap_seen_keeps: "chap_seen w d p x = Some (Inr y) \<Longrightarrow> P (pty.more x) \<Longrightarrow> P (pty.more y)"
  by (auto simp: chap_seen_def Let_def notify_keeps split: Option.bind_splits sum.splits)

lemma auth_keeps:
  "auth_chap w d p x = Some (Inr y) \<Longrightarrow> P (pty.more x) \<Longrightarrow> P (pty.more y)"
  "auth_eap w d p x = Some (Inr y) \<Longrightarrow> P (pty.more x) \<Longrightarrow> P (pty.more y)"
  by (auto simp: auth_chap_def auth_eap_def chap_seen_keeps tmp_keeps split: Option.bind_splits if_splits)

lemma check_keeps: "sstp_pppd_check_auth w x = Some (Inr y) \<Longrightarrow> P (pty.more x) \<Longrightarrow> P (pty.more y)"
  by (auto simp: sstp_pppd_check_auth_def Let_def auth_keeps tmp_keeps split: Option.bind_splits if_splits)

lemma inspect_keeps: "ppp_inspect w x = Some (Inr y) \<Longrightarrow> P (pty.more x) \<Longrightarrow> P (pty.more y)"
  by (auto simp: ppp_inspect_def check_keeps ipup_keeps split: Option.bind_splits if_splits sum.splits)

lemma decode_keeps: "ppp_decode x = Some (r, off, mx, y) \<Longrightarrow> pty.more y = pty.more x"
  by (auto simp: ppp_decode_def Let_def split: Option.bind_splits)

lemma rest_keeps: "ppp_keep_rest off x = Some y \<Longrightarrow> pty.more y = pty.more x"
  by (auto simp: ppp_keep_rest_def Let_def split: Option.bind_splits)

lemma loop_keeps_all:
  "ppp_process_loop v x = Some r \<Longrightarrow> v = w \<longrightarrow> P (pty.more x) \<longrightarrow> (\<forall>st y. r = Inr (st, y) \<longrightarrow> P (pty.more y))"
proof (rule ppp_process_loop.raw_induct [of "\<lambda>v x r. v = w \<longrightarrow> P (pty.more x) \<longrightarrow> (\<forall>st y. r = Inr (st, y) \<longrightarrow> P (pty.more y))"], goal_cases)
  case (1 rec v x r)
  show ?case
  proof (intro impI allI)
    fix st y assume v: "v = w" and p: "P (pty.more x)" and r: "r = Inr (st, y)"
    have ih: "rec w x' = Some (Inr (st, y)) \<Longrightarrow> P (pty.more x') \<Longrightarrow> P (pty.more y)" for x' using 1(2) by blast
    show "P (pty.more y)"
      using 1(3) p unfolding v r
      by (auto simp: Let_def decode_keeps rest_keeps ppp_record_sent_pty_def ih inspect_keeps send_keeps
          split: Option.bind_splits if_splits sum.splits)
  qed
qed assumption

lemma loop_keeps: "ppp_process_loop w x = Some (Inr (st, y)) \<Longrightarrow> P (pty.more x) \<Longrightarrow> P (pty.more y)"
  using loop_keeps_all by blast

lemma data_keeps: "ppp_process_data w x = Some (Inr (st, y)) \<Longrightarrow> P (pty.more x) \<Longrightarrow> P (pty.more y)"
  by (drule loop_keeps [of "x\<lparr>y_tx := sstp_buff_reset (y_tx x)\<rparr>", folded ppp_process_data_def]) simp_all

lemma done_keeps: "ppp_send_complete_pty w st x = Some (Inr y) \<Longrightarrow> P (pty.more x) \<Longrightarrow> P (pty.more y)"
  by (auto simp: ppp_send_complete_pty_def ppp_record_sent_pty_def data_keeps split: Option.bind_splits sum.splits if_splits)

lemma recv_keeps: "sstp_pppd_recv_pty w got x = Some (Inr y) \<Longrightarrow> P (pty.more x) \<Longrightarrow> P (pty.more y)"
  by (auto simp: sstp_pppd_recv_pty_def Let_def call_keeps notify_keeps data_keeps split: Option.bind_splits sum.splits if_splits)

end

end
