(* ===== verification/ClientProofs.thy ===== *)
theory ClientProofs
  imports Client Frames
begin

text \<open>
  What keeps the command line client (theory \<open>Client\<close>) from going on with a server it does not accept: the
  interfaces of theory \<open>Frames\<close> are interpreted on its state machine and its bridge, and an invariant of
  every step says that the state machine and pppd exist only behind the check of the certificate.
\<close>

section \<open>The certificate\<close>

text \<open>
  What \<open>sstp_client_http_done\<close> asks of the peer: with authorities configured a chain that OpenSSL verified,
  and without them a certificate for the name; or that the user has turned failures into warnings.
\<close>

definition peer_accepted :: "('k, 'x) client_env \<Rightarrow> sstp_option \<Rightarrow> bool" where
  "peer_accepted env opt \<longleftrightarrow>
     SSTP_OPT_CERTWARN AND o_enable opt \<noteq> 0
     \<or> (\<exists>x. peer_cert (q_tls env) = Some x
          \<and> (if o_ca_cert opt \<noteq> None \<or> o_ca_path opt \<noteq> None then chain_result (q_tls env) = 0
             else \<exists>h. server_host opt = Some h \<and> h \<noteq> []
                \<and> (if ip_text (q_tls env) h then check_ip (q_tls env) x h else check_host (q_tls env) x h)))"

lemma verify_accepted:
  "sstp_verify_cert (q_tls env) (server_host opt) (verify_options opt) = SSTP_OKAY \<or> SSTP_OPT_CERTWARN AND o_enable opt \<noteq> 0
     \<longleftrightarrow> peer_accepted env opt"
  by (cases "peer_cert (q_tls env)"; cases "server_host opt")
    (auto simp: sstp_verify_cert_def verify_options_def peer_accepted_def SSTP_VERIFY_CERT_def SSTP_VERIFY_NAME_def Let_def
      sstp_host_is_ip_literal_def)

section \<open>The state machine\<close>

text \<open>The client with a state machine of its own, whatever the fields of the machine are.\<close>

definition started :: "sstp_option \<Rightarrow> client \<Rightarrow> bool" where
  "started opt s \<longleftrightarrow> l_option s = opt \<and> l_state s \<and> l_event s = None"

lemma client_more: "started opt (sstp_state.extend st (sstp_state.more s)) = started opt s"
  by (cases s) (simp add: started_def sstp_state.defs)

abbreviation "on_client opt z \<equiv> started opt (sstp_state.extend (sstp_state.truncate client_zero) z)"

lemma die_started [simp]: "started opt (l_die c s) = started opt s"
  by (simp add: started_def l_die_def)

lemma do_started: "started opt (f s) = started opt s \<Longrightarrow> started opt (l_do f s) = started opt s"
  by (simp add: l_do_def)

lemma stream_started: "l_transmit env m s = (r, t) \<Longrightarrow> started opt t = started opt s"
  by (auto simp: l_transmit_def Let_def started_def l_do_def split: if_splits)

lemma state_cb_started: "sstp_client_state_cb env ev s = Some (r, t) \<Longrightarrow> started opt s \<Longrightarrow> started opt t"
  by (cases ev) (auto simp: sstp_client_state_cb_def started_def l_die_def sstp_state_set_forward_def Let_def
      split: if_splits Option.bind_splits option.splits prod.splits)

lemma forward_started: "client_forward env off n s = Some (r, t) \<Longrightarrow> started opt s \<Longrightarrow> started opt t"
  by (auto simp: client_forward_def started_def split: if_splits Option.bind_splits)

lemma reading_started: "started opt (l_do (\<lambda>s. s\<lparr>l_reading := True\<rparr>) s) = started opt s"
  by (rule do_started) (simp add: started_def)

interpretation machine: state_frame "client_world env" "on_client opt" for env opt
  by unfold_locales (auto simp: client_more client_world_def client_stream_world_def stream_started reading_started
      dest: state_cb_started forward_started)

lemmas machine_started =
  machine.accept_keeps [unfolded client_more] machine.start_keeps [unfolded client_more]
  machine.resume_keeps [unfolded client_more] machine.state_recv_keeps [unfolded client_more]
  machine.complete_keeps [unfolded client_more]

section \<open>The bridge\<close>

lemma keys_started: "sstp_state_mppe_keys a b n s = Some (r, t) \<Longrightarrow> started opt t = started opt s"
  by (auto simp: sstp_state_mppe_keys_def Let_def started_def split: Option.bind_splits)

lemma pppd_cb_started: "sstp_client_pppd_cb env ev s = Some t \<Longrightarrow> started opt s \<Longrightarrow> started opt t"
  by (cases ev) (auto simp: sstp_client_pppd_cb_def machine_started keys_started Let_def
      split: if_splits Option.bind_splits prod.splits, auto simp: started_def)

abbreviation "on_outer opt (z :: \<lparr>outer :: client\<rparr>) \<equiv> started opt (outer (pty.extend undefined z))"

lemma bridge_more: "started opt (outer (pty.extend p (pty.more x))) = started opt (outer x)"
  by (cases x) (simp add: pty.defs)

lemma into_started: "started opt (into_client x) = started opt (outer x)"
  by (simp add: into_client_def started_def)

lemma from_started: "from_client s = Some (Inr x) \<Longrightarrow> started opt (outer x) = started opt s"
  by (auto simp: from_client_def pty.defs pty_client.defs split: option.splits Option.bind_splits)

interpretation tunnel: bridge_frame "bridge_world env" "on_outer opt" for env opt
  by unfold_locales (auto simp: bridge_more bridge_world_def into_started from_started stream_started
      split: Option.bind_splits prod.splits dest: pppd_cb_started)

lemmas tunnel_started = tunnel.recv_keeps [unfolded bridge_more] tunnel.done_keeps [unfolded bridge_more]

lemma with_pty_started:
  assumes "with_pty f s = Some t" "started opt s"
    and "\<And>x y. f x = Some (Inr y) \<Longrightarrow> started opt (outer x) \<Longrightarrow> started opt (outer y)"
  shows "started opt t"
  using assms by (auto simp: with_pty_def into_started pty.defs pty_client.defs split: Option.bind_splits sum.splits)

section \<open>Runs\<close>

text \<open>Before the state machine exists there is no pppd; then the peer has been accepted.\<close>

definition client_inv :: "('k, 'x) client_env \<Rightarrow> sstp_option \<Rightarrow> client \<Rightarrow> bool" where
  "client_inv env opt s \<longleftrightarrow>
     l_option s = opt \<and> l_event s = None
     \<and> (if l_state s then peer_accepted env opt else l_pppd s = None \<and> l_started s = [])"

lemma started_inv: "started opt s \<Longrightarrow> peer_accepted env opt \<Longrightarrow> client_inv env opt s"
  by (simp add: started_def client_inv_def)

lemma inv_cases: "client_inv env opt s \<Longrightarrow> l_state s \<Longrightarrow> started opt s \<and> peer_accepted env opt"
  by (simp add: started_def client_inv_def)

lemma die_inv [simp]: "client_inv env opt (l_die c s) = client_inv env opt s"
  by (simp add: client_inv_def l_die_def)

lemma plain_inv [simp]:
  "client_inv env opt (s\<lparr>l_http := h\<rparr>) = client_inv env opt s"
  "client_inv env opt (s\<lparr>l_http_proxy := b\<rparr>) = client_inv env opt s"
  "client_inv env opt (s\<lparr>l_conn_proxy := b\<rparr>) = client_inv env opt s"
  "client_inv env opt (s\<lparr>l_looping := b\<rparr>) = client_inv env opt s"
  by (simp_all add: client_inv_def)

lemma begin_inv [simp]: "client_inv env opt (begin_http env name b s) = client_inv env opt s"
  by (simp add: begin_http_def split: prod.splits option.splits)

lemma sent_inv: "client_inv env opt (l_do (\<lambda>s. s\<lparr>l_sent := l_sent s @ [x]\<rparr>) s) = client_inv env opt s"
  by (simp add: l_do_def client_inv_def)

definition keeps_inv :: "('k, 'x) client_env \<Rightarrow> sstp_option \<Rightarrow> (status_t \<Rightarrow> client \<Rightarrow> client option) \<Rightarrow> bool" where
  "keeps_inv env opt cb \<longleftrightarrow> (\<forall>st s t. cb st s = Some t \<longrightarrow> client_inv env opt s \<longrightarrow> client_inv env opt t)"

lemma acts_inv:
  assumes "keeps_inv env opt cb"
  shows "http_client_acts cb r as s = Some t \<Longrightarrow> client_inv env opt s \<Longrightarrow> client_inv env opt t"
  by (induction as arbitrary: s) (auto simp: sent_inv split: Option.bind_splits http_act.splits dest: assms [unfolded keeps_inv_def, rule_format])

lemma client_done_inv: "sstp_client_http_done env st s = Some t \<Longrightarrow> client_inv env opt s \<Longrightarrow> client_inv env opt t"
proof -
  assume r: "sstp_client_http_done env st s = Some t" and i: "client_inv env opt s"
  have o: "l_option s = opt" using i by (simp add: client_inv_def)
  show ?thesis
  proof (cases "l_exit s \<noteq> None \<or> st \<noteq> SSTP_OKAY \<or> \<not> peer_accepted env opt")
    case True
    then show ?thesis using r i o
      by (auto simp: sstp_client_http_done_def Let_def verify_accepted [symmetric] split: if_splits)
  next
    case False
    then have a: "peer_accepted env opt" by simp
    define m where "m = sstp_state.more (s\<lparr>l_http := None, l_state := True, l_reading := True\<rparr>)"
    have s: "started opt (sstp_state.extend x m)" for x :: sstp_state
      unfolding m_def client_more using i by (simp add: started_def client_inv_def)
    show ?thesis using r False
      by (auto simp: sstp_client_http_done_def Let_def i m_def [symmetric] split: if_splits prod.splits Option.bind_splits
          dest!: machine_started(2) [OF _ s] intro: started_inv [OF _ a])
  qed
qed

lemma acts_http_inv:
  "http_client_acts cb r as (s\<lparr>l_http := h\<rparr>) = Some t \<Longrightarrow> client_inv env opt s \<Longrightarrow> keeps_inv env opt cb \<Longrightarrow> client_inv env opt t"
  using acts_inv [of env opt cb r as "s\<lparr>l_http := h\<rparr>" t] by simp

lemma http_done_keeps: "keeps_inv env opt (sstp_client_http_done env)"
  by (auto simp: keeps_inv_def dest: client_done_inv)

lemmas client_cuts = Option.bind_splits if_splits option.splits prod.splits

lemma handshake_inv: "start_handshake env s = Some t \<Longrightarrow> client_inv env opt s \<Longrightarrow> client_inv env opt t"
  by (auto simp: start_handshake_def Let_def split: client_cuts dest: acts_http_inv [OF _ _ http_done_keeps])

lemma client_connected_inv: "sstp_client_connected env st s = Some t \<Longrightarrow> client_inv env opt s \<Longrightarrow> client_inv env opt t"
  by (auto simp: sstp_client_connected_def Let_def handshake_inv split: client_cuts)

lemma proxy_done_inv: "sstp_client_proxy_done env st s = Some t \<Longrightarrow> client_inv env opt s \<Longrightarrow> client_inv env opt t"
  by (auto simp: sstp_client_proxy_done_def Let_def handshake_inv split: client_cuts)

lemma proxy_done_keeps: "keeps_inv env opt (sstp_client_proxy_done env)"
  by (auto simp: keeps_inv_def dest: proxy_done_inv)

lemma proxy_connected_inv:
  "sstp_client_proxy_connected env st s = Some t \<Longrightarrow> client_inv env opt s \<Longrightarrow> client_inv env opt t"
  by (auto simp: sstp_client_proxy_connected_def Let_def split: client_cuts dest: acts_http_inv [OF _ _ proxy_done_keeps])

lemma step_inv: "client_step env ev s = Some t \<Longrightarrow> client_inv env opt s \<Longrightarrow> client_inv env opt t"
proof -
  assume r: "client_step env ev s = Some t" and i: "client_inv env opt s"
  have http: "keeps_inv env opt (http_done_cb env x)" for x
    by (simp add: http_done_cb_def http_done_keeps proxy_done_keeps)
  show ?thesis
  proof (cases "l_exit s \<noteq> None \<or> \<not> l_looping s")
    case True
    then show ?thesis using r i by (auto simp: client_step_def)
  next
    case False
    then have d: "client_dispatch env ev s = Some t" using r by (auto simp: client_step_def)
    have st: "l_state s \<Longrightarrow> started opt s" "l_state s \<Longrightarrow> peer_accepted env opt"
      using inv_cases [OF i] by blast+
    have p: "l_pppd s \<noteq> None \<Longrightarrow> l_state s" using i by (auto simp: client_inv_def split: if_splits)
    have w: "client_inv env opt t" if "with_pty f s = Some t"
      "\<And>x y. f x = Some (Inr y) \<Longrightarrow> started opt (outer x) \<Longrightarrow> started opt (outer y)" for f
    proof -
      have l: "l_state s" using that(1) p by (auto simp: with_pty_def split: Option.bind_splits)
      show ?thesis by (rule started_inv [OF with_pty_started [OF that(1) st(1) [OF l] that(2)] st(2) [OF l]])
    qed
    show ?thesis
    proof (cases ev)
      case (Cl_connected x)
      then show ?thesis using d i by (auto split: if_splits dest: client_connected_inv proxy_connected_inv)
    next
      case (Cl_http_sent x)
      then show ?thesis using d i by (auto simp: Let_def split: client_cuts dest: acts_http_inv [OF _ _ http])
    next
      case (Cl_http_recv x y z)
      then show ?thesis using d i by (auto split: client_cuts dest: acts_inv [OF http])
    next
      case (Cl_state_sent x)
      then have "l_state s" "sstp_state_send_complete (client_world env) x s = Some t" using d by (auto split: if_splits)
      then show ?thesis using machine_started(5) st by (blast intro: started_inv)
    next
      case (Cl_state_recv b x)
      then have l: "l_state s" and r: "sstp_state_recv (client_world env) x (s\<lparr>rx_buf := b, l_reading := False\<rparr>) = Some t"
        using d by (auto split: if_splits)
      have "started opt (s\<lparr>rx_buf := b, l_reading := False\<rparr>)" using st(1) [OF l] by (simp add: started_def)
      then show ?thesis by (rule started_inv [OF machine_started(4) [OF r] st(2) [OF l]])
    next
      case (Cl_pty_readable x)
      then have "with_pty (sstp_pppd_recv_pty (bridge_world env) x) s = Some t" using d by simp
      then show ?thesis by (rule w) (rule tunnel_started(1))
    next
      case (Cl_pty_sent x)
      then have "with_pty (ppp_send_complete_pty (bridge_world env) x) s = Some t" using d by simp
      then show ?thesis by (rule w) (rule tunnel_started(2))
    next
      case (Cl_plugin x)
      then show ?thesis using d i by (auto simp: client_inv_def)
    next
      case Cl_signal
      then show ?thesis using d i by auto
    qed
  qed
qed

lemma main_inv: "client_main env e argv = Some (Inr s) \<Longrightarrow> client_inv env (l_option s) s"
  by (auto simp: client_main_def sstp_client_connect_def client_inv_def client_zero_def Let_def split: client_cuts sum.splits)

lemma client_run_inv: "run_steps (client_step env) evs s = Some t \<Longrightarrow> client_inv env opt s \<Longrightarrow> client_inv env opt t"
  by (induction evs arbitrary: s) (auto split: Option.bind_splits dest: step_inv)

end
