(* ===== verification/PtyLoop.thy ===== *)
theory PtyLoop
  imports Pty
begin

text \<open>
  The loop of \<^verbatim>\<open>ppp_process_data\<close> on whatever part of the HDLC stream has arrived: what the decoder
  makes of flags, of a part of a frame and of a whole one, with the bytes of earlier reads still
  in memory behind them, and what the loop sends and keeps.
\<close>

section \<open>Decoding what has arrived so far\<close>

lemma skip_flags_run:
  assumes "m = replicate j HDLC_FLAG @ x # rest" "x \<noteq> HDLC_FLAG"
  shows "skip_flags m 0 = Some j"
proof -
  have "i \<le> j \<Longrightarrow> skip_flags m (j - i) = Some j" for i
  proof (induction i)
    case 0
    then show ?case using assms skip_flags_done [of j m] by (simp add: nth_append)
  next
    case (Suc i)
    then have "m ! (j - Suc i) = HDLC_FLAG" "j - Suc i < length m" using assms(1) by (simp_all add: nth_append)
    then show ?case using Suc skip_flags_next [of "j - Suc i" m] by (simp add: Suc_diff_Suc)
  qed
  from this [of j] show ?thesis by simp
qed

lemma decode_loop_run:
  assumes "m = pre @ stuff d @ x # rest" "x \<noteq> HDLC_FLAG" "length pre + length (stuff d) \<le> len"
  shows "decode_loop m len sz (length pre) out =
    decode_loop m len sz (length pre + length (stuff d)) (out @ take (sz - length out) d)"
  using assms
proof (induction d arbitrary: pre out)
  case (Cons c d)
  let ?out = "if length out < sz then out @ [c] else out"
  obtain y ys where y: "stuff d @ x # rest = y # ys" "y \<noteq> HDLC_FLAG"
  proof (cases d)
    case Nil
    then show ?thesis using that Cons.prems(2) by simp
  next
    case (Cons e es)
    then show ?thesis using that stuff_head [of d] by (metis append_Cons list.distinct(1))
  qed
  have "decode_loop m len sz (length pre) out = decode_loop m len sz (length (pre @ escape_char c)) ?out"
    using Cons.prems decode_loop_char [of m pre c y ys len sz out] y by (simp add: Let_def)
  also have "\<dots> = decode_loop m len sz (length (pre @ escape_char c) + length (stuff d)) (?out @ take (sz - length ?out) d)"
    by (rule Cons.IH) (use Cons.prems in simp_all)
  finally show ?case by (auto simp: take_Cons' Suc_diff_Suc add.assoc)
qed simp

text \<open>The end of what has arrived.\<close>

lemma decode_loop_over:
  assumes "index < length m" "len \<le> index \<or> (m ! index = HDLC_ESCAPE \<and> len \<le> index + 1)"
    and "index + 1 < length m \<or> m ! index \<noteq> HDLC_ESCAPE" "length out \<le> sz"
  shows "\<exists>out'. decode_loop m len sz index out = Some (Inl out') \<and> length out' \<le> sz"
proof (cases "m ! index = HDLC_ESCAPE")
  case True
  then have "rd m (int index) = Some HDLC_ESCAPE" "rd m (int index + 1) = Some (m ! (index + 1))"
    using assms(1,3) by (simp_all add: rd_def nat_add_distrib)
  moreover have "len \<le> Suc index" using assms(2) by auto
  ultimately show ?thesis using assms(4) by (simp add: decode_loop.simps [of m len sz index] Let_def add.commute)
next
  case False
  then have "rd m (int index) = Some (m ! index)" using assms(1) by (simp add: rd_def)
  then show ?thesis using assms(2,4) False by (simp add: decode_loop.simps [of m len sz index] Let_def)
qed

text \<open>Prefixes of a stuffed string.\<close>

lemma escape_char_length2: "length (escape_char c) = 2 \<Longrightarrow> \<exists>y. escape_char c = [HDLC_ESCAPE, y]"
  by (auto simp: escape_char_def split: if_splits)

lemma stuff_take:
  assumes "i \<le> length (stuff c)"
  shows "\<exists>k \<le> length c. take i (stuff c) = stuff (take k c) \<or> (k < length c \<and> take i (stuff c) = stuff (take k c) @ [HDLC_ESCAPE])"
  using assms
proof (induction c arbitrary: i)
  case Nil
  then show ?case by simp
next
  case (Cons a c)
  have l: "length (escape_char a) = 1 \<or> length (escape_char a) = 2"
    using length_escape_char [of a] by linarith
  show ?case
  proof (cases "i < length (escape_char a)")
    case True
    then have "i = 0 \<or> (i = 1 \<and> length (escape_char a) = 2)" using l by linarith
    then show ?thesis
    proof
      assume "i = 0"
      then show ?thesis by (intro exI [of _ 0]) simp
    next
      assume i: "i = 1 \<and> length (escape_char a) = 2"
      then obtain y where "escape_char a = [HDLC_ESCAPE, y]" using escape_char_length2 by blast
      then show ?thesis using i by (intro exI [of _ 0]) simp
    qed
  next
    case False
    have "i - length (escape_char a) \<le> length (stuff c)" using Cons.prems by simp
    then obtain k where "k \<le> length c" "take (i - length (escape_char a)) (stuff c) = stuff (take k c)
        \<or> (k < length c \<and> take (i - length (escape_char a)) (stuff c) = stuff (take k c) @ [HDLC_ESCAPE])"
      using Cons.IH by blast
    then show ?thesis using False by (intro exI [of _ "Suc k"]) auto
  qed
qed

text \<open>
  A whole frame content in front of a flag, and a part of one: it is never taken for a frame unless
  the stray byte behind it is a flag and its checksum is right.
\<close>

lemma decode_whole:
  assumes "m = replicate j HDLC_FLAG @ stuff d @ HDLC_FLAG # rest" "d \<noteq> []" "j + length (stuff d) \<le> len" "length d \<le> sz"
  shows "sstp_frame_decode m len sz = Some (if length d < 4 \<or> sstp_frame_check PPPINITFCS16 d \<noteq> PPPGOODFCS16 then SSTP_FAIL else SSTP_OKAY,
    int (j + length (stuff d)), int (length d) - 2, d)"
proof -
  obtain x y where xy: "stuff d = x # y" "x \<noteq> HDLC_FLAG" using stuff_head [OF assms(2)] by blast
  have "skip_flags m 0 = Some j" by (rule skip_flags_run [of _ _ x "y @ HDLC_FLAG # rest"]) (use assms(1) xy in simp_all)
  moreover have "decode_loop m len sz j [] = Some (Inr (j + length (stuff d), d))"
    using decode_loop_stuff [of m "replicate j HDLC_FLAG" d rest len sz "[]"] assms by simp
  ultimately show ?thesis by (simp add: sstp_frame_decode_def Let_def)
qed

lemma decode_partial:
  assumes m: "m = replicate j HDLC_FLAG @ take i (stuff c) @ stale" and "0 < i" "i \<le> length (stuff c)" "length c \<le> sz"
    and st: "stale \<noteq> []" "last stale = 0"
  shows "\<exists>st off n out. sstp_frame_decode m (j + i) sz = Some (st, off, n, out) \<and> length out \<le> sz
    \<and> (st = SSTP_OVERFLOW \<and> off = int (j + i)
      \<or> st = SSTP_FAIL \<and> off = int (j + i)
      \<or> st = SSTP_OKAY \<and> off = int (j + i) \<and> n = int (length out) - 2
        \<and> (\<exists>k \<le> length c. out = take k c \<and> take i (stuff c) = stuff (take k c) \<and> 4 \<le> k \<and> sstp_frame_check PPPINITFCS16 (take k c) = PPPGOODFCS16))"
proof -
  obtain k where k: "k \<le> length c" "take i (stuff c) = stuff (take k c)
      \<or> (k < length c \<and> take i (stuff c) = stuff (take k c) @ [HDLC_ESCAPE])"
    using stuff_take [OF assms(3)] by blast
  let ?d = "take k c"
  have li: "length (take i (stuff c)) = i" using assms(3) by simp
  have ld: "length ?d \<le> sz" using assms(4) by simp
  obtain s ss where s: "stale = s # ss" using st(1) by (cases stale) auto
  have "c \<noteq> []" using assms(2,3) by auto
  then obtain x y' where xy': "stuff c = x # y'" "x \<noteq> HDLC_FLAG" using stuff_head by blast
  then obtain y where xy: "take i (stuff c) = x # y" "x \<noteq> HDLC_FLAG" using assms(2) by (simp add: take_Cons')
  have sk: "skip_flags m 0 = Some j" by (rule skip_flags_run [of _ _ x "y @ stale"]) (use m xy in simp_all)
  from k(2) show ?thesis
  proof
    assume w: "take i (stuff c) = stuff ?d"
    have dn: "?d \<noteq> []"
    proof
      assume e: "?d = []"
      have "length (take i (stuff c)) = 0" unfolding w e by simp
      then show False using assms(2) li by simp
    qed
    show ?thesis
    proof (cases "s = HDLC_FLAG")
      case True
      have "sstp_frame_decode m (j + i) sz = Some (if length ?d < 4 \<or> sstp_frame_check PPPINITFCS16 ?d \<noteq> PPPGOODFCS16 then SSTP_FAIL else SSTP_OKAY,
          int (j + length (stuff ?d)), int (length ?d) - 2, ?d)"
        by (rule decode_whole [of _ _ _ ss]) (use m w s True dn li ld in simp_all)
      moreover have "length (stuff ?d) = i" using li w by simp
      ultimately show ?thesis using k(1) ld w by (auto simp: not_less intro!: exI [of _ k])
    next
      case False
      have li2: "length (stuff ?d) = i" using li w by simp
      have "decode_loop m (j + i) sz j [] = decode_loop m (j + i) sz (j + i) (take sz ?d)"
        using decode_loop_run [of m "replicate j HDLC_FLAG" ?d s ss "j + i" sz "[]"] m w s False li2 by simp
      moreover have "\<exists>out'. decode_loop m (j + i) sz (j + i) (take sz ?d) = Some (Inl out') \<and> length out' \<le> sz"
      proof (rule decode_loop_over)
        show "j + i < length m" using m li s by simp
        have mi: "m ! (j + i) = s" using m li s by (simp add: nth_append)
        show "j + i + 1 < length m \<or> m ! (j + i) \<noteq> HDLC_ESCAPE"
          using m li s st(2) mi by (cases ss) (auto simp: HDLC_ESCAPE_def)
      qed (use ld in simp_all)
      ultimately show ?thesis using sk by (auto simp: sstp_frame_decode_def)
    qed
  next
    assume w: "k < length c \<and> take i (stuff c) = stuff ?d @ [HDLC_ESCAPE]"
    have li2: "Suc (length (stuff ?d)) = i" using li w by (metis length_append_singleton)
    have me: "m = replicate j HDLC_FLAG @ stuff ?d @ HDLC_ESCAPE # s # ss" using m w s by simp
    have "decode_loop m (j + i) sz j [] = decode_loop m (j + i) sz (j + length (stuff ?d)) (take sz ?d)"
      using decode_loop_run [of m "replicate j HDLC_FLAG" ?d HDLC_ESCAPE "s # ss" "j + i" sz "[]"] me li2
      by (simp add: HDLC_ESCAPE_def HDLC_FLAG_def)
    moreover have "\<exists>out'. decode_loop m (j + i) sz (j + length (stuff ?d)) (take sz ?d) = Some (Inl out') \<and> length out' \<le> sz"
    proof (rule decode_loop_over)
      have "m ! (j + length (stuff ?d)) = HDLC_ESCAPE" by (simp add: me nth_append)
      then show "j + i \<le> j + length (stuff ?d) \<or> (m ! (j + length (stuff ?d)) = HDLC_ESCAPE \<and> j + i \<le> j + length (stuff ?d) + 1)"
        using li2 by simp
    qed (use ld in \<open>simp_all add: me\<close>)
    ultimately show ?thesis using sk by (auto simp: sstp_frame_decode_def)
  qed
qed

text \<open>Nothing but flags.\<close>

lemma decode_flags:
  assumes "m = replicate n HDLC_FLAG @ stale" "stale \<noteq> []" "last stale = 0"
  shows "\<exists>out. sstp_frame_decode m n sz = Some (SSTP_OVERFLOW, int n, int sz, out) \<and> length out \<le> sz"
proof -
  have "HDLC_FLAG \<noteq> 0" by (simp add: HDLC_FLAG_def)
  then obtain k x rest where k: "stale = replicate k HDLC_FLAG @ x # rest" "x \<noteq> HDLC_FLAG"
  proof -
    assume a: "\<And>k x rest. stale = replicate k HDLC_FLAG @ x # rest \<Longrightarrow> x \<noteq> HDLC_FLAG \<Longrightarrow> thesis"
    have "\<exists>x \<in> set stale. x \<noteq> HDLC_FLAG" using assms(2,3) \<open>HDLC_FLAG \<noteq> 0\<close> last_in_set by metis
    then obtain ys x zs where s: "stale = ys @ x # zs" "x \<noteq> HDLC_FLAG" "\<forall>y \<in> set ys. \<not> y \<noteq> HDLC_FLAG"
      using split_list_first_prop [of stale "\<lambda>x. x \<noteq> HDLC_FLAG"] by auto
    then have "ys = replicate (length ys) HDLC_FLAG" by (simp add: replicate_length_same)
    then show thesis using a s by metis
  qed
  have me: "m = replicate (n + k) HDLC_FLAG @ x # rest" using assms(1) k(1) by (simp add: replicate_add)
  have sk: "skip_flags m 0 = Some (n + k)" by (rule skip_flags_run [OF me k(2)])
  have "\<exists>out'. decode_loop m n sz (n + k) [] = Some (Inl out') \<and> length out' \<le> sz"
  proof (rule decode_loop_over)
    have "last m = 0" using assms by simp
    then show "n + k + 1 < length m \<or> m ! (n + k) \<noteq> HDLC_ESCAPE"
      by (cases rest) (auto simp: me nth_append HDLC_ESCAPE_def)
  qed (simp_all add: me)
  then show ?thesis using sk by (auto simp: sstp_frame_decode_def)
qed

section \<open>A recording client\<close>

text \<open>A client and a stream that note what they are given; the stream answers as \<open>z_answers\<close> says, then accepts.\<close>

record pty_rec = pty +
  z_sent :: "bytes list"
  z_answers :: "status_t list"
  z_calls :: "ppp_event list"
  z_read :: bytes

definition pty_recorder :: "pty_rec pty_world" where
  "pty_recorder =
     \<lparr>y_call = (\<lambda>ev s. Some (Inr (s\<lparr>z_calls := z_calls s @ [ev]\<rparr>))),
      y_send = (\<lambda>s. Some (case z_answers s of [] \<Rightarrow> SSTP_OKAY | a # _ \<Rightarrow> a,
                  s\<lparr>z_sent := z_sent s @ [content (y_tx s)], z_answers := tl (z_answers s)\<rparr>)),
      y_unlink = True\<rparr>"

text \<open>The data packet of a payload.\<close>

definition data_packet :: "bytes \<Rightarrow> bytes" where
  "data_packet p = [SSTP_PROTO_VER, 0] @ be16 (of_nat (length p + 4)) @ p"

definition frames :: "bytes list \<Rightarrow> bytes" where
  "frames ps = concat (map frame_of ps)"

text \<open>
  A payload that the bridge can carry, and whose content does not begin with something that has a right
  checksum itself: the decoder looks at the byte behind what has arrived.
\<close>

definition carried :: "bytes \<Rightarrow> bool" where
  "carried p \<longleftrightarrow> 2 \<le> length p \<and> length (frame_of p) \<le> 8191
     \<and> (\<forall>k < length p + 2. 4 \<le> k \<longrightarrow> sstp_frame_check PPPINITFCS16 (take k (p @ fcs_trailer p)) \<noteq> PPPGOODFCS16)"

definition tx_ok :: "'z pty_scheme \<Rightarrow> bool" where
  "tx_ok s \<longleftrightarrow> b_max (y_tx s) = 16384 \<and> length (b_data (y_tx s)) = 16384"

definition rx_ok :: "'z pty_scheme \<Rightarrow> bool" where
  "rx_ok s \<longleftrightarrow> b_max (y_rx s) = 16384 \<and> length (b_data (y_rx s)) = 16384 \<and> b_data (y_rx s) ! 16383 = 0
     \<and> 0 \<le> b_off (y_rx s) \<and> b_off (y_rx s) \<le> b_len (y_rx s) \<and> b_len (y_rx s) \<le> 16383"

text \<open>What the receive buffer still holds.\<close>

definition held :: "'z pty_scheme \<Rightarrow> bytes" where
  "held s = take (nat (b_len (y_rx s) - b_off (y_rx s))) (drop (nat (b_off (y_rx s))) (b_data (y_rx s)))"

lemma length_held: "rx_ok s \<Longrightarrow> int (length (held s)) = b_len (y_rx s) - b_off (y_rx s)"
  by (simp add: held_def rx_ok_def) arith

lemma frames_simps [simp]: "frames [] = []" "frames (p # ps) = frame_of p @ frames ps"
  by (simp_all add: frames_def)

section \<open>The steps of the loop\<close>

definition data_hdr :: "sstp_buff \<Rightarrow> sstp_buff" where
  "data_hdr b = b\<lparr>b_data := [SSTP_PROTO_VER, 0, 0, 4] @ drop 4 (b_data b), b_len := 4, b_off := 0\<rparr>"

lemma pkt_init_data: "b_max b = 16384 \<Longrightarrow> length (b_data b) = 16384 \<Longrightarrow> sstp_pkt_init b SSTP_MSG_DATA = Some (SSTP_OKAY, data_hdr b)"
proof -
  assume a: "b_max b = 16384" "length (b_data b) = 16384"
  then have "8 \<le> length (b_data b)" by simp
  then obtain p q r s t u v w ys where d: "b_data b = p # q # r # s # t # u # v # w # ys" using list_of_8 by blast
  show ?thesis
    using a by (simp add: sstp_pkt_init_def data_hdr_def c_short_def sstp_buff_reset_def sstp_buff_space_def wr_n_def d be16_def Let_def
        signed_take_bit_int_eq_self)
qed

text \<open>The data behind the held bytes: never empty, and it ends with a zero.\<close>

lemma held_memory:
  assumes "rx_ok s"
  shows "\<exists>stale. drop (nat (b_off (y_rx s))) (b_data (y_rx s)) = held s @ stale \<and> stale \<noteq> [] \<and> last stale = 0"
proof -
  let ?d = "b_data (y_rx s)" and ?o = "nat (b_off (y_rx s))" and ?n = "nat (b_len (y_rx s) - b_off (y_rx s))"
  have r: "length ?d = 16384" "?d ! 16383 = 0" "?o + ?n \<le> 16383" using assms by (auto simp: rx_ok_def)
  have st: "drop ?o ?d = held s @ drop (?o + ?n) ?d"
    using append_take_drop_id [of ?n "drop ?o ?d", symmetric] by (simp only: held_def drop_drop add.commute)
  have "drop (?o + ?n) ?d \<noteq> []" using r by simp
  moreover have "last (drop (?o + ?n) ?d) = 0"
    using r by (simp add: last_drop last_conv_nth)
  ultimately show ?thesis using st by blast
qed

text \<open>Storing decoded bytes behind the header.\<close>

lemma store_payload:
  assumes "b_max b = 16384" "length (b_data b) = 16384" "length out \<le> 16380"
  shows "\<exists>d. wr_n (b_data (data_hdr b)) 4 out = Some d \<and> length d = 16384 \<and> take 4 d = [SSTP_PROTO_VER, 0, 0, 4]
    \<and> take (length out) (drop 4 d) = out"
  using assms by (simp add: data_hdr_def wr_n_def)

text \<open>What the loop keeps of the rest of the state.\<close>

definition same_rest :: "pty_rec \<Rightarrow> pty_rec \<Rightarrow> bool" where
  "same_rest s s' \<longleftrightarrow> y_reading s' = y_reading s \<and> y_first s' = y_first s \<and> y_notify s' = y_notify s \<and> y_auth_check s' = y_auth_check s
     \<and> z_read s' = z_read s \<and> set (z_answers s') \<subseteq> set (z_answers s)"

lemma same_rest_trans: "same_rest a b \<Longrightarrow> same_rest b c \<Longrightarrow> same_rest a c"
  by (auto simp: same_rest_def)

text \<open>Not enough: the bytes move to the front of the buffer.\<close>

lemma keep_rest:
  assumes "rx_ok s"
  shows "\<exists>rx. ppp_keep_rest (int (length (held s))) s = Some (s\<lparr>y_rx := rx\<rparr>) \<and> rx_ok (s\<lparr>y_rx := rx\<rparr>)
    \<and> held (s\<lparr>y_rx := rx\<rparr>) = held s \<and> b_off rx = 0"
proof -
  let ?d = "b_data (y_rx s)"
  have r: "length ?d = 16384" "?d ! 16383 = 0" "0 \<le> b_off (y_rx s)" "b_off (y_rx s) \<le> b_len (y_rx s)" "b_len (y_rx s) \<le> 16383"
    "b_max (y_rx s) = 16384" using assms by (auto simp: rx_ok_def)
  have l: "int (length (held s)) = b_len (y_rx s) - b_off (y_rx s)" by (rule length_held [OF assms])
  have rd: "rd_n ?d (b_off (y_rx s)) (b_len (y_rx s) - b_off (y_rx s)) = Some (held s)"
    using r by (simp add: rd_n_def held_def)
  have wr: "wr_n ?d 0 (held s) = Some (held s @ drop (length (held s)) ?d)" using l r by (simp add: wr_n_def)
  have z: "(held s @ drop (length (held s)) ?d) ! 16383 = 0" using l r by (simp add: nth_append)
  let ?rx = "(y_rx s)\<lparr>b_data := held s @ drop (length (held s)) ?d, b_len := int (length (held s)), b_off := 0\<rparr>"
  have "ppp_keep_rest (int (length (held s))) s = Some (s\<lparr>y_rx := ?rx\<rparr>)" by (simp add: ppp_keep_rest_def rd wr Let_def)
  moreover have "rx_ok (s\<lparr>y_rx := ?rx\<rparr>)" using l r z by (simp add: rx_ok_def)
  moreover have "held (s\<lparr>y_rx := ?rx\<rparr>) = held s" unfolding held_def [of "s\<lparr>y_rx := ?rx\<rparr>"] by simp
  ultimately show ?thesis by (intro exI [of _ ?rx]) simp
qed

lemma decode_step:
  assumes "rx_ok s" "tx_ok s" "drop (nat (b_off (y_rx s))) (b_data (y_rx s)) = m"
    and "sstp_frame_decode m (length (held s)) 16380 = Some (st, off, n, out)" "length out \<le> 16380"
  shows "\<exists>d. ppp_decode (s\<lparr>y_tx := data_hdr (y_tx s)\<rparr>) = Some (st, off, n, s\<lparr>y_tx := (data_hdr (y_tx s))\<lparr>b_data := d\<rparr>\<rparr>)
    \<and> length d = 16384 \<and> take 4 d = [SSTP_PROTO_VER, 0, 0, 4] \<and> take (length out) (drop 4 d) = out"
proof -
  obtain d where d: "wr_n (b_data (data_hdr (y_tx s))) 4 out = Some d" "length d = 16384"
    "take 4 d = [SSTP_PROTO_VER, 0, 0, 4]" "take (length out) (drop 4 d) = out"
    using store_payload [of "y_tx s" out] assms(2,5) by (auto simp: tx_ok_def)
  have t: "b_max (data_hdr (y_tx s)) = 16384" "b_len (data_hdr (y_tx s)) = 4" using assms(2) by (simp_all add: data_hdr_def tx_ok_def)
  have l: "nat (b_len (y_rx s) - b_off (y_rx s)) = length (held s)" using length_held [OF assms(1)] by simp
  have "ppp_decode (s\<lparr>y_tx := data_hdr (y_tx s)\<rparr>) = Some (st, off, n, s\<lparr>y_tx := (data_hdr (y_tx s))\<lparr>b_data := d\<rparr>\<rparr>)"
    using assms(3,4) d(1) by (simp add: ppp_decode_def Let_def l t)
  then show ?thesis using d by blast
qed

lemma loop_stop:
  assumes "rx_ok s" "tx_ok s" "held s \<noteq> []" "drop (nat (b_off (y_rx s))) (b_data (y_rx s)) = m"
    and "sstp_frame_decode m (length (held s)) 16380 = Some (st, int (length (held s)), n, out)" "length out \<le> 16380" "st \<noteq> SSTP_OKAY"
  shows "\<exists>s'. ppp_process_loop pty_recorder s = Some (Inr (SSTP_OKAY, s')) \<and> rx_ok s' \<and> tx_ok s' \<and> held s' = held s
    \<and> b_off (y_rx s') = 0 \<and> same_rest s s' \<and> z_sent s' = z_sent s \<and> z_calls s' = z_calls s"
proof -
  obtain d where d: "ppp_decode (s\<lparr>y_tx := data_hdr (y_tx s)\<rparr>)
      = Some (st, int (length (held s)), n, s\<lparr>y_tx := (data_hdr (y_tx s))\<lparr>b_data := d\<rparr>\<rparr>)" "length d = 16384"
    using decode_step [OF assms(1,2,4,5,6)] by blast
  define s1 where "s1 = s\<lparr>y_tx := (data_hdr (y_tx s))\<lparr>b_data := d\<rparr>\<rparr>"
  have h: "held s1 = held s" "rx_ok s1" "tx_ok s1" using assms(1,2) d(2)
    by (simp_all add: s1_def held_def rx_ok_def tx_ok_def data_hdr_def)
  obtain rx where s': "ppp_keep_rest (int (length (held s1))) s1 = Some (s1\<lparr>y_rx := rx\<rparr>)" "rx_ok (s1\<lparr>y_rx := rx\<rparr>)"
    "held (s1\<lparr>y_rx := rx\<rparr>) = held s1" "b_off rx = 0" using keep_rest [OF h(2)] by blast
  have lt: "b_off (y_rx s) < b_len (y_rx s)" "b_len (y_rx s) = b_off (y_rx s) + int (length (held s))"
    using length_held [OF assms(1)] assms(3) by (cases "held s"; simp)+
  have pi: "sstp_pkt_init (y_tx s) SSTP_MSG_DATA = Some (SSTP_OKAY, data_hdr (y_tx s))"
    using pkt_init_data assms(2) by (simp add: tx_ok_def)
  have rx: "y_rx s1 = y_rx s" by (simp add: s1_def)
  have "ppp_process_loop pty_recorder s = Some (Inr (SSTP_OKAY, s1\<lparr>y_rx := rx\<rparr>))"
    using lt assms(7) s'(1) unfolding ppp_process_loop.simps [of _ s] pi
    by (simp add: d(1) h(1) rx flip: s1_def)
  moreover have "same_rest s (s1\<lparr>y_rx := rx\<rparr>)" "z_sent (s1\<lparr>y_rx := rx\<rparr>) = z_sent s" "z_calls (s1\<lparr>y_rx := rx\<rparr>) = z_calls s" "tx_ok (s1\<lparr>y_rx := rx\<rparr>)"
    using h(3) by (simp_all add: s1_def same_rest_def tx_ok_def)
  ultimately show ?thesis using s'(2-4) h(1) by (intro exI [of _ "s1\<lparr>y_rx := rx\<rparr>"]) simp
qed

text \<open>A frame that is complete is sent.\<close>

lemma packet_content:
  assumes "length d = 16384" "take 4 d = [SSTP_PROTO_VER, 0, 0, 4]" "take (length p) (drop 4 d) = p" "length p \<le> 16380"
  shows "\<exists>d'. sstp_pkt_update \<lparr>b_len = int (length p) + 4, b_max = 16384, b_off = 0, b_data = d\<rparr>
      = Some \<lparr>b_len = int (length p) + 4, b_max = 16384, b_off = 0, b_data = d'\<rparr>
    \<and> length d' = 16384 \<and> content \<lparr>b_len = int (length p) + 4, b_max = 16384, b_off = 0, b_data = d'\<rparr> = data_packet p"
proof -
  have d: "d = [SSTP_PROTO_VER, 0, 0, 4] @ p @ drop (4 + length p) d"
  proof -
    have "d = take 4 d @ take (length p) (drop 4 d) @ drop (4 + length p) d"
      by (rule take_drop_split)
    then show ?thesis using assms(2,3) by simp
  qed
  define v :: u16 where "v = word_of_int (int (length p) + 4)"
  have v: "v = of_nat (length p + 4)" by (simp add: v_def)
  have w: "wr_n d 2 (be16 v) = Some ([SSTP_PROTO_VER, 0] @ be16 v @ p @ drop (4 + length p) d)"
    by (rule wr_n_at [of _ "[SSTP_PROTO_VER, 0]" _ "[0, 4]"]) (simp_all add: d [symmetric], use d in simp)
  have l: "length ([SSTP_PROTO_VER, 0] @ be16 v @ p @ drop (4 + length p) d) = 16384" using assms(1,4) by simp
  have n: "nat (int (length p) + 4) = length ([SSTP_PROTO_VER, 0] @ be16 v @ p)" by simp
  have "content \<lparr>b_len = int (length p) + 4, b_max = 16384, b_off = 0, b_data = ([SSTP_PROTO_VER, 0] @ be16 v @ p) @ drop (4 + length p) d\<rparr>
      = [SSTP_PROTO_VER, 0] @ be16 v @ p"
    by (simp only: content_def sstp_buff.simps n) (rule append_eq_conv_conj [THEN iffD1, OF refl, THEN conjunct1, symmetric])
  then show ?thesis using w l
    by (intro exI [of _ "([SSTP_PROTO_VER, 0] @ be16 v @ p) @ drop (4 + length p) d"])
      (simp add: sstp_pkt_update_def v_def [symmetric] data_packet_def v)
qed

lemma held_drop: "rx_ok s \<Longrightarrow> k \<le> length (held s) \<Longrightarrow>
    rx_ok (s\<lparr>y_rx := (y_rx s)\<lparr>b_off := b_off (y_rx s) + int k\<rparr>\<rparr>)
    \<and> held (s\<lparr>y_rx := (y_rx s)\<lparr>b_off := b_off (y_rx s) + int k\<rparr>\<rparr>) = drop k (held s)"
proof -
  assume a: "rx_ok s" "k \<le> length (held s)"
  have l: "int (length (held s)) = b_len (y_rx s) - b_off (y_rx s)" by (rule length_held [OF a(1)])
  have o: "0 \<le> b_off (y_rx s)" using a(1) by (simp add: rx_ok_def)
  let ?n = "nat (b_len (y_rx s) - b_off (y_rx s))"
  have n: "nat (b_off (y_rx s) + int k) = k + nat (b_off (y_rx s))" "nat (b_len (y_rx s) - (b_off (y_rx s) + int k)) = ?n - k"
    using o by simp_all
  let ?s = "s\<lparr>y_rx := (y_rx s)\<lparr>b_off := b_off (y_rx s) + int k\<rparr>\<rparr>"
  have "drop k (held s) = take (?n - k) (drop k (drop (nat (b_off (y_rx s))) (b_data (y_rx s))))"
    unfolding held_def [of s] by (simp add: drop_take)
  moreover have "held ?s = take (?n - k) (drop (k + nat (b_off (y_rx s))) (b_data (y_rx s)))"
    unfolding held_def [of ?s] using n by simp
  moreover have "rx_ok ?s" using a l by (simp add: rx_ok_def del: of_nat_min)
  ultimately show ?thesis by simp
qed

lemma loop_send:
  assumes "rx_ok s" "tx_ok s" "drop (nat (b_off (y_rx s))) (b_data (y_rx s)) = m" "0 < k" "k \<le> length (held s)"
    and "sstp_frame_decode m (length (held s)) 16380 = Some (SSTP_OKAY, int k, int (length p), p @ t)" "length (p @ t) \<le> 16380"
    and "\<not> y_auth_check s"
  shows "\<exists>s' a. rx_ok s' \<and> tx_ok s' \<and> held s' = drop k (held s) \<and> same_rest s s' \<and> z_sent s' = z_sent s @ [data_packet p]
    \<and> (a = SSTP_OKAY \<or> a \<in> set (z_answers s))
    \<and> ppp_process_loop pty_recorder s = (if a = SSTP_OKAY then ppp_process_loop pty_recorder s' else Some (Inr (SSTP_INPROG, s')))"
proof -
  obtain d where d: "ppp_decode (s\<lparr>y_tx := data_hdr (y_tx s)\<rparr>)
      = Some (SSTP_OKAY, int k, int (length p), s\<lparr>y_tx := (data_hdr (y_tx s))\<lparr>b_data := d\<rparr>\<rparr>)" "length d = 16384"
    "take 4 d = [SSTP_PROTO_VER, 0, 0, 4]" "take (length (p @ t)) (drop 4 d) = p @ t"
    using decode_step [OF assms(1,2,3,6,7)] by blast
  have "take (length p) (take (length (p @ t)) (drop 4 d)) = p" unfolding d(4) by simp
  then have p: "take (length p) (drop 4 d) = p" by (simp add: min_def)
  have lp: "length p \<le> 16380" using assms(7) by simp
  let ?b = "\<lambda>d. \<lparr>b_len = int (length p) + 4, b_max = 16384, b_off = 0, b_data = d\<rparr>"
  obtain d' where d': "sstp_pkt_update (?b d) = Some (?b d')" "length d' = 16384" "content (?b d') = data_packet p"
    using packet_content [OF d(2,3) p lp] by blast
  have tb: "(data_hdr (y_tx s))\<lparr>b_data := d, b_len := b_len (data_hdr (y_tx s)) + int (length p)\<rparr> = ?b d"
    using assms(2) by (simp add: data_hdr_def tx_ok_def)
  let ?rx = "(y_rx s)\<lparr>b_off := b_off (y_rx s) + int k\<rparr>"
  define s1 where "s1 = s\<lparr>y_rx := ?rx, y_tx := ?b d'\<rparr>"
  define a where "a = (case z_answers s of [] \<Rightarrow> SSTP_OKAY | a # _ \<Rightarrow> a)"
  define s2 where "s2 = s1\<lparr>z_sent := z_sent s @ [data_packet p], z_answers := tl (z_answers s)\<rparr>"
  define s3 where "s3 = (if a = SSTP_OKAY then ppp_record_sent_pty (word_of_int (b_len (y_tx s2))) s2 else s2)"
  have "held s \<noteq> []" using assms(4,5) by auto
  then have lt: "b_off (y_rx s) < b_len (y_rx s)" using length_held [OF assms(1)] by (cases "held s") simp_all
  have pi: "sstp_pkt_init (y_tx s) SSTP_MSG_DATA = Some (SSTP_OKAY, data_hdr (y_tx s))"
    using pkt_init_data assms(2) by (simp add: tx_ok_def)
  have q: "ppp_inspect pty_recorder s1 = Some (Inr s1)" using assms(8) by (simp add: ppp_inspect_def s1_def)
  have se: "y_send pty_recorder s1 = Some (a, s2)" using d'(3) by (simp add: pty_recorder_def s2_def a_def s1_def)
  have "ppp_process_loop pty_recorder s = (if a = SSTP_OKAY then ppp_process_loop pty_recorder s3 else Some (Inr (SSTP_INPROG, s3)))"
    using lt unfolding ppp_process_loop.simps [of _ s] pi
    by (simp add: d(1) tb d'(1) q se s3_def flip: s1_def)
  moreover have "rx_ok s3" "held s3 = drop k (held s)"
    using held_drop [OF assms(1,5)] by (simp_all add: s3_def s2_def s1_def rx_ok_def held_def ppp_record_sent_pty_def)
  moreover have "tx_ok s3" "same_rest s s3" "z_sent s3 = z_sent s @ [data_packet p]" "a = SSTP_OKAY \<or> a \<in> set (z_answers s)"
    using d'(2) by (cases "z_answers s"; auto simp: s3_def s2_def s1_def tx_ok_def same_rest_def ppp_record_sent_pty_def a_def)+
  ultimately show ?thesis by blast
qed

text \<open>The whole stream of frames, and the loop on what has arrived of it.\<close>

definition content_of :: "bytes \<Rightarrow> bytes" where
  "content_of p = stuff (p @ fcs_trailer p)"

lemma frame_of_content: "frame_of p = HDLC_FLAG # content_of p @ [HDLC_FLAG]"
  by (simp add: frame_of_def content_of_def)

definition waiting :: "nat \<Rightarrow> bytes list \<Rightarrow> bytes" where
  "waiting k ps = replicate k HDLC_FLAG @ frames ps"

definition unfinished :: "bytes \<Rightarrow> nat \<Rightarrow> bytes list \<Rightarrow> bool" where
  "unfinished v k ps \<longleftrightarrow> (case ps of [] \<Rightarrow> True | p # _ \<Rightarrow> length v < k + length (frame_of p))"

text \<open>What has arrived is only flags, a part of the next frame, or more.\<close>

lemma split_in_second:
  assumes "v @ fut = a @ b @ c" "length a \<le> length v" "length v \<le> length a + length b"
  shows "v = a @ take (length v - length a) b" "fut = drop (length v - length a) b @ c"
proof -
  have "v = take (length v) (v @ fut)" "fut = drop (length v) (v @ fut)" by simp_all
  then show "v = a @ take (length v - length a) b" "fut = drop (length v - length a) b @ c"
    unfolding assms(1) using assms(2,3) by simp_all
qed

lemma take_of_replicate: "n \<le> m \<Longrightarrow> take n (replicate m x @ ys) = replicate n x"
  by (simp add: min_def)

lemma arrived_cases:
  assumes "v @ fut = waiting k ps"
  obtains (flags) "v = replicate (length v) HDLC_FLAG" "unfinished v k ps"
  | (part) p ps' i where "ps = p # ps'" "0 < i" "i \<le> length (content_of p)" "v = replicate (k + 1) HDLC_FLAG @ take i (content_of p)"
      "fut = drop i (content_of p) @ HDLC_FLAG # frames ps'"
  | (whole) p ps' rest where "ps = p # ps'" "v = replicate (k + 1) HDLC_FLAG @ content_of p @ HDLC_FLAG # rest"
      "HDLC_FLAG # rest @ fut = waiting 1 ps'"
proof (cases ps)
  case Nil
  then have "v @ fut = replicate k HDLC_FLAG" using assms by (simp add: waiting_def)
  then have "set v \<subseteq> {HDLC_FLAG}" by (metis in_set_replicate set_append subsetI Un_iff singleton_iff)
  then have "v = replicate (length v) HDLC_FLAG" by (metis replicate_length_same singletonD subsetD)
  then show ?thesis using flags Nil by (simp add: unfinished_def)
next
  case (Cons p ps')
  let ?c = "content_of p"
  have w: "v @ fut = replicate (k + 1) HDLC_FLAG @ ?c @ HDLC_FLAG # frames ps'"
    using assms by (simp add: waiting_def Cons frame_of_content replicate_append_same flip: replicate_app_Cons_same)
  consider "length v \<le> k + 1" | "k + 1 < length v" "length v \<le> k + 1 + length ?c" | "k + 1 + length ?c < length v" by linarith
  then show ?thesis
  proof cases
    case 1
    have "v = take (length v) (v @ fut)" by simp
    also have "\<dots> = replicate (length v) HDLC_FLAG" unfolding w by (rule take_of_replicate [OF 1])
    finally have "v = replicate (length v) HDLC_FLAG" .
    moreover have "unfinished v k ps" using 1 by (simp add: unfinished_def Cons frame_of_content)
    ultimately show ?thesis using flags by blast
  next
    case 2
    let ?i = "length v - (k + 1)"
    have l: "length (replicate (k + 1) HDLC_FLAG) \<le> length v" "length v \<le> length (replicate (k + 1) HDLC_FLAG) + length ?c"
      using 2 by simp_all
    have "v = replicate (k + 1) HDLC_FLAG @ take ?i ?c" "fut = drop ?i ?c @ HDLC_FLAG # frames ps'"
      using split_in_second [OF w l] by (simp_all only: length_replicate)
    then show ?thesis using part [of p ps' ?i] Cons 2 by simp
  next
    case 3
    let ?w = "replicate (k + 1) HDLC_FLAG @ ?c"
    have "v = ?w @ drop (length ?w) v" "drop (length ?w) v @ fut = HDLC_FLAG # frames ps'"
    proof -
      have "take (length ?w) (v @ fut) = ?w" unfolding w by simp
      then have "take (length ?w) v = ?w" using 3 by simp
      then show "v = ?w @ drop (length ?w) v" by (metis append_take_drop_id)
      have "drop (length ?w) (v @ fut) = HDLC_FLAG # frames ps'" unfolding w by simp
      then show "drop (length ?w) v @ fut = HDLC_FLAG # frames ps'" using 3 by simp
    qed
    moreover obtain rest where "drop (length ?w) v = HDLC_FLAG # rest"
      using calculation(2) 3 by (cases "drop (length ?w) v") auto
    ultimately show ?thesis using whole [of p ps' rest] Cons by (simp add: waiting_def)
  qed
qed

lemma carried_facts:
  assumes "carried p"
  shows "2 \<le> length p" "length (p @ fcs_trailer p) \<le> 16380" "4 \<le> length (p @ fcs_trailer p)"
    "sstp_frame_check PPPINITFCS16 (p @ fcs_trailer p) = PPPGOODFCS16" "p @ fcs_trailer p \<noteq> []"
proof -
  show 2: "2 \<le> length p" using assms by (simp add: carried_def)
  have "length (p @ fcs_trailer p) \<le> length (stuff (p @ fcs_trailer p))" by (rule length_stuff(1))
  moreover have "length (stuff (p @ fcs_trailer p)) \<le> 8191" using assms by (simp add: carried_def frame_of_def)
  ultimately show "length (p @ fcs_trailer p) \<le> 16380" by linarith
  show "4 \<le> length (p @ fcs_trailer p)" using 2 by simp
  show "sstp_frame_check PPPINITFCS16 (p @ fcs_trailer p) = PPPGOODFCS16" by (rule sstp_frame_check_trailer)
  show "p @ fcs_trailer p \<noteq> []" by simp
qed

lemma loop_empty:
  assumes "rx_ok s" "tx_ok s" "held s = []"
  shows "\<exists>s'. ppp_process_loop w s = Some (Inr (SSTP_OKAY, s')) \<and> rx_ok s' \<and> tx_ok s' \<and> held s' = [] \<and> b_off (y_rx s') = 0
    \<and> s' = s\<lparr>y_rx := sstp_buff_reset (y_rx s)\<rparr>"
proof -
  have "b_off (y_rx s) = b_len (y_rx s)" using length_held [OF assms(1)] assms(3) by simp
  then show ?thesis using assms(1,2)
    by (simp add: ppp_process_loop.simps [of _ s] rx_ok_def tx_ok_def held_def sstp_buff_reset_def)
qed

text \<open>What the loop does with the frames that have arrived.\<close>

definition loop_result :: "pty_rec \<Rightarrow> bytes \<Rightarrow> bytes list \<Rightarrow> status_t \<Rightarrow> pty_rec \<Rightarrow> bool" where
  "loop_result s fut ps ret s' \<longleftrightarrow> rx_ok s' \<and> tx_ok s' \<and> same_rest s s'
     \<and> (\<exists>k ps1 ps2. ps = ps1 @ ps2 \<and> held s' @ fut = waiting k ps2 \<and> k \<le> 1 \<and> z_sent s' = z_sent s @ map data_packet ps1
       \<and> (ret = SSTP_OKAY \<and> b_off (y_rx s') = 0 \<and> unfinished (held s') k ps2 \<or> ret = SSTP_INPROG \<and> z_answers s \<noteq> []))"

lemma loop_result_step:
  assumes "loop_result s1 fut ps' ret s'" "same_rest s s1" "z_sent s1 = z_sent s @ [data_packet p]"
  shows "loop_result s fut (p # ps') ret s'"
proof -
  obtain k ps1 ps2 where r: "ps' = ps1 @ ps2" "held s' @ fut = waiting k ps2" "k \<le> 1" "z_sent s' = z_sent s1 @ map data_packet ps1"
    "ret = SSTP_OKAY \<and> b_off (y_rx s') = 0 \<and> unfinished (held s') k ps2 \<or> ret = SSTP_INPROG \<and> z_answers s1 \<noteq> []"
    using assms(1) unfolding loop_result_def by blast
  moreover have "z_answers s1 \<noteq> [] \<Longrightarrow> z_answers s \<noteq> []" using assms(2) by (auto simp: same_rest_def)
  ultimately have r5: "ret = SSTP_OKAY \<and> b_off (y_rx s') = 0 \<and> unfinished (held s') k ps2 \<or> ret = SSTP_INPROG \<and> z_answers s \<noteq> []" by blast
  have "p # ps' = (p # ps1) @ ps2" "z_sent s' = z_sent s @ map data_packet (p # ps1)" using r(1,4) assms(3) by simp_all
  then show ?thesis using assms(1,2) r(2,3) r5 same_rest_trans unfolding loop_result_def by blast
qed

lemma loop_run:
  assumes "rx_ok s" "tx_ok s" "\<not> y_auth_check s" "held s @ fut = waiting k ps" "k \<le> 1" "\<forall>p \<in> set ps. carried p"
  shows "\<exists>ret s'. ppp_process_loop pty_recorder s = Some (Inr (ret, s')) \<and> loop_result s fut ps ret s'"
  using assms
proof (induction ps arbitrary: s k)
  case (Nil s k)
  have u: "unfinished v k []" for v by (simp add: unfinished_def)
  show ?case
  proof (cases "held s = []")
    case True
    obtain s' where s': "ppp_process_loop pty_recorder s = Some (Inr (SSTP_OKAY, s'))" "rx_ok s'" "tx_ok s'" "held s' = []" "b_off (y_rx s') = 0"
      "s' = s\<lparr>y_rx := sstp_buff_reset (y_rx s)\<rparr>" using loop_empty [OF Nil.prems(1,2) True] by blast
    have "same_rest s s'" "z_sent s' = z_sent s" by (simp_all add: s'(6) same_rest_def)
    then show ?thesis using s'(1-5) u True Nil.prems(4,5) unfolding loop_result_def by auto
  next
    case False
    obtain stale where st: "drop (nat (b_off (y_rx s))) (b_data (y_rx s)) = held s @ stale" "stale \<noteq> []" "last stale = 0"
      using held_memory [OF Nil.prems(1)] by blast
    have v: "held s = replicate (length (held s)) HDLC_FLAG"
      using Nil.prems(4) by (rule arrived_cases) simp_all
    obtain out where d: "sstp_frame_decode (held s @ stale) (length (held s)) 16380 = Some (SSTP_OVERFLOW, int (length (held s)), 16380, out)"
      "length out \<le> 16380" using decode_flags [of "held s @ stale" "length (held s)" stale 16380] v st(2,3) by auto
    obtain s' where s': "ppp_process_loop pty_recorder s = Some (Inr (SSTP_OKAY, s'))" "rx_ok s'" "tx_ok s'" "held s' = held s"
      "b_off (y_rx s') = 0" "same_rest s s'" "z_sent s' = z_sent s"
      using loop_stop [OF Nil.prems(1,2) False st(1) d] by auto
    then show ?thesis using u Nil.prems(4,5) unfolding loop_result_def by auto
  qed
next
  case (Cons p ps s k)
  show ?case
  proof (cases "held s = []")
    case True
    obtain s' where s': "ppp_process_loop pty_recorder s = Some (Inr (SSTP_OKAY, s'))" "rx_ok s'" "tx_ok s'" "held s' = []" "b_off (y_rx s') = 0"
      "s' = s\<lparr>y_rx := sstp_buff_reset (y_rx s)\<rparr>" using loop_empty [OF Cons.prems(1,2) True] by blast
    have "same_rest s s'" "z_sent s' = z_sent s" by (simp_all add: s'(6) same_rest_def)
    moreover have "unfinished [] k (p # ps)" by (simp add: unfinished_def frame_of_def)
    ultimately show ?thesis using s'(1-5) True Cons.prems(4,5) unfolding loop_result_def
      by (intro exI [of _ SSTP_OKAY] exI [of _ s'] conjI exI [of _ k] exI [of _ "[]"] exI [of _ "p # ps"]) simp_all
  next
    case False
    let ?c = "p @ fcs_trailer p"
    obtain stale where st: "drop (nat (b_off (y_rx s))) (b_data (y_rx s)) = held s @ stale" "stale \<noteq> []" "last stale = 0"
      using held_memory [OF Cons.prems(1)] by blast
    have cp: "carried p" "\<forall>p \<in> set ps. carried p" using Cons.prems(6) by simp_all
    note cf = carried_facts [OF cp(1)]
    have stop: ?thesis if t: "sstp_frame_decode (held s @ stale) (length (held s)) 16380 = Some (st, int (length (held s)), n, out)"
      "length out \<le> 16380" "st \<noteq> SSTP_OKAY" "unfinished (held s) k (p # ps)" for st n out
    proof -
      obtain s' where s': "ppp_process_loop pty_recorder s = Some (Inr (SSTP_OKAY, s'))" "rx_ok s'" "tx_ok s'" "held s' = held s"
        "b_off (y_rx s') = 0" "same_rest s s'" "z_sent s' = z_sent s"
        using loop_stop [OF Cons.prems(1,2) False st(1) t(1-3)] by blast
      then show ?thesis using t(4) Cons.prems(4,5) unfolding loop_result_def
        by (intro exI [of _ SSTP_OKAY] exI [of _ s'] conjI exI [of _ k] exI [of _ "[]"] exI [of _ "p # ps"]) simp_all
    qed
    have send: ?thesis if t: "sstp_frame_decode (held s @ stale) (length (held s)) 16380 = Some (SSTP_OKAY, int i, int (length p), ?c)"
      "0 < i" "i \<le> length (held s)" "drop i (held s) @ fut = waiting 1 ps" for i
    proof -
      obtain s1 a where s1: "rx_ok s1" "tx_ok s1" "held s1 = drop i (held s)" "same_rest s s1" "z_sent s1 = z_sent s @ [data_packet p]"
        "a = SSTP_OKAY \<or> a \<in> set (z_answers s)"
        "ppp_process_loop pty_recorder s = (if a = SSTP_OKAY then ppp_process_loop pty_recorder s1 else Some (Inr (SSTP_INPROG, s1)))"
        using loop_send [OF Cons.prems(1,2) st(1) t(2,3,1) cf(2) Cons.prems(3)] by blast
      have w: "held s1 @ fut = waiting 1 ps" using s1(3) t(4) by simp
      show ?thesis
      proof (cases "a = SSTP_OKAY")
        case True
        have "\<not> y_auth_check s1" using s1(4) Cons.prems(3) by (simp add: same_rest_def)
        then obtain ret s' where "ppp_process_loop pty_recorder s1 = Some (Inr (ret, s'))" "loop_result s1 fut ps ret s'"
          using Cons.IH [OF s1(1,2) _ w _ cp(2)] by auto
        then show ?thesis using True s1(7) loop_result_step [OF _ s1(4,5)] by auto
      next
        case False
        have "z_answers s \<noteq> []" using s1(6) False by auto
        then have "loop_result s fut (p # ps) SSTP_INPROG s1" unfolding loop_result_def using s1(1,2,4,5) w
          by (intro conjI exI [of _ 1] exI [of _ "[p]"] exI [of _ ps]) simp_all
        then show ?thesis using False s1(7) by auto
      qed
    qed
    from Cons.prems(4) show ?thesis
    proof (cases rule: arrived_cases)
      case flags
      obtain out where "sstp_frame_decode (held s @ stale) (length (held s)) 16380 = Some (SSTP_OVERFLOW, int (length (held s)), 16380, out)"
        "length out \<le> 16380" using decode_flags [of "held s @ stale" "length (held s)" stale 16380] flags(1) st(2,3) by auto
      then show ?thesis using stop flags(2) by blast
    next
      case (part q ps' i)
      have q: "q = p" "ps' = ps" using part(1) by simp_all
      have m: "held s @ stale = replicate (k + 1) HDLC_FLAG @ take i (stuff ?c) @ stale" using part(4) by (simp add: q content_of_def)
      have i: "i \<le> length (stuff ?c)" using part(3) by (simp add: q content_of_def)
      have l: "length (held s) = k + 1 + i" using part(3,4) by (simp add: q)
      have u: "unfinished (held s) k (p # ps)" using i l by (simp add: unfinished_def frame_of_def)
      obtain r off n out where d: "sstp_frame_decode (held s @ stale) (length (held s)) 16380 = Some (r, off, n, out)" "length out \<le> 16380"
        "r = SSTP_OVERFLOW \<and> off = int (length (held s)) \<or> r = SSTP_FAIL \<and> off = int (length (held s))
          \<or> r = SSTP_OKAY \<and> off = int (length (held s)) \<and> n = int (length out) - 2
            \<and> (\<exists>k \<le> length ?c. out = take k ?c \<and> take i (stuff ?c) = stuff (take k ?c) \<and> 4 \<le> k
              \<and> sstp_frame_check PPPINITFCS16 (take k ?c) = PPPGOODFCS16)"
        using decode_partial [OF m part(2) i cf(2) st(2,3)] unfolding l by blast
      show ?thesis
      proof (cases "r = SSTP_OKAY")
        case False
        then have "off = int (length (held s))" using d(3) by auto
        then show ?thesis using stop d(1,2) False u by blast
      next
        case True
        have "off = int (length (held s)) \<and> n = int (length out) - 2 \<and> (\<exists>k \<le> length ?c. out = take k ?c
            \<and> take i (stuff ?c) = stuff (take k ?c) \<and> 4 \<le> k \<and> sstp_frame_check PPPINITFCS16 (take k ?c) = PPPGOODFCS16)"
          using d(3) unfolding True by (simp only: status_t.distinct simp_thms)
        then obtain kk where kk: "kk \<le> length ?c" "out = take kk ?c" "take i (stuff ?c) = stuff (take kk ?c)" "4 \<le> kk"
          "sstp_frame_check PPPINITFCS16 (take kk ?c) = PPPGOODFCS16" "off = int (length (held s))" "n = int (length out) - 2"
          by blast
        have "\<not> kk < length p + 2" using cp(1) kk(4,5) unfolding carried_def by blast
        moreover have "length ?c = length p + 2" by simp
        ultimately have "kk = length ?c" using kk(1) by (simp only: not_less le_antisym)
        then have o: "out = ?c" "take i (stuff ?c) = stuff ?c" using kk(2,3) by simp_all
        have "length (take i (stuff ?c)) = i" using i by simp
        then have "i = length (stuff ?c)" unfolding o(2) by simp
        then have "drop (length (held s)) (held s) @ fut = waiting 1 ps"
          using part(5) by (simp add: q content_of_def waiting_def)
        moreover have "sstp_frame_decode (held s @ stale) (length (held s)) 16380 = Some (SSTP_OKAY, int (length (held s)), int (length p), ?c)"
          using d(1) True kk(6,7) o(1) by simp
        ultimately show ?thesis using send False by blast
      qed
    next
      case (whole q ps' rest)
      have q: "q = p" "ps' = ps" using whole(1) by simp_all
      let ?i = "k + 1 + length (stuff ?c)"
      have m: "held s @ stale = replicate (k + 1) HDLC_FLAG @ stuff ?c @ HDLC_FLAG # rest @ stale" using whole(2) by (simp add: q content_of_def)
      have l: "?i \<le> length (held s)" using whole(2) by (simp add: q content_of_def)
      have n: "\<not> (length ?c < 4 \<or> sstp_frame_check PPPINITFCS16 ?c \<noteq> PPPGOODFCS16)" "int (length ?c) - 2 = int (length p)"
        using cf(3,4) by (simp_all only: not_less de_Morgan_disj simp_thms) simp
      have a: "sstp_frame_decode (held s @ stale) (length (held s)) 16380 = Some (SSTP_OKAY, int ?i, int (length p), ?c)"
        using decode_whole [OF m cf(5) l cf(2)] by (simp only: n if_False)
      have b: "drop ?i (held s) @ fut = waiting 1 ps" using whole(2,3) by (simp add: q content_of_def)
      show ?thesis by (rule send [OF a _ l b]) simp
    qed
  qed
qed

end
