(* ===== verification/PtyProofs.thy ===== *)
theory PtyProofs
  imports PtyLoop
begin

text \<open>
  The bridge to pppd under any sequence of reads and completed sends, the way back, the look into the
  authentication, and how pppd is started.
\<close>

section \<open>Any sequence of reads and completed sends\<close>

datatype pty_event = Readable bytes | Sent status_t

definition pty_step :: "pty_event \<Rightarrow> pty_rec \<Rightarrow> pty_rec option" where
  "pty_step ev s = (case ev of
     Readable bs \<Rightarrow> (case sstp_pppd_recv_pty pty_recorder (Some bs) s of
       Some (Inr s') \<Rightarrow> Some (s'\<lparr>z_read := z_read s' @ bs\<rparr>) | _ \<Rightarrow> None)
   | Sent st \<Rightarrow> (case ppp_send_complete_pty pty_recorder st s of Some (Inr s') \<Rightarrow> Some s' | _ \<Rightarrow> None))"

text \<open>
  Bytes arrive while the read event is armed, a send completes while it is not; what arrives is
  what comes next of the frames, at most 8191 bytes at a time.
\<close>

definition pty_may :: "bytes list \<Rightarrow> pty_event \<Rightarrow> pty_rec \<Rightarrow> bool" where
  "pty_may ps ev s = (case ev of
     Readable bs \<Rightarrow> y_reading s \<and> bs \<noteq> [] \<and> length bs \<le> 8191
       \<and> take (length (z_read s @ bs)) (frames ps) = z_read s @ bs
   | Sent st \<Rightarrow> \<not> y_reading s)"

definition bridge_inv :: "status_t list \<Rightarrow> bytes list \<Rightarrow> pty_rec \<Rightarrow> bool" where
  "bridge_inv as ps s \<longleftrightarrow> (\<forall>p \<in> set ps. carried p) \<and> rx_ok s \<and> tx_ok s \<and> \<not> y_auth_check s \<and> (y_first s \<longrightarrow> y_notify s)
     \<and> set (z_answers s) \<subseteq> set as \<and> (\<not> y_reading s \<longrightarrow> as \<noteq> [])
     \<and> (\<exists>fut k ps1 ps2. frames ps = z_read s @ fut \<and> ps = ps1 @ ps2 \<and> held s @ fut = waiting k ps2 \<and> k \<le> 1
       \<and> z_sent s = map data_packet ps1 \<and> (y_reading s \<longrightarrow> b_off (y_rx s) = 0 \<and> unfinished (held s) k ps2))"

lemma process_data_run:
  assumes "rx_ok s" "tx_ok s" "\<not> y_auth_check s" "held s @ fut = waiting k ps" "k \<le> 1" "\<forall>p \<in> set ps. carried p"
  shows "\<exists>ret s'. ppp_process_data pty_recorder s = Some (Inr (ret, s')) \<and> loop_result s fut ps ret s'"
proof -
  let ?s = "s\<lparr>y_tx := sstp_buff_reset (y_tx s)\<rparr>"
  have "rx_ok ?s" "tx_ok ?s" "held ?s = held s" using assms(1,2) by (simp_all add: rx_ok_def tx_ok_def held_def sstp_buff_reset_def)
  then obtain ret s' where "ppp_process_data pty_recorder s = Some (Inr (ret, s'))" "loop_result ?s fut ps ret s'"
    using loop_run [of ?s fut k ps] assms(3-6) by (auto simp: ppp_process_data_def)
  then show ?thesis by (auto simp: loop_result_def same_rest_def)
qed

lemma held_short:
  assumes "held s @ fut = waiting k ps" "k \<le> 1" "unfinished (held s) k ps" "\<forall>p \<in> set ps. carried p"
  shows "length (held s) \<le> 8191"
proof (cases ps)
  case Nil
  then have "length (held s) + length fut = k" using assms(1) by (simp add: waiting_def flip: length_append)
  then show ?thesis using assms(2) by simp
next
  case (Cons p qs)
  then show ?thesis using assms(2-4) by (simp add: unfinished_def carried_def)
qed

text \<open>After the loop.\<close>

lemma bridge_after:
  assumes r: "loop_result s fut ps2 ret s'" and "\<forall>p \<in> set ps. carried p" "\<not> y_auth_check s" "y_first s \<longrightarrow> y_notify s"
    "set (z_answers s) \<subseteq> set as" "frames ps = got @ fut" "ps = ps1 @ ps2" "z_sent s = map data_packet ps1" "\<not> y_reading s"
    and s2: "s2 = (if ret = SSTP_OKAY then (f s')\<lparr>y_reading := True\<rparr> else s')" "f s' = s' \<or> f s' = ppp_record_sent_pty n s'"
  shows "bridge_inv as ps (s2\<lparr>z_read := got\<rparr>)"
proof -
  obtain k ps3 ps4 where k: "ps2 = ps3 @ ps4" "held s' @ fut = waiting k ps4" "k \<le> 1" "z_sent s' = z_sent s @ map data_packet ps3"
    "ret = SSTP_OKAY \<and> b_off (y_rx s') = 0 \<and> unfinished (held s') k ps4 \<or> ret = SSTP_INPROG \<and> z_answers s \<noteq> []"
    using r unfolding loop_result_def by blast
  have q: "rx_ok s'" "tx_ok s'" "same_rest s s'" using r by (simp_all add: loop_result_def)
  let ?t = "s2\<lparr>z_read := got\<rparr>"
  have f: "y_rx (f s') = y_rx s'" "y_tx (f s') = y_tx s'" "z_answers (f s') = z_answers s'" "z_sent (f s') = z_sent s'"
    "y_auth_check (f s') = y_auth_check s'" "y_first (f s') = y_first s'" "y_notify (f s') = y_notify s'"
    using s2(2) by (auto simp: ppp_record_sent_pty_def)
  have t: "rx_ok ?t" "tx_ok ?t" "held ?t = held s'" "b_off (y_rx ?t) = b_off (y_rx s')" "z_sent ?t = z_sent s'" "z_answers ?t = z_answers s'"
    "y_auth_check ?t = y_auth_check s" "y_first ?t = y_first s" "y_notify ?t = y_notify s" "y_reading ?t = (ret = SSTP_OKAY)"
    using q f assms(9) by (simp_all add: s2(1) rx_ok_def tx_ok_def held_def same_rest_def)
  have "set (z_answers ?t) \<subseteq> set as" using t(6) q(3) assms(5) by (auto simp: same_rest_def)
  moreover have "\<not> y_reading ?t \<longrightarrow> as \<noteq> []" using t(10) k(5) assms(5) by auto
  moreover have "frames ps = z_read ?t @ fut" "ps = (ps1 @ ps3) @ ps4" "z_sent ?t = map data_packet (ps1 @ ps3)"
    using assms(6-8) k(1,4) t(5) by simp_all
  moreover have "y_reading ?t \<longrightarrow> b_off (y_rx ?t) = 0 \<and> unfinished (held ?t) k ps4" using t(3,4,10) k(5) by auto
  ultimately show ?thesis unfolding bridge_inv_def using assms(2-4) t(1,2,3,7-9) k(2,3)
    by (intro conjI exI [of _ fut] exI [of _ k] exI [of _ "ps1 @ ps3"] exI [of _ ps4]) (simp_all only: simp_thms)
qed

lemma readable_step:
  assumes "bridge_inv as ps s" "pty_may ps (Readable bs) s"
  shows "\<exists>s'. pty_step (Readable bs) s = Some s' \<and> bridge_inv as ps s'"
proof -
  obtain fut k ps1 ps2 where i: "frames ps = z_read s @ fut" "ps = ps1 @ ps2" "held s @ fut = waiting k ps2" "k \<le> 1"
    "z_sent s = map data_packet ps1" "y_reading s \<longrightarrow> b_off (y_rx s) = 0 \<and> unfinished (held s) k ps2"
    using assms(1) unfolding bridge_inv_def by blast
  have j: "\<forall>p \<in> set ps. carried p" "rx_ok s" "tx_ok s" "\<not> y_auth_check s" "y_first s \<longrightarrow> y_notify s" "set (z_answers s) \<subseteq> set as"
    using assms(1) by (simp_all add: bridge_inv_def)
  have m: "y_reading s" "bs \<noteq> []" "length bs \<le> 8191" "take (length (z_read s @ bs)) (frames ps) = z_read s @ bs"
    using assms(2) by (simp_all add: pty_may_def)
  have o: "b_off (y_rx s) = 0" and u: "unfinished (held s) k ps2" using i(6) m(1) by simp_all
  have hl: "length (held s) \<le> 8191" by (rule held_short [OF i(3,4) u]) (use j(1) i(2) in simp)
  have "take (length bs) fut = bs" using m(4) unfolding i(1) by simp
  then obtain fut' where fut: "fut = bs @ fut'" by (metis append_take_drop_id)
  define s0 where "s0 = s\<lparr>y_reading := False, z_calls := (if y_first s then z_calls s @ [SSTP_PPP_START] else z_calls s), y_first := False\<rparr>"
  let ?d = "b_data (y_rx s)" and ?n = "b_len (y_rx s)"
  have r: "b_max (y_rx s) = 16384" "length ?d = 16384" "?d ! 16383 = 0" "?n = int (length (held s))"
    using j(2) length_held [OF j(2)] o by (simp_all add: rx_ok_def)
  have h: "held s = take (nat ?n) ?d" by (simp add: held_def o)
  let ?d' = "take (nat ?n) ?d @ bs @ drop (nat ?n + length bs) ?d"
  have w: "wr_n ?d ?n bs = Some ?d'" using r(2,4) hl m(3) by (simp add: wr_n_def)
  define s1 where "s1 = s0\<lparr>y_rx := (y_rx s)\<lparr>b_data := ?d', b_len := ?n + int (length bs)\<rparr>\<rparr>"
  have d': "length ?d' = 16384" "?d' ! 16383 = 0" using r hl m(3) by (auto simp: nth_append min_def)
  have s1: "rx_ok s1" "tx_ok s1" "held s1 = held s @ bs" "\<not> y_auth_check s1"
  proof -
    show "rx_ok s1" using r d' o hl m(3) by (simp add: s1_def s0_def rx_ok_def del: append_assoc)
    show "tx_ok s1" using j(3) by (simp add: s1_def s0_def tx_ok_def)
    show "\<not> y_auth_check s1" using j(4) by (simp add: s1_def s0_def)
    have "nat (?n + int (length bs)) = length (take (nat ?n) ?d @ bs)" using r(2,4) hl by simp
    then have "held s1 = take (length (take (nat ?n) ?d @ bs)) ((take (nat ?n) ?d @ bs) @ drop (nat ?n + length bs) ?d)"
      unfolding held_def [of s1] by (simp add: s1_def s0_def o)
    then show "held s1 = held s @ bs" unfolding h by (simp only: append_eq_conv_conj [THEN iffD1, OF refl, THEN conjunct1, symmetric])
  qed
  obtain ret s2 where p: "ppp_process_data pty_recorder s1 = Some (Inr (ret, s2))" "loop_result s1 fut' ps2 ret s2"
    using process_data_run [OF s1(1,2,4), of fut' k ps2] i(2-4) j(1) s1(3) fut by auto
  let ?s3 = "if ret = SSTP_OKAY then s2\<lparr>y_reading := True\<rparr> else s2"
  have first: "(if y_first (s\<lparr>y_reading := False\<rparr>) then if \<not> y_notify (s\<lparr>y_reading := False\<rparr>) then None
      else y_call pty_recorder SSTP_PPP_START (s\<lparr>y_reading := False\<rparr>) \<bind> (\<lambda>r. Some (case r of Inl e \<Rightarrow> Inl e | Inr ctx \<Rightarrow> Inr (ctx\<lparr>y_first := False\<rparr>)))
      else Some (Inr (s\<lparr>y_reading := False\<rparr>))) = Some (Inr s0)"
    using j(5) by (auto simp: pty_recorder_def s0_def)
  have "sstp_pppd_recv_pty pty_recorder (Some bs) s = Some (Inr ?s3)"
  proof -
    have "y_rx s0 = y_rx s" by (simp add: s0_def)
    moreover have "\<not> ?n + int (length bs) \<le> 0" using m(2) r(4) by (cases bs) simp_all
    ultimately show ?thesis unfolding sstp_pppd_recv_pty_def Let_def first
      using w p(1) by (simp add: flip: s1_def)
  qed
  then have step: "pty_step (Readable bs) s = Some (?s3\<lparr>z_read := z_read ?s3 @ bs\<rparr>)" by (simp add: pty_step_def)
  have zr: "z_read ?s3 = z_read s" using p(2) by (simp add: loop_result_def same_rest_def s1_def s0_def)
  have "bridge_inv as ps (?s3\<lparr>z_read := z_read s @ bs\<rparr>)"
  proof -
    have q: "y_first s1 \<longrightarrow> y_notify s1" "set (z_answers s1) \<subseteq> set as" "frames ps = (z_read s @ bs) @ fut'"
      "z_sent s1 = map data_packet ps1" "\<not> y_reading s1"
      using i(1,5) j(5,6) fut by (simp_all add: s1_def s0_def)
    show ?thesis by (rule bridge_after [OF p(2) j(1) s1(4) q(1-3) i(2) q(4,5), where f = "\<lambda>x. x"]) simp_all
  qed
  then show ?thesis using step zr by simp
qed

lemma same_read: "z_read s = r \<Longrightarrow> s\<lparr>z_read := r\<rparr> = s"
  by (cases s) simp

lemma sent_step:
  assumes "bridge_inv as ps s" "pty_may ps (Sent st) s"
  shows "\<exists>s'. pty_step (Sent st) s = Some s' \<and> bridge_inv as ps s'"
proof -
  obtain fut k ps1 ps2 where i: "frames ps = z_read s @ fut" "ps = ps1 @ ps2" "held s @ fut = waiting k ps2" "k \<le> 1"
    "z_sent s = map data_packet ps1" using assms(1) unfolding bridge_inv_def by blast
  have j: "\<forall>p \<in> set ps. carried p" "rx_ok s" "tx_ok s" "\<not> y_auth_check s" "y_first s \<longrightarrow> y_notify s" "set (z_answers s) \<subseteq> set as"
    using assms(1) by (simp_all add: bridge_inv_def)
  have m: "\<not> y_reading s" using assms(2) by (simp add: pty_may_def)
  obtain ret s2 where p: "ppp_process_data pty_recorder s = Some (Inr (ret, s2))" "loop_result s fut ps2 ret s2"
    using process_data_run [OF j(2-4) i(3,4)] j(1) i(2) by auto
  let ?n = "word_of_int (b_len (y_tx s2))"
  let ?s3 = "if ret = SSTP_OKAY then (ppp_record_sent_pty ?n s2)\<lparr>y_reading := True\<rparr> else s2"
  have step: "pty_step (Sent st) s = Some ?s3" using p(1) by (simp add: pty_step_def ppp_send_complete_pty_def)
  have zr: "z_read ?s3 = z_read s" using p(2) by (simp add: loop_result_def same_rest_def ppp_record_sent_pty_def)
  have "bridge_inv as ps (?s3\<lparr>z_read := z_read s\<rparr>)"
    by (rule bridge_after [OF p(2) j(1,4,5,6) i(1,2,5) m, where f = "ppp_record_sent_pty ?n" and n = ?n]) simp_all
  moreover have "?s3\<lparr>z_read := z_read s\<rparr> = ?s3" using zr by (rule same_read)
  ultimately show ?thesis using step by simp
qed

interpretation bridge: enabled_machine pty_step "bridge_inv as ps" "pty_may ps" for "as" ps
proof
  fix s i assume "bridge_inv as ps s" "pty_may ps i s"
  then show "\<exists>s'. pty_step i s = Some s' \<and> bridge_inv as ps s'"
    using readable_step sent_step by (cases i) blast+
qed

section \<open>Properties\<close>

text \<open>The context of a client that runs pppd with the plugin, its read event armed.\<close>

definition pty_begin :: "status_t list \<Rightarrow> pty_rec" where
  "pty_begin as = (pty.extend (the (snd (sstp_pppd_create_pty True True True True))) (pty_rec.fields [] as [] []))\<lparr>y_reading := True\<rparr>"

lemma pty_begin_inv: "\<forall>p \<in> set ps. carried p \<Longrightarrow> bridge_inv as ps (pty_begin as)"
proof -
  assume c: "\<forall>p \<in> set ps. carried p"
  have b: "sstp_pppd_create_pty True True True True = (SSTP_OKAY, Some \<lparr>y_task = None, y_rx = wbuf 16384, y_tx = wbuf 16384,
      y_notify = True, y_chap = chap_zero, y_sock = 0, y_ip_up = False, y_auth_done = False, y_auth_check = False, y_del_file = False,
      y_tmpfile = [], y_t_end = 0, y_t_start = 0, y_sent = 0, y_recv = 0, y_first = True, y_reading = False, y_disk = (\<lambda>_. None)\<rparr>)"
    by (simp add: sstp_pppd_create_pty_def sstp_buff_create_def wbuf_def)
  have f: "rx_ok (pty_begin as)" "tx_ok (pty_begin as)" "held (pty_begin as) = []" "b_off (y_rx (pty_begin as)) = 0"
    "\<not> y_auth_check (pty_begin as)" "y_notify (pty_begin as)" "z_answers (pty_begin as) = as" "z_read (pty_begin as) = []"
    "z_sent (pty_begin as) = []" "y_reading (pty_begin as)"
    by (simp_all add: pty_begin_def b pty.defs pty_rec.defs rx_ok_def tx_ok_def held_def wbuf_def)
  have "unfinished [] 0 ps" by (cases ps) (simp_all add: unfinished_def frame_of_def)
  then show ?thesis unfolding bridge_inv_def using f c
    by (intro conjI exI [of _ "frames ps"] exI [of _ 0] exI [of _ "[]"] exI [of _ ps]) (simp_all add: waiting_def)
qed

text \<open>C19. The bridge from pppd to the server, for payloads of which no shorter beginning of payload and checksum has a
  right checksum itself, in frames of at most 8191 bytes that arrive in reads of at most 8191 bytes: wherever the terminal cuts
  the HDLC stream into reads, and whether the stream takes a packet at once or reports it later, the packets sent are those of
  the frames, in order, nothing between them; when all bytes have been read and the bridge is reading again, all were sent; over a
  stream that takes every packet at once it is always reading. For the other payloads see \<open>prefix_sent\<close> below.\<close>

theorem pty_bridge:
  assumes "\<forall>p \<in> set ps. carried p" "allowed pty_step (pty_may ps) evs (pty_begin as)"
  shows "\<exists>s. run_steps pty_step evs (pty_begin as) = Some s \<and> (\<exists>n. z_sent s = map data_packet (take n ps))
    \<and> (y_reading s \<and> z_read s = frames ps \<longrightarrow> z_sent s = map data_packet ps) \<and> (as = [] \<longrightarrow> y_reading s)"
proof -
  obtain s where s: "run_steps pty_step evs (pty_begin as) = Some s" "bridge_inv as ps s"
    using bridge.run_safe [OF pty_begin_inv [OF assms(1)] assms(2)] by blast
  obtain fut k ps1 ps2 where i: "frames ps = z_read s @ fut" "ps = ps1 @ ps2" "held s @ fut = waiting k ps2" "k \<le> 1"
    "z_sent s = map data_packet ps1" "y_reading s \<longrightarrow> unfinished (held s) k ps2"
    using s(2) unfolding bridge_inv_def by blast
  have "ps2 = []" if "y_reading s" "z_read s = frames ps"
  proof (cases ps2)
    case (Cons p qs)
    have "held s = waiting k (p # qs)" using i(1,3) that(2) Cons by simp
    then have "k + length (frame_of p) \<le> length (held s)" by (simp add: waiting_def)
    then show ?thesis using i(6) that(1) Cons by (simp add: unfinished_def)
  qed
  then have "y_reading s \<and> z_read s = frames ps \<longrightarrow> z_sent s = map data_packet ps" using i(2,5) by auto
  moreover have "z_sent s = map data_packet (take (length ps1) ps)" using i(2,5) by simp
  moreover have "as = [] \<longrightarrow> y_reading s" using s(2) by (auto simp: bridge_inv_def)
  ultimately show ?thesis using s(1) by blast
qed

lemma pty_bridge_witness:
  "\<exists>s. run_steps pty_step [Readable [0x7e, 0x7d, 0x5e, 0x7d, 0x21, 0x7d, 0x3a, 0x74, 0x7e]] (pty_begin []) = Some s \<and> y_reading s
    \<and> (z_read s = [0x7e, 0x7d, 0x5e, 0x7d, 0x21, 0x7d, 0x3a, 0x74, 0x7e] \<longrightarrow> z_sent s = [[0x10, 0, 0, 6, 0x7e, 1]])"
proof -
  let ?f = "[0x7e, 0x7d, 0x5e, 0x7d, 0x21, 0x7d, 0x3a, 0x74, 0x7e] :: bytes"
  have f: "frame_of [0x7e, 1] = ?f"
    by (simp add: frame_of_def fcs_trailer_def Let_def fcs_step_crc crc8_def crc_bit_def escape_char_def needs_escape_def hdlc_consts)
  then have "\<forall>p \<in> set [[0x7e, 1]]. carried p" by (simp add: carried_def)
  moreover have "allowed pty_step (pty_may [[0x7e, 1]]) [Readable ?f] (pty_begin [])"
    by (simp add: pty_may_def f pty_begin_def sstp_pppd_create_pty_def sstp_buff_create_def pty.defs pty_rec.defs split: option.split)
  ultimately show ?thesis using pty_bridge [of "[[0x7e, 1]]" "[Readable ?f]" "[]"] f
    by (auto simp: data_packet_def be16_def pkt_consts)
qed

text \<open>
  Without the condition on payloads a cut can lose data: the decoder looks at the byte behind what has arrived, which is left
  over from an earlier read. When it is a flag and what has arrived ends with a right checksum, that part is sent as a packet.
\<close>

lemma prefix_sent:
  assumes "rx_ok s" "tx_ok s" "\<not> y_auth_check s" "z_answers s = []" "2 \<le> length x" "length x \<le> 8000"
    and "held s = HDLC_FLAG # stuff (x @ fcs_trailer x)"
    and "drop (nat (b_off (y_rx s))) (b_data (y_rx s)) = held s @ HDLC_FLAG # older"
  shows "\<exists>s'. ppp_process_data pty_recorder s = Some (Inr (SSTP_OKAY, s')) \<and> held s' = [] \<and> z_sent s' = z_sent s @ [data_packet x]"
proof -
  let ?s = "s\<lparr>y_tx := sstp_buff_reset (y_tx s)\<rparr>" and ?c = "x @ fcs_trailer x"
  have k: "rx_ok ?s" "tx_ok ?s" "held ?s = held s" "\<not> y_auth_check ?s"
    using assms(1-3) by (simp_all add: rx_ok_def tx_ok_def held_def sstp_buff_reset_def)
  have c: "?c \<noteq> []" "length ?c \<le> 16380" "\<not> length ?c < 4" "int (length ?c) - 2 = int (length x)" using assms(5,6) by simp_all
  have l: "length (held s) = 1 + length (stuff ?c)" unfolding assms(7) by simp
  have m: "held s @ HDLC_FLAG # older = replicate 1 HDLC_FLAG @ stuff ?c @ HDLC_FLAG # older" unfolding assms(7) by simp
  have d: "sstp_frame_decode (held s @ HDLC_FLAG # older) (length (held s)) 16380
      = Some (SSTP_OKAY, int (length (held s)), int (length x), ?c)"
    using decode_whole [OF m c(1) _ c(2), of "length (held s)"] l c(3,4) by (simp add: sstp_frame_check_trailer)
  have "0 < length (held s)" "length (held s) \<le> length (held ?s)" using l k(3) by simp_all
  then obtain s1 a where s1: "rx_ok s1" "tx_ok s1" "held s1 = []" "same_rest ?s s1" "z_sent s1 = z_sent s @ [data_packet x]" "a = SSTP_OKAY"
    "ppp_process_loop pty_recorder ?s = ppp_process_loop pty_recorder s1"
    using loop_send [OF k(1,2) _ _ _ _ _ k(4), of "held s @ HDLC_FLAG # older" "length (held s)" x "fcs_trailer x"] assms(4,8) d c(2) k(3)
    by auto
  obtain s2 where s2: "ppp_process_loop pty_recorder s1 = Some (Inr (SSTP_OKAY, s2))" "held s2 = []" "s2 = s1\<lparr>y_rx := sstp_buff_reset (y_rx s1)\<rparr>"
    using loop_empty [OF s1(1-3), of pty_recorder] by blast
  have "ppp_process_data pty_recorder s = Some (Inr (SSTP_OKAY, s2))" using s1(7) s2(1) by (simp add: ppp_process_data_def)
  then show ?thesis using s1(5) s2(2,3) by simp
qed

text \<open>
  At the end of what pppd writes the closing flag of the last frame is still in the buffer, so a read of nothing
  is not seen as the end: the bridge arms its reader again and tells nobody.
\<close>

lemma eof_unnoticed:
  assumes "rx_ok s" "tx_ok s" "held s = [HDLC_FLAG]" "b_off (y_rx s) = 0" "\<not> y_first s"
  shows "\<exists>s'. sstp_pppd_recv_pty pty_recorder (Some []) s = Some (Inr s') \<and> y_reading s' \<and> z_calls s' = z_calls s \<and> held s' = held s"
proof -
  let ?d = "b_data (y_rx s)"
  let ?s = "s\<lparr>y_reading := False, y_tx := sstp_buff_reset (y_tx s)\<rparr>"
  have n: "b_len (y_rx s) = 1" using length_held [OF assms(1)] assms(3,4) by simp
  have w: "wr_n ?d 1 [] = Some ?d" using assms(1) by (simp add: wr_n_def rx_ok_def)
  have k: "rx_ok ?s" "tx_ok ?s" "held ?s = [HDLC_FLAG]" using assms(1-3) by (simp_all add: rx_ok_def tx_ok_def held_def sstp_buff_reset_def)
  obtain stale where st: "drop (nat (b_off (y_rx ?s))) (b_data (y_rx ?s)) = held ?s @ stale" "stale \<noteq> []" "last stale = 0"
    using held_memory [OF k(1)] by blast
  obtain out where d: "sstp_frame_decode (held ?s @ stale) (length (held ?s)) 16380 = Some (SSTP_OVERFLOW, int (length (held ?s)), 16380, out)"
    "length out \<le> 16380" using decode_flags [of "held ?s @ stale" 1 stale 16380] k(3) st(2,3) by auto
  obtain s1 where s1: "ppp_process_loop pty_recorder ?s = Some (Inr (SSTP_OKAY, s1))" "held s1 = [HDLC_FLAG]" "z_calls s1 = z_calls s"
  proof -
    have ne: "held ?s \<noteq> []" unfolding k(3) by simp
    obtain s' where "ppp_process_loop pty_recorder ?s = Some (Inr (SSTP_OKAY, s'))" "held s' = held ?s" "z_calls s' = z_calls ?s"
      using loop_stop [OF k(1,2) ne st(1) d] by auto
    then show ?thesis using that k(3) by simp
  qed
  have "sstp_pppd_recv_pty pty_recorder (Some []) s = Some (Inr (s1\<lparr>y_reading := True\<rparr>))"
    using assms(5) n w s1(1) by (simp add: sstp_pppd_recv_pty_def ppp_process_data_def)
  moreover have "held (s1\<lparr>y_reading := True\<rparr>) = held s1" by (simp add: held_def)
  ultimately show ?thesis using s1(2,3) assms(3) by auto
qed

text \<open>From the server to pppd: when the frame fits, what is written is a frame that decodes to the
  payload, and the payload is counted; a payload that must be escaped throughout does not
  fit the array of \<open>2 n + 4\<close> bytes and is dropped.\<close>

theorem pty_send_frame:
  assumes "2 \<le> length p" "\<And>f. n f = int (length f)"
  shows "(if length (stuff (butlast (p @ fcs_trailer p))) \<le> 2 * length p
      then sstp_pppd_send_pty n p (int (length p)) s = Some (SSTP_OKAY, Some (frame_of p), ppp_record_recv_pty (word_of_int (int (length p))) s)
        \<and> payload_of (frame_of p) = Some p
      else sstp_pppd_send_pty n p (int (length p)) s = Some (SSTP_FAIL, None, s))
    \<and> ((\<forall>c \<in> set p. needs_escape c) \<longrightarrow> \<not> length (stuff (butlast (p @ fcs_trailer p))) \<le> 2 * length p)"
proof -
  let ?c = "p @ fcs_trailer p"
  have r: "rd_n p 0 (int (length p)) = Some p" by (simp add: rd_n_def)
  have esc: "2 * length p < length (stuff (butlast ?c))" if "\<forall>c \<in> set p. needs_escape c"
  proof -
    have "length (stuff p) = 2 * length p" using that by (induction p) (auto simp: escape_char_def)
    moreover obtain a b where "fcs_trailer p = [a, b]" by (metis fcs_trailer_def)
    ultimately show ?thesis using length_escape_char(1) [of a] by (simp add: butlast_append)
  qed
  show ?thesis
  proof (cases "length (stuff (butlast ?c)) \<le> 2 * length p")
    case True
    then have "int (length (stuff (butlast ?c))) + 4 \<le> 2 * int (length p) + 4" by simp
    then have "sstp_frame_encode p (2 * int (length p) + 4) = Some (SSTP_OKAY, frame_of p, int (length (frame_of p)))"
      by (simp add: sstp_frame_encode_ok frame_of_def)
    then show ?thesis using True r hdlc.dec_enc [OF assms(1)] esc by (auto simp: sstp_pppd_send_pty_def Let_def assms(2))
  next
    case False
    then have "2 * int (length p) + 4 < int (length (stuff (butlast ?c))) + 4" by simp
    then obtain out where "sstp_frame_encode p (2 * int (length p) + 4) = Some (SSTP_OVERFLOW, out, 2 * int (length p) + 4)"
      using sstp_frame_encode_overflow [of "2 * int (length p) + 4" p] by auto
    then show ?thesis using False r by (simp add: sstp_pppd_send_pty_def Let_def)
  qed
qed

lemma pty_send_frame_witness:
  "sstp_pppd_send_pty (\<lambda>f. int (length f)) [0x41, 0x42] 2 (pty_begin []) =
      Some (SSTP_OKAY, Some (frame_of [0x41, 0x42]), ppp_record_recv_pty 2 (pty_begin []))
    \<and> sstp_pppd_send_pty (\<lambda>f. int (length f)) [0x7e, 0x7d] 2 (pty_begin []) = Some (SSTP_FAIL, None, pty_begin [])"
  using pty_send_frame [of "[0x41, 0x42]" "\<lambda>f. int (length f)" "pty_begin []"] pty_send_frame [of "[0x7e, 0x7d]" "\<lambda>f. int (length f)" "pty_begin []"]
  by (simp add: fcs_trailer_def Let_def fcs_step_crc crc8_def crc_bit_def escape_char_def needs_escape_def hdlc_consts)

section \<open>Without the plugin\<close>

text \<open>The state when the response has been copied.\<close>

definition chap_value :: "bytes \<Rightarrow> sstp_chap" where
  "chap_value v = \<lparr>challenge = take 16 v, response = take 8 (drop 16 v), nt_response = take 24 (drop 24 v), chap_flags = v ! 48\<rparr>"

lemma check_auth_chap:
  assumes "b_data (y_tx s) = [SSTP_PROTO_VER, 0, a, b] @ hdr @ [0xc2, 0x23, 2, i, m, n, 49] @ v @ rest" "hdr = [] \<or> hdr = [0xff, 0x03]" "length v = 49"
    and "y_notify s" "y_call w SSTP_PPP_AUTH (s\<lparr>y_chap := chap_value v\<rparr>) = Some (Inr s')"
  shows "sstp_pppd_check_auth w s = Some (Inr (s'\<lparr>y_auth_done := True\<rparr>))"
proof -
  let ?d = "b_data (y_tx s)"
  have un: "un16 0xc2 0x23 = 0xc223" by (simp add: un16_def)
  have "sstp_pkt_data (y_tx s) = Some (Some 4)" by (simp add: sstp_pkt_data_def assms(1) rd_def pkt_consts)
  moreover have "\<exists>p. skip_hdlc ?d 4 = Some p \<and> rd ?d p = Some 0xc2 \<and> rd ?d (p + 1) = Some 0x23 \<and> rd ?d (p + 2) = Some 2
      \<and> rd ?d (6 + p) = Some 49 \<and> rd_n ?d (7 + p) 49 = Some v"
    using assms(2,3) unfolding assms(1) by (auto simp: skip_hdlc_def rd_def rd_n_def nat_add_distrib)
  ultimately show ?thesis using assms(4,5) un
    by (auto simp: sstp_pppd_check_auth_def Let_def auth_chap_def chap_seen_def notify_pty_def chap_value_def)
qed

text \<open>The first packet of IPCP tells the client that the link is up.\<close>

lemma ipup_ipcp:
  assumes "b_data (y_tx s) = [SSTP_PROTO_VER, 0, a, b] @ hdr @ [0x80, 0x21] @ rest" "hdr = [] \<or> hdr = [0xff, 0x03]"
    and "y_notify s" "y_call w SSTP_PPP_UP s = Some (Inr s')"
  shows "sstp_pppd_ipup w s = Some (Inr (s'\<lparr>y_ip_up := True\<rparr>))"
proof -
  have un: "un16 0x80 0x21 = 0x8021" by (simp add: un16_def)
  have "sstp_pkt_data (y_tx s) = Some (Some 4)" by (simp add: sstp_pkt_data_def assms(1) rd_def pkt_consts)
  moreover have "\<exists>p. skip_hdlc (b_data (y_tx s)) 4 = Some p \<and> rd16 (b_data (y_tx s)) p = Some (un16 0x80 0x21)"
    using assms(2) unfolding assms(1) by (auto simp: skip_hdlc_def rd_def rd16_def)
  ultimately show ?thesis using assms(3,4) un by (auto simp: sstp_pppd_ipup_def notify_pty_def)
qed

text \<open>It is not deleted then, and as the authentication is done no later packet leads to it.\<close>

lemma file_stays:
  assumes "b_data (y_tx s) = [SSTP_PROTO_VER, 0, a, b] @ hdr @ [0xc2, 0x23, 2, i, m, n, 49] @ v @ rest" "hdr = [] \<or> hdr = [0xff, 0x03]"
    and "length v = 49" "y_notify s"
  shows "\<exists>s'. sstp_pppd_check_auth pty_recorder s = Some (Inr s') \<and> y_disk s' = y_disk s \<and> y_del_file s' = y_del_file s \<and> y_auth_done s'"
proof -
  let ?s = "s\<lparr>y_chap := chap_value v\<rparr>"
  have "y_call pty_recorder SSTP_PPP_AUTH ?s = Some (Inr (?s\<lparr>z_calls := z_calls s @ [SSTP_PPP_AUTH]\<rparr>))" by (simp add: pty_recorder_def)
  from check_auth_chap [OF assms this] show ?thesis by auto
qed

section \<open>The file of the password and the arguments\<close>

text \<open>A password of 244 characters or more makes the code write memory behind its array to the file.\<close>

lemma line_written:
  "(rd_n (take 254 s @ [0] @ replicate (254 - length s) 0) 0 (int (length s)) = None) = (255 < length s)"
  "length s \<le> 254 \<Longrightarrow> rd_n (take 254 s @ [0] @ replicate (254 - length s) 0) 0 (int (length s)) = Some s"
  by (auto simp: rd_n_def min_def)

lemma password_line_iff: "(password_line pw = None) = (243 < length pw)"
proof -
  have l: "length (str_bytes (''password '' @ [CHR 0x22] @ pw @ [CHR 0x22, CHR 0x0A])) = length pw + 12" by (simp add: str_bytes_def)
  show ?thesis unfolding password_line_def Let_def unfolding line_written(1) unfolding l by simp
qed

lemma password_line_text:
  "length pw \<le> 242 \<Longrightarrow> password_line pw = Some (str_bytes (''password '' @ [CHR 0x22] @ pw @ [CHR 0x22, CHR 0x0A]))"
proof -
  assume a: "length pw \<le> 242"
  have "length (str_bytes (''password '' @ [CHR 0x22] @ pw @ [CHR 0x22, CHR 0x0A])) \<le> 254" using a by (simp add: str_bytes_def)
  then show ?thesis unfolding password_line_def Let_def by (rule line_written(2))
qed

text \<open>Eight arguments of the user always fit; nine with user, password and plugin do not.\<close>

lemma pppd_args_fit: "length (o_pppdargv opts) \<le> 8 \<Longrightarrow> pppd_args task opts sock tmp \<noteq> None"
  by (simp add: pppd_args_def Let_def split: option.splits)

lemma pppd_args_overflow:
  "8 < length (o_pppdargv opts) \<Longrightarrow> o_user opts = Some u \<Longrightarrow> o_password opts = Some p \<Longrightarrow> o_enable opts AND SSTP_OPT_NOPLUGIN = 0
    \<Longrightarrow> pppd_args task opts sock tmp = None"
  by (simp add: pppd_args_def Let_def)

text \<open>The file with the password is gone after the next deletion, when the file system lets it go.\<close>

lemma deltmp_removes: "y_del_file s \<Longrightarrow> y_unlink w \<Longrightarrow> y_disk (sstp_pppd_deltmp w s) (y_tmpfile s) = None"
  by (simp add: sstp_pppd_deltmp_def)

text \<open>Starting pppd: it gets the terminal, the speed, the user and a file with the password in place
  of the password itself, and the plugin unless it is switched off; the arguments of the user follow;
  the bridge then listens on the terminal and looks for the authentication. Deleting the file
  removes it.\<close>

lemma pty_start:
  assumes "SSTP_OPT_NOLAUNCH AND o_enable opts = 0" "k_mem sys" "k_pty sys = Some (i, out, tty)" "k_fork sys > 0"
    and "o_user opts = Some u" "o_password opts = Some pw" "length pw \<le> 242" "length (o_pppdargv opts) \<le> 8"
    and "k_mkstemp sys = (fd, tmp)" "0 < fd" "y_unlink w"
  shows "\<exists>s'. sstp_pppd_start_pty sys opts sock s = Some (SSTP_INPROG,
      Some ([''/usr/sbin/pppd'', tty, ''38400'', ''user'', u, ''file'', tmp]
        @ (if o_enable opts AND SSTP_OPT_NOPLUGIN = 0 then [''plugin'', ''sstp-pppd-plugin.so'', ''sstp-sock'', sock] else [])
        @ o_pppdargv opts), s')
    \<and> y_reading s' \<and> y_sock s' = i \<and> y_auth_check s'
    \<and> y_notify s' = y_notify s \<and> y_first s' = y_first s \<and> y_del_file s' \<and> y_tmpfile s' = tmp
    \<and> y_disk s' tmp = Some (str_bytes (''password '' @ [CHR 0x22] @ pw @ [CHR 0x22, CHR 0x0A]))
    \<and> y_disk (sstp_pppd_deltmp w s') tmp = None"
proof -
  define line where "line = str_bytes (''password '' @ [CHR 0x22] @ pw @ [CHR 0x22, CHR 0x0A])"
  define args where "args = [''/usr/sbin/pppd'', tty, ''38400'', ''user'', u, ''file'', tmp]
        @ (if o_enable opts AND SSTP_OPT_NOPLUGIN = 0 then [''plugin'', ''sstp-pppd-plugin.so'', ''sstp-sock'', sock] else [])
        @ o_pppdargv opts"
  let ?task = "\<lparr>tk_pid = 0, tk_out = out, tk_in = i, tk_type = SSTP_TASK_USEPTY, tk_ttydev = tty\<rparr>"
  have n: "sstp_task_new (k_mem sys) None (k_pty sys) SSTP_TASK_USEPTY = (SSTP_OKAY, Some ?task)"
    using assms(2,3) by (simp add: sstp_task_new_def sstp_setup_pty_def)
  define s1 where "s1 = s\<lparr>y_task := Some ?task, y_tmpfile := tmp, y_disk := (y_disk s)(tmp \<mapsto> line), y_auth_check := True, y_del_file := True\<rparr>"
  have "\<exists>d. wr_n (replicate 64 0) 0 (str_bytes (SSTP_TMP_PATH @ ''/sstp-pppd.XXXXXX'') @ [0]) = Some d"
    by (simp add: wr_n_def str_bytes_def SSTP_TMP_PATH_def)
  then have f: "password_file sys pw (s\<lparr>y_task := Some ?task\<rparr>) = Some (True, s1)"
    using assms(9,10) password_line_text [OF assms(7), folded line_def] by (auto simp: password_file_def s1_def)
  have a: "pppd_args ?task opts sock tmp = Some args"
    using assms(5,6,8) by (simp add: pppd_args_def Let_def sstp_task_ttydev_def args_def)
  define s2 where "s2 = s1\<lparr>y_task := Some (?task\<lparr>tk_pid := k_fork sys, tk_out := i\<rparr>), y_sock := i, y_t_start := k_now sys, y_reading := True\<rparr>"
  have t: "y_tmpfile s1 = tmp" by (simp add: s1_def)
  have "sstp_pppd_start_pty sys opts sock s = Some (SSTP_INPROG, Some args, s2)"
    unfolding sstp_pppd_start_pty_def Let_def n
    using assms(1,4,6) by (simp add: f a t sstp_task_start_def sstp_task_stdout_def s2_def)
  moreover have "y_reading s2" "y_sock s2 = i" "y_auth_check s2" "y_disk s2 tmp = Some line" "y_del_file s2" "y_tmpfile s2 = tmp"
    "y_notify s2 = y_notify s" "y_first s2 = y_first s"
    by (simp_all add: s2_def s1_def)
  moreover have "y_disk (sstp_pppd_deltmp w s2) tmp = None" using deltmp_removes [of s2 w] calculation(6,7) assms(11) by simp
  ultimately show ?thesis unfolding args_def line_def by blast
qed

definition demo_start_sys :: start_sys where
  "demo_start_sys = \<lparr>k_mem = True, k_pty = Some (5, 6, ''/dev/pts/3''), k_mkstemp = (7, ''/tmp/f''), k_fork = 99, k_now = 1\<rparr>"

definition demo_opts :: sstp_option where
  "demo_opts = option_zero\<lparr>o_user := Some ''joe'', o_password := Some ''pw'', o_enable := SSTP_OPT_NOPLUGIN, o_pppdargv := [''noauth'']\<rparr>"

lemma pty_start_witness:
  "\<exists>s'. sstp_pppd_start_pty demo_start_sys demo_opts ''s'' (pty_begin []) = Some (SSTP_INPROG,
      Some [''/usr/sbin/pppd'', ''/dev/pts/3'', ''38400'', ''user'', ''joe'', ''file'', ''/tmp/f'', ''noauth''], s')
    \<and> y_disk (sstp_pppd_deltmp pty_recorder s') ''/tmp/f'' = None"
proof -
  have "SSTP_OPT_NOLAUNCH AND SSTP_OPT_NOPLUGIN = 0" "SSTP_OPT_NOPLUGIN AND SSTP_OPT_NOPLUGIN \<noteq> 0" by (simp_all add: opt_consts)
  then show ?thesis
    using pty_start [of demo_opts demo_start_sys 5 6 "''/dev/pts/3''" "''joe''" "''pw''" 7 "''/tmp/f''" pty_recorder "''s''" "pty_begin []"]
    by (auto simp: demo_start_sys_def demo_opts_def pty_recorder_def)
qed

end
