(* ===== verification/ClientLink.thy ===== *)
theory ClientLink
  imports ClientProofs PtyProofs HttpProofs
begin

text \<open>
  The command line client from its start to the crypto binding: the keys it takes from pppd's authentication, the
  Connected message, the way from the command line to a running pppd, and the certificate that
  comes before all of it.
\<close>

section \<open>Keys and binding\<close>

lemma length_start_key: "digest_lengths ssl \<Longrightarrow> length (GetAsymmetricStartKey ssl m a b) = 16"
  by (simp add: GetAsymmetricStartKey_def digest_lengthsD)

lemma ipup_other:
  assumes "b_data (y_tx s) = [SSTP_PROTO_VER, 0, a, b] @ hdr @ [0xc2, 0x23] @ rest" "hdr = [] \<or> hdr = [0xff, 0x03]"
  shows "sstp_pppd_ipup w s = Some (Inr s)"
proof -
  have un: "un16 0xc2 0x23 = 0xc223" by (simp add: un16_def)
  have "sstp_pkt_data (y_tx s) = Some (Some 4)" by (simp add: sstp_pkt_data_def assms(1) rd_def pkt_consts)
  moreover have "\<exists>p. skip_hdlc (b_data (y_tx s)) 4 = Some p \<and> rd16 (b_data (y_tx s)) p = Some (un16 0xc2 0x23)"
    using assms(2) unfolding assms(1) by (auto simp: skip_hdlc_def rd_def rd16_def)
  ultimately show ?thesis using un by (auto simp: sstp_pppd_ipup_def)
qed

text \<open>The master key of the password and the response.\<close>

definition client_master :: "('k, 'x) client_env \<Rightarrow> string \<Rightarrow> bytes \<Rightarrow> bytes" where
  "client_master env pw v =
     GetMasterKey (q_crypto env) (MD4 (q_crypto env) (MD4 (q_crypto env) (concat (map (\<lambda>c. [c, 0]) (ascii pw))))) (take 24 (drop 24 v))"

definition client_key :: "('k, 'x) client_env \<Rightarrow> string \<Rightarrow> bytes \<Rightarrow> bool \<Rightarrow> bytes" where
  "client_key env pw v dir = GetAsymmetricStartKey (q_crypto env) (client_master env pw v) dir False"

definition keyed :: "('k, 'x) client_env \<Rightarrow> string \<Rightarrow> bytes \<Rightarrow> client \<Rightarrow> client" where
  "keyed env pw v s = s\<lparr>mppe_send_key := client_key env pw v True @ drop 16 (mppe_send_key s),
     mppe_recv_key := client_key env pw v False @ drop 16 (mppe_recv_key s), mppe_key_len := 16\<rparr>"

lemma auth_event:
  assumes "digest_lengths (q_crypto env)" "have_md4 (q_crypto env)" "have_sha1 (q_crypto env)" "length v = 49"
    and "l_exit s = None" "l_pppd s = Some p" "y_chap p = chap_value v" "o_password (l_option s) = Some pw" "length pw \<le> 255"
    and "length (mppe_send_key s) = 32" "length (mppe_recv_key s) = 32"
  shows "sstp_client_pppd_cb env SSTP_PPP_AUTH s = Some (keyed env pw v s)"
proof -
  have n: "length (nt_response (chap_value v)) = 24" using assms(4) by (simp add: chap_value_def)
  have l: "length (ascii pw) \<le> 255" using assms(9) by (simp add: ascii_def)
  have "sstp_chap_mppe_get (q_crypto env) (chap_value v) (ascii pw) False
      = (0, Some (client_key env pw v True), Some (client_key env pw v False))"
    unfolding mppe_get_keys [OF assms(1-3) n l] Let_def
    by (simp add: client_key_def client_master_def chap_value_def)
  moreover have k: "length (client_key env pw v d) = 16" for d by (simp add: client_key_def length_start_key assms(1))
  moreover have "sstp_state_mppe_keys (client_key env pw v True) (client_key env pw v False) 16 s = Some (SSTP_OKAY, keyed env pw v s)"
    using assms(10,11) k by (simp add: sstp_state_mppe_keys_def set_key_def rd_n_def wr_n_def keyed_def)
  ultimately show ?thesis using assms(5-8) by (simp add: sstp_client_pppd_cb_def sstp_pppd_getchap_pty_def)
qed

lemma into_client_sel [simp]: "l_pppd (into_client x) = Some (pty.truncate x)" "l_exit (into_client x) = l_exit (outer x)"
  "l_option (into_client x) = l_option (outer x)" "mppe_send_key (into_client x) = mppe_send_key (outer x)"
  "mppe_recv_key (into_client x) = mppe_recv_key (outer x)"
  by (simp_all add: into_client_def)

text \<open>The bridge goes through the call as it is.\<close>

lemma call_through:
  assumes "sstp_client_pppd_cb env ev (into_client x) = Some s" "l_exit s = None" "l_pppd s = Some (pty.truncate x)"
  shows "y_call (bridge_world env) ev x = Some (Inr (x\<lparr>outer := s\<rparr>))"
  using assms by (cases x) (simp add: bridge_world_def from_client_def pty.defs pty_client.defs)

lemma inspect_response:
  assumes "b_data (y_tx x) = [SSTP_PROTO_VER, 0, a, b] @ hdr @ [0xc2, 0x23, 2, i, m, n, 49] @ v @ rest" "hdr = [] \<or> hdr = [0xff, 0x03]" "length v = 49"
    and "y_notify x" "y_auth_check x" "\<not> y_auth_done x" "l_exit (outer x) = None"
    and "digest_lengths (q_crypto env)" "have_md4 (q_crypto env)" "have_sha1 (q_crypto env)"
    and "o_password (l_option (outer x)) = Some pw" "length pw \<le> 255"
    and "length (mppe_send_key (outer x)) = 32" "length (mppe_recv_key (outer x)) = 32"
  shows "ppp_inspect (bridge_world env) x = Some (Inr (x\<lparr>y_chap := chap_value v, y_auth_done := True,
      outer := keyed env pw v (into_client (x\<lparr>y_chap := chap_value v\<rparr>))\<rparr>))"
proof -
  let ?x = "x\<lparr>y_chap := chap_value v\<rparr>"
  have cb: "sstp_client_pppd_cb env SSTP_PPP_AUTH (into_client ?x) = Some (keyed env pw v (into_client ?x))"
    by (rule auth_event [where p = "pty.truncate ?x"]) (use assms in \<open>simp_all add: pty.defs\<close>)
  have "y_call (bridge_world env) SSTP_PPP_AUTH ?x = Some (Inr (?x\<lparr>outer := keyed env pw v (into_client ?x)\<rparr>))"
    by (rule call_through [OF cb]) (use assms(7) in \<open>simp_all add: keyed_def\<close>)
  from check_auth_chap [OF assms(1-4) this]
  have c: "sstp_pppd_check_auth (bridge_world env) x = Some (Inr (?x\<lparr>outer := keyed env pw v (into_client ?x), y_auth_done := True\<rparr>))"
    by simp
  have "sstp_pppd_ipup (bridge_world env) (?x\<lparr>outer := keyed env pw v (into_client ?x), y_auth_done := True\<rparr>)
      = Some (Inr (?x\<lparr>outer := keyed env pw v (into_client ?x), y_auth_done := True\<rparr>))"
    by (rule ipup_other [where a = a and b = b and hdr = hdr and rest = "[2, i, m, n, 49] @ v @ rest"]) (use assms(1,2) in simp_all)
  then show ?thesis using c assms(5,6) by (simp add: ppp_inspect_def)
qed

lemma client_send:
  "send_buf (client_world env) s = Some (l_transmit env (content (tx_buf s)) s)"
  "q_send env (length (l_sent s)) = r \<Longrightarrow> l_exit s = None \<Longrightarrow> l_transmit env m s = (r, s\<lparr>l_sent := l_sent s @ [(m, r)]\<rparr>)"
  by (simp_all add: client_world_def client_stream_world_def l_transmit_def Let_def l_do_def)

lemma up_event:
  assumes "l_exit s = None" "wf_state s" "mode s = SSTP_MODE_CLIENT" "digest_lengths (q_crypto env)" "mppe_key_len s = 16"
    and "sstp_get_cert_hash (q_tls env) (proto s) 32 = Some (SSTP_OKAY, h)" "length h = 32" "q_send env (length (l_sent s)) = SSTP_OKAY"
  defines "msg \<equiv> connected_msg (hash_type (proto s)) (nounce s) h"
  defines "mac \<equiv> spec_cmac (q_crypto env) (hash_type (proto s) = SSTP_PROTO_HASH_SHA256) (take 16 (mppe_send_key s) @ take 16 (mppe_recv_key s)) msg"
  shows "\<exists>b. sstp_client_pppd_cb env SSTP_PPP_UP s = Some (s\<lparr>tx_buf := b, st_state := st_state s OR SSTP_ST_ESTABLISHED,
      l_sent := l_sent s @ [(with_mac msg mac, SSTP_OKAY)], l_process := snd (client_sandbox env s)\<rparr>)"
proof -
  have ch: "cert_hash (client_world env) (proto s) s = (SSTP_OKAY, h)"
    using assms(6) by (simp add: client_world_def client_stream_world_def)
  have cm: "\<And>b. cmac_mem (client_world env) (s\<lparr>tx_buf := b\<rparr>)" by (simp add: client_world_def client_stream_world_def)
  obtain b m where b: "sstp_state_send_connect (q_crypto env) (client_world env) s =
      send_buf (client_world env) (s\<lparr>tx_buf := b\<rparr>) \<bind> (\<lambda>(st, c). after_connect (client_world env) st c)"
    "content b = with_mac msg m"
    "m = spec_cmac (q_crypto env) (SSTP_CMAC_SHA256 AND uint (hash_type (proto s)) \<noteq> 0) (hlak s) msg"
    using send_connect_steps [OF assms(2) ch assms(7) cm assms(4)] assms(5) unfolding msg_def by auto
  have m: "m = mac" unfolding b(3) mac_def hash_type_sha256 by (simp add: hlak_def assms(5))
  let ?c = "s\<lparr>tx_buf := b, l_sent := l_sent s @ [(with_mac msg mac, SSTP_OKAY)]\<rparr>"
  have t: "l_transmit env (content b) (s\<lparr>tx_buf := b\<rparr>) = (SSTP_OKAY, ?c)"
    using client_send(2) [of env "s\<lparr>tx_buf := b\<rparr>" SSTP_OKAY] assms(1,8) b(2) m by simp
  have e: "call_state (client_world env) SSTP_CALL_ESTABLISHED ?c
      = Some (if fst (client_sandbox env s) = 0 then SSTP_OKAY else SSTP_FAIL, ?c\<lparr>l_process := snd (client_sandbox env s)\<rparr>)"
    using assms(1) by (simp add: client_world_def client_stream_world_def sstp_client_state_cb_def client_sandbox_def split_def Let_def)
  have "sstp_state_accept (q_crypto env) (client_world env) s
      = Some (SSTP_OKAY, ?c\<lparr>l_process := snd (client_sandbox env s), st_state := st_state s OR SSTP_ST_ESTABLISHED\<rparr>)"
    using assms(3) b(1) t e by (simp add: sstp_state_accept_def client_send(1) after_connect_def)
  then show ?thesis using assms(1) by (intro exI [of _ b]) (simp add: sstp_client_pppd_cb_def)
qed


section \<open>The way to pppd\<close>

definition client_fair :: "('k, 'x) client_env \<Rightarrow> bool" where
  "client_fair env \<longleftrightarrow> q_http_mem env \<and> q_http_buf env \<and> (\<forall>g. q_http_guid env = Some g \<longrightarrow> length g < 64)
     \<and> q_state_mem env \<and> q_state_buf env \<and> q_pppd_mem env = (True, True, True) \<and> (\<forall>k. q_send env k = SSTP_OKAY)"

lemma connected_step:
  assumes "client_fair env" "l_exit s = None" "l_looping s" "\<not> l_conn_proxy s" "peer_string (l_host s) = Some name"
    and "o_uuid (l_option s) = None"
  shows "\<exists>h. client_step env (Cl_connected SSTP_CONNECTED) s = Some (s\<lparr>l_http := Some h, l_http_proxy := False,
      l_sent := l_sent s @ [(concat (hello_lines name (hello_uuid (q_http_guid env))), SSTP_OKAY)]\<rparr>)"
proof -
  have f: "q_http_mem env" "q_http_buf env" "\<And>g. q_http_guid env = Some g \<Longrightarrow> length g < 64" "\<And>k. q_send env k = SSTP_OKAY"
    using assms(1) by (auto simp: client_fair_def)
  have l: "length name \<le> 254" using assms(5) by (auto simp: peer_string_def split: if_splits)
  obtain st ho where c: "sstp_http_create True True (q_http_guid env) name Http_client = (st, ho)"
    by (cases "sstp_http_create True True (q_http_guid env) name Http_client")
  obtain h h' where h: "ho = Some h" "sstp_http_handshake SSTP_OKAY h =
      Some (SSTP_INPROG, [Send_tls (concat (hello_lines name (hello_uuid (q_http_guid env)))), Arm_http 60], h')"
    using hello_sent [OF c l f(3)] by blast
  show ?thesis
    by (rule exI [of _ h'])
      (use assms(2-6) c h f in \<open>simp add: client_step_def sstp_client_connected_def begin_http_def start_handshake_def Let_def l_do_def\<close>)
qed

lemma upgraded_step:
  assumes "client_fair env" "l_exit s = None" "l_looping s" "l_http s = Some h" "\<not> l_http_proxy s"
    and "peer_accepted env (l_option s)" "b_data buf = reply 200 reason name val rest" "reply_ok reason name val"
  shows "\<exists>st. wf_state st \<and> \<not> forward_set st \<and> mppe_key_len st = 0 \<and> mode st = SSTP_MODE_CLIENT
    \<and> client_step env (Cl_http_recv False buf SSTP_OKAY) s = Some (sstp_state.extend st (sstp_state.more
      (s\<lparr>l_http := None, l_state := True, l_reading := True, l_sent := l_sent s @ [(conn_request, SSTP_OKAY)]\<rparr>)))"
proof -
  have f: "q_state_mem env" "q_state_buf env" "\<And>k. q_send env k = SSTP_OKAY" using assms(1) by (auto simp: client_fair_def)
  obtain st0 where st0: "sstp_state_create True True True SSTP_MODE_CLIENT = (SSTP_OKAY, Whole st0)"
    "wf_state st0" "mode st0 = SSTP_MODE_CLIENT" "\<not> forward_set st0" "mppe_key_len st0 = 0"
    using create_wf [of SSTP_MODE_CLIENT]
    by (cases "sstp_state_create True True True SSTP_MODE_CLIENT")
      (simp add: sstp_state_create_def sstp_buff_create_def wbuf_def)
  define m where "m = sstp_state.more (s\<lparr>l_http := None, l_state := True, l_reading := True\<rparr>)"
  let ?u = "sstp_state.extend st0 m"
  have wf: "wf_state ?u" using st0(2) by (simp add: wf_state_def sstp_state.defs)
  obtain b where b: "wf_buff b" "b_max b = 16384" "content b = conn_request"
    "sstp_state_send_request (client_world env) ?u = do {
        (st, c) \<leftarrow> send_buf (client_world env) (?u\<lparr>tx_buf := b\<rparr>);
        c \<leftarrow> (if st = SSTP_OKAY then Some c else map_option snd (call_state (client_world env) SSTP_CALL_ABORT c));
        Some (st, c) }"
    using send_request_message [OF wf, of "client_world env"] unfolding conn_request_def by blast
  have e: "l_exit ?u = None" "mode ?u = SSTP_MODE_CLIENT" "l_sent ?u = l_sent s"
    using assms(2) st0(3) by (cases s; simp add: m_def sstp_state.defs)+
  have st: "sstp_state_start (client_world env) ?u = Some (SSTP_OKAY, ?u\<lparr>tx_buf := b, l_sent := l_sent s @ [(conn_request, SSTP_OKAY)]\<rparr>)"
    using b(3,4) e client_send(2) [of env "?u\<lparr>tx_buf := b\<rparr>" SSTP_OKAY] f(3) by (simp add: sstp_state_start_def client_send(1))
  have x: "?u\<lparr>tx_buf := b, l_sent := l_sent s @ [(conn_request, SSTP_OKAY)]\<rparr> = sstp_state.extend (st0\<lparr>tx_buf := b\<rparr>) (sstp_state.more
      (s\<lparr>l_http := None, l_state := True, l_reading := True, l_sent := l_sent s @ [(conn_request, SSTP_OKAY)]\<rparr>))"
    by (cases s) (simp add: m_def sstp_state.defs)
  have v: "sstp_verify_cert (q_tls env) (server_host (l_option s)) (verify_options (l_option s)) = SSTP_OKAY
      \<or> SSTP_OPT_CERTWARN AND o_enable (l_option s) \<noteq> 0" using assms(6) verify_accepted by blast
  have d: "sstp_client_http_done env SSTP_OKAY s = Some (sstp_state.extend (st0\<lparr>tx_buf := b\<rparr>) (sstp_state.more
      (s\<lparr>l_http := None, l_state := True, l_reading := True, l_sent := l_sent s @ [(conn_request, SSTP_OKAY)]\<rparr>)))"
    using assms(2) v st0(1) f st x by (auto simp: sstp_client_http_done_def Let_def m_def)
  have g: "sstp_http_get False buf 32 = Some (SSTP_OKAY, 200, replicate 32 (name, val))"
    using http_get_reply [OF assms(7,8), of 32] by simp
  have w: "wf_state (st0\<lparr>tx_buf := b\<rparr>)" using st0(2) b(1,2) by (simp add: wf_state_def)
  show ?thesis
    by (rule exI [of _ "st0\<lparr>tx_buf := b\<rparr>"])
      (use assms(2-5) d g st0 w in \<open>simp add: client_step_def sstp_recv_hello_complete_def http_done_cb_def\<close>)
qed

lemma call_step:
  assumes "client_fair env" "l_exit s = None" "l_looping s" "l_state s" "wf_state s" "length d = 36"
    and "SSTP_OPT_NOLAUNCH AND o_enable (l_option s) = 0" "k_mem (q_sys env)" "k_pty (q_sys env) = Some (i, out, tty)"
    and "k_fork (q_sys env) > 0" "o_user (l_option s) = Some u" "o_password (l_option s) = Some pw" "length pw \<le> 242"
    and "length (o_pppdargv (l_option s)) \<le> 8" "k_mkstemp (q_sys env) = (fd, tmp)" "0 < fd"
    and "SSTP_OPT_NOPLUGIN AND o_enable (l_option s) \<noteq> 0"
  shows "\<exists>p b. client_step env (Cl_state_recv (rx_with (connect_ack d)) SSTP_OKAY) s
      = Some (s\<lparr>rx_buf := b, forward_set := True, proto := uint (d ! 3), nounce := drop 4 d, l_pppd := Some p, l_reading := False,
          l_started := l_started s @ [[''/usr/sbin/pppd'', tty, ''38400'', ''user'', u, ''file'', tmp] @ o_pppdargv (l_option s)]\<rparr>)
    \<and> y_reading p \<and> y_auth_check p \<and> y_notify p \<and> y_first p \<and> wf_buff b \<and> b_max b = 16384"
proof -
  have l: "length (connect_ack d) \<le> 16384" using assms(6) by (simp add: connect_ack_def length_enc_ctrl enc_attrs_def length_enc_attr)
  note h = holds_rx_with [OF l]
  define s1 where "s1 = s\<lparr>rx_buf := rx_with (connect_ack d), l_reading := False\<rparr>"
  have wf: "wf_state s1" using assms(5) h by (simp add: s1_def wf_state_def holds_def rx_with_def wbuf_def)
  have co: "content (rx_buf s1) = enc_ctrl SSTP_MSG_CONNECT_ACK [(SSTP_ATTR_CRYPTO_BIND_REQ, d)]"
    using h by (simp add: s1_def holds_def connect_ack_def)
  define b where "b = (rx_buf s1)\<lparr>b_off := int (length d) + 4\<rparr>"
  define s2 where "s2 = s1\<lparr>rx_buf := b, proto := uint (d ! 3), nounce := drop 4 d\<rparr>"
  have r: "sstp_state_recv (client_world env) SSTP_OKAY s1 = do {
        (ret, c) \<leftarrow> sstp_client_state_cb env SSTP_CALL_CONNECT s2;
        reset_and_read (client_world env) ret c }"
    using connect_ack_received [OF wf co, of "client_world env"] assms(6)
    by (simp add: s2_def b_def client_world_def client_stream_world_def)
  define p0 where "p0 = the (snd (sstp_pppd_create_pty True True True True))"
  have p0: "sstp_pppd_create_pty True True True True = (SSTP_OKAY, Some p0)" "y_notify p0" "y_first p0"
    by (simp_all add: p0_def sstp_pppd_create_pty_def sstp_buff_create_def)
  obtain p where p: "sstp_pppd_start_pty (q_sys env) (l_option s) (q_sockname env) p0 = Some (SSTP_INPROG,
      Some ([''/usr/sbin/pppd'', tty, ''38400'', ''user'', u, ''file'', tmp] @ o_pppdargv (l_option s)), p)"
    "y_reading p" "y_auth_check p" "y_notify p" "y_first p"
    using pty_start [OF assms(7-16), of "\<lparr>y_call = \<lambda>_ _. None, y_send = \<lambda>_. None, y_unlink = True\<rparr> :: unit pty_scheme pty_world" "q_sockname env" p0]
      assms(17) p0(2,3) by (auto simp: and.commute)
  have o: "l_option s2 = l_option s" "l_exit s2 = None" "q_pppd_mem env = (True, True, True)"
    using assms(1,2) by (simp_all add: s2_def s1_def client_fair_def)
  have cb: "sstp_client_state_cb env SSTP_CALL_CONNECT s2 = Some (SSTP_INPROG, s2\<lparr>forward_set := True, l_pppd := Some p,
      l_started := l_started s @ [[''/usr/sbin/pppd'', tty, ''38400'', ''user'', u, ''file'', tmp] @ o_pppdargv (l_option s)]\<rparr>)"
    using o p0(1) p(1) by (simp add: sstp_client_state_cb_def sstp_state_set_forward_def s2_def s1_def)
  have "client_step env (Cl_state_recv (rx_with (connect_ack d)) SSTP_OKAY) s = sstp_state_recv (client_world env) SSTP_OKAY s1"
    using assms(2-4) by (simp add: client_step_def s1_def)
  moreover have "wf_buff (sstp_buff_reset b)" "b_max (sstp_buff_reset b) = 16384"
    using wf by (auto simp: b_def wf_state_def wf_buff_def sstp_buff_reset_def)
  ultimately show ?thesis using p(2-5) unfolding r cb
    by (intro exI [of _ p] exI [of _ "sstp_buff_reset b"]) (simp add: reset_and_read_def s2_def s1_def)
qed

lemma main_start:
  assumes "client_main env e argv = Some (Inr s)"
  shows "l_exit s = None" "l_looping s" "l_sent s = []" "l_started s = []" "l_conn_proxy s = (o_proxy (l_option s) \<noteq> None)"
    "SSTP_OPT_NOPLUGIN AND o_enable (l_option s) \<noteq> 0" "o_user (l_option s) \<noteq> None" "o_password (l_option s) \<noteq> None"
  using assms
  by (auto simp: client_main_def sstp_client_connect_def client_zero_def Let_def and.commute
      split: Option.bind_splits if_splits option.splits prod.splits sum.splits)

text \<open>The three events.\<close>

lemma opening_run:
  assumes "client_main env e argv = Some (Inr s0)" "client_fair env" "peer_accepted env (l_option s0)"
    and "o_proxy (l_option s0) = None" "o_uuid (l_option s0) = None" "peer_string (l_host s0) = Some name"
    and "b_data buf = reply 200 reason nm val rest" "reply_ok reason nm val" "length d = 36"
    and "SSTP_OPT_NOLAUNCH AND o_enable (l_option s0) = 0" "k_mem (q_sys env)" "k_pty (q_sys env) = Some (i, out, tty)"
    and "k_fork (q_sys env) > 0" "o_user (l_option s0) = Some u" "length (the (o_password (l_option s0))) \<le> 242"
    and "length (o_pppdargv (l_option s0)) \<le> 8" "k_mkstemp (q_sys env) = (fd, tmp)" "0 < fd"
  shows "\<exists>s p. run_steps (client_step env) [Cl_connected SSTP_CONNECTED, Cl_http_recv False buf SSTP_OKAY,
        Cl_state_recv (rx_with (connect_ack d)) SSTP_OKAY] s0 = Some s \<and> l_exit s = None \<and> wf_state s \<and> mode s = SSTP_MODE_CLIENT
    \<and> l_sent s = [(concat (hello_lines name (hello_uuid (q_http_guid env))), SSTP_OKAY), (conn_request, SSTP_OKAY)]
    \<and> l_started s = [[''/usr/sbin/pppd'', tty, ''38400'', ''user'', u, ''file'', tmp] @ o_pppdargv (l_option s0)]
    \<and> proto s = uint (d ! 3) \<and> nounce s = drop 4 d \<and> forward_set s \<and> \<not> l_reading s
    \<and> l_pppd s = Some p \<and> y_reading p \<and> y_auth_check p \<and> y_notify p \<and> y_first p \<and> l_option s = l_option s0"
proof -
  note m = main_start [OF assms(1)]
  obtain pw where pw: "o_password (l_option s0) = Some pw" "length pw \<le> 242" using m(8) assms(15) by auto
  have np: "\<not> l_conn_proxy s0" using m(5) assms(4) by simp
  obtain h where h: "client_step env (Cl_connected SSTP_CONNECTED) s0 = Some (s0\<lparr>l_http := Some h, l_http_proxy := False,
      l_sent := [(concat (hello_lines name (hello_uuid (q_http_guid env))), SSTP_OKAY)]\<rparr>)"
    using connected_step [OF assms(2) m(1,2) np assms(6,5)] m(3) by auto
  define s1 where "s1 = s0\<lparr>l_http := Some h, l_http_proxy := False,
      l_sent := [(concat (hello_lines name (hello_uuid (q_http_guid env))), SSTP_OKAY)]\<rparr>"
  have s1: "l_exit s1 = None" "l_looping s1" "l_http s1 = Some h" "\<not> l_http_proxy s1" "l_option s1 = l_option s0" "l_started s1 = []"
    using m by (simp_all add: s1_def)
  obtain st where st: "wf_state st" "mode st = SSTP_MODE_CLIENT"
    "client_step env (Cl_http_recv False buf SSTP_OKAY) s1 = Some (sstp_state.extend st (sstp_state.more
      (s1\<lparr>l_http := None, l_state := True, l_reading := True, l_sent := l_sent s1 @ [(conn_request, SSTP_OKAY)]\<rparr>)))"
    using upgraded_step [OF assms(2) s1(1-4) _ assms(7,8)] assms(3) s1(5) by auto
  define s2 where "s2 = sstp_state.extend st (sstp_state.more
      (s1\<lparr>l_http := None, l_state := True, l_reading := True, l_sent := l_sent s1 @ [(conn_request, SSTP_OKAY)]\<rparr>))"
  have s2: "l_exit s2 = None" "l_looping s2" "l_state s2" "l_option s2 = l_option s0" "l_started s2 = []"
    "l_sent s2 = l_sent s1 @ [(conn_request, SSTP_OKAY)]" "wf_state s2" "mode s2 = SSTP_MODE_CLIENT"
    using s1 st(1,2) by (cases s1; simp add: s2_def sstp_state.defs wf_state_def)+
  obtain p b where p: "client_step env (Cl_state_recv (rx_with (connect_ack d)) SSTP_OKAY) s2
      = Some (s2\<lparr>rx_buf := b, forward_set := True, proto := uint (d ! 3), nounce := drop 4 d, l_pppd := Some p, l_reading := False,
          l_started := [[''/usr/sbin/pppd'', tty, ''38400'', ''user'', u, ''file'', tmp] @ o_pppdargv (l_option s0)]\<rparr>)"
    "y_reading p" "y_auth_check p" "y_notify p" "y_first p" "wf_buff b" "b_max b = 16384"
    using call_step [OF assms(2) s2(1-3,7) assms(9), of i out tty u pw fd tmp] assms(10-18) pw m(6) s2(4,5) by auto
  show ?thesis using h st(3) p s2 s1 assms(9)
    by (intro exI [of _ "s2\<lparr>rx_buf := b, forward_set := True, proto := uint (d ! 3), nounce := drop 4 d, l_pppd := Some p, l_reading := False,
          l_started := [[''/usr/sbin/pppd'', tty, ''38400'', ''user'', u, ''file'', tmp] @ o_pppdargv (l_option s0)]\<rparr>"] exI [of _ p])
      (simp add: wf_state_def flip: s1_def s2_def, simp add: s1_def)
qed


section \<open>A concrete client\<close>

definition demo_peer_cert :: "u8 tls_peer" where
  "demo_peer_cert = \<lparr>peer_cert = Some 9, chain_result = 20, check_host = (\<lambda>x h. h = ''vpn''), check_ip = (\<lambda>x h. False),
     x509_digest = (\<lambda>b x. Some (replicate (if b then 32 else 20) x)), ip_text = (\<lambda>h. False)\<rparr>"

definition demo_client :: "(u8, u8) client_env" where
  "demo_client = \<lparr>q_crypto = demo_ssl, q_tls = demo_peer_cert, q_send = (\<lambda>_. SSTP_OKAY), q_write = (\<lambda>f. int (length f)),
     q_pppd_mem = (True, True, True), q_sys = demo_start_sys, q_sockname = ''s'', q_unlink = True, q_kill = Killed,
     q_kernel = demo_kernel, q_process = root_process, q_state_mem = True, q_state_buf = True, q_http_mem = True, q_http_buf = True,
     q_http_guid = Some [49], q_base64 = (\<lambda>x. x), q_stray = None, q_stream = SSTP_OKAY, q_connect = SSTP_INPROG\<rparr>"

definition demo_main :: main_env where
  "demo_main = \<lparr>m_opt = \<lparr>g_answers = [\<lparr>a_c = char_of (0 :: nat), a_index = 12, a_arg = Some (2, 0)\<rparr>,
       \<lparr>a_c = char_of (0 :: nat), a_index = 7, a_arg = Some (3, 11)\<rparr>], g_rest = [4, 5], g_proxy = None, g_uid = 0, g_strdup = Some\<rparr>,
     m_inet = \<lparr>ip4 = (\<lambda>_. False), ip6 = (\<lambda>_. False)\<rparr>, m_url_mem = True, m_ev_base = True,
     m_ssl = \<lparr>st_ctx = True, st_options = True, st_no_compression = True, st_mode = True, st_ciphers = True, st_locations = True,
       st_store = True, st_lookup = True, st_lookup_dir = True, st_crl_open = True, st_crl_read = True, st_crl_add = True\<rparr>,
     m_resolve = (\<lambda>h p. Some (None, replicate 16 0)), m_route = True\<rparr>"

definition demo_line :: "string list" where
  "demo_line = [''sstpc'', ''--user'', ''joe'', ''--password=pw'', ''vpn'', ''noauth'']"

lemma demo_main_starts:
  "\<exists>s0. client_main demo_client demo_main demo_line = Some (Inr s0) \<and> o_user (l_option s0) = Some ''joe''
    \<and> o_password (l_option s0) = Some ''pw'' \<and> o_proxy (l_option s0) = None \<and> o_uuid (l_option s0) = None
    \<and> o_pppdargv (l_option s0) = [''noauth''] \<and> peer_string (l_host s0) = Some (ascii ''vpn'')
    \<and> SSTP_OPT_NOLAUNCH AND o_enable (l_option s0) = 0 \<and> peer_accepted demo_client (l_option s0)"
proof -
  have "\<exists>opt argv. sstp_parse_argv (m_opt demo_main) demo_line = Some (Inr (opt, argv)) \<and> o_user opt = Some ''joe'' \<and> o_password opt = Some ''pw''
      \<and> o_proxy opt = None \<and> o_uuid opt = None \<and> o_host opt = None \<and> o_ca_cert opt = None \<and> o_ca_path opt = None
      \<and> o_crl_file opt = None \<and> o_crl_path opt = None
      \<and> o_server opt = Some ''vpn'' \<and> o_pppdargv opt = [''noauth''] \<and> o_enable opt = SSTP_OPT_NOPLUGIN"
    by (simp add: sstp_parse_argv_def sstp_parse_option_def sstp_scramble_def arg_text_def option_zero_def demo_main_def demo_line_def)
  then obtain opt argv where o: "sstp_parse_argv (m_opt demo_main) demo_line = Some (Inr (opt, argv))" "o_user opt = Some ''joe''" "o_password opt = Some ''pw''"
      "o_proxy opt = None" "o_uuid opt = None" "o_host opt = None" "o_ca_cert opt = None" "o_ca_path opt = None"
      "o_crl_file opt = None" "o_crl_path opt = None"
      "o_server opt = Some ''vpn''" "o_pppdargv opt = [''noauth'']" "o_enable opt = SSTP_OPT_NOPLUGIN" by blast
  have n: "SSTP_OPT_NOPLUGIN AND SSTP_OPT_NOPLUGIN \<noteq> 0" "SSTP_OPT_NOPLUGIN AND SSTP_OPT_SAVEROUTE = 0" "SSTP_OPT_NOLAUNCH AND SSTP_OPT_NOPLUGIN = 0"
    by (simp_all add: opt_consts)
  have a: "ascii ''vpn'' = [0x76, 0x70, 0x6e]" by (simp add: ascii_def)
  have u: "\<exists>url. sstp_url_parse (m_inet demo_main) (m_url_mem demo_main) (ascii ''vpn'') = (SSTP_OKAY, Some url) \<and> u_host url = ascii ''vpn''"
    unfolding a by (simp add: sstp_url_parse_def demo_main_def split_first_def split_last_def host_port_def is_hostname_def)
  then obtain url where u: "sstp_url_parse (m_inet demo_main) (m_url_mem demo_main) (ascii ''vpn'') = (SSTP_OKAY, Some url)" "u_host url = ascii ''vpn''"
    by blast
  have i: "fst (sstp_init_ssl (m_ssl demo_main) opt) = SSTP_OKAY" using o by (simp add: sstp_init_ssl_def demo_main_def Let_def)
  have l: "sstp_client_lookup (m_resolve demo_main) url (l_host client_zero)
      = Some (SSTP_OKAY, \<lparr>peer_name = ascii ''vpn'', peer_addr = replicate 16 0\<rparr>)"
    using u(2) by (simp add: sstp_client_lookup_def demo_main_def client_zero_def ascii_def)
  let ?s = "client_zero\<lparr>l_option := opt, l_url := Some url, l_host := \<lparr>peer_name = ascii ''vpn'', peer_addr = replicate 16 0\<rparr>, l_process := root_process, l_looping := True\<rparr>"
  have "client_main demo_client demo_main demo_line = Some (Inr ?s)"
    using o u(1) i l n by (simp add: client_main_def sstp_client_connect_def demo_client_def peer_string_def client_zero_def)
      (simp add: demo_main_def ascii_def)
  moreover have "peer_accepted demo_client opt" using o
    by (simp add: peer_accepted_def demo_client_def demo_peer_cert_def server_host_def)
  ultimately show ?thesis using o n by (intro exI [of _ ?s]) (simp add: peer_string_def ascii_def)
qed

lemma demo_client_fair: "client_fair demo_client"
  by (simp add: client_fair_def demo_client_def)

definition demo_answer :: sstp_buff where
  "demo_answer = (wbuf 0)\<lparr>b_data := reply 200 [32, 79] [83] [77] [0]\<rparr>"

lemma demo_answer_ok: "b_data demo_answer = reply 200 [32, 79] [83] [77] [0]" "reply_ok [32, 79] [83] [77]"
  by (simp_all add: demo_answer_def reply_ok_def is_digit_def is_space_def name_size_def value_size_def)

lemma demo_nonce: "length ([0, 0, 0, 2] @ replicate 32 5 :: bytes) = 36"
  by simp

lemma demo_sys:
  "k_mem (q_sys demo_client)" "k_pty (q_sys demo_client) = Some (5, 6, ''/dev/pts/3'')" "k_fork (q_sys demo_client) > 0"
  "k_mkstemp (q_sys demo_client) = (7, ''/tmp/f'')"
  by (simp_all add: demo_client_def demo_start_sys_def)

definition demo_events :: "client_event list" where
  "demo_events = [Cl_connected SSTP_CONNECTED, Cl_http_recv False demo_answer SSTP_OKAY,
     Cl_state_recv (rx_with (connect_ack ([0, 0, 0, 2] @ replicate 32 5))) SSTP_OKAY]"

definition demo_outer :: client where
  "demo_outer = client_zero\<lparr>tx_buf := wbuf 16384, rx_buf := wbuf 16384, proto := 2, l_option := demo_opts\<rparr>"

definition chap_packet :: "bytes \<Rightarrow> sstp_buff" where
  "chap_packet v = (wbuf 0)\<lparr>b_data := [SSTP_PROTO_VER, 0, 0, 62] @ [0xff, 0x03] @ [0xc2, 0x23, 2, 1, 0, 58, 49] @ v @ [106]\<rparr>"

definition ipcp_packet :: sstp_buff where
  "ipcp_packet = (wbuf 0)\<lparr>b_data := [SSTP_PROTO_VER, 0, 0, 10] @ [] @ [0x80, 0x21] @ [1, 1, 0, 4]\<rparr>"

definition demo_bridge :: pty_client where
  "demo_bridge = (pty.extend (pty.truncate (pty_begin [])) (pty_client.fields demo_outer))\<lparr>y_tx := chap_packet (replicate 49 3), y_auth_check := True\<rparr>"


section \<open>Properties\<close>

text \<open>C4. The certificate comes first: in every run of the client from its start, whatever events follow, there is
  a state machine, a bridge or a started pppd only if the peer's certificate was accepted: by a verified
  chain when authorities are configured, by its name when not, or because the user asked for a warning
  only; the options are those of the start.\<close>

theorem client_trust:
  assumes "client_main env e argv = Some (Inr s0)" "run_steps (client_step env) evs s0 = Some s"
    and "l_state s \<or> l_pppd s \<noteq> None \<or> l_started s \<noteq> []"
  shows "l_option s = l_option s0 \<and> peer_accepted env (l_option s)"
  using client_run_inv [OF assms(2) main_inv [OF assms(1)]] assms(3) by (auto simp: client_inv_def split: if_splits)

lemma client_trust_witness:
  "\<exists>s0 s. client_main demo_client demo_main demo_line = Some (Inr s0) \<and> run_steps (client_step demo_client) demo_events s0 = Some s
    \<and> l_started s \<noteq> [] \<and> peer_accepted demo_client (l_option s)"
proof -
  obtain s0 where s: "client_main demo_client demo_main demo_line = Some (Inr s0)" "o_user (l_option s0) = Some ''joe''"
    "o_password (l_option s0) = Some ''pw''" "o_proxy (l_option s0) = None" "o_uuid (l_option s0) = None"
    "o_pppdargv (l_option s0) = [''noauth'']" "peer_string (l_host s0) = Some (ascii ''vpn'')"
    "SSTP_OPT_NOLAUNCH AND o_enable (l_option s0) = 0" "peer_accepted demo_client (l_option s0)"
    using demo_main_starts by blast
  obtain t p where t: "run_steps (client_step demo_client) demo_events s0 = Some t" "l_started t \<noteq> []"
    unfolding demo_events_def
    using opening_run [OF s(1) demo_client_fair s(9,4,5,7) demo_answer_ok demo_nonce s(8) demo_sys(1-3) s(2) _ _ demo_sys(4)] s(3,6) by auto
  show ?thesis using s(1) t client_trust [OF s(1) t(1)] by blast
qed


text \<open>C7. The client gets to the call: started without a proxy against a server whose certificate it
  accepts, that accepts the upgrade and acknowledges the call with a nonce, it has sent the upgrade request
  and the Connect-Request and started one pppd, with the terminal, the user, a file for the password and
  the arguments of the user; it forwards to it, looks for its authentication, and reads from the
  stream again only when pppd has written.\<close>

theorem client_opens:
  assumes "client_main env e argv = Some (Inr s0)" "client_fair env" "peer_accepted env (l_option s0)"
    and "o_proxy (l_option s0) = None" "o_uuid (l_option s0) = None" "peer_string (l_host s0) = Some name"
    and "b_data buf = reply 200 reason nm val rest" "reply_ok reason nm val" "length d = 36"
    and "SSTP_OPT_NOLAUNCH AND o_enable (l_option s0) = 0" "k_mem (q_sys env)" "k_pty (q_sys env) = Some (i, out, tty)"
    and "k_fork (q_sys env) > 0" "o_user (l_option s0) = Some u" "length (the (o_password (l_option s0))) \<le> 242"
    and "length (o_pppdargv (l_option s0)) \<le> 8" "k_mkstemp (q_sys env) = (fd, tmp)" "0 < fd"
  shows "\<exists>s p. run_steps (client_step env) [Cl_connected SSTP_CONNECTED, Cl_http_recv False buf SSTP_OKAY,
        Cl_state_recv (rx_with (connect_ack d)) SSTP_OKAY] s0 = Some s \<and> l_exit s = None \<and> wf_state s \<and> mode s = SSTP_MODE_CLIENT
    \<and> l_sent s = [(concat (hello_lines name (hello_uuid (q_http_guid env))), SSTP_OKAY), (conn_request, SSTP_OKAY)]
    \<and> l_started s = [[''/usr/sbin/pppd'', tty, ''38400'', ''user'', u, ''file'', tmp] @ o_pppdargv (l_option s0)]
    \<and> proto s = uint (d ! 3) \<and> nounce s = drop 4 d \<and> forward_set s \<and> \<not> l_reading s
    \<and> l_pppd s = Some p \<and> y_reading p \<and> y_auth_check p \<and> y_notify p \<and> y_first p"
  using opening_run [OF assms] by blast

lemma client_opens_witness:
  "\<exists>s0 s. client_main demo_client demo_main demo_line = Some (Inr s0) \<and> run_steps (client_step demo_client) demo_events s0 = Some s
    \<and> l_started s = [[''/usr/sbin/pppd'', ''/dev/pts/3'', ''38400'', ''user'', ''joe'', ''file'', ''/tmp/f'', ''noauth'']]
    \<and> proto s = 2 \<and> nounce s = replicate 32 5"
proof -
  obtain s0 where s: "client_main demo_client demo_main demo_line = Some (Inr s0)" "o_user (l_option s0) = Some ''joe''"
    "o_password (l_option s0) = Some ''pw''" "o_proxy (l_option s0) = None" "o_uuid (l_option s0) = None"
    "o_pppdargv (l_option s0) = [''noauth'']" "peer_string (l_host s0) = Some (ascii ''vpn'')"
    "SSTP_OPT_NOLAUNCH AND o_enable (l_option s0) = 0" "peer_accepted demo_client (l_option s0)"
    using demo_main_starts by blast
  have l: "length (the (o_password (l_option s0))) \<le> 242" "length (o_pppdargv (l_option s0)) \<le> 8" "(0 :: int) < 7"
    using s(3,6) by simp_all
  show ?thesis unfolding demo_events_def
    using client_opens [OF s(1) demo_client_fair s(9,4,5,7) demo_answer_ok demo_nonce s(8) demo_sys(1-3) s(2) l(1,2) demo_sys(4) l(3)] s(1,6) by auto
qed


text \<open>C8. From the authentication of pppd to the crypto binding: when pppd's MS-CHAPv2 response has gone
  by, the state machine has the client's keys of RFC 3079 for the password and this response, and the
  first packet of IPCP makes the client send the Connected message with the compound MAC under them; a
  client of root is then in the sandbox of its options.\<close>

theorem client_binds:
  assumes "b_data (y_tx x) = [SSTP_PROTO_VER, 0, a, b] @ hdr @ [0xc2, 0x23, 2, i, m, n, 49] @ v @ rest" "hdr = [] \<or> hdr = [0xff, 0x03]" "length v = 49"
    and "y_notify x" "y_auth_check x" "\<not> y_auth_done x" "\<not> y_ip_up x" "l_exit (outer x) = None"
    and "digest_lengths (q_crypto env)" "have_md4 (q_crypto env)" "have_sha1 (q_crypto env)"
    and "o_password (l_option (outer x)) = Some pw" "length pw \<le> 255" "wf_state (outer x)" "mode (outer x) = SSTP_MODE_CLIENT"
    and "sstp_get_cert_hash (q_tls env) (proto (outer x)) 32 = Some (SSTP_OKAY, h)" "length h = 32"
    and "\<And>k. q_send env k = SSTP_OKAY"
    and "b_data t = [SSTP_PROTO_VER, 0, a', b'] @ hdr' @ [0x80, 0x21] @ rest'" "hdr' = [] \<or> hdr' = [0xff, 0x03]"
  defines "msg \<equiv> connected_msg (hash_type (proto (outer x))) (nounce (outer x)) h"
  defines "mac \<equiv> spec_cmac (q_crypto env) (hash_type (proto (outer x)) = SSTP_PROTO_HASH_SHA256)
      (client_key env pw v True @ client_key env pw v False) msg"
  shows "\<exists>y z. ppp_inspect (bridge_world env) x = Some (Inr y) \<and> take 16 (mppe_send_key (outer y)) = client_key env pw v True
    \<and> take 16 (mppe_recv_key (outer y)) = client_key env pw v False \<and> l_sent (outer y) = l_sent (outer x)
    \<and> ppp_inspect (bridge_world env) (y\<lparr>y_tx := t\<rparr>) = Some (Inr z) \<and> y_ip_up z \<and> l_exit (outer z) = None
    \<and> l_sent (outer z) = l_sent (outer x) @ [(with_mac msg mac, SSTP_OKAY)]
    \<and> l_process (outer z) = snd (client_sandbox env (outer x))"
proof -
  have wf: "length (mppe_send_key (outer x)) = 32" "length (mppe_recv_key (outer x)) = 32"
    using assms(14) by (simp_all add: wf_state_def)
  let ?s = "keyed env pw v (into_client (x\<lparr>y_chap := chap_value v\<rparr>))"
  define y where "y = x\<lparr>y_chap := chap_value v, y_auth_done := True, outer := ?s\<rparr>"
  have y: "ppp_inspect (bridge_world env) x = Some (Inr y)"
    unfolding y_def by (rule inspect_response [OF assms(1-6,8-13) wf])
  have k: "length (client_key env pw v d) = 16" for d by (simp add: client_key_def length_start_key assms(9))
  let ?y = "y\<lparr>y_tx := t\<rparr>" and ?u = "into_client (y\<lparr>y_tx := t\<rparr>)"
  have u: "l_exit ?u = None" "wf_state ?u" "mode ?u = SSTP_MODE_CLIENT" "mppe_key_len ?u = 16" "proto ?u = proto (outer x)"
    "nounce ?u = nounce (outer x)" "l_sent ?u = l_sent (outer x)" "take 16 (mppe_send_key ?u) = client_key env pw v True"
    "take 16 (mppe_recv_key ?u) = client_key env pw v False"
    using assms(8,14,15) k wf by (simp_all add: y_def keyed_def into_client_def wf_state_def)
  have cs: "client_sandbox env ?u = client_sandbox env (outer x)"
    by (simp add: client_sandbox_def y_def keyed_def into_client_def)
  obtain b2 where b2: "sstp_client_pppd_cb env SSTP_PPP_UP ?u = Some (?u\<lparr>tx_buf := b2, st_state := st_state ?u OR SSTP_ST_ESTABLISHED,
      l_sent := l_sent (outer x) @ [(with_mac msg mac, SSTP_OKAY)], l_process := snd (client_sandbox env (outer x))\<rparr>)"
    using up_event [OF u(1-3) assms(9) u(4), of h] assms(16-18) u(5-9) unfolding msg_def mac_def cs by auto
  let ?v = "?u\<lparr>tx_buf := b2, st_state := st_state ?u OR SSTP_ST_ESTABLISHED, l_sent := l_sent (outer x) @ [(with_mac msg mac, SSTP_OKAY)],
      l_process := snd (client_sandbox env (outer x))\<rparr>"
  have "y_call (bridge_world env) SSTP_PPP_UP ?y = Some (Inr (?y\<lparr>outer := ?v\<rparr>))"
    by (rule call_through [OF b2]) (use u(1) in simp_all)
  from ipup_ipcp [OF _ assms(20) _ this, of a' b' rest'] 
  have "sstp_pppd_ipup (bridge_world env) ?y = Some (Inr (?y\<lparr>outer := ?v, y_ip_up := True\<rparr>))"
    using assms(4,19) by (simp add: y_def)
  then have z: "ppp_inspect (bridge_world env) ?y = Some (Inr (?y\<lparr>outer := ?v, y_ip_up := True\<rparr>))"
    using assms(5,7) by (simp add: ppp_inspect_def y_def)
  have "take 16 (mppe_send_key (outer y)) = client_key env pw v True" "take 16 (mppe_recv_key (outer y)) = client_key env pw v False"
    "l_sent (outer y) = l_sent (outer x)" using k wf by (simp_all add: y_def keyed_def into_client_def)
  then show ?thesis using y z u(1) by (intro exI [of _ y] exI [of _ "?y\<lparr>outer := ?v, y_ip_up := True\<rparr>"]) simp
qed

lemma client_binds_witness:
  "\<exists>y z m. ppp_inspect (bridge_world demo_client) demo_bridge = Some (Inr y)
    \<and> take 16 (mppe_send_key (outer y)) = client_key demo_client ''pw'' (replicate 49 3) True
    \<and> ppp_inspect (bridge_world demo_client) (y\<lparr>y_tx := ipcp_packet\<rparr>) = Some (Inr z)
    \<and> l_sent (outer z) = [(with_mac (connected_msg 2 (replicate 32 0) (replicate 32 9)) m, SSTP_OKAY)]"
proof -
  have b: "b_data (y_tx demo_bridge) = [SSTP_PROTO_VER, 0, 0, 62] @ [0xff, 0x03] @ [0xc2, 0x23, 2, 1, 0, 58, 49] @ replicate 49 3 @ [106]"
    "y_notify demo_bridge" "y_auth_check demo_bridge" "\<not> y_auth_done demo_bridge" "\<not> y_ip_up demo_bridge" "outer demo_bridge = demo_outer"
    by (simp_all add: demo_bridge_def chap_packet_def pty_begin_def sstp_pppd_create_pty_def sstp_buff_create_def pty.defs pty_rec.defs pty_client.defs)
  have o: "l_exit demo_outer = None" "o_password (l_option demo_outer) = Some ''pw''" "wf_state demo_outer" "mode demo_outer = SSTP_MODE_CLIENT"
    "l_sent demo_outer = []" "nounce demo_outer = replicate 32 0" "proto demo_outer = 2"
    by (simp_all add: demo_outer_def client_zero_def demo_opts_def wf_state_def wbuf_def wf_buff_def)
  have c: "digest_lengths (q_crypto demo_client)" "have_md4 (q_crypto demo_client)" "have_sha1 (q_crypto demo_client)" "\<And>k. q_send demo_client k = SSTP_OKAY"
    using demo_digest_lengths by (simp_all add: demo_client_def) (simp_all add: demo_ssl_def)
  have h: "sstp_get_cert_hash (q_tls demo_client) 2 32 = Some (SSTP_OKAY, replicate 32 9)" "hash_type 2 = 2"
    by (simp_all add: demo_client_def demo_peer_cert_def sstp_get_cert_hash_def hash_type_def pkt_consts wr_n_def)
  have t: "b_data ipcp_packet = [SSTP_PROTO_VER, 0, 0, 10] @ [] @ [0x80, 0x21] @ [1, 1, 0, 4]" by (simp add: ipcp_packet_def)
  have p: "length ''pw'' \<le> 255" "length (replicate 32 (9 :: u8)) = 32" "length (replicate 49 (3 :: u8)) = 49" by simp_all
  show ?thesis
    using client_binds [OF b(1) _ p(3) b(2-5) _ c(1-3) _ p(1) _ _ _ p(2) c(4) t, unfolded b(6) o(5-7), OF _ o(1-4) h(1)] h(2) by auto
qed

end
