(* ===== verification/Dump.thy ===== *)
theory Dump
  imports Util Packet
begin

text \<open>
  The trace of packets, \<^verbatim>\<open>sstp/sstp-dump.c\<close>: \<open>sstp_pkt_dump\<close> turns an SSTP message into lines of the log,
  with the PPP negotiation inside a data packet as text, and with all bytes in hexadecimal.

  A message is memory \<open>d\<close> and pointers into it are offsets; the text grows in an array \<open>m\<close>, from \<open>base\<close>
  on, of which \<open>len\<close> bytes are left to the callee. As elsewhere \<open>None\<close> is an access outside an array, here also a
  null pointer printed as a string, a format without its argument, and a negative size given to \<^verbatim>\<open>vsnprintf\<close>.
  The lemmas show that a negotiation is printed option by option as \<open>conf_text\<close> says, and that the bytes
  of the dump are those of the message.
\<close>

section \<open>Text\<close>

definition inet_ntoa :: "bytes \<Rightarrow> bytes" where
  "inet_ntoa a = show_int (uint (a ! 0)) @ [46] @ show_int (uint (a ! 1)) @ [46] @ show_int (uint (a ! 2)) @ [46] @ show_int (uint (a ! 3))"

text \<open>A string in the memory of the message.\<close>

definition rd_str :: "bytes \<Rightarrow> int \<Rightarrow> bytes option" where
  "rd_str d i = (if 0 \<le> i \<and> i \<le> int (length d) then cstring (drop (nat i) d) else None)"

definition sstp_str_add :: "bytes \<Rightarrow> int \<Rightarrow> int \<Rightarrow> int \<Rightarrow> bytes \<Rightarrow> (int \<times> int \<times> bytes) option" where
  "sstp_str_add m base len off str =
     (if len - off < 0 then None
      else do {
        m \<leftarrow> vsnprintf m (base + off) (len - off) str;
        let ret = int (length str);
        Some (if ret \<ge> len - off then (-1, off, m) else (ret, off + ret, m)) })"

section \<open>Names\<close>

text \<open>
  The tables of numbers and names; a missing number is the null pointer. In a table whose entries are
  placed by their number the gaps have number 0 and no name.
\<close>

definition sstp_ppp_getcode :: "u8 \<Rightarrow> string option" where
  "sstp_ppp_getcode code = map_of
     [(1, ''CONFREQ''), (2, ''CONFACK''), (3, ''CONFNAK''), (4, ''CONFREJ''), (5, ''TERMREQ''), (6, ''TERMACK''),
      (7, ''CODEREJ''), (8, ''PROTOREJ''), (9, ''ECHOREQ''), (10, ''ECHOREP''), (11, ''DISCARDREQ''),
      (14, ''RESETREQ''), (15, ''RESETACK'')] (unat code)"

definition sstp_ccp_getname :: "u8 \<Rightarrow> string option" where
  "sstp_ccp_getname ty = map_of
     [(1, ''PREDICT1''), (2, ''PREDICT2''), (3, ''PUDDLE''), (16, ''HPPPC''), (17, ''SELZS''), (18, ''MPPC''),
      (19, ''GFZA''), (20, ''V42C''), (21, ''BSD'')] (unat ty)"

definition sstp_lcp_getname :: "u8 \<Rightarrow> string option" where
  "sstp_lcp_getname ty = map_of
     [(1, ''MRU''), (2, ''ASYNCMAP''), (3, ''AUTH''), (4, ''QUALITY''), (5, ''MAGIC''), (7, ''PCOMP''), (8, ''ACCOMP''),
      (9, ''FCSALTERN''), (10, ''SDP''), (11, ''NUMBERED''), (13, ''CALLBACK''), (17, ''MRRU''), (18, ''SSNHF''),
      (19, ''EPDISC''), (22, ''MPPLUS''), (25, ''COBS''), (26, ''PREFELIS''), (27, ''MPHDRFMT''), (28, ''I18N''),
      (29, ''SDL'')] (unat ty)"

definition sstp_ipcp_getname :: "u8 \<Rightarrow> string option" where
  "sstp_ipcp_getname ty = map_of
     [(1, ''ADDRS''), (2, ''COMPRESSTYPE''), (3, ''ADDR''), (129, ''MS_DNS1''), (130, ''MS_WINS1''), (131, ''MS_DNS2''),
      (132, ''MS_WINS2'')] (unat ty)"

definition sstp_eap_typestr :: "u8 \<Rightarrow> string option" where
  "sstp_eap_typestr ty = map_of
     [(1, ''IDENTITY''), (2, ''NOTIFICATION''), (3, ''NAK''), (4, ''MD5CHAP''), (5, ''OTP''), (6, ''TOKEN''), (9, ''RSA''),
      (10, ''DSS''), (11, ''KEA''), (12, ''KEA_VALIDATE''), (13, ''TLS''), (14, ''DEFENDER''), (15, ''W2K''), (16, ''ARCOT''),
      (17, ''CISCOWIRELESS''), (18, ''NOKIACARD''), (19, ''SRP''), (20, ''DEPRECATED''), (21, ''TTLS''), (22, ''RAS''),
      (23, ''AKA''), (24, ''3COM''), (25, ''PEAP''), (26, ''MSCHAPV2'')] (unat ty)"

definition sstp_eap_codestr :: "u8 \<Rightarrow> string option" where
  "sstp_eap_codestr code = map_of [(1, ''REQUEST''), (2, ''RESPONSE''), (3, ''SUCCESS''), (4, ''FAILURE'')] (unat code)"

definition sstp_chap_getname :: "u8 \<Rightarrow> string option" where
  "sstp_chap_getname code = map_of [(1, ''CHALLENGE''), (2, ''RESPONSE''), (3, ''SUCCESS''), (4, ''FAILURE'')] (unat code)"

section \<open>Options\<close>

text \<open>The sizes of \<open>ppp_hdr_st\<close> (code, id, length) and \<open>ppp_opt_st\<close> (type, length).\<close>

abbreviation (input) sizeof_ppp_hdr :: int where "sizeof_ppp_hdr \<equiv> 4"
abbreviation (input) sizeof_ppp_opt :: int where "sizeof_ppp_opt \<equiv> 2"

definition sstp_ppp_optlen :: "bytes \<Rightarrow> int \<Rightarrow> int option" where
  "sstp_ppp_optlen d opt = do { l \<leftarrow> rd d (opt + 1); Some (uint l - sizeof_ppp_opt) }"

definition sstp_ppp_optptr :: "int \<Rightarrow> int" where
  "sstp_ppp_optptr opt = opt + sizeof_ppp_opt"

definition sstp_ppp_nextopt :: "bytes \<Rightarrow> int \<Rightarrow> int option" where
  "sstp_ppp_nextopt d opt = do { l \<leftarrow> rd d (opt + 1); Some (opt + uint l) }"

definition sstp_ppp_data :: "int \<Rightarrow> int" where
  "sstp_ppp_data pkt = pkt + sizeof_ppp_hdr"

definition sstp_ppp_data_len :: "bytes \<Rightarrow> int \<Rightarrow> int option" where
  "sstp_ppp_data_len d pkt = do { l \<leftarrow> rd16 d (pkt + 2); Some (uint l - sizeof_ppp_hdr) }"

text \<open>The bits of the \<^verbatim>\<open>int\<close>.\<close>

definition sstp_ppp_opt2int :: "bytes \<Rightarrow> int \<Rightarrow> u32 option" where
  "sstp_ppp_opt2int d opt = do {
     len \<leftarrow> sstp_ppp_optlen d opt;
     if len = 1 then do { v \<leftarrow> rd d (sstp_ppp_optptr opt); Some (ucast v) }
     else if len = 2 then do { v \<leftarrow> rd16 d (sstp_ppp_optptr opt); Some (ucast v) }
     else if len = 4 then rd32 d (sstp_ppp_optptr opt)
     else Some 0 }"

text \<open>
  The loop over the options of a packet, the same in the three functions: one round prints the option at \<open>opt\<close>
  and says whether the function returns \<open>-1\<close>.
\<close>

function opt_loop ::
    "(int \<Rightarrow> int \<times> bytes \<Rightarrow> (bool \<times> int \<times> bytes) option) \<Rightarrow> bytes \<Rightarrow> int \<Rightarrow> int \<Rightarrow> int \<Rightarrow> int \<times> bytes \<Rightarrow>
     (bool \<times> int \<times> bytes) option" where
  "opt_loop body d n idx opt st =
     (if idx < n then
        (case rd d (opt + 1) of
           None \<Rightarrow> None
         | Some l \<Rightarrow>
             if l = 0 then Some (False, st)
             else (case body opt st of
                 None \<Rightarrow> None
               | Some (stop, st) \<Rightarrow> if stop then Some (True, st) else opt_loop body d n (idx + uint l) (opt + uint l) st))
      else Some (False, st))"
  by pat_completeness auto
termination
proof (relation "measure (\<lambda>(body, d, n, idx, opt, st). nat (n - idx))", simp)
  fix n idx :: int and l :: u8
  assume "idx < n" "l \<noteq> 0"
  moreover have "0 < uint l" using \<open>l \<noteq> 0\<close> uint_0_iff [of l] by (simp add: order_less_le)
  ultimately have *: "nat (n - (idx + uint l)) < nat (n - idx)" by simp
  then show "((body, d, n, idx + uint l, opt + uint l, st), (body, d, n, idx, opt, st'))
      \<in> measure (\<lambda>(body, d, n, idx, opt, st). nat (n - idx))" for body d opt st st' by simp
qed

declare opt_loop.simps [simp del]

abbreviation (input) CI_MPPC :: u8 where "CI_MPPC \<equiv> 18"

definition plus_minus :: "u32 \<Rightarrow> bytes" where
  "plus_minus v = (if v \<noteq> 0 then [43] else [45])"

definition mppe_bits :: "u32 \<Rightarrow> bytes" where
  "mppe_bits val =
     ascii '' [ '' @ plus_minus (drop_bit 24 val AND 0x01) @ ascii ''H '' @ plus_minus (val AND 0x80) @ ascii ''M ''
     @ plus_minus (val AND 0x40) @ ascii ''S '' @ plus_minus (val AND 0x20) @ ascii ''L ''
     @ plus_minus (val AND 0x10) @ ascii ''D '' @ plus_minus (val AND 0x01) @ ascii ''C ]''"

definition ccp_opt :: "bytes \<Rightarrow> int \<Rightarrow> int \<Rightarrow> int \<Rightarrow> int \<times> bytes \<Rightarrow> (bool \<times> int \<times> bytes) option" where
  "ccp_opt d base len opt st =
     (case st of (off, m) \<Rightarrow> do {
        ty \<leftarrow> rd d opt;
        case sstp_ccp_getname ty of
          None \<Rightarrow> Some (False, off, m)
        | Some name \<Rightarrow>
            if ty = CI_MPPC then do {
              val \<leftarrow> sstp_ppp_opt2int d opt;
              (ret, off, m) \<leftarrow> sstp_str_add m base len off ([32] @ ascii name @ mppe_bits val);
              Some (False, off, m) }
            else do {
              (ret, off, m) \<leftarrow> sstp_str_add m base len off ([32] @ ascii name);
              Some (ret < 0, off, m) } })"

definition sstp_ccp_opts :: "bytes \<Rightarrow> int \<Rightarrow> bytes \<Rightarrow> int \<Rightarrow> int \<Rightarrow> (int \<times> bytes) option" where
  "sstp_ccp_opts d pkt m base len = do {
     n \<leftarrow> sstp_ppp_data_len d pkt;
     (stop, off, m) \<leftarrow> opt_loop (ccp_opt d base len) d n 0 (sstp_ppp_data pkt) (0, m);
     Some (if stop then -1 else off, m) }"

abbreviation (input) CI_MRU :: u8 where "CI_MRU \<equiv> 1"
abbreviation (input) CI_AUTH :: u8 where "CI_AUTH \<equiv> 3"
abbreviation (input) CI_MAGIC :: u8 where "CI_MAGIC \<equiv> 5"
abbreviation (input) CI_MRRU :: u8 where "CI_MRRU \<equiv> 17"

definition auth_name :: "u16 \<Rightarrow> string" where
  "auth_name auth =
     (if auth = 0xc023 then ''PAP'' else if auth = 0xc223 then ''CHAP'' else if auth = 0xc227 then ''EAP'' else ''UNKNOWN'')"

text \<open>What of the array \<open>hex\<close> was not written is not read.\<close>

definition lcp_opt :: "bytes \<Rightarrow> int \<Rightarrow> int \<Rightarrow> int \<Rightarrow> int \<times> bytes \<Rightarrow> (bool \<times> int \<times> bytes) option" where
  "lcp_opt d base len opt st =
     (case st of (off, m) \<Rightarrow> do {
        ty \<leftarrow> rd d opt;
        case sstp_lcp_getname ty of
          None \<Rightarrow> Some (False, off, m)
        | Some name \<Rightarrow>
            let add = (\<lambda>t. do {
                  (ret, off, m) \<leftarrow> sstp_str_add m base len off ([32] @ ascii name @ ascii '': '' @ t);
                  Some (ret < 0, off, m) }) in
            if ty = CI_MRU \<or> ty = CI_MRRU then do { val \<leftarrow> sstp_ppp_opt2int d opt; add (show_int (sint val)) }
            else if ty = CI_AUTH then do { auth \<leftarrow> rd16 d (opt + sizeof_ppp_opt); add (ascii (auth_name auth)) }
            else if ty = CI_MAGIC then do { val \<leftarrow> sstp_ppp_opt2int d opt; add (ascii ''0x'' @ hex_pad 8 (unat val)) }
            else do {
              n \<leftarrow> sstp_ppp_optlen d opt;
              (ret, hex) \<leftarrow> sstp_bin2hex fmt_02X_sp (replicate 128 0) 128 d (sstp_ppp_optptr opt) n;
              if ret > 0 then do {
                hex \<leftarrow> wr_n hex (ret - 1) [0];
                t \<leftarrow> cstring hex;
                add t }
              else Some (False, off, m) } })"

definition sstp_lcp_opts :: "bytes \<Rightarrow> int \<Rightarrow> bytes \<Rightarrow> int \<Rightarrow> int \<Rightarrow> (int \<times> bytes) option" where
  "sstp_lcp_opts d pkt m base len = do {
     n \<leftarrow> sstp_ppp_data_len d pkt;
     (stop, off, m) \<leftarrow> opt_loop (lcp_opt d base len) d n 0 (sstp_ppp_data pkt) (0, m);
     Some (if stop then -1 else off, m) }"

abbreviation (input) CI_COMPRESSTYPE :: u8 where "CI_COMPRESSTYPE \<equiv> 2"
abbreviation (input) CI_ADDR :: u8 where "CI_ADDR \<equiv> 3"
abbreviation (input) CI_MS_DNS1 :: u8 where "CI_MS_DNS1 \<equiv> 129"
abbreviation (input) CI_MS_WINS1 :: u8 where "CI_MS_WINS1 \<equiv> 130"
abbreviation (input) CI_MS_DNS2 :: u8 where "CI_MS_DNS2 \<equiv> 131"
abbreviation (input) CI_MS_WINS2 :: u8 where "CI_MS_WINS2 \<equiv> 132"

text \<open>The value of an option of IPCP, the string in \<open>optstr\<close>.\<close>

definition ipcp_value :: "bytes \<Rightarrow> int \<Rightarrow> u8 \<Rightarrow> bytes option" where
  "ipcp_value d opt ty =
     (if ty \<in> {CI_ADDR, CI_MS_DNS1, CI_MS_DNS2, CI_MS_WINS1, CI_MS_WINS2} then do {
        a \<leftarrow> rd_n d (sstp_ppp_optptr opt) 4;
        Some (inet_ntoa a) }
      else if ty = CI_COMPRESSTYPE then do {
        proto \<leftarrow> rd16 d (sstp_ppp_optptr opt);
        if proto = 0x002d then do {
          a \<leftarrow> rd d (sstp_ppp_optptr opt + 2);
          b \<leftarrow> rd d (sstp_ppp_optptr opt + 3);
          Some (ascii ''VJ [0x'' @ hex_pad 2 (unat a) @ ascii '' 0x'' @ hex_pad 2 (unat b) @ ascii '']'') }
        else if proto = 0x0037 then Some (ascii ''VJ-OLD'')
        else Some (ascii ''UNKNOWN'') }
      else do {
        n \<leftarrow> sstp_ppp_optlen d opt;
        (ret, t) \<leftarrow> sstp_bin2hex fmt_0x02X_sp (replicate 128 0) 128 d (sstp_ppp_optptr opt) n;
        if ret > 0 then do { t \<leftarrow> wr_n t (ret - 1) [0]; cstring t } else cstring t })"

definition ipcp_opt :: "bytes \<Rightarrow> int \<Rightarrow> int \<Rightarrow> int \<Rightarrow> int \<times> bytes \<Rightarrow> (bool \<times> int \<times> bytes) option" where
  "ipcp_opt d base len opt st =
     (case st of (off, m) \<Rightarrow> do {
        ty \<leftarrow> rd d opt;
        case sstp_ipcp_getname ty of
          None \<Rightarrow> Some (False, off, m)
        | Some name \<Rightarrow> do {
            t \<leftarrow> ipcp_value d opt ty;
            (ret, off, m) \<leftarrow> sstp_str_add m base len off ([32] @ ascii name @ ascii '': '' @ t);
            Some (ret < 0, off, m) } })"

definition sstp_ipcp_opts :: "bytes \<Rightarrow> int \<Rightarrow> bytes \<Rightarrow> int \<Rightarrow> int \<Rightarrow> (int \<times> bytes) option" where
  "sstp_ipcp_opts d pkt m base len = do {
     n \<leftarrow> sstp_ppp_data_len d pkt;
     (stop, off, m) \<leftarrow> opt_loop (ipcp_opt d base len) d n 0 (sstp_ppp_data pkt) (0, m);
     Some (if stop then -1 else off, m) }"

section \<open>Protocols\<close>

text \<open>The functions in the table of handlers.\<close>

datatype dumper = Sstp_dump_chap | Sstp_dump_eap | Sstp_dump_ipcp | Sstp_dump_lcp | Sstp_dump_pap | Sstp_dump_ccp

definition sstp_ppp_handler :: "u16 \<Rightarrow> (string \<times> dumper option) option" where
  "sstp_ppp_handler proto = map_of
     [(0xc223, ''CHAP'', Some Sstp_dump_chap),
      (0xc227, ''EAP'', Some Sstp_dump_eap),
      (0x8021, ''IPCP'', Some Sstp_dump_ipcp),
      (0xc021, ''LCP'', Some Sstp_dump_lcp),
      (0xc023, ''PAP'', Some Sstp_dump_pap),
      (0x80fd, ''CCP'', Some Sstp_dump_ccp),
      (0x8281, ''MPLSCP'', None),
      (0x8235, ''ACSP'', None)] (unat proto)"

text \<open>What a function does with the result of the options; \<open>len\<close> is not used again.\<close>

definition after_opts :: "int \<Rightarrow> int \<times> bytes \<Rightarrow> int \<times> bytes" where
  "after_opts off r = (case r of (ret, m) \<Rightarrow> (if ret > 0 then off + ret else off, m))"

text \<open>The end of a function that returns \<open>-1\<close> when the text did not fit.\<close>

definition added :: "int \<times> int \<times> bytes \<Rightarrow> int \<times> bytes" where
  "added r = (case r of (ret, off, m) \<Rightarrow> (if ret < 0 then -1 else off, m))"

text \<open>
  The text for a rejected protocol without a name has two conversions for one argument.
\<close>

definition sstp_dump_lcp :: "bytes \<Rightarrow> int \<Rightarrow> bytes \<Rightarrow> int \<Rightarrow> int \<Rightarrow> (int \<times> bytes) option" where
  "sstp_dump_lcp d pkt m base len = do {
     code \<leftarrow> rd d pkt;
     if code < 1 \<or> code > 11 then Some (-1, m)
     else do {
       name \<leftarrow> sstp_ppp_getcode code;
       (ret, off, m) \<leftarrow> sstp_str_add m base len 0 ([32] @ ascii name);
       if ret < 0 then Some (-1, m)
       else if code \<in> {1, 2, 3, 4} then do {
         r \<leftarrow> sstp_lcp_opts d pkt m (base + off) (len - off);
         Some (after_opts off r) }
       else if code \<in> {8, 7} then do {
         proto \<leftarrow> rd16 d (sstp_ppp_data pkt);
         case sstp_ppp_handler proto of
           Some (n, _) \<Rightarrow> do { r \<leftarrow> sstp_str_add m base len off ([32] @ ascii n); Some (added r) }
         | None \<Rightarrow> None }
       else if code \<in> {9, 10, 11} then do {
         v \<leftarrow> rd32 d (sstp_ppp_data pkt);
         r \<leftarrow> sstp_str_add m base len off (ascii '' MAGIC: 0x'' @ hex_pad 8 (unat v));
         Some (added r) }
       else Some (off, m) } }"

text \<open>The rejected code is read without \<^verbatim>\<open>ntohs\<close>, on a little-endian machine.\<close>

definition sstp_dump_ipcp :: "bytes \<Rightarrow> int \<Rightarrow> bytes \<Rightarrow> int \<Rightarrow> int \<Rightarrow> (int \<times> bytes) option" where
  "sstp_dump_ipcp d pkt m base len = do {
     code \<leftarrow> rd d pkt;
     if code < 1 \<or> code > 7 then Some (-1, m)
     else do {
       name \<leftarrow> sstp_ppp_getcode code;
       (ret, off, m) \<leftarrow> sstp_str_add m base len 0 ([32] @ ascii name);
       if ret < 0 then Some (-1, m)
       else if code \<in> {1, 2, 3, 4} then do {
         r \<leftarrow> sstp_ipcp_opts d pkt m (base + off) (len - off);
         Some (after_opts off r) }
       else if code \<in> {5, 6} then do {
         v \<leftarrow> rd32 d (sstp_ppp_data pkt);
         r \<leftarrow> sstp_str_add m base len off (ascii '' MAGIC: 0x'' @ hex_pad 4 (unat v));
         Some (added r) }
       else do {
         a \<leftarrow> rd d (sstp_ppp_data pkt);
         b \<leftarrow> rd d (sstp_ppp_data pkt + 1);
         r \<leftarrow> sstp_str_add m base len off (ascii '' PROTO: 0x'' @ hex_pad 4 (unat (un16 b a)));
         Some (added r) } } }"

definition sstp_dump_ccp :: "bytes \<Rightarrow> int \<Rightarrow> bytes \<Rightarrow> int \<Rightarrow> int \<Rightarrow> (int \<times> bytes) option" where
  "sstp_dump_ccp d pkt m base len = do {
     code \<leftarrow> rd d pkt;
     if code < 1 \<or> code > 15 then Some (-1, m)
     else do {
       name \<leftarrow> sstp_ppp_getcode code;
       (ret, pos, m) \<leftarrow> sstp_str_add m base len 0 ([32] @ ascii name);
       if ret < 0 then Some (-1, m)
       else if code \<in> {1, 2, 3, 4} then do {
         r \<leftarrow> sstp_ccp_opts d pkt m (base + pos) (len - pos);
         Some (after_opts pos r) }
       else Some (pos, m) } }"

text \<open>
  \<^verbatim>\<open>memcpy\<close> of \<open>MIN(n, size)\<close> bytes at \<open>p\<close> into a zeroed array of that size, and its string. The comparison
  is one of unsigned numbers: a negative \<open>n\<close> is the larger one.
\<close>

definition copy_min :: "bytes \<Rightarrow> int \<Rightarrow> int \<Rightarrow> int \<Rightarrow> bytes option" where
  "copy_min d p n sz = do {
     x \<leftarrow> rd_n d p (if n < 0 \<or> n > sz then sz else n);
     cstring (x @ replicate (nat sz - length x) 0) }"

definition sstp_dump_chap :: "bytes \<Rightarrow> int \<Rightarrow> bytes \<Rightarrow> int \<Rightarrow> int \<Rightarrow> (int \<times> bytes) option" where
  "sstp_dump_chap d pkt m base len = do {
     code \<leftarrow> rd d pkt;
     case sstp_chap_getname code of
       None \<Rightarrow> Some (0, m)
     | Some state \<Rightarrow> do {
         i \<leftarrow> rd d (pkt + 1);
         (ret, off, m) \<leftarrow> sstp_str_add m base len 0 (ascii '' ID: '' @ show_int (uint i) @ [32] @ ascii state);
         if ret < 0 then Some (off, m)
         else if code \<in> {1, 2} then do {
           clen \<leftarrow> rd d (sstp_ppp_data pkt);
           (ret, hex) \<leftarrow> sstp_bin2hex fmt_02X (replicate 255 0) 255 d (sstp_ppp_data pkt + 1) (uint clen);
           if ret \<le> 0 then Some (-1, m)
           else do {
             n \<leftarrow> sstp_ppp_data_len d pkt;
             peer \<leftarrow> copy_min d (sstp_ppp_data pkt + 1 + uint clen) (n - uint clen - 1) 255;
             hex \<leftarrow> cstring hex;
             r \<leftarrow> sstp_str_add m base len off (ascii '' ['' @ hex @ ascii ''], NAME: '' @ peer);
             Some (added r) } }
         else do {
           t \<leftarrow> rd_str d (sstp_ppp_data pkt);
           r \<leftarrow> sstp_str_add m base len off (ascii '' ['' @ t @ ascii '']'');
           Some (added r) } } }"

abbreviation (input) EAPT_TLS_type :: u8 where "EAPT_TLS_type \<equiv> 13"
abbreviation (input) EAPT_IDENTITY :: u8 where "EAPT_IDENTITY \<equiv> 1"
abbreviation (input) EAPT_NOTIFICATION :: u8 where "EAPT_NOTIFICATION \<equiv> 2"

text \<open>
  \<open>plen\<close> is an \<^verbatim>\<open>unsigned int\<close>. The result is that of the last call that added text.
\<close>

definition sstp_dump_eap :: "bytes \<Rightarrow> int \<Rightarrow> bytes \<Rightarrow> int \<Rightarrow> int \<Rightarrow> (int \<times> bytes) option" where
  "sstp_dump_eap d pkt m base len = do {
     n \<leftarrow> sstp_ppp_data_len d pkt;
     let plen = (word_of_int (n - 1) :: u32);
     ty \<leftarrow> rd d (sstp_ppp_data pkt);
     code \<leftarrow> rd d pkt;
     cname \<leftarrow> sstp_eap_codestr code;
     tname \<leftarrow> sstp_eap_typestr ty;
     (ret, pos, m) \<leftarrow> sstp_str_add m base len 0 (ascii cname @ [32] @ ascii tname);
     let result = (\<lambda>(ret, pos, m). (if ret = 0 then pos else ret, m));
     if ret < 0 \<or> code \<notin> {1, 2} then Some (result (ret, pos, m))
     else if ty = EAPT_TLS_type then do {
       flag \<leftarrow> rd d (sstp_ppp_data pkt + 1);
       r \<leftarrow> (if flag = 0 \<and> plen - 1 = 0 then sstp_str_add m base len pos (ascii '' ACK'')
            else sstp_str_add m base len pos
              (ascii '' ['' @ ascii (if 128 AND flag \<noteq> 0 then ''L'' else ''-'') @ [32]
                @ ascii (if 64 AND flag \<noteq> 0 then ''M'' else ''-'') @ [32]
                @ ascii (if 32 AND flag \<noteq> 0 then ''S'' else ''-'') @ ascii '']''));
       Some (result r) }
     else if ty \<in> {EAPT_IDENTITY, EAPT_NOTIFICATION} then
       (if plen > 0 then do {
          x \<leftarrow> rd_n d (sstp_ppp_data pkt + 1) (uint plen);
          a \<leftarrow> wr_n (replicate 255 0) 0 x;
          a \<leftarrow> wr_n a (uint plen) [0];
          t \<leftarrow> cstring a;
          r \<leftarrow> sstp_str_add m base len pos (ascii '' NAME: '' @ [34] @ t @ [34]);
          Some (result r) }
        else Some (result (ret, pos, m)))
     else Some (result (ret, pos, m)) }"

definition sstp_dump_pap :: "bytes \<Rightarrow> int \<Rightarrow> bytes \<Rightarrow> int \<Rightarrow> int \<Rightarrow> (int \<times> bytes) option" where
  "sstp_dump_pap d pkt m base len = do {
     code \<leftarrow> rd d pkt;
     if code < 1 \<or> code > 3 then Some (-1, m)
     else do {
       cname \<leftarrow> sstp_ppp_getcode code;
       (ret, pos, m) \<leftarrow> sstp_str_add m base len 0 ([32] @ ascii cname);
       if ret < 0 then Some (-1, m)
       else do {
         let ptr = sstp_ppp_data pkt;
         plen \<leftarrow> rd d ptr;
         name \<leftarrow> rd_n d (ptr + 1) (min (uint plen) 128);
         let ptr = ptr + 1 + uint plen;
         if code = 1 then do {
           plen \<leftarrow> rd d ptr;
           pass \<leftarrow> copy_min d (ptr + 1) (uint plen) 128;
           name \<leftarrow> cstring (name @ replicate (128 - length name) 0);
           r \<leftarrow> sstp_str_add m base len pos (ascii '' NAME='' @ [34] @ name @ [34] @ ascii '', PASSWORD: '' @ [34] @ pass @ [34]);
           Some (added r) }
         else do {
           name \<leftarrow> cstring (name @ replicate (128 - length name) 0);
           r \<leftarrow> sstp_str_add m base len pos (ascii '' RESULT='' @ [34] @ name @ [34]);
           Some (added r) } } } }"

definition run_dumper :: "dumper \<Rightarrow> bytes \<Rightarrow> int \<Rightarrow> bytes \<Rightarrow> int \<Rightarrow> int \<Rightarrow> (int \<times> bytes) option" where
  "run_dumper f =
     (case f of Sstp_dump_chap \<Rightarrow> sstp_dump_chap | Sstp_dump_eap \<Rightarrow> sstp_dump_eap | Sstp_dump_ipcp \<Rightarrow> sstp_dump_ipcp
      | Sstp_dump_lcp \<Rightarrow> sstp_dump_lcp | Sstp_dump_pap \<Rightarrow> sstp_dump_pap | Sstp_dump_ccp \<Rightarrow> sstp_dump_ccp)"

section \<open>Packets\<close>

text \<open>
  The frame of \<open>len\<close> bytes at \<open>buf\<close>, as lines of the log; \<open>len\<close> is a \<^verbatim>\<open>size_t\<close>. Equal lengths, not
  different ones, are refused; as \<open>len\<close> counts the two bytes of the protocol that \<open>buf\<close> has passed,
  this is not the case of a whole packet.
\<close>

definition sstp_dump_ppp :: "bytes \<Rightarrow> int \<Rightarrow> int \<Rightarrow> (int \<times> bytes list) option" where
  "sstp_dump_ppp d buf len = do {
     a \<leftarrow> rd d buf;
     hdlc \<leftarrow> (if a = 0xff then do { b \<leftarrow> rd d (buf + 1); Some (b = 0x03) } else Some False);
     let (buf, len) = (if hdlc then (buf + 2, (len - 2) mod 2 ^ 64) else (buf, len));
     proto \<leftarrow> rd16 d buf;
     let pkt = buf + 2;
     case sstp_ppp_handler proto of
       None \<Rightarrow> Some (-1, [])
     | Some (name, f) \<Rightarrow> do {
         plen \<leftarrow> rd16 d (pkt + 2);
         if uint plen = len then Some (-1, [])
         else do {
           (ret, m) \<leftarrow> (case f of None \<Rightarrow> Some (0, replicate 1024 0)
              | Some f \<Rightarrow> run_dumper f d pkt (replicate 1024 0) 0 1024);
           i \<leftarrow> rd d (pkt + 1);
           t \<leftarrow> (if ret > 0 then do { t \<leftarrow> cstring m; Some ([32] @ t) } else Some []);
           Some (0, [ascii ''  PPP '' @ ascii name @ ascii '' ID: '' @ show_int (uint i) @ t]) } } }"

definition sstp_msg_type :: "u16 \<Rightarrow> string option" where
  "sstp_msg_type ty = map_of
     [(1, ''CONNECT REQUEST''), (2, ''CONNECT ACK''), (3, ''CONNECT NAK''), (4, ''CONNECTED''), (5, ''ABORT''),
      (6, ''DISCONNECT''), (7, ''DISCONNECT ACK''), (8, ''ECHO REQUEST''), (9, ''ECHO REPLY'')] (unat ty)"

definition sstp_attr_type :: "u8 \<Rightarrow> string option" where
  "sstp_attr_type ty = map_of
     [(0, ''NO ERROR''), (1, ''ENCAP PROTO''), (2, ''STATUS INFO''), (3, ''CRYPTO BIND''), (4, ''CRYPTO BIND REQ'')] (unat ty)"

text \<open>The attributes; the flag says that the function returned at one with an unknown type.\<close>

fun dump_attrs :: "bytes \<Rightarrow> nat \<Rightarrow> int \<Rightarrow> (bool \<times> bytes list) option" where
  "dump_attrs d 0 index = Some (False, [])"
| "dump_attrs d (Suc k) index = do {
     ty \<leftarrow> rd d (index + 1);
     if SSTP_ATTR_MAX < unat ty then Some (True, [])
     else do {
       name \<leftarrow> sstp_attr_type ty;
       len \<leftarrow> rd16 d (index + 2);
       (stop, ls) \<leftarrow> dump_attrs d k (uint len);
       Some (stop, (ascii ''    '' @ ascii name @ ascii ''('' @ show_int (uint ty) @ ascii ''): '' @ show_int (uint len)) # ls) } }"

text \<open>Sixteen bytes a line.\<close>

function hex_lines :: "bytes \<Rightarrow> int \<Rightarrow> int \<Rightarrow> bytes list option" where
  "hex_lines d pktlen index =
     (if index < pktlen then
        (case sstp_bin2hex fmt_0x02X_sp (replicate 96 0) 96 d index (min (pktlen - index) 16) of
           None \<Rightarrow> None
         | Some (ret, hex) \<Rightarrow>
             (case (if ret > 0 then cstring hex else Some []) of
                None \<Rightarrow> None
              | Some t \<Rightarrow>
                  (case hex_lines d pktlen (index + 16) of
                     None \<Rightarrow> None
                   | Some ls \<Rightarrow> Some (if ret > 0 then (ascii ''  '' @ t) # ls else ls))))
      else Some [])"
  by pat_completeness auto
termination by (relation "measure (\<lambda>(d, pktlen, index). nat (pktlen - index))") auto

declare hex_lines.simps [simp del]

datatype sstp_direction = SSTP_DIR_RECV | SSTP_DIR_SEND

abbreviation (input) SSTP_LOG_DBGCTRL :: int where "SSTP_LOG_DBGCTRL \<equiv> 4"
abbreviation (input) SSTP_LOG_TRACE :: int where "SSTP_LOG_TRACE \<equiv> 5"
abbreviation (input) SSTP_LOG_DUMP :: int where "SSTP_LOG_DUMP \<equiv> 6"

definition sstp_pkt_dump :: "int \<Rightarrow> sstp_direction \<Rightarrow> sstp_buff \<Rightarrow> bytes list option" where
  "sstp_pkt_dump level dir buf = do {
     let d = b_data buf;
     flags \<leftarrow> rd d 1;
     let ctrl = (SSTP_MSG_FLAG_CTRL AND flags \<noteq> 0);
     if level = SSTP_LOG_DBGCTRL \<and> \<not> ctrl then Some []
     else do {
       plen \<leftarrow> rd16 d 2;
       let head = ascii (if dir = SSTP_DIR_RECV then ''RECV'' else ''SEND'') @ ascii '' SSTP ''
         @ ascii (if ctrl then ''CRTL'' else ''DATA'') @ ascii '' PKT('' @ show_int (uint plen) @ ascii '') '';
       (stop, ls) \<leftarrow>
         (if ctrl then do {
            ty \<leftarrow> rd16 d sizeof_pkt;
            alen \<leftarrow> rd16 d (sizeof_pkt + 2);
            name \<leftarrow> sstp_msg_type ty;
            (stop, ls) \<leftarrow> dump_attrs d (unat alen) (sizeof_pkt + sizeof_ctrl);
            Some (stop, (ascii ''  TYPE('' @ show_int (uint ty) @ ascii ''): '' @ ascii name @ ascii '', ATTR('' @ show_int (uint alen) @ ascii ''):'') # ls) }
          else if SSTP_LOG_TRACE \<le> level then do {
            p \<leftarrow> sstp_pkt_data buf;
            n \<leftarrow> sstp_pkt_data_len buf;
            p \<leftarrow> p;
            (_, ls) \<leftarrow> sstp_dump_ppp d p (n mod 2 ^ 64);
            Some (False, ls) }
          else Some (False, []));
       if stop \<or> SSTP_LOG_DUMP > level then Some (head # ls)
       else do {
         hex \<leftarrow> hex_lines d (uint plen) 0;
         Some (head # ls @ hex) } } }"

end
