(* ===== verification/DumpProofs.thy ===== *)
theory DumpProofs
  imports Dump
begin

text \<open>
  What the dump prints. Text grows at the end of what is in the array (\<open>sstp_str_add_at\<close>); an option of
  LCP, IPCP or CCP prints its text (locale \<open>option_printer\<close>, interpreted for the three), hence a whole
  configuration packet prints the texts of its options in order; and the hexadecimal lines are the bytes of
  the message. Packets for which the dump leaves its arrays are at the end.
\<close>

section \<open>Adding text\<close>

lemma sstp_str_add_at:
  assumes "base + off = int (length T)" "0 \<le> base" "0 \<le> off" "off + int (length t) < len" "base + len \<le> int (length T + 1 + length rest)"
  shows "sstp_str_add (T @ 0 # rest) base len off t
    = Some (int (length t), off + int (length t), (T @ t) @ 0 # drop (length t) rest)"
proof -
  have fit: "length t \<le> length rest" using assms by simp
  have "wr_n (T @ (0 # take (length t) rest) @ drop (length t) rest) (base + off) (t @ [0])
      = Some (T @ (t @ [0]) @ drop (length t) rest)"
    by (rule wr_n_split) (use assms fit in simp_all)
  then have "wr_n (T @ 0 # rest) (base + off) (t @ [0]) = Some (T @ t @ 0 # drop (length t) rest)" by simp
  moreover have "take (nat (len - off) - 1) t = t" using assms(4) by simp
  ultimately show ?thesis using assms(4) by (simp add: sstp_str_add_def vsnprintf_def Let_def)
qed

section \<open>Printed text has no zero\<close>

lemma hex_digit_nz: "n < 16 \<Longrightarrow> hex_digit n \<noteq> 0"
  unfolding hex_digit_def using of_nat_nz [of "48 + n"] of_nat_nz [of "55 + n"] by simp

lemma hex_digits_nz: "0 \<notin> set (hex_digits n)"
proof (induction n rule: hex_digits.induct)
  case (1 n)
  show ?case
  proof (cases "n < 16")
    case True
    then show ?thesis using hex_digit_nz [of n] by (simp add: hex_digits.simps [of n])
  next
    case False
    then show ?thesis using 1 hex_digit_nz [of "n mod 16"] by (simp add: hex_digits.simps [of n])
  qed
qed

lemma hex_pad_nz [printed]: "0 \<notin> set (hex_pad w n)"
  using hex_digits_nz by (auto simp: hex_pad_def)

lemma fmt_nz [printed]: "0 \<notin> set (fmt_02X b)" "0 \<notin> set (fmt_02X_sp b)" "0 \<notin> set (fmt_0x02X_sp b)"
  using hex_pad_nz by (simp_all add: fmt_02X_def fmt_02X_sp_def fmt_0x02X_sp_def)

lemma concat_nz: "(\<And>b. 0 \<notin> set (f b)) \<Longrightarrow> 0 \<notin> set (concat (map f xs))"
  by auto

lemma inet_ntoa_nz [printed]: "0 \<notin> set (inet_ntoa a)"
  using show_int_nz by (simp add: inet_ntoa_def)

text \<open>A text of characters other than the zero.\<close>

definition plain_text :: "string \<Rightarrow> bool" where
  "plain_text s \<longleftrightarrow> 0 \<notin> set (ascii s)"

lemma map_of_range: "map_of xs k = Some v \<Longrightarrow> list_all P (map snd xs) \<Longrightarrow> P v"
  by (induction xs) (auto split: if_splits)

lemma names_plain:
  "sstp_ppp_getcode code = Some n \<Longrightarrow> plain_text n"
  "sstp_lcp_getname ty = Some n \<Longrightarrow> plain_text n"
  "sstp_ipcp_getname ty = Some n \<Longrightarrow> plain_text n"
  "sstp_ccp_getname ty = Some n \<Longrightarrow> plain_text n"
  unfolding sstp_ppp_getcode_def sstp_lcp_getname_def sstp_ipcp_getname_def sstp_ccp_getname_def
  by (erule map_of_range, simp add: plain_text_def ascii_def)+

section \<open>Options\<close>

definition enc_option :: "u8 \<times> bytes \<Rightarrow> bytes" where
  "enc_option a = fst a # of_nat (length (snd a) + 2) # snd a"

definition be_value :: "bytes \<Rightarrow> u32" where
  "be_value x =
     (if length x = 1 then ucast (x ! 0)
      else if length x = 2 then ucast (un16 (x ! 0) (x ! 1))
      else if length x = 4 then un32 (x ! 0) (x ! 1) (x ! 2) (x ! 3) else 0)"

lemma rd_mid: "0 \<le> k \<Longrightarrow> k < int (length x) \<Longrightarrow> i = int (length pre) + k \<Longrightarrow> rd (pre @ x @ post) i = Some (x ! nat k)"
  using rd_append_right [of k pre "x @ post"] by (auto simp: rd_def nth_append nat_add_distrib split: if_splits)

lemma rd_option:
  assumes "d = pre @ enc_option (ty, x) @ post" "opt = int (length pre)"
  shows "rd d opt = Some ty" "rd d (opt + 1) = Some (of_nat (length x + 2))"
    and "0 \<le> k \<Longrightarrow> k < int (length x) \<Longrightarrow> rd d (opt + 2 + k) = Some (x ! nat k)"
  unfolding assms(1)
  using rd_mid [of 0 "enc_option (ty, x)" opt pre post] rd_mid [of 1 "enc_option (ty, x)" "opt + 1" pre post]
    rd_mid [of k x "opt + 2 + k" "pre @ [ty, of_nat (length x + 2)]" post] assms(2)
  by (simp_all add: enc_option_def)

lemma uint_optlen: "n \<le> 253 \<Longrightarrow> uint (of_nat (n + 2) :: u8) = int n + 2"
  using uint_u8 [of "n + 2"] by simp

lemma optlen_at:
  assumes "d = pre @ enc_option (ty, x) @ post" "opt = int (length pre)" "length x \<le> 253"
  shows "sstp_ppp_optlen d opt = Some (int (length x))"
  using rd_option(2) [OF assms(1,2)] uint_optlen [OF assms(3)] by (simp add: sstp_ppp_optlen_def)

lemma opt2int_at:
  assumes "d = pre @ enc_option (ty, x) @ post" "opt = int (length pre)" "length x \<le> 253"
  shows "sstp_ppp_opt2int d opt = Some (be_value x)"
proof -
  have k: "rd d (opt + 2) = Some (x ! 0)" if "0 < length x"
    using rd_option(3) [OF assms(1,2), of 0] that by simp
  have k1: "rd d (3 + opt) = Some (x ! 1)" if "1 < length x"
    using rd_option(3) [OF assms(1,2), of 1] that by (simp add: add.commute)
  have k2: "rd d (4 + opt) = Some (x ! 2)" "rd d (5 + opt) = Some (x ! 3)" if "3 < length x"
    using rd_option(3) [OF assms(1,2), of 2] rd_option(3) [OF assms(1,2), of 3] that by (simp_all add: add.commute)
  consider "length x = 1" | "length x = 2" | "length x = 4" | "length x \<notin> {1, 2, 4}" by auto
  then show ?thesis
    by cases (simp_all add: sstp_ppp_opt2int_def optlen_at [OF assms] be_value_def sstp_ppp_optptr_def rd16_def rd32_def k k1 k2)
qed

definition option_texts :: "(u8 \<times> bytes \<Rightarrow> bytes) \<Rightarrow> (u8 \<times> bytes) list \<Rightarrow> bytes" where
  "option_texts text_of as = concat (map text_of as)"

lemma option_texts_simps [simp]: "option_texts f [] = []" "option_texts f (a # as) = f a @ option_texts f as"
  by (simp_all add: option_texts_def)

lemma rd16_option:
  assumes "d = pre @ enc_option (ty, x) @ post" "opt = int (length pre)" "2 \<le> length x"
  shows "rd16 d (opt + 2) = Some (un16 (x ! 0) (x ! 1))"
proof -
  have "(0::int) < int (length x)" "(1::int) < int (length x)" using assms(3) by linarith+
  then show ?thesis
    using rd_option(3) [OF assms(1,2), of 0] rd_option(3) [OF assms(1,2), of 1] by (simp add: rd16_def add.commute)
qed

text \<open>
  One round of the loop over the options prints the text of the option.
\<close>

locale option_printer =
  fixes body :: "bytes \<Rightarrow> int \<Rightarrow> int \<Rightarrow> int \<Rightarrow> int \<times> bytes \<Rightarrow> (bool \<times> int \<times> bytes) option"
    and text_of :: "u8 \<times> bytes \<Rightarrow> bytes"
    and fits :: "u8 \<times> bytes \<Rightarrow> bool"
  assumes fits_length: "fits a \<Longrightarrow> length (snd a) \<le> 253"
    and text_nz: "0 \<notin> set (text_of a)"
    and body_prints: "fits a \<Longrightarrow> d = pre @ enc_option a @ post \<Longrightarrow> opt = int (length pre) \<Longrightarrow>
      base + off = int (length T) \<Longrightarrow> 0 \<le> base \<Longrightarrow> 0 \<le> off \<Longrightarrow> off + int (length (text_of a)) < len \<Longrightarrow>
      base + len \<le> int (length T + 1 + length rest) \<Longrightarrow>
      body d base len opt (off, T @ 0 # rest)
        = Some (False, off + int (length (text_of a)), (T @ text_of a) @ 0 # drop (length (text_of a)) rest)"
begin

lemma option_texts_nz: "0 \<notin> set (option_texts text_of as)"
  using text_nz by (auto simp: option_texts_def)

lemma loop_prints:
  "list_all fits as \<Longrightarrow> d = pre @ concat (map enc_option as) @ post \<Longrightarrow> opt = int (length pre) \<Longrightarrow>
   n = idx + int (length (concat (map enc_option as))) \<Longrightarrow> base + off = int (length T) \<Longrightarrow> 0 \<le> base \<Longrightarrow> 0 \<le> off \<Longrightarrow>
   off + int (length (option_texts text_of as)) < len \<Longrightarrow> base + len \<le> int (length T + 1 + length rest) \<Longrightarrow>
   opt_loop (body d base len) d n idx opt (off, T @ 0 # rest)
     = Some (False, off + int (length (option_texts text_of as)), (T @ option_texts text_of as) @ 0 # drop (length (option_texts text_of as)) rest)"
proof (induction as arbitrary: pre opt idx off T rest)
  case Nil
  then show ?case by (simp add: opt_loop.simps)
next
  case (Cons a as)
  let ?t = "text_of a" and ?e = "concat (map enc_option as)"
  obtain ty x where a: "a = (ty, x)" by (cases a)
  have f: "fits a" and len: "length x \<le> 253" using Cons.prems(1) fits_length [of a] a by auto
  have d: "d = pre @ enc_option (ty, x) @ (?e @ post)" using Cons.prems(2) a by simp
  have l: "rd d (opt + 1) = Some (of_nat (length x + 2))" by (rule rd_option(2) [OF d Cons.prems(3)])
  have nz: "(of_nat (length x + 2) :: u8) \<noteq> 0" by (rule of_nat_nz) (use len in simp_all)
  have u: "uint (of_nat (length x + 2) :: u8) = int (length x) + 2" by (rule uint_optlen [OF len])
  have go: "idx < n" using Cons.prems(4) by (simp add: a enc_option_def)
  have b: "body d base len opt (off, T @ 0 # rest) = Some (False, off + int (length ?t), (T @ ?t) @ 0 # drop (length ?t) rest)"
    by (rule body_prints [OF f d [folded a] Cons.prems(3,5,6,7) _ Cons.prems(9)]) (use Cons.prems(8) in simp)
  have "opt_loop (body d base len) d n (idx + (int (length x) + 2)) (opt + (int (length x) + 2))
      (off + int (length ?t), (T @ ?t) @ 0 # drop (length ?t) rest)
    = Some (False, off + int (length ?t) + int (length (option_texts text_of as)),
        ((T @ ?t) @ option_texts text_of as) @ 0 # drop (length (option_texts text_of as)) (drop (length ?t) rest))"
    by (rule Cons.IH [of "pre @ enc_option (ty, x)"]) (use Cons.prems d in \<open>auto simp: a enc_option_def\<close>)
  then show ?case using go l nz b u by (subst opt_loop.simps) (simp add: add.commute add.left_commute)
qed

text \<open>The function around the loop, on a packet that these options fill.\<close>

lemma opts_print:
  assumes "list_all fits as" "d = pre @ [code, i] @ be16 (of_nat (4 + length (concat (map enc_option as)))) @ concat (map enc_option as) @ post"
    and "length (concat (map enc_option as)) \<le> 65531" "pkt = int (length pre)" "base = int (length T)"
    and "int (length (option_texts text_of as)) < len" "base + len \<le> int (length T + 1 + length rest)"
  shows "do { n \<leftarrow> sstp_ppp_data_len d pkt;
       (stop, off, m) \<leftarrow> opt_loop (body d base len) d n 0 (sstp_ppp_data pkt) (0, T @ 0 # rest);
       Some (if stop then -1 else off, m) }
    = Some (int (length (option_texts text_of as)), (T @ option_texts text_of as) @ 0 # drop (length (option_texts text_of as)) rest)"
proof -
  let ?e = "concat (map enc_option as)"
  have "rd16 d (pkt + 2) = Some (of_nat (4 + length ?e))"
    using rd16_split [of "pkt + 2" "pre @ [code, i]" "of_nat (4 + length ?e)" "?e @ post"] assms(2,4) by simp
  moreover have "uint (of_nat (4 + length ?e) :: u16) = 4 + int (length ?e)"
    using assms(3) by (simp add: unsigned_of_nat take_bit_nat_eq_self del: of_nat_add)
  ultimately have n: "sstp_ppp_data_len d pkt = Some (int (length ?e))" by (simp add: sstp_ppp_data_len_def)
  have "opt_loop (body d base len) d (int (length ?e)) 0 (sstp_ppp_data pkt) (0, T @ 0 # rest)
    = Some (False, 0 + int (length (option_texts text_of as)), (T @ option_texts text_of as) @ 0 # drop (length (option_texts text_of as)) rest)"
    by (rule loop_prints [of as d "pre @ [code, i] @ be16 (of_nat (4 + length ?e))" post])
      (use assms in \<open>auto simp: sstp_ppp_data_def\<close>)
  then show ?thesis using n by simp
qed

end

section \<open>The three kinds of options\<close>

text \<open>The names and numbers of RFC 1661, 1570, 1990, 1332, 1877 and 1962, and the bits of MPPE (RFC 3078), apart from the tables of the code.\<close>

definition name_in :: "(string \<times> 'n) list \<Rightarrow> 'n \<Rightarrow> string option" where
  "name_in tab k = map_option fst (find (\<lambda>a. k = snd a) tab)"

lemma name_in_simps [simp]:
  "name_in [] k = None" "name_in ((s, n) # tab) k = (if k = n then Some s else name_in tab k)"
  by (simp_all add: name_in_def)

definition lcp_names :: "(string \<times> u8) list" where
  "lcp_names =
     [(''MRU'', 1), (''AUTH'', 3), (''MAGIC'', 5), (''PCOMP'', 7), (''ACCOMP'', 8), (''ASYNCMAP'', 2), (''QUALITY'', 4),
      (''FCSALTERN'', 9), (''SDP'', 10), (''NUMBERED'', 11), (''CALLBACK'', 13), (''MRRU'', 17), (''SSNHF'', 18), (''EPDISC'', 19),
      (''MPPLUS'', 22), (''COBS'', 25), (''PREFELIS'', 26), (''MPHDRFMT'', 27), (''I18N'', 28), (''SDL'', 29)]"

definition ipcp_names :: "(string \<times> u8) list" where
  "ipcp_names =
     [(''ADDR'', 3), (''ADDRS'', 1), (''COMPRESSTYPE'', 2), (''MS_DNS1'', 129), (''MS_DNS2'', 131), (''MS_WINS1'', 130), (''MS_WINS2'', 132)]"

definition ccp_names :: "(string \<times> u8) list" where
  "ccp_names =
     [(''MPPC'', 18), (''PREDICT1'', 1), (''PREDICT2'', 2), (''PUDDLE'', 3), (''HPPPC'', 16), (''SELZS'', 17), (''GFZA'', 19),
      (''V42C'', 20), (''BSD'', 21)]"

definition conf_names :: "(string \<times> u8) list" where
  "conf_names = [(''CONFREQ'', 1), (''CONFACK'', 2), (''CONFNAK'', 3), (''CONFREJ'', 4)]"

definition auth_names :: "(string \<times> u16) list" where
  "auth_names = [(''PAP'', 0xc023), (''CHAP'', 0xc223), (''EAP'', 0xc227)]"

definition mppe_letters :: "u32 \<Rightarrow> bytes" where
  "mppe_letters v = ascii '' [ '' @ concat (map (\<lambda>(c, n). ascii [if bit v n then CHR ''+'' else CHR ''-'', c, CHR '' ''])
     [(CHR ''H'', 24), (CHR ''M'', 7), (CHR ''S'', 6), (CHR ''L'', 5), (CHR ''D'', 4), (CHR ''C'', 0)]) @ ascii '']''"

lemma ascii_consts [simp]: "ascii [] = []" "ascii (c # s) = of_nat (of_char c) # ascii s"
  by (simp_all add: ascii_def)

text \<open>The tables of the code have the same names.\<close>

lemma code_names [simp]:
  "name_in lcp_names ty = sstp_lcp_getname ty" "name_in ipcp_names ty = sstp_ipcp_getname ty" "name_in ccp_names ty = sstp_ccp_getname ty"
  by (simp_all add: lcp_names_def ipcp_names_def ccp_names_def sstp_lcp_getname_def sstp_ipcp_getname_def sstp_ccp_getname_def word_unat_eq_iff)

lemma auth_names [simp]: "(case name_in auth_names v of None \<Rightarrow> ''UNKNOWN'' | Some n \<Rightarrow> n) = auth_name v"
  by (simp add: auth_names_def auth_name_def)

lemma conf_code:
  assumes "name_in conf_names code = Some cname"
  shows "code \<in> {1, 2, 3, 4}" "sstp_ppp_getcode code = Some cname"
  using assms by (auto simp: conf_names_def sstp_ppp_getcode_def split: if_splits)

lemma mppe_letters [simp]: "mppe_letters v = mppe_bits v"
proof -
  have b: "v AND 0x80 = 0 \<longleftrightarrow> \<not> bit v 7" "v AND 0x40 = 0 \<longleftrightarrow> \<not> bit v 6" "v AND 0x20 = 0 \<longleftrightarrow> \<not> bit v 5"
    "v AND 0x10 = 0 \<longleftrightarrow> \<not> bit v 4" "v AND 1 = 0 \<longleftrightarrow> \<not> bit v 0" "drop_bit 24 v AND 1 = 0 \<longleftrightarrow> \<not> bit v 24"
    using and_exp_eq_0_iff_not_bit [of v 7] and_exp_eq_0_iff_not_bit [of v 6] and_exp_eq_0_iff_not_bit [of v 5]
      and_exp_eq_0_iff_not_bit [of v 4] and_exp_eq_0_iff_not_bit [of v 0] and_exp_eq_0_iff_not_bit [of "drop_bit 24 v" 0]
    by (simp_all add: bit_drop_bit_eq)
  show ?thesis by (simp add: mppe_letters_def mppe_bits_def plus_minus_def b)
qed

definition lcp_text :: "u8 \<times> bytes \<Rightarrow> bytes" where
  "lcp_text a =
     (case name_in lcp_names (fst a) of
        None \<Rightarrow> []
      | Some name \<Rightarrow>
          let put = (\<lambda>t. [32] @ ascii name @ ascii '': '' @ t) in
          if fst a = CI_MRU \<or> fst a = CI_MRRU then put (show_int (sint (be_value (snd a))))
          else if fst a = CI_AUTH then put (ascii (case name_in auth_names (un16 (snd a ! 0) (snd a ! 1)) of None \<Rightarrow> ''UNKNOWN'' | Some n \<Rightarrow> n))
          else if fst a = CI_MAGIC then put (ascii ''0x'' @ hex_pad 8 (unat (be_value (snd a))))
          else if snd a = [] then [] else put (butlast (concat (map fmt_02X_sp (snd a)))))"

definition lcp_fits :: "u8 \<times> bytes \<Rightarrow> bool" where
  "lcp_fits a \<longleftrightarrow> length (snd a) \<le> 253 \<and> (fst a = CI_AUTH \<longrightarrow> 2 \<le> length (snd a))
     \<and> (name_in lcp_names (fst a) \<noteq> None \<and> fst a \<notin> {CI_MRU, CI_MRRU, CI_AUTH, CI_MAGIC} \<longrightarrow> length (snd a) \<le> 42)"

definition ccp_text :: "u8 \<times> bytes \<Rightarrow> bytes" where
  "ccp_text a =
     (case name_in ccp_names (fst a) of
        None \<Rightarrow> []
      | Some name \<Rightarrow> [32] @ ascii name @ (if fst a = CI_MPPC then mppe_letters (be_value (snd a)) else []))"

definition ccp_fits :: "u8 \<times> bytes \<Rightarrow> bool" where
  "ccp_fits a \<longleftrightarrow> length (snd a) \<le> 253"

definition ipcp_text :: "u8 \<times> bytes \<Rightarrow> bytes" where
  "ipcp_text a =
     (case name_in ipcp_names (fst a) of
        None \<Rightarrow> []
      | Some name \<Rightarrow> [32] @ ascii name @ ascii '': '' @
          (if fst a \<in> {CI_ADDR, CI_MS_DNS1, CI_MS_DNS2, CI_MS_WINS1, CI_MS_WINS2} then inet_ntoa (take 4 (snd a))
           else if fst a = CI_COMPRESSTYPE then
             (if un16 (snd a ! 0) (snd a ! 1) = 0x002d
              then ascii ''VJ [0x'' @ hex_pad 2 (unat (snd a ! 2)) @ ascii '' 0x'' @ hex_pad 2 (unat (snd a ! 3)) @ ascii '']''
              else if un16 (snd a ! 0) (snd a ! 1) = 0x0037 then ascii ''VJ-OLD'' else ascii ''UNKNOWN'')
           else butlast (concat (map fmt_0x02X_sp (snd a)))))"

definition ipcp_fits :: "u8 \<times> bytes \<Rightarrow> bool" where
  "ipcp_fits a \<longleftrightarrow> length (snd a) \<le> 253
     \<and> (fst a \<in> {CI_ADDR, CI_MS_DNS1, CI_MS_DNS2, CI_MS_WINS1, CI_MS_WINS2, CI_COMPRESSTYPE} \<longrightarrow> 4 \<le> length (snd a))
     \<and> (fst a = 1 \<longrightarrow> length (snd a) \<le> 25)"

lemma plus_minus_nz [printed]: "0 \<notin> set (plus_minus v)"
  by (simp add: plus_minus_def)

lemma auth_name_nz [printed]: "0 \<notin> set (ascii (auth_name v))"
  by (simp add: auth_name_def)

lemma mppe_bits_nz [printed]: "0 \<notin> set (mppe_bits v)"
  using plus_minus_nz by (simp add: mppe_bits_def)

lemma butlast_nz: "0 \<notin> set xs \<Longrightarrow> 0 \<notin> set (butlast xs)"
  by (auto dest: in_set_butlastD)

lemma hex_text_nz: "0 \<notin> set (butlast (concat (map fmt_02X_sp xs)))" "0 \<notin> set (butlast (concat (map fmt_0x02X_sp xs)))"
  by (rule butlast_nz, rule concat_nz, rule fmt_nz)+

lemma lcp_text_nz: "0 \<notin> set (lcp_text a)"
  using names_plain(2) [of "fst a"] hex_text_nz printed
  by (auto simp: lcp_text_def plain_text_def Let_def split: option.splits)

lemma ccp_text_nz: "0 \<notin> set (ccp_text a)"
  using names_plain(4) [of "fst a"] printed
  by (auto simp: ccp_text_def plain_text_def split: option.splits)

lemma ipcp_text_nz: "0 \<notin> set (ipcp_text a)"
  using names_plain(3) [of "fst a"] hex_text_nz printed
  by (auto simp: ipcp_text_def plain_text_def split: option.splits)

text \<open>The bytes of the payload in hexadecimal, without the last blank.\<close>

lemma bin2hex_string:
  assumes w: "\<And>b. length (fmt b) = w" "0 < w" "\<And>b. 0 \<notin> set (fmt b)"
    and d: "d = pre @ x @ post" "p = int (length pre)" "length x * w < n" "x \<noteq> []"
  shows "\<exists>hex hex'. sstp_bin2hex fmt (replicate n 0) (int n) d p (int (length x)) = Some (int (length x * w), hex)
    \<and> wr_n hex (int (length x * w) - 1) [0] = Some hex' \<and> cstring hex' = Some (butlast (concat (map fmt x)))
    \<and> cstring hex = Some (concat (map fmt x)) \<and> 0 < int (length x * w)"
proof -
  let ?t = "concat (map fmt x)"
  have lt: "length ?t = length x * w" by (induction x) (simp_all add: w(1))
  have pos: "0 < length x * w" using d(4) w(2) by simp
  then obtain t b where t: "?t = t @ [b]" "length t = length x * w - 1"
    using lt by (cases ?t rule: rev_cases) auto
  have nz: "0 \<notin> set ?t" by (rule concat_nz [OF w(3)])
  have h: "sstp_bin2hex fmt (replicate n 0) (int n) d p (int (length x))
      = Some (int (length x * w), ?t @ [0] @ drop (length x * w + 1) (replicate n 0))"
    using sstp_bin2hex_fits [OF w(1,2) d(1), of "replicate n 0"] d by simp
  have "wr_n (t @ [b] @ ([0] @ drop (length x * w + 1) (replicate n 0))) (int (length x * w) - 1) [0]
      = Some (t @ [0] @ ([0] @ drop (length x * w + 1) (replicate n 0)))"
    by (rule wr_n_split) (use t(2) pos in linarith, simp)
  moreover have "cstring (t @ [0] @ ([0] @ drop (length x * w + 1) (replicate n 0))) = Some (butlast ?t)"
    using cstring_zero [of t] nz t(1) by simp
  moreover have "cstring (?t @ [0] @ drop (length x * w + 1) (replicate n 0)) = Some ?t"
    using cstring_zero [OF nz] by simp
  ultimately show ?thesis using h pos t(1) by (intro exI conjI) auto
qed

lemma hex_sp_string:
  assumes "d = pre @ x @ post" "p = int (length pre)"
  shows "length x * 3 < 128 \<Longrightarrow> x \<noteq> [] \<Longrightarrow>
    \<exists>hex hex'. sstp_bin2hex fmt_02X_sp (replicate 128 0) 128 d p (int (length x)) = Some (int (length x * 3), hex)
      \<and> wr_n hex (int (length x * 3) - 1) [0] = Some hex' \<and> cstring hex' = Some (butlast (concat (map fmt_02X_sp x))) \<and> 0 < int (length x * 3)"
    and "length x * 5 < 128 \<Longrightarrow> x \<noteq> [] \<Longrightarrow>
    \<exists>hex hex'. sstp_bin2hex fmt_0x02X_sp (replicate 128 0) 128 d p (int (length x)) = Some (int (length x * 5), hex)
      \<and> wr_n hex (int (length x * 5) - 1) [0] = Some hex' \<and> cstring hex' = Some (butlast (concat (map fmt_0x02X_sp x))) \<and> 0 < int (length x * 5)"
  using bin2hex_string [of fmt_02X_sp 3 d pre x post p 128] bin2hex_string [of fmt_0x02X_sp 5 d pre x post p 128] assms fmt_nz
  by simp_all blast+

text \<open>Room for the text of an option in the array.\<close>

definition room :: "int \<Rightarrow> int \<Rightarrow> int \<Rightarrow> bytes \<Rightarrow> bytes \<Rightarrow> nat \<Rightarrow> bool" where
  "room base len off T rest n \<longleftrightarrow> base + off = int (length T) \<and> 0 \<le> base \<and> 0 \<le> off \<and> off + int n < len
     \<and> base + len \<le> int (length T + 1 + length rest)"

lemma str_add_room:
  "room base len off T rest (length t) \<Longrightarrow>
   sstp_str_add (T @ 0 # rest) base len off t = Some (int (length t), off + int (length t), (T @ t) @ 0 # drop (length t) rest)"
  unfolding room_def by (rule sstp_str_add_at) simp_all

lemma ccp_opt_prints:
  assumes "d = pre @ enc_option (ty, x) @ post" "opt = int (length pre)" "length x \<le> 253"
    and r: "room base len off T rest (length (ccp_text (ty, x)))"
  shows "ccp_opt d base len opt (off, T @ 0 # rest)
    = Some (False, off + int (length (ccp_text (ty, x))), (T @ ccp_text (ty, x)) @ 0 # drop (length (ccp_text (ty, x))) rest)"
proof (cases "sstp_ccp_getname ty")
  case None
  then show ?thesis by (simp add: ccp_opt_def rd_option(1) [OF assms(1,2)] ccp_text_def)
next
  case (Some name)
  note s = str_add_room [OF r]
  show ?thesis
  proof (cases "ty = CI_MPPC")
    case True
    then have "ccp_text (ty, x) = [32] @ ascii name @ mppe_bits (be_value x)" using Some by (simp add: ccp_text_def)
    then show ?thesis using True Some s opt2int_at [OF assms(1-3)] by (simp add: ccp_opt_def rd_option(1) [OF assms(1,2)])
  next
    case False
    then have "ccp_text (ty, x) = [32] @ ascii name" using Some by (simp add: ccp_text_def)
    then show ?thesis using False Some s by (simp add: ccp_opt_def rd_option(1) [OF assms(1,2)])
  qed
qed

interpretation ccp_opt: option_printer ccp_opt ccp_text ccp_fits
proof
  fix a :: "u8 \<times> bytes" and d pre post T rest :: bytes and opt base off len :: int
  assume "ccp_fits a" "d = pre @ enc_option a @ post" "opt = int (length pre)" "base + off = int (length T)" "0 \<le> base" "0 \<le> off"
    "off + int (length (ccp_text a)) < len" "base + len \<le> int (length T + 1 + length rest)"
  then show "ccp_opt d base len opt (off, T @ 0 # rest)
      = Some (False, off + int (length (ccp_text a)), (T @ ccp_text a) @ 0 # drop (length (ccp_text a)) rest)"
    by (cases a) (simp only:, rule ccp_opt_prints, auto simp: ccp_fits_def room_def)
qed (auto simp: ccp_fits_def ccp_text_nz)

lemma lcp_opt_prints:
  assumes "d = pre @ enc_option (ty, x) @ post" "opt = int (length pre)" "lcp_fits (ty, x)"
    and r: "room base len off T rest (length (lcp_text (ty, x)))"
  shows "lcp_opt d base len opt (off, T @ 0 # rest)
    = Some (False, off + int (length (lcp_text (ty, x))), (T @ lcp_text (ty, x)) @ 0 # drop (length (lcp_text (ty, x))) rest)"
proof (cases "sstp_lcp_getname ty")
  case None
  then show ?thesis by (simp add: lcp_opt_def rd_option(1) [OF assms(1,2)] lcp_text_def)
next
  case (Some name)
  have len: "length x \<le> 253" using assms(3) by (simp add: lcp_fits_def)
  have s: "sstp_str_add (T @ 0 # rest) base len off ([32] @ ascii name @ ascii '': '' @ t)
      = Some (int (length (lcp_text (ty, x))), off + int (length (lcp_text (ty, x))),
          (T @ lcp_text (ty, x)) @ 0 # drop (length (lcp_text (ty, x))) rest)"
    if "lcp_text (ty, x) = [32] @ ascii name @ ascii '': '' @ t" for t
    using str_add_room [OF r] unfolding that .
  note go = lcp_opt_def rd_option(1) [OF assms(1,2)] Some
  consider "ty = CI_MRU \<or> ty = CI_MRRU" | "ty = CI_AUTH" | "ty = CI_MAGIC" | "ty \<notin> {CI_MRU, CI_MRRU, CI_AUTH, CI_MAGIC}" by auto
  then show ?thesis
  proof cases
    case 1
    have "lcp_text (ty, x) = [32] @ ascii name @ ascii '': '' @ show_int (sint (be_value x))"
      using 1 Some by (simp add: lcp_text_def Let_def)
    from s [OF this] show ?thesis using 1 opt2int_at [OF assms(1,2) len] by (simp add: go Let_def)
  next
    case 2
    have "rd16 d (opt + 2) = Some (un16 (x ! 0) (x ! 1))"
      by (rule rd16_option [OF assms(1,2)]) (use assms(3) 2 in \<open>simp add: lcp_fits_def\<close>)
    moreover have "lcp_text (ty, x) = [32] @ ascii name @ ascii '': '' @ ascii (auth_name (un16 (x ! 0) (x ! 1)))"
      using 2 Some by (simp add: lcp_text_def Let_def)
    moreover note s [OF this]
    ultimately show ?thesis using Some unfolding 2 by (simp add: go [unfolded 2] Let_def)
  next
    case 3
    have "lcp_text (ty, x) = [32] @ ascii name @ ascii '': '' @ (ascii ''0x'' @ hex_pad 8 (unat (be_value x)))"
      using 3 Some by (simp add: lcp_text_def Let_def)
    from s [OF this] show ?thesis using Some opt2int_at [OF assms(1,2) len] unfolding 3 by (simp add: go [unfolded 3] Let_def)
  next
    case 4
    note n = optlen_at [OF assms(1,2) len]
    show ?thesis
    proof (cases "x = []")
      case True
      then show ?thesis using 4 n Some by (simp add: go Let_def sstp_bin2hex_def lcp_text_def)
    next
      case False
      have "d = (pre @ [ty, of_nat (length x + 2)]) @ x @ post" using assms(1) by (simp add: enc_option_def)
      moreover have "sstp_ppp_optptr opt = int (length (pre @ [ty, of_nat (length x + 2)]))" using assms(2) by (simp add: sstp_ppp_optptr_def)
      moreover have "length x * 3 < 128" using assms(3) 4 Some by (auto simp: lcp_fits_def)
      ultimately obtain hex hex' where h: "sstp_bin2hex fmt_02X_sp (replicate 128 0) 128 d (sstp_ppp_optptr opt) (int (length x)) = Some (int (length x * 3), hex)"
        "wr_n hex (int (length x * 3) - 1) [0] = Some hex'" "cstring hex' = Some (butlast (concat (map fmt_02X_sp x)))" "0 < int (length x * 3)"
        using hex_sp_string(1) [OF _ _ _ False] by blast
      have "lcp_text (ty, x) = [32] @ ascii name @ ascii '': '' @ butlast (concat (map fmt_02X_sp x))"
        using 4 Some False by (simp add: lcp_text_def Let_def)
      from s [OF this] show ?thesis using 4 n h by (simp add: go Let_def)
    qed
  qed
qed

interpretation lcp_opt: option_printer lcp_opt lcp_text lcp_fits
proof
  fix a :: "u8 \<times> bytes" and d pre post T rest :: bytes and opt base off len :: int
  assume "lcp_fits a" "d = pre @ enc_option a @ post" "opt = int (length pre)" "base + off = int (length T)" "0 \<le> base" "0 \<le> off"
    "off + int (length (lcp_text a)) < len" "base + len \<le> int (length T + 1 + length rest)"
  then show "lcp_opt d base len opt (off, T @ 0 # rest)
      = Some (False, off + int (length (lcp_text a)), (T @ lcp_text a) @ 0 # drop (length (lcp_text a)) rest)"
    by (cases a) (simp only:, rule lcp_opt_prints, auto simp: room_def)
qed (auto simp: lcp_fits_def lcp_text_nz)

lemma ipcp_value_at:
  assumes d: "d = pre @ enc_option (ty, x) @ post" "opt = int (length pre)" and f: "ipcp_fits (ty, x)"
    and n: "sstp_ipcp_getname ty = Some name"
  shows "\<exists>t. ipcp_value d opt ty = Some t \<and> ipcp_text (ty, x) = [32] @ ascii name @ ascii '': '' @ t"
proof -
  have len: "length x \<le> 253" using f by (simp add: ipcp_fits_def)
  have dx: "d = (pre @ [ty, of_nat (length x + 2)]) @ x @ post" using d(1) by (simp add: enc_option_def)
  have ptr: "sstp_ppp_optptr opt = int (length (pre @ [ty, of_nat (length x + 2)]))" using d(2) by (simp add: sstp_ppp_optptr_def)
  consider "ty \<in> {CI_ADDR, CI_MS_DNS1, CI_MS_DNS2, CI_MS_WINS1, CI_MS_WINS2}" | "ty = CI_COMPRESSTYPE"
    | "ty \<notin> {CI_ADDR, CI_MS_DNS1, CI_MS_DNS2, CI_MS_WINS1, CI_MS_WINS2, CI_COMPRESSTYPE}" by blast
  then show ?thesis
  proof cases
    case 1
    then have "4 \<le> length x" using f by (auto simp: ipcp_fits_def)
    then have "rd_n d (sstp_ppp_optptr opt) 4 = Some (take 4 x)"
      unfolding dx using rd_n_mid [OF ptr, of 4] by simp
    then show ?thesis using 1 n by (auto simp: ipcp_value_def ipcp_text_def)
  next
    case 2
    then have l: "4 \<le> length x" using f by (auto simp: ipcp_fits_def)
    have "rd16 d (opt + 2) = Some (un16 (x ! 0) (x ! 1))" by (rule rd16_option [OF d]) (use l in simp)
    moreover have "rd d (opt + 2 + 2) = Some (x ! 2)" "rd d (opt + 2 + 3) = Some (x ! 3)"
      using rd_option(3) [OF d, of 2] rd_option(3) [OF d, of 3] l by simp_all
    ultimately show ?thesis using 2 n by (simp add: ipcp_value_def ipcp_text_def sstp_ppp_optptr_def)
  next
    case 3
    then have ty: "ty = 1"
      using n by (auto simp: sstp_ipcp_getname_def word_unat_eq_iff split: if_splits)
    show ?thesis
    proof (cases "x = []")
      case True
      have "cstring (replicate 128 0) = Some []" by (simp add: cstring_def takeWhile_replicate)
      then show ?thesis using True 3 n optlen_at [OF d len] by (simp add: ipcp_value_def sstp_bin2hex_def ipcp_text_def)
    next
      case False
      have "length x * 5 < 128" using f ty by (simp add: ipcp_fits_def)
      then obtain hex hex' where h: "sstp_bin2hex fmt_0x02X_sp (replicate 128 0) 128 d (sstp_ppp_optptr opt) (int (length x)) = Some (int (length x * 5), hex)"
        "wr_n hex (int (length x * 5) - 1) [0] = Some hex'" "cstring hex' = Some (butlast (concat (map fmt_0x02X_sp x)))" "0 < int (length x * 5)"
        using hex_sp_string(2) [OF dx ptr _ False] by blast
      then show ?thesis using 3 n optlen_at [OF d len] by (simp add: ipcp_value_def ipcp_text_def)
    qed
  qed
qed

lemma ipcp_opt_prints:
  assumes "d = pre @ enc_option (ty, x) @ post" "opt = int (length pre)" "ipcp_fits (ty, x)"
    and r: "room base len off T rest (length (ipcp_text (ty, x)))"
  shows "ipcp_opt d base len opt (off, T @ 0 # rest)
    = Some (False, off + int (length (ipcp_text (ty, x))), (T @ ipcp_text (ty, x)) @ 0 # drop (length (ipcp_text (ty, x))) rest)"
proof (cases "sstp_ipcp_getname ty")
  case None
  then show ?thesis by (simp add: ipcp_opt_def rd_option(1) [OF assms(1,2)] ipcp_text_def)
next
  case (Some name)
  obtain t where t: "ipcp_value d opt ty = Some t" "ipcp_text (ty, x) = [32] @ ascii name @ ascii '': '' @ t"
    using ipcp_value_at [OF assms(1-3) Some] by blast
  show ?thesis using str_add_room [OF r] t Some by (simp add: ipcp_opt_def rd_option(1) [OF assms(1,2)])
qed

interpretation ipcp_opt: option_printer ipcp_opt ipcp_text ipcp_fits
proof
  fix a :: "u8 \<times> bytes" and d pre post T rest :: bytes and opt base off len :: int
  assume "ipcp_fits a" "d = pre @ enc_option a @ post" "opt = int (length pre)" "base + off = int (length T)" "0 \<le> base" "0 \<le> off"
    "off + int (length (ipcp_text a)) < len" "base + len \<le> int (length T + 1 + length rest)"
  then show "ipcp_opt d base len opt (off, T @ 0 # rest)
      = Some (False, off + int (length (ipcp_text a)), (T @ ipcp_text a) @ 0 # drop (length (ipcp_text a)) rest)"
    by (cases a) (simp only:, rule ipcp_opt_prints, auto simp: room_def)
qed (auto simp: ipcp_fits_def ipcp_text_nz)

section \<open>Configuration packets\<close>

definition enc_conf :: "u8 \<Rightarrow> u8 \<Rightarrow> (u8 \<times> bytes) list \<Rightarrow> bytes" where
  "enc_conf code i as =
     [code, i] @ be16 (of_nat (4 + length (concat (map enc_option as)))) @ concat (map enc_option as)"

text \<open>The protocols whose packets carry options, with the text of one option and the options it is the text of.\<close>

definition conf_protocols :: "(u16 \<times> string \<times> (u8 \<times> bytes \<Rightarrow> bytes) \<times> (u8 \<times> bytes \<Rightarrow> bool)) list" where
  "conf_protocols =
     [(0xc021, ''LCP'', lcp_text, lcp_fits), (0x8021, ''IPCP'', ipcp_text, ipcp_fits), (0x80fd, ''CCP'', ccp_text, ccp_fits)]"

text \<open>The options behind the name of the code, as the three functions print them.\<close>

context option_printer
begin

lemma conf_prints:
  assumes d: "d = pre @ enc_conf code i as @ post" and as: "list_all fits as" "length (concat (map enc_option as)) \<le> 65531"
    and n: "length t + length (option_texts text_of as) < 1024" and pkt: "pkt = int (length pre)"
  shows "\<exists>m rest. sstp_str_add (replicate 1024 0) 0 1024 0 t = Some (int (length t), int (length t), m)
    \<and> do { n \<leftarrow> sstp_ppp_data_len d pkt;
         (stop, off, m) \<leftarrow> opt_loop (body d (int (length t)) (1024 - int (length t))) d n 0 (sstp_ppp_data pkt) (0, m);
         Some (if stop then -1 else off, m) }
      = Some (int (length (option_texts text_of as)), (t @ option_texts text_of as) @ 0 # rest)"
proof -
  let ?m = "([] @ t) @ 0 # drop (length t) (replicate 1023 0)"
  have r: "replicate 1024 0 = [] @ (0::u8) # replicate 1023 0" by (simp add: numeral_eq_Suc)
  have s: "sstp_str_add ([] @ 0 # replicate 1023 0) 0 1024 0 t = Some (int (length t), 0 + int (length t), ?m)"
    by (rule sstp_str_add_at) (use n in simp_all)
  have "do { n \<leftarrow> sstp_ppp_data_len d pkt;
         (stop, off, m) \<leftarrow> opt_loop (body d (int (length t)) (1024 - int (length t))) d n 0 (sstp_ppp_data pkt) (0, t @ 0 # drop (length t) (replicate 1023 0));
         Some (if stop then -1 else off, m) }
      = Some (int (length (option_texts text_of as)), (t @ option_texts text_of as) @ 0 # drop (length (option_texts text_of as)) (drop (length t) (replicate 1023 0)))"
    by (rule opts_print [OF as(1) _ as(2) pkt]) (use d n in \<open>auto simp: enc_conf_def\<close>)
  then show ?thesis using s unfolding r by auto
qed

end

lemma rd_conf:
  assumes "d = pre @ enc_conf code i as @ post" "pkt = int (length pre)"
  shows "rd d pkt = Some code" "rd d (pkt + 1) = Some i"
    and "rd16 d (pkt + 2) = Some (of_nat (4 + length (concat (map enc_option as))))"
  using rd_mid [of 0 "enc_conf code i as" pkt pre post] rd_mid [of 1 "enc_conf code i as" "pkt + 1" pre post]
    rd16_split [of "pkt + 2" "pre @ [code, i]" "of_nat (4 + length (concat (map enc_option as)))" "concat (map enc_option as) @ post"] assms
  by (simp_all add: enc_conf_def)

text \<open>A protocol with such options: what its entry in the table of handlers does with a configuration packet.\<close>

locale conf_printer = option_printer +
  fixes opts :: "bytes \<Rightarrow> int \<Rightarrow> bytes \<Rightarrow> int \<Rightarrow> int \<Rightarrow> (int \<times> bytes) option"
    and f :: dumper and proto :: u16 and name :: string
  assumes opts: "opts d pkt m base len = do {
       n \<leftarrow> sstp_ppp_data_len d pkt;
       (stop, off, m) \<leftarrow> opt_loop (body d base len) d n 0 (sstp_ppp_data pkt) (0, m);
       Some (if stop then -1 else off, m) }"
    and handler: "sstp_ppp_handler proto = Some (name, Some f)"
    and dumper: "rd d pkt = Some code \<Longrightarrow> code \<in> {1, 2, 3, 4} \<Longrightarrow> sstp_ppp_getcode code = Some cname \<Longrightarrow>
      run_dumper f d pkt m base len = do {
        (ret, off, m) \<leftarrow> sstp_str_add m base len 0 ([32] @ ascii cname);
        if ret < 0 then Some (-1, m)
        else do { r \<leftarrow> opts d pkt m (base + off) (len - off); Some (after_opts off r) } }"
begin

lemma conf_dumped:
  assumes c: "code \<in> {1, 2, 3, 4}" "sstp_ppp_getcode code = Some cname"
    and d: "d = pre @ enc_conf code i as @ post" and as: "list_all fits as" "length (concat (map enc_option as)) \<le> 65531"
    and n: "length cname + 1 + length (option_texts text_of as) < 1024" and pkt: "pkt = int (length pre)"
  shows "\<exists>f rest. sstp_ppp_handler proto = Some (name, Some f)
    \<and> run_dumper f d pkt (replicate 1024 0) 0 1024
      = Some (int (length cname + 1 + length (option_texts text_of as)), ([32] @ ascii cname @ option_texts text_of as) @ 0 # rest)"
proof -
  have la: "length (ascii cname) = length cname" by (simp add: ascii_def)
  have "length ([32] @ ascii cname) + length (option_texts text_of as) < 1024" using n la by simp
  from conf_prints [OF d as this pkt] obtain m rest where
    "sstp_str_add (replicate 1024 0) 0 1024 0 ([32] @ ascii cname) = Some (int (length ([32] @ ascii cname)), int (length ([32] @ ascii cname)), m)"
    "opts d pkt m (int (length ([32] @ ascii cname))) (1024 - int (length ([32] @ ascii cname)))
      = Some (int (length (option_texts text_of as)), (([32] @ ascii cname) @ option_texts text_of as) @ 0 # rest)"
    unfolding opts by blast
  then show ?thesis using handler la by (auto simp: dumper [OF rd_conf(1) [OF d pkt] c] after_opts_def)
qed

end

interpretation lcp: conf_printer lcp_opt lcp_text lcp_fits sstp_lcp_opts Sstp_dump_lcp "0xc021" "''LCP''"
  by unfold_locales (auto simp: sstp_lcp_opts_def sstp_ppp_handler_def run_dumper_def sstp_dump_lcp_def cong: if_cong)

interpretation ipcp: conf_printer ipcp_opt ipcp_text ipcp_fits sstp_ipcp_opts Sstp_dump_ipcp "0x8021" "''IPCP''"
  by unfold_locales (auto simp: sstp_ipcp_opts_def sstp_ppp_handler_def run_dumper_def sstp_dump_ipcp_def cong: if_cong)

interpretation ccp: conf_printer ccp_opt ccp_text ccp_fits sstp_ccp_opts Sstp_dump_ccp "0x80fd" "''CCP''"
  by unfold_locales (auto simp: sstp_ccp_opts_def sstp_ppp_handler_def run_dumper_def sstp_dump_ccp_def cong: if_cong)

lemma run_dumper_conf:
  assumes "(proto, name, text_of, fits) \<in> set conf_protocols" and "code \<in> {1, 2, 3, 4}" "sstp_ppp_getcode code = Some cname"
    and "d = pre @ enc_conf code i as @ post" "list_all fits as" "length (concat (map enc_option as)) \<le> 65531"
    and "length cname + 1 + length (option_texts text_of as) < 1024" "pkt = int (length pre)"
  shows "\<exists>f rest. sstp_ppp_handler proto = Some (name, Some f)
    \<and> run_dumper f d pkt (replicate 1024 0) 0 1024
      = Some (int (length cname + 1 + length (option_texts text_of as)), ([32] @ ascii cname @ option_texts text_of as) @ 0 # rest)"
  using assms lcp.conf_dumped [of code cname d pre i as post pkt] ipcp.conf_dumped [of code cname d pre i as post pkt]
    ccp.conf_dumped [of code cname d pre i as post pkt]
  unfolding conf_protocols_def by auto

section \<open>Frames and packets\<close>

definition enc_data :: "bytes \<Rightarrow> bytes" where
  "enc_data body = [SSTP_PROTO_VER, 0] @ be16 (of_nat (4 + length body)) @ body"

lemma ascii_nz: "plain_text s \<Longrightarrow> 0 \<notin> set (ascii s)"
  by (simp add: plain_text_def)

lemma conf_text_nz:
  assumes "(proto, name, text_of, fits) \<in> set conf_protocols"
  shows "0 \<notin> set (option_texts text_of as)"
  using assms lcp_opt.option_texts_nz ipcp_opt.option_texts_nz ccp_opt.option_texts_nz
  by (auto simp: conf_protocols_def)

lemma conf_proto_byte:
  assumes "(proto, name, text_of, fits) \<in> set conf_protocols"
  shows "\<exists>a b. be16 proto = [a, b] \<and> a \<noteq> 0xff"
  using assms by (auto simp: conf_protocols_def be16_def)

lemma sstp_dump_ppp_conf:
  assumes p: "(proto, name, text_of, fits) \<in> set conf_protocols" and c: "code \<in> {1, 2, 3, 4}" "sstp_ppp_getcode code = Some cname"
    and as: "list_all fits as" "length (concat (map enc_option as)) \<le> 65000"
    and n: "length cname + 1 + length (option_texts text_of as) < 1024"
    and d: "d = pre @ hdlc @ be16 proto @ enc_conf code i as @ post" and h: "hdlc \<in> {[], [0xff, 0x03]}" and b: "buf = int (length pre)"
    and len: "len = int (length (hdlc @ be16 proto @ enc_conf code i as))"
  shows "sstp_dump_ppp d buf len
    = Some (0, [ascii ''  PPP '' @ ascii name @ ascii '' ID: '' @ show_int (uint i) @ [32, 32] @ ascii cname @ option_texts text_of as])"
proof -
  let ?e = "length (concat (map enc_option as))"
  let ?pre = "pre @ hdlc @ be16 proto"
  obtain a b' where ab: "be16 proto = [a, b']" "a \<noteq> 0xff" using conf_proto_byte [OF p] by blast
  have dd: "d = ?pre @ enc_conf code i as @ post" using d by simp
  obtain f rest where f: "sstp_ppp_handler proto = Some (name, Some f)"
    "run_dumper f d (int (length ?pre)) (replicate 1024 0) 0 1024
      = Some (int (length cname + 1 + length (option_texts text_of as)), ([32] @ ascii cname @ option_texts text_of as) @ 0 # rest)"
    using run_dumper_conf [OF p c dd as(1) _ n refl] as(2) by auto
  have rp: "rd16 d (int (length (pre @ hdlc))) = Some proto" using d rd16_split [of _ "pre @ hdlc" proto] by simp
  have pl: "rd16 d (int (length ?pre) + 2) = Some (of_nat (4 + ?e))" by (rule rd_conf(3) [OF dd refl])
  have ri: "rd d (int (length ?pre) + 1) = Some i" by (rule rd_conf(2) [OF dd refl])
  have u: "uint (of_nat (4 + ?e) :: u16) = 4 + int ?e"
    using as(2) by (simp add: unsigned_of_nat take_bit_nat_eq_self del: of_nat_add)
  have nz: "0 \<notin> set ([32] @ ascii cname @ option_texts text_of as)"
    using names_plain(1) [OF c(2)] conf_text_nz [OF p, of as] by (simp add: plain_text_def)
  note cs = cstring_zero [OF nz, of rest]
  have le: "length (enc_conf code i as) = 4 + ?e" by (simp add: enc_conf_def)
  from h show ?thesis
  proof (cases "hdlc = []")
    case True
    have "rd d buf = Some a" using d b ab True rd_mid [of 0 "[a, b']" buf pre "enc_conf code i as @ post"] by simp
    moreover have P: "int (length ?pre) = buf + 2" "int (length (pre @ hdlc)) = buf" using True b by simp_all
    ultimately show ?thesis
      using f [unfolded P] rp [unfolded P] pl [unfolded P] ri [unfolded P] u cs ab(2) True len le
      by (simp add: sstp_dump_ppp_def Let_def)
  next
    case False
    then have hd: "hdlc = [0xff, 0x03]" using h by simp
    have "rd d buf = Some 0xff" "rd d (buf + 1) = Some 0x03"
      using d b hd rd_mid [of 0 "[0xff, 0x03]" buf pre "be16 proto @ enc_conf code i as @ post"]
        rd_mid [of 1 "[0xff, 0x03]" "buf + 1" pre "be16 proto @ enc_conf code i as @ post"] by simp_all
    moreover have P: "int (length ?pre) = buf + 2 + 2" "int (length (pre @ hdlc)) = buf + 2" using hd b by simp_all
    ultimately show ?thesis
      using f [unfolded P] rp [unfolded P] pl [unfolded P] ri [unfolded P] u cs hd len le as(2)
      by (simp add: sstp_dump_ppp_def Let_def)
  qed
qed

definition dump_head :: "sstp_direction \<Rightarrow> string \<Rightarrow> nat \<Rightarrow> bytes" where
  "dump_head dir kind n =
     ascii (if dir = SSTP_DIR_RECV then ''RECV'' else ''SEND'') @ ascii '' SSTP '' @ ascii kind @ ascii '' PKT('' @ show_int (int n) @ ascii '') ''"

lemma rd_enc_data:
  assumes "b_data buf = enc_data body @ free" "length body \<le> 65531"
  shows "rd (b_data buf) 1 = Some 0" "rd16 (b_data buf) 2 = Some (of_nat (4 + length body))"
    and "uint (of_nat (4 + length body) :: u16) = int (4 + length body)"
  using assms rd16_split [of 2 "[SSTP_PROTO_VER, 0]" "of_nat (4 + length body)" "body @ free"]
  by (simp_all add: enc_data_def rd_def unsigned_of_nat take_bit_nat_eq_self del: of_nat_add)

section \<open>The bytes of the message\<close>

definition hex_value :: "u8 \<Rightarrow> nat option" where
  "hex_value c =
     (if 48 \<le> c \<and> c \<le> 57 then Some (unat c - 48) else if 65 \<le> c \<and> c \<le> 70 then Some (unat c - 55) else None)"

fun unhex :: "bytes \<Rightarrow> bytes option" where
  "unhex [] = Some []"
| "unhex (z # x # h # l # sp # r) =
     (if z = 48 \<and> x = 120 \<and> sp = 32 then do {
        a \<leftarrow> hex_value h; b \<leftarrow> hex_value l; bs \<leftarrow> unhex r; Some (of_nat (16 * a + b) # bs) }
      else None)"
| "unhex _ = None"

text \<open>Reading the dump back.\<close>

primrec undump :: "bytes list \<Rightarrow> bytes option" where
  "undump [] = Some []"
| "undump (l # ls) = do { a \<leftarrow> unhex (drop 2 l); b \<leftarrow> undump ls; Some (a @ b) }"

lemma hex_value_digit: "n < 16 \<Longrightarrow> hex_value (hex_digit n) = Some n"
proof -
  assume n: "n < 16"
  have u: "unat (of_nat (48 + n) :: u8) = 48 + n" "unat (of_nat (55 + n) :: u8) = 55 + n"
    using unat_u8 [of "48 + n"] unat_u8 [of "55 + n"] n by simp_all
  show ?thesis using u n by (auto simp: hex_value_def hex_digit_def word_le_nat_alt)
qed

lemma unhex_fmt: "unhex (fmt_0x02X_sp b @ r) = map_option ((#) b) (unhex r)"
proof -
  have b: "unat b < 256" using unsigned_less [of b] by simp
  then have "hex_value (hex_digit (unat b div 16)) = Some (unat b div 16)" "hex_value (hex_digit (unat b mod 16)) = Some (unat b mod 16)"
    by (simp_all add: hex_value_digit)
  moreover have "(of_nat (16 * (unat b div 16) + unat b mod 16) :: u8) = b" by (simp only: mult_div_mod_eq of_nat_unat ucast_id)
  then have "16 * (of_nat (unat b div 16) :: u8) + of_nat (unat b mod 16) = b"
    unfolding of_nat_add of_nat_mult by simp
  ultimately show ?thesis by (cases "unhex r") (simp_all add: fmt_0x02X_sp_def hex_pad_byte)
qed

interpretation hexdump: codec "\<lambda>x. concat (map fmt_0x02X_sp x)" unhex "\<lambda>_. True"
proof
  show "unhex (concat (map fmt_0x02X_sp x)) = Some x" for x
    by (induction x) (simp_all add: unhex_fmt)
qed

lemma hex_lines_undump:
  "d = pre @ xs @ post \<Longrightarrow> idx = int (length pre) \<Longrightarrow> n = idx + int (length xs) \<Longrightarrow>
   \<exists>ls. hex_lines d n idx = Some ls \<and> undump ls = Some xs"
proof (induction "length xs" arbitrary: xs pre idx rule: less_induct)
  case less
  show ?case
  proof (cases "xs = []")
    case True
    then show ?thesis using less.prems by (simp add: hex_lines.simps)
  next
    case False
    let ?a = "take 16 xs" and ?b = "drop 16 xs"
    have d: "d = pre @ ?a @ (?b @ post)" using less.prems(1) by simp
    have a: "?a \<noteq> []" "length ?a * 5 < 96" using False by simp_all
    have m: "min (n - idx) 16 = int (length ?a)" using less.prems(3) by simp
    obtain hex where h: "sstp_bin2hex fmt_0x02X_sp (replicate 96 0) 96 d idx (min (n - idx) 16) = Some (int (length ?a * 5), hex)"
      "cstring hex = Some (concat (map fmt_0x02X_sp ?a))" "0 < int (length ?a * 5)"
      using bin2hex_string [of fmt_0x02X_sp 5 d pre ?a "?b @ post" idx 96, OF _ _ _ d less.prems(2) a(2,1)] fmt_nz(3)
      unfolding m by auto
    obtain ls where ls: "hex_lines d n (idx + 16) = Some ls" "undump ls = Some ?b"
    proof (cases "16 < length xs")
      case True
      have "\<exists>ls. hex_lines d n (idx + 16) = Some ls \<and> undump ls = Some ?b"
        by (rule less.hyps [of _ "pre @ ?a"]) (use True d less.prems in \<open>auto simp: min_def\<close>)
      then show ?thesis using that by blast
    next
      case False
      then have "hex_lines d n (idx + 16) = Some []" using less.prems(3) by (simp add: hex_lines.simps)
      then show ?thesis using that False by simp
    qed
    have "hex_lines d n idx = Some ((ascii ''  '' @ concat (map fmt_0x02X_sp ?a)) # ls)"
      using h ls(1) less.prems(3) False by (subst hex_lines.simps) (auto simp: less.prems)
    moreover have "undump ((ascii ''  '' @ concat (map fmt_0x02X_sp ?a)) # ls) = Some xs"
      using ls(2) hexdump.dec_enc [of ?a] by simp
    ultimately show ?thesis by blast
  qed
qed

section \<open>What the dump says\<close>

text \<open>The lines for the attributes of a control message.\<close>

definition attr_line :: "sstp_attr_t \<times> bytes \<Rightarrow> bytes" where
  "attr_line a =
     ascii ''    '' @ ascii (the (sstp_attr_type (of_nat (attr_code (fst a))))) @ ascii ''('' @ show_int (int (attr_code (fst a)))
     @ ascii ''): '' @ show_int (int (length (snd a) + 4))"

definition type_line :: "sstp_msg_t \<Rightarrow> nat \<Rightarrow> bytes" where
  "type_line ty n =
     ascii ''  TYPE('' @ show_int (uint (msg_code ty)) @ ascii ''): '' @ ascii (the (sstp_msg_type (msg_code ty)))
     @ ascii '', ATTR('' @ show_int (int n) @ ascii ''):''"

lemma sstp_msg_type_code: "ty \<noteq> SSTP_MSG_DATA \<Longrightarrow> \<exists>name. sstp_msg_type (msg_code ty) = Some name"
  by (cases ty) (simp_all add: sstp_msg_type_def)

lemma dump_one_attr:
  assumes "d = pre @ enc_attr (t, x) @ post" "length x < 65532" "index = int (length pre)"
  shows "dump_attrs d (Suc 0) index = Some (False, [attr_line (t, x)])"
proof -
  have e: "d = (pre @ [0, of_nat (attr_code t)]) @ be16 (of_nat (length x + 4)) @ x @ post" using assms(1) by (simp add: enc_attr_def)
  have l: "rd16 d (index + 2) = Some (of_nat (length x + 4))" unfolding e by (rule rd16_split) (simp add: assms(3))
  have u: "uint (of_nat (length x + 4) :: u16) = int (length x + 4)"
    using assms(2) by (simp add: unsigned_of_nat take_bit_nat_eq_self del: of_nat_add)
  have ty: "rd d (index + 1) = Some (of_nat (attr_code t))"
    using rd_mid [of 1 "enc_attr (t, x)" "index + 1" pre post] assms by (simp add: enc_attr_def)
  show ?thesis using l ty u by (cases t) (simp_all add: attr_line_def SSTP_ATTR_MAX_def sstp_attr_type_def)
qed

lemma ctrl_dump:
  assumes "holds buf (enc_ctrl ty as)" "ty \<noteq> SSTP_MSG_DATA" "length as \<le> 1" "length (enc_ctrl ty as) < 65536"
  shows "\<exists>hex. sstp_pkt_dump SSTP_LOG_DUMP dir buf
      = Some ([dump_head dir ''CRTL'' (length (enc_ctrl ty as)), type_line ty (length as)] @ map attr_line as @ hex)
    \<and> undump hex = Some (enc_ctrl ty as)"
proof -
  let ?m = "enc_ctrl ty as"
  obtain free where d: "b_data buf = ?m @ free" using assms(1) by (auto simp: holds_iff)
  have fl: "rd (b_data buf) 1 = Some SSTP_MSG_FLAG_CTRL" unfolding d by (rule rd_1_enc_ctrl)
  have na: "rd16 (b_data buf) 6 = Some (of_nat (length as))" unfolding d by (rule rd16_nattr)
  have pl: "rd16 (b_data buf) 2 = Some (of_nat (length ?m))"
    using rd16_split [of 2 "[SSTP_PROTO_VER, SSTP_MSG_FLAG_CTRL]" "of_nat (8 + length (enc_attrs as))"
        "be16 (msg_code ty) @ be16 (of_nat (length as)) @ enc_attrs as @ free"]
    unfolding d length_enc_ctrl by (simp add: enc_ctrl_def)
  have ty: "rd16 (b_data buf) 4 = Some (msg_code ty)"
    using rd16_split [of 4 "[SSTP_PROTO_VER, SSTP_MSG_FLAG_CTRL] @ be16 (of_nat (8 + length (enc_attrs as)))" "msg_code ty"
        "be16 (of_nat (length as)) @ enc_attrs as @ free"]
    unfolding d by (simp add: enc_ctrl_def)
  have u: "uint (of_nat (length ?m) :: u16) = int (length ?m)"
    using assms(4) by (simp add: unsigned_of_nat take_bit_nat_eq_self)
  have ua: "unat (of_nat (length as) :: u16) = length as" "uint (of_nat (length as) :: u16) = int (length as)"
    using assms(3) by (simp_all add: unsigned_of_nat take_bit_nat_eq_self)
  have at: "dump_attrs (b_data buf) (length as) 8 = Some (False, map attr_line as)"
  proof (cases as)
    case (Cons a as')
    then obtain t x where a: "as = [(t, x)]" using assms(3) by (cases a) auto
    have "length x < 65532" using assms(4) by (simp add: a enc_ctrl_def enc_attrs_def enc_attr_def)
    then have "dump_attrs (b_data buf) (Suc 0) 8 = Some (False, [attr_line (t, x)])"
      using d dump_one_attr [of "b_data buf" "take 8 ?m" t x free 8] by (simp add: a enc_ctrl_def enc_attrs_def be16_def)
    then show ?thesis using a by simp
  qed simp
  obtain hex where h: "hex_lines (b_data buf) (int (length ?m)) 0 = Some hex" "undump hex = Some ?m"
    using hex_lines_undump [of "b_data buf" "[]" ?m free 0 "int (length ?m)"] d by auto
  obtain name where nm: "sstp_msg_type (msg_code ty) = Some name" using sstp_msg_type_code [OF assms(2)] by blast
  have "SSTP_MSG_FLAG_CTRL AND SSTP_MSG_FLAG_CTRL \<noteq> 0" by (simp add: SSTP_MSG_FLAG_CTRL_def)
  then have "sstp_pkt_dump SSTP_LOG_DUMP dir buf
      = Some ([dump_head dir ''CRTL'' (length ?m), type_line ty (length as)] @ map attr_line as @ hex)"
    using fl na pl ty u ua at h(1) nm
    by (simp add: sstp_pkt_dump_def Let_def dump_head_def type_line_def del: ascii_consts)
  then show ?thesis using h(2) by blast
qed

text \<open>Where the dump leaves its arrays.\<close>

text \<open>An option of 43 bytes without a format of its own: its text passes the end of the array of 128.\<close>

lemma lcp_opt_overrun:
  assumes "d = pre @ enc_option (ty, x) @ post" "opt = int (length pre)" "length x \<le> 253" "43 \<le> length x"
    and "sstp_lcp_getname ty = Some name" "ty \<notin> {CI_MRU, CI_MRRU, CI_AUTH, CI_MAGIC}"
  shows "lcp_opt d base len opt (off, m) = None"
proof -
  have "sstp_bin2hex fmt_02X_sp (replicate 128 0) 128 d (sstp_ppp_optptr opt) (int (length x)) = None"
    using sstp_bin2hex_overrun [of fmt_02X_sp 3 "replicate 128 0" "int (length x)" d] assms(4) by simp
  then show ?thesis
    using assms(5,6) rd_option(1) [OF assms(1,2)] optlen_at [OF assms(1-3)] by (simp add: lcp_opt_def Let_def)
qed

text \<open>A type of message without a name, from ten on, is read behind the table.\<close>

lemma dump_unknown_type:
  assumes "rd (b_data buf) 1 = Some SSTP_MSG_FLAG_CTRL" "rd16 (b_data buf) 4 = Some ty" "10 \<le> unat ty"
  shows "sstp_pkt_dump level dir buf = None"
proof -
  have "sstp_msg_type ty = None" using assms(3) by (auto simp: sstp_msg_type_def)
  moreover have "SSTP_MSG_FLAG_CTRL AND SSTP_MSG_FLAG_CTRL \<noteq> 0" by (simp add: SSTP_MSG_FLAG_CTRL_def)
  ultimately show ?thesis
    using assms(1,2) by (auto simp: sstp_pkt_dump_def Let_def split: Option.bind_splits)
qed

text \<open>An identity of 255 bytes or more is copied over the end of its array.\<close>

lemma eap_identity_overrun:
  assumes "rd d pkt = Some code" "code \<in> {1, 2}" "rd d (pkt + 4) = Some 1" "rd16 d (pkt + 2) = Some l" "260 \<le> uint l"
    and "sstp_str_add m base len 0 (ascii cname @ [32] @ ascii ''IDENTITY'') = Some (ret, pos, m')" "0 \<le> ret"
    and "sstp_eap_codestr code = Some cname"
  shows "sstp_dump_eap d pkt m base len = None"
proof -
  have l: "uint l < 65536" using uint_lt2p [of l] by simp
  have "uint (word_of_int x :: u32) = x" if "0 \<le> x" "x < 4294967296" for x :: int using that by (simp add: uint_word_of_int)
  from this [of "uint l - 5"] have p: "uint (word_of_int (uint l - 5) :: u32) = uint l - 5" using assms(5) l by linarith
  have nz: "(word_of_int (uint l - 5) :: u32) > 0" using p assms(5) by (simp add: word_less_def)
  have none: "rd_n d q (uint l - 5) \<bind> (\<lambda>x. wr_n (replicate 255 0) 0 x \<bind> (\<lambda>a. wr_n a (uint l - 5) [0] \<bind> g)) = None"
    for q :: int and g :: "bytes \<Rightarrow> (int \<times> bytes) option"
  proof (cases "rd_n d q (uint l - 5)")
    case (Some x)
    then have x: "int (length x) = uint l - 5" by (rule rd_n_length)
    show ?thesis
    proof (cases "wr_n (replicate 255 0) 0 x")
      case (Some a)
      then have "length a = 255" using wr_n_length [OF Some] by simp
      then show ?thesis using \<open>rd_n d q (uint l - 5) = Some x\<close> Some assms(5) by (simp add: wr_n_def)
    qed (simp add: \<open>rd_n d q (uint l - 5) = Some x\<close>)
  qed simp
  have "sstp_ppp_data_len d pkt = Some (uint l - 4)" using assms(4) by (simp add: sstp_ppp_data_len_def)
  moreover have "sstp_eap_typestr 1 = Some ''IDENTITY''" by (simp add: sstp_eap_typestr_def)
  moreover have "uint l - 4 - 1 = uint l - 5" by simp
  moreover have "code = 1 \<or> code = 2" using assms(2) by simp
  ultimately show ?thesis
    using assms(1,3,6-8) nz p none unfolding sstp_dump_eap_def sstp_ppp_data_def Let_def
    by (auto simp del: ascii_consts)
qed

text \<open>A challenge or response of 128 bytes or more does not fit the array of 255 as text.\<close>

lemma chap_overrun:
  assumes "rd d pkt = Some code" "code \<in> {1, 2}" "sstp_chap_getname code = Some st" "rd d (pkt + 1) = Some i"
    and "sstp_str_add m base len 0 (ascii '' ID: '' @ show_int (uint i) @ [32] @ ascii st) = Some (ret, off, m')" "0 \<le> ret"
    and "rd d (pkt + 4) = Some clen" "128 \<le> uint clen"
  shows "sstp_dump_chap d pkt m base len = None"
proof -
  have "sstp_bin2hex fmt_02X (replicate 255 0) 255 d q (uint clen) = None" for q
    using sstp_bin2hex_overrun [of fmt_02X 2 "replicate 255 0" "uint clen" d] assms(8) by simp
  moreover have "code = 1 \<or> code = 2" using assms(2) by simp
  ultimately show ?thesis using assms(1,3-7) unfolding sstp_dump_chap_def sstp_ppp_data_def
    by (auto simp del: ascii_consts)
qed

text \<open>A rejection of a protocol that has no name is printed with a format that lacks an argument.\<close>

lemma lcp_reject_unnamed:
  assumes "rd d pkt = Some 8" "rd16 d (pkt + 4) = Some p" "sstp_ppp_handler p = None"
  shows "sstp_dump_lcp d pkt (replicate 1024 0) 0 1024 = None"
proof -
  have s: "sstp_str_add ([] @ 0 # replicate 1023 0) 0 1024 0 ([32] @ ascii ''PROTOREJ'') = Some (9, 9, ([] @ [32] @ ascii ''PROTOREJ'') @ 0 # drop 9 (replicate 1023 0))"
    by (subst sstp_str_add_at) (simp_all add: ascii_def)
  have "replicate 1024 0 = [] @ (0::u8) # replicate 1023 0" by (simp add: numeral_eq_Suc)
  then show ?thesis using s assms by (simp add: sstp_dump_lcp_def sstp_ppp_getcode_def sstp_ppp_data_def)
qed

text \<open>The second attribute is looked for at the length of the first, not behind it.\<close>

lemma dump_second_attr:
  "dump_attrs d (Suc (Suc k)) index = Some (False, l1 # l2 # ls) \<Longrightarrow>
   \<exists>len ty2 name len2. rd16 d (index + 2) = Some len \<and> rd d (uint len + 1) = Some ty2 \<and> sstp_attr_type ty2 = Some name
     \<and> rd16 d (uint len + 2) = Some len2
     \<and> l2 = ascii ''    '' @ ascii name @ ascii ''('' @ show_int (uint ty2) @ ascii ''): '' @ show_int (uint len2)"
  by (auto split: Option.bind_splits if_splits simp del: ascii_consts)

section \<open>Properties\<close>

text \<open>C28. The trace of the negotiation: a data packet with an LCP, IPCP or CCP configuration packet, with or without
  the two bytes in front, is logged as a line for the packet and one with the protocol, the id, the name of the code and the
  texts of its options in order, whatever lies behind the packet in the buffer. The text of an option is nothing for a number
  without a name; for LCP the name and the value (of AUTH the protocol only), but nothing for an option other than MRU, MRRU,
  AUTH and MAGIC that has no value (so PCOMP and ACCOMP are never printed); for IPCP the name and the value; for CCP the name, with
  the bits of the value for MPPC only. Names and numbers are those of the tables above, not the code's. The options must have values
  of the length their formats need and the text must fit 1024 bytes.\<close>

theorem dump_negotiation:
  assumes p: "(proto, name, text_of, fits) \<in> set conf_protocols" and cn: "name_in conf_names code = Some cname"
    and as: "list_all fits as" "length (concat (map enc_option as)) \<le> 65000"
    and n: "length cname + 1 + length (option_texts text_of as) < 1024" and h: "hdlc \<in> {[], [0xff, 0x03]}"
    and b: "holds buf (enc_data (hdlc @ be16 proto @ enc_conf code i as))"
  shows "sstp_pkt_dump SSTP_LOG_TRACE dir buf
    = Some [dump_head dir ''DATA'' (length (enc_data (hdlc @ be16 proto @ enc_conf code i as))),
        ascii ''  PPP '' @ ascii name @ ascii '' ID: '' @ show_int (uint i) @ [32, 32] @ ascii cname @ option_texts text_of as]"
proof -
  note c = conf_code [OF cn]
  define body where "body = hdlc @ be16 proto @ enc_conf code i as"
  obtain free where d: "b_data buf = enc_data body @ free" and bl: "b_len buf = int (length (enc_data body))"
    using b by (auto simp: holds_iff body_def)
  have l: "length body \<le> 65531" using h as(2) by (auto simp: enc_conf_def body_def)
  have e: "length (enc_data body) = 4 + length body" by (simp add: enc_data_def)
  have dd: "b_data buf = ([SSTP_PROTO_VER, 0] @ be16 (of_nat (4 + length body))) @ hdlc @ be16 proto @ enc_conf code i as @ free"
    using d by (simp add: enc_data_def body_def)
  have "sstp_dump_ppp (b_data buf) 4 (int (length body))
      = Some (0, [ascii ''  PPP '' @ ascii name @ ascii '' ID: '' @ show_int (uint i) @ [32, 32] @ ascii cname @ option_texts text_of as])"
    by (rule sstp_dump_ppp_conf [OF p c as n dd h]) (simp_all add: body_def)
  moreover have "sstp_pkt_data buf = Some (Some 4)" "sstp_pkt_data_len buf = Some (int (length body))"
    using rd_enc_data(1) [OF d l] bl e by (simp_all add: sstp_pkt_data_def sstp_pkt_data_len_def)
  moreover have "int (length body) mod 2 ^ 64 = int (length body)" using l by simp
  moreover note rd_enc_data [OF d l] e
  ultimately show ?thesis unfolding body_def [symmetric]
    by (simp add: sstp_pkt_dump_def Let_def dump_head_def del: ascii_consts of_nat_add)
qed

lemma pcomp_not_printed: "lcp_text (7, []) = []" "lcp_text (8, []) = []" "sstp_lcp_getname 7 = Some ''PCOMP''" "sstp_lcp_getname 8 = Some ''ACCOMP''"
  by (simp_all add: lcp_text_def Let_def sstp_lcp_getname_def)

definition demo_conf :: "(u8 \<times> bytes) list" where
  "demo_conf = [(CI_MRU, [0x0f, 0xfd]), (CI_AUTH, [0xc2, 0x23, 0x81]), (CI_MAGIC, [0x12, 0xab, 0, 1]), (7, []), (19, [3, 0xff])]"

definition demo_dump :: sstp_buff where
  "demo_dump = (let m = enc_data ([0xff, 0x03] @ be16 0xc021 @ enc_conf 1 7 demo_conf) in
     \<lparr>b_len = int (length m), b_max = int (length m) + 8, b_off = 0, b_data = m @ replicate 8 0xee\<rparr>)"

lemma dump_negotiation_witness:
  "sstp_pkt_dump SSTP_LOG_TRACE SSTP_DIR_RECV demo_dump
    = Some [ascii ''RECV SSTP DATA PKT(33) '', ascii ''  PPP LCP ID: 7  CONFREQ MRU: 4093 AUTH: CHAP MAGIC: 0x12AB0001 EPDISC: 03 FF'']"
proof -
  have t: "option_texts lcp_text demo_conf = ascii '' MRU: 4093 AUTH: CHAP MAGIC: 0x12AB0001 EPDISC: 03 FF''"
    by (simp add: option_texts_def demo_conf_def lcp_text_def sstp_lcp_getname_def be_value_def un16_def un32_def auth_name_def
        show_int_def dec_digits.simps hex_pad_def hex_digits.simps hex_digit_def fmt_02X_sp_def Let_def)
  have "holds demo_dump (enc_data ([0xff, 0x03] @ be16 0xc021 @ enc_conf 1 7 demo_conf))"
    by (auto simp: demo_dump_def holds_def wf_buff_def content_def Let_def)
  moreover have "list_all lcp_fits demo_conf" by code_simp
  moreover have "length (concat (map enc_option demo_conf)) \<le> 65000" by (simp add: demo_conf_def enc_option_def)
  ultimately have "sstp_pkt_dump SSTP_LOG_TRACE SSTP_DIR_RECV demo_dump
    = Some [dump_head SSTP_DIR_RECV ''DATA'' (length (enc_data ([0xff, 0x03] @ be16 0xc021 @ enc_conf 1 7 demo_conf))),
        ascii ''  PPP '' @ ascii ''LCP'' @ ascii '' ID: '' @ show_int (uint (7 :: u8)) @ [32, 32] @ ascii ''CONFREQ'' @ option_texts lcp_text demo_conf]"
    by (intro dump_negotiation) (simp_all add: t conf_protocols_def conf_names_def)
  moreover have "dump_head SSTP_DIR_RECV ''DATA'' (length (enc_data ([0xff, 0x03] @ be16 0xc021 @ enc_conf 1 7 demo_conf)))
      = ascii ''RECV SSTP DATA PKT(33) ''" by code_simp
  moreover have "show_int (uint (7 :: u8)) = ascii ''7''" by code_simp
  ultimately show ?thesis by (simp add: t)
qed

text \<open>C29. The dump of a control message with at most one attribute reads back: it is a line for the packet, one for
  its type, one for the attribute with its name and length, and lines of hexadecimal numbers that are all bytes of the
  message, in order, and nothing behind it.\<close>

theorem dump_bytes:
  assumes "holds buf (enc_ctrl ty as)" "ty \<noteq> SSTP_MSG_DATA" "length as \<le> 1" "length (enc_ctrl ty as) < 65536"
  shows "\<exists>hex. sstp_pkt_dump SSTP_LOG_DUMP dir buf
      = Some ([dump_head dir ''CRTL'' (length (enc_ctrl ty as)), type_line ty (length as)] @ map attr_line as @ hex)
    \<and> undump hex = Some (enc_ctrl ty as)"
  using assms by (rule ctrl_dump)

definition demo_ctrl :: sstp_buff where
  "demo_ctrl = (let m = enc_ctrl SSTP_MSG_CONNECT_REQ [(SSTP_ATTR_ENCAP_PROTO, [0, 1])] in
     \<lparr>b_len = int (length m), b_max = 16384, b_off = 0, b_data = m @ replicate (16384 - length m) 0\<rparr>)"

lemma dump_bytes_witness:
  "\<exists>hex. sstp_pkt_dump SSTP_LOG_DUMP SSTP_DIR_SEND demo_ctrl
      = Some ([ascii ''SEND SSTP CRTL PKT(14) '', ascii ''  TYPE(1): CONNECT REQUEST, ATTR(1):'', ascii ''    ENCAP PROTO(1): 6''] @ hex)
    \<and> undump hex = Some [16, 1, 0, 14, 0, 1, 0, 1, 0, 1, 0, 6, 0, 1]"
proof -
  have l: "length (enc_ctrl SSTP_MSG_CONNECT_REQ [(SSTP_ATTR_ENCAP_PROTO, [0, 1])]) = 14"
    by (simp add: enc_ctrl_def enc_attrs_def enc_attr_def)
  have "holds demo_ctrl (enc_ctrl SSTP_MSG_CONNECT_REQ [(SSTP_ATTR_ENCAP_PROTO, [0, 1])])"
    using l by (auto simp: demo_ctrl_def holds_def wf_buff_def content_def Let_def)
  from dump_bytes [OF this, of SSTP_DIR_SEND] obtain hex where h:
    "sstp_pkt_dump SSTP_LOG_DUMP SSTP_DIR_SEND demo_ctrl
      = Some ([dump_head SSTP_DIR_SEND ''CRTL'' 14, type_line SSTP_MSG_CONNECT_REQ 1, attr_line (SSTP_ATTR_ENCAP_PROTO, [0, 1])] @ hex)"
    "undump hex = Some (enc_ctrl SSTP_MSG_CONNECT_REQ [(SSTP_ATTR_ENCAP_PROTO, [0, 1])])"
    using l by auto
  have "dump_head SSTP_DIR_SEND ''CRTL'' 14 = ascii ''SEND SSTP CRTL PKT(14) ''" by code_simp
  moreover have "type_line SSTP_MSG_CONNECT_REQ 1 = ascii ''  TYPE(1): CONNECT REQUEST, ATTR(1):''" by code_simp
  moreover have "attr_line (SSTP_ATTR_ENCAP_PROTO, [0, 1]) = ascii ''    ENCAP PROTO(1): 6''" by code_simp
  moreover have "enc_ctrl SSTP_MSG_CONNECT_REQ [(SSTP_ATTR_ENCAP_PROTO, [0, 1])] = [16, 1, 0, 14, 0, 1, 0, 1, 0, 1, 0, 6, 0, 1]" by code_simp
  ultimately show ?thesis using h by metis
qed

end
