(* ===== verification/Log.thy ===== *)
theory Log
  imports Util
begin

text \<open>
  The log, \<^verbatim>\<open>sstp/sstp-log.c\<close> with its three outputs \<^verbatim>\<open>sstp-log-std.c\<close>, \<^verbatim>\<open>sstp-log-file.c\<close> and
  \<^verbatim>\<open>sstp-log-syslog.c\<close>: a message is written as attributes into one array, read back from there, and each
  output that is switched on prints it as a line. The options of the log are taken out of the command line
  before the client sees it.

  What is written is a list of descriptors and bytes. The text of a message is the expanded format. \<open>None\<close> is an
  access outside an array, a null pointer followed or called, or a string without its end.
\<close>

section \<open>Data\<close>

definition SSTP_OPT_SYSLOG :: u32 where "SSTP_OPT_SYSLOG = 0x0001"
definition SSTP_OPT_STDERR :: u32 where "SSTP_OPT_STDERR = 0x0002"
definition SSTP_OPT_STDOUT :: u32 where "SSTP_OPT_STDOUT = 0x0004"
definition SSTP_OPT_LOGFILE :: u32 where "SSTP_OPT_LOGFILE = 0x0008"
definition SSTP_OPT_LINENO :: u32 where "SSTP_OPT_LINENO = 0x0010"

lemmas log_consts = SSTP_OPT_SYSLOG_def SSTP_OPT_STDERR_def SSTP_OPT_STDOUT_def SSTP_OPT_LOGFILE_def SSTP_OPT_LINENO_def

text \<open>The functions that the pointers of a context name.\<close>

datatype log_backend = Sstp_syslog | Sstp_logfile | Sstp_logstd

record log_ctx =
  lc_sock :: int
  lc_debug :: bool
  lc_file :: bytes            \<comment> \<open>the 255 bytes\<close>
  lc_write :: "log_backend option"
  lc_close :: "log_backend option"

record sstp_log =
  log_opt :: u32
  log_level :: int
  log_file :: log_ctx
  log_syslog :: log_ctx
  log_out :: log_ctx
  log_token :: "bytes option list"  \<comment> \<open>ten\<close>
  log_hostname :: bytes       \<comment> \<open>the 128 bytes\<close>
  log_appname :: bytes        \<comment> \<open>the 32 bytes\<close>
  log_buf :: bytes            \<comment> \<open>the 2048 bytes\<close>

definition log_ctx_zero :: log_ctx where
  "log_ctx_zero = \<lparr>lc_sock = 0, lc_debug = False, lc_file = replicate 255 0, lc_write = None, lc_close = None\<rparr>"

definition m_ctx :: sstp_log where
  "m_ctx = \<lparr>log_opt = 0, log_level = 0, log_file = log_ctx_zero, log_syslog = log_ctx_zero, log_out = log_ctx_zero,
     log_token = replicate 10 None, log_hostname = replicate 128 0, log_appname = replicate 32 0, log_buf = replicate 2048 0\<rparr>"

text \<open>The clock (as a number of eight bytes and as text), the system and \<^verbatim>\<open>fnmatch\<close>.\<close>

record log_env =
  w_time :: bytes
  w_stamp :: bytes
  w_pid :: int
  w_match :: "bytes \<Rightarrow> bytes \<Rightarrow> bool"
  w_hostname :: bytes
  w_socket :: int
  w_connect :: "bytes \<Rightarrow> bool"
  w_open :: "bytes \<Rightarrow> int"
  w_writev :: "int \<Rightarrow> bytes \<Rightarrow> int"
  w_strdup :: "bytes \<Rightarrow> bytes option"

text \<open>\<^verbatim>\<open>strncpy\<close>: without a final zero when the text fills the array.\<close>

definition strncpy :: "nat \<Rightarrow> bytes \<Rightarrow> bytes \<Rightarrow> bytes" where
  "strncpy n old t = take n (t @ replicate n 0) @ drop n old"

section \<open>A message in the array\<close>

definition LOG_ALIGN32 :: "int \<Rightarrow> int" where
  "LOG_ALIGN32 n = (n + 3) div 4 * 4"

text \<open>The sizes of \<open>log_msg_st\<close> and \<open>log_attr_st\<close>, the attribute types and the largest.\<close>

abbreviation (input) sizeof_log_msg :: int where "sizeof_log_msg \<equiv> 16"
abbreviation (input) sizeof_log_attr :: int where "sizeof_log_attr \<equiv> 2"
abbreviation (input) LOG_ATTR_TIME :: nat where "LOG_ATTR_TIME \<equiv> 1"
abbreviation (input) LOG_ATTR_LINEINFO :: nat where "LOG_ATTR_LINEINFO \<equiv> 2"
abbreviation (input) LOG_ATTR_HOST :: nat where "LOG_ATTR_HOST \<equiv> 3"
abbreviation (input) LOG_ATTR_APPNAME :: nat where "LOG_ATTR_APPNAME \<equiv> 4"
abbreviation (input) LOG_ATTR_MESSAGE :: nat where "LOG_ATTR_MESSAGE \<equiv> 5"
abbreviation (input) LOG_ATTR_MAX :: nat where "LOG_ATTR_MAX \<equiv> 5"

text \<open>An attribute: its length is that of the text with its zero, as a byte.\<close>

definition log_attr :: "nat \<Rightarrow> bytes \<Rightarrow> bytes \<times> int \<Rightarrow> (bytes \<times> int) option" where
  "log_attr ty text st =
     (case st of (m, index) \<Rightarrow> do {
        m \<leftarrow> wr_n m index [of_nat ty];
        m \<leftarrow> wr_n m (index + sizeof_log_attr) (text @ [0]);
        let len = (of_nat (length text + 1) :: u8);
        m \<leftarrow> wr_n m (index + 1) [len];
        Some (m, index + (sizeof_log_attr + LOG_ALIGN32 (uint len))) })"

definition log_lineinfo :: "bytes \<Rightarrow> int \<Rightarrow> bytes" where
  "log_lineinfo file line = ascii ''('' @ file @ ascii '':'' @ show_int line @ ascii '')''"

fun log_parse_loop :: "bytes \<Rightarrow> nat \<Rightarrow> int \<Rightarrow> int option list \<Rightarrow> (status_t \<times> int option list) option" where
  "log_parse_loop m 0 attr table = Some (SSTP_OKAY, table)"
| "log_parse_loop m (Suc k) attr table = do {
     ty \<leftarrow> rd m attr;
     if unat ty > LOG_ATTR_MAX then Some (SSTP_FAIL, table)
     else do {
       len \<leftarrow> rd m (attr + 1);
       log_parse_loop m k (attr + sizeof_log_attr + LOG_ALIGN32 (uint len)) (table[unat ty := Some attr]) } }"

definition sstp_log_parse :: "bytes \<Rightarrow> nat \<Rightarrow> (status_t \<times> int option list) option" where
  "sstp_log_parse m n = do {
     count \<leftarrow> rd m 2;
     log_parse_loop m (unat count) sizeof_log_msg (replicate n None) }"

section \<open>The outputs\<close>

text \<open>Opening again, for \<^verbatim>\<open>syslog\<close> and the file; a descriptor of 0 is refused for the file.\<close>

definition sstp_syslog_init :: "log_env \<Rightarrow> log_ctx \<Rightarrow> (status_t \<times> log_ctx) option" where
  "sstp_syslog_init env ctx =
     (let ctx = ctx\<lparr>lc_sock := w_socket env\<rparr> in
      if lc_sock ctx \<le> -1 then Some (SSTP_FAIL, ctx)
      else if \<not> w_connect env (take 103 (lc_file ctx)) then Some (SSTP_FAIL, ctx\<lparr>lc_sock := -1\<rparr>)
      else Some (SSTP_OKAY, ctx\<lparr>lc_write := Some Sstp_syslog, lc_close := Some Sstp_syslog\<rparr>))"

definition sstp_logfile_init :: "log_env \<Rightarrow> log_ctx \<Rightarrow> (status_t \<times> log_ctx) option" where
  "sstp_logfile_init env ctx = do {
     path \<leftarrow> cstring (lc_file ctx);
     let ctx = ctx\<lparr>lc_sock := w_open env path\<rparr>;
     Some (if lc_sock ctx \<le> 0 then (SSTP_FAIL, ctx)
           else (SSTP_OKAY, ctx\<lparr>lc_write := Some Sstp_logfile, lc_close := Some Sstp_logfile\<rparr>)) }"

definition sstp_logstd_init :: "log_ctx \<Rightarrow> (status_t \<times> log_ctx) option" where
  "sstp_logstd_init ctx = Some (SSTP_OKAY, ctx\<lparr>lc_write := Some Sstp_logstd, lc_close := None\<rparr>)"

definition log_close :: "log_ctx \<Rightarrow> log_ctx" where
  "log_close ctx = (if lc_close ctx \<noteq> None \<and> lc_sock ctx \<ge> 0 then ctx\<lparr>lc_sock := -1\<rparr> else ctx)"

text \<open>The string of the attribute at an offset; \<^verbatim>\<open>sprintf\<close> to the end of what is in an array of 128 bytes.\<close>

definition attr_string :: "bytes \<Rightarrow> int \<Rightarrow> bytes option" where
  "attr_string m attr = (if 0 \<le> attr \<and> attr + 2 \<le> int (length m) then cstring (drop (nat (attr + 2)) m) else None)"

definition sprintf128 :: "bytes \<Rightarrow> bytes \<Rightarrow> bytes option" where
  "sprintf128 acc t = (if length acc + length t + 1 \<le> 128 then Some (acc @ t) else None)"

text \<open>
  What the three outputs have in common: the line, from a text that is there already, or nothing when an attribute is
  missing. The message is given to \<^verbatim>\<open>writev\<close> with its length from the attribute, that is with its zero.
\<close>

definition log_line :: "log_env \<Rightarrow> log_ctx \<Rightarrow> bytes \<Rightarrow> int option list \<Rightarrow> bytes \<Rightarrow> bytes option option" where
  "log_line env ctx m table lead =
     (case table ! LOG_ATTR_TIME of None \<Rightarrow> Some None | Some a \<Rightarrow> do {
        t \<leftarrow> attr_string m a;
        s \<leftarrow> sprintf128 lead (t @ [32]);
        case table ! LOG_ATTR_APPNAME of None \<Rightarrow> Some None | Some a \<Rightarrow> do {
          t \<leftarrow> attr_string m a;
          s \<leftarrow> sprintf128 s (t @ ascii ''['' @ show_int (w_pid env) @ ascii '']: '');
          r \<leftarrow> (if lc_debug ctx then
                 (case table ! LOG_ATTR_LINEINFO of None \<Rightarrow> Some None | Some a \<Rightarrow> do {
                    t \<leftarrow> attr_string m a;
                    s \<leftarrow> sprintf128 s (t @ [32]);
                    Some (Some s) })
               else Some (Some s));
          case r of None \<Rightarrow> Some None | Some s \<Rightarrow>
            (case table ! LOG_ATTR_MESSAGE of None \<Rightarrow> Some None | Some a \<Rightarrow> do {
               len \<leftarrow> rd m (a + 1);
               d \<leftarrow> rd_n m (a + 2) (uint len);
               Some (Some (s @ d)) }) } })"

type_synonym writes = "(int \<times> bytes) list"

definition sstp_logstd_write ::
    "log_env \<Rightarrow> log_ctx \<Rightarrow> bytes \<Rightarrow> int option list \<Rightarrow> (log_ctx \<times> writes) option" where
  "sstp_logstd_write env ctx m table = do {
     l \<leftarrow> log_line env ctx m table [];
     Some (ctx, case l of None \<Rightarrow> [] | Some l \<Rightarrow> [(lc_sock ctx, l @ [10])]) }"

definition sstp_logfile_write ::
    "log_env \<Rightarrow> log_ctx \<Rightarrow> bytes \<Rightarrow> int option list \<Rightarrow> (log_ctx \<times> writes) option" where
  "sstp_logfile_write env ctx m table = do {
     (ret, ctx) \<leftarrow> (if lc_sock ctx < 0 then sstp_logfile_init env ctx else Some (SSTP_OKAY, ctx));
     if SSTP_OKAY \<noteq> ret then Some (ctx, [])
     else do {
       l \<leftarrow> log_line env ctx m table [];
       Some (ctx, case l of None \<Rightarrow> [] | Some l \<Rightarrow> [(lc_sock ctx, l @ [10])]) } }"

definition sstp_syslog_write ::
    "log_env \<Rightarrow> log_ctx \<Rightarrow> bytes \<Rightarrow> int option list \<Rightarrow> (log_ctx \<times> writes) option" where
  "sstp_syslog_write env ctx m table = do {
     (ret, ctx) \<leftarrow> (if lc_sock ctx < 0 then sstp_syslog_init env ctx else Some (SSTP_OKAY, ctx));
     if SSTP_OKAY \<noteq> ret then Some (ctx, [])
     else do {
       level \<leftarrow> rd m 0;
       lead \<leftarrow> sprintf128 [] (ascii ''<'' @ show_int (128 + (7 - uint level) mod 8) @ ascii ''>'');
       l \<leftarrow> log_line env ctx m table lead;
       case l of
         None \<Rightarrow> Some (ctx, [])
       | Some l \<Rightarrow>
           if w_writev env (lc_sock ctx) l = -1
           then (if lc_close ctx = None then None else Some (log_close ctx, [(lc_sock ctx, l)]))
           else Some (ctx, [(lc_sock ctx, l)]) } }"

definition log_write :: "log_env \<Rightarrow> log_ctx \<Rightarrow> bytes \<Rightarrow> int option list \<Rightarrow> (log_ctx \<times> writes) option" where
  "log_write env ctx m table =
     (case lc_write ctx of
        None \<Rightarrow> None
      | Some Sstp_logstd \<Rightarrow> sstp_logstd_write env ctx m table
      | Some Sstp_logfile \<Rightarrow> sstp_logfile_write env ctx m table
      | Some Sstp_syslog \<Rightarrow> sstp_syslog_write env ctx m table)"

definition sstp_log_xmit :: "log_env \<Rightarrow> sstp_log \<Rightarrow> (status_t \<times> sstp_log \<times> writes) option" where
  "sstp_log_xmit env s = do {
     (status, table) \<leftarrow> sstp_log_parse (log_buf s) (LOG_ATTR_MAX + 1);
     if SSTP_OKAY \<noteq> status then Some (SSTP_FAIL, s, [])
     else do {
       (s, w1) \<leftarrow> (if SSTP_OPT_STDERR AND log_opt s \<noteq> 0 \<or> SSTP_OPT_STDOUT AND log_opt s \<noteq> 0 then do {
            (c, w) \<leftarrow> log_write env (log_out s) (log_buf s) table; Some (s\<lparr>log_out := c\<rparr>, w) } else Some (s, []));
       (s, w2) \<leftarrow> (if SSTP_OPT_SYSLOG AND log_opt s \<noteq> 0 then do {
            (c, w) \<leftarrow> log_write env (log_syslog s) (log_buf s) table; Some (s\<lparr>log_syslog := c\<rparr>, w) } else Some (s, []));
       (s, w3) \<leftarrow> (if SSTP_OPT_LOGFILE AND log_opt s \<noteq> 0 then do {
            (c, w) \<leftarrow> log_write env (log_file s) (log_buf s) table; Some (s\<lparr>log_file := c\<rparr>, w) } else Some (s, []));
       Some (SSTP_OKAY, s, w1 @ w2 @ w3) } }"

section \<open>Logging a message\<close>

text \<open>
  The filter of trace messages: the first token that is not there, or that matches; when ten tokens are there and none
  matches, the code reads an eleventh.
\<close>

primrec token_found :: "(bytes \<Rightarrow> bool) \<Rightarrow> bytes option list \<Rightarrow> bool option" where
  "token_found f [] = None"
| "token_found f (t # ts) =
     (case t of None \<Rightarrow> Some False | Some p \<Rightarrow> if f p then Some True else token_found f ts)"

definition base_name :: "bytes \<Rightarrow> bytes" where
  "base_name file = rev (takeWhile (\<lambda>c. c \<noteq> 47) (rev file))"

definition sstp_log_msg ::
    "log_env \<Rightarrow> int \<Rightarrow> bytes \<Rightarrow> int \<Rightarrow> bytes \<Rightarrow> sstp_log \<Rightarrow> (sstp_log \<times> writes) option" where
  "sstp_log_msg env level file line text s = do {
     go \<leftarrow> (if level = 5 \<and> hd (log_token s) \<noteq> None
           then token_found (\<lambda>t. w_match env t (base_name file)) (log_token s) else Some True);
     if \<not> go then Some (s, [])
     else do {
       m \<leftarrow> wr_n (log_buf s) 0 [word_of_int level];
       m \<leftarrow> wr_n m 8 (w_time env);
       r \<leftarrow> log_attr LOG_ATTR_TIME (w_stamp env) (m, sizeof_log_msg);
       r \<leftarrow> log_attr LOG_ATTR_LINEINFO (log_lineinfo file line) r;
       host \<leftarrow> cstring (log_hostname s);
       r \<leftarrow> log_attr LOG_ATTR_HOST host r;
       app \<leftarrow> cstring (log_appname s);
       r \<leftarrow> log_attr LOG_ATTR_APPNAME app r;
       (m, index) \<leftarrow> log_attr LOG_ATTR_MESSAGE text r;
       m \<leftarrow> wr_n m 1 [word_of_int (LOG_ALIGN32 index)];
       m \<leftarrow> wr_n m 2 [5];
       (_, s, w) \<leftarrow> sstp_log_xmit env (s\<lparr>log_buf := m\<rparr>);
       Some (s, w) } }"

text \<open>The macros: the enumeration of the levels has no negative value, so that the level is compared without its sign.\<close>

definition sstp_log_level :: "sstp_log \<Rightarrow> u32" where
  "sstp_log_level s = word_of_int (log_level s)"

definition log_macro ::
    "log_env \<Rightarrow> int \<Rightarrow> bytes \<Rightarrow> int \<Rightarrow> bytes \<Rightarrow> sstp_log \<Rightarrow> (sstp_log \<times> writes) option" where
  "log_macro env level file line text s =
     (if word_of_int level \<le> sstp_log_level s then sstp_log_msg env level file line text s else Some (s, []))"

section \<open>Start and end\<close>

text \<open>Nothing looks at what the outputs answer.\<close>

definition sstp_init_log :: "log_env \<Rightarrow> bytes option \<Rightarrow> u32 \<Rightarrow> int \<Rightarrow> sstp_log \<Rightarrow> (status_t \<times> sstp_log) option" where
  "sstp_init_log env name opts level s = do {
     let s = s\<lparr>log_level := level, log_opt := opts\<rparr>;
     let debug = (SSTP_OPT_LINENO AND opts \<noteq> 0);
     s \<leftarrow> (if SSTP_OPT_SYSLOG AND opts \<noteq> 0 then do {
          let c = log_syslog s;
          let c = (if hd (lc_file c) = 0 then c\<lparr>lc_file := strncpy 254 (lc_file c) (ascii ''/var/run/syslog'')\<rparr> else c);
          (_, c) \<leftarrow> sstp_syslog_init env (c\<lparr>lc_debug := debug\<rparr>);
          Some (s\<lparr>log_syslog := c\<rparr>) } else Some s);
     s \<leftarrow> (if SSTP_OPT_LOGFILE AND opts \<noteq> 0 then do {
          let c = log_file s;
          c \<leftarrow> (if hd (lc_file c) = 0 then do {
               n \<leftarrow> name;
               f \<leftarrow> vsnprintf (lc_file c) 0 255 (ascii ''/tmp/'' @ n @ ascii ''.log'');
               Some (c\<lparr>lc_file := f\<rparr>) } else Some c);
          (_, c) \<leftarrow> sstp_logfile_init env (c\<lparr>lc_debug := debug\<rparr>);
          Some (s\<lparr>log_file := c\<rparr>) } else Some s);
     s \<leftarrow> (if SSTP_OPT_STDERR AND opts \<noteq> 0 \<or> SSTP_OPT_STDOUT AND opts \<noteq> 0 then do {
          let c = (log_out s)\<lparr>lc_sock := if SSTP_OPT_STDOUT AND opts \<noteq> 0 then 1 else 2, lc_debug := debug\<rparr>;
          (_, c) \<leftarrow> sstp_logstd_init c;
          Some (s\<lparr>log_out := c\<rparr>) } else Some s);
     Some (SSTP_OKAY, s\<lparr>log_hostname := strncpy 128 (log_hostname s) (w_hostname env),
       log_appname := strncpy 32 (log_appname s) (case name of None \<Rightarrow> ascii ''sstp-client'' | Some n \<Rightarrow> n)\<rparr>) }"

definition sstp_log_init :: "log_env \<Rightarrow> bytes option \<Rightarrow> int \<Rightarrow> u32 \<Rightarrow> sstp_log \<Rightarrow> (status_t \<times> sstp_log) option" where
  "sstp_log_init env name lvl opts = sstp_init_log env name opts lvl"

definition sstp_log_fini :: "sstp_log \<Rightarrow> status_t \<times> sstp_log" where
  "sstp_log_fini s =
     (SSTP_OKAY, s\<lparr>log_file := log_close (log_file s), log_out := log_close (log_out s), log_syslog := log_close (log_syslog s),
        log_token := map (\<lambda>_. None) (log_token s)\<rparr>)"

section \<open>The options of the log\<close>

text \<open>The table of options: the name behind the two dashes, and the kind of its argument.\<close>

datatype log_option = Log_level | Log_syslog | Log_stderr | Log_stdout | Log_lineno | Log_token | Log_file | Log_ident

datatype has_arg = No_argument | Required_argument | Optional_argument

definition log_options :: "(string \<times> has_arg \<times> log_option) list" where
  "log_options =
     [(''log-level'', Required_argument, Log_level), (''log-syslog'', Optional_argument, Log_syslog),
      (''log-stderr'', No_argument, Log_stderr), (''log-stdout'', No_argument, Log_stdout),
      (''log-lineno'', No_argument, Log_lineno), (''log-token'', Required_argument, Log_token),
      (''log-file'', Optional_argument, Log_file), (''log-ident'', Required_argument, Log_ident)]"

record log_setup =
  ls_level :: int
  ls_opt :: u32
  ls_ident :: string
  ls_buff :: bytes            \<comment> \<open>the 64 bytes for the tokens\<close>
  ls_syslog :: bytes          \<comment> \<open>the paths in the two contexts\<close>
  ls_file :: bytes

text \<open>The first character of the next argument; \<open>None\<close> for the null pointer at the end of the vector.\<close>

definition starts_dash :: "string \<Rightarrow> bool" where
  "starts_dash a \<longleftrightarrow> a \<noteq> [] \<and> hd a = CHR ''-''"

definition log_option_set :: "log_option \<Rightarrow> string option \<Rightarrow> log_setup \<Rightarrow> log_setup option" where
  "log_option_set o' nxt s =
     (case o' of
        Log_level \<Rightarrow> do {
          a \<leftarrow> nxt;
          Some (s\<lparr>ls_level := (case strtoul (ascii a @ [0]) of None \<Rightarrow> 0 | Some (v, _) \<Rightarrow> signed_take_bit 31 (int v))\<rparr>) }
      | Log_syslog \<Rightarrow> do {
          a \<leftarrow> nxt;
          let s = s\<lparr>ls_opt := (ls_opt s OR SSTP_OPT_SYSLOG) AND NOT SSTP_OPT_STDOUT AND NOT SSTP_OPT_STDERR\<rparr>;
          Some (if starts_dash a then s else s\<lparr>ls_syslog := strncpy 255 (ls_syslog s) (ascii a)\<rparr>) }
      | Log_stderr \<Rightarrow> Some (s\<lparr>ls_opt := (ls_opt s OR SSTP_OPT_STDERR) AND NOT SSTP_OPT_STDOUT AND NOT SSTP_OPT_SYSLOG\<rparr>)
      | Log_stdout \<Rightarrow> Some (s\<lparr>ls_opt := (ls_opt s OR SSTP_OPT_STDOUT) AND NOT SSTP_OPT_STDERR AND NOT SSTP_OPT_SYSLOG\<rparr>)
      | Log_lineno \<Rightarrow> Some (s\<lparr>ls_opt := ls_opt s OR SSTP_OPT_LINENO\<rparr>)
      | Log_token \<Rightarrow> do {
          a \<leftarrow> nxt;
          Some (if starts_dash a then s else s\<lparr>ls_buff := strncpy 64 (ls_buff s) (ascii a)\<rparr>) }
      | Log_file \<Rightarrow> do {
          a \<leftarrow> nxt;
          let s = s\<lparr>ls_opt := ls_opt s OR SSTP_OPT_LOGFILE\<rparr>;
          Some (if starts_dash a then s else s\<lparr>ls_file := strncpy 255 (ls_file s) (ascii a)\<rparr>) }
      | Log_ident \<Rightarrow> do {
          a \<leftarrow> nxt;
          Some (if starts_dash a then s else s\<lparr>ls_ident := a\<rparr>) })"

definition arg_at :: "string list \<Rightarrow> nat \<Rightarrow> string option" where
  "arg_at argv i = (if i < length argv then Some (argv ! i) else None)"

definition drop_at :: "nat \<Rightarrow> string list \<Rightarrow> string list" where
  "drop_at i argv = take i argv @ drop (Suc i) argv"

text \<open>
  The loop over the arguments: an option is taken out, with its value when it takes one and the next argument does
  not begin with a dash, and the loop starts again. The names are compared from the third character on.
\<close>

function log_argv_loop :: "nat \<Rightarrow> string list \<Rightarrow> log_setup \<Rightarrow> (string list \<times> log_setup) option" where
  "log_argv_loop index argv s =
     (if index < length argv then
        (if length (argv ! index) < 2 then None
         else case map_of log_options (drop 2 (argv ! index)) of
           None \<Rightarrow> log_argv_loop (Suc index) argv s
         | Some (has, o') \<Rightarrow>
             (case log_option_set o' (arg_at argv (Suc index)) s of
                None \<Rightarrow> None
              | Some s \<Rightarrow>
                  (case (if has = No_argument then Some True else map_option starts_dash (arg_at (drop_at index argv) index)) of
                     None \<Rightarrow> None
                   | Some keep \<Rightarrow>
                       if keep then log_argv_loop 1 (drop_at index argv) s
                       else log_argv_loop 1 (drop_at index (drop_at index argv)) s)))
      else Some (argv, s))"
  by pat_completeness auto
termination
  by (relation "measures [\<lambda>(index, argv, s). length argv, \<lambda>(index, argv, s). length argv - index]")
    (auto simp: drop_at_def min_def)

declare log_argv_loop.simps [simp del]

text \<open>The tokens, separated by commas; there is room for ten.\<close>

fun split_commas :: "bytes \<Rightarrow> bytes list" where
  "split_commas [] = [[]]"
| "split_commas (c # cs) =
     (if c = 44 then [] # split_commas cs
      else case split_commas cs of t # ts \<Rightarrow> (c # t) # ts | [] \<Rightarrow> [[c]])"

definition log_tokens :: "log_env \<Rightarrow> bytes \<Rightarrow> bytes option list \<Rightarrow> bytes option list option" where
  "log_tokens env buff old =
     (if hd buff = 0 then Some old
      else do {
        t \<leftarrow> cstring buff;
        let ts = map (w_strdup env) (split_commas t);
        if length ts \<le> length old then Some (ts @ drop (length ts) old) else None })"

definition sstp_log_init_argv :: "log_env \<Rightarrow> string list \<Rightarrow> sstp_log \<Rightarrow> (status_t \<times> string list \<times> sstp_log) option" where
  "sstp_log_init_argv env argv s = do {
     prog \<leftarrow> arg_at argv 0;
     let ident = rev (takeWhile (\<lambda>c. c \<noteq> CHR ''/'') (rev prog));
     (argv, c) \<leftarrow> log_argv_loop 1 argv
       \<lparr>ls_level = 0, ls_opt = SSTP_OPT_SYSLOG, ls_ident = ident, ls_buff = replicate 64 0,
        ls_syslog = lc_file (log_syslog s), ls_file = lc_file (log_file s)\<rparr>;
     let s = s\<lparr>log_syslog := (log_syslog s)\<lparr>lc_file := ls_syslog c\<rparr>, log_file := (log_file s)\<lparr>lc_file := ls_file c\<rparr>\<rparr>;
     (status, s) \<leftarrow> sstp_init_log env (Some (ascii (ls_ident c))) (ls_opt c) (ls_level c) s;
     if SSTP_OKAY \<noteq> status then Some (SSTP_FAIL, argv, s)
     else do {
       ts \<leftarrow> log_tokens env (ls_buff c) (log_token s);
       Some (SSTP_OKAY, argv, s\<lparr>log_token := ts\<rparr>) } }"

end
