(* ===== verification/LogProofs.thy ===== *)
theory LogProofs
  imports Log
begin

text \<open>
  What the log prints: the attributes of a message are found again in the array, so that a line is the head that
  the output makes and the text of the message, cut as its length byte says (\<open>log_msg_line\<close>); and the loop that takes the
  options of the log out of the command line does what one pass over it does (\<open>log_argv_pass\<close>).
\<close>

section \<open>Attributes in the array\<close>

definition att :: "nat \<Rightarrow> bytes \<Rightarrow> bytes \<Rightarrow> bytes" where
  "att ty text pad = [of_nat ty, of_nat (length text + 1)] @ text @ [0] @ pad"

lemma length_att: "length (att ty text pad) = length text + 3 + length pad"
  by (simp add: att_def)

lemma log_attr_at:
  assumes "index = int (length pre)" "length text + 3 \<le> length old"
  shows "log_attr ty text (pre @ old, index)
    = Some (pre @ att ty text (drop (length text + 3) old), index + (2 + LOG_ALIGN32 (uint (of_nat (length text + 1) :: u8))))"
proof -
  obtain a b r where o: "old = a # b # r" "length text + 1 \<le> length r"
    using assms(2) by (cases old; cases "tl old") auto
  define c where "c = take (length text + 1) r"
  define t where "t = drop (length text + 1) r"
  have r: "r = c @ t" "length c = length text + 1" using o(2) by (simp_all add: c_def t_def)
  have "wr_n (pre @ [a] @ (b # c @ t)) index [of_nat ty] = Some (pre @ [of_nat ty] @ (b # c @ t))"
    by (rule wr_n_split) (use assms(1) in simp_all)
  moreover have "wr_n ((pre @ [of_nat ty, b]) @ c @ t) (index + 2) (text @ [0]) = Some ((pre @ [of_nat ty, b]) @ (text @ [0]) @ t)"
    by (rule wr_n_split) (use assms(1) r(2) in simp_all)
  moreover have "wr_n ((pre @ [of_nat ty]) @ [b] @ (text @ [0] @ t)) (index + 1) [of_nat (length text + 1)]
      = Some ((pre @ [of_nat ty]) @ [of_nat (length text + 1)] @ (text @ [0] @ t))"
    by (rule wr_n_split) (use assms(1) in simp_all)
  moreover have "drop (length text + 3) old = t" by (simp add: o(1) t_def numeral_3_eq_3)
  ultimately show ?thesis by (simp add: log_attr_def o(1) r(1) att_def Let_def del: of_nat_Suc of_nat_add)
qed

lemma align_pad: "\<exists>p. p \<le> 3 \<and> LOG_ALIGN32 (int n) = int (n + p)"
proof -
  have "LOG_ALIGN32 (int n) = int ((n + 3) div 4 * 4)" by (simp add: LOG_ALIGN32_def zdiv_int)
  moreover have "n \<le> (n + 3) div 4 * 4" "(n + 3) div 4 * 4 \<le> n + 3" by presburger+
  ultimately show ?thesis by (intro exI [of _ "(n + 3) div 4 * 4 - n"]) auto
qed

lemma uint_text: "n \<le> 254 \<Longrightarrow> uint (of_nat (n + 1) :: u8) = int (n + 1)"
  using uint_u8 [of "n + 1"] by simp

text \<open>An attribute that is short enough moves the index behind itself.\<close>

definition fits_att :: "bytes \<Rightarrow> bytes \<Rightarrow> bool" where
  "fits_att text pad \<longleftrightarrow> length text \<le> 254 \<and> LOG_ALIGN32 (int (length text + 1)) = int (length text + 1 + length pad)"

lemma log_attr_step:
  assumes "index = int (length pre)" "length text \<le> 254" "length text + 6 \<le> length old"
  shows "\<exists>pad old'. log_attr ty text (pre @ old, index) = Some ((pre @ att ty text pad) @ old', int (length (pre @ att ty text pad)))
    \<and> fits_att text pad \<and> length old = length (att ty text pad) + length old' \<and> length pad \<le> 3"
proof -
  obtain p where p: "p \<le> 3" "LOG_ALIGN32 (int (length text + 1)) = int (length text + 1 + p)" using align_pad by blast
  let ?d = "drop (length text + 3) old"
  have d: "length (take p ?d) = p" using assms(3) p(1) by simp
  have "log_attr ty text (pre @ old, index) = Some (pre @ att ty text ?d, index + (2 + int (length text + 1 + p)))"
    using log_attr_at [OF assms(1), of "text" old ty] assms(2,3) p(2) uint_text [OF assms(2)] by simp
  moreover have "att ty text ?d = att ty text (take p ?d) @ drop p ?d" by (simp add: att_def del: drop_drop)
  ultimately show ?thesis using p d assms
    by (intro exI [of _ "take p ?d"] exI [of _ "drop p ?d"]) (auto simp: length_att fits_att_def)
qed

text \<open>It is found again.\<close>

lemma rd_att:
  assumes "m = pre @ att ty text pad @ post" "a = int (length pre)"
  shows "rd m a = Some (of_nat ty)" "rd m (a + 1) = Some (of_nat (length text + 1))"
  using assms by (simp_all add: rd_def att_def nth_append nat_add_distrib)

lemma parse_att:
  assumes "m = pre @ att ty text pad @ post" "a = int (length pre)" "ty \<le> 5" "fits_att text pad"
  shows "log_parse_loop m (Suc k) a table = log_parse_loop m k (int (length (pre @ att ty text pad))) (table[ty := Some a])"
proof -
  have "unat (of_nat ty :: u8) = ty" using assms(3) by (simp add: unsigned_of_nat take_bit_nat_eq_self)
  moreover have "uint (of_nat (length text + 1) :: u8) = int (length text + 1)" using assms(4) uint_text by (simp add: fits_att_def)
  then have "a + 2 + LOG_ALIGN32 (uint (of_nat (length text + 1) :: u8)) = int (length (pre @ att ty text pad))"
    using assms(2,4) by (simp only: fits_att_def) (simp add: length_att)
  ultimately show ?thesis using rd_att [OF assms(1,2)] assms(3)
    by (simp del: of_nat_Suc of_nat_add)
qed

lemma parse_last:
  assumes "m = pre @ att ty text pad @ post" "a = int (length pre)" "ty \<le> 5"
  shows "log_parse_loop m (Suc 0) a table = Some (SSTP_OKAY, table[ty := Some a])"
proof -
  have "unat (of_nat ty :: u8) = ty" using assms(3) by (simp add: unsigned_of_nat take_bit_nat_eq_self)
  then show ?thesis using rd_att [OF assms(1,2)] assms(3) by simp
qed

lemma string_att:
  assumes "m = pre @ att ty text pad @ post" "a = int (length pre)" "0 \<notin> set text"
  shows "attr_string m a = Some text"
proof -
  have "drop (nat (a + 2)) m = text @ 0 # (pad @ post)" using assms(1,2) by (simp add: att_def nat_add_distrib)
  moreover have "a + 2 \<le> int (length m)" using assms(1,2) by (simp add: att_def)
  ultimately show ?thesis using assms(2) cstring_zero [OF assms(3)] by (simp add: attr_string_def)
qed

lemma message_att:
  assumes "m = pre @ att ty text pad @ post" "a = int (length pre)"
  shows "rd_n m (a + 2) (uint (of_nat (length text + 1) :: u8)) = Some (take ((length text + 1) mod 256) (text @ [0]))"
proof -
  have "uint (of_nat n :: u8) = int (n mod 256)" for n by (simp add: unsigned_of_nat take_bit_eq_mod zmod_int)
  then have u: "uint (of_nat (length text + 1) :: u8) = int ((length text + 1) mod 256)" by blast
  have l: "(length text + 1) mod 256 \<le> length (text @ [0])" using mod_less_eq_dividend [of "length text + 1" 256] by simp
  have m: "m = (pre @ [of_nat ty, of_nat (length text + 1)]) @ (text @ [0]) @ (pad @ post)" using assms(1) by (simp add: att_def)
  have a: "a + 2 = int (length (pre @ [of_nat ty, of_nat (length text + 1) :: u8]))" using assms(2) by simp
  show ?thesis unfolding u m by (rule rd_n_mid [OF a l])
qed

lemma wr_n_left: "wr_n h i bs = Some h' \<Longrightarrow> wr_n (h @ r) i bs = Some (h' @ r)"
  by (auto simp: wr_n_def split: if_splits)

text \<open>Three attributes of any kind and what the two more are; the array behind the head.\<close>

lemma attrs_written:
  assumes h: "length h = 16" and l: "length h + length old = 2048"
    and t: "length t1 \<le> 254" "length t2 \<le> 254" "length t3 \<le> 127" "length t4 \<le> 31" "length t5 \<le> 900"
  shows "\<exists>p1 p2 p3 p4 p5 i. do { r \<leftarrow> log_attr 1 t1 (h @ old, 16); r \<leftarrow> log_attr 2 t2 r; r \<leftarrow> log_attr 3 t3 r;
        r \<leftarrow> log_attr 4 t4 r; log_attr 5 t5 r }
      = Some (h @ att 1 t1 p1 @ att 2 t2 p2 @ att 3 t3 p3 @ att 4 t4 p4 @ att 5 t5 p5, i)
    \<and> fits_att t1 p1 \<and> fits_att t2 p2 \<and> fits_att t3 p3 \<and> fits_att t4 p4
    \<and> length (h @ att 1 t1 p1 @ att 2 t2 p2 @ att 3 t3 p3 @ att 4 t4 p4 @ att 5 t5 p5) = 2048"
proof -
  have "\<exists>pad old'. log_attr 1 t1 (h @ old, 16) = Some ((h @ att 1 t1 pad) @ old', int (length (h @ att 1 t1 pad)))
      \<and> fits_att t1 pad \<and> length old = length (att 1 t1 pad) + length old' \<and> length pad \<le> 3"
    by (rule log_attr_step) (use assms in auto)
  then obtain p1 o1 where 1: "log_attr 1 t1 (h @ old, 16) = Some ((h @ att 1 t1 p1) @ o1, int (length (h @ att 1 t1 p1)))"
    "fits_att t1 p1" "length old = length (att 1 t1 p1) + length o1" "length p1 \<le> 3" by blast
  let ?h1 = "h @ att 1 t1 p1"
  have "\<exists>pad old'. log_attr 2 t2 (?h1 @ o1, int (length ?h1)) = Some ((?h1 @ att 2 t2 pad) @ old', int (length (?h1 @ att 2 t2 pad)))
      \<and> fits_att t2 pad \<and> length o1 = length (att 2 t2 pad) + length old' \<and> length pad \<le> 3"
    by (rule log_attr_step) (use assms 1 in \<open>auto simp: length_att\<close>)
  then obtain p2 o2 where 2: "log_attr 2 t2 (?h1 @ o1, int (length ?h1)) = Some ((?h1 @ att 2 t2 p2) @ o2, int (length (?h1 @ att 2 t2 p2)))"
    "fits_att t2 p2" "length o1 = length (att 2 t2 p2) + length o2" "length p2 \<le> 3" by blast
  let ?h2 = "?h1 @ att 2 t2 p2"
  have "\<exists>pad old'. log_attr 3 t3 (?h2 @ o2, int (length ?h2)) = Some ((?h2 @ att 3 t3 pad) @ old', int (length (?h2 @ att 3 t3 pad)))
      \<and> fits_att t3 pad \<and> length o2 = length (att 3 t3 pad) + length old' \<and> length pad \<le> 3"
    by (rule log_attr_step) (use assms 1 2 in \<open>auto simp: length_att\<close>)
  then obtain p3 o3 where 3: "log_attr 3 t3 (?h2 @ o2, int (length ?h2)) = Some ((?h2 @ att 3 t3 p3) @ o3, int (length (?h2 @ att 3 t3 p3)))"
    "fits_att t3 p3" "length o2 = length (att 3 t3 p3) + length o3" "length p3 \<le> 3" by blast
  let ?h3 = "?h2 @ att 3 t3 p3"
  have "\<exists>pad old'. log_attr 4 t4 (?h3 @ o3, int (length ?h3)) = Some ((?h3 @ att 4 t4 pad) @ old', int (length (?h3 @ att 4 t4 pad)))
      \<and> fits_att t4 pad \<and> length o3 = length (att 4 t4 pad) + length old' \<and> length pad \<le> 3"
    by (rule log_attr_step) (use assms 1 2 3 in \<open>auto simp: length_att\<close>)
  then obtain p4 o4 where 4: "log_attr 4 t4 (?h3 @ o3, int (length ?h3)) = Some ((?h3 @ att 4 t4 p4) @ o4, int (length (?h3 @ att 4 t4 p4)))"
    "fits_att t4 p4" "length o3 = length (att 4 t4 p4) + length o4" "length p4 \<le> 3" by blast
  let ?h4 = "?h3 @ att 4 t4 p4"
  have 5: "log_attr 5 t5 (?h4 @ o4, int (length ?h4)) = Some (?h4 @ att 5 t5 (drop (length t5 + 3) o4),
      int (length ?h4) + (2 + LOG_ALIGN32 (uint (of_nat (length t5 + 1) :: u8))))" "length t5 + 3 \<le> length o4"
    using log_attr_at [of _ ?h4 t5 o4 5] assms 1 2 3 4 by (auto simp: length_att)
  show ?thesis
    using 1 2 3 4 5 l by (intro exI conjI) (auto simp: length_att)
qed

text \<open>The attributes read from there.\<close>

lemma attrs_read:
  assumes m: "m = h @ att 1 t1 p1 @ att 2 t2 p2 @ att 3 t3 p3 @ att 4 t4 p4 @ att 5 t5 p5" "length h = 16" "rd m 2 = Some 5"
    and f: "fits_att t1 p1" "fits_att t2 p2" "fits_att t3 p3" "fits_att t4 p4"
    and z: "0 \<notin> set t1" "0 \<notin> set t2" "0 \<notin> set t4"
  shows "\<exists>a1 a2 a3 a4 a5. sstp_log_parse m 6 = Some (SSTP_OKAY, [None, Some a1, Some a2, Some a3, Some a4, Some a5])
    \<and> attr_string m a1 = Some t1 \<and> attr_string m a2 = Some t2 \<and> attr_string m a4 = Some t4
    \<and> rd m (a5 + 1) = Some (of_nat (length t5 + 1))
    \<and> rd_n m (a5 + 2) (uint (of_nat (length t5 + 1) :: u8)) = Some (take ((length t5 + 1) mod 256) (t5 @ [0]))"
proof -
  let ?h1 = "h @ att 1 t1 p1"
  let ?h2 = "?h1 @ att 2 t2 p2"
  let ?h3 = "?h2 @ att 3 t3 p3"
  let ?h4 = "?h3 @ att 4 t4 p4"
  have e: "m = h @ att 1 t1 p1 @ (att 2 t2 p2 @ att 3 t3 p3 @ att 4 t4 p4 @ att 5 t5 p5)"
    "m = ?h1 @ att 2 t2 p2 @ (att 3 t3 p3 @ att 4 t4 p4 @ att 5 t5 p5)" "m = ?h2 @ att 3 t3 p3 @ (att 4 t4 p4 @ att 5 t5 p5)"
    "m = ?h3 @ att 4 t4 p4 @ att 5 t5 p5" "m = ?h4 @ att 5 t5 p5 @ []"
    using m(1) by simp_all
  have r: "replicate 6 (None :: int option) = [None, None, None, None, None, None]" by (simp add: numeral_eq_Suc)
  have five: "(5 :: nat) = Suc (Suc (Suc (Suc (Suc 0))))" by simp
  have "log_parse_loop m 5 16 (replicate 6 None)
      = Some (SSTP_OKAY, [None, Some (int (length h)), Some (int (length ?h1)), Some (int (length ?h2)), Some (int (length ?h3)), Some (int (length ?h4))])"
    using parse_att [OF e(1) refl _ f(1)] parse_att [OF e(2) refl _ f(2)] parse_att [OF e(3) refl _ f(3)] parse_att [OF e(4) refl _ f(4)]
      parse_last [OF e(5) refl] m(2) unfolding r five by (simp del: log_parse_loop.simps)
  then have "sstp_log_parse m 6 = Some (SSTP_OKAY, [None, Some (int (length h)), Some (int (length ?h1)), Some (int (length ?h2)), Some (int (length ?h3)), Some (int (length ?h4))])"
    using m(3) by (simp add: sstp_log_parse_def del: log_parse_loop.simps)
  then show ?thesis
    using string_att [OF e(1) refl z(1)] string_att [OF e(2) refl z(2)] string_att [OF e(4) refl z(3)]
      rd_att(2) [OF e(5) refl] message_att [OF e(5) refl] by blast
qed

section \<open>The command line\<close>

text \<open>One pass over the arguments.\<close>

function log_args :: "string list \<Rightarrow> log_setup \<Rightarrow> (string list \<times> log_setup) option" where
  "log_args [] s = Some ([], s)"
| "log_args (a # r) s =
     (if length a < 2 then None
      else case map_of log_options (drop 2 a) of
        None \<Rightarrow> map_option (\<lambda>(x, s). (a # x, s)) (log_args r s)
      | Some (has, o') \<Rightarrow>
          (case log_option_set o' (arg_at r 0) s of
             None \<Rightarrow> None
           | Some s \<Rightarrow>
               if has = No_argument then log_args r s
               else (case r of [] \<Rightarrow> None | b # r' \<Rightarrow> if starts_dash b then log_args r s else log_args r' s)))"
  by pat_completeness auto
termination by (relation "measure (\<lambda>(r, s). length r)") auto

definition no_log_option :: "string \<Rightarrow> bool" where
  "no_log_option a \<longleftrightarrow> 2 \<le> length a \<and> map_of log_options (drop 2 a) = None"

lemma loop_skips:
  "list_all no_log_option d2 \<Longrightarrow>
   log_argv_loop (Suc (length d1)) (p # d1 @ d2 @ r) s = log_argv_loop (Suc (length (d1 @ d2))) (p # d1 @ d2 @ r) s"
proof (induction d2 arbitrary: d1)
  case (Cons a d2)
  have "log_argv_loop (Suc (length d1)) (p # d1 @ (a # d2) @ r) s = log_argv_loop (Suc (Suc (length d1))) (p # d1 @ (a # d2) @ r) s"
    using Cons.prems by (subst log_argv_loop.simps) (simp add: no_log_option_def)
  also have "\<dots> = log_argv_loop (Suc (length ((d1 @ [a]) @ d2))) (p # (d1 @ [a]) @ d2 @ r) s"
    using Cons.IH [of "d1 @ [a]"] Cons.prems by simp
  finally show ?case by simp
qed simp

lemma loop_restarts:
  "list_all no_log_option d \<Longrightarrow> log_argv_loop (Suc 0) (p # d @ r) s = log_argv_loop (Suc (length d)) (p # d @ r) s"
  using loop_skips [of d "[]" p r s] by simp

text \<open>One step of the loop behind arguments that are none of its own, with the start over folded into it.\<close>

lemma loop_step:
  assumes "list_all no_log_option d"
  shows "log_argv_loop (Suc (length d)) (p # d @ a # r) s =
    (if length a < 2 then None
     else case map_of log_options (drop 2 a) of
       None \<Rightarrow> log_argv_loop (Suc (length (d @ [a]))) (p # (d @ [a]) @ r) s
     | Some (has, o') \<Rightarrow>
         (case log_option_set o' (arg_at r 0) s of
            None \<Rightarrow> None
          | Some s \<Rightarrow>
              if has = No_argument then log_argv_loop (Suc (length d)) (p # d @ r) s
              else (case r of [] \<Rightarrow> None
                    | b # r' \<Rightarrow> log_argv_loop (Suc (length d)) (p # d @ (if starts_dash b then r else r')) s)))"
proof -
  have at: "(p # d @ a # r) ! Suc (length d) = a" by simp
  have nx: "arg_at (p # d @ a # y) (Suc (Suc (length d))) = arg_at y 0" "arg_at (p # d @ y) (Suc (length d)) = arg_at y 0" for y
    by (auto simp: arg_at_def nth_append)
  have dr: "drop_at (Suc (length d)) (p # d @ x # y) = p # d @ y" for x y by (simp add: drop_at_def)
  show ?thesis
    using loop_restarts [OF assms, of p] loop_restarts [OF assms, of p "[]", simplified]
    by (cases r) (auto simp: log_argv_loop.simps [of "Suc (length d)" "p # d @ a # z" s for z] nx dr arg_at_def nth_append split: option.splits prod.splits)
qed

lemma loop_pass:
  "list_all no_log_option d \<Longrightarrow>
   log_argv_loop (Suc (length d)) (p # d @ r) s = map_option (\<lambda>(x, s). (p # d @ x, s)) (log_args r s)"
proof (induction r s arbitrary: d rule: log_args.induct)
  case (1 s)
  then show ?case by (simp add: log_argv_loop.simps)
next
  case (2 a r s)
  note step = loop_step [OF 2(5), of p a]
  show ?case
  proof (cases "length a < 2 \<or> map_of log_options (drop 2 a) = None")
    case True
    then show ?thesis using 2(1) [of "d @ [a]"] 2(5)
      by (cases "log_args r s") (auto simp: step no_log_option_def)
  next
    case l: False
    then obtain has o' where x: "\<not> length a < 2" "map_of log_options (drop 2 a) = Some (has, o')" by auto
    show ?thesis
    proof (cases "log_option_set o' (arg_at r 0) s")
      case None
      then show ?thesis using x by (simp add: step)
    next
      case (Some s')
      note ih = 2(2) [OF x refl Some _ 2(5)] 2(3,4) [OF x refl Some _ _ _ 2(5)]
      show ?thesis using x Some ih by (cases r) (auto simp: step)
    qed
  qed
qed

lemma args_plain: "log_args r s = Some (x, s') \<Longrightarrow> list_all no_log_option x"
proof (induction r s arbitrary: x s' rule: log_args.induct)
  case (2 a r s)
  have l: "\<not> length a < 2" using 2(5) by auto
  show ?case
  proof (cases "map_of log_options (drop 2 a)")
    case None
    then obtain y where "log_args r s = Some (y, s')" "x = a # y" using 2(5) l by (auto split: option.splits)
    then show ?thesis using 2(1) [OF l None] None l by (simp add: no_log_option_def [of a])
  next
    case (Some z)
    obtain has o' where z: "map_of log_options (drop 2 a) = Some (has, o')" using Some by (cases z) auto
    obtain s1 where o: "log_option_set o' (arg_at r 0) s = Some s1" using 2(5) l z by (auto split: option.splits)
    show ?thesis
    proof (cases "has = No_argument")
      case True
      then show ?thesis using 2(2) [OF l z refl o True] 2(5) l z o by simp
    next
      case False
      then obtain b r' where r: "r = b # r'" using 2(5) l z o by (cases r) auto
      show ?thesis using 2(3) [OF l z refl o False r] 2(4) [OF l z refl o False r] 2(5) l z o False
        unfolding r by (auto simp del: log_args.simps simp: log_args.simps(2) [of a] split: if_splits)
    qed
  qed
qed simp

lemma args_unchanged: "list_all no_log_option r \<Longrightarrow> log_args r s = Some (r, s)"
  by (induction r) (auto simp: no_log_option_def)

section \<open>A line of the log\<close>

text \<open>What the output to a standard descriptor puts in front of the message.\<close>

definition line_head :: "log_env \<Rightarrow> bytes \<Rightarrow> bool \<Rightarrow> bytes \<Rightarrow> int \<Rightarrow> bytes" where
  "line_head env app debug file line =
     w_stamp env @ [32] @ app @ ascii ''['' @ show_int (w_pid env) @ ascii '']: ''
     @ (if debug then log_lineinfo file line @ [32] else [])"

lemma log_line_eq:
  assumes "attr_string m a1 = Some (w_stamp env)" "attr_string m a2 = Some (log_lineinfo file line)" "attr_string m a4 = Some app"
    and "rd m (a5 + 1) = Some len" "rd_n m (a5 + 2) (uint len) = Some d"
  shows "log_line env ctx m [None, Some a1, Some a2, a3, Some a4, Some a5] []
    = (if length (line_head env app (lc_debug ctx) file line) < 128
       then Some (Some (line_head env app (lc_debug ctx) file line @ d)) else None)"
  using assms by (auto simp: log_line_def sprintf128_def line_head_def eval_nat_numeral)

text \<open>A log that is set up, and one that writes to a standard descriptor only.\<close>

definition wf_log :: "sstp_log \<Rightarrow> bool" where
  "wf_log s \<longleftrightarrow> length (log_buf s) = 2048 \<and> length (log_hostname s) \<le> 128 \<and> 0 \<in> set (log_hostname s) \<and> length (log_appname s) \<le> 32"

definition std_log :: "sstp_log \<Rightarrow> bool" where
  "std_log s \<longleftrightarrow>
     (SSTP_OPT_STDERR AND log_opt s \<noteq> 0 \<or> SSTP_OPT_STDOUT AND log_opt s \<noteq> 0)
     \<and> SSTP_OPT_SYSLOG AND log_opt s = 0 \<and> SSTP_OPT_LOGFILE AND log_opt s = 0 \<and> lc_write (log_out s) = Some Sstp_logstd"

lemma cstring_bound: "cstring a = Some t \<Longrightarrow> length t < length a \<and> 0 \<notin> set t"
proof -
  assume "cstring a = Some t"
  then have z: "0 \<in> set a" "t = takeWhile (\<lambda>b. b \<noteq> 0) a" by (auto simp: cstring_def split: if_splits)
  then obtain x y where a: "a = x @ 0 # y" "0 \<notin> set x" using split_list_first [OF z(1)] by blast
  then show ?thesis using \<open>cstring a = Some t\<close> cstring_zero [OF a(2), of y] by simp
qed

lemma log_msg_xmit:
  assumes s: "wf_log s" "cstring (log_appname s) = Some app" and e: "length (w_time env) = 8" "length (w_stamp env) \<le> 254" "0 \<notin> set (w_stamp env)"
    and f: "length (log_lineinfo file line) \<le> 254" "0 \<notin> set file" and t: "length text \<le> 900"
    and go: "level \<noteq> 5 \<or> hd (log_token s) = None"
  shows "\<exists>m a1 a2 a3 a4 a5. length m = 2048
    \<and> sstp_log_msg env level file line text s = do { (_, s, w) \<leftarrow> sstp_log_xmit env (s\<lparr>log_buf := m\<rparr>); Some (s, w) }
    \<and> sstp_log_parse m 6 = Some (SSTP_OKAY, [None, Some a1, Some a2, Some a3, Some a4, Some a5])
    \<and> attr_string m a1 = Some (w_stamp env) \<and> attr_string m a2 = Some (log_lineinfo file line) \<and> attr_string m a4 = Some app
    \<and> rd m (a5 + 1) = Some (of_nat (length text + 1))
    \<and> rd_n m (a5 + 2) (uint (of_nat (length text + 1) :: u8)) = Some (take ((length text + 1) mod 256) (text @ [0]))"
proof -
  obtain host where host: "cstring (log_hostname s) = Some host" using s(1) by (auto simp: wf_log_def cstring_def)
  have hl: "length host \<le> 127" "length app \<le> 31"
    using cstring_bound [OF host] cstring_bound [OF s(2)] s(1) by (auto simp: wf_log_def)
  let ?h = "take 16 (log_buf s)" and ?r = "drop 16 (log_buf s)"
  have b: "log_buf s = ?h @ ?r" "length ?h = 16" "length ?r = 2032" using s(1) by (simp_all add: wf_log_def)
  obtain h1 where h1: "wr_n ?h 0 [word_of_int level] = Some h1" using s(1) by (simp add: wr_n_def wf_log_def)
  have l1: "length h1 = 16" using wr_n_length [OF h1] b(2) by simp
  obtain h2 where h2: "wr_n h1 8 (w_time env) = Some h2" using l1 e(1) by (simp add: wr_n_def)
  have l2: "length h2 = 16" using l1 wr_n_length [OF h2] by simp
  obtain p1 p2 p3 p4 p5 i where w: "do { r \<leftarrow> log_attr 1 (w_stamp env) (h2 @ ?r, 16); r \<leftarrow> log_attr 2 (log_lineinfo file line) r; r \<leftarrow> log_attr 3 host r;
        r \<leftarrow> log_attr 4 app r; log_attr 5 text r }
      = Some (h2 @ att 1 (w_stamp env) p1 @ att 2 (log_lineinfo file line) p2 @ att 3 host p3 @ att 4 app p4 @ att 5 text p5, i)"
    and fa: "fits_att (w_stamp env) p1" "fits_att (log_lineinfo file line) p2" "fits_att host p3" "fits_att app p4"
    and lm: "length (h2 @ att 1 (w_stamp env) p1 @ att 2 (log_lineinfo file line) p2 @ att 3 host p3 @ att 4 app p4 @ att 5 text p5) = 2048"
    using attrs_written [OF l2 _ e(2) f(1) hl t, of ?r] b(3) l2 by auto
  let ?a = "att 1 (w_stamp env) p1 @ att 2 (log_lineinfo file line) p2 @ att 3 host p3 @ att 4 app p4 @ att 5 text p5"
  obtain h3 where h3: "wr_n h2 1 [word_of_int (LOG_ALIGN32 i)] = Some h3" using l2 by (simp add: wr_n_def)
  obtain h4 where h4: "wr_n h3 2 [5] = Some h4" using l2 wr_n_length [OF h3] by (simp add: wr_n_def)
  have l4: "length h4 = 16" using l2 wr_n_length [OF h3] wr_n_length [OF h4] by simp
  have r5: "rd (h4 @ ?a) 2 = Some 5" using h4 l2 wr_n_length [OF h3] by (auto simp: wr_n_def rd_def nth_append split: if_splits)
  have z: "0 \<notin> set (log_lineinfo file line)" using f(2) show_int_nz by (simp add: log_lineinfo_def ascii_def)
  obtain a1 a2 a3 a4 a5 where p: "sstp_log_parse (h4 @ ?a) 6 = Some (SSTP_OKAY, [None, Some a1, Some a2, Some a3, Some a4, Some a5])"
    "attr_string (h4 @ ?a) a1 = Some (w_stamp env)" "attr_string (h4 @ ?a) a2 = Some (log_lineinfo file line)" "attr_string (h4 @ ?a) a4 = Some app"
    "rd (h4 @ ?a) (a5 + 1) = Some (of_nat (length text + 1))"
    "rd_n (h4 @ ?a) (a5 + 2) (uint (of_nat (length text + 1) :: u8)) = Some (take ((length text + 1) mod 256) (text @ [0]))"
    using attrs_read [OF refl l4 r5 fa e(3) z cstring_bound [OF s(2), THEN conjunct2]] by blast
  have "sstp_log_msg env level file line text s
      = do { (_, s, w) \<leftarrow> sstp_log_xmit env (s\<lparr>log_buf := h4 @ ?a\<rparr>); Some (s, w) }"
  proof -
    have "wr_n (log_buf s) 0 [word_of_int level] = Some (h1 @ ?r)" using wr_n_left [OF h1, of ?r] b(1) by simp
    moreover have "wr_n (h1 @ ?r) 8 (w_time env) = Some (h2 @ ?r)" by (rule wr_n_left [OF h2])
    moreover have "wr_n (h2 @ ?a) 1 [word_of_int (LOG_ALIGN32 i)] = Some (h3 @ ?a)" "wr_n (h3 @ ?a) 2 [5] = Some (h4 @ ?a)"
      by (rule wr_n_left, rule h3, rule wr_n_left, rule h4)
    moreover obtain r1 r2 r3 r4 where "log_attr 1 (w_stamp env) (h2 @ ?r, 16) = Some r1" "log_attr 2 (log_lineinfo file line) r1 = Some r2"
      "log_attr 3 host r2 = Some r3" "log_attr 4 app r3 = Some r4" "log_attr 5 text r4 = Some (h2 @ ?a, i)"
      using w by (auto split: Option.bind_splits)
    moreover have "(if level = 5 \<and> hd (log_token s) \<noteq> None
        then token_found (\<lambda>t. w_match env t (base_name file)) (log_token s) else Some True) = Some True" using go by auto
    ultimately show ?thesis using host s(2) unfolding sstp_log_msg_def by (simp del: One_nat_def)
  qed
  moreover have "length (h4 @ ?a) = 2048" using lm l4 l2 by simp
  ultimately show ?thesis using p by blast
qed

lemma std_xmit:
  assumes "sstp_log_parse (log_buf s) 6 = Some (SSTP_OKAY, table)" "std_log s"
    and "log_line env (log_out s) (log_buf s) table [] = l"
  shows "sstp_log_xmit env s = map_option (\<lambda>l. (SSTP_OKAY, s, case l of None \<Rightarrow> [] | Some l \<Rightarrow> [(lc_sock (log_out s), l @ [10])])) l"
proof -
  have five: "(5 :: nat) + 1 = 6" by simp
  have "log_write env (log_out s) (log_buf s) table
      = map_option (\<lambda>l. (log_out s, case l of None \<Rightarrow> [] | Some l \<Rightarrow> [(lc_sock (log_out s), l @ [10])])) l"
    using assms(2,3) by (cases l) (simp_all add: log_write_def sstp_logstd_write_def std_log_def)
  then show ?thesis using assms(1,2) unfolding sstp_log_xmit_def five
    by (cases l) (auto simp: std_log_def)
qed

lemma log_msg_eq:
  assumes s: "wf_log s" "std_log s" "cstring (log_appname s) = Some app" and e: "length (w_time env) = 8" "length (w_stamp env) \<le> 254" "0 \<notin> set (w_stamp env)"
    and f: "length (log_lineinfo file line) \<le> 254" "0 \<notin> set file" and t: "length text \<le> 900"
    and go: "level \<noteq> 5 \<or> hd (log_token s) = None"
  defines "head \<equiv> line_head env app (lc_debug (log_out s)) file line"
  shows "\<exists>m. length m = 2048 \<and> sstp_log_msg env level file line text s
    = (if length head < 128
       then Some (s\<lparr>log_buf := m\<rparr>, [(lc_sock (log_out s), head @ take ((length text + 1) mod 256) (text @ [0]) @ [10])])
       else None)"
proof -
  obtain m a1 a2 a3 a4 a5 where m: "length m = 2048"
    "sstp_log_msg env level file line text s = do { (_, s, w) \<leftarrow> sstp_log_xmit env (s\<lparr>log_buf := m\<rparr>); Some (s, w) }"
    "sstp_log_parse m 6 = Some (SSTP_OKAY, [None, Some a1, Some a2, Some a3, Some a4, Some a5])"
    "attr_string m a1 = Some (w_stamp env)" "attr_string m a2 = Some (log_lineinfo file line)" "attr_string m a4 = Some app"
    "rd m (a5 + 1) = Some (of_nat (length text + 1))"
    "rd_n m (a5 + 2) (uint (of_nat (length text + 1) :: u8)) = Some (take ((length text + 1) mod 256) (text @ [0]))"
    using log_msg_xmit [OF s(1,3) e f t go] by blast
  have "log_line env (log_out s) m [None, Some a1, Some a2, Some a3, Some a4, Some a5] []
      = (if length head < 128 then Some (Some (head @ take ((length text + 1) mod 256) (text @ [0]))) else None)"
    unfolding head_def by (rule log_line_eq [OF m(4-8)])
  then have "sstp_log_xmit env (s\<lparr>log_buf := m\<rparr>)
      = (if length head < 128
         then Some (SSTP_OKAY, s\<lparr>log_buf := m\<rparr>, [(lc_sock (log_out s), head @ take ((length text + 1) mod 256) (text @ [0]) @ [10])])
         else None)"
    using std_xmit [of "s\<lparr>log_buf := m\<rparr>", OF _ _ refl] m(3) s(2) by (simp add: std_log_def)
  then show ?thesis using m(1,2) by (intro exI [of _ m]) simp
qed

section \<open>What goes wrong\<close>

text \<open>When \<^verbatim>\<open>syslog\<close> cannot be reached its output has no function, and the first message calls it.\<close>

lemma log_without_syslog:
  assumes "w_socket env < 0 \<or> (\<forall>p. \<not> w_connect env p)" "lc_write (log_syslog s) = None"
    and "sstp_init_log env name SSTP_OPT_SYSLOG level s = Some (status, s')"
  shows "status = SSTP_OKAY \<and> lc_write (log_syslog s') = None \<and> log_opt s' = SSTP_OPT_SYSLOG"
  using assms by (auto simp: sstp_init_log_def sstp_syslog_init_def Let_def log_consts split: if_splits Option.bind_splits)

lemma log_null_output:
  assumes "wf_log s" "cstring (log_appname s) = Some app" "length (w_time env) = 8" "length (w_stamp env) \<le> 254" "0 \<notin> set (w_stamp env)"
    and "length (log_lineinfo file line) \<le> 254" "0 \<notin> set file" "length text \<le> 900" "level \<noteq> 5 \<or> hd (log_token s) = None"
    and "log_opt s = SSTP_OPT_SYSLOG" "lc_write (log_syslog s) = None"
  shows "sstp_log_msg env level file line text s = None"
proof -
  obtain m table where
    "sstp_log_msg env level file line text s = do { (_, s, w) \<leftarrow> sstp_log_xmit env (s\<lparr>log_buf := m\<rparr>); Some (s, w) }"
    "sstp_log_parse m 6 = Some (SSTP_OKAY, table)"
    using log_msg_xmit [OF assms(1-9)] by blast
  moreover have "(5 :: nat) + 1 = 6" by simp
  ultimately show ?thesis using assms(10,11)
    by (simp add: sstp_log_xmit_def log_write_def log_consts)
qed

text \<open>The level goes to \<^verbatim>\<open>syslog\<close> upside down: there an error is the most urgent message with the smallest number.\<close>

lemma syslog_severity:
  assumes "0 \<le> lc_sock c" "rd m 0 = Some 0" "sstp_syslog_write env c m table = Some (c', (d, l) # w)"
  shows "\<exists>r. l = ascii ''<135>'' @ r"
proof -
  have "show_int 135 = ascii ''135''" by (simp add: show_int_def dec_digits.simps ascii_def)
  then show ?thesis using assms
    by (auto simp: sstp_syslog_write_def sprintf128_def log_line_def ascii_def split: Option.bind_splits option.splits if_splits)
qed

text \<open>Ten tokens of which none matches.\<close>

lemma log_ten_tokens:
  assumes "list_all (\<lambda>t. t \<noteq> None \<and> \<not> w_match env (the t) (base_name file)) (log_token s)" "log_token s \<noteq> []"
  shows "sstp_log_msg env 5 file line text s = None"
proof -
  have n: "list_all (\<lambda>t. t \<noteq> None \<and> \<not> f (the t)) ts \<Longrightarrow> token_found f ts = None" for f ts
    by (induction ts) auto
  have "token_found (\<lambda>t. w_match env t (base_name file)) (log_token s) = None" by (rule n [OF assms(1)])
  moreover have "hd (log_token s) \<noteq> None" using assms by (cases "log_token s") auto
  ultimately show ?thesis by (simp add: sstp_log_msg_def)
qed

text \<open>An option that wants to see its argument, at the end of the command line; an argument of one character.\<close>

lemma log_last_option:
  "list_all (\<lambda>a. log_argv_loop 1 [p, a] s = None) [''--log-level'', ''--log-syslog'', ''--log-token'', ''--log-file'', ''--log-ident'', ''x'']"
proof -
  have l: "log_argv_loop 1 [p, a] s = map_option (\<lambda>(x, s). (p # x, s)) (log_args [a] s)" for a
    using loop_pass [of "[]" p "[a]" s] by simp
  show ?thesis unfolding l by (simp add: log_options_def log_option_set_def arg_at_def)
qed

section \<open>Properties\<close>

text \<open>C30. A line of the log: with a standard descriptor as its only output the log prints one line, made of time, name and process,
  the place when that is asked for, the message and a zero byte; a message of 255 bytes or more is cut to its length modulo
  256. The head of the line has an array of 128 bytes: a head that does not fit overruns it, whatever the message.\<close>

theorem log_msg_line:
  assumes "wf_log s" "std_log s" "cstring (log_appname s) = Some app" "length (w_time env) = 8" "length (w_stamp env) \<le> 254" "0 \<notin> set (w_stamp env)"
    and "length (log_lineinfo file line) \<le> 254" "0 \<notin> set file" "length text \<le> 900" "level \<noteq> 5 \<or> hd (log_token s) = None"
  shows "\<exists>m. length m = 2048 \<and> sstp_log_msg env level file line text s
    = (if length (line_head env app (lc_debug (log_out s)) file line) < 128
       then Some (s\<lparr>log_buf := m\<rparr>, [(lc_sock (log_out s), line_head env app (lc_debug (log_out s)) file line
              @ take ((length text + 1) mod 256) (text @ [0]) @ [10])])
       else None)"
  by (rule log_msg_eq [OF assms])

definition demo_log_env :: log_env where
  "demo_log_env = \<lparr>w_time = replicate 8 0, w_stamp = ascii ''Jan  1 00:00:00'', w_pid = 77, w_match = (\<lambda>p f. p = f), w_hostname = ascii ''phone'',
     w_socket = 3, w_connect = (\<lambda>_. True), w_open = (\<lambda>_. 4), w_writev = (\<lambda>_ b. int (length b)), w_strdup = Some\<rparr>"

text \<open>The log as the session of the phone sets it up, with a path of 100 characters in a message and with a short one.\<close>

definition demo_log :: sstp_log where
  "demo_log = snd (the (sstp_log_init demo_log_env (Some (ascii ''sstp-ios'')) 3 (SSTP_OPT_STDERR OR SSTP_OPT_LINENO) m_ctx))"

lemma log_msg_line_witness:
  "(\<exists>m. sstp_log_msg demo_log_env 2 (ascii ''sstp-ios.c'') 940 (ascii ''Started'') demo_log
      = Some (demo_log\<lparr>log_buf := m\<rparr>, [(2, ascii ''Jan  1 00:00:00 sstp-ios[77]: (sstp-ios.c:940) Started'' @ [0, 10])]))
   \<and> sstp_log_msg demo_log_env 2 (replicate 100 97) 940 (ascii ''Started'') demo_log = None"
proof -
  have d: "demo_log = m_ctx\<lparr>log_level := 3, log_opt := SSTP_OPT_STDERR OR SSTP_OPT_LINENO,
      log_out := log_ctx_zero\<lparr>lc_sock := 2, lc_debug := True, lc_write := Some Sstp_logstd\<rparr>,
      log_hostname := ascii ''phone'' @ replicate 123 0, log_appname := ascii ''sstp-ios'' @ replicate 24 0\<rparr>"
    by (simp add: demo_log_def sstp_log_init_def sstp_init_log_def sstp_logstd_init_def log_consts demo_log_env_def strncpy_def m_ctx_def
        log_ctx_zero_def ascii_def Let_def)
  have s: "wf_log demo_log" "std_log demo_log" "cstring (log_appname demo_log) = Some (ascii ''sstp-ios'')"
    by (simp_all add: d wf_log_def std_log_def m_ctx_def log_consts ascii_def cstring_def)
  have e: "length (w_time demo_log_env) = 8" "length (w_stamp demo_log_env) \<le> 254" "0 \<notin> set (w_stamp demo_log_env)"
    by (simp_all add: demo_log_env_def ascii_def)
  have n: "show_int 940 = ascii ''940''" "show_int 77 = ascii ''77''"
    by (simp_all add: show_int_def dec_digits.simps ascii_def)
  have h: "line_head demo_log_env (ascii ''sstp-ios'') (lc_debug (log_out demo_log)) f 940
      = ascii ''Jan  1 00:00:00 sstp-ios[77]: ('' @ f @ ascii '':940) ''" for f
    by (simp add: line_head_def log_lineinfo_def d demo_log_env_def n ascii_def)
  have l: "length (log_lineinfo (ascii ''sstp-ios.c'') 940) \<le> 254" "length (log_lineinfo (replicate 100 97) 940) \<le> 254"
    by (simp_all add: log_lineinfo_def n ascii_def)
  have z: "0 \<notin> set (ascii ''sstp-ios.c'')" "0 \<notin> set (replicate 100 (97 :: u8))" "length (ascii ''Started'') \<le> 900" by (simp_all add: ascii_def)
  show ?thesis
    using log_msg_line [OF s e l(1) z(1,3), of 2] log_msg_line [OF s e l(2) z(2,3), of 2]
    by (auto simp: h) (auto simp: ascii_def d)
qed

text \<open>C31. The options of the log: the loop that takes them out of the command line and starts again after each of them ends, and
  does what one pass over the arguments does; what is left to the client has none of them, in the order of the command line.\<close>

theorem log_argv_pass:
  "log_argv_loop 1 (p # args) s = map_option (\<lambda>(x, s). (p # x, s)) (log_args args s)
   \<and> list_all (list_all no_log_option) (map fst (case log_args args s of None \<Rightarrow> [] | Some r \<Rightarrow> [r]))"
  using loop_pass [of "[]" p args s] args_plain [of args s] by (auto split: option.splits)

end
