(* ===== verification/Route.thy ===== *)
theory Route
  imports Api
begin

text \<open>
  The routes of \<^verbatim>\<open>sstp/sstp-route.c\<close>, as it is compiled with netlink: a request is written into the array of the
  context, sent, and answered by the kernel in the same array. The branch for Apple answers -1 everywhere, the one without
  netlink runs the program \<^verbatim>\<open>ip\<close>; neither is modelled.

  The messages are those of the interface of Linux: sixteen bytes of header, twelve of the route, and attributes of length,
  type and value, in the order of bytes of the machine. The last section shows that a route asked for and put back is the one
  the kernel named.
\<close>

section \<open>The interface of the kernel\<close>

definition RTM_NEWROUTE :: u16 where "RTM_NEWROUTE = 24"
definition RTM_DELROUTE :: u16 where "RTM_DELROUTE = 25"
definition RTM_GETROUTE :: u16 where "RTM_GETROUTE = 26"
definition NLMSG_ERROR :: u16 where "NLMSG_ERROR = 2"
definition NLMSG_DONE :: u16 where "NLMSG_DONE = 3"
definition NLM_F_REQUEST :: u16 where "NLM_F_REQUEST = 1"
definition NLM_F_MULTI :: u16 where "NLM_F_MULTI = 2"
definition NLM_F_ACK :: u16 where "NLM_F_ACK = 4"
definition NLM_F_REPLACE :: u16 where "NLM_F_REPLACE = 0x100"
definition NLM_F_CREATE :: u16 where "NLM_F_CREATE = 0x400"
definition RTA_DST :: u16 where "RTA_DST = 1"
definition RTA_OIF :: u16 where "RTA_OIF = 4"
definition RTA_GATEWAY :: u16 where "RTA_GATEWAY = 5"
definition RTA_PREFSRC :: u16 where "RTA_PREFSRC = 7"

lemmas nl_consts = RTM_NEWROUTE_def RTM_DELROUTE_def RTM_GETROUTE_def NLMSG_ERROR_def NLMSG_DONE_def NLM_F_REQUEST_def
  NLM_F_MULTI_def NLM_F_ACK_def NLM_F_REPLACE_def NLM_F_CREATE_def
lemmas rta_consts = RTA_DST_def RTA_OIF_def RTA_GATEWAY_def RTA_PREFSRC_def

abbreviation (input) FAM_INET :: int where "FAM_INET \<equiv> 2"
abbreviation (input) FAM_INET6 :: int where "FAM_INET6 \<equiv> 10"
abbreviation (input) RT_TABLE_MAIN :: u8 where "RT_TABLE_MAIN \<equiv> 254"
abbreviation (input) RT_SCOPE_UNIVERSE :: u8 where "RT_SCOPE_UNIVERSE \<equiv> 0"
abbreviation (input) RT_SCOPE_LINK :: u8 where "RT_SCOPE_LINK \<equiv> 253"
abbreviation (input) RTPROT_BOOT :: u8 where "RTPROT_BOOT \<equiv> 3"
abbreviation (input) RTN_UNICAST :: u8 where "RTN_UNICAST \<equiv> 1"

definition NL_ALIGN :: "int \<Rightarrow> int" where
  "NL_ALIGN n = (n + 3) div 4 * 4"

text \<open>\<^verbatim>\<open>NLMSG_OK\<close>: a header, and a message that is within what was received.\<close>

definition nlmsg_ok :: "u32 \<Rightarrow> int \<Rightarrow> bool" where
  "nlmsg_ok n len \<longleftrightarrow> 16 \<le> len \<and> 16 \<le> uint n \<and> uint n \<le> len"

section \<open>Data\<close>

text \<open>Addresses are unions of 16 bytes.\<close>

record sstp_route =
  have_src :: bool
  have_dst :: bool
  have_gwy :: bool
  have_oif :: bool
  rt_family :: int
  rt_blen :: int
  rt_src :: bytes
  rt_dst :: bytes
  rt_gwy :: bytes
  rt_oif :: bytes       \<comment> \<open>four bytes\<close>
  rt_ifname :: bytes    \<comment> \<open>32 bytes\<close>

definition route_zero :: sstp_route where
  "route_zero = \<lparr>have_src = False, have_dst = False, have_gwy = False, have_oif = False, rt_family = 0, rt_blen = 0,
     rt_src = replicate 16 0, rt_dst = replicate 16 0, rt_gwy = replicate 16 0, rt_oif = replicate 4 0, rt_ifname = replicate 32 0\<rparr>"

text \<open>The context, with a list of what was sent that the program does not keep.\<close>

record route_ctx =
  rc_sock :: int
  rc_seq :: u32
  rc_len :: int
  rc_buf :: bytes       \<comment> \<open>1024 bytes\<close>
  rc_sent :: "bytes list"

text \<open>The system, and what \<^verbatim>\<open>recv\<close> answers.\<close>

record netlink =
  nl_pid :: u32
  nl_socket :: int
  nl_memory :: bool
  nl_send :: "bytes \<Rightarrow> int"
  nl_ifname :: "u32 \<Rightarrow> bytes option"

datatype nl_answer = Nl_again | Nl_error | Nl_data bytes

section \<open>Talking to the kernel\<close>

text \<open>Whether the loop goes on after \<^verbatim>\<open>continue\<close>; \<^verbatim>\<open>None\<close> as the first result: the call still waits.\<close>

definition recv_more :: "route_ctx \<Rightarrow> bool option" where
  "recv_more c = do { n \<leftarrow> rdl32 (rc_buf c) 0; Some (rc_len c < uint n) }"

type_synonym nl_result = "(int option \<times> route_ctx \<times> nl_answer list) option"

fun recv_loop :: "netlink \<Rightarrow> nl_answer list \<Rightarrow> route_ctx \<Rightarrow> nl_result" where
  "recv_loop k [] c = Some (None, c, [])"
| "recv_loop k (Nl_error # as) c = Some (Some (-1), c, as)"
| "recv_loop k (Nl_again # as) c = do {
     more \<leftarrow> recv_more c;
     if more then recv_loop k as c else Some (Some (rc_len c), c, as) }"
| "recv_loop k (Nl_data d # as) c = (let d = take (nat (1024 - rc_len c)) d; len = int (length d) in do {
     buf \<leftarrow> wr_n (rc_buf c) (rc_len c) d;
     let c = c\<lparr>rc_buf := buf\<rparr>;
     if len = 0 then Some (Some (-1), c, as)
     else do {
       n \<leftarrow> rdl32 buf 0;
       if \<not> nlmsg_ok n len then Some (Some (-1), c, as)
       else do {
         ty \<leftarrow> rdl16 buf 4;
         flags \<leftarrow> rdl16 buf 6;
         seq \<leftarrow> rdl32 buf 8;
         pid \<leftarrow> rdl32 buf 12;
         err \<leftarrow> rdl32 buf 16;
         if ty = NLMSG_ERROR \<and> err \<noteq> 0 then Some (Some (-1), c, as)
         else do {
           let mine = (seq = rc_seq c \<and> pid = nl_pid k);
           let c = (if mine then c\<lparr>rc_len := len\<rparr> else c);
           more \<leftarrow> recv_more c;
           if mine \<and> (ty = NLMSG_DONE \<or> flags AND NLM_F_MULTI = 0) \<or> \<not> more then Some (Some (rc_len c), c, as)
           else recv_loop k as c } } } })"

definition sstp_route_recv :: "netlink \<Rightarrow> nl_answer list \<Rightarrow> route_ctx \<Rightarrow> nl_result" where
  "sstp_route_recv k as c = recv_loop k as (c\<lparr>rc_len := 0\<rparr>)"

text \<open>A send that is short is answered with its length.\<close>

definition sstp_route_talk :: "netlink \<Rightarrow> nl_answer list \<Rightarrow> int \<Rightarrow> route_ctx \<Rightarrow> nl_result" where
  "sstp_route_talk k as len c = do {
     data \<leftarrow> rd_n (rc_buf c) 0 len;
     let c = c\<lparr>rc_sent := rc_sent c @ [data]\<rparr>;
     if nl_send k data \<noteq> len then Some (Some (nl_send k data), c, as)
     else sstp_route_recv k as c }"

section \<open>Writing a message\<close>

definition sstp_route_addattr :: "bytes \<Rightarrow> u16 \<Rightarrow> int \<Rightarrow> bytes \<Rightarrow> bytes option" where
  "sstp_route_addattr m ty len value = do {
     n \<leftarrow> rdl32 m 0;
     let rta = NL_ALIGN (uint n);
     m \<leftarrow> wr_n m (rta + 2) (le16 ty);
     m \<leftarrow> wr_n m rta (le16 (word_of_int (4 + len)));
     m \<leftarrow> wr_n m 0 (le32 (word_of_int (NL_ALIGN (uint n) + NL_ALIGN (4 + len))));
     v \<leftarrow> rd_n value 0 len;
     wr_n m (rta + 4) v }"

text \<open>The header of a request.\<close>

definition nl_request :: "netlink \<Rightarrow> u16 \<Rightarrow> u16 \<Rightarrow> route_ctx \<Rightarrow> (bytes \<times> route_ctx) option" where
  "nl_request k cmd flags c = do {
     let m = replicate 1024 0;
     m \<leftarrow> wr_n m 0 (le32 28);
     m \<leftarrow> wr_n m 4 (le16 cmd);
     m \<leftarrow> wr_n m 6 (le16 flags);
     let c = c\<lparr>rc_seq := rc_seq c + 1\<rparr>;
     m \<leftarrow> wr_n m 8 (le32 (rc_seq c));
     m \<leftarrow> wr_n m 12 (le32 (nl_pid k));
     Some (m, c) }"

definition sstp_route_newmsg ::
    "netlink \<Rightarrow> sstp_route \<Rightarrow> u16 \<Rightarrow> u16 \<Rightarrow> route_ctx \<Rightarrow> (int \<times> route_ctx) option" where
  "sstp_route_newmsg k r cmd flags c = do {
     (m, c) \<leftarrow> nl_request k cmd (NLM_F_REQUEST OR NLM_F_ACK OR flags) c;
     m \<leftarrow> wr_n m 20 [RT_TABLE_MAIN];
     m \<leftarrow> wr_n m 16 [word_of_int (rt_family r)];
     m \<leftarrow> wr_n m 22 [if have_gwy r then RT_SCOPE_UNIVERSE else RT_SCOPE_LINK];
     m \<leftarrow> (if cmd \<noteq> RTM_DELROUTE then do { m \<leftarrow> wr_n m 21 [RTPROT_BOOT]; wr_n m 23 [RTN_UNICAST] } else Some m);
     m \<leftarrow> (if have_dst r then do {
          m \<leftarrow> sstp_route_addattr m RTA_DST (rt_blen r) (rt_dst r);
          wr_n m 17 [word_of_int (rt_blen r * 8)] } else Some m);
     m \<leftarrow> (if have_src r then do {
          m \<leftarrow> sstp_route_addattr m RTA_PREFSRC (rt_blen r) (rt_src r);
          wr_n m 18 [word_of_int (rt_blen r * 8)] } else Some m);
     m \<leftarrow> (if have_gwy r then sstp_route_addattr m RTA_GATEWAY (rt_blen r) (rt_gwy r) else Some m);
     m \<leftarrow> (if have_oif r then sstp_route_addattr m RTA_OIF 4 (rt_oif r) else Some m);
     n \<leftarrow> rdl32 m 0;
     Some (sint n, c\<lparr>rc_buf := m\<rparr>) }"

definition sstp_route_replace :: "netlink \<Rightarrow> sstp_route \<Rightarrow> nl_answer list \<Rightarrow> route_ctx \<Rightarrow> nl_result" where
  "sstp_route_replace k r as c = do {
     (len, c) \<leftarrow> sstp_route_newmsg k r RTM_NEWROUTE (NLM_F_CREATE OR NLM_F_REPLACE) c;
     if len < 0 then Some (Some (-1), c, as)
     else do {
       (len, c, as) \<leftarrow> sstp_route_talk k as len c;
       Some (map_option (\<lambda>len. if len < 0 then -1 else 0) len, c, as) } }"

definition sstp_route_delete :: "netlink \<Rightarrow> sstp_route \<Rightarrow> nl_answer list \<Rightarrow> route_ctx \<Rightarrow> nl_result" where
  "sstp_route_delete k r as c = do {
     (len, c) \<leftarrow> sstp_route_newmsg k r RTM_DELROUTE 0 c;
     if len < 0 then Some (Some (-1), c, as)
     else do {
       (len, c, as) \<leftarrow> sstp_route_talk k as len c;
       Some (map_option (\<lambda>len. if len < 0 then -1 else 0) len, c, as) } }"

section \<open>Reading the answer\<close>

text \<open>An attribute: \<^verbatim>\<open>memcpy\<close> into a field with the length of the attribute.\<close>

definition route_attr :: "netlink \<Rightarrow> bytes \<Rightarrow> int \<Rightarrow> u16 \<Rightarrow> u16 \<Rightarrow> sstp_route \<Rightarrow> sstp_route option" where
  "route_attr k m a len ty r =
     (let v = rd_n m (a + 4) (uint len - 4) in
      if ty = RTA_OIF then do {
        i \<leftarrow> rdl32 m (a + 4);
        name \<leftarrow> (case nl_ifname k i of None \<Rightarrow> Some (rt_ifname r) | Some t \<Rightarrow> wr_n (rt_ifname r) 0 (t @ [0]));
        d \<leftarrow> v;
        f \<leftarrow> wr_n (rt_oif r) 0 d;
        Some (r\<lparr>rt_ifname := name, rt_oif := f, have_oif := True\<rparr>) }
      else if ty = RTA_GATEWAY then do { d \<leftarrow> v; f \<leftarrow> wr_n (rt_gwy r) 0 d; Some (r\<lparr>rt_gwy := f, have_gwy := True\<rparr>) }
      else if ty = RTA_PREFSRC then do { d \<leftarrow> v; f \<leftarrow> wr_n (rt_src r) 0 d; Some (r\<lparr>rt_src := f, have_src := True\<rparr>) }
      else if ty = RTA_DST then do { d \<leftarrow> v; f \<leftarrow> wr_n (rt_dst r) 0 d; Some (r\<lparr>rt_dst := f, have_dst := True\<rparr>) }
      else Some r)"

text \<open>The loop with \<^verbatim>\<open>RTA_OK\<close> and \<^verbatim>\<open>RTA_NEXT\<close>.\<close>

function route_attrs :: "netlink \<Rightarrow> bytes \<Rightarrow> int \<Rightarrow> int \<Rightarrow> sstp_route \<Rightarrow> sstp_route option" where
  "route_attrs k m a rtl r =
     (if rtl < 4 then Some r
      else case rdl16 m a of None \<Rightarrow> None | Some len \<Rightarrow>
        if uint len < 4 \<or> rtl < uint len then Some r
        else case rdl16 m (a + 2) of None \<Rightarrow> None | Some ty \<Rightarrow>
          (case route_attr k m a len ty r of
             None \<Rightarrow> None
           | Some r \<Rightarrow> route_attrs k m (a + NL_ALIGN (uint len)) (rtl - NL_ALIGN (uint len)) r))"
  by pat_completeness auto
termination
  by (relation "measure (\<lambda>(k, m, a, rtl, r). nat rtl)") (auto simp: NL_ALIGN_def)

declare route_attrs.simps [simp del]

text \<open>The request for a route; the destination is an address of its family. Then what is read from the answer.\<close>

definition route_get_msg :: "netlink \<Rightarrow> int \<times> bytes \<Rightarrow> route_ctx \<Rightarrow> (int \<times> route_ctx) option" where
  "route_get_msg k dst c = do {
     (m, c) \<leftarrow> nl_request k RTM_GETROUTE NLM_F_REQUEST c;
     m \<leftarrow> wr_n m 16 [word_of_int (fst dst)];
     m \<leftarrow> wr_n m 20 [RT_TABLE_MAIN];
     m \<leftarrow> (if fst dst = FAM_INET then do { m \<leftarrow> sstp_route_addattr m RTA_DST 4 (snd dst); wr_n m 17 [32] }
          else if fst dst = FAM_INET6 then do { m \<leftarrow> sstp_route_addattr m RTA_DST 16 (snd dst); wr_n m 17 [128] }
          else Some m);
     n \<leftarrow> rdl32 m 0;
     Some (sint n, c\<lparr>rc_buf := m\<rparr>) }"

definition route_get_answer :: "netlink \<Rightarrow> int \<Rightarrow> bytes \<Rightarrow> sstp_route \<Rightarrow> (int \<times> sstp_route) option" where
  "route_get_answer k len m r = do {
     n \<leftarrow> rdl32 m 0;
     if \<not> nlmsg_ok n len then Some (-1, r)
     else do {
       family \<leftarrow> rd m 16;
       if uint family \<noteq> FAM_INET \<and> uint family \<noteq> FAM_INET6 then Some (-1, r)
       else do {
         let r = route_zero\<lparr>rt_family := uint family, rt_blen := if uint family = FAM_INET6 then 16 else 4\<rparr>;
         r \<leftarrow> route_attrs k m 28 (sint (n - 28)) r;
         Some (0, r) } } }"

definition sstp_route_get ::
    "netlink \<Rightarrow> int \<times> bytes \<Rightarrow> sstp_route \<Rightarrow> nl_answer list \<Rightarrow> route_ctx
     \<Rightarrow> (int option \<times> sstp_route \<times> route_ctx \<times> nl_answer list) option" where
  "sstp_route_get k dst r as c = do {
     (len, c) \<leftarrow> route_get_msg k dst c;
     (len, c, as) \<leftarrow> sstp_route_talk k as len c;
     case len of
       None \<Rightarrow> Some (None, r, c, as)
     | Some len \<Rightarrow>
         if len < 0 then Some (Some (-1), r, c, as)
         else do {
           (ret, r) \<leftarrow> route_get_answer k len (rc_buf c) r;
           Some (Some ret, r, c, as) } }"

section \<open>Start and end\<close>

definition sstp_route_init :: "netlink \<Rightarrow> int \<times> route_ctx option" where
  "sstp_route_init k =
     (if \<not> nl_memory k \<or> nl_socket k < 0 then (-1, None)
      else (0, Some \<lparr>rc_sock = nl_socket k, rc_seq = 0, rc_len = 0, rc_buf = replicate 1024 0, rc_sent = []\<rparr>))"

text \<open>The descriptors that are closed with the context.\<close>

definition sstp_route_done :: "route_ctx option \<Rightarrow> int list" where
  "sstp_route_done c = (case c of None \<Rightarrow> [] | Some c \<Rightarrow> if rc_sock c > 0 then [rc_sock c] else [])"

end
