(* ===== verification/RouteProofs.thy ===== *)
theory RouteProofs
  imports Route
begin

text \<open>
  What the kernel answers is what is put back: the attributes of any well-formed answer are read into the route
  (\<open>attrs_read_back\<close>), a route is written as a header and its attributes (\<open>newmsg_wire\<close>), and from one to the other nothing
  is lost (\<open>route_put_back\<close>).
\<close>

section \<open>Messages\<close>

definition nl_pad :: "bytes \<Rightarrow> nat" where
  "nl_pad v = nat (NL_ALIGN (int (length v))) - length v"

definition nl_tlv :: "u16 \<times> bytes \<Rightarrow> bytes" where
  "nl_tlv a = le16 (of_nat (4 + length (snd a))) @ le16 (fst a) @ snd a @ replicate (nl_pad (snd a)) 0"

definition nl_tlvs :: "(u16 \<times> bytes) list \<Rightarrow> bytes" where
  "nl_tlvs l = concat (map nl_tlv l)"

text \<open>The 24 bytes behind the length.\<close>

definition nl_head :: "u16 \<Rightarrow> u16 \<Rightarrow> u32 \<Rightarrow> u32 \<Rightarrow> bytes \<Rightarrow> bytes" where
  "nl_head ty flags seq pid route = le16 ty @ le16 flags @ le32 seq @ le32 pid @ route"

definition nl_message :: "bytes \<Rightarrow> bytes \<Rightarrow> bytes" where
  "nl_message h body = le32 (of_nat (28 + length body)) @ h @ body"

text \<open>The array of the context that holds it.\<close>

definition nl_image :: "bytes \<Rightarrow> bytes \<Rightarrow> bytes" where
  "nl_image h body = nl_message h body @ replicate (996 - length body) 0"

lemma nl_align: "NL_ALIGN (int n) = int ((n + 3) div 4 * 4)"
  by (simp add: NL_ALIGN_def zdiv_int)

lemma nl_align_4: "4 dvd n \<Longrightarrow> NL_ALIGN (int n) = int n"
  by (simp add: nl_align) presburger

lemma nl_pad_0: "4 dvd length v \<Longrightarrow> nl_pad v = 0"
  by (simp add: nl_pad_def nl_align_4)

lemma length_tlv: "int (length (nl_tlv a)) = NL_ALIGN (int (4 + length (snd a)))"
proof -
  let ?n = "length (snd a)"
  have "?n \<le> (?n + 3) div 4 * 4" "(?n + 7) div 4 * 4 = (?n + 3) div 4 * 4 + 4" by presburger+
  then show ?thesis using nl_align [of "4 + ?n"] by (simp add: nl_tlv_def nl_pad_def nl_align add.commute)
qed

lemma length_message: "length h = 24 \<Longrightarrow> length (nl_message h b) = 28 + length b"
  by (simp add: nl_message_def)

lemma rdl32_split: "i = int (length a) \<Longrightarrow> rdl32 (a @ le32 v @ c) i = Some v"
  using rd_append_right [of 0 a "le32 v @ c"] rd_append_right [of 1 a "le32 v @ c"]
    rd_append_right [of 2 a "le32 v @ c"] rd_append_right [of 3 a "le32 v @ c"]
  by (simp add: rdl32_def) (simp add: rd_def le32_def)

lemma image_len: "rdl32 (nl_image h b) 0 = Some (of_nat (28 + length b))"
  using rdl32_split [of 0 "[]"] by (simp add: nl_image_def nl_message_def)

lemma image_write:
  assumes "4 \<le> i" "i < 28" "length h = 24"
  shows "wr_n (nl_image h b) (int i) [x] = Some (nl_image (h[i - 4 := x]) b)"
proof -
  have h: "h = take (i - 4) h @ [h ! (i - 4)] @ drop (Suc (i - 4)) h" using assms by (simp add: id_take_nth_drop)
  have "h[i - 4 := x] = take (i - 4) h @ [x] @ drop (Suc (i - 4)) h" using assms by (simp add: upd_conv_take_nth_drop)
  then show ?thesis using assms h
    by (intro wr_n_at [of _ "le32 (of_nat (28 + length b)) @ take (i - 4) h" "[x]" "[h ! (i - 4)]" _
          "drop (Suc (i - 4)) h @ b @ replicate (996 - length b) 0"])
      (simp_all add: nl_image_def nl_message_def)
qed

lemma addattr_image:
  assumes "length h = 24" "4 dvd length b" "4 dvd l" "length b + 4 + l \<le> 996" "l \<le> length value"
  shows "sstp_route_addattr (nl_image h b) ty (int l) value = Some (nl_image h (b @ nl_tlv (ty, take l value)))"
proof -
  define z where "z = 996 - length b - 4 - l"
  let ?n = "28 + length b"
  let ?p = "le32 (of_nat ?n) @ h @ b"
  have e: "996 - length b = 4 + (l + z)" using assms(4) by (simp add: z_def)
  have z: "replicate (996 - length b) (0 :: u8) = [0, 0] @ [0, 0] @ replicate l 0 @ replicate z 0"
    unfolding e by (simp add: replicate_add numeral_eq_Suc)
  have i: "nl_image h b = ?p @ [0, 0] @ [0, 0] @ replicate l 0 @ replicate z 0"
    by (simp add: nl_image_def nl_message_def z)
  have u: "uint (of_nat ?n :: u32) = int ?n" using assms(4)
    by (simp add: unsigned_of_nat take_bit_nat_eq_self del: of_nat_add)
  have al: "NL_ALIGN (int ?n) = int ?n" "NL_ALIGN (4 + int l) = 4 + int l"
    using nl_align_4 [of ?n] nl_align_4 [of "4 + l"] assms(2,3) by simp_all
  have p: "int ?n = int (length ?p)" using assms(1) by simp
  have w1: "wr_n (?p @ [0, 0] @ [0, 0] @ replicate l 0 @ replicate z 0) (int ?n + 2) (le16 ty)
      = Some (?p @ [0, 0] @ le16 ty @ replicate l 0 @ replicate z 0)"
    by (rule wr_n_at [of _ "?p @ [0, 0]" "le16 ty" "[0, 0]" _ "replicate l 0 @ replicate z 0"]) (use p in simp_all)
  have w2: "wr_n (?p @ [0, 0] @ le16 ty @ replicate l 0 @ replicate z 0) (int ?n) (le16 (word_of_int (4 + int l)))
      = Some (?p @ le16 (of_nat (4 + l)) @ le16 ty @ replicate l 0 @ replicate z 0)"
    by (rule wr_n_at [of _ ?p _ "[0, 0]" _ "le16 ty @ replicate l 0 @ replicate z 0"]) (use p in simp_all)
  have w3: "wr_n (?p @ le16 (of_nat (4 + l)) @ le16 ty @ replicate l 0 @ replicate z 0) 0 (le32 (word_of_int (int ?n + (4 + int l))))
      = Some ((le32 (of_nat (?n + (4 + l))) @ h @ b) @ le16 (of_nat (4 + l)) @ le16 ty @ replicate l 0 @ replicate z 0)"
    by (rule wr_n_at [of _ "[]" _ "le32 (of_nat ?n)"]) simp_all
  let ?q = "(le32 (of_nat (?n + (4 + l))) @ h @ b) @ le16 (of_nat (4 + l)) @ le16 ty"
  have w4: "wr_n (?q @ replicate l 0 @ replicate z 0) (int ?n + 4) (take l value) = Some (?q @ take l value @ replicate z 0)"
    by (rule wr_n_split) (use assms(1,5) in simp_all)
  have r: "rd_n value 0 (int l) = Some (take l value)" using assms(5) by (simp add: rd_n_def)
  have im: "nl_image h (b @ nl_tlv (ty, take l value)) = ?q @ take l value @ replicate z 0"
    using assms(5) nl_pad_0 [of "take l value"] assms(3) by (simp add: nl_image_def nl_message_def nl_tlv_def min_def add.assoc z_def)
  show ?thesis unfolding im
    using w1 w2 w3 w4 r image_len [of h b] u al
    by (simp only: sstp_route_addattr_def i Option.bind.simps append_assoc Let_def)
qed

section \<open>Writing\<close>

text \<open>The attributes of a route, and a route that fits its addresses.\<close>

definition route_list :: "sstp_route \<Rightarrow> (u16 \<times> bytes) list" where
  "route_list r =
     (if have_dst r then [(RTA_DST, take (nat (rt_blen r)) (rt_dst r))] else [])
     @ (if have_src r then [(RTA_PREFSRC, take (nat (rt_blen r)) (rt_src r))] else [])
     @ (if have_gwy r then [(RTA_GATEWAY, take (nat (rt_blen r)) (rt_gwy r))] else [])
     @ (if have_oif r then [(RTA_OIF, rt_oif r)] else [])"

definition wf_route :: "sstp_route \<Rightarrow> bool" where
  "wf_route r \<longleftrightarrow> (rt_blen r = 4 \<or> rt_blen r = 16) \<and> length (rt_src r) = 16 \<and> length (rt_dst r) = 16 \<and> length (rt_gwy r) = 16
     \<and> length (rt_oif r) = 4 \<and> length (rt_ifname r) = 32"

definition route_bits :: "sstp_route \<Rightarrow> bool \<Rightarrow> u8" where
  "route_bits r has = (if has then word_of_int (rt_blen r * 8) else 0)"

definition route_head :: "u16 \<Rightarrow> sstp_route \<Rightarrow> bytes" where
  "route_head cmd r =
     [word_of_int (rt_family r), route_bits r (have_dst r), route_bits r (have_src r), 0, RT_TABLE_MAIN,
      if cmd = RTM_DELROUTE then 0 else RTPROT_BOOT, if have_gwy r then RT_SCOPE_UNIVERSE else RT_SCOPE_LINK,
      if cmd = RTM_DELROUTE then 0 else RTN_UNICAST, 0, 0, 0, 0]"

lemma length_head [simp]: "length (nl_head ty fl seq pid r) = 12 + length r"
  by (simp add: nl_head_def)

lemma head_write: "12 \<le> i \<Longrightarrow> (nl_head ty fl seq pid r)[i := x] = nl_head ty fl seq pid (r[i - 12 := x])"
  by (auto simp: nl_head_def list_update_append)

lemma request_image:
  "nl_request k cmd fl c = Some (nl_image (nl_head cmd fl (rc_seq c + 1) (nl_pid k) (replicate 12 0)) [], c\<lparr>rc_seq := rc_seq c + 1\<rparr>)"
proof -
  have z: "replicate 1024 (0 :: u8) = replicate 4 0 @ replicate 2 0 @ replicate 2 0 @ replicate 4 0 @ replicate 4 0 @ replicate 1008 0"
    by (simp flip: replicate_add)
  let ?z = "\<lambda>n. replicate n (0 :: u8)"
  have "wr_n (?z 4 @ ?z 2 @ ?z 2 @ ?z 4 @ ?z 4 @ ?z 1008) 0 (le32 28) = Some (le32 28 @ ?z 2 @ ?z 2 @ ?z 4 @ ?z 4 @ ?z 1008)"
    by (rule wr_n_at [of _ "[]" _ "?z 4"]) simp_all
  moreover have "wr_n (le32 28 @ ?z 2 @ ?z 2 @ ?z 4 @ ?z 4 @ ?z 1008) 4 (le16 cmd) = Some (le32 28 @ le16 cmd @ ?z 2 @ ?z 4 @ ?z 4 @ ?z 1008)"
    by (rule wr_n_at [of _ "le32 28" _ "?z 2"]) simp_all
  moreover have "wr_n (le32 28 @ le16 cmd @ ?z 2 @ ?z 4 @ ?z 4 @ ?z 1008) 6 (le16 fl) = Some (le32 28 @ le16 cmd @ le16 fl @ ?z 4 @ ?z 4 @ ?z 1008)"
    by (rule wr_n_at [of _ "le32 28 @ le16 cmd" _ "?z 2"]) simp_all
  moreover have "wr_n (le32 28 @ le16 cmd @ le16 fl @ ?z 4 @ ?z 4 @ ?z 1008) 8 (le32 s) = Some (le32 28 @ le16 cmd @ le16 fl @ le32 s @ ?z 4 @ ?z 1008)" for s
    by (rule wr_n_at [of _ "le32 28 @ le16 cmd @ le16 fl" _ "?z 4"]) simp_all
  moreover have "wr_n (le32 28 @ le16 cmd @ le16 fl @ le32 s @ ?z 4 @ ?z 1008) 12 (le32 (nl_pid k))
      = Some (le32 28 @ le16 cmd @ le16 fl @ le32 s @ le32 (nl_pid k) @ ?z 1008)" for s
    by (rule wr_n_at [of _ "le32 28 @ le16 cmd @ le16 fl @ le32 s" _ "?z 4"]) simp_all
  moreover have "?z 1008 = ?z 12 @ ?z 996" by (simp flip: replicate_add)
  ultimately show ?thesis
    by (simp only: nl_request_def z Let_def Option.bind.simps)
      (simp only: nl_image_def nl_message_def nl_head_def list.size diff_zero add_0_right of_nat_numeral append_assoc append_Nil, simp)
qed

lemma tlvs_append [simp]: "nl_tlvs (a @ b) = nl_tlvs a @ nl_tlvs b" "nl_tlvs [x] = nl_tlv x" "nl_tlvs [] = []"
  by (simp_all add: nl_tlvs_def)

text \<open>One of the attributes, when it is there.\<close>

lemma addattr_if:
  fixes ty :: u16 and has :: bool
  assumes "length h = 24" "4 dvd length (nl_tlvs l)" "length (nl_tlvs l) \<le> 80" "n = 4 \<or> n = 16" "int n = len" "n \<le> length value"
  defines "l' \<equiv> if has then [(ty, take n value)] else []"
  shows "(if has then sstp_route_addattr (nl_image h (nl_tlvs l)) ty len value else Some (nl_image h (nl_tlvs l)))
      = Some (nl_image h (nl_tlvs (l @ l')))"
    and "4 dvd length (nl_tlvs (l @ l')) \<and> length (nl_tlvs (l @ l')) \<le> length (nl_tlvs l) + 20"
proof -
  have "int (length (nl_tlv (ty, take n value))) = int (4 + n)"
    using length_tlv [of "(ty, take n value)"] nl_align_4 [of "4 + n"] assms(4,6) by auto
  then have "length (nl_tlv (ty, take n value)) = 4 + n" by simp
  then show "4 dvd length (nl_tlvs (l @ l')) \<and> length (nl_tlvs (l @ l')) \<le> length (nl_tlvs l) + 20"
    using assms(2,4) by (auto simp: l'_def)
  show "(if has then sstp_route_addattr (nl_image h (nl_tlvs l)) ty len value else Some (nl_image h (nl_tlvs l)))
      = Some (nl_image h (nl_tlvs (l @ l')))"
    using addattr_image [of h "nl_tlvs l" n "value" ty] assms by (auto simp: l'_def)
qed

lemma head_image_write:
  "12 \<le> j \<Longrightarrow> j < 24 \<Longrightarrow> length x = 12 \<Longrightarrow>
   wr_n (nl_image (nl_head ty fl seq pid x) b) (4 + int j) [v] = Some (nl_image (nl_head ty fl seq pid (x[j - 12 := v])) b)"
  using image_write [of "4 + j" "nl_head ty fl seq pid x" b v] head_write [of j ty fl seq pid x v] by simp

lemma addattr_bits:
  fixes t :: u16 and has :: bool
  assumes "length x = 12" "4 dvd length (nl_tlvs l)" "length (nl_tlvs l) \<le> 80" "n = 4 \<or> n = 16" "int n = len" "n \<le> length value" "j < 12"
  shows "(if has then do { m \<leftarrow> sstp_route_addattr (nl_image (nl_head ty fl seq pid x) (nl_tlvs l)) t len value; wr_n m (16 + int j) [v] }
      else Some (nl_image (nl_head ty fl seq pid x) (nl_tlvs l)))
    = Some (nl_image (nl_head ty fl seq pid (if has then x[j := v] else x)) (nl_tlvs (l @ (if has then [(t, take n value)] else []))))"
  using addattr_if(1) [of "nl_head ty fl seq pid x" l n len "value" has t] head_image_write [of "12 + j" x ty fl seq pid _ v] assms
  by (cases has) simp_all

definition bits_set :: "sstp_route \<Rightarrow> bytes \<Rightarrow> bytes" where
  "bits_set r x =
     (let x = (if have_dst r then x[1 := word_of_int (rt_blen r * 8)] else x)
      in if have_src r then x[2 := word_of_int (rt_blen r * 8)] else x)"

text \<open>The four attributes behind a header.\<close>

lemma route_body:
  fixes ty fl :: u16 and seq pid :: u32
  assumes wf: "wf_route r" and x: "length x = 12"
  defines "img \<equiv> \<lambda>x l. nl_image (nl_head ty fl seq pid x) (nl_tlvs l)"
  shows "do {
       m \<leftarrow> (if have_dst r then do { m \<leftarrow> sstp_route_addattr (img x []) RTA_DST (rt_blen r) (rt_dst r); wr_n m 17 [word_of_int (rt_blen r * 8)] }
            else Some (img x []));
       m \<leftarrow> (if have_src r then do { m \<leftarrow> sstp_route_addattr m RTA_PREFSRC (rt_blen r) (rt_src r); wr_n m 18 [word_of_int (rt_blen r * 8)] }
            else Some m);
       m \<leftarrow> (if have_gwy r then sstp_route_addattr m RTA_GATEWAY (rt_blen r) (rt_gwy r) else Some m);
       (if have_oif r then sstp_route_addattr m RTA_OIF 4 (rt_oif r) else Some m) } = Some (img (bits_set r x) (route_list r))"
    and "length (nl_tlvs (route_list r)) \<le> 80"
proof -
  define n where "n = nat (rt_blen r)"
  have n: "n = 4 \<or> n = 16" "int n = rt_blen r" using wf by (auto simp: n_def wf_route_def)
  have len: "n \<le> length (rt_dst r)" "n \<le> length (rt_src r)" "n \<le> length (rt_gwy r)" "length (rt_oif r) = 4" using wf n by (auto simp: wf_route_def)
  define a1 where "a1 = [] @ (if have_dst r then [(RTA_DST, take n (rt_dst r))] else [])"
  define a2 where "a2 = a1 @ (if have_src r then [(RTA_PREFSRC, take n (rt_src r))] else [])"
  define a3 where "a3 = a2 @ (if have_gwy r then [(RTA_GATEWAY, take n (rt_gwy r))] else [])"
  define a4 where "a4 = a3 @ (if have_oif r then [(RTA_OIF, take 4 (rt_oif r))] else [])"
  have a4r: "a4 = route_list r" using len(4) by (simp add: a1_def a2_def a3_def a4_def route_list_def n_def)
  define h where "h = nl_head ty fl seq pid x"
  have h: "length h = 24" using x by (simp add: h_def)
  have d0: "4 dvd length (nl_tlvs [])" "length (nl_tlvs []) \<le> 80" by simp_all
  have d1: "4 dvd length (nl_tlvs a1)" "length (nl_tlvs a1) \<le> 20"
    using addattr_if(2) [OF h d0 n len(1), of "have_dst r" RTA_DST] by (simp_all add: a1_def)
  have d2: "4 dvd length (nl_tlvs a2)" "length (nl_tlvs a2) \<le> 40"
    using addattr_if(2) [OF h d1(1) _ n len(2), of "have_src r" RTA_PREFSRC] d1(2) by (simp_all add: a2_def)
  have d3: "4 dvd length (nl_tlvs a3)" "length (nl_tlvs a3) \<le> 60"
    using addattr_if(2) [OF h d2(1) _ n len(3), of "have_gwy r" RTA_GATEWAY] d2(2) by (simp_all add: a3_def)
  have d4: "length (nl_tlvs a4) \<le> 80"
    using addattr_if(2) [OF h d3(1), of 4 4 "rt_oif r" "have_oif r" RTA_OIF] d3(2) len(4) by (simp add: a4_def)
  then show "length (nl_tlvs (route_list r)) \<le> 80" unfolding a4r .
  define x1 where "x1 = (if have_dst r then x[1 := word_of_int (rt_blen r * 8)] else x)"
  define x2 where "x2 = (if have_src r then x1[2 := word_of_int (rt_blen r * 8)] else x1)"
  have l: "length x1 = 12" "length x2 = 12" using x by (simp_all add: x1_def x2_def)
  have "(if have_dst r then do { m \<leftarrow> sstp_route_addattr (img x []) RTA_DST (rt_blen r) (rt_dst r); wr_n m 17 [word_of_int (rt_blen r * 8)] }
      else Some (img x [])) = Some (img x1 a1)"
    using addattr_bits [OF x d0 n len(1), of 1 "have_dst r" ty fl seq pid RTA_DST "word_of_int (rt_blen r * 8)"]
    unfolding img_def x1_def a1_def by (cases "have_dst r") simp_all
  moreover have "(if have_src r then do { m \<leftarrow> sstp_route_addattr (img x1 a1) RTA_PREFSRC (rt_blen r) (rt_src r); wr_n m 18 [word_of_int (rt_blen r * 8)] }
      else Some (img x1 a1)) = Some (img x2 a2)"
    using addattr_bits [OF l(1) d1(1) _ n len(2), of 2 "have_src r" ty fl seq pid RTA_PREFSRC "word_of_int (rt_blen r * 8)"] d1(2)
    unfolding img_def x2_def a2_def by (cases "have_src r") simp_all
  moreover have "(if have_gwy r then sstp_route_addattr (img x2 a2) RTA_GATEWAY (rt_blen r) (rt_gwy r) else Some (img x2 a2)) = Some (img x2 a3)"
    using addattr_if(1) [of "nl_head ty fl seq pid x2", OF _ d2(1) _ n len(3)] d2(2) l(2) unfolding img_def a3_def by simp
  moreover have "(if have_oif r then sstp_route_addattr (img x2 a3) RTA_OIF 4 (rt_oif r) else Some (img x2 a3)) = Some (img x2 a4)"
    using addattr_if(1) [of "nl_head ty fl seq pid x2", OF _ d3(1), of 4 4 "rt_oif r"] d3(2) l(2) len(4) unfolding img_def a4_def by simp
  ultimately show "do {
       m \<leftarrow> (if have_dst r then do { m \<leftarrow> sstp_route_addattr (img x []) RTA_DST (rt_blen r) (rt_dst r); wr_n m 17 [word_of_int (rt_blen r * 8)] }
            else Some (img x []));
       m \<leftarrow> (if have_src r then do { m \<leftarrow> sstp_route_addattr m RTA_PREFSRC (rt_blen r) (rt_src r); wr_n m 18 [word_of_int (rt_blen r * 8)] }
            else Some m);
       m \<leftarrow> (if have_gwy r then sstp_route_addattr m RTA_GATEWAY (rt_blen r) (rt_gwy r) else Some m);
       (if have_oif r then sstp_route_addattr m RTA_OIF 4 (rt_oif r) else Some m) } = Some (img (bits_set r x) (route_list r))"
    by (simp only: Option.bind.simps bits_set_def Let_def x1_def x2_def a4r)
qed

lemma newmsg_wire:
  assumes wf: "wf_route r"
  shows "sstp_route_newmsg k r cmd fl c
    = Some (int (28 + length (nl_tlvs (route_list r))), c\<lparr>rc_seq := rc_seq c + 1,
        rc_buf := nl_image (nl_head cmd (NLM_F_REQUEST OR NLM_F_ACK OR fl) (rc_seq c + 1) (nl_pid k) (route_head cmd r)) (nl_tlvs (route_list r))\<rparr>)"
proof -
  define f where "f = NLM_F_REQUEST OR NLM_F_ACK OR fl"
  let ?img = "\<lambda>x l. nl_image (nl_head cmd f (rc_seq c + 1) (nl_pid k) x) (nl_tlvs l)"
  define x where "x = [word_of_int (rt_family r), 0, 0, 0, RT_TABLE_MAIN, if cmd = RTM_DELROUTE then 0 else RTPROT_BOOT,
    if have_gwy r then RT_SCOPE_UNIVERSE else RT_SCOPE_LINK, if cmd = RTM_DELROUTE then 0 else RTN_UNICAST, 0, 0, 0, 0]"
  have w: "wr_n (?img y []) (16 + int j) [v] = Some (?img (y[j := v]) [])" if "length y = 12" "j < 12" for y j v
    using head_image_write [of "12 + j" y cmd f "rc_seq c + 1" "nl_pid k" "[]" v] that by simp
  have r12: "replicate 12 (0 :: u8) = [0, 0, 0, 0, 0, 0, 0, 0, 0, 0, 0, 0]" by (simp add: numeral_eq_Suc)
  let ?H = "\<lambda>m. do { m \<leftarrow> wr_n m 20 [RT_TABLE_MAIN]; m \<leftarrow> wr_n m 16 [word_of_int (rt_family r)];
      m \<leftarrow> wr_n m 22 [if have_gwy r then RT_SCOPE_UNIVERSE else RT_SCOPE_LINK];
      (if cmd \<noteq> RTM_DELROUTE then do { m \<leftarrow> wr_n m 21 [RTPROT_BOOT]; wr_n m 23 [RTN_UNICAST] } else Some m) }"
  let ?B = "\<lambda>m. do {
       m \<leftarrow> (if have_dst r then do { m \<leftarrow> sstp_route_addattr m RTA_DST (rt_blen r) (rt_dst r); wr_n m 17 [word_of_int (rt_blen r * 8)] }
            else Some m);
       m \<leftarrow> (if have_src r then do { m \<leftarrow> sstp_route_addattr m RTA_PREFSRC (rt_blen r) (rt_src r); wr_n m 18 [word_of_int (rt_blen r * 8)] }
            else Some m);
       m \<leftarrow> (if have_gwy r then sstp_route_addattr m RTA_GATEWAY (rt_blen r) (rt_gwy r) else Some m);
       (if have_oif r then sstp_route_addattr m RTA_OIF 4 (rt_oif r) else Some m) }"
  have h: "?H (?img (replicate 12 0) []) = Some (?img x [])"
    using w [of _ 0] w [of _ 4] w [of _ 5] w [of _ 6] w [of _ 7] unfolding r12 x_def by (simp add: list_update_code)
  have x: "length x = 12" "bits_set r x = route_head cmd r"
    by (simp_all add: x_def bits_set_def route_head_def route_bits_def Let_def list_update_code)
  have n: "sint (of_nat (28 + length (nl_tlvs (route_list r))) :: u32) = int (28 + length (nl_tlvs (route_list r)))"
    using route_body(2) [OF wf x(1)] by (simp add: signed_of_nat signed_take_bit_int_eq_self del: of_nat_add)
  have "sstp_route_newmsg k r cmd fl c = do { m \<leftarrow> ?H (?img (replicate 12 0) []); m \<leftarrow> ?B m; n \<leftarrow> rdl32 m 0;
      Some (sint n, c\<lparr>rc_seq := rc_seq c + 1, rc_buf := m\<rparr>) }"
    by (simp only: sstp_route_newmsg_def request_image f_def [symmetric] Option.bind.simps prod.case bind_assoc tlvs_append)
  also have "\<dots> = do { m \<leftarrow> ?B (?img x []); n \<leftarrow> rdl32 m 0; Some (sint n, c\<lparr>rc_seq := rc_seq c + 1, rc_buf := m\<rparr>) }"
    by (simp only: h Option.bind.simps)
  also have "?B (?img x []) = Some (?img (route_head cmd r) (route_list r))"
    using route_body(1) [OF wf x(1)] unfolding x(2) .
  finally show ?thesis by (simp only: Option.bind.simps image_len n f_def)
qed

section \<open>What the kernel answers\<close>

text \<open>A message of another request that is not an error, the answer, and an error, of whatever request.\<close>

definition nl_fields :: "bytes \<Rightarrow> (u32 \<times> u16 \<times> u32 \<times> u32) option" where
  "nl_fields d = do { n \<leftarrow> rdl32 d 0; ty \<leftarrow> rdl16 d 4; seq \<leftarrow> rdl32 d 8; pid \<leftarrow> rdl32 d 12; Some (n, ty, seq, pid) }"

definition nl_stray :: "netlink \<Rightarrow> u32 \<Rightarrow> nl_answer \<Rightarrow> bool" where
  "nl_stray k seq a =
     (case a of Nl_again \<Rightarrow> True | Nl_error \<Rightarrow> False
      | Nl_data d \<Rightarrow> length d \<le> 1024 \<and> (case nl_fields d of None \<Rightarrow> False | Some (n, ty, s, p) \<Rightarrow>
          nlmsg_ok n (int (length d)) \<and> (ty \<noteq> NLMSG_ERROR \<or> rdl32 d 16 = Some 0) \<and> (s \<noteq> seq \<or> p \<noteq> nl_pid k)))"

definition nl_reply :: "netlink \<Rightarrow> u32 \<Rightarrow> bytes \<Rightarrow> bool" where
  "nl_reply k seq d \<longleftrightarrow> length d \<le> 1024 \<and> (case nl_fields d of None \<Rightarrow> False | Some (n, ty, s, p) \<Rightarrow>
     nlmsg_ok n (int (length d)) \<and> (ty \<noteq> NLMSG_ERROR \<or> rdl32 d 16 = Some 0) \<and> s = seq \<and> p = nl_pid k)"

definition nl_failure :: "bytes \<Rightarrow> bool" where
  "nl_failure d \<longleftrightarrow> length d \<le> 1024 \<and> (case nl_fields d of None \<Rightarrow> False | Some (n, ty, s, p) \<Rightarrow>
     nlmsg_ok n (int (length d)) \<and> ty = NLMSG_ERROR \<and> (\<exists>e. rdl32 d 16 = Some e \<and> e \<noteq> 0))"

lemma fields_message:
  "nl_fields (nl_message (nl_head ty fl seq pid route) b) = Some (of_nat (28 + length b), ty, seq, pid)"
proof -
  let ?n = "le32 (of_nat (28 + length b))"
  have "rdl32 (?n @ le16 ty @ le16 fl @ le32 seq @ le32 pid @ route @ b) 0 = Some (of_nat (28 + length b))"
    using rdl32_split [of 0 "[]"] by simp
  moreover have "rdl16 (?n @ le16 ty @ le16 fl @ le32 seq @ le32 pid @ route @ b) 4 = Some ty" using rdl16_split [of 4 ?n] by simp
  moreover have "rdl32 (?n @ le16 ty @ le16 fl @ le32 seq @ le32 pid @ route @ b) 8 = Some seq"
    using rdl32_split [of 8 "?n @ le16 ty @ le16 fl"] by simp
  moreover have "rdl32 (?n @ le16 ty @ le16 fl @ le32 seq @ le32 pid @ route @ b) 12 = Some pid"
    using rdl32_split [of 12 "?n @ le16 ty @ le16 fl @ le32 seq"] by simp
  ultimately show ?thesis by (simp add: nl_fields_def nl_message_def nl_head_def)
qed

lemma rd_left: "rd d i = Some b \<Longrightarrow> rd (d @ x) i = Some b"
  by (auto simp: rd_def nth_append split: if_splits)

lemma rdl_left: "rdl16 d i = Some v \<Longrightarrow> rdl16 (d @ x) i = Some v" "rdl32 d i = Some w \<Longrightarrow> rdl32 (d @ x) i = Some w"
  by (auto simp: rdl16_def rdl32_def rd_left split: Option.bind_splits)

lemma rdl_total: "0 \<le> i \<Longrightarrow> i + 4 \<le> int (length m) \<Longrightarrow> \<exists>v. rdl32 m i = Some v" "0 \<le> i \<Longrightarrow> i + 2 \<le> int (length m) \<Longrightarrow> \<exists>v. rdl16 m i = Some v"
  by (simp_all add: rdl16_def rdl32_def rd_def)

text \<open>A context that waits: nothing received, a message in the array.\<close>

definition nl_waits :: "route_ctx \<Rightarrow> bool" where
  "nl_waits c \<longleftrightarrow> length (rc_buf c) = 1024 \<and> rc_len c = 0 \<and> recv_more c = Some True"

lemma recv_stored:
  assumes "length (rc_buf c) = 1024" "rc_len c = 0" "length d \<le> 1024"
  shows "wr_n (rc_buf c) (rc_len c) (take (nat (1024 - rc_len c)) d) = Some (d @ drop (length d) (rc_buf c))"
  using assms by (simp add: wr_n_def)

lemma recv_skip:
  assumes "nl_waits c" "nl_stray k (rc_seq c) a"
  shows "\<exists>m. nl_waits (c\<lparr>rc_buf := m\<rparr>) \<and> recv_loop k (a # as) c = recv_loop k as (c\<lparr>rc_buf := m\<rparr>)"
proof (cases a)
  case Nl_again
  then show ?thesis using assms by (intro exI [of _ "rc_buf c"]) (simp add: nl_waits_def)
next
  case Nl_error
  then show ?thesis using assms(2) by (simp add: nl_stray_def)
next
  case (Nl_data d)
  let ?m = "d @ drop (length d) (rc_buf c)"
  have c: "length (rc_buf c) = 1024" "rc_len c = 0" using assms(1) by (simp_all add: nl_waits_def)
  obtain n ty s p where f: "rdl32 d 0 = Some n" "rdl16 d 4 = Some ty" "rdl32 d 8 = Some s" "rdl32 d 12 = Some p"
    "length d \<le> 1024" "nlmsg_ok n (int (length d))" "ty \<noteq> NLMSG_ERROR \<or> rdl32 d 16 = Some 0" "s \<noteq> rc_seq c \<or> p \<noteq> nl_pid k"
    using assms(2) Nl_data by (auto simp: nl_stray_def nl_fields_def split: Option.bind_splits option.splits)
  have m: "length ?m = 1024" using c(1) f(5) by simp
  obtain fl e where o: "rdl16 ?m 6 = Some fl" "rdl32 ?m 16 = Some e" using rdl_total [of _ ?m] m by fastforce
  have e: "\<not> (ty = NLMSG_ERROR \<and> e \<noteq> 0)" using f(7) o(2) rdl_left(2) [of d 16] by auto
  have more: "recv_more (c\<lparr>rc_buf := ?m\<rparr>) = Some True" using rdl_left(2) [OF f(1)] f(6) c(2) by (simp add: recv_more_def nlmsg_ok_def)
  have "nl_waits (c\<lparr>rc_buf := ?m\<rparr>)" using m c(2) more by (simp add: nl_waits_def)
  moreover have "recv_loop k (a # as) c = recv_loop k as (c\<lparr>rc_buf := ?m\<rparr>)"
    using f c o e more recv_stored [OF c f(5)] rdl_left(2) [OF f(1)] rdl_left(1) [OF f(2)] rdl_left(2) [OF f(3)] rdl_left(2) [OF f(4)] f(6)
    unfolding Nl_data by (auto simp: Let_def nlmsg_ok_def)
  ultimately show ?thesis by blast
qed

lemma recv_skips:
  "nl_waits c \<Longrightarrow> list_all (nl_stray k (rc_seq c)) xs \<Longrightarrow>
   \<exists>m. nl_waits (c\<lparr>rc_buf := m\<rparr>) \<and> recv_loop k (xs @ as) c = recv_loop k as (c\<lparr>rc_buf := m\<rparr>)"
proof (induction xs arbitrary: c)
  case Nil
  then show ?case by (intro exI [of _ "rc_buf c"]) simp
next
  case (Cons a xs)
  obtain m where m: "nl_waits (c\<lparr>rc_buf := m\<rparr>)" "recv_loop k (a # xs @ as) c = recv_loop k (xs @ as) (c\<lparr>rc_buf := m\<rparr>)"
    using recv_skip [of c k a "xs @ as"] Cons.prems by auto
  show ?case using Cons.IH [OF m(1)] Cons.prems m(2) by auto
qed

lemma recv_reply:
  assumes "nl_waits c" "nl_reply k (rc_seq c) d"
  shows "recv_loop k (Nl_data d # as) c
    = Some (Some (int (length d)), c\<lparr>rc_buf := d @ drop (length d) (rc_buf c), rc_len := int (length d)\<rparr>, as)"
proof -
  let ?m = "d @ drop (length d) (rc_buf c)"
  have c: "length (rc_buf c) = 1024" "rc_len c = 0" using assms(1) by (simp_all add: nl_waits_def)
  obtain n ty where f: "rdl32 d 0 = Some n" "rdl16 d 4 = Some ty" "rdl32 d 8 = Some (rc_seq c)" "rdl32 d 12 = Some (nl_pid k)"
    "length d \<le> 1024" "nlmsg_ok n (int (length d))" "ty \<noteq> NLMSG_ERROR \<or> rdl32 d 16 = Some 0"
    using assms(2) by (auto simp: nl_reply_def nl_fields_def split: Option.bind_splits option.splits)
  have m: "length ?m = 1024" using c(1) f(5) by simp
  obtain fl e where o: "rdl16 ?m 6 = Some fl" "rdl32 ?m 16 = Some e" using rdl_total [of _ ?m] m by fastforce
  have e: "\<not> (ty = NLMSG_ERROR \<and> e \<noteq> 0)" using f(7) o(2) rdl_left(2) [of d 16] by auto
  have more: "recv_more (c\<lparr>rc_buf := ?m, rc_len := int (length d)\<rparr>) = Some False"
    using rdl_left(2) [OF f(1)] f(6) by (simp add: recv_more_def nlmsg_ok_def)
  show ?thesis
    using f c o e more recv_stored [OF c f(5)] rdl_left(2) [OF f(1)] rdl_left(1) [OF f(2)] rdl_left(2) [OF f(3)] rdl_left(2) [OF f(4)]
    by (auto simp: Let_def nlmsg_ok_def)
qed

lemma recv_failure:
  assumes "nl_waits c" "nl_failure d"
  shows "recv_loop k (Nl_data d # as) c = Some (Some (-1), c\<lparr>rc_buf := d @ drop (length d) (rc_buf c)\<rparr>, as)"
proof -
  let ?m = "d @ drop (length d) (rc_buf c)"
  have c: "length (rc_buf c) = 1024" "rc_len c = 0" using assms(1) by (simp_all add: nl_waits_def)
  obtain n s p e where f: "rdl32 d 0 = Some n" "rdl16 d 4 = Some NLMSG_ERROR" "rdl32 d 8 = Some s" "rdl32 d 12 = Some p"
    "length d \<le> 1024" "nlmsg_ok n (int (length d))" "rdl32 d 16 = Some e" "e \<noteq> 0"
    using assms(2) by (auto simp: nl_failure_def nl_fields_def split: Option.bind_splits option.splits)
  have m: "length ?m = 1024" using c(1) f(5) by simp
  obtain fl where o: "rdl16 ?m 6 = Some fl" using rdl_total [of _ ?m] m by fastforce
  show ?thesis
    using f c o recv_stored [OF c f(5)] rdl_left(2) [OF f(1)] rdl_left(1) [OF f(2)] rdl_left(2) [OF f(3)] rdl_left(2) [OF f(4)] rdl_left(2) [OF f(7)]
    by (auto simp: Let_def nlmsg_ok_def)
qed

section \<open>Reading\<close>

text \<open>What an attribute means, on lists, and the attributes that fit their fields.\<close>

definition nl_put :: "bytes \<Rightarrow> bytes \<Rightarrow> bytes" where
  "nl_put v old = v @ drop (length v) old"

definition route_set :: "netlink \<Rightarrow> sstp_route \<Rightarrow> u16 \<times> bytes \<Rightarrow> sstp_route" where
  "route_set k r a = (case a of (ty, v) \<Rightarrow>
     if ty = RTA_OIF
     then r\<lparr>rt_ifname := (case Option.bind (rdl32 v 0) (nl_ifname k) of None \<Rightarrow> rt_ifname r | Some t \<Rightarrow> nl_put (t @ [0]) (rt_ifname r)),
            rt_oif := v, have_oif := True\<rparr>
     else if ty = RTA_GATEWAY then r\<lparr>rt_gwy := nl_put v (rt_gwy r), have_gwy := True\<rparr>
     else if ty = RTA_PREFSRC then r\<lparr>rt_src := nl_put v (rt_src r), have_src := True\<rparr>
     else if ty = RTA_DST then r\<lparr>rt_dst := nl_put v (rt_dst r), have_dst := True\<rparr>
     else r)"

definition attr_ok :: "netlink \<Rightarrow> u16 \<times> bytes \<Rightarrow> bool" where
  "attr_ok k a = (case a of (ty, v) \<Rightarrow>
     if ty = RTA_OIF
     then length v = 4 \<and> (case Option.bind (rdl32 v 0) (nl_ifname k) of None \<Rightarrow> True | Some t \<Rightarrow> length t \<le> 31)
     else if ty \<in> {RTA_GATEWAY, RTA_PREFSRC, RTA_DST} then length v \<le> 16 else length v \<le> 1000)"

lemma wf_route_set: "wf_route r \<Longrightarrow> attr_ok k a \<Longrightarrow> wf_route (route_set k r a)"
  by (cases a) (auto simp: wf_route_def route_set_def attr_ok_def nl_put_def rta_consts split: if_splits option.splits)

lemma wf_route_sets: "wf_route r \<Longrightarrow> list_all (attr_ok k) l \<Longrightarrow> wf_route (foldl (route_set k) r l)"
  by (induction l arbitrary: r) (simp_all add: wf_route_set)

lemma put_all: "length v \<le> length old \<Longrightarrow> wr_n old 0 v = Some (nl_put v old)"
  by (simp add: wr_n_def nl_put_def)

lemma attr_set:
  assumes "m = pre @ nl_tlv (ty, v) @ post" "a = int (length pre)" "attr_ok k (ty, v)" "wf_route r" "uint len = int (4 + length v)"
  shows "route_attr k m a len ty r = Some (route_set k r (ty, v))"
proof -
  let ?p = "pre @ le16 (of_nat (4 + length v)) @ le16 ty" and ?z = "replicate (nl_pad v) 0 @ post"
  have m: "m = ?p @ v @ ?z" "a + 4 = int (length ?p)" using assms(1,2) by (simp_all add: nl_tlv_def)
  have v: "rd_n m (a + 4) (uint len - 4) = Some v" using assms(5) unfolding m(2) m(1) by (simp add: rd_n_def)
  have i: "rdl32 m (a + 4) = rdl32 v 0" if v4: "length v = 4"
  proof -
    obtain x where "rdl32 v 0 = Some x" using rdl_total(1) [of 0 v] v4 by auto
    moreover have "rdl32 m (a + 4) = rdl32 (v @ ?z) 0" unfolding m(2) m(1)
      using rd_append_right [of 0 ?p "v @ ?z"] rd_append_right [of 1 ?p "v @ ?z"] rd_append_right [of 2 ?p "v @ ?z"] rd_append_right [of 3 ?p "v @ ?z"]
      by (simp add: rdl32_def)
    ultimately show ?thesis using rdl_left(2) [of v 0] by simp
  qed
  obtain x where x: "length v = 4 \<Longrightarrow> rdl32 v 0 = Some x" using rdl_total(1) [of 0 v] by fastforce
  show ?thesis
  proof (cases "ty = RTA_OIF")
    case True
    then have l: "length v = 4" using assms(3) by (simp add: attr_ok_def)
    have o: "nl_put v (rt_oif r) = v" using l assms(4) by (simp add: nl_put_def wf_route_def)
    show ?thesis using True assms(3,4) v i [OF l] x [OF l] l o
      by (cases "nl_ifname k x") (simp_all add: route_attr_def route_set_def attr_ok_def wf_route_def put_all)
  next
    case False
    then show ?thesis using assms(3,4) v
      by (auto simp: route_attr_def route_set_def attr_ok_def wf_route_def put_all rta_consts)
  qed
qed

lemma attrs_read_back:
  assumes "m = pre @ nl_tlvs l @ post" "a = int (length pre)" "list_all (attr_ok k) l" "wf_route r"
  shows "route_attrs k m a (int (length (nl_tlvs l))) r = Some (foldl (route_set k) r l)"
  using assms
proof (induction l arbitrary: pre a r)
  case Nil
  then show ?case by (simp add: route_attrs.simps)
next
  case (Cons x l)
  obtain ty v where x: "x = (ty, v)" by (cases x)
  have lv: "length v \<le> 1000" using Cons.prems(3) x by (auto simp: attr_ok_def split: if_splits)
  let ?t = "nl_tlv (ty, v)"
  have m: "m = pre @ ?t @ (nl_tlvs l @ post)" "m = (pre @ ?t) @ nl_tlvs l @ post" using Cons.prems(1) by (simp_all add: x nl_tlvs_def)
  have len: "uint (of_nat (4 + length v) :: u16) = int (4 + length v)" using lv
    by (simp add: unsigned_of_nat take_bit_nat_eq_self del: of_nat_add)
  have r: "rdl16 m a = Some (of_nat (4 + length v))" "rdl16 m (a + 2) = Some ty"
    using rdl16_split [of a pre "of_nat (4 + length v)"] rdl16_split [of "a + 2" "pre @ le16 (of_nat (4 + length v))" ty] Cons.prems(2)
    unfolding m(1) by (simp_all add: nl_tlv_def)
  have al: "int (length ?t) = NL_ALIGN (int (4 + length v))" using length_tlv [of "(ty, v)"] by simp
  have rtl: "int (length (nl_tlvs (x # l))) = int (length ?t) + int (length (nl_tlvs l))" by (simp add: x nl_tlvs_def)
  have ge: "int (4 + length v) \<le> NL_ALIGN (int (4 + length v))" unfolding al [symmetric] by (simp add: nl_tlv_def)
  have s: "route_attr k m a (of_nat (4 + length v)) ty r = Some (route_set k r (ty, v))"
    using attr_set [OF m(1) Cons.prems(2)] Cons.prems(3,4) x len by simp
  have "route_attrs k m a (int (length (nl_tlvs (x # l)))) r
      = route_attrs k m (a + int (length ?t)) (int (length (nl_tlvs l))) (route_set k r (ty, v))"
    using r s len ge unfolding rtl by (subst route_attrs.simps) (simp add: al del: of_nat_add)
  also have "\<dots> = Some (foldl (route_set k) (route_set k r (ty, v)) l)"
    by (rule Cons.IH [OF m(2)]) (use Cons.prems x wf_route_set in auto)
  finally show ?case by (simp add: x)
qed

section \<open>There and back\<close>

lemma talk_reply:
  assumes "\<forall>d. nl_send k d = int (length d)" "rc_buf c = nl_image h b" "length h = 24" "length b \<le> 996"
    and "list_all (nl_stray k (rc_seq c)) xs" "nl_reply k (rc_seq c) d"
  shows "\<exists>m. sstp_route_talk k (xs @ Nl_data d # as) (int (28 + length b)) c
    = Some (Some (int (length d)), c\<lparr>rc_buf := d @ m, rc_len := int (length d), rc_sent := rc_sent c @ [nl_message h b]\<rparr>, as)"
proof -
  let ?c = "c\<lparr>rc_sent := rc_sent c @ [nl_message h b], rc_len := 0\<rparr>"
  have r: "rd_n (rc_buf c) 0 (int (28 + length b)) = Some (nl_message h b)"
    using assms(3,4) by (simp add: assms(2) nl_image_def rd_n_def length_message)
  have n: "uint (of_nat (28 + length b) :: u32) = int (28 + length b)" using assms(4)
    by (simp add: unsigned_of_nat take_bit_nat_eq_self del: of_nat_add)
  have "nl_waits ?c" using image_len [of h b] n assms(3,4)
    by (simp add: nl_waits_def recv_more_def assms(2)) (simp add: nl_image_def length_message)
  then obtain m where m: "nl_waits (?c\<lparr>rc_buf := m\<rparr>)"
    "recv_loop k (xs @ Nl_data d # as) ?c = recv_loop k (Nl_data d # as) (?c\<lparr>rc_buf := m\<rparr>)"
    using recv_skips [of ?c k xs "Nl_data d # as"] assms(5) by auto
  have "recv_loop k (Nl_data d # as) (?c\<lparr>rc_buf := m\<rparr>)
      = Some (Some (int (length d)), ?c\<lparr>rc_buf := d @ drop (length d) m, rc_len := int (length d)\<rparr>, as)"
    using recv_reply [OF m(1)] assms(6) by simp
  moreover have "length (nl_message h b) = 28 + length b" using assms(3) by (rule length_message)
  ultimately show ?thesis using r m(2) assms(1)
    by (intro exI [of _ "drop (length d) m"]) (simp add: sstp_route_talk_def sstp_route_recv_def)
qed

lemma talk_failure:
  assumes "\<forall>d. nl_send k d = int (length d)" "rc_buf c = nl_image h b" "length h = 24" "length b \<le> 996"
    and "list_all (nl_stray k (rc_seq c)) xs" "nl_failure d"
  shows "\<exists>c'. sstp_route_talk k (xs @ Nl_data d # as) (int (28 + length b)) c = Some (Some (-1), c', as)"
proof -
  let ?c = "c\<lparr>rc_sent := rc_sent c @ [nl_message h b], rc_len := 0\<rparr>"
  have r: "rd_n (rc_buf c) 0 (int (28 + length b)) = Some (nl_message h b)"
    using assms(3,4) by (simp add: assms(2) nl_image_def rd_n_def length_message)
  have n: "uint (of_nat (28 + length b) :: u32) = int (28 + length b)" using assms(4)
    by (simp add: unsigned_of_nat take_bit_nat_eq_self del: of_nat_add)
  have "nl_waits ?c" using image_len [of h b] n assms(3,4)
    by (simp add: nl_waits_def recv_more_def assms(2)) (simp add: nl_image_def length_message)
  then obtain m where m: "nl_waits (?c\<lparr>rc_buf := m\<rparr>)"
    "recv_loop k (xs @ Nl_data d # as) ?c = recv_loop k (Nl_data d # as) (?c\<lparr>rc_buf := m\<rparr>)"
    using recv_skips [of ?c k xs "Nl_data d # as"] assms(5) by auto
  have "length (nl_message h b) = 28 + length b" using assms(3) by (rule length_message)
  then show ?thesis using r m(2) assms(1) recv_failure [OF m(1) assms(6)] by (simp add: sstp_route_talk_def sstp_route_recv_def)
qed

definition dst_ok :: "int \<times> bytes \<Rightarrow> bool" where
  "dst_ok dst \<longleftrightarrow> fst dst = FAM_INET \<and> length (snd dst) = 4 \<or> fst dst = FAM_INET6 \<and> length (snd dst) = 16"

text \<open>The two requests, and the route that an answer stands for.\<close>

definition get_wire :: "netlink \<Rightarrow> u32 \<Rightarrow> int \<times> bytes \<Rightarrow> bytes" where
  "get_wire k seq dst =
     nl_message (nl_head RTM_GETROUTE NLM_F_REQUEST seq (nl_pid k)
         [word_of_int (fst dst), of_nat (8 * length (snd dst)), 0, 0, RT_TABLE_MAIN, 0, 0, 0, 0, 0, 0, 0])
       (nl_tlv (RTA_DST, snd dst))"

definition put_wire :: "netlink \<Rightarrow> u32 \<Rightarrow> sstp_route \<Rightarrow> bytes" where
  "put_wire k seq r =
     nl_message (nl_head RTM_NEWROUTE (NLM_F_REQUEST OR NLM_F_ACK OR NLM_F_CREATE OR NLM_F_REPLACE) seq (nl_pid k) (route_head RTM_NEWROUTE r))
       (nl_tlvs (route_list r))"

definition route_answer :: "netlink \<Rightarrow> u8 \<Rightarrow> (u16 \<times> bytes) list \<Rightarrow> sstp_route" where
  "route_answer k fam l = foldl (route_set k) (route_zero\<lparr>rt_family := uint fam, rt_blen := if uint fam = FAM_INET6 then 16 else 4\<rparr>) l"

lemma wf_answer: "list_all (attr_ok k) l \<Longrightarrow> wf_route (route_answer k fam l)"
  unfolding route_answer_def by (rule wf_route_sets) (simp_all add: wf_route_def route_zero_def)

lemma get_request:
  assumes "dst_ok dst"
  defines "x \<equiv> [word_of_int (fst dst), of_nat (8 * length (snd dst)), 0, 0, RT_TABLE_MAIN, 0, 0, 0, 0, 0, 0, 0]"
  defines "b \<equiv> nl_tlv (RTA_DST, snd dst)"
  shows "route_get_msg k dst c = Some (int (28 + length b), c\<lparr>rc_seq := rc_seq c + 1,
      rc_buf := nl_image (nl_head RTM_GETROUTE NLM_F_REQUEST (rc_seq c + 1) (nl_pid k) x) b\<rparr>)" "length b \<le> 20"
proof -
  define h where "h = (\<lambda>x. nl_head RTM_GETROUTE NLM_F_REQUEST (rc_seq c + 1) (nl_pid k) x)"
  have w: "wr_n (nl_image (h x) b) (16 + int j) [v] = Some (nl_image (h (x[j := v])) b)" if "length x = 12" "j < 12" for x j v b
    using head_image_write [of "12 + j" x RTM_GETROUTE NLM_F_REQUEST "rc_seq c + 1" "nl_pid k" b v] that by (simp add: h_def)
  have r12: "replicate 12 (0 :: u8) = [0, 0, 0, 0, 0, 0, 0, 0, 0, 0, 0, 0]" by (simp add: numeral_eq_Suc)
  have l: "length (h x) = 12 + length x" for x by (simp add: h_def)
  have a: "sstp_route_addattr (nl_image (h x) []) RTA_DST (int n) (snd dst) = Some (nl_image (h x) (nl_tlv (RTA_DST, snd dst)))"
    if "length x = 12" "n = length (snd dst)" "n = 4 \<or> n = 16" for x n
    using addattr_image [of "h x" "[]" n "snd dst" RTA_DST] l that by auto
  have d: "fst dst = 2 \<and> length (snd dst) = 4 \<or> fst dst = 10 \<and> length (snd dst) = 16" using assms(1) by (cases dst) (auto simp: dst_ok_def)
  show b: "length b \<le> 20" using d length_tlv [of "(RTA_DST, snd dst)"] nl_align_4 [of 8] nl_align_4 [of 20] by (auto simp: b_def)
  have n: "sint (of_nat (28 + length b) :: u32) = int (28 + length b)" using b
    by (simp add: signed_of_nat signed_take_bit_int_eq_self del: of_nat_add)
  have "route_get_msg k dst c = do { n \<leftarrow> rdl32 (nl_image (h x) b) 0; Some (sint n, c\<lparr>rc_seq := rc_seq c + 1, rc_buf := nl_image (h x) b\<rparr>) }"
    using d w [of _ 0] w [of _ 4] w [of _ 1] a [of _ 4] a [of _ 16]
    unfolding route_get_msg_def request_image h_def [symmetric] r12 x_def b_def by (elim disjE conjE) (simp_all add: list_update_code)
  then show "route_get_msg k dst c = Some (int (28 + length b), c\<lparr>rc_seq := rc_seq c + 1,
      rc_buf := nl_image (nl_head RTM_GETROUTE NLM_F_REQUEST (rc_seq c + 1) (nl_pid k) x) b\<rparr>)"
    using image_len [of "h x" b] n by (simp add: h_def)
qed

lemma answer_read:
  assumes "length h = 24" "h ! 12 \<in> {2, 10}" "list_all (attr_ok k) l" "length (nl_tlvs l) \<le> 996"
  defines "d \<equiv> nl_message h (nl_tlvs l)"
  shows "route_get_answer k (int (length d)) (d @ m) old = Some (0, route_answer k (h ! 12) l)"
proof -
  let ?B = "length (nl_tlvs l)"
  have d: "length d = 28 + ?B" unfolding d_def using assms(1) by (rule length_message)
  have u: "uint (of_nat (28 + ?B) :: u32) = int (28 + ?B)" using assms(4) by (simp add: unsigned_of_nat take_bit_nat_eq_self del: of_nat_add)
  have s: "sint (of_nat (28 + ?B) - 28 :: u32) = int ?B" using assms(4) by (simp add: signed_of_nat signed_take_bit_int_eq_self)
  have r0: "rdl32 (d @ m) 0 = Some (of_nat (28 + ?B))" using rdl32_split [of 0 "[]" "of_nat (28 + ?B)"] by (simp add: d_def nl_message_def)
  have ok: "nlmsg_ok (of_nat (28 + ?B)) (int (length d))" using u d by (simp add: nlmsg_ok_def)
  have fam: "rd (d @ m) 16 = Some (h ! 12)" using assms(1) by (simp add: d_def rd_def nl_message_def nth_append)
  have f2: "\<not> (uint (h ! 12) \<noteq> FAM_INET \<and> uint (h ! 12) \<noteq> FAM_INET6)" using assms(2) by auto
  have "route_attrs k (d @ m) 28 (int ?B) (route_zero\<lparr>rt_family := uint (h ! 12), rt_blen := if uint (h ! 12) = FAM_INET6 then 16 else 4\<rparr>)
      = Some (route_answer k (h ! 12) l)" unfolding route_answer_def
    by (rule attrs_read_back [of _ "le32 (of_nat (28 + ?B)) @ h" _ m])
      (use assms(1,3) in \<open>auto simp: d_def nl_message_def wf_route_def route_zero_def\<close>)
  then show ?thesis using r0 ok fam f2 s by (simp only: route_get_answer_def Let_def Option.bind.simps if_False not_True_eq_False)
qed

lemma get_reply:
  assumes "\<forall>d. nl_send k d = int (length d)" "dst_ok dst" "list_all (nl_stray k (rc_seq c + 1)) xs"
    and "nl_reply k (rc_seq c + 1) (nl_message h (nl_tlvs l))" "length h = 24" "h ! 12 \<in> {2, 10}" "list_all (attr_ok k) l"
  shows "\<exists>c1. sstp_route_get k dst old (xs @ Nl_data (nl_message h (nl_tlvs l)) # as) c = Some (Some 0, route_answer k (h ! 12) l, c1, as)
    \<and> rc_seq c1 = rc_seq c + 1 \<and> rc_sent c1 = rc_sent c @ [get_wire k (rc_seq c + 1) dst]"
proof -
  let ?h = "nl_head RTM_GETROUTE NLM_F_REQUEST (rc_seq c + 1) (nl_pid k)
    [word_of_int (fst dst), of_nat (8 * length (snd dst)), 0, 0, RT_TABLE_MAIN, 0, 0, 0, 0, 0, 0, 0]"
  let ?b = "nl_tlv (RTA_DST, snd dst)" and ?d = "nl_message h (nl_tlvs l)"
  let ?c = "c\<lparr>rc_seq := rc_seq c + 1, rc_buf := nl_image ?h ?b\<rparr>"
  obtain m where m: "sstp_route_talk k (xs @ Nl_data ?d # as) (int (28 + length ?b)) ?c
      = Some (Some (int (length ?d)), ?c\<lparr>rc_buf := ?d @ m, rc_len := int (length ?d), rc_sent := rc_sent c @ [nl_message ?h ?b]\<rparr>, as)"
    using talk_reply [of k ?c ?h ?b xs ?d as] assms(1,3,4) get_request(2) [OF assms(2)] by auto
  have "length (nl_tlvs l) \<le> 996" using assms(4) length_message [OF assms(5), of "nl_tlvs l"] by (simp add: nl_reply_def)
  note a = answer_read [OF assms(5,6,7) this, of m old]
  show ?thesis
    using m a by (intro exI [of _ "?c\<lparr>rc_buf := ?d @ m, rc_len := int (length ?d), rc_sent := rc_sent c @ [nl_message ?h ?b]\<rparr>"])
      (simp add: get_wire_def sstp_route_get_def get_request(1) [OF assms(2)])
qed

lemma get_failure:
  assumes "\<forall>d. nl_send k d = int (length d)" "dst_ok dst" "list_all (nl_stray k (rc_seq c + 1)) xs" "nl_failure e"
  shows "\<exists>c1. sstp_route_get k dst old (xs @ Nl_data e # as) c = Some (Some (-1), old, c1, as)"
proof -
  let ?h = "nl_head RTM_GETROUTE NLM_F_REQUEST (rc_seq c + 1) (nl_pid k)
    [word_of_int (fst dst), of_nat (8 * length (snd dst)), 0, 0, RT_TABLE_MAIN, 0, 0, 0, 0, 0, 0, 0]"
  let ?b = "nl_tlv (RTA_DST, snd dst)"
  obtain c1 where "sstp_route_talk k (xs @ Nl_data e # as) (int (28 + length ?b)) (c\<lparr>rc_seq := rc_seq c + 1, rc_buf := nl_image ?h ?b\<rparr>)
      = Some (Some (-1), c1, as)"
    using talk_failure [of k "c\<lparr>rc_seq := rc_seq c + 1, rc_buf := nl_image ?h ?b\<rparr>" ?h ?b xs e as] assms(1,3,4) get_request(2) [OF assms(2)] by auto
  then show ?thesis by (simp add: sstp_route_get_def get_request(1) [OF assms(2)])
qed

lemma replace_reply:
  assumes "\<forall>d. nl_send k d = int (length d)" "wf_route r" "list_all (nl_stray k (rc_seq c + 1)) ys" "nl_reply k (rc_seq c + 1) ack"
  shows "\<exists>c2. sstp_route_replace k r (ys @ Nl_data ack # bs) c = Some (Some 0, c2, bs)
    \<and> rc_seq c2 = rc_seq c + 1 \<and> rc_sent c2 = rc_sent c @ [put_wire k (rc_seq c + 1) r]"
proof -
  define h where "h = nl_head RTM_NEWROUTE (NLM_F_REQUEST OR NLM_F_ACK OR (NLM_F_CREATE OR NLM_F_REPLACE)) (rc_seq c + 1) (nl_pid k) (route_head RTM_NEWROUTE r)"
  define b where "b = nl_tlvs (route_list r)"
  define c0 where "c0 = c\<lparr>rc_seq := rc_seq c + 1, rc_buf := nl_image h b\<rparr>"
  have "length h = 24" by (simp add: h_def route_head_def)
  moreover have "length b \<le> 996" using route_body(2) [OF assms(2), of "replicate 12 0"] by (simp add: b_def)
  ultimately obtain m where m: "sstp_route_talk k (ys @ Nl_data ack # bs) (int (28 + length b)) c0
      = Some (Some (int (length ack)), c0\<lparr>rc_buf := ack @ m, rc_len := int (length ack), rc_sent := rc_sent c @ [nl_message h b]\<rparr>, bs)"
    using talk_reply [of k c0 h b ys ack bs] assms(1,3,4) by (auto simp: c0_def)
  have "sstp_route_newmsg k r RTM_NEWROUTE (NLM_F_CREATE OR NLM_F_REPLACE) c = Some (int (28 + length b), c0)"
    using newmsg_wire [OF assms(2), of k RTM_NEWROUTE "NLM_F_CREATE OR NLM_F_REPLACE" c] by (simp add: h_def b_def c0_def)
  then show ?thesis using m
    by (intro exI [of _ "c0\<lparr>rc_buf := ack @ m, rc_len := int (length ack), rc_sent := rc_sent c @ [nl_message h b]\<rparr>"])
      (simp add: sstp_route_replace_def put_wire_def c0_def h_def b_def or.assoc)
qed

section \<open>What goes wrong\<close>

text \<open>A send that is cut short is taken for an answer: the route counts as replaced.\<close>

lemma short_send_succeeds:
  assumes "wf_route r" "\<forall>d. nl_send k d = 1"
  shows "\<exists>c'. sstp_route_replace k r [] c = Some (Some 0, c', [])"
proof -
  define c0 where "c0 = snd (the (sstp_route_newmsg k r RTM_NEWROUTE (NLM_F_CREATE OR NLM_F_REPLACE) c))"
  define b where "b = nl_tlvs (route_list r)"
  have n: "sstp_route_newmsg k r RTM_NEWROUTE (NLM_F_CREATE OR NLM_F_REPLACE) c = Some (int (28 + length b), c0)"
    using newmsg_wire [OF assms(1), of k RTM_NEWROUTE "NLM_F_CREATE OR NLM_F_REPLACE" c] by (simp add: c0_def b_def)
  have "length (rc_buf c0) = 1024" "length b \<le> 80"
    using newmsg_wire [OF assms(1), of k RTM_NEWROUTE "NLM_F_CREATE OR NLM_F_REPLACE" c] route_body(2) [OF assms(1), of "replicate 12 0"]
    by (simp_all add: c0_def b_def nl_image_def length_message route_head_def)
  then obtain data where "rd_n (rc_buf c0) 0 (int (28 + length b)) = Some data" by (simp add: rd_n_def)
  then show ?thesis using n assms(2) by (simp add: sstp_route_replace_def sstp_route_talk_def)
qed

text \<open>An address in an answer is copied with the length that its attribute has.\<close>

lemma long_gateway_overruns:
  assumes "16 < uint len - 4" "wf_route r"
  shows "route_attr k m a len RTA_GATEWAY r = None"
  using assms rd_n_length [of m "a + 4" "uint len - 4"]
  by (cases "rd_n m (a + 4) (uint len - 4)") (auto simp: route_attr_def rta_consts wf_route_def wr_n_def)

section \<open>Properties\<close>

text \<open>C32. A saved route: after messages of other requests that are not errors, the route in the kernel's answer is read
  attribute by attribute, and putting it back sends the two requests and no more: one for the destination, and one with the
  family and the attributes of exactly the route that was read, and succeeds on the acknowledgement. The prefix length in
  the answer is not read: the route is put back as one to the host. An error ends the request with -1 and leaves the route as it
  was, also an error of another request, since the program looks at it before the sequence number.\<close>

theorem route_put_back:
  assumes "\<forall>d. nl_send k d = int (length d)" "dst_ok dst" "list_all (nl_stray k (rc_seq c + 1)) xs"
    and "nl_reply k (rc_seq c + 1) (nl_message h (nl_tlvs l))" "length h = 24" "h ! 12 \<in> {2, 10}" "list_all (attr_ok k) l"
    and "list_all (nl_stray k (rc_seq c + 2)) ys" "nl_reply k (rc_seq c + 2) ack"
  shows "(\<exists>c1 c2. sstp_route_get k dst old (xs @ Nl_data (nl_message h (nl_tlvs l)) # as) c = Some (Some 0, route_answer k (h ! 12) l, c1, as)
      \<and> sstp_route_replace k (route_answer k (h ! 12) l) (ys @ Nl_data ack # bs) c1 = Some (Some 0, c2, bs)
      \<and> rc_sent c2 = rc_sent c @ [get_wire k (rc_seq c + 1) dst, put_wire k (rc_seq c + 2) (route_answer k (h ! 12) l)])
    \<and> (\<forall>e. nl_failure e \<longrightarrow> (\<exists>c1. sstp_route_get k dst old (xs @ Nl_data e # as) c = Some (Some (-1), old, c1, as)))"
proof (intro conjI allI impI)
  obtain c1 where c1: "sstp_route_get k dst old (xs @ Nl_data (nl_message h (nl_tlvs l)) # as) c = Some (Some 0, route_answer k (h ! 12) l, c1, as)"
    "rc_seq c1 = rc_seq c + 1" "rc_sent c1 = rc_sent c @ [get_wire k (rc_seq c + 1) dst]"
    using get_reply [OF assms(1-7), of old as] by blast
  have s: "rc_seq c1 + 1 = rc_seq c + 2" using c1(2) by simp
  show "\<exists>c1 c2. sstp_route_get k dst old (xs @ Nl_data (nl_message h (nl_tlvs l)) # as) c = Some (Some 0, route_answer k (h ! 12) l, c1, as)
      \<and> sstp_route_replace k (route_answer k (h ! 12) l) (ys @ Nl_data ack # bs) c1 = Some (Some 0, c2, bs)
      \<and> rc_sent c2 = rc_sent c @ [get_wire k (rc_seq c + 1) dst, put_wire k (rc_seq c + 2) (route_answer k (h ! 12) l)]"
    using c1 replace_reply [OF assms(1) wf_answer [OF assms(7)], of c1 ys ack "h ! 12" bs] assms(8,9) unfolding s by auto
qed (rule get_failure [OF assms(1-3)])

text \<open>A server behind a gateway: the kernel repeats an old message and adds an attribute that the program does not know.\<close>

definition demo_netlink :: netlink where
  "demo_netlink = \<lparr>nl_pid = 77, nl_socket = 3, nl_memory = True, nl_send = (\<lambda>d. int (length d)), nl_ifname = (\<lambda>i. if i = 2 then Some [101, 116, 104, 48] else None)\<rparr>"

definition demo_route_ctx :: route_ctx where
  "demo_route_ctx = the (snd (sstp_route_init demo_netlink))"

definition demo_nl_head :: "u16 \<Rightarrow> u32 \<Rightarrow> bytes" where
  "demo_nl_head ty seq = nl_head ty 0 seq 77 [2, 32, 0, 0, 254, 3, 0, 1, 0, 0, 0, 0]"

definition demo_attrs :: "(u16 \<times> bytes) list" where
  "demo_attrs = [(15, [254, 0, 0, 0]), (RTA_DST, [203, 0, 113, 9]), (RTA_OIF, [2, 0, 0, 0]), (RTA_PREFSRC, [10, 0, 0, 5]), (RTA_GATEWAY, [10, 0, 0, 1])]"

lemma route_put_back_witness:
  "(\<exists>r c1 c2. sstp_route_get demo_netlink (2, [203, 0, 113, 9]) route_zero
       [Nl_again, Nl_data (nl_message (demo_nl_head RTM_NEWROUTE 0) []), Nl_data (nl_message (demo_nl_head RTM_NEWROUTE 1) (nl_tlvs demo_attrs))] demo_route_ctx
     = Some (Some 0, r, c1, [])
   \<and> sstp_route_replace demo_netlink r [Nl_data (nl_message (nl_head NLMSG_ERROR 0 2 77 (replicate 12 0)) [])] c1 = Some (Some 0, c2, [])
   \<and> rc_sent c2 = [nl_message (nl_head RTM_GETROUTE 1 1 77 [2, 32, 0, 0, 254, 0, 0, 0, 0, 0, 0, 0]) (nl_tlvs [(RTA_DST, [203, 0, 113, 9])]),
       nl_message (nl_head RTM_NEWROUTE 0x505 2 77 [2, 32, 32, 0, 254, 3, 0, 1, 0, 0, 0, 0])
         (nl_tlvs [(RTA_DST, [203, 0, 113, 9]), (RTA_PREFSRC, [10, 0, 0, 5]), (RTA_GATEWAY, [10, 0, 0, 1]), (RTA_OIF, [2, 0, 0, 0])])])
   \<and> (\<exists>c1. sstp_route_get demo_netlink (2, [203, 0, 113, 9]) route_zero
       [Nl_again, Nl_data (nl_message (demo_nl_head RTM_NEWROUTE 0) []), Nl_data (nl_message (nl_head NLMSG_ERROR 0 999 5 (255 # replicate 11 0)) [])] demo_route_ctx
     = Some (Some (-1), route_zero, c1, []))"
proof -
  let ?h = "demo_nl_head RTM_NEWROUTE 1" and ?a = "nl_message (nl_head NLMSG_ERROR 0 2 77 (replicate 12 0)) []"
  have c: "rc_seq demo_route_ctx = 0" "rc_sent demo_route_ctx = []" "nl_pid demo_netlink = 77"
    by (simp_all add: demo_route_ctx_def sstp_route_init_def demo_netlink_def)
  have k: "\<forall>d. nl_send demo_netlink d = int (length d)" "dst_ok (2, [203, 0, 113, 9])" by (simp_all add: demo_netlink_def dst_ok_def)
  have t: "length (nl_tlvs demo_attrs) = 40" by (simp add: nl_tlvs_def nl_tlv_def demo_attrs_def nl_pad_def NL_ALIGN_def)
  have x: "list_all (nl_stray demo_netlink (rc_seq demo_route_ctx + 1)) [Nl_again, Nl_data (nl_message (demo_nl_head RTM_NEWROUTE 0) [])]"
    by (simp add: nl_stray_def demo_nl_head_def fields_message length_message c nlmsg_ok_def nl_consts)
  have r: "nl_reply demo_netlink (rc_seq demo_route_ctx + 1) (nl_message ?h (nl_tlvs demo_attrs))"
    by (simp add: nl_reply_def demo_nl_head_def fields_message length_message c nlmsg_ok_def nl_consts t)
  have h: "length ?h = 24" "?h ! 12 = 2" "?h ! 12 \<in> {2, 10}" by (simp_all add: demo_nl_head_def nl_head_def nth_append)
  have l: "list_all (attr_ok demo_netlink) demo_attrs"
    by (simp add: demo_attrs_def attr_ok_def rta_consts rdl32_def rd_def demo_netlink_def un32_def)
  have a: "nl_reply demo_netlink (rc_seq demo_route_ctx + 2) ?a"
    by (simp add: nl_reply_def fields_message length_message c nlmsg_ok_def) (simp add: nl_message_def nl_head_def rdl32_def rd_def nth_append nth_Cons' un32_def)
  have g: "get_wire demo_netlink 1 (2, [203, 0, 113, 9])
      = nl_message (nl_head RTM_GETROUTE 1 1 77 [2, 32, 0, 0, 254, 0, 0, 0, 0, 0, 0, 0]) (nl_tlvs [(RTA_DST, [203, 0, 113, 9])])"
    by (simp add: get_wire_def c nl_consts)
  have p: "put_wire demo_netlink 2 (route_answer demo_netlink 2 demo_attrs) = nl_message (nl_head RTM_NEWROUTE 0x505 2 77 [2, 32, 32, 0, 254, 3, 0, 1, 0, 0, 0, 0])
         (nl_tlvs [(RTA_DST, [203, 0, 113, 9]), (RTA_PREFSRC, [10, 0, 0, 5]), (RTA_GATEWAY, [10, 0, 0, 1]), (RTA_OIF, [2, 0, 0, 0])])"
    by (simp add: put_wire_def c route_head_def route_bits_def route_list_def route_answer_def route_set_def demo_attrs_def nl_put_def route_zero_def
        rta_consts nl_consts del: tlvs_append)
  have f: "nl_failure (nl_message (nl_head NLMSG_ERROR 0 999 5 (255 # replicate 11 0)) [])"
    by (simp add: nl_failure_def fields_message length_message nlmsg_ok_def) (simp add: nl_message_def nl_head_def rdl32_def rd_def nth_append nth_Cons' un32_def)
  have y: "list_all (nl_stray demo_netlink (rc_seq demo_route_ctx + 2)) []" by simp
  note b = route_put_back [OF k x r h(1,3) l y a, of route_zero "[]" "[]", unfolded h(2) c]
  show ?thesis using conjunct1 [OF b] mp [OF spec [OF conjunct2 [OF b]] f] by (simp add: g p) blast
qed

end
