(* ===== verification/Spec2Isabelle.thy ===== *)
theory Spec2Isabelle
  imports Fcs PppProofs StateProofs StreamProofs HttpProofs Url IosReady ClientLink DumpProofs LogProofs RouteProofs
begin

text \<open>
  \<^bold>\<open>SSTP client for iOS: verification library.\<close>

  The program is the engine in \<^verbatim>\<open>sstp/\<close>: an SSTP VPN client in C, run by an iOS Packet
  Tunnel extension. A session (\<^verbatim>\<open>sstp-ios.c\<close>) opens a TLS stream (\<^verbatim>\<open>sstp-stream.c\<close>), upgrades
  it with an HTTP request (\<^verbatim>\<open>sstp-http.c\<close>), starts the SSTP state machine on it
  (\<^verbatim>\<open>sstp-state.c\<close>) and, when the server acknowledges the call, an in-process PPP engine
  (\<^verbatim>\<open>ios-pppd.c\<close>). PPP authenticates with MS-CHAPv2 (\<^verbatim>\<open>sstp-mschapv2.c\<close>,
  \<^verbatim>\<open>sstp-chap.c\<close>); from the keys it leaves the state machine computes the compound MAC of the
  crypto binding (\<^verbatim>\<open>sstp-cmac.c\<close>), which ties the TLS certificate to the authentication. After that
  IP packets go between the application and the tunnel. Everything happens in callbacks of one libevent
  loop; two socket pairs let other threads inject packets and stop the loop.

  The repository has a second client on the same stream, upgrade and state machine, the command line program
  of Linux: \<^verbatim>\<open>sstp-client.c\<close> with the options of \<^verbatim>\<open>sstp-option.c\<close> runs an external pppd (\<^verbatim>\<open>sstp-task.c\<close>) behind
  a bridge of HDLC frames (\<^verbatim>\<open>sstp-pppd.c\<close>, \<^verbatim>\<open>sstp-fcs.c\<close>) and takes the keys from the packets it sees, or from
  a plugin in pppd (\<^verbatim>\<open>sstp-event.c\<close>, \<^verbatim>\<open>sstp-api.c\<close>).

  \<^bold>\<open>Theories.\<close> Each opens with what it holds; a theory \<open>XProofs\<close> is about theory \<open>X\<close>.
  \<^item> \<open>Prelude\<close>: words and bytes, \<open>status_t\<close>, C memory access (\<open>rd\<close>, \<open>rd_n\<close>, \<open>wr_n\<close>, with \<open>None\<close> for an
    access outside), and the interface locales: \<open>codec\<close> (a decoder that undoes its encoder),
    \<open>enabled_machine\<close> and \<open>guarded_machine\<close> (every allowed step answers and keeps an invariant),
    \<open>latched_machine\<close> (with a condition that is never left).
  \<^item> \<open>Buff\<close>, \<open>Fcs\<close>, \<open>Packet\<close>: \<^verbatim>\<open>sstp-buff.c\<close>, \<^verbatim>\<open>sstp-fcs.c\<close>, \<^verbatim>\<open>sstp-packet.c\<close>.
  \<^item> \<open>Openssl\<close>: the cryptographic primitives as a record of functions. \<open>Chap\<close>, \<open>Mschapv2\<close>, \<open>Cmac\<close>:
    the key schedule, the response, the compound MAC.
  \<^item> \<open>Ppp\<close>, \<open>PppProofs\<close>: \<^verbatim>\<open>ios-pppd.c\<close>; \<open>PppLink\<close>: what it makes of the packets of a server.
  \<^item> \<open>State\<close>, \<open>StateProofs\<close>: \<^verbatim>\<open>sstp-state.c\<close>, and the interfaces \<open>state_calls\<close> and \<open>state_world\<close>
    that say what the machine needs of its client and its stream.
  \<^item> \<open>Stream\<close>, \<open>StreamProofs\<close>: \<^verbatim>\<open>sstp-stream.c\<close>. \<open>Http\<close>, \<open>HttpProofs\<close>: \<^verbatim>\<open>sstp-http.c\<close> and the header
    parser of \<^verbatim>\<open>sstp-buff.c\<close>. \<open>Url\<close>: \<^verbatim>\<open>sstp-util.c\<close> (URLs). \<open>IosError\<close>: \<^verbatim>\<open>sstp-ios-error.c\<close>.
  \<^item> \<open>IosTls\<close>, \<open>Ios\<close>: \<^verbatim>\<open>sstp-ios.c\<close>, its trust decisions and its session. \<open>IosProofs\<close> has the invariant
    of the whole client and the interpretations of the interfaces, \<open>IosRun\<close> the runs of a session,
    \<open>IosEdges\<close> the injection of packets and the pin, \<open>IosLink\<close> and \<open>IosReady\<close> the session against a server.
  \<^item> \<open>Options\<close>, \<open>Task\<close>, \<open>Api\<close>, \<open>Channel\<close>: \<^verbatim>\<open>sstp-option.c\<close>, \<^verbatim>\<open>sstp-task.c\<close>, \<^verbatim>\<open>sstp-api.c\<close>, \<^verbatim>\<open>sstp-event.c\<close>.
    \<open>Pty\<close>, \<open>PtyLoop\<close>, \<open>PtyProofs\<close>: \<^verbatim>\<open>sstp-pppd.c\<close>. \<open>Client\<close>: \<^verbatim>\<open>sstp-client.c\<close>; \<open>Frames\<close> has the interfaces
    \<open>state_frame\<close> and \<open>bridge_frame\<close> (what an operation leaves of the record that extends its own),
    \<open>ClientProofs\<close> and \<open>ClientLink\<close> what the client does with them.
  \<^item> \<open>Util\<close>: the other helpers of \<^verbatim>\<open>sstp-util.c\<close> (accounts, the sandbox over the state of a process, addresses,
    hexadecimal text) and printed numbers. \<open>Dump\<close>, \<open>DumpProofs\<close>: \<^verbatim>\<open>sstp-dump.c\<close>, the trace of packets, with the
    interfaces \<open>option_printer\<close> and \<open>conf_printer\<close>. \<open>Log\<close>, \<open>LogProofs\<close>: \<^verbatim>\<open>sstp-log.c\<close> with the outputs
    \<^verbatim>\<open>sstp-log-std.c\<close>, \<^verbatim>\<open>sstp-log-file.c\<close>, \<^verbatim>\<open>sstp-log-syslog.c\<close>.
  \<^item> \<open>Route\<close>, \<open>RouteProofs\<close>: \<^verbatim>\<open>sstp-route.c\<close>, the branch with netlink.

  \<^bold>\<open>State and operations.\<close> A C struct is a record with the fields of the source, a function
  the definition of the same name on it. A memory error (an access outside an array, a null pointer
  followed) is \<open>None\<close>; a status is the value the code returns. Pointers into a buffer are offsets.
  A PPP context keeps a ghost list \<open>trace\<close> of the calls it has made; a session keeps the messages sent with
  the answers they got (\<open>s_sent\<close>, \<open>l_sent\<close>) and the calls of the application (\<open>s_calls\<close>). The outside is an
  argument: \<open>ppp_env\<close>, \<open>ios_env\<close>, \<open>client_env\<close> (memory, random numbers, answers of the stream, OpenSSL), answer
  lists of the sockets in \<open>stream\<close>, \<open>start_env\<close>, \<open>main_env\<close>. What is assumed of it is written as hypotheses:
  \<open>digest_lengths\<close> and the inverse of RC4 for the primitives, \<open>env_ok\<close>, \<open>ios_env_ok\<close> (digests of
  certificates have their length, the GUID fits, memory for the state machine is found).

  A client is one state: the record \<open>sstp_state\<close> extended by the session (\<open>ios\<close>) or by the command line client
  (\<open>client\<close>). The machine's calls of its client and stream are the record \<open>world\<close>; the clients' are \<open>ios_world\<close> and
  \<open>client_world\<close>. \<open>longjmp\<close> is a snapshot in \<open>jump\<close>, which ends the event; the end of the process is \<open>l_exit\<close>, and
  \<open>Inl\<close> in the results of the bridge and the channel. Callbacks of PPP run after the PPP operation that made
  them, in order.

  \<^bold>\<open>What is shown.\<close>
  \<^item> The iOS client: a started session runs through every sequence of events without a memory error and
    with stages and codes of the contract (\<open>ios_run_safe\<close>); it keeps its TLS policy
    (\<open>ios_trust_policy\<close>) and binds before it is ready (\<open>ios_ready_bound\<close>); against a server that follows the
    protocol it gets ready (\<open>ios_connects\<close>), and so it does with one that skips the authentication
    (\<open>ios_unauthenticated\<close>).
  \<^item> The command line client: nothing of the control protocol or of pppd exists before the certificate is accepted
    (\<open>client_trust\<close>, in every run), it gets from the command line to a running pppd (\<open>client_opens\<close>) and from
    pppd's authentication to the crypto binding (\<open>client_binds\<close>); the bridge delivers the packets of pppd for
    every cutting of the terminal's bytes (\<open>pty_bridge\<close>) when no beginning of a packet passes for a frame, and may
    cut off one that does (\<open>prefix_sent\<close>).
  \<^item> PPP: safety of every run, sends in order and one in flight, the MPPE round trip and its catching up,
    the messages and decisions of LCP, CHAP, IPCP and CCP.
  \<^item> State machine: the exact messages, the keepalive with what it sends, what each answer of the server does.
  \<^item> Stream: packet framing over splits into TLS records of which the first has the header (\<open>recv_sstp_framing\<close>; a first
    record of one or two bytes on a fresh buffer is a false success, \<open>recv_sstp_unchecked\<close>), sends that are reported once,
    conservation of sends, the HTTP header.
  \<^item> Packets, framing, MAC, keys, HTTP, URL, options, plugin messages, tasks, injection: round trips, refinement
    of the wire format, agreement with reference definitions, bounds.
  \<^item> The Linux client's privileges: the sandbox is left as the asked user with no way back (\<open>sandbox_drops\<close>).
  \<^item> The trace: what is printed of a negotiation, in order (\<open>dump_negotiation\<close>): values of CCP only for MPPC, and nothing
    for options without a name or, in LCP, without a value (\<open>pcomp_not_printed\<close>); the bytes of a control message
    read back (\<open>dump_bytes\<close>); a line of the log (\<open>log_msg_line\<close>) and its options (\<open>log_argv_pass\<close>).
  \<^item> Routes: what the kernel answers is what is put back, as a route to the host, past messages of others that are not
    errors; an error of whatever request ends this one (\<open>route_put_back\<close>).
  \<^item> Errors of the program are theorems too (names in the manifest): among them the null call
    on an early data packet (\<open>ios_data_first\<close>) and the race of the injection (\<open>inject_race\<close>).

  \<^bold>\<open>Bounds.\<close> An SSTP buffer has 16384 bytes, a PPP transmit buffer is limited as in the code. A data
  packet may hand PPP at most 1419 bytes: beyond it \<open>handle_mppe\<close> overflows an array (a finding), and
  this is the bound in \<open>sound_packet\<close>, which also asks that the attributes of a control message are within
  it: the parser does not check. \<open>ios_world\<close> has two levels because calls nest at most twice: data to PPP,
  PPP up to the machine's Connected message, and the report of its failure; at level 0 a call is \<open>None\<close>,
  so that the safety theorems prove that two are enough. The command line client needs no levels: its machine's
  calls do not come back. \<open>pty_bridge\<close> is for frames of at most 8191 bytes that no shorter piece passes for
  (\<open>carried\<close>) and reads of at most 8191 bytes.

  \<^bold>\<open>Not modelled.\<close> The branches of \<^verbatim>\<open>sstp-route.c\<close> for Apple (stubs) and without netlink (it runs another program); the command line
  client takes the answer of its routes as an argument (\<open>m_route\<close>); \<^verbatim>\<open>sstp_norm_data\<close> and \<^verbatim>\<open>sstp_norm_time\<close> (floating point text) and
  the usage text of the log. Log and trace are modelled by themselves: the definitions of the engine leave out its log calls,
  which change none of its state. The Objective-C application, tunnel provider and SecTrust bridge are glue to system
  frameworks; OpenSSL and libevent are parameters. Of the modelled files, functions that only release memory
  (\<open>sstp_ios_session_free\<close> and its kin) have no definition. The branch for
  \<^verbatim>\<open>SSTP_IOS_CA_BUNDLE_PATH\<close> is not compiled. Calls from other threads are atomic events; where the
  code is not atomic (the two writes of \<open>sstp_ios_session_write_ip\<close>) they can be given separately.
  The stream is modelled by itself; in the clients it is its answers. The command line client ends where its
  event loop does.

  \<^bold>\<open>Plan.\<close> The stream as the provider of
  \<open>world\<close> in place of its answers; memory safety of whole runs of the command line client.
\<close>

end
